(* ===== verification/Prelude.thy ===== *)
theory Prelude
  imports Main "HOL-Library.Word"
begin

text \<open>
  Shared vocabulary of the development: the C integer types of the guest headers as
  words, big-endian byte pairs and binary-coded decimals, and the collections of facts that
  the component theories fill.
\<close>

unbundle bit_operations_syntax

named_theorems cec_const \<comment> \<open>values of the CEC opcodes and operands\<close>
named_theorems cec_enc \<comment> \<open>the message builders\<close>
named_theorems cec_dec \<comment> \<open>the message readers\<close>
named_theorems abi_def \<comment> \<open>the ABI macros of the C headers\<close>

section \<open>C integer types\<close>

type_synonym u8 = "8 word"
type_synonym u16 = "16 word"
type_synonym u32 = "32 word"
type_synonym u64 = "64 word"

text \<open>The two bytes of a 16-bit operand as the C code stores them (\<open>x >> 8\<close> and
  \<open>x & 0xff\<close>, each truncated to one byte) and the big-endian read \<open>(h << 8) | l\<close>.\<close>

definition hi8 :: "u16 \<Rightarrow> u8" where
  "hi8 x = ucast (drop_bit 8 x)"

definition lo8 :: "u16 \<Rightarrow> u8" where
  "lo8 x = ucast (x AND 0xff)"

definition be16 :: "u8 \<Rightarrow> u8 \<Rightarrow> u16" where
  "be16 h l = push_bit 8 (ucast h) OR ucast l"

text \<open>Bit masks as \<^const>\<open>mask\<close>s, for proofs that compare words bit by bit.\<close>

lemma mask_consts:
  "(0xff :: u8) = mask 8" "(0x7f :: u8) = mask 7" "(0x3f :: u8) = mask 6" "(0xf :: u8) = mask 4"
  "(3 :: u8) = mask 2" "(0xff :: u16) = mask 8" "(0xff :: u32) = mask 8"
  "(0xff00 :: u16) = push_bit 8 (mask 8)"
  by (simp_all add: mask_eq_exp_minus_1)

lemma be16_hi8_lo8 [simp]: "be16 (hi8 x) (lo8 x) = x"
  unfolding be16_def hi8_def lo8_def mask_consts
  by (rule bit_word_eqI) (auto simp: bit_simps)

text \<open>The big-endian three-byte operands: \<open>byte_of k x\<close> is \<open>(x >> k) & 0xff\<close> as stored in a
  byte, and \<open>be24\<close> is \<open>(a << 16) | (b << 8) | c\<close>.\<close>

definition byte_of :: "nat \<Rightarrow> u32 \<Rightarrow> u8" where
  "byte_of k x = ucast (drop_bit k x)"

definition be24 :: "u8 \<Rightarrow> u8 \<Rightarrow> u8 \<Rightarrow> u32" where
  "be24 a b c = push_bit 16 (ucast a) OR push_bit 8 (ucast b) OR ucast c"

lemma be24_byte_of: "be24 (byte_of 16 x) (byte_of 8 x) (byte_of 0 x) = x AND mask 24"
  unfolding be24_def byte_of_def
proof (rule bit_word_eqI)
  fix n assume "n < LENGTH(32)"
  then consider "n < 8" | "8 \<le> n" "n < 16" | "16 \<le> n" "n < 24" | "24 \<le> n" by linarith
  then show "bit (push_bit 16 (ucast (ucast (drop_bit 16 x) :: u8)) OR
      push_bit 8 (ucast (ucast (drop_bit 8 x) :: u8)) OR ucast (ucast (drop_bit 0 x) :: u8) :: u32) n =
    bit (x AND mask 24) n"
    using \<open>n < LENGTH(32)\<close> by cases (auto simp: bit_simps)
qed

text \<open>Hours and minutes in binary-coded decimal, \<open>((x / 10) << 4) | (x % 10)\<close> stored in a byte, and
  the read \<open>(b >> 4) * 10 + (b & 0xf)\<close>.\<close>

definition bcd :: "u8 \<Rightarrow> u8" where
  "bcd x = push_bit 4 (x div 10) OR (x mod 10)"

definition unbcd :: "u8 \<Rightarrow> u8" where
  "unbcd b = drop_bit 4 b * 10 + (b AND 0xf)"

text \<open>Two fields packed into one byte, \<open>(a << k) | b\<close>, and read back.\<close>

lemma unat_pow2: "k < LENGTH('a) \<Longrightarrow> unat (2 ^ k :: 'a::len word) = 2 ^ k"
proof -
  assume k: "k < LENGTH('a)"
  have "unat (2 ^ k :: 'a word) = unat (of_nat (2 ^ k) :: 'a word)" by simp
  also have "\<dots> = 2 ^ k mod 2 ^ LENGTH('a)" by (rule unat_of_nat)
  also have "\<dots> = 2 ^ k" using k by simp
  finally show ?thesis .
qed

lemma take_bit_small:
  fixes b :: "'a::len word"
  assumes "b < 2 ^ k" "k < LENGTH('a)"
  shows "take_bit k b = b"
proof -
  have "unat b < 2 ^ k"
    using assms by (simp add: word_less_nat_alt unat_pow2)
  then have "unat (take_bit k b) = unat b"
    by (simp add: unsigned_take_bit_eq take_bit_nat_eq_self)
  then show ?thesis by (rule word_unat_eq_iff [THEN iffD2])
qed

lemma take_bit_less:
  fixes b :: "'a::len word"
  assumes "take_bit k b = b" "k < LENGTH('a)"
  shows "b < 2 ^ k"
proof -
  have "unat b = take_bit k (unat b)" using arg_cong [OF assms(1), of unat]
    by (simp add: unsigned_take_bit_eq)
  then have "unat b < 2 ^ k" by (metis take_bit_nat_less_exp)
  then show ?thesis using assms(2) by (simp add: word_less_nat_alt unat_pow2)
qed

lemma unpack_low:
  fixes a b :: u8
  assumes "b < 2 ^ k" "k < 8"
  shows "(push_bit k a OR b) AND mask k = b"
proof -
  have "take_bit k b = b" using assms by (simp add: take_bit_small)
  then have "(push_bit k a OR b) AND mask k = (push_bit k a OR take_bit k b) AND mask k" by simp
  also have "\<dots> = take_bit k b" by (rule bit_word_eqI) (auto simp: bit_simps)
  finally show ?thesis using \<open>take_bit k b = b\<close> by simp
qed

lemma unpack_high:
  fixes a b :: u8
  assumes "b < 2 ^ k" "k < 8"
  shows "drop_bit k (push_bit k a OR b) = a AND mask (8 - k)"
proof -
  have b: "take_bit k b = b" using assms by (simp add: take_bit_small)
  have "drop_bit k (push_bit k a OR take_bit k b) = a AND mask (8 - k)"
    by (rule bit_word_eqI) (auto simp: bit_simps)
  then show ?thesis by (simp add: b)
qed

lemma and_mask_small:
  fixes a :: u8
  assumes "a < 2 ^ k" "k < 8"
  shows "a AND mask k = a"
  using take_bit_small [of a k] assms by (simp flip: take_bit_eq_mask)

lemma unat_unbcd_bcd: "unat (unbcd (bcd x)) = (unat x div 10 mod 16) * 10 + unat x mod 10"
proof -
  have r: "x mod 10 < 2 ^ 4"
    by (simp add: word_less_nat_alt unat_mod)
  have lo: "bcd x AND 0xf = x mod 10"
    using unpack_low [OF r] by (simp add: bcd_def mask_consts)
  have hi: "drop_bit 4 (bcd x) = (x div 10) AND mask 4"
    using unpack_high [OF r] by (simp add: bcd_def)
  have "unat ((x div 10) AND mask 4) = unat x div 10 mod 16"
    by (simp add: unat_div unat_mod unsigned_take_bit_eq take_bit_eq_mod flip: take_bit_eq_mask)
  then show ?thesis
    using unsigned_less [of x]
    by (simp add: unbcd_def lo hi unat_word_ariths)
qed

lemma bcd_roundtrip: "unbcd (bcd x) = x \<longleftrightarrow> x < 160"
proof -
  have "unbcd (bcd x) = x \<longleftrightarrow> unat (unbcd (bcd x)) = unat x"
    by (simp add: word_unat_eq_iff)
  also have "\<dots> \<longleftrightarrow> unat x < 160"
  proof -
    define q where "q = unat x div 10"
    have "unat x = q * 10 + unat x mod 10" by (simp add: q_def)
    then have "unat (unbcd (bcd x)) = unat x \<longleftrightarrow> q mod 16 = q"
      unfolding unat_unbcd_bcd q_def [symmetric] by linarith
    also have "\<dots> \<longleftrightarrow> q < 16" by (metis mod_less mod_less_divisor zero_less_numeral)
    also have "\<dots> \<longleftrightarrow> unat x < 160" by (simp add: q_def less_mult_imp_div_less div_less_iff_less_mult)
    finally show ?thesis .
  qed
  finally show ?thesis by (simp add: word_less_nat_alt)
qed

lemma bcd_roundtrip_small [simp]: "x < 160 \<Longrightarrow> unbcd (bcd x) = x"
  by (simp add: bcd_roundtrip)

end
