(* ===== verification/Cec.thy ===== *)
theory Cec
  imports Prelude
begin

text \<open>
  The CEC message structure of the guest header \<^verbatim>\<open>linux/cec.h\<close> shipped in the root image
  (\<^verbatim>\<open>.thistle.base/usr/include/linux/cec.h\<close>): the record \<^verbatim>\<open>struct cec_msg\<close>, the inline helpers
  that read and initialise it, the opcodes and operand values, and the byte-array statements
  (\<open>put_byte\<close>, \<open>put_bytes\<close>, \<open>append_byte\<close>) of which the builders in \<^verbatim>\<open>linux/cec-funcs.h\<close> consist.

  A C byte array is a list. A store at offset \<open>i\<close> replaces the bytes from \<open>i\<close> on, and a store past
  the end makes the list longer: that the list keeps its 16 elements is the statement that no
  store was out of bounds.
\<close>

section \<open>The message structure\<close>

definition CEC_MAX_MSG_SIZE :: nat where "CEC_MAX_MSG_SIZE = 16"

record cec_msg =
  m_tx_ts :: u64
  m_rx_ts :: u64
  m_len :: u32
  m_timeout :: u32
  m_sequence :: u32
  m_flags :: u32
  m_msg :: "u8 list"
  m_reply :: u8
  m_rx_status :: u8
  m_tx_status :: u8
  m_tx_arb_lost_cnt :: u8
  m_tx_nack_cnt :: u8
  m_tx_low_drive_cnt :: u8
  m_tx_error_cnt :: u8

definition cec_wf :: "cec_msg \<Rightarrow> bool" where
  "cec_wf m \<longleftrightarrow> length (m_msg m) = CEC_MAX_MSG_SIZE"

section \<open>Statements on the byte array\<close>

definition get_byte :: "cec_msg \<Rightarrow> nat \<Rightarrow> u8" where
  "get_byte m i = m_msg m ! i"

definition get_bytes :: "cec_msg \<Rightarrow> nat \<Rightarrow> nat \<Rightarrow> u8 list" where
  "get_bytes m at n = take n (drop at (m_msg m))"

definition put_bytes :: "nat \<Rightarrow> u8 list \<Rightarrow> cec_msg \<Rightarrow> cec_msg" where
  "put_bytes at bs m =
     m\<lparr>m_msg := take at (m_msg m) @ bs @ drop (at + length bs) (m_msg m)\<rparr>"

definition put_byte :: "nat \<Rightarrow> u8 \<Rightarrow> cec_msg \<Rightarrow> cec_msg" where
  "put_byte i b = put_bytes i [b]"

definition or_byte :: "nat \<Rightarrow> u8 \<Rightarrow> cec_msg \<Rightarrow> cec_msg" where
  "or_byte i b m = put_byte i (get_byte m i OR b) m"

definition set_len :: "u32 \<Rightarrow> cec_msg \<Rightarrow> cec_msg" where
  "set_len n m = m\<lparr>m_len := n\<rparr>"

definition add_len :: "u32 \<Rightarrow> cec_msg \<Rightarrow> cec_msg" where
  "add_len n m = m\<lparr>m_len := m_len m + n\<rparr>"

text \<open>\<open>msg->msg[msg->len++] = b\<close>.\<close>

definition append_byte :: "u8 \<Rightarrow> cec_msg \<Rightarrow> cec_msg" where
  "append_byte b m = add_len 1 (put_byte (unat (m_len m)) b m)"

definition set_reply :: "bool \<Rightarrow> u8 \<Rightarrow> cec_msg \<Rightarrow> cec_msg" where
  "set_reply reply op m = m\<lparr>m_reply := (if reply then op else 0)\<rparr>"

text \<open>A block of statements, run in order.\<close>

definition stmts :: "(cec_msg \<Rightarrow> cec_msg) list \<Rightarrow> cec_msg \<Rightarrow> cec_msg" where
  "stmts fs m = fold (\<lambda>f. f) fs m"

text \<open>The text operands start at offset \<open>k\<close>: \<open>msg->len > k ? msg->len - k : 0\<close>.\<close>

definition text_len :: "u32 \<Rightarrow> cec_msg \<Rightarrow> nat" where
  "text_len k m = (if m_len m > k then unat (m_len m - k) else 0)"

section \<open>The inline helpers of cec.h\<close>

definition cec_msg_initiator :: "cec_msg \<Rightarrow> u8" where
  "cec_msg_initiator m = drop_bit 4 (get_byte m 0)"

definition cec_msg_destination :: "cec_msg \<Rightarrow> u8" where
  "cec_msg_destination m = get_byte m 0 AND 0xf"

definition cec_msg_opcode :: "cec_msg \<Rightarrow> int" where
  "cec_msg_opcode m = (if m_len m > 1 then uint (get_byte m 1) else -1)"

definition cec_msg_is_broadcast :: "cec_msg \<Rightarrow> bool" where
  "cec_msg_is_broadcast m \<longleftrightarrow> get_byte m 0 AND 0xf = 0xf"

definition cec_msg_init :: "u8 \<Rightarrow> u8 \<Rightarrow> cec_msg" where
  "cec_msg_init initiator destination =
     \<lparr>m_tx_ts = 0, m_rx_ts = 0, m_len = 1, m_timeout = 0, m_sequence = 0, m_flags = 0,
      m_msg = (push_bit 4 initiator OR destination) # replicate 15 0,
      m_reply = 0, m_rx_status = 0, m_tx_status = 0, m_tx_arb_lost_cnt = 0, m_tx_nack_cnt = 0,
      m_tx_low_drive_cnt = 0, m_tx_error_cnt = 0\<rparr>"

definition cec_msg_set_reply_to :: "cec_msg \<Rightarrow> cec_msg \<Rightarrow> cec_msg" where
  "cec_msg_set_reply_to orig m =
     (put_byte 0 (push_bit 4 (cec_msg_destination orig) OR cec_msg_initiator orig) m)
       \<lparr>m_reply := 0, m_timeout := 0\<rparr>"

definition cec_msg_recv_is_tx_result :: "cec_msg \<Rightarrow> bool" where
  "cec_msg_recv_is_tx_result m \<longleftrightarrow> m_sequence m \<noteq> 0 \<and> m_tx_status m \<noteq> 0 \<and> \<not> m_rx_status m \<noteq> 0"

definition cec_msg_recv_is_rx_result :: "cec_msg \<Rightarrow> bool" where
  "cec_msg_recv_is_rx_result m \<longleftrightarrow> m_sequence m \<noteq> 0 \<and> \<not> m_tx_status m \<noteq> 0 \<and> m_rx_status m \<noteq> 0"

definition cec_msg_status_is_ok :: "cec_msg \<Rightarrow> bool" where
  "cec_msg_status_is_ok m =
     (if m_tx_status m \<noteq> 0 \<and> m_tx_status m AND 1 = 0 then False
      else if m_rx_status m \<noteq> 0 \<and> m_rx_status m AND 1 = 0 then False
      else if m_tx_status m = 0 \<and> m_rx_status m = 0 then False
      else m_rx_status m AND 4 = 0)"

text \<open>The logical address masks: \<open>1 << address\<close>, or the union of the addresses of a type.\<close>

definition cec_has_tv :: "u16 \<Rightarrow> bool" where
  "cec_has_tv log_addr_mask \<longleftrightarrow> log_addr_mask AND (push_bit 0 1) \<noteq> 0"

definition cec_has_record :: "u16 \<Rightarrow> bool" where
  "cec_has_record log_addr_mask \<longleftrightarrow> log_addr_mask AND ((push_bit 1 1) OR (push_bit 2 1) OR (push_bit 9 1)) \<noteq> 0"

definition cec_has_tuner :: "u16 \<Rightarrow> bool" where
  "cec_has_tuner log_addr_mask \<longleftrightarrow> log_addr_mask AND ((push_bit 3 1) OR (push_bit 6 1) OR (push_bit 7 1) OR (push_bit 10 1)) \<noteq> 0"

definition cec_has_playback :: "u16 \<Rightarrow> bool" where
  "cec_has_playback log_addr_mask \<longleftrightarrow> log_addr_mask AND ((push_bit 4 1) OR (push_bit 8 1) OR (push_bit 11 1)) \<noteq> 0"

definition cec_has_audiosystem :: "u16 \<Rightarrow> bool" where
  "cec_has_audiosystem log_addr_mask \<longleftrightarrow> log_addr_mask AND (push_bit 5 1) \<noteq> 0"

definition cec_has_backup :: "u16 \<Rightarrow> bool" where
  "cec_has_backup log_addr_mask \<longleftrightarrow> log_addr_mask AND ((push_bit 12 1) OR (push_bit 13 1)) \<noteq> 0"

definition cec_has_specific :: "u16 \<Rightarrow> bool" where
  "cec_has_specific log_addr_mask \<longleftrightarrow> log_addr_mask AND (push_bit 14 1) \<noteq> 0"

definition cec_is_unregistered :: "u16 \<Rightarrow> bool" where
  "cec_is_unregistered log_addr_mask \<longleftrightarrow> log_addr_mask AND (push_bit 15 1) \<noteq> 0"

definition cec_is_unconfigured :: "u16 \<Rightarrow> bool" where
  "cec_is_unconfigured log_addr_mask \<longleftrightarrow> log_addr_mask = 0"

section \<open>How the statements read\<close>

lemma stmts_Nil [simp]: "stmts [] m = m"
  by (simp add: stmts_def)

lemma stmts_Cons [simp]: "stmts (f # fs) m = stmts fs (f m)"
  by (simp add: stmts_def)

lemma stmts_append [simp]: "stmts (fs @ gs) m = stmts gs (stmts fs m)"
  by (simp add: stmts_def)

text \<open>Every statement keeps the 16-byte array as long as it stays inside it.\<close>

lemma cec_wf_put_bytes [simp]:
  "at + length bs \<le> 16 \<Longrightarrow> cec_wf m \<Longrightarrow> cec_wf (put_bytes at bs m)"
  by (simp add: cec_wf_def put_bytes_def CEC_MAX_MSG_SIZE_def)

lemma cec_wf_put_byte [simp]: "i < 16 \<Longrightarrow> cec_wf m \<Longrightarrow> cec_wf (put_byte i b m)"
  by (simp add: put_byte_def)

lemma cec_wf_or_byte [simp]: "i < 16 \<Longrightarrow> cec_wf m \<Longrightarrow> cec_wf (or_byte i b m)"
  by (simp add: or_byte_def)

lemma cec_wf_append_byte [simp]:
  "m_len m < 16 \<Longrightarrow> cec_wf m \<Longrightarrow> cec_wf (append_byte b m)"
  by (simp add: append_byte_def add_len_def word_less_nat_alt cec_wf_def put_byte_def put_bytes_def
      CEC_MAX_MSG_SIZE_def)

lemma cec_wf_fields [simp]:
  "cec_wf (set_len n m) = cec_wf m" "cec_wf (add_len n m) = cec_wf m"
  "cec_wf (set_reply r op m) = cec_wf m"
  by (simp_all add: cec_wf_def set_len_def add_len_def set_reply_def)

lemma cec_wf_init [simp]: "cec_wf (cec_msg_init i d)"
  by (simp add: cec_wf_def cec_msg_init_def CEC_MAX_MSG_SIZE_def)

lemma m_len_stmt [simp]:
  "m_len (put_bytes at bs m) = m_len m" "m_len (put_byte i b m) = m_len m"
  "m_len (or_byte i b m) = m_len m" "m_len (set_len n m) = n" "m_len (add_len n m) = m_len m + n"
  "m_len (set_reply r op m) = m_len m" "m_len (append_byte b m) = m_len m + 1"
  by (simp_all add: put_bytes_def put_byte_def or_byte_def set_len_def add_len_def set_reply_def
      append_byte_def)

lemma m_reply_stmt [simp]:
  "m_reply (put_bytes at bs m) = m_reply m" "m_reply (put_byte i b m) = m_reply m"
  "m_reply (or_byte i b m) = m_reply m" "m_reply (set_len n m) = m_reply m"
  "m_reply (add_len n m) = m_reply m" "m_reply (append_byte b m) = m_reply m"
  "m_reply (set_reply r op m) = (if r then op else 0)"
  by (simp_all add: put_bytes_def put_byte_def or_byte_def set_len_def add_len_def set_reply_def
      append_byte_def)

text \<open>Reading back a byte after a statement.\<close>

lemma get_byte_put_bytes:
  "cec_wf m \<Longrightarrow> at + length bs \<le> 16 \<Longrightarrow> i < 16 \<Longrightarrow>
   get_byte (put_bytes at bs m) i =
     (if at \<le> i \<and> i < at + length bs then bs ! (i - at) else get_byte m i)"
  by (auto simp: get_byte_def put_bytes_def cec_wf_def CEC_MAX_MSG_SIZE_def nth_append)

lemma get_byte_put_byte [simp]:
  "cec_wf m \<Longrightarrow> j < 16 \<Longrightarrow> i < 16 \<Longrightarrow>
   get_byte (put_byte j b m) i = (if i = j then b else get_byte m i)"
  by (auto simp: put_byte_def get_byte_put_bytes)

lemma get_byte_or_byte [simp]:
  "cec_wf m \<Longrightarrow> j < 16 \<Longrightarrow> i < 16 \<Longrightarrow>
   get_byte (or_byte j b m) i = (if i = j then get_byte m i OR b else get_byte m i)"
  by (auto simp: or_byte_def)

lemma get_byte_fields [simp]:
  "get_byte (set_len n m) i = get_byte m i" "get_byte (add_len n m) i = get_byte m i"
  "get_byte (set_reply r op m) i = get_byte m i"
  by (simp_all add: get_byte_def set_len_def add_len_def set_reply_def)

lemma get_byte_append_byte [simp]:
  "cec_wf m \<Longrightarrow> m_len m < 16 \<Longrightarrow> i < 16 \<Longrightarrow>
   get_byte (append_byte b m) i = (if i = unat (m_len m) then b else get_byte m i)"
  by (simp add: append_byte_def word_less_nat_alt)

lemma get_bytes_put_bytes:
  "cec_wf m \<Longrightarrow> at + length bs \<le> 16 \<Longrightarrow> n = length bs \<Longrightarrow> get_bytes (put_bytes at bs m) at n = bs"
  by (simp add: get_bytes_def put_bytes_def cec_wf_def CEC_MAX_MSG_SIZE_def)

lemma get_bytes_fields [simp]:
  "get_bytes (set_len n m) at k = get_bytes m at k" "get_bytes (add_len n m) at k = get_bytes m at k"
  "get_bytes (set_reply r op m) at k = get_bytes m at k"
  by (simp_all add: get_bytes_def set_len_def add_len_def set_reply_def)

section \<open>Opcodes and operand values\<close>

definition CEC_PHYS_ADDR_INVALID :: u16 where [cec_const]: "CEC_PHYS_ADDR_INVALID = 0xffff"
definition CEC_LOG_ADDR_BACKUP_1 :: u8 where [cec_const]: "CEC_LOG_ADDR_BACKUP_1 = 12"
definition CEC_LOG_ADDR_SPECIFIC :: u8 where [cec_const]: "CEC_LOG_ADDR_SPECIFIC = 14"
definition CEC_LOG_ADDR_UNREGISTERED :: u8 where [cec_const]: "CEC_LOG_ADDR_UNREGISTERED = 15"
definition CEC_MSG_ACTIVE_SOURCE :: u8 where [cec_const]: "CEC_MSG_ACTIVE_SOURCE = 0x82"
definition CEC_MSG_IMAGE_VIEW_ON :: u8 where [cec_const]: "CEC_MSG_IMAGE_VIEW_ON = 0x04"
definition CEC_MSG_TEXT_VIEW_ON :: u8 where [cec_const]: "CEC_MSG_TEXT_VIEW_ON = 0x0d"
definition CEC_MSG_INACTIVE_SOURCE :: u8 where [cec_const]: "CEC_MSG_INACTIVE_SOURCE = 0x9d"
definition CEC_MSG_REQUEST_ACTIVE_SOURCE :: u8 where [cec_const]: "CEC_MSG_REQUEST_ACTIVE_SOURCE = 0x85"
definition CEC_MSG_ROUTING_CHANGE :: u8 where [cec_const]: "CEC_MSG_ROUTING_CHANGE = 0x80"
definition CEC_MSG_ROUTING_INFORMATION :: u8 where [cec_const]: "CEC_MSG_ROUTING_INFORMATION = 0x81"
definition CEC_MSG_SET_STREAM_PATH :: u8 where [cec_const]: "CEC_MSG_SET_STREAM_PATH = 0x86"
definition CEC_MSG_STANDBY :: u8 where [cec_const]: "CEC_MSG_STANDBY = 0x36"
definition CEC_MSG_RECORD_OFF :: u8 where [cec_const]: "CEC_MSG_RECORD_OFF = 0x0b"
definition CEC_MSG_RECORD_ON :: u8 where [cec_const]: "CEC_MSG_RECORD_ON = 0x09"
definition CEC_OP_RECORD_SRC_OWN :: u8 where [cec_const]: "CEC_OP_RECORD_SRC_OWN = 1"
definition CEC_OP_RECORD_SRC_DIGITAL :: u8 where [cec_const]: "CEC_OP_RECORD_SRC_DIGITAL = 2"
definition CEC_OP_RECORD_SRC_ANALOG :: u8 where [cec_const]: "CEC_OP_RECORD_SRC_ANALOG = 3"
definition CEC_OP_RECORD_SRC_EXT_PLUG :: u8 where [cec_const]: "CEC_OP_RECORD_SRC_EXT_PLUG = 4"
definition CEC_OP_RECORD_SRC_EXT_PHYS_ADDR :: u8 where [cec_const]: "CEC_OP_RECORD_SRC_EXT_PHYS_ADDR = 5"
definition CEC_OP_SERVICE_ID_METHOD_BY_CHANNEL :: u8 where [cec_const]: "CEC_OP_SERVICE_ID_METHOD_BY_CHANNEL = 1"
definition CEC_OP_DIG_SERVICE_BCAST_SYSTEM_ATSC_GEN :: u8 where [cec_const]: "CEC_OP_DIG_SERVICE_BCAST_SYSTEM_ATSC_GEN = 0x01"
definition CEC_OP_DIG_SERVICE_BCAST_SYSTEM_ATSC_CABLE :: u8 where [cec_const]: "CEC_OP_DIG_SERVICE_BCAST_SYSTEM_ATSC_CABLE = 0x10"
definition CEC_OP_DIG_SERVICE_BCAST_SYSTEM_ATSC_SAT :: u8 where [cec_const]: "CEC_OP_DIG_SERVICE_BCAST_SYSTEM_ATSC_SAT = 0x11"
definition CEC_OP_DIG_SERVICE_BCAST_SYSTEM_ATSC_T :: u8 where [cec_const]: "CEC_OP_DIG_SERVICE_BCAST_SYSTEM_ATSC_T = 0x12"
definition CEC_MSG_RECORD_STATUS :: u8 where [cec_const]: "CEC_MSG_RECORD_STATUS = 0x0a"
definition CEC_MSG_RECORD_TV_SCREEN :: u8 where [cec_const]: "CEC_MSG_RECORD_TV_SCREEN = 0x0f"
definition CEC_MSG_CLEAR_ANALOGUE_TIMER :: u8 where [cec_const]: "CEC_MSG_CLEAR_ANALOGUE_TIMER = 0x33"
definition CEC_MSG_CLEAR_DIGITAL_TIMER :: u8 where [cec_const]: "CEC_MSG_CLEAR_DIGITAL_TIMER = 0x99"
definition CEC_MSG_CLEAR_EXT_TIMER :: u8 where [cec_const]: "CEC_MSG_CLEAR_EXT_TIMER = 0xa1"
definition CEC_MSG_SET_ANALOGUE_TIMER :: u8 where [cec_const]: "CEC_MSG_SET_ANALOGUE_TIMER = 0x34"
definition CEC_MSG_SET_DIGITAL_TIMER :: u8 where [cec_const]: "CEC_MSG_SET_DIGITAL_TIMER = 0x97"
definition CEC_MSG_SET_EXT_TIMER :: u8 where [cec_const]: "CEC_MSG_SET_EXT_TIMER = 0xa2"
definition CEC_MSG_SET_TIMER_PROGRAM_TITLE :: u8 where [cec_const]: "CEC_MSG_SET_TIMER_PROGRAM_TITLE = 0x67"
definition CEC_MSG_TIMER_CLEARED_STATUS :: u8 where [cec_const]: "CEC_MSG_TIMER_CLEARED_STATUS = 0x43"
definition CEC_MSG_TIMER_STATUS :: u8 where [cec_const]: "CEC_MSG_TIMER_STATUS = 0x35"
definition CEC_OP_PROG_INFO_NOT_ENOUGH_SPACE :: u8 where [cec_const]: "CEC_OP_PROG_INFO_NOT_ENOUGH_SPACE = 0x09"
definition CEC_OP_PROG_INFO_MIGHT_NOT_BE_ENOUGH_SPACE :: u8 where [cec_const]: "CEC_OP_PROG_INFO_MIGHT_NOT_BE_ENOUGH_SPACE = 0x0b"
definition CEC_OP_PROG_ERROR_DUPLICATE :: u8 where [cec_const]: "CEC_OP_PROG_ERROR_DUPLICATE = 0x0e"
definition CEC_MSG_CEC_VERSION :: u8 where [cec_const]: "CEC_MSG_CEC_VERSION = 0x9e"
definition CEC_MSG_GET_CEC_VERSION :: u8 where [cec_const]: "CEC_MSG_GET_CEC_VERSION = 0x9f"
definition CEC_MSG_GIVE_PHYSICAL_ADDR :: u8 where [cec_const]: "CEC_MSG_GIVE_PHYSICAL_ADDR = 0x83"
definition CEC_MSG_GET_MENU_LANGUAGE :: u8 where [cec_const]: "CEC_MSG_GET_MENU_LANGUAGE = 0x91"
definition CEC_MSG_REPORT_PHYSICAL_ADDR :: u8 where [cec_const]: "CEC_MSG_REPORT_PHYSICAL_ADDR = 0x84"
definition CEC_OP_PRIM_DEVTYPE_TV :: u8 where [cec_const]: "CEC_OP_PRIM_DEVTYPE_TV = 0"
definition CEC_OP_PRIM_DEVTYPE_SWITCH :: u8 where [cec_const]: "CEC_OP_PRIM_DEVTYPE_SWITCH = 6"
definition CEC_OP_PRIM_DEVTYPE_PROCESSOR :: u8 where [cec_const]: "CEC_OP_PRIM_DEVTYPE_PROCESSOR = 7"
definition CEC_MSG_SET_MENU_LANGUAGE :: u8 where [cec_const]: "CEC_MSG_SET_MENU_LANGUAGE = 0x32"
definition CEC_MSG_REPORT_FEATURES :: u8 where [cec_const]: "CEC_MSG_REPORT_FEATURES = 0xa6"
definition CEC_OP_FEAT_EXT :: u8 where [cec_const]: "CEC_OP_FEAT_EXT = 0x80"
definition CEC_MSG_GIVE_FEATURES :: u8 where [cec_const]: "CEC_MSG_GIVE_FEATURES = 0xa5"
definition CEC_MSG_DECK_CONTROL :: u8 where [cec_const]: "CEC_MSG_DECK_CONTROL = 0x42"
definition CEC_MSG_DECK_STATUS :: u8 where [cec_const]: "CEC_MSG_DECK_STATUS = 0x1b"
definition CEC_MSG_GIVE_DECK_STATUS :: u8 where [cec_const]: "CEC_MSG_GIVE_DECK_STATUS = 0x1a"
definition CEC_OP_STATUS_REQ_OFF :: u8 where [cec_const]: "CEC_OP_STATUS_REQ_OFF = 2"
definition CEC_MSG_PLAY :: u8 where [cec_const]: "CEC_MSG_PLAY = 0x41"
definition CEC_MSG_GIVE_TUNER_DEVICE_STATUS :: u8 where [cec_const]: "CEC_MSG_GIVE_TUNER_DEVICE_STATUS = 0x08"
definition CEC_MSG_SELECT_ANALOGUE_SERVICE :: u8 where [cec_const]: "CEC_MSG_SELECT_ANALOGUE_SERVICE = 0x92"
definition CEC_MSG_SELECT_DIGITAL_SERVICE :: u8 where [cec_const]: "CEC_MSG_SELECT_DIGITAL_SERVICE = 0x93"
definition CEC_MSG_TUNER_DEVICE_STATUS :: u8 where [cec_const]: "CEC_MSG_TUNER_DEVICE_STATUS = 0x07"
definition CEC_MSG_TUNER_STEP_DECREMENT :: u8 where [cec_const]: "CEC_MSG_TUNER_STEP_DECREMENT = 0x06"
definition CEC_MSG_TUNER_STEP_INCREMENT :: u8 where [cec_const]: "CEC_MSG_TUNER_STEP_INCREMENT = 0x05"
definition CEC_MSG_DEVICE_VENDOR_ID :: u8 where [cec_const]: "CEC_MSG_DEVICE_VENDOR_ID = 0x87"
definition CEC_MSG_GIVE_DEVICE_VENDOR_ID :: u8 where [cec_const]: "CEC_MSG_GIVE_DEVICE_VENDOR_ID = 0x8c"
definition CEC_MSG_VENDOR_COMMAND :: u8 where [cec_const]: "CEC_MSG_VENDOR_COMMAND = 0x89"
definition CEC_MSG_VENDOR_COMMAND_WITH_ID :: u8 where [cec_const]: "CEC_MSG_VENDOR_COMMAND_WITH_ID = 0xa0"
definition CEC_MSG_VENDOR_REMOTE_BUTTON_DOWN :: u8 where [cec_const]: "CEC_MSG_VENDOR_REMOTE_BUTTON_DOWN = 0x8a"
definition CEC_MSG_VENDOR_REMOTE_BUTTON_UP :: u8 where [cec_const]: "CEC_MSG_VENDOR_REMOTE_BUTTON_UP = 0x8b"
definition CEC_MSG_SET_OSD_STRING :: u8 where [cec_const]: "CEC_MSG_SET_OSD_STRING = 0x64"
definition CEC_MSG_GIVE_OSD_NAME :: u8 where [cec_const]: "CEC_MSG_GIVE_OSD_NAME = 0x46"
definition CEC_MSG_SET_OSD_NAME :: u8 where [cec_const]: "CEC_MSG_SET_OSD_NAME = 0x47"
definition CEC_MSG_MENU_REQUEST :: u8 where [cec_const]: "CEC_MSG_MENU_REQUEST = 0x8d"
definition CEC_MSG_MENU_STATUS :: u8 where [cec_const]: "CEC_MSG_MENU_STATUS = 0x8e"
definition CEC_MSG_USER_CONTROL_PRESSED :: u8 where [cec_const]: "CEC_MSG_USER_CONTROL_PRESSED = 0x44"
definition CEC_OP_UI_CMD_SELECT_BROADCAST_TYPE :: u8 where [cec_const]: "CEC_OP_UI_CMD_SELECT_BROADCAST_TYPE = 0x56"
definition CEC_OP_UI_CMD_SELECT_SOUND_PRESENTATION :: u8 where [cec_const]: "CEC_OP_UI_CMD_SELECT_SOUND_PRESENTATION = 0x57"
definition CEC_OP_UI_CMD_PLAY_FUNCTION :: u8 where [cec_const]: "CEC_OP_UI_CMD_PLAY_FUNCTION = 0x60"
definition CEC_OP_UI_CMD_TUNE_FUNCTION :: u8 where [cec_const]: "CEC_OP_UI_CMD_TUNE_FUNCTION = 0x67"
definition CEC_OP_UI_CMD_SELECT_MEDIA_FUNCTION :: u8 where [cec_const]: "CEC_OP_UI_CMD_SELECT_MEDIA_FUNCTION = 0x68"
definition CEC_OP_UI_CMD_SELECT_AV_INPUT_FUNCTION :: u8 where [cec_const]: "CEC_OP_UI_CMD_SELECT_AV_INPUT_FUNCTION = 0x69"
definition CEC_OP_UI_CMD_SELECT_AUDIO_INPUT_FUNCTION :: u8 where [cec_const]: "CEC_OP_UI_CMD_SELECT_AUDIO_INPUT_FUNCTION = 0x6a"
definition CEC_MSG_USER_CONTROL_RELEASED :: u8 where [cec_const]: "CEC_MSG_USER_CONTROL_RELEASED = 0x45"
definition CEC_MSG_GIVE_DEVICE_POWER_STATUS :: u8 where [cec_const]: "CEC_MSG_GIVE_DEVICE_POWER_STATUS = 0x8f"
definition CEC_MSG_REPORT_POWER_STATUS :: u8 where [cec_const]: "CEC_MSG_REPORT_POWER_STATUS = 0x90"
definition CEC_MSG_FEATURE_ABORT :: u8 where [cec_const]: "CEC_MSG_FEATURE_ABORT = 0x00"
definition CEC_MSG_ABORT :: u8 where [cec_const]: "CEC_MSG_ABORT = 0xff"
definition CEC_MSG_GIVE_AUDIO_STATUS :: u8 where [cec_const]: "CEC_MSG_GIVE_AUDIO_STATUS = 0x71"
definition CEC_MSG_GIVE_SYSTEM_AUDIO_MODE_STATUS :: u8 where [cec_const]: "CEC_MSG_GIVE_SYSTEM_AUDIO_MODE_STATUS = 0x7d"
definition CEC_MSG_REPORT_AUDIO_STATUS :: u8 where [cec_const]: "CEC_MSG_REPORT_AUDIO_STATUS = 0x7a"
definition CEC_MSG_REPORT_SHORT_AUDIO_DESCRIPTOR :: u8 where [cec_const]: "CEC_MSG_REPORT_SHORT_AUDIO_DESCRIPTOR = 0xa3"
definition CEC_MSG_REQUEST_SHORT_AUDIO_DESCRIPTOR :: u8 where [cec_const]: "CEC_MSG_REQUEST_SHORT_AUDIO_DESCRIPTOR = 0xa4"
definition CEC_MSG_SET_SYSTEM_AUDIO_MODE :: u8 where [cec_const]: "CEC_MSG_SET_SYSTEM_AUDIO_MODE = 0x72"
definition CEC_MSG_SYSTEM_AUDIO_MODE_REQUEST :: u8 where [cec_const]: "CEC_MSG_SYSTEM_AUDIO_MODE_REQUEST = 0x70"
definition CEC_MSG_SYSTEM_AUDIO_MODE_STATUS :: u8 where [cec_const]: "CEC_MSG_SYSTEM_AUDIO_MODE_STATUS = 0x7e"
definition CEC_MSG_SET_AUDIO_VOLUME_LEVEL :: u8 where [cec_const]: "CEC_MSG_SET_AUDIO_VOLUME_LEVEL = 0x73"
definition CEC_MSG_SET_AUDIO_RATE :: u8 where [cec_const]: "CEC_MSG_SET_AUDIO_RATE = 0x9a"
definition CEC_MSG_INITIATE_ARC :: u8 where [cec_const]: "CEC_MSG_INITIATE_ARC = 0xc0"
definition CEC_MSG_REPORT_ARC_INITIATED :: u8 where [cec_const]: "CEC_MSG_REPORT_ARC_INITIATED = 0xc1"
definition CEC_MSG_REPORT_ARC_TERMINATED :: u8 where [cec_const]: "CEC_MSG_REPORT_ARC_TERMINATED = 0xc2"
definition CEC_MSG_REQUEST_ARC_INITIATION :: u8 where [cec_const]: "CEC_MSG_REQUEST_ARC_INITIATION = 0xc3"
definition CEC_MSG_REQUEST_ARC_TERMINATION :: u8 where [cec_const]: "CEC_MSG_REQUEST_ARC_TERMINATION = 0xc4"
definition CEC_MSG_TERMINATE_ARC :: u8 where [cec_const]: "CEC_MSG_TERMINATE_ARC = 0xc5"
definition CEC_MSG_REQUEST_CURRENT_LATENCY :: u8 where [cec_const]: "CEC_MSG_REQUEST_CURRENT_LATENCY = 0xa7"
definition CEC_MSG_REPORT_CURRENT_LATENCY :: u8 where [cec_const]: "CEC_MSG_REPORT_CURRENT_LATENCY = 0xa8"
definition CEC_MSG_CDC_MESSAGE :: u8 where [cec_const]: "CEC_MSG_CDC_MESSAGE = 0xf8"
definition CEC_MSG_CDC_HEC_INQUIRE_STATE :: u8 where [cec_const]: "CEC_MSG_CDC_HEC_INQUIRE_STATE = 0x00"
definition CEC_MSG_CDC_HEC_REPORT_STATE :: u8 where [cec_const]: "CEC_MSG_CDC_HEC_REPORT_STATE = 0x01"
definition CEC_MSG_CDC_HEC_SET_STATE_ADJACENT :: u8 where [cec_const]: "CEC_MSG_CDC_HEC_SET_STATE_ADJACENT = 0x02"
definition CEC_MSG_CDC_HEC_SET_STATE :: u8 where [cec_const]: "CEC_MSG_CDC_HEC_SET_STATE = 0x03"
definition CEC_MSG_CDC_HEC_REQUEST_DEACTIVATION :: u8 where [cec_const]: "CEC_MSG_CDC_HEC_REQUEST_DEACTIVATION = 0x04"
definition CEC_MSG_CDC_HEC_NOTIFY_ALIVE :: u8 where [cec_const]: "CEC_MSG_CDC_HEC_NOTIFY_ALIVE = 0x05"
definition CEC_MSG_CDC_HEC_DISCOVER :: u8 where [cec_const]: "CEC_MSG_CDC_HEC_DISCOVER = 0x06"
definition CEC_MSG_CDC_HPD_SET_STATE :: u8 where [cec_const]: "CEC_MSG_CDC_HPD_SET_STATE = 0x10"
definition CEC_MSG_CDC_HPD_REPORT_STATE :: u8 where [cec_const]: "CEC_MSG_CDC_HPD_REPORT_STATE = 0x11"

section \<open>The special devices\<close>

record cec_log_addrs =
  la_log_addr :: "u8 list"
  la_log_addr_mask :: u16
  la_cec_version :: u8
  la_num_log_addrs :: u8
  la_vendor_id :: u32
  la_flags :: u32
  la_osd_name :: "u8 list"
  la_primary_device_type :: "u8 list"
  la_log_addr_type :: "u8 list"
  la_all_device_types :: "u8 list"
  la_features :: "u8 list list"

definition cec_is_2nd_tv :: "cec_log_addrs \<Rightarrow> bool" where
  "cec_is_2nd_tv las \<longleftrightarrow> la_num_log_addrs las \<noteq> 0 \<and> la_log_addr las ! 0 \<ge> CEC_LOG_ADDR_SPECIFIC \<and>
     la_primary_device_type las ! 0 = CEC_OP_PRIM_DEVTYPE_TV"

definition cec_is_processor :: "cec_log_addrs \<Rightarrow> bool" where
  "cec_is_processor las \<longleftrightarrow> la_num_log_addrs las \<noteq> 0 \<and> la_log_addr las ! 0 \<ge> CEC_LOG_ADDR_BACKUP_1 \<and>
     la_primary_device_type las ! 0 = CEC_OP_PRIM_DEVTYPE_PROCESSOR"

definition cec_is_switch :: "cec_log_addrs \<Rightarrow> bool" where
  "cec_is_switch las \<longleftrightarrow> la_num_log_addrs las = 1 \<and> la_log_addr las ! 0 = CEC_LOG_ADDR_UNREGISTERED \<and>
     la_primary_device_type las ! 0 = CEC_OP_PRIM_DEVTYPE_SWITCH \<and> la_flags las AND 4 = 0"

definition cec_is_cdc_only :: "cec_log_addrs \<Rightarrow> bool" where
  "cec_is_cdc_only las \<longleftrightarrow> la_num_log_addrs las = 1 \<and> la_log_addr las ! 0 = CEC_LOG_ADDR_UNREGISTERED \<and>
     la_primary_device_type las ! 0 = CEC_OP_PRIM_DEVTYPE_SWITCH \<and> la_flags las AND 4 \<noteq> 0"

end
