(* ===== verification/CecProgram.thy ===== *)
theory CecProgram
  imports Cec
begin

text \<open>
  The message builders and readers of \<^verbatim>\<open>linux/cec-funcs.h\<close> for one touch play, routing control,
  standby, one touch record and timer programming. Each \<open>cec_msg_\<close> function is the list of
  statements of its C body; each \<open>cec_ops_\<close> function returns the values the C body stores through
  its output pointers, in their order. An \<open>int reply\<close> parameter, used as a truth value only, is a
  \<^typ>\<open>bool\<close>; a C string is the list of its characters before the NUL.
\<close>

section \<open>One Touch Play Feature\<close>

definition cec_msg_active_source :: "u16 \<Rightarrow> cec_msg \<Rightarrow> cec_msg" where
  [cec_enc]: "cec_msg_active_source phys_addr = stmts
     [set_len 4, or_byte 0 0xf, put_byte 1 CEC_MSG_ACTIVE_SOURCE,
      put_byte 2 (hi8 phys_addr), put_byte 3 (lo8 phys_addr)]"

definition cec_ops_active_source :: "cec_msg \<Rightarrow> u16" where
  [cec_dec]: "cec_ops_active_source m =
     be16 (get_byte m 2) (get_byte m 3)"

definition cec_msg_image_view_on :: "cec_msg \<Rightarrow> cec_msg" where
  [cec_enc]: "cec_msg_image_view_on = stmts
     [set_len 2, put_byte 1 CEC_MSG_IMAGE_VIEW_ON]"

definition cec_msg_text_view_on :: "cec_msg \<Rightarrow> cec_msg" where
  [cec_enc]: "cec_msg_text_view_on = stmts
     [set_len 2, put_byte 1 CEC_MSG_TEXT_VIEW_ON]"

section \<open>Routing Control Feature\<close>

definition cec_msg_inactive_source :: "u16 \<Rightarrow> cec_msg \<Rightarrow> cec_msg" where
  [cec_enc]: "cec_msg_inactive_source phys_addr = stmts
     [set_len 4, put_byte 1 CEC_MSG_INACTIVE_SOURCE, put_byte 2 (hi8 phys_addr),
      put_byte 3 (lo8 phys_addr)]"

definition cec_ops_inactive_source :: "cec_msg \<Rightarrow> u16" where
  [cec_dec]: "cec_ops_inactive_source m =
     be16 (get_byte m 2) (get_byte m 3)"

definition cec_msg_request_active_source :: "bool \<Rightarrow> cec_msg \<Rightarrow> cec_msg" where
  [cec_enc]: "cec_msg_request_active_source reply = stmts
     [set_len 2, or_byte 0 0xf, put_byte 1 CEC_MSG_REQUEST_ACTIVE_SOURCE,
      set_reply reply CEC_MSG_ACTIVE_SOURCE]"

definition cec_msg_routing_information :: "u16 \<Rightarrow> cec_msg \<Rightarrow> cec_msg" where
  [cec_enc]: "cec_msg_routing_information phys_addr = stmts
     [set_len 4, or_byte 0 0xf, put_byte 1 CEC_MSG_ROUTING_INFORMATION,
      put_byte 2 (hi8 phys_addr), put_byte 3 (lo8 phys_addr)]"

definition cec_ops_routing_information :: "cec_msg \<Rightarrow> u16" where
  [cec_dec]: "cec_ops_routing_information m =
     be16 (get_byte m 2) (get_byte m 3)"

definition cec_msg_routing_change :: "bool \<Rightarrow> u16 \<Rightarrow> u16 \<Rightarrow> cec_msg \<Rightarrow> cec_msg" where
  [cec_enc]: "cec_msg_routing_change reply orig_phys_addr new_phys_addr = stmts
     [set_len 6, or_byte 0 0xf, put_byte 1 CEC_MSG_ROUTING_CHANGE,
      put_byte 2 (hi8 orig_phys_addr), put_byte 3 (lo8 orig_phys_addr),
      put_byte 4 (hi8 new_phys_addr), put_byte 5 (lo8 new_phys_addr),
      set_reply reply CEC_MSG_ROUTING_INFORMATION]"

definition cec_ops_routing_change :: "cec_msg \<Rightarrow> u16 \<times> u16" where
  [cec_dec]: "cec_ops_routing_change m =
     (be16 (get_byte m 2) (get_byte m 3), be16 (get_byte m 4) (get_byte m 5))"

definition cec_msg_set_stream_path :: "u16 \<Rightarrow> cec_msg \<Rightarrow> cec_msg" where
  [cec_enc]: "cec_msg_set_stream_path phys_addr = stmts
     [set_len 4, or_byte 0 0xf, put_byte 1 CEC_MSG_SET_STREAM_PATH,
      put_byte 2 (hi8 phys_addr), put_byte 3 (lo8 phys_addr)]"

definition cec_ops_set_stream_path :: "cec_msg \<Rightarrow> u16" where
  [cec_dec]: "cec_ops_set_stream_path m =
     be16 (get_byte m 2) (get_byte m 3)"

section \<open>Standby Feature\<close>

definition cec_msg_standby :: "cec_msg \<Rightarrow> cec_msg" where
  [cec_enc]: "cec_msg_standby = stmts
     [set_len 2, put_byte 1 CEC_MSG_STANDBY]"

section \<open>One Touch Record Feature\<close>

definition cec_msg_record_off :: "bool \<Rightarrow> cec_msg \<Rightarrow> cec_msg" where
  [cec_enc]: "cec_msg_record_off reply = stmts
     [set_len 2, put_byte 1 CEC_MSG_RECORD_OFF, set_reply reply CEC_MSG_RECORD_STATUS]"

text \<open>A digital service is identified by a method bit, a broadcast system and a union of three
  overlapping layouts of six bytes. The union is kept as its three half words, and each member
  is read out of them as the little-endian guest lays it out: the ARIB and DVB members and the
  ATSC member are half words 0, 1 (and 2); the channel member has its one-byte format in the
  low byte of half word 0 (the other byte of it is padding), the major number in half word 1
  and the minor number in half word 2.\<close>

record cec_op_digital_service_id =
  service_id_method :: u8
  dig_bcast_system :: u8
  su_half0 :: u16
  su_half1 :: u16
  su_half2 :: u16

abbreviation dvb_transport_id :: "cec_op_digital_service_id \<Rightarrow> u16" where
  "dvb_transport_id \<equiv> su_half0"
abbreviation dvb_service_id :: "cec_op_digital_service_id \<Rightarrow> u16" where
  "dvb_service_id \<equiv> su_half1"
abbreviation dvb_orig_network_id :: "cec_op_digital_service_id \<Rightarrow> u16" where
  "dvb_orig_network_id \<equiv> su_half2"
abbreviation atsc_transport_id :: "cec_op_digital_service_id \<Rightarrow> u16" where
  "atsc_transport_id \<equiv> su_half0"
abbreviation atsc_program_number :: "cec_op_digital_service_id \<Rightarrow> u16" where
  "atsc_program_number \<equiv> su_half1"
abbreviation channel_major :: "cec_op_digital_service_id \<Rightarrow> u16" where
  "channel_major \<equiv> su_half1"
abbreviation channel_minor :: "cec_op_digital_service_id \<Rightarrow> u16" where
  "channel_minor \<equiv> su_half2"

definition channel_number_fmt :: "cec_op_digital_service_id \<Rightarrow> u8" where
  [cec_dec]: "channel_number_fmt d = ucast (su_half0 d)"

definition set_channel_number_fmt :: "u8 \<Rightarrow> cec_op_digital_service_id \<Rightarrow> cec_op_digital_service_id" where
  [cec_dec]: "set_channel_number_fmt f d = d\<lparr>su_half0 := (su_half0 d AND 0xff00) OR ucast f\<rparr>"

text \<open>The record source: each reader and writer touches only the union member that the type
  byte selects, so the members are separate fields here.\<close>

record cec_op_record_src =
  rs_type :: u8
  rs_digital :: cec_op_digital_service_id
  rs_ana_bcast_type :: u8
  rs_ana_freq :: u16
  rs_bcast_system :: u8
  rs_plug :: u8
  rs_phys_addr :: u16


definition cec_set_digital_service_id :: "nat \<Rightarrow> cec_op_digital_service_id \<Rightarrow> cec_msg \<Rightarrow> cec_msg" where
  [cec_enc]: "cec_set_digital_service_id at d =
     (let b0 = push_bit 7 (service_id_method d) OR dig_bcast_system d in
      if service_id_method d = CEC_OP_SERVICE_ID_METHOD_BY_CHANNEL then
        put_bytes at
          [b0, push_bit 2 (channel_number_fmt d) OR hi8 (channel_major d), lo8 (channel_major d),
           hi8 (channel_minor d), lo8 (channel_minor d), 0, 0]
      else if dig_bcast_system d \<in> {CEC_OP_DIG_SERVICE_BCAST_SYSTEM_ATSC_GEN,
               CEC_OP_DIG_SERVICE_BCAST_SYSTEM_ATSC_CABLE, CEC_OP_DIG_SERVICE_BCAST_SYSTEM_ATSC_SAT,
               CEC_OP_DIG_SERVICE_BCAST_SYSTEM_ATSC_T} then
        put_bytes at
          [b0, hi8 (atsc_transport_id d), lo8 (atsc_transport_id d),
           hi8 (atsc_program_number d), lo8 (atsc_program_number d), 0, 0]
      else
        put_bytes at
          [b0, hi8 (dvb_transport_id d), lo8 (dvb_transport_id d), hi8 (dvb_service_id d),
           lo8 (dvb_service_id d), hi8 (dvb_orig_network_id d), lo8 (dvb_orig_network_id d)])"

definition cec_get_digital_service_id :: "nat \<Rightarrow> cec_msg \<Rightarrow> cec_op_digital_service_id \<Rightarrow> cec_op_digital_service_id" where
  [cec_dec]: "cec_get_digital_service_id at m d =
     (let b = (\<lambda>i. get_byte m (at + i));
          d1 = d\<lparr>service_id_method := drop_bit 7 (b 0), dig_bcast_system := b 0 AND 0x7f\<rparr> in
      if service_id_method d1 = CEC_OP_SERVICE_ID_METHOD_BY_CHANNEL then
        (set_channel_number_fmt (drop_bit 2 (b 1)) d1)
          \<lparr>su_half1 := push_bit 6 (ucast (b 1 AND 3)) OR ucast (b 2),
           su_half2 := be16 (b 3) (b 4)\<rparr>
      else
        d1\<lparr>su_half0 := be16 (b 1) (b 2), su_half1 := be16 (b 3) (b 4), su_half2 := be16 (b 5) (b 6)\<rparr>)"

definition cec_msg_record_on_own :: "cec_msg \<Rightarrow> cec_msg" where
  [cec_enc]: "cec_msg_record_on_own = stmts
     [set_len 3, put_byte 1 CEC_MSG_RECORD_ON, put_byte 2 CEC_OP_RECORD_SRC_OWN]"

definition cec_msg_record_on_digital :: "cec_op_digital_service_id \<Rightarrow> cec_msg \<Rightarrow> cec_msg" where
  [cec_enc]: "cec_msg_record_on_digital digital = stmts
     [set_len 10, put_byte 1 CEC_MSG_RECORD_ON, put_byte 2 CEC_OP_RECORD_SRC_DIGITAL,
      cec_set_digital_service_id 3 digital]"

definition cec_msg_record_on_analog :: "u8 \<Rightarrow> u16 \<Rightarrow> u8 \<Rightarrow> cec_msg \<Rightarrow> cec_msg" where
  [cec_enc]: "cec_msg_record_on_analog ana_bcast_type ana_freq bcast_system = stmts
     [set_len 7, put_byte 1 CEC_MSG_RECORD_ON, put_byte 2 CEC_OP_RECORD_SRC_ANALOG,
      put_byte 3 ana_bcast_type, put_byte 4 (hi8 ana_freq), put_byte 5 (lo8 ana_freq),
      put_byte 6 bcast_system]"

definition cec_msg_record_on_plug :: "u8 \<Rightarrow> cec_msg \<Rightarrow> cec_msg" where
  [cec_enc]: "cec_msg_record_on_plug plug = stmts
     [set_len 4, put_byte 1 CEC_MSG_RECORD_ON, put_byte 2 CEC_OP_RECORD_SRC_EXT_PLUG,
      put_byte 3 plug]"

definition cec_msg_record_on_phys_addr :: "u16 \<Rightarrow> cec_msg \<Rightarrow> cec_msg" where
  [cec_enc]: "cec_msg_record_on_phys_addr phys_addr = stmts
     [set_len 5, put_byte 1 CEC_MSG_RECORD_ON,
      put_byte 2 CEC_OP_RECORD_SRC_EXT_PHYS_ADDR, put_byte 3 (hi8 phys_addr),
      put_byte 4 (lo8 phys_addr)]"

definition cec_msg_record_on :: "bool \<Rightarrow> cec_op_record_src \<Rightarrow> cec_msg \<Rightarrow> cec_msg" where
  [cec_enc]: "cec_msg_record_on reply src = stmts
     [if rs_type src = CEC_OP_RECORD_SRC_OWN then cec_msg_record_on_own
      else if rs_type src = CEC_OP_RECORD_SRC_DIGITAL then cec_msg_record_on_digital (rs_digital src)
      else if rs_type src = CEC_OP_RECORD_SRC_ANALOG then
        cec_msg_record_on_analog (rs_ana_bcast_type src) (rs_ana_freq src) (rs_bcast_system src)
      else if rs_type src = CEC_OP_RECORD_SRC_EXT_PLUG then cec_msg_record_on_plug (rs_plug src)
      else if rs_type src = CEC_OP_RECORD_SRC_EXT_PHYS_ADDR then
        cec_msg_record_on_phys_addr (rs_phys_addr src)
      else id,
      set_reply reply CEC_MSG_RECORD_STATUS]"

definition cec_ops_record_on :: "cec_msg \<Rightarrow> cec_op_record_src \<Rightarrow> cec_op_record_src" where
  [cec_dec]: "cec_ops_record_on m src =
     (let s = src\<lparr>rs_type := get_byte m 2\<rparr> in
      if rs_type s = CEC_OP_RECORD_SRC_OWN then s
      else if rs_type s = CEC_OP_RECORD_SRC_DIGITAL then
        s\<lparr>rs_digital := cec_get_digital_service_id 3 m (rs_digital s)\<rparr>
      else if rs_type s = CEC_OP_RECORD_SRC_ANALOG then
        s\<lparr>rs_ana_bcast_type := get_byte m 3, rs_ana_freq := be16 (get_byte m 4) (get_byte m 5),
          rs_bcast_system := get_byte m 6\<rparr>
      else if rs_type s = CEC_OP_RECORD_SRC_EXT_PLUG then s\<lparr>rs_plug := get_byte m 3\<rparr>
      else if rs_type s = CEC_OP_RECORD_SRC_EXT_PHYS_ADDR then
        s\<lparr>rs_phys_addr := be16 (get_byte m 3) (get_byte m 4)\<rparr>
      else s)"

definition cec_msg_record_status :: "u8 \<Rightarrow> cec_msg \<Rightarrow> cec_msg" where
  [cec_enc]: "cec_msg_record_status rec_status = stmts
     [set_len 3, put_byte 1 CEC_MSG_RECORD_STATUS, put_byte 2 rec_status]"

definition cec_ops_record_status :: "cec_msg \<Rightarrow> u8" where
  [cec_dec]: "cec_ops_record_status m =
     get_byte m 2"

definition cec_msg_record_tv_screen :: "bool \<Rightarrow> cec_msg \<Rightarrow> cec_msg" where
  [cec_enc]: "cec_msg_record_tv_screen reply = stmts
     [set_len 2, put_byte 1 CEC_MSG_RECORD_TV_SCREEN, set_reply reply CEC_MSG_RECORD_ON]"

section \<open>Timer Programming Feature\<close>

definition cec_msg_timer_status :: "u8 \<Rightarrow> u8 \<Rightarrow> u8 \<Rightarrow> u8 \<Rightarrow> u8 \<Rightarrow> u8 \<Rightarrow> cec_msg \<Rightarrow> cec_msg" where
  [cec_enc]: "cec_msg_timer_status timer_overlap_warning media_info prog_info prog_error
      duration_hr duration_min = stmts
     ([set_len 3, put_byte 1 CEC_MSG_TIMER_STATUS,
       put_byte 2 (push_bit 7 timer_overlap_warning OR push_bit 5 media_info OR
         (if prog_info \<noteq> 0 then 0x10 else 0) OR (if prog_info \<noteq> 0 then prog_info else prog_error))] @
      (if prog_info = CEC_OP_PROG_INFO_NOT_ENOUGH_SPACE \<or>
          prog_info = CEC_OP_PROG_INFO_MIGHT_NOT_BE_ENOUGH_SPACE \<or>
          prog_error = CEC_OP_PROG_ERROR_DUPLICATE
       then [add_len 2, put_byte 3 (bcd duration_hr), put_byte 4 (bcd duration_min)] else []))"

definition cec_ops_timer_status :: "cec_msg \<Rightarrow> u8 \<times> u8 \<times> u8 \<times> u8 \<times> u8 \<times> u8" where
  [cec_dec]: "cec_ops_timer_status m =
     (let b2 = get_byte m 2;
          prog_info = (if b2 AND 0x10 \<noteq> 0 then b2 AND 0xf else 0);
          prog_error = (if b2 AND 0x10 \<noteq> 0 then 0 else b2 AND 0xf);
          timed = (prog_info = CEC_OP_PROG_INFO_NOT_ENOUGH_SPACE \<or>
                   prog_info = CEC_OP_PROG_INFO_MIGHT_NOT_BE_ENOUGH_SPACE \<or>
                   prog_error = CEC_OP_PROG_ERROR_DUPLICATE) in
      (drop_bit 7 b2, drop_bit 5 b2 AND 3, prog_info, prog_error,
       if timed then unbcd (get_byte m 3) else 0, if timed then unbcd (get_byte m 4) else 0))"

definition cec_msg_timer_cleared_status :: "u8 \<Rightarrow> cec_msg \<Rightarrow> cec_msg" where
  [cec_enc]: "cec_msg_timer_cleared_status timer_cleared_status = stmts
     [set_len 3, put_byte 1 CEC_MSG_TIMER_CLEARED_STATUS, put_byte 2 timer_cleared_status]"

definition cec_ops_timer_cleared_status :: "cec_msg \<Rightarrow> u8" where
  [cec_dec]: "cec_ops_timer_cleared_status m =
     get_byte m 2"

definition cec_msg_clear_analogue_timer :: "bool \<Rightarrow> u8 \<Rightarrow> u8 \<Rightarrow> u8 \<Rightarrow> u8 \<Rightarrow> u8 \<Rightarrow> u8 \<Rightarrow> u8 \<Rightarrow> u8 \<Rightarrow> u16 \<Rightarrow> u8 \<Rightarrow> cec_msg \<Rightarrow> cec_msg" where
  [cec_enc]: "cec_msg_clear_analogue_timer reply day month start_hr start_min duration_hr duration_min recording_seq ana_bcast_type ana_freq bcast_system = stmts
     [set_len 13, put_byte 1 CEC_MSG_CLEAR_ANALOGUE_TIMER, put_byte 2 day,
      put_byte 3 month, put_byte 4 (bcd start_hr), put_byte 5 (bcd start_min),
      put_byte 6 (bcd duration_hr), put_byte 7 (bcd duration_min),
      put_byte 8 recording_seq, put_byte 9 ana_bcast_type, put_byte 10 (hi8 ana_freq),
      put_byte 11 (lo8 ana_freq), put_byte 12 bcast_system,
      set_reply reply CEC_MSG_TIMER_CLEARED_STATUS]"

definition cec_ops_clear_analogue_timer :: "cec_msg \<Rightarrow> u8 \<times> u8 \<times> u8 \<times> u8 \<times> u8 \<times> u8 \<times> u8 \<times> u8 \<times> u16 \<times> u8" where
  [cec_dec]: "cec_ops_clear_analogue_timer m =
     (get_byte m 2, get_byte m 3, unbcd (get_byte m 4), unbcd (get_byte m 5),
      unbcd (get_byte m 6), unbcd (get_byte m 7), get_byte m 8, get_byte m 9,
      be16 (get_byte m 10) (get_byte m 11), get_byte m 12)"

definition cec_msg_clear_digital_timer :: "bool \<Rightarrow> u8 \<Rightarrow> u8 \<Rightarrow> u8 \<Rightarrow> u8 \<Rightarrow> u8 \<Rightarrow> u8 \<Rightarrow> u8 \<Rightarrow> cec_op_digital_service_id \<Rightarrow> cec_msg \<Rightarrow> cec_msg" where
  [cec_enc]: "cec_msg_clear_digital_timer reply day month start_hr start_min duration_hr duration_min recording_seq digital = stmts
     [set_len 16, set_reply reply CEC_MSG_TIMER_CLEARED_STATUS,
      put_byte 1 CEC_MSG_CLEAR_DIGITAL_TIMER, put_byte 2 day, put_byte 3 month,
      put_byte 4 (bcd start_hr), put_byte 5 (bcd start_min),
      put_byte 6 (bcd duration_hr), put_byte 7 (bcd duration_min),
      put_byte 8 recording_seq, cec_set_digital_service_id 9 digital]"

definition cec_ops_clear_digital_timer :: "cec_op_digital_service_id \<Rightarrow> cec_msg \<Rightarrow> u8 \<times> u8 \<times> u8 \<times> u8 \<times> u8 \<times> u8 \<times> u8 \<times> cec_op_digital_service_id" where
  [cec_dec]: "cec_ops_clear_digital_timer digital m =
     (get_byte m 2, get_byte m 3, unbcd (get_byte m 4), unbcd (get_byte m 5),
      unbcd (get_byte m 6), unbcd (get_byte m 7), get_byte m 8,
      cec_get_digital_service_id 9 m digital)"

definition cec_msg_clear_ext_timer :: "bool \<Rightarrow> u8 \<Rightarrow> u8 \<Rightarrow> u8 \<Rightarrow> u8 \<Rightarrow> u8 \<Rightarrow> u8 \<Rightarrow> u8 \<Rightarrow> u8 \<Rightarrow> u8 \<Rightarrow> u16 \<Rightarrow> cec_msg \<Rightarrow> cec_msg" where
  [cec_enc]: "cec_msg_clear_ext_timer reply day month start_hr start_min duration_hr duration_min recording_seq ext_src_spec plug phys_addr = stmts
     [set_len 13, put_byte 1 CEC_MSG_CLEAR_EXT_TIMER, put_byte 2 day, put_byte 3 month,
      put_byte 4 (bcd start_hr), put_byte 5 (bcd start_min),
      put_byte 6 (bcd duration_hr), put_byte 7 (bcd duration_min),
      put_byte 8 recording_seq, put_byte 9 ext_src_spec, put_byte 10 plug,
      put_byte 11 (hi8 phys_addr), put_byte 12 (lo8 phys_addr),
      set_reply reply CEC_MSG_TIMER_CLEARED_STATUS]"

definition cec_ops_clear_ext_timer :: "cec_msg \<Rightarrow> u8 \<times> u8 \<times> u8 \<times> u8 \<times> u8 \<times> u8 \<times> u8 \<times> u8 \<times> u8 \<times> u16" where
  [cec_dec]: "cec_ops_clear_ext_timer m =
     (get_byte m 2, get_byte m 3, unbcd (get_byte m 4), unbcd (get_byte m 5),
      unbcd (get_byte m 6), unbcd (get_byte m 7), get_byte m 8, get_byte m 9,
      get_byte m 10, be16 (get_byte m 11) (get_byte m 12))"

definition cec_msg_set_analogue_timer :: "bool \<Rightarrow> u8 \<Rightarrow> u8 \<Rightarrow> u8 \<Rightarrow> u8 \<Rightarrow> u8 \<Rightarrow> u8 \<Rightarrow> u8 \<Rightarrow> u8 \<Rightarrow> u16 \<Rightarrow> u8 \<Rightarrow> cec_msg \<Rightarrow> cec_msg" where
  [cec_enc]: "cec_msg_set_analogue_timer reply day month start_hr start_min duration_hr duration_min recording_seq ana_bcast_type ana_freq bcast_system = stmts
     [set_len 13, put_byte 1 CEC_MSG_SET_ANALOGUE_TIMER, put_byte 2 day,
      put_byte 3 month, put_byte 4 (bcd start_hr), put_byte 5 (bcd start_min),
      put_byte 6 (bcd duration_hr), put_byte 7 (bcd duration_min),
      put_byte 8 recording_seq, put_byte 9 ana_bcast_type, put_byte 10 (hi8 ana_freq),
      put_byte 11 (lo8 ana_freq), put_byte 12 bcast_system,
      set_reply reply CEC_MSG_TIMER_STATUS]"

definition cec_ops_set_analogue_timer :: "cec_msg \<Rightarrow> u8 \<times> u8 \<times> u8 \<times> u8 \<times> u8 \<times> u8 \<times> u8 \<times> u8 \<times> u16 \<times> u8" where
  [cec_dec]: "cec_ops_set_analogue_timer m =
     (get_byte m 2, get_byte m 3, unbcd (get_byte m 4), unbcd (get_byte m 5),
      unbcd (get_byte m 6), unbcd (get_byte m 7), get_byte m 8, get_byte m 9,
      be16 (get_byte m 10) (get_byte m 11), get_byte m 12)"

definition cec_msg_set_digital_timer :: "bool \<Rightarrow> u8 \<Rightarrow> u8 \<Rightarrow> u8 \<Rightarrow> u8 \<Rightarrow> u8 \<Rightarrow> u8 \<Rightarrow> u8 \<Rightarrow> cec_op_digital_service_id \<Rightarrow> cec_msg \<Rightarrow> cec_msg" where
  [cec_enc]: "cec_msg_set_digital_timer reply day month start_hr start_min duration_hr duration_min recording_seq digital = stmts
     [set_len 16, set_reply reply CEC_MSG_TIMER_STATUS,
      put_byte 1 CEC_MSG_SET_DIGITAL_TIMER, put_byte 2 day, put_byte 3 month,
      put_byte 4 (bcd start_hr), put_byte 5 (bcd start_min),
      put_byte 6 (bcd duration_hr), put_byte 7 (bcd duration_min),
      put_byte 8 recording_seq, cec_set_digital_service_id 9 digital]"

definition cec_ops_set_digital_timer :: "cec_op_digital_service_id \<Rightarrow> cec_msg \<Rightarrow> u8 \<times> u8 \<times> u8 \<times> u8 \<times> u8 \<times> u8 \<times> u8 \<times> cec_op_digital_service_id" where
  [cec_dec]: "cec_ops_set_digital_timer digital m =
     (get_byte m 2, get_byte m 3, unbcd (get_byte m 4), unbcd (get_byte m 5),
      unbcd (get_byte m 6), unbcd (get_byte m 7), get_byte m 8,
      cec_get_digital_service_id 9 m digital)"

definition cec_msg_set_ext_timer :: "bool \<Rightarrow> u8 \<Rightarrow> u8 \<Rightarrow> u8 \<Rightarrow> u8 \<Rightarrow> u8 \<Rightarrow> u8 \<Rightarrow> u8 \<Rightarrow> u8 \<Rightarrow> u8 \<Rightarrow> u16 \<Rightarrow> cec_msg \<Rightarrow> cec_msg" where
  [cec_enc]: "cec_msg_set_ext_timer reply day month start_hr start_min duration_hr duration_min recording_seq ext_src_spec plug phys_addr = stmts
     [set_len 13, put_byte 1 CEC_MSG_SET_EXT_TIMER, put_byte 2 day, put_byte 3 month,
      put_byte 4 (bcd start_hr), put_byte 5 (bcd start_min),
      put_byte 6 (bcd duration_hr), put_byte 7 (bcd duration_min),
      put_byte 8 recording_seq, put_byte 9 ext_src_spec, put_byte 10 plug,
      put_byte 11 (hi8 phys_addr), put_byte 12 (lo8 phys_addr),
      set_reply reply CEC_MSG_TIMER_STATUS]"

definition cec_ops_set_ext_timer :: "cec_msg \<Rightarrow> u8 \<times> u8 \<times> u8 \<times> u8 \<times> u8 \<times> u8 \<times> u8 \<times> u8 \<times> u8 \<times> u16" where
  [cec_dec]: "cec_ops_set_ext_timer m =
     (get_byte m 2, get_byte m 3, unbcd (get_byte m 4), unbcd (get_byte m 5),
      unbcd (get_byte m 6), unbcd (get_byte m 7), get_byte m 8, get_byte m 9,
      get_byte m 10, be16 (get_byte m 11) (get_byte m 12))"

definition cec_msg_set_timer_program_title :: "u8 list \<Rightarrow> cec_msg \<Rightarrow> cec_msg" where
  [cec_enc]: "cec_msg_set_timer_program_title prog_title =
     (let n = min (length prog_title) 14 in stmts
     [set_len (2 + of_nat n), put_byte 1 CEC_MSG_SET_TIMER_PROGRAM_TITLE,
      put_bytes 2 (take n prog_title)])"

definition cec_ops_set_timer_program_title :: "cec_msg \<Rightarrow> u8 list" where
  [cec_dec]: "cec_ops_set_timer_program_title m =
     (let n = min (text_len 2 m) 14 in get_bytes m 2 n @ [0])"


section \<open>Physical addresses survive the wire\<close>

text \<open>The builders of the one touch play and routing messages and their readers are inverse on
  every 16-bit physical address, whatever the message held before.\<close>

theorem cec_routing_roundtrip:
  assumes "cec_wf m"
  shows "cec_ops_active_source (cec_msg_active_source a m) = a
     \<and> cec_ops_inactive_source (cec_msg_inactive_source a m) = a
     \<and> cec_ops_routing_information (cec_msg_routing_information a m) = a
     \<and> cec_ops_set_stream_path (cec_msg_set_stream_path a m) = a
     \<and> cec_ops_routing_change (cec_msg_routing_change r a b m) = (a, b)"
  using assms by (simp_all add: cec_enc cec_dec)

theorem cec_routing_roundtrip_witness:
  "cec_ops_active_source (cec_msg_active_source 0x1000 (cec_msg_init 4 0)) = 0x1000"
  using cec_routing_roundtrip [of "cec_msg_init 4 0", where a = "0x1000"] by simp

section \<open>Digital services\<close>

text \<open>The bytes a digital service is written into, whole.\<close>

lemma get_put7:
  assumes "cec_wf m" "at \<le> 9"
  shows "get_byte (put_bytes at [a, b, c, d, e, f, g] m) at = a"
    and "get_byte (put_bytes at [a, b, c, d, e, f, g] m) (Suc at) = b"
    and "get_byte (put_bytes at [a, b, c, d, e, f, g] m) (Suc (Suc at)) = c"
    and "get_byte (put_bytes at [a, b, c, d, e, f, g] m) (at + 3) = d"
    and "get_byte (put_bytes at [a, b, c, d, e, f, g] m) (at + 4) = e"
    and "get_byte (put_bytes at [a, b, c, d, e, f, g] m) (at + 5) = f"
    and "get_byte (put_bytes at [a, b, c, d, e, f, g] m) (at + 6) = g"
  using assms by (simp_all add: get_byte_put_bytes)

lemma method_bit:
  assumes "b < 128"
  shows "drop_bit 7 (push_bit 7 a OR b) = a AND (1 :: u8)"
    and "(push_bit 7 a OR b) AND 0x7f = (b :: u8)"
proof -
  have b: "b < 2 ^ 7" using assms by simp
  show "drop_bit 7 (push_bit 7 a OR b) = a AND 1"
    using unpack_high [OF b, of a] by (simp add: mask_eq_exp_minus_1)
  show "(push_bit 7 a OR b) AND 0x7f = b"
    using unpack_low [OF b, of a] by (simp add: mask_consts)
qed

lemmas service_simps = cec_const Let_def get_put7 method_bit

lemma be16_0 [simp]: "be16 0 0 = 0"
  by (simp add: be16_def)

text \<open>The broadcast systems whose services are written from the ATSC member.\<close>

definition is_atsc :: "u8 \<Rightarrow> bool" where
  "is_atsc sys \<longleftrightarrow> sys = 0x01 \<or> sys = 0x10 \<or> sys = 0x11 \<or> sys = 0x12"

lemma cec_digital_by_id:
  assumes "cec_wf m" "at \<le> 9" "service_id_method d = 0" "dig_bcast_system d < 128"
  shows "cec_get_digital_service_id at (cec_set_digital_service_id at d m) d0 =
    (if is_atsc (dig_bcast_system d) then d\<lparr>su_half2 := 0\<rparr> else d)"
  using assms method_bit [of "dig_bcast_system d" 0]
  by (auto simp: cec_set_digital_service_id_def cec_get_digital_service_id_def service_simps
      is_atsc_def intro!: cec_op_digital_service_id.equality)


lemma channel_major_bits:
  fixes f :: u8 and x :: u16
  assumes "f < 64" "x < 1024"
  shows "drop_bit 2 (push_bit 2 f OR hi8 x) = f" "(push_bit 2 f OR hi8 x) AND 3 = hi8 x"
proof -
  have x: "take_bit 10 x = x" using assms by (simp add: take_bit_small)
  have "take_bit 2 (hi8 x) = hi8 (take_bit 10 x)"
    unfolding hi8_def by (rule bit_word_eqI) (auto simp: bit_simps)
  then have "hi8 x < 2 ^ 2" using x by (intro take_bit_less) simp_all
  from unpack_high [OF this, of f] unpack_low [OF this, of f] and_mask_small [of f 6] assms
  show "drop_bit 2 (push_bit 2 f OR hi8 x) = f" "(push_bit 2 f OR hi8 x) AND 3 = hi8 x"
    by (simp_all add: mask_consts)
qed

lemma channel_major_read:
  fixes x :: u16
  assumes "x < 1024"
  shows "push_bit 6 (ucast (hi8 x)) OR ucast (lo8 x) = x \<longleftrightarrow> x < 256"
proof -
  have x: "take_bit 10 x = x" using assms by (simp add: take_bit_small)
  have "push_bit 6 (ucast (hi8 (take_bit 10 x))) OR ucast (lo8 (take_bit 10 x)) =
      take_bit 8 (push_bit 6 (ucast (hi8 x)) OR ucast (lo8 x) :: u16)"
    unfolding hi8_def lo8_def mask_consts by (rule bit_word_eqI) (auto simp: bit_simps)
  then have r: "take_bit 8 (push_bit 6 (ucast (hi8 x)) OR ucast (lo8 x)) =
      (push_bit 6 (ucast (hi8 x)) OR ucast (lo8 x) :: u16)" by (simp add: x)
  show ?thesis
  proof
    assume "push_bit 6 (ucast (hi8 x)) OR ucast (lo8 x) = x"
    then show "x < 256" using r take_bit_less [of 8 x] by simp
  next
    assume "x < 256"
    then have t: "take_bit 8 x = x" by (simp add: take_bit_small)
    have "push_bit 6 (ucast (hi8 (take_bit 8 x))) OR ucast (lo8 (take_bit 8 x)) = take_bit 8 x"
      unfolding hi8_def lo8_def mask_consts by (rule bit_word_eqI) (auto simp: bit_simps)
    then show "push_bit 6 (ucast (hi8 x)) OR ucast (lo8 x) = x" by (simp add: t)
  qed
qed

lemma channel_number_fmt_set [simp]: "channel_number_fmt (set_channel_number_fmt f d) = f"
  unfolding channel_number_fmt_def set_channel_number_fmt_def mask_consts
  by (rule bit_word_eqI) (auto simp: bit_simps)


lemma channel_number_fmt_fields [simp]:
  "channel_number_fmt (d\<lparr>su_half1 := a\<rparr>) = channel_number_fmt d"
  "channel_number_fmt (d\<lparr>su_half2 := a\<rparr>) = channel_number_fmt d"
  "service_id_method (set_channel_number_fmt f d) = service_id_method d"
  "dig_bcast_system (set_channel_number_fmt f d) = dig_bcast_system d"
  by (simp_all add: channel_number_fmt_def set_channel_number_fmt_def)

text \<open>A channel number: format, minor number and system survive, but the reader shifts the upper
  two bits of the major number by 6 where the builder put them at bit 8, so a major number of
  256 or more never comes back.\<close>

theorem cec_channel_roundtrip:
  fixes d d0 :: cec_op_digital_service_id
  assumes "cec_wf m" "at \<le> 9" "service_id_method d = 1" "dig_bcast_system d < 128"
    "channel_number_fmt d < 64" "channel_major d < 1024"
  defines "r \<equiv> cec_get_digital_service_id at (cec_set_digital_service_id at d m) d0"
  shows "service_id_method r = service_id_method d \<and> dig_bcast_system r = dig_bcast_system d \<and>
    channel_number_fmt r = channel_number_fmt d \<and> channel_minor r = channel_minor d \<and>
    (channel_major r = channel_major d \<longleftrightarrow> channel_major d < 256)"
  using assms(1-6) channel_major_read [of "channel_major d"]
    method_bit [of "dig_bcast_system d" 1, simplified]
    channel_major_bits [of "channel_number_fmt d" "channel_major d", simplified]
  by (simp add: r_def cec_set_digital_service_id_def cec_get_digital_service_id_def service_simps)

lemma cec_digital_by_channel:
  assumes "cec_wf m" "at \<le> 9" "service_id_method d = 1" "dig_bcast_system d < 128"
    "channel_number_fmt d < 64" "channel_major d < 1024" "channel_major d < 256"
  shows "cec_get_digital_service_id at (cec_set_digital_service_id at d m) d0 =
    d\<lparr>su_half0 := (su_half0 d0 AND 0xff00) OR ucast (channel_number_fmt d)\<rparr>"
  using assms channel_major_read [of "channel_major d"] method_bit [of "dig_bcast_system d" 1, simplified]
    channel_major_bits [of "channel_number_fmt d" "channel_major d", simplified]
  by (auto simp: cec_set_digital_service_id_def cec_get_digital_service_id_def service_simps set_channel_number_fmt_def
      intro!: cec_op_digital_service_id.equality)

definition sample_channel :: cec_op_digital_service_id where
  "sample_channel = \<lparr>service_id_method = 1, dig_bcast_system = 0x1b, su_half0 = 2, su_half1 = 300, su_half2 = 7\<rparr>"

theorem cec_channel_roundtrip_witness:
  "channel_major (cec_get_digital_service_id 3
      (cec_set_digital_service_id 3 sample_channel (cec_msg_init 4 0)) sample_channel) \<noteq> 300"
  using cec_channel_roundtrip [of "cec_msg_init 4 0" 3 sample_channel sample_channel]
  by (simp add: sample_channel_def channel_number_fmt_def)

text \<open>A service named by its identifiers survives whole under the ARIB and DVB systems; under an ATSC
  system the two ATSC identifiers survive, and the third half word, which is not sent, reads 0.\<close>

theorem cec_service_id_roundtrip:
  fixes d d0 :: cec_op_digital_service_id
  assumes "cec_wf m" "at \<le> 9" "service_id_method d = 0" "dig_bcast_system d < 128"
  defines "r \<equiv> cec_get_digital_service_id at (cec_set_digital_service_id at d m) d0"
  shows "(\<not> is_atsc (dig_bcast_system d) \<longrightarrow> r = d) \<and>
    (is_atsc (dig_bcast_system d) \<longrightarrow> atsc_transport_id r = atsc_transport_id d \<and>
       atsc_program_number r = atsc_program_number d \<and> su_half2 r = 0)"
  using assms by (simp add: cec_digital_by_id)

theorem cec_service_id_roundtrip_witness:
  "cec_get_digital_service_id 3
      (cec_set_digital_service_id 3 (sample_channel\<lparr>service_id_method := 0\<rparr>) (cec_msg_init 4 0)) sample_channel =
    sample_channel\<lparr>service_id_method := 0\<rparr>"
  using cec_service_id_roundtrip [of "cec_msg_init 4 0" 3 "sample_channel\<lparr>service_id_method := 0\<rparr>" sample_channel]
  by (simp add: sample_channel_def is_atsc_def cec_const)

text \<open>What a service writer leaves alone.\<close>

lemma cec_set_digital_service_id_frame [simp]:
  assumes "cec_wf m" "at \<le> 9"
  shows "cec_wf (cec_set_digital_service_id at d m)"
    and "m_len (cec_set_digital_service_id at d m) = m_len m"
    and "m_reply (cec_set_digital_service_id at d m) = m_reply m"
    and "i < at \<Longrightarrow> get_byte (cec_set_digital_service_id at d m) i = get_byte m i"
  using assms by (simp_all add: cec_set_digital_service_id_def Let_def get_byte_put_bytes)

text \<open>What a service reads back as does not depend on the message it travels in.\<close>

definition service_wire :: "cec_op_digital_service_id \<Rightarrow> cec_op_digital_service_id \<Rightarrow> cec_op_digital_service_id" where
  "service_wire d d0 = cec_get_digital_service_id 0 (cec_set_digital_service_id 0 d (cec_msg_init 0 0)) d0"

lemma service_wire [simp]:
  assumes "cec_wf m" "at \<le> 9"
  shows "cec_get_digital_service_id at (cec_set_digital_service_id at d m) d0 = service_wire d d0"
  using assms
  by (simp add: service_wire_def cec_set_digital_service_id_def cec_get_digital_service_id_def Let_def
      get_put7 get_byte_put_bytes)

lemma cec_get_digital_service_id_reply [simp]:
  "cec_get_digital_service_id at (set_reply r op m) d0 = cec_get_digital_service_id at m d0"
  by (simp add: cec_get_digital_service_id_def)

section \<open>Recording and timers\<close>

text \<open>Every record source survives the wire: type and the operands of the type are what was sent (a
  digital service as \<^const>\<open>service_wire\<close> of it), and nothing else of the reader's structure changes.\<close>

theorem cec_record_on_roundtrip:
  assumes "cec_wf m"
  shows "cec_ops_record_on (cec_msg_record_on reply (src\<lparr>rs_type := CEC_OP_RECORD_SRC_OWN\<rparr>) m) src0 =
      src0\<lparr>rs_type := CEC_OP_RECORD_SRC_OWN\<rparr> \<and>
    cec_ops_record_on (cec_msg_record_on reply (src\<lparr>rs_type := CEC_OP_RECORD_SRC_DIGITAL\<rparr>) m) src0 =
      src0\<lparr>rs_type := CEC_OP_RECORD_SRC_DIGITAL, rs_digital := service_wire (rs_digital src) (rs_digital src0)\<rparr> \<and>
    cec_ops_record_on (cec_msg_record_on reply (src\<lparr>rs_type := CEC_OP_RECORD_SRC_ANALOG\<rparr>) m) src0 =
      src0\<lparr>rs_type := CEC_OP_RECORD_SRC_ANALOG, rs_ana_bcast_type := rs_ana_bcast_type src,
           rs_ana_freq := rs_ana_freq src, rs_bcast_system := rs_bcast_system src\<rparr> \<and>
    cec_ops_record_on (cec_msg_record_on reply (src\<lparr>rs_type := CEC_OP_RECORD_SRC_EXT_PLUG\<rparr>) m) src0 =
      src0\<lparr>rs_type := CEC_OP_RECORD_SRC_EXT_PLUG, rs_plug := rs_plug src\<rparr> \<and>
    cec_ops_record_on (cec_msg_record_on reply (src\<lparr>rs_type := CEC_OP_RECORD_SRC_EXT_PHYS_ADDR\<rparr>) m) src0 =
      src0\<lparr>rs_type := CEC_OP_RECORD_SRC_EXT_PHYS_ADDR, rs_phys_addr := rs_phys_addr src\<rparr>"
  using assms
  by (simp add: cec_msg_record_on_def cec_ops_record_on_def cec_const Let_def
      cec_msg_record_on_own_def cec_msg_record_on_digital_def cec_msg_record_on_analog_def
      cec_msg_record_on_plug_def cec_msg_record_on_phys_addr_def)

definition sample_src :: cec_op_record_src where
  "sample_src = \<lparr>rs_type = 4, rs_digital = \<lparr>service_id_method = 1, dig_bcast_system = 2, su_half0 = 1, su_half1 = 2, su_half2 = 3\<rparr>,
     rs_ana_bcast_type = 0, rs_ana_freq = 0, rs_bcast_system = 0, rs_plug = 7, rs_phys_addr = 0\<rparr>"

theorem cec_record_on_roundtrip_witness:
  "rs_type (cec_ops_record_on (cec_msg_record_on True (sample_src\<lparr>rs_type := CEC_OP_RECORD_SRC_OWN\<rparr>) (cec_msg_init 0 1))
     sample_src) = CEC_OP_RECORD_SRC_OWN"
  using cec_record_on_roundtrip [of "cec_msg_init 0 1" True sample_src sample_src] by simp

text \<open>What a digital service is when it comes back, for a reader whose structure was \<open>d0\<close>: itself. The format of a channel number is one byte of
  its half word, and a service of the ATSC systems has no third member.\<close>

definition service_fits :: "cec_op_digital_service_id \<Rightarrow> bool" where
  "service_fits d \<longleftrightarrow> service_id_method d < 2 \<and> dig_bcast_system d < 128 \<and>
     (service_id_method d = 1 \<longrightarrow> channel_number_fmt d < 64 \<and> channel_major d < 256)"

definition service_back :: "cec_op_digital_service_id \<Rightarrow> cec_op_digital_service_id \<Rightarrow> cec_op_digital_service_id" where
  "service_back d d0 =
     (if service_id_method d = 1 then d\<lparr>su_half0 := (su_half0 d0 AND 0xff00) OR ucast (channel_number_fmt d)\<rparr>
      else if is_atsc (dig_bcast_system d) then d\<lparr>su_half2 := 0\<rparr> else d)"

lemma service_wire_back:
  assumes "service_fits d"
  shows "service_wire d d0 = service_back d d0"
proof (cases "service_id_method d = 1")
  case True
  have "channel_major d < 1024" using assms True by (simp add: service_fits_def word_less_nat_alt)
  then show ?thesis using assms True cec_digital_by_channel [of "cec_msg_init 0 0" 0 d d0]
    by (simp add: service_wire_def service_fits_def service_back_def del: service_wire)
next
  case False
  have "x = 0 \<or> x = 1" if "x < 2"  for x :: u8 using that by unat_arith
  then have "service_id_method d = 0" using False assms by (auto simp: service_fits_def)
  then show ?thesis using assms cec_digital_by_id [of "cec_msg_init 0 0" 0 d d0]
    by (simp add: service_wire_def service_back_def service_fits_def del: service_wire)
qed

text \<open>C35 A timer comes back exactly as set or cleared, for analogue, external and digital sources, provided that its hours and minutes fit the packed decimal
  form (below 160; 59 and 99 do) and that the members of a digital service fit their bits: one bit for the method, seven for the
  system, six for the format of a channel number, and a major channel number below 256 (the reader shifts the upper bits of a larger one to a wrong place,
  where it comes back as another number).\<close>

theorem cec_timer_roundtrip:
  assumes "cec_wf m" "sh < 160" "sm < 160" "dh < 160" "dm < 160" "service_fits d"
  shows "cec_ops_set_analogue_timer (cec_msg_set_analogue_timer r day month sh sm dh dm rs bt fr bs m) =
      (day, month, sh, sm, dh, dm, rs, bt, fr, bs) \<and>
    cec_ops_clear_analogue_timer (cec_msg_clear_analogue_timer r day month sh sm dh dm rs bt fr bs m) =
      (day, month, sh, sm, dh, dm, rs, bt, fr, bs) \<and>
    cec_ops_set_ext_timer (cec_msg_set_ext_timer r day month sh sm dh dm rs es pl pa m) =
      (day, month, sh, sm, dh, dm, rs, es, pl, pa) \<and>
    cec_ops_clear_ext_timer (cec_msg_clear_ext_timer r day month sh sm dh dm rs es pl pa m) =
      (day, month, sh, sm, dh, dm, rs, es, pl, pa) \<and>
    cec_ops_set_digital_timer d0 (cec_msg_set_digital_timer r day month sh sm dh dm rs d m) =
      (day, month, sh, sm, dh, dm, rs, service_back d d0) \<and>
    cec_ops_clear_digital_timer d0 (cec_msg_clear_digital_timer r day month sh sm dh dm rs d m) =
      (day, month, sh, sm, dh, dm, rs, service_back d d0)"
  using assms
  by (simp add: service_wire_back cec_msg_set_analogue_timer_def cec_ops_set_analogue_timer_def
      cec_msg_clear_analogue_timer_def cec_ops_clear_analogue_timer_def
      cec_msg_set_ext_timer_def cec_ops_set_ext_timer_def
      cec_msg_clear_ext_timer_def cec_ops_clear_ext_timer_def
      cec_msg_set_digital_timer_def cec_ops_set_digital_timer_def
      cec_msg_clear_digital_timer_def cec_ops_clear_digital_timer_def)

text \<open>The first minor channel of the major channel 42.\<close>

definition sample_service :: cec_op_digital_service_id where
  "sample_service = \<lparr>service_id_method = 1, dig_bcast_system = 2, su_half0 = 2, su_half1 = 42, su_half2 = 1\<rparr>"

theorem cec_timer_roundtrip_witness:
  "cec_ops_set_digital_timer sample_service (cec_msg_set_digital_timer True 24 12 20 15 1 30 0 sample_service (cec_msg_init 0 1)) =
    (24, 12, 20, 15, 1, 30, 0, sample_service)"
proof -
  have "service_fits sample_service" "service_back sample_service sample_service = sample_service"
    by (simp_all add: service_fits_def service_back_def sample_service_def is_atsc_def channel_number_fmt_def)
  then show ?thesis using cec_timer_roundtrip [of "cec_msg_init 0 1" 20 15 1 30 sample_service] by simp
qed

lemma bit_x10: "bit (16 :: int) n \<longleftrightarrow> n = 4"
proof -
  have "bit ((2 :: int) ^ 4) n \<longleftrightarrow> n = 4"
    unfolding bit_exp_iff by auto
  then show ?thesis by simp
qed

text \<open>The status byte of a timer: one bit, two bits and five bits.\<close>

lemma status_bits:
  fixes a c e :: u8
  assumes "a < 2" "c < 4" "e < 32"
  defines "b \<equiv> push_bit 7 a OR push_bit 5 c OR e"
  shows "drop_bit 7 b = a" "drop_bit 5 b AND 3 = c" "b AND 0x10 = e AND 0x10" "b AND 0xf = e AND 0xf"
proof -
  have "take_bit 1 a = a" "take_bit 2 c = c" "take_bit 5 e = e"
    using take_bit_small [of a 1] take_bit_small [of c 2] take_bit_small [of e 5] assms by simp_all
  then have b: "b = push_bit 7 (take_bit 1 a) OR push_bit 5 (take_bit 2 c) OR take_bit 5 e"
    and a: "a = take_bit 1 a" and c: "c = take_bit 2 c" by (simp_all only: b_def)
  have "drop_bit 7 b = take_bit 1 a"
    unfolding b by (rule bit_word_eqI) (auto simp: bit_simps)
  then show "drop_bit 7 b = a" using a by simp
  have "drop_bit 5 b AND 3 = take_bit 2 c"
    unfolding b mask_consts by (rule bit_word_eqI) (auto simp: bit_simps)
  then show "drop_bit 5 b AND 3 = c" using c by simp
  show "b AND 0x10 = e AND 0x10"
    unfolding b by (rule bit_word_eqI) (auto simp: bit_simps bit_x10)
  show "b AND 0xf = e AND 0xf"
    unfolding b mask_consts by (rule bit_word_eqI) (auto simp: bit_simps)
qed

lemma info_bits:
  fixes x :: u8
  assumes "x < 16"
  shows "x AND 0x10 = 0" "x AND 0xf = x" "(0x10 OR x) AND 0x10 = 0x10" "(0x10 OR x) AND 0xf = x"
    "0x10 OR x < 32"
proof -
  have t: "take_bit 4 x = x" using assms by (simp add: take_bit_small)
  have "take_bit 4 x AND 0x10 = 0" by (rule bit_word_eqI) (auto simp: bit_simps bit_x10)
  then show z: "x AND 0x10 = 0" by (simp add: t)
  have "take_bit 4 x AND 0xf = take_bit 4 x"
    unfolding mask_consts by (rule bit_word_eqI) (auto simp: bit_simps)
  then show f: "x AND 0xf = x" by (simp add: t)
  show "(0x10 OR x) AND 0x10 = 0x10" using z by (simp add: bit.conj_disj_distrib2)
  show "(0x10 OR x) AND 0xf = x" using f by (simp add: bit.conj_disj_distrib2)
  have "take_bit 5 (0x10 OR take_bit 4 x) = 0x10 OR take_bit 4 x"
    by (rule bit_word_eqI) (auto simp: bit_simps bit_x10)
  then show "0x10 OR x < 32" using take_bit_less [of 5 "0x10 OR x"] by (simp add: t)
qed

text \<open>A timer status comes back as built, when its fields fit their bits and only one of the
  programmed info and the error is given; the duration comes back exactly when it is sent.\<close>

theorem cec_timer_status_roundtrip:
  assumes "cec_wf m" "tow < 2" "mi < 4" "info < 16" "err < 16" "info = 0 \<or> err = 0" "dh < 160" "dm < 160"
  shows "cec_ops_timer_status (cec_msg_timer_status tow mi info err dh dm m) =
    (tow, mi, info, err, if info = 9 \<or> info = 11 \<or> err = 14 then dh else 0,
     if info = 9 \<or> info = 11 \<or> err = 14 then dm else 0)"
proof -
  define e where "e = (if info \<noteq> 0 then 0x10 OR info else err)"
  have e: "e < 32"
    using assms info_bits(5) [of info] order.strict_trans [of err 16 32] by (auto simp: e_def)
  have b: "push_bit 7 tow OR push_bit 5 mi OR (if info \<noteq> 0 then 0x10 else 0) OR (if info \<noteq> 0 then info else err)
    = push_bit 7 tow OR push_bit 5 mi OR e" by (simp add: e_def or.assoc)
  show ?thesis
    unfolding cec_msg_timer_status_def cec_ops_timer_status_def b
    using assms status_bits [OF assms(2,3) e]
    by (auto simp: Let_def cec_const e_def info_bits)
qed

theorem cec_timer_status_roundtrip_witness:
  "cec_ops_timer_status (cec_msg_timer_status 1 2 9 0 3 45 (cec_msg_init 1 0)) = (1, 2, 9, 0, 3, 45)"
  using cec_timer_status_roundtrip [of "cec_msg_init 1 0" 1 2 9 0 3 45] by simp

end
