(* ===== verification/CecDevice.thy ===== *)
theory CecDevice
  imports CecProgram
begin

text \<open>
  The message builders and readers of \<^verbatim>\<open>linux/cec-funcs.h\<close> for system information, deck control,
  tuner control, vendor commands and on-screen display. A reader that returns a pointer into the
  message returns its offset (\<^typ>\<open>nat\<close>, or \<^typ>\<open>nat option\<close> where it may be \<open>NULL\<close>).
\<close>

section \<open>System Information Feature\<close>

definition cec_msg_cec_version :: "u8 \<Rightarrow> cec_msg \<Rightarrow> cec_msg" where
  [cec_enc]: "cec_msg_cec_version cec_version = stmts
     [set_len 3, put_byte 1 CEC_MSG_CEC_VERSION, put_byte 2 cec_version]"

definition cec_ops_cec_version :: "cec_msg \<Rightarrow> u8" where
  [cec_dec]: "cec_ops_cec_version m =
     get_byte m 2"

definition cec_msg_get_cec_version :: "bool \<Rightarrow> cec_msg \<Rightarrow> cec_msg" where
  [cec_enc]: "cec_msg_get_cec_version reply = stmts
     [set_len 2, put_byte 1 CEC_MSG_GET_CEC_VERSION, set_reply reply CEC_MSG_CEC_VERSION]"

definition cec_msg_report_physical_addr :: "u16 \<Rightarrow> u8 \<Rightarrow> cec_msg \<Rightarrow> cec_msg" where
  [cec_enc]: "cec_msg_report_physical_addr phys_addr prim_devtype = stmts
     [set_len 5, or_byte 0 0xf, put_byte 1 CEC_MSG_REPORT_PHYSICAL_ADDR,
      put_byte 2 (hi8 phys_addr), put_byte 3 (lo8 phys_addr), put_byte 4 prim_devtype]"

definition cec_ops_report_physical_addr :: "cec_msg \<Rightarrow> u16 \<times> u8" where
  [cec_dec]: "cec_ops_report_physical_addr m =
     (be16 (get_byte m 2) (get_byte m 3), get_byte m 4)"

definition cec_msg_give_physical_addr :: "bool \<Rightarrow> cec_msg \<Rightarrow> cec_msg" where
  [cec_enc]: "cec_msg_give_physical_addr reply = stmts
     [set_len 2, put_byte 1 CEC_MSG_GIVE_PHYSICAL_ADDR,
      set_reply reply CEC_MSG_REPORT_PHYSICAL_ADDR]"

definition cec_msg_set_menu_language :: "u8 list \<Rightarrow> cec_msg \<Rightarrow> cec_msg" where
  [cec_enc]: "cec_msg_set_menu_language language = stmts
     [set_len 5, or_byte 0 0xf, put_byte 1 CEC_MSG_SET_MENU_LANGUAGE,
      put_bytes 2 (take 3 language)]"

definition cec_ops_set_menu_language :: "cec_msg \<Rightarrow> u8 list" where
  [cec_dec]: "cec_ops_set_menu_language m = get_bytes m 2 3 @ [0]"

definition cec_msg_get_menu_language :: "bool \<Rightarrow> cec_msg \<Rightarrow> cec_msg" where
  [cec_enc]: "cec_msg_get_menu_language reply = stmts
     [set_len 2, put_byte 1 CEC_MSG_GET_MENU_LANGUAGE,
      set_reply reply CEC_MSG_SET_MENU_LANGUAGE]"

definition cec_msg_report_features :: "u8 \<Rightarrow> u8 \<Rightarrow> u8 \<Rightarrow> u8 \<Rightarrow> cec_msg \<Rightarrow> cec_msg" where
  [cec_enc]: "cec_msg_report_features cec_version all_device_types rc_profile dev_features = stmts
     [set_len 6, or_byte 0 0xf, put_byte 1 CEC_MSG_REPORT_FEATURES,
      put_byte 2 cec_version, put_byte 3 all_device_types, put_byte 4 rc_profile,
      put_byte 5 dev_features]"

text \<open>The loop \<open>while (p < &msg[limit] && (*p & EXT)) p++\<close>.\<close>

function skip_ext :: "(nat \<Rightarrow> bool) \<Rightarrow> nat \<Rightarrow> nat \<Rightarrow> nat" where
  "skip_ext ext limit p = (if p < limit \<and> ext p then skip_ext ext limit (p + 1) else p)"
  by pat_completeness auto
termination by (relation "measure (\<lambda>(ext, limit, p). limit - p)") auto

declare skip_ext.simps [simp del]


definition cec_ops_report_features :: "cec_msg \<Rightarrow> u8 \<times> u8 \<times> nat option \<times> nat option" where
  [cec_dec]: "cec_ops_report_features m =
     (let ext = (\<lambda>i. get_byte m i AND CEC_OP_FEAT_EXT \<noteq> 0);
          p = skip_ext ext 14 4;
          dev_features = (if \<not> ext p then Some (p + 1) else None);
          p' = (if \<not> ext p then skip_ext ext 15 p else p) in
      (get_byte m 2, get_byte m 3,
       if ext p' then None else Some 4, if ext p' then None else dev_features))"

definition cec_msg_give_features :: "bool \<Rightarrow> cec_msg \<Rightarrow> cec_msg" where
  [cec_enc]: "cec_msg_give_features reply = stmts
     [set_len 2, put_byte 1 CEC_MSG_GIVE_FEATURES, set_reply reply CEC_MSG_REPORT_FEATURES]"

section \<open>Deck Control Feature\<close>

definition cec_msg_deck_control :: "u8 \<Rightarrow> cec_msg \<Rightarrow> cec_msg" where
  [cec_enc]: "cec_msg_deck_control deck_control_mode = stmts
     [set_len 3, put_byte 1 CEC_MSG_DECK_CONTROL, put_byte 2 deck_control_mode]"

definition cec_ops_deck_control :: "cec_msg \<Rightarrow> u8" where
  [cec_dec]: "cec_ops_deck_control m =
     get_byte m 2"

definition cec_msg_deck_status :: "u8 \<Rightarrow> cec_msg \<Rightarrow> cec_msg" where
  [cec_enc]: "cec_msg_deck_status deck_info = stmts
     [set_len 3, put_byte 1 CEC_MSG_DECK_STATUS, put_byte 2 deck_info]"

definition cec_ops_deck_status :: "cec_msg \<Rightarrow> u8" where
  [cec_dec]: "cec_ops_deck_status m =
     get_byte m 2"

definition cec_msg_give_deck_status :: "bool \<Rightarrow> u8 \<Rightarrow> cec_msg \<Rightarrow> cec_msg" where
  [cec_enc]: "cec_msg_give_deck_status reply status_req = stmts
     [set_len 3, put_byte 1 CEC_MSG_GIVE_DECK_STATUS, put_byte 2 status_req,
      set_reply (reply \<and> status_req \<noteq> CEC_OP_STATUS_REQ_OFF) CEC_MSG_DECK_STATUS]"

definition cec_ops_give_deck_status :: "cec_msg \<Rightarrow> u8" where
  [cec_dec]: "cec_ops_give_deck_status m =
     get_byte m 2"

definition cec_msg_play :: "u8 \<Rightarrow> cec_msg \<Rightarrow> cec_msg" where
  [cec_enc]: "cec_msg_play play_mode = stmts
     [set_len 3, put_byte 1 CEC_MSG_PLAY, put_byte 2 play_mode]"

definition cec_ops_play :: "cec_msg \<Rightarrow> u8" where
  [cec_dec]: "cec_ops_play m =
     get_byte m 2"

section \<open>Tuner Control Feature\<close>

record cec_op_tuner_device_info =
  td_rec_flag :: u8
  td_display_info :: u8
  td_is_analog :: u8
  td_digital :: cec_op_digital_service_id
  td_ana_bcast_type :: u8
  td_ana_freq :: u16
  td_bcast_system :: u8


definition cec_msg_tuner_device_status_analog :: "u8 \<Rightarrow> u8 \<Rightarrow> u8 \<Rightarrow> u16 \<Rightarrow> u8 \<Rightarrow> cec_msg \<Rightarrow> cec_msg" where
  [cec_enc]: "cec_msg_tuner_device_status_analog rec_flag tuner_display_info ana_bcast_type ana_freq
      bcast_system = stmts
     [set_len 7, put_byte 1 CEC_MSG_TUNER_DEVICE_STATUS,
      put_byte 2 (push_bit 7 rec_flag OR tuner_display_info), put_byte 3 ana_bcast_type,
      put_byte 4 (hi8 ana_freq), put_byte 5 (lo8 ana_freq), put_byte 6 bcast_system]"

definition cec_msg_tuner_device_status_digital ::
    "u8 \<Rightarrow> u8 \<Rightarrow> cec_op_digital_service_id \<Rightarrow> cec_msg \<Rightarrow> cec_msg" where
  [cec_enc]: "cec_msg_tuner_device_status_digital rec_flag tuner_display_info digital = stmts
     [set_len 10, put_byte 1 CEC_MSG_TUNER_DEVICE_STATUS,
      put_byte 2 (push_bit 7 rec_flag OR tuner_display_info), cec_set_digital_service_id 3 digital]"

definition cec_msg_tuner_device_status :: "cec_op_tuner_device_info \<Rightarrow> cec_msg \<Rightarrow> cec_msg" where
  [cec_enc]: "cec_msg_tuner_device_status t =
     (if td_is_analog t \<noteq> 0 then
        cec_msg_tuner_device_status_analog (td_rec_flag t) (td_display_info t)
          (td_ana_bcast_type t) (td_ana_freq t) (td_bcast_system t)
      else cec_msg_tuner_device_status_digital (td_rec_flag t) (td_display_info t) (td_digital t))"

definition cec_ops_tuner_device_status ::
    "cec_msg \<Rightarrow> cec_op_tuner_device_info \<Rightarrow> cec_op_tuner_device_info" where
  [cec_dec]: "cec_ops_tuner_device_status m t =
     (let t1 = t\<lparr>td_is_analog := (if m_len m < 10 then 1 else 0),
                td_rec_flag := drop_bit 7 (get_byte m 2),
                td_display_info := get_byte m 2 AND 0x7f\<rparr> in
      if td_is_analog t1 \<noteq> 0 then
        t1\<lparr>td_ana_bcast_type := get_byte m 3, td_ana_freq := be16 (get_byte m 4) (get_byte m 5),
           td_bcast_system := get_byte m 6\<rparr>
      else t1\<lparr>td_digital := cec_get_digital_service_id 3 m (td_digital t1)\<rparr>)"

definition cec_msg_give_tuner_device_status :: "bool \<Rightarrow> u8 \<Rightarrow> cec_msg \<Rightarrow> cec_msg" where
  [cec_enc]: "cec_msg_give_tuner_device_status reply status_req = stmts
     [set_len 3, put_byte 1 CEC_MSG_GIVE_TUNER_DEVICE_STATUS, put_byte 2 status_req,
      set_reply (reply \<and> status_req \<noteq> CEC_OP_STATUS_REQ_OFF) CEC_MSG_TUNER_DEVICE_STATUS]"

definition cec_ops_give_tuner_device_status :: "cec_msg \<Rightarrow> u8" where
  [cec_dec]: "cec_ops_give_tuner_device_status m =
     get_byte m 2"

definition cec_msg_select_analogue_service :: "u8 \<Rightarrow> u16 \<Rightarrow> u8 \<Rightarrow> cec_msg \<Rightarrow> cec_msg" where
  [cec_enc]: "cec_msg_select_analogue_service ana_bcast_type ana_freq bcast_system = stmts
     [set_len 6, put_byte 1 CEC_MSG_SELECT_ANALOGUE_SERVICE, put_byte 2 ana_bcast_type,
      put_byte 3 (hi8 ana_freq), put_byte 4 (lo8 ana_freq), put_byte 5 bcast_system]"

definition cec_ops_select_analogue_service :: "cec_msg \<Rightarrow> u8 \<times> u16 \<times> u8" where
  [cec_dec]: "cec_ops_select_analogue_service m =
     (get_byte m 2, be16 (get_byte m 3) (get_byte m 4), get_byte m 5)"

definition cec_msg_select_digital_service :: "cec_op_digital_service_id \<Rightarrow> cec_msg \<Rightarrow> cec_msg" where
  [cec_enc]: "cec_msg_select_digital_service digital = stmts
     [set_len 9, put_byte 1 CEC_MSG_SELECT_DIGITAL_SERVICE,
      cec_set_digital_service_id 2 digital]"

definition cec_ops_select_digital_service :: "cec_op_digital_service_id \<Rightarrow> cec_msg \<Rightarrow> cec_op_digital_service_id" where
  [cec_dec]: "cec_ops_select_digital_service digital m =
     cec_get_digital_service_id 2 m digital"

definition cec_msg_tuner_step_decrement :: "cec_msg \<Rightarrow> cec_msg" where
  [cec_enc]: "cec_msg_tuner_step_decrement = stmts
     [set_len 2, put_byte 1 CEC_MSG_TUNER_STEP_DECREMENT]"

definition cec_msg_tuner_step_increment :: "cec_msg \<Rightarrow> cec_msg" where
  [cec_enc]: "cec_msg_tuner_step_increment = stmts
     [set_len 2, put_byte 1 CEC_MSG_TUNER_STEP_INCREMENT]"

section \<open>Vendor Specific Commands Feature\<close>

definition cec_msg_device_vendor_id :: "u32 \<Rightarrow> cec_msg \<Rightarrow> cec_msg" where
  [cec_enc]: "cec_msg_device_vendor_id vendor_id = stmts
     [set_len 5, or_byte 0 0xf, put_byte 1 CEC_MSG_DEVICE_VENDOR_ID,
      put_byte 2 (byte_of 16 vendor_id), put_byte 3 (byte_of 8 vendor_id), put_byte 4 (byte_of 0 vendor_id)]"

definition cec_ops_device_vendor_id :: "cec_msg \<Rightarrow> u32" where
  [cec_dec]: "cec_ops_device_vendor_id m = be24 (get_byte m 2) (get_byte m 3) (get_byte m 4)"

definition cec_msg_give_device_vendor_id :: "bool \<Rightarrow> cec_msg \<Rightarrow> cec_msg" where
  [cec_enc]: "cec_msg_give_device_vendor_id reply = stmts
     [set_len 2, put_byte 1 CEC_MSG_GIVE_DEVICE_VENDOR_ID,
      set_reply reply CEC_MSG_DEVICE_VENDOR_ID]"

definition cec_msg_vendor_command :: "u8 \<Rightarrow> u8 list \<Rightarrow> cec_msg \<Rightarrow> cec_msg" where
  [cec_enc]: "cec_msg_vendor_command sz vendor_cmd =
     (let sz = (if sz > 14 then 14 else sz) in stmts
     [set_len (2 + ucast sz), put_byte 1 CEC_MSG_VENDOR_COMMAND,
      put_bytes 2 (take (unat sz) vendor_cmd)])"

definition cec_ops_vendor_command :: "cec_msg \<Rightarrow> u8 \<times> nat" where
  [cec_dec]: "cec_ops_vendor_command m =
     (let sz = ucast (m_len m - 2) in (if sz > 14 then 14 else sz, 2))"

definition cec_msg_vendor_command_with_id :: "u32 \<Rightarrow> u8 \<Rightarrow> u8 list \<Rightarrow> cec_msg \<Rightarrow> cec_msg" where
  [cec_enc]: "cec_msg_vendor_command_with_id vendor_id sz vendor_cmd =
     (let sz = (if sz > 11 then 11 else sz) in stmts
     [set_len (5 + ucast sz), put_byte 1 CEC_MSG_VENDOR_COMMAND_WITH_ID,
      put_byte 2 (byte_of 16 vendor_id), put_byte 3 (byte_of 8 vendor_id), put_byte 4 (byte_of 0 vendor_id),
      put_bytes 5 (take (unat sz) vendor_cmd)])"

definition cec_ops_vendor_command_with_id :: "cec_msg \<Rightarrow> u32 \<times> u8 \<times> nat" where
  [cec_dec]: "cec_ops_vendor_command_with_id m =
     (let sz = ucast (m_len m - 5) in
      (be24 (get_byte m 2) (get_byte m 3) (get_byte m 4), if sz > 11 then 11 else sz, 5))"

definition cec_msg_vendor_remote_button_down :: "u8 \<Rightarrow> u8 list \<Rightarrow> cec_msg \<Rightarrow> cec_msg" where
  [cec_enc]: "cec_msg_vendor_remote_button_down sz rc_code =
     (let sz = (if sz > 14 then 14 else sz) in stmts
     [set_len (2 + ucast sz), put_byte 1 CEC_MSG_VENDOR_REMOTE_BUTTON_DOWN,
      put_bytes 2 (take (unat sz) rc_code)])"

definition cec_ops_vendor_remote_button_down :: "cec_msg \<Rightarrow> u8 \<times> nat" where
  [cec_dec]: "cec_ops_vendor_remote_button_down m =
     (let sz = ucast (m_len m - 2) in (if sz > 14 then 14 else sz, 2))"

definition cec_msg_vendor_remote_button_up :: "cec_msg \<Rightarrow> cec_msg" where
  [cec_enc]: "cec_msg_vendor_remote_button_up = stmts
     [set_len 2, put_byte 1 CEC_MSG_VENDOR_REMOTE_BUTTON_UP]"

section \<open>OSD Display Feature\<close>

definition cec_msg_set_osd_string :: "u8 \<Rightarrow> u8 list \<Rightarrow> cec_msg \<Rightarrow> cec_msg" where
  [cec_enc]: "cec_msg_set_osd_string disp_ctl osd =
     (let n = min (length osd) 13 in stmts
     [set_len (3 + of_nat n), put_byte 1 CEC_MSG_SET_OSD_STRING, put_byte 2 disp_ctl,
      put_bytes 3 (take n osd)])"

definition cec_ops_set_osd_string :: "cec_msg \<Rightarrow> u8 \<times> u8 list" where
  [cec_dec]: "cec_ops_set_osd_string m =
     (let n = min (text_len 3 m) 13 in (get_byte m 2, get_bytes m 3 n @ [0]))"

section \<open>Device OSD Transfer Feature\<close>

definition cec_msg_set_osd_name :: "u8 list \<Rightarrow> cec_msg \<Rightarrow> cec_msg" where
  [cec_enc]: "cec_msg_set_osd_name name =
     (let n = min (length name) 14 in stmts
     [set_len (2 + of_nat n), put_byte 1 CEC_MSG_SET_OSD_NAME, put_bytes 2 (take n name)])"

definition cec_ops_set_osd_name :: "cec_msg \<Rightarrow> u8 list" where
  [cec_dec]: "cec_ops_set_osd_name m =
     (let n = min (text_len 2 m) 14 in get_bytes m 2 n @ [0])"


section \<open>Texts and vendor commands\<close>

lemma text_len_eq:
  assumes "m_len m = k + of_nat n" "k < 16" "n \<le> 14"
  shows "text_len k m = n"
proof -
  have u: "unat (of_nat n :: u32) = n" using assms by (simp add: unat_of_nat)
  have k: "unat k < 16" using assms by (simp add: word_less_nat_alt)
  have "unat (k + of_nat n) = unat k + n" using u k assms by (simp add: unat_word_ariths)
  then have "k < k + of_nat n \<longleftrightarrow> 0 < n" by (simp add: word_less_nat_alt)
  then show ?thesis using assms u by (auto simp: text_len_def)
qed

text \<open>The three text operands (timer title, display string, device name) come back as the sent text
  cut to the operand's capacity and closed by a NUL, and the menu language as its three letters.\<close>

theorem cec_text_roundtrip:
  assumes "cec_wf m" "length lang \<ge> 3"
  shows "cec_ops_set_timer_program_title (cec_msg_set_timer_program_title t m) = take 14 t @ [0] \<and>
    cec_ops_set_osd_name (cec_msg_set_osd_name t m) = take 14 t @ [0] \<and>
    cec_ops_set_osd_string (cec_msg_set_osd_string c t m) = (c, take 13 t @ [0]) \<and>
    cec_ops_set_menu_language (cec_msg_set_menu_language lang m) = take 3 lang @ [0]"
proof -
  have t14: "take (min (length t) 14) t = take 14 t" and t13: "take (min (length t) 13) t = take 13 t"
    by (simp_all add: min_def)
  have l2: "text_len 2 m' = n" if "m_len m' = 2 + of_nat n" "n \<le> 14" for m' n
    using text_len_eq [of m' 2 n] that by simp
  have l3: "text_len 3 m' = n" if "m_len m' = 3 + of_nat n" "n \<le> 14" for m' n
    using text_len_eq [of m' 3 n] that by simp
  show ?thesis
    using assms
    by (simp add: cec_msg_set_timer_program_title_def cec_ops_set_timer_program_title_def
        cec_msg_set_osd_name_def cec_ops_set_osd_name_def cec_msg_set_osd_string_def
        cec_ops_set_osd_string_def cec_msg_set_menu_language_def cec_ops_set_menu_language_def
        Let_def l2 l3 t13 t14 get_bytes_put_bytes get_byte_put_bytes)
qed

theorem cec_text_roundtrip_witness:
  "cec_ops_set_osd_name (cec_msg_set_osd_name [0x6d, 0x69, 0x6b, 0x75] (cec_msg_init 4 0)) =
    [0x6d, 0x69, 0x6b, 0x75, 0]"
  using cec_text_roundtrip [of "cec_msg_init 4 0" "[1, 2, 3]" "[0x6d, 0x69, 0x6b, 0x75]"] by simp

lemma down_up [simp]: "(ucast (ucast (n :: u8) :: u32) :: u8) = n"
  by (rule bit_word_eqI) (auto simp: bit_simps)

lemma clip: "(if x > k then k else x) = min x (k :: u8)"
  by (auto simp: min_def)

lemma unat_min: "unat (min x k) \<le> unat (k :: u8)" "unat (min x k) \<le> unat x"
  by (simp_all flip: word_le_nat_alt)

text \<open>One vendor operand of capacity \<open>cap\<close> at offset \<open>k\<close>: its length byte and its bytes.\<close>

lemma vendor_operand:
  fixes sz cap :: u8 and k :: nat
  assumes "cec_wf m" "unat sz \<le> length cmd" "k + unat cap \<le> 16"
  defines "n \<equiv> min sz cap"
  shows "ucast ((of_nat k + ucast n) - of_nat k :: u32) = n"
    and "get_bytes (put_bytes k (take (unat n) cmd) m) k (unat n) = take (unat n) cmd"
    and "cec_wf (put_bytes k (take (unat n) cmd) m)"
    and "i < k \<Longrightarrow> get_byte (put_bytes k (take (unat n) cmd) m) i = get_byte m i"
proof -
  have "unat n \<le> unat cap" "unat n \<le> length cmd"
    using unat_min [where x = sz and k = cap] assms by (auto simp: n_def)
  then show "get_bytes (put_bytes k (take (unat n) cmd) m) k (unat n) = take (unat n) cmd"
    "cec_wf (put_bytes k (take (unat n) cmd) m)"
    "i < k \<Longrightarrow> get_byte (put_bytes k (take (unat n) cmd) m) i = get_byte m i"
    using assms by (simp_all add: get_bytes_put_bytes get_byte_put_bytes)
qed simp

lemmas vendor_at_2 = vendor_operand [where k = 2 and cap = 14, simplified]
lemmas vendor_at_5 = vendor_operand [where k = 5 and cap = 11, simplified]

lemma vendor_command_parts:
  assumes "cec_wf m" "unat sz \<le> length cmd"
  shows "cec_ops_vendor_command (cec_msg_vendor_command sz cmd m) = (min sz 14, 2)"
    and "get_bytes (cec_msg_vendor_command sz cmd m) 2 (unat (min sz 14)) = take (unat (min sz 14)) cmd"
    and "cec_ops_vendor_remote_button_down (cec_msg_vendor_remote_button_down sz cmd m) = (min sz 14, 2)"
    and "get_bytes (cec_msg_vendor_remote_button_down sz cmd m) 2 (unat (min sz 14)) =
      take (unat (min sz 14)) cmd"
  using assms
  by (simp_all add: cec_msg_vendor_command_def cec_ops_vendor_command_def
      cec_msg_vendor_remote_button_down_def cec_ops_vendor_remote_button_down_def
      Let_def clip vendor_at_2)

lemma vendor_command_with_id_parts:
  assumes "cec_wf m" "unat sz \<le> length cmd"
  shows "cec_ops_vendor_command_with_id (cec_msg_vendor_command_with_id v sz cmd m) =
      (v AND mask 24, min sz 11, 5)"
    and "get_bytes (cec_msg_vendor_command_with_id v sz cmd m) 5 (unat (min sz 11)) =
      take (unat (min sz 11)) cmd"
  using assms
  by (simp_all add: cec_msg_vendor_command_with_id_def cec_ops_vendor_command_with_id_def
      Let_def clip vendor_at_5 be24_byte_of)

text \<open>Vendor commands and vendor key codes come back as the sent bytes cut to the operand's capacity
  (14, or 11 after a vendor id), at the returned offset; a vendor id comes back modulo its 24 bits.\<close>

theorem cec_vendor_roundtrip:
  assumes "cec_wf m" "unat sz \<le> length cmd"
  defines "n \<equiv> min sz 14" and "k \<equiv> min sz 11"
  shows "cec_ops_vendor_command (cec_msg_vendor_command sz cmd m) = (n, 2) \<and>
    get_bytes (cec_msg_vendor_command sz cmd m) 2 (unat n) = take (unat n) cmd \<and>
    cec_ops_vendor_remote_button_down (cec_msg_vendor_remote_button_down sz cmd m) = (n, 2) \<and>
    get_bytes (cec_msg_vendor_remote_button_down sz cmd m) 2 (unat n) = take (unat n) cmd \<and>
    cec_ops_vendor_command_with_id (cec_msg_vendor_command_with_id v sz cmd m) =
      (v AND mask 24, k, 5) \<and>
    get_bytes (cec_msg_vendor_command_with_id v sz cmd m) 5 (unat k) = take (unat k) cmd \<and>
    cec_ops_device_vendor_id (cec_msg_device_vendor_id v m) = v AND mask 24"
  using assms(1) vendor_command_parts [OF assms(1,2)] vendor_command_with_id_parts [OF assms(1,2)]
  by (simp add: n_def k_def cec_msg_device_vendor_id_def cec_ops_device_vendor_id_def be24_byte_of)

theorem cec_vendor_roundtrip_witness:
  "cec_ops_vendor_command (cec_msg_vendor_command 2 [7, 8] (cec_msg_init 4 0)) = (2, 2)"
  using cec_vendor_roundtrip [of "cec_msg_init 4 0" 2 "[7, 8]"] by (simp add: min_def)

section \<open>The extended feature bytes\<close>

lemma skip_ext_bounds: "p \<le> l \<Longrightarrow> p \<le> skip_ext e l p \<and> skip_ext e l p \<le> l"
proof (induction e l p rule: skip_ext.induct)
  case (1 e l p)
  then show ?case by (cases "p < l \<and> e p") (auto simp: skip_ext.simps [of e l p])
qed

lemma skip_ext_ext: "p \<le> i \<Longrightarrow> i < skip_ext e l p \<Longrightarrow> e i"
proof (induction e l p rule: skip_ext.induct)
  case (1 e l p)
  then show ?case
    by (cases "p < l \<and> e p"; cases "i = p") (auto simp: skip_ext.simps [of e l p])
qed

lemma skip_ext_stop: "skip_ext e l p < l \<Longrightarrow> \<not> e (skip_ext e l p)"
proof (induction e l p rule: skip_ext.induct)
  case (1 e l p)
  then show ?case by (cases "p < l \<and> e p") (auto simp: skip_ext.simps [of e l p])
qed

lemma skip_ext_stay: "\<not> e p \<Longrightarrow> skip_ext e l p = p"
  by (simp add: skip_ext.simps)

text \<open>The feature reader rejects a message exactly when all of bytes 4 to 14 carry the extension bit.
  The second loop, over the device feature bytes, starts at a byte without that bit and so never
  runs: a device feature field that is extended up to the last byte is not rejected.\<close>

theorem cec_report_features_rejects:
  fixes m :: cec_msg
  defines "ext \<equiv> \<lambda>i. get_byte m i AND CEC_OP_FEAT_EXT \<noteq> 0"
  shows "cec_ops_report_features m =
    (get_byte m 2, get_byte m 3,
     if (\<forall>i \<in> set [4..<15]. ext i) then None else Some 4,
     if (\<forall>i \<in> set [4..<15]. ext i) then None else Some (skip_ext ext 14 4 + 1))"
proof -
  let ?p = "skip_ext ext 14 4"
  have "ext ?p \<longleftrightarrow> (\<forall>i \<in> set [4..<15]. ext i)"
  proof
    assume e: "ext ?p"
    then have "?p = 14" using skip_ext_stop [of ext 14 4] skip_ext_bounds [of 4 14 ext] by force
    then show "\<forall>i \<in> set [4..<15]. ext i"
      using e skip_ext_ext [of 4 _ ext 14] by (auto simp: less_Suc_eq numeral_eq_Suc)
  next
    assume "\<forall>i \<in> set [4..<15]. ext i"
    moreover have "?p \<in> set [4..<15]"
      unfolding set_upt atLeastLessThan_iff using skip_ext_bounds [of 4 14 ext] by linarith
    ultimately show "ext ?p" by blast
  qed
  then show ?thesis
    by (auto simp: cec_ops_report_features_def Let_def skip_ext_stay ext_def [symmetric])
qed

theorem cec_report_features_rejects_witness:
  "cec_ops_report_features (cec_msg_init 4 0) = (0, 0, Some 4, Some 5)"
  unfolding cec_report_features_rejects
  by (simp add: skip_ext_stay get_byte_def cec_msg_init_def CEC_OP_FEAT_EXT_def upt_rec)

end
