(* ===== verification/CecControl.thy ===== *)
theory CecControl
  imports CecDevice
begin

text \<open>
  The message builders and readers of \<^verbatim>\<open>linux/cec-funcs.h\<close> for menu control, power status, the
  general protocol, system audio, audio rate, the audio return channel, lipsync and capability
  discovery.
\<close>

definition cec_msg_give_osd_name :: "bool \<Rightarrow> cec_msg \<Rightarrow> cec_msg" where
  [cec_enc]: "cec_msg_give_osd_name reply = stmts
     [set_len 2, put_byte 1 CEC_MSG_GIVE_OSD_NAME, set_reply reply CEC_MSG_SET_OSD_NAME]"

section \<open>Device Menu Control Feature\<close>

definition cec_msg_menu_status :: "u8 \<Rightarrow> cec_msg \<Rightarrow> cec_msg" where
  [cec_enc]: "cec_msg_menu_status menu_state = stmts
     [set_len 3, put_byte 1 CEC_MSG_MENU_STATUS, put_byte 2 menu_state]"

definition cec_ops_menu_status :: "cec_msg \<Rightarrow> u8" where
  [cec_dec]: "cec_ops_menu_status m =
     get_byte m 2"

definition cec_msg_menu_request :: "bool \<Rightarrow> u8 \<Rightarrow> cec_msg \<Rightarrow> cec_msg" where
  [cec_enc]: "cec_msg_menu_request reply menu_req = stmts
     [set_len 3, put_byte 1 CEC_MSG_MENU_REQUEST, put_byte 2 menu_req,
      set_reply reply CEC_MSG_MENU_STATUS]"

definition cec_ops_menu_request :: "cec_msg \<Rightarrow> u8" where
  [cec_dec]: "cec_ops_menu_request m =
     get_byte m 2"

text \<open>The one-byte members of the operand union and the channel format share byte 0.\<close>

record cec_op_ui_command =
  ui_cmd :: u8
  ui_has_opt_arg :: u8
  ui_byte0 :: u8
  ui_chan_major :: u16
  ui_chan_minor :: u16

abbreviation ui_play_mode :: "cec_op_ui_command \<Rightarrow> u8" where
  "ui_play_mode \<equiv> ui_byte0"
abbreviation ui_chan_fmt :: "cec_op_ui_command \<Rightarrow> u8" where
  "ui_chan_fmt \<equiv> ui_byte0"


definition cec_msg_user_control_pressed :: "cec_op_ui_command \<Rightarrow> cec_msg \<Rightarrow> cec_msg" where
  [cec_enc]: "cec_msg_user_control_pressed u = stmts
     ([set_len 3, put_byte 1 CEC_MSG_USER_CONTROL_PRESSED, put_byte 2 (ui_cmd u)] @
      (if ui_has_opt_arg u = 0 then []
       else if ui_cmd u \<in> {CEC_OP_UI_CMD_SELECT_BROADCAST_TYPE, CEC_OP_UI_CMD_SELECT_SOUND_PRESENTATION,
       CEC_OP_UI_CMD_PLAY_FUNCTION, CEC_OP_UI_CMD_SELECT_MEDIA_FUNCTION,
       CEC_OP_UI_CMD_SELECT_AV_INPUT_FUNCTION, CEC_OP_UI_CMD_SELECT_AUDIO_INPUT_FUNCTION}
       then [add_len 1, put_byte 3 (ui_play_mode u)]
       else if ui_cmd u = CEC_OP_UI_CMD_TUNE_FUNCTION then
         [add_len 4, put_byte 3 (push_bit 2 (ui_chan_fmt u) OR hi8 (ui_chan_major u)),
          put_byte 4 (lo8 (ui_chan_major u)), put_byte 5 (hi8 (ui_chan_minor u)),
          put_byte 6 (lo8 (ui_chan_minor u))]
       else []))"

definition cec_ops_user_control_pressed :: "cec_msg \<Rightarrow> cec_op_ui_command \<Rightarrow> cec_op_ui_command" where
  [cec_dec]: "cec_ops_user_control_pressed m u0 =
     (let u = u0\<lparr>ui_cmd := get_byte m 2, ui_has_opt_arg := 0\<rparr> in
      if m_len m = 3 then u
      else if ui_cmd u \<in> {CEC_OP_UI_CMD_SELECT_BROADCAST_TYPE, CEC_OP_UI_CMD_SELECT_SOUND_PRESENTATION,
       CEC_OP_UI_CMD_PLAY_FUNCTION, CEC_OP_UI_CMD_SELECT_MEDIA_FUNCTION,
       CEC_OP_UI_CMD_SELECT_AV_INPUT_FUNCTION, CEC_OP_UI_CMD_SELECT_AUDIO_INPUT_FUNCTION}
      then u\<lparr>ui_byte0 := get_byte m 3, ui_has_opt_arg := 1\<rparr>
      else if ui_cmd u = CEC_OP_UI_CMD_TUNE_FUNCTION then
        (if m_len m < 7 then u
         else u\<lparr>ui_has_opt_arg := 1, ui_byte0 := drop_bit 2 (get_byte m 3),
                ui_chan_major := push_bit 6 (ucast (get_byte m 3 AND 3)) OR ucast (get_byte m 4),
                ui_chan_minor := be16 (get_byte m 5) (get_byte m 6)\<rparr>)
      else u)"

definition cec_msg_user_control_released :: "cec_msg \<Rightarrow> cec_msg" where
  [cec_enc]: "cec_msg_user_control_released = stmts
     [set_len 2, put_byte 1 CEC_MSG_USER_CONTROL_RELEASED]"

section \<open>Remote Control Passthrough Feature\<close>

section \<open>Power Status Feature\<close>

definition cec_msg_report_power_status :: "u8 \<Rightarrow> cec_msg \<Rightarrow> cec_msg" where
  [cec_enc]: "cec_msg_report_power_status pwr_state = stmts
     [set_len 3, put_byte 1 CEC_MSG_REPORT_POWER_STATUS, put_byte 2 pwr_state]"

definition cec_ops_report_power_status :: "cec_msg \<Rightarrow> u8" where
  [cec_dec]: "cec_ops_report_power_status m =
     get_byte m 2"

definition cec_msg_give_device_power_status :: "bool \<Rightarrow> cec_msg \<Rightarrow> cec_msg" where
  [cec_enc]: "cec_msg_give_device_power_status reply = stmts
     [set_len 2, put_byte 1 CEC_MSG_GIVE_DEVICE_POWER_STATUS,
      set_reply reply CEC_MSG_REPORT_POWER_STATUS]"

section \<open>General Protocol Messages\<close>

definition cec_msg_feature_abort :: "u8 \<Rightarrow> u8 \<Rightarrow> cec_msg \<Rightarrow> cec_msg" where
  [cec_enc]: "cec_msg_feature_abort abort_msg reason = stmts
     [set_len 4, put_byte 1 CEC_MSG_FEATURE_ABORT, put_byte 2 abort_msg, put_byte 3 reason]"

definition cec_ops_feature_abort :: "cec_msg \<Rightarrow> u8 \<times> u8" where
  [cec_dec]: "cec_ops_feature_abort m =
     (get_byte m 2, get_byte m 3)"

definition cec_msg_reply_feature_abort :: "u8 \<Rightarrow> cec_msg \<Rightarrow> cec_msg" where
  [cec_enc]: "cec_msg_reply_feature_abort reason = stmts
     [\<lambda>m. cec_msg_set_reply_to m m, set_len 4, \<lambda>m. put_byte 2 (get_byte m 1) m,
      put_byte 3 reason, put_byte 1 CEC_MSG_FEATURE_ABORT]"

definition cec_msg_abort :: "cec_msg \<Rightarrow> cec_msg" where
  [cec_enc]: "cec_msg_abort = stmts
     [set_len 2, put_byte 1 CEC_MSG_ABORT]"

section \<open>System Audio Control Feature\<close>

definition cec_msg_report_audio_status :: "u8 \<Rightarrow> u8 \<Rightarrow> cec_msg \<Rightarrow> cec_msg" where
  [cec_enc]: "cec_msg_report_audio_status aud_mute_status aud_vol_status = stmts
     [set_len 3, put_byte 1 CEC_MSG_REPORT_AUDIO_STATUS,
      put_byte 2 (push_bit 7 aud_mute_status OR (aud_vol_status AND 0x7f))]"

definition cec_ops_report_audio_status :: "cec_msg \<Rightarrow> u8 \<times> u8" where
  [cec_dec]: "cec_ops_report_audio_status m = (drop_bit 7 (get_byte m 2), get_byte m 2 AND 0x7f)"

definition cec_msg_give_audio_status :: "bool \<Rightarrow> cec_msg \<Rightarrow> cec_msg" where
  [cec_enc]: "cec_msg_give_audio_status reply = stmts
     [set_len 2, put_byte 1 CEC_MSG_GIVE_AUDIO_STATUS,
      set_reply reply CEC_MSG_REPORT_AUDIO_STATUS]"

definition cec_msg_set_system_audio_mode :: "u8 \<Rightarrow> cec_msg \<Rightarrow> cec_msg" where
  [cec_enc]: "cec_msg_set_system_audio_mode sys_aud_status = stmts
     [set_len 3, put_byte 1 CEC_MSG_SET_SYSTEM_AUDIO_MODE, put_byte 2 sys_aud_status]"

definition cec_ops_set_system_audio_mode :: "cec_msg \<Rightarrow> u8" where
  [cec_dec]: "cec_ops_set_system_audio_mode m =
     get_byte m 2"

definition cec_msg_system_audio_mode_request :: "bool \<Rightarrow> u16 \<Rightarrow> cec_msg \<Rightarrow> cec_msg" where
  [cec_enc]: "cec_msg_system_audio_mode_request reply phys_addr = stmts
     [set_len (if phys_addr = 0xffff then 2 else 4), put_byte 1 CEC_MSG_SYSTEM_AUDIO_MODE_REQUEST,
      put_byte 2 (hi8 phys_addr), put_byte 3 (lo8 phys_addr),
      set_reply reply CEC_MSG_SET_SYSTEM_AUDIO_MODE]"

definition cec_ops_system_audio_mode_request :: "cec_msg \<Rightarrow> u16" where
  [cec_dec]: "cec_ops_system_audio_mode_request m =
     (if m_len m < 4 then 0xffff else be16 (get_byte m 2) (get_byte m 3))"

definition cec_msg_system_audio_mode_status :: "u8 \<Rightarrow> cec_msg \<Rightarrow> cec_msg" where
  [cec_enc]: "cec_msg_system_audio_mode_status sys_aud_status = stmts
     [set_len 3, put_byte 1 CEC_MSG_SYSTEM_AUDIO_MODE_STATUS, put_byte 2 sys_aud_status]"

definition cec_ops_system_audio_mode_status :: "cec_msg \<Rightarrow> u8" where
  [cec_dec]: "cec_ops_system_audio_mode_status m =
     get_byte m 2"

definition cec_msg_give_system_audio_mode_status :: "bool \<Rightarrow> cec_msg \<Rightarrow> cec_msg" where
  [cec_enc]: "cec_msg_give_system_audio_mode_status reply = stmts
     [set_len 2, put_byte 1 CEC_MSG_GIVE_SYSTEM_AUDIO_MODE_STATUS,
      set_reply reply CEC_MSG_SYSTEM_AUDIO_MODE_STATUS]"

definition cec_msg_report_short_audio_descriptor :: "u8 \<Rightarrow> u32 list \<Rightarrow> cec_msg \<Rightarrow> cec_msg" where
  [cec_enc]: "cec_msg_report_short_audio_descriptor num_descriptors descriptors =
     (let n = (if num_descriptors > 4 then 4 else num_descriptors) in stmts
     ([set_len (2 + ucast n * 3), put_byte 1 CEC_MSG_REPORT_SHORT_AUDIO_DESCRIPTOR] @
      map (\<lambda>i. stmts [put_byte (2 + i * 3) (byte_of 16 (descriptors ! i)),
                     put_byte (3 + i * 3) (byte_of 8 (descriptors ! i)),
                     put_byte (4 + i * 3) (byte_of 0 (descriptors ! i))]) [0..<unat n]))"

definition cec_ops_report_short_audio_descriptor :: "cec_msg \<Rightarrow> u8 \<times> u32 list" where
  [cec_dec]: "cec_ops_report_short_audio_descriptor m =
     (let n0 = ucast ((m_len m - 2) div 3); n = (if n0 > 4 then 4 else n0) in
      (n, map (\<lambda>i. be24 (get_byte m (2 + i * 3)) (get_byte m (3 + i * 3)) (get_byte m (4 + i * 3)))
            [0..<unat n]))"

definition cec_msg_request_short_audio_descriptor :: "bool \<Rightarrow> u8 \<Rightarrow> u8 list \<Rightarrow> u8 list \<Rightarrow> cec_msg \<Rightarrow> cec_msg" where
  [cec_enc]: "cec_msg_request_short_audio_descriptor reply num_descriptors audio_format_id audio_format_code =
     (let n = (if num_descriptors > 4 then 4 else num_descriptors) in stmts
     ([set_len (2 + ucast n), put_byte 1 CEC_MSG_REQUEST_SHORT_AUDIO_DESCRIPTOR,
       set_reply reply CEC_MSG_REPORT_SHORT_AUDIO_DESCRIPTOR] @
      map (\<lambda>i. put_byte (2 + i) (push_bit 6 (audio_format_id ! i) OR (audio_format_code ! i AND 0x3f)))
        [0..<unat n]))"

definition cec_ops_request_short_audio_descriptor :: "cec_msg \<Rightarrow> u8 \<times> u8 list \<times> u8 list" where
  [cec_dec]: "cec_ops_request_short_audio_descriptor m =
     (let n0 = ucast (m_len m - 2); n = (if n0 > 4 then 4 else n0) in
      (n, map (\<lambda>i. drop_bit 6 (get_byte m (2 + i))) [0..<unat n],
       map (\<lambda>i. get_byte m (2 + i) AND 0x3f) [0..<unat n]))"

definition cec_msg_set_audio_volume_level :: "u8 \<Rightarrow> cec_msg \<Rightarrow> cec_msg" where
  [cec_enc]: "cec_msg_set_audio_volume_level audio_volume_level = stmts
     [set_len 3, put_byte 1 CEC_MSG_SET_AUDIO_VOLUME_LEVEL, put_byte 2 audio_volume_level]"

definition cec_ops_set_audio_volume_level :: "cec_msg \<Rightarrow> u8" where
  [cec_dec]: "cec_ops_set_audio_volume_level m =
     get_byte m 2"

section \<open>Audio Rate Control Feature\<close>

definition cec_msg_set_audio_rate :: "u8 \<Rightarrow> cec_msg \<Rightarrow> cec_msg" where
  [cec_enc]: "cec_msg_set_audio_rate audio_rate = stmts
     [set_len 3, put_byte 1 CEC_MSG_SET_AUDIO_RATE, put_byte 2 audio_rate]"

definition cec_ops_set_audio_rate :: "cec_msg \<Rightarrow> u8" where
  [cec_dec]: "cec_ops_set_audio_rate m =
     get_byte m 2"

section \<open>Audio Return Channel Control Feature\<close>

definition cec_msg_report_arc_initiated :: "cec_msg \<Rightarrow> cec_msg" where
  [cec_enc]: "cec_msg_report_arc_initiated = stmts
     [set_len 2, put_byte 1 CEC_MSG_REPORT_ARC_INITIATED]"

definition cec_msg_initiate_arc :: "bool \<Rightarrow> cec_msg \<Rightarrow> cec_msg" where
  [cec_enc]: "cec_msg_initiate_arc reply = stmts
     [set_len 2, put_byte 1 CEC_MSG_INITIATE_ARC,
      set_reply reply CEC_MSG_REPORT_ARC_INITIATED]"

definition cec_msg_request_arc_initiation :: "bool \<Rightarrow> cec_msg \<Rightarrow> cec_msg" where
  [cec_enc]: "cec_msg_request_arc_initiation reply = stmts
     [set_len 2, put_byte 1 CEC_MSG_REQUEST_ARC_INITIATION,
      set_reply reply CEC_MSG_INITIATE_ARC]"

definition cec_msg_report_arc_terminated :: "cec_msg \<Rightarrow> cec_msg" where
  [cec_enc]: "cec_msg_report_arc_terminated = stmts
     [set_len 2, put_byte 1 CEC_MSG_REPORT_ARC_TERMINATED]"

definition cec_msg_terminate_arc :: "bool \<Rightarrow> cec_msg \<Rightarrow> cec_msg" where
  [cec_enc]: "cec_msg_terminate_arc reply = stmts
     [set_len 2, put_byte 1 CEC_MSG_TERMINATE_ARC,
      set_reply reply CEC_MSG_REPORT_ARC_TERMINATED]"

definition cec_msg_request_arc_termination :: "bool \<Rightarrow> cec_msg \<Rightarrow> cec_msg" where
  [cec_enc]: "cec_msg_request_arc_termination reply = stmts
     [set_len 2, put_byte 1 CEC_MSG_REQUEST_ARC_TERMINATION,
      set_reply reply CEC_MSG_TERMINATE_ARC]"

section \<open>Dynamic Audio Lipsync Feature\<close>

section \<open>Only for CEC 2.0 and up\<close>

definition cec_msg_report_current_latency :: "u16 \<Rightarrow> u8 \<Rightarrow> u8 \<Rightarrow> u8 \<Rightarrow> u8 \<Rightarrow> cec_msg \<Rightarrow> cec_msg" where
  [cec_enc]: "cec_msg_report_current_latency phys_addr video_latency low_latency_mode
      audio_out_compensated audio_out_delay = stmts
     ([set_len 6, or_byte 0 0xf, put_byte 1 CEC_MSG_REPORT_CURRENT_LATENCY,
       put_byte 2 (hi8 phys_addr), put_byte 3 (lo8 phys_addr), put_byte 4 video_latency,
       put_byte 5 (push_bit 2 low_latency_mode OR audio_out_compensated)] @
      (if audio_out_compensated = 3 then [append_byte audio_out_delay] else []))"

definition cec_ops_report_current_latency :: "cec_msg \<Rightarrow> u16 \<times> u8 \<times> u8 \<times> u8 \<times> u8" where
  [cec_dec]: "cec_ops_report_current_latency m =
     (let audio_out_compensated = get_byte m 5 AND 3 in
      (be16 (get_byte m 2) (get_byte m 3), get_byte m 4, drop_bit 2 (get_byte m 5) AND 1,
       audio_out_compensated,
       if audio_out_compensated = 3 \<and> m_len m \<ge> 7 then get_byte m 6 else 1))"

definition cec_msg_request_current_latency :: "bool \<Rightarrow> u16 \<Rightarrow> cec_msg \<Rightarrow> cec_msg" where
  [cec_enc]: "cec_msg_request_current_latency reply phys_addr = stmts
     [set_len 4, or_byte 0 0xf, put_byte 1 CEC_MSG_REQUEST_CURRENT_LATENCY,
      put_byte 2 (hi8 phys_addr), put_byte 3 (lo8 phys_addr),
      set_reply reply CEC_MSG_REPORT_CURRENT_LATENCY]"

definition cec_ops_request_current_latency :: "cec_msg \<Rightarrow> u16" where
  [cec_dec]: "cec_ops_request_current_latency m =
     be16 (get_byte m 2) (get_byte m 3)"

section \<open>Capability Discovery and Control Feature\<close>

definition cec_msg_cdc_hec_inquire_state :: "u16 \<Rightarrow> u16 \<Rightarrow> cec_msg \<Rightarrow> cec_msg" where
  [cec_enc]: "cec_msg_cdc_hec_inquire_state phys_addr1 phys_addr2 = stmts
     [set_len 9, or_byte 0 0xf, put_byte 1 CEC_MSG_CDC_MESSAGE,
      put_byte 4 CEC_MSG_CDC_HEC_INQUIRE_STATE, put_byte 5 (hi8 phys_addr1),
      put_byte 6 (lo8 phys_addr1), put_byte 7 (hi8 phys_addr2),
      put_byte 8 (lo8 phys_addr2)]"

definition cec_ops_cdc_hec_inquire_state :: "cec_msg \<Rightarrow> u16 \<times> u16 \<times> u16" where
  [cec_dec]: "cec_ops_cdc_hec_inquire_state m =
     (be16 (get_byte m 2) (get_byte m 3), be16 (get_byte m 5) (get_byte m 6),
      be16 (get_byte m 7) (get_byte m 8))"

definition cec_msg_cdc_hec_report_state :: "u16 \<Rightarrow> u8 \<Rightarrow> u8 \<Rightarrow> u8 \<Rightarrow> u8 \<Rightarrow> u8 \<Rightarrow> u16 \<Rightarrow> cec_msg \<Rightarrow> cec_msg" where
  [cec_enc]: "cec_msg_cdc_hec_report_state target_phys_addr hec_func_state host_func_state
      enc_func_state cdc_errcode has_field hec_field = stmts
     ([set_len (if has_field \<noteq> 0 then 10 else 8), or_byte 0 0xf, put_byte 1 CEC_MSG_CDC_MESSAGE,
       put_byte 4 CEC_MSG_CDC_HEC_REPORT_STATE, put_byte 5 (hi8 target_phys_addr),
       put_byte 6 (lo8 target_phys_addr),
       put_byte 7 (push_bit 6 hec_func_state OR push_bit 4 host_func_state OR
                   push_bit 2 enc_func_state OR cdc_errcode)] @
      (if has_field \<noteq> 0 then [put_byte 8 (hi8 hec_field), put_byte 9 (lo8 hec_field)] else []))"

definition cec_ops_cdc_hec_report_state ::
    "cec_msg \<Rightarrow> u16 \<times> u16 \<times> u8 \<times> u8 \<times> u8 \<times> u8 \<times> u8 \<times> u16" where
  [cec_dec]: "cec_ops_cdc_hec_report_state m =
     (let b7 = get_byte m 7; has_field = (if m_len m \<ge> 10 then 1 else 0) in
      (be16 (get_byte m 2) (get_byte m 3), be16 (get_byte m 5) (get_byte m 6),
       drop_bit 6 b7, drop_bit 4 b7 AND 3, drop_bit 4 b7 AND 3, b7 AND 3, has_field,
       if has_field \<noteq> 0 then be16 (get_byte m 8) (get_byte m 9) else 0))"

definition cec_msg_cdc_hec_set_state :: "u16 \<Rightarrow> u16 \<Rightarrow> u8 \<Rightarrow> u16 \<Rightarrow> u16 \<Rightarrow> u16 \<Rightarrow> cec_msg \<Rightarrow> cec_msg" where
  [cec_enc]: "cec_msg_cdc_hec_set_state phys_addr1 phys_addr2 hec_set_state phys_addr3 phys_addr4
      phys_addr5 = stmts
     ([set_len 10, or_byte 0 0xf, put_byte 1 CEC_MSG_CDC_MESSAGE,
       put_byte 4 CEC_MSG_CDC_HEC_INQUIRE_STATE, put_byte 5 (hi8 phys_addr1), put_byte 6 (lo8 phys_addr1),
       put_byte 7 (hi8 phys_addr2), put_byte 8 (lo8 phys_addr2), put_byte 9 hec_set_state] @
      (if phys_addr3 \<noteq> CEC_PHYS_ADDR_INVALID then
         [append_byte (hi8 phys_addr3), append_byte (lo8 phys_addr3)] @
         (if phys_addr4 \<noteq> CEC_PHYS_ADDR_INVALID then
            [append_byte (hi8 phys_addr4), append_byte (lo8 phys_addr4)] @
            (if phys_addr5 \<noteq> CEC_PHYS_ADDR_INVALID then
               [append_byte (hi8 phys_addr5), append_byte (lo8 phys_addr5)] else [])
          else [])
       else []))"

definition cec_ops_cdc_hec_set_state ::
    "cec_msg \<Rightarrow> u16 \<times> u16 \<times> u16 \<times> u8 \<times> u16 \<times> u16 \<times> u16" where
  [cec_dec]: "cec_ops_cdc_hec_set_state m =
     (be16 (get_byte m 2) (get_byte m 3), be16 (get_byte m 5) (get_byte m 6),
      be16 (get_byte m 7) (get_byte m 8), get_byte m 9,
      if m_len m \<ge> 12 then be16 (get_byte m 10) (get_byte m 11) else CEC_PHYS_ADDR_INVALID,
      if m_len m \<ge> 14 then be16 (get_byte m 12) (get_byte m 13) else CEC_PHYS_ADDR_INVALID,
      if m_len m \<ge> 16 then be16 (get_byte m 14) (get_byte m 15) else CEC_PHYS_ADDR_INVALID)"

definition cec_msg_cdc_hec_set_state_adjacent :: "u16 \<Rightarrow> u8 \<Rightarrow> cec_msg \<Rightarrow> cec_msg" where
  [cec_enc]: "cec_msg_cdc_hec_set_state_adjacent phys_addr1 hec_set_state = stmts
     [set_len 8, or_byte 0 0xf, put_byte 1 CEC_MSG_CDC_MESSAGE,
      put_byte 4 CEC_MSG_CDC_HEC_SET_STATE_ADJACENT, put_byte 5 (hi8 phys_addr1),
      put_byte 6 (lo8 phys_addr1), put_byte 7 hec_set_state]"

definition cec_ops_cdc_hec_set_state_adjacent :: "cec_msg \<Rightarrow> u16 \<times> u16 \<times> u8" where
  [cec_dec]: "cec_ops_cdc_hec_set_state_adjacent m =
     (be16 (get_byte m 2) (get_byte m 3), be16 (get_byte m 5) (get_byte m 6), get_byte m 7)"

definition cec_msg_cdc_hec_request_deactivation :: "u16 \<Rightarrow> u16 \<Rightarrow> u16 \<Rightarrow> cec_msg \<Rightarrow> cec_msg" where
  [cec_enc]: "cec_msg_cdc_hec_request_deactivation phys_addr1 phys_addr2 phys_addr3 = stmts
     [set_len 11, or_byte 0 0xf, put_byte 1 CEC_MSG_CDC_MESSAGE,
      put_byte 4 CEC_MSG_CDC_HEC_REQUEST_DEACTIVATION, put_byte 5 (hi8 phys_addr1),
      put_byte 6 (lo8 phys_addr1), put_byte 7 (hi8 phys_addr2),
      put_byte 8 (lo8 phys_addr2), put_byte 9 (hi8 phys_addr3),
      put_byte 10 (lo8 phys_addr3)]"

definition cec_ops_cdc_hec_request_deactivation :: "cec_msg \<Rightarrow> u16 \<times> u16 \<times> u16 \<times> u16" where
  [cec_dec]: "cec_ops_cdc_hec_request_deactivation m =
     (be16 (get_byte m 2) (get_byte m 3), be16 (get_byte m 5) (get_byte m 6),
      be16 (get_byte m 7) (get_byte m 8), be16 (get_byte m 9) (get_byte m 10))"

definition cec_msg_cdc_hec_notify_alive :: "cec_msg \<Rightarrow> cec_msg" where
  [cec_enc]: "cec_msg_cdc_hec_notify_alive = stmts
     [set_len 5, or_byte 0 0xf, put_byte 1 CEC_MSG_CDC_MESSAGE,
      put_byte 4 CEC_MSG_CDC_HEC_NOTIFY_ALIVE]"

definition cec_ops_cdc_hec_notify_alive :: "cec_msg \<Rightarrow> u16" where
  [cec_dec]: "cec_ops_cdc_hec_notify_alive m =
     be16 (get_byte m 2) (get_byte m 3)"

definition cec_msg_cdc_hec_discover :: "cec_msg \<Rightarrow> cec_msg" where
  [cec_enc]: "cec_msg_cdc_hec_discover = stmts
     [set_len 5, or_byte 0 0xf, put_byte 1 CEC_MSG_CDC_MESSAGE,
      put_byte 4 CEC_MSG_CDC_HEC_DISCOVER]"

definition cec_ops_cdc_hec_discover :: "cec_msg \<Rightarrow> u16" where
  [cec_dec]: "cec_ops_cdc_hec_discover m =
     be16 (get_byte m 2) (get_byte m 3)"

definition cec_msg_cdc_hpd_set_state :: "u8 \<Rightarrow> u8 \<Rightarrow> cec_msg \<Rightarrow> cec_msg" where
  [cec_enc]: "cec_msg_cdc_hpd_set_state input_port hpd_state = stmts
     [set_len 6, or_byte 0 0xf, put_byte 1 CEC_MSG_CDC_MESSAGE,
      put_byte 4 CEC_MSG_CDC_HPD_SET_STATE, put_byte 5 (push_bit 4 input_port OR hpd_state)]"

definition cec_ops_cdc_hpd_set_state :: "cec_msg \<Rightarrow> u16 \<times> u8 \<times> u8" where
  [cec_dec]: "cec_ops_cdc_hpd_set_state m =
     (be16 (get_byte m 2) (get_byte m 3), drop_bit 4 (get_byte m 5), get_byte m 5 AND 0xf)"

definition cec_msg_cdc_hpd_report_state :: "u8 \<Rightarrow> u8 \<Rightarrow> cec_msg \<Rightarrow> cec_msg" where
  [cec_enc]: "cec_msg_cdc_hpd_report_state hpd_state hpd_error = stmts
     [set_len 6, or_byte 0 0xf, put_byte 1 CEC_MSG_CDC_MESSAGE,
      put_byte 4 CEC_MSG_CDC_HPD_REPORT_STATE, put_byte 5 (push_bit 4 hpd_state OR hpd_error)]"

definition cec_ops_cdc_hpd_report_state :: "cec_msg \<Rightarrow> u16 \<times> u8 \<times> u8" where
  [cec_dec]: "cec_ops_cdc_hpd_report_state m =
     (be16 (get_byte m 2) (get_byte m 3), drop_bit 4 (get_byte m 5), get_byte m 5 AND 0xf)"


section \<open>Audio, latency and hotplug\<close>

lemma latency_bits:
  fixes a b :: u8
  assumes "a < 2" "b < 4"
  shows "drop_bit 2 (push_bit 2 a OR b) AND 1 = a" "(push_bit 2 a OR b) AND 3 = b"
proof -
  have b: "b < 2 ^ 2" using assms by simp
  have a: "a AND mask 1 = a" by (rule and_mask_small) (use assms in simp_all)
  have "drop_bit 2 (push_bit 2 a OR b) AND mask 1 = (a AND mask 6) AND mask 1"
    using unpack_high [OF b, of a] by simp
  also have "\<dots> = a AND mask 1" by (rule bit_word_eqI) (auto simp: bit_simps)
  finally show "drop_bit 2 (push_bit 2 a OR b) AND 1 = a"
    using a by (simp add: mask_eq_exp_minus_1)
  show "(push_bit 2 a OR b) AND 3 = b" using unpack_low [OF b, of a] by (simp add: mask_consts)
qed

text \<open>The lipsync, mute, volume, system audio and hotplug operands come back as built within the
  bits their fields have; the reader reports delay 1 unless a partial delay was sent.\<close>

theorem cec_audio_roundtrip:
  assumes "cec_wf m" "low < 2" "aoc < 4" "mute < 2" "vol < 128" "p < 16" "h < 16" "e < 16"
  shows "cec_ops_report_current_latency (cec_msg_report_current_latency a v low aoc d m) =
      (a, v, low, aoc, if aoc = 3 then d else 1) \<and>
    cec_ops_report_audio_status (cec_msg_report_audio_status mute vol m) = (mute, vol) \<and>
    cec_ops_system_audio_mode_request (cec_msg_system_audio_mode_request r a m) = a \<and>
    snd (cec_ops_cdc_hpd_set_state (cec_msg_cdc_hpd_set_state p h m)) = (p, h) \<and>
    snd (cec_ops_cdc_hpd_report_state (cec_msg_cdc_hpd_report_state h e m)) = (h, e)"
proof -
  have v: "vol AND 0x7f = vol" using and_mask_small [of vol 7] assms by (simp add: mask_consts)
  have mute: "mute AND 1 = mute" using and_mask_small [of mute 1] assms by (simp add: mask_eq_exp_minus_1)
  have nib: "drop_bit 4 (push_bit 4 x OR y) = x" "(push_bit 4 x OR y) AND 0xf = y"
    if "x < 16" "y < 16" for x y :: u8
    using unpack_high [of y 4 x] unpack_low [of y 4 x] and_mask_small [of x 4] that
    by (simp_all add: mask_consts)
  show ?thesis
    using assms latency_bits [of low aoc] latency_bits [of low 3] method_bit [of vol mute] nib [of p h] nib [of h e] v mute
    by (simp add: cec_msg_report_current_latency_def cec_ops_report_current_latency_def Let_def
        cec_msg_report_audio_status_def cec_ops_report_audio_status_def
        cec_msg_system_audio_mode_request_def cec_ops_system_audio_mode_request_def
        cec_msg_cdc_hpd_set_state_def cec_ops_cdc_hpd_set_state_def
        cec_msg_cdc_hpd_report_state_def cec_ops_cdc_hpd_report_state_def
        del: drop_bit_or)
qed

theorem cec_audio_roundtrip_witness:
  "cec_ops_report_audio_status (cec_msg_report_audio_status 1 40 (cec_msg_init 5 0)) = (1, 40)"
  using cec_audio_roundtrip [of "cec_msg_init 5 0" 1 3 1 40 0 0 0] by simp

section \<open>Audio descriptors\<close>

lemma upto_4: "n \<le> (4 :: u8) \<Longrightarrow> n = 0 \<or> n = 1 \<or> n = 2 \<or> n = 3 \<or> n = 4"
proof -
  assume "n \<le> 4"
  then have "unat n \<le> 4" by (simp add: word_le_nat_alt)
  then have "unat n = 0 \<or> unat n = 1 \<or> unat n = 2 \<or> unat n = 3 \<or> unat n = 4" by linarith
  then show ?thesis by (auto simp: word_unat_eq_iff)
qed

lemma upt_small:
  "[0..<Suc 0] = [0]" "[0..<2] = [0, 1 :: nat]" "[0..<3] = [0, 1, 2 :: nat]" "[0..<4] = [0, 1, 2, 3 :: nat]"
  by (simp_all add: upt_rec)

lemma take_map: "n \<le> length xs \<Longrightarrow> take n xs = map ((!) xs) [0..<n]"
  by (simp add: list_eq_iff_nth_eq)

lemma take_small:
  "Suc 0 \<le> length xs \<Longrightarrow> take (Suc 0) xs = [xs ! 0]"
  "2 \<le> length xs \<Longrightarrow> take 2 xs = [xs ! 0, xs ! 1]"
  "3 \<le> length xs \<Longrightarrow> take 3 xs = [xs ! 0, xs ! 1, xs ! 2]"
  "4 \<le> length xs \<Longrightarrow> take 4 xs = [xs ! 0, xs ! 1, xs ! 2, xs ! 3]"
  by (simp_all only: take_map upt_small list.map)

lemma report_short_audio:
  assumes "cec_wf m" "n \<le> 4" "unat n \<le> length ds"
  shows "cec_ops_report_short_audio_descriptor (cec_msg_report_short_audio_descriptor n ds m) =
    (n, map (\<lambda>d. d AND mask 24) (take (unat n) ds))"
  using upto_4 [OF assms(2)] assms(1,3)
  by (elim disjE) (simp_all add: cec_msg_report_short_audio_descriptor_def upt_small take_small
      cec_ops_report_short_audio_descriptor_def Let_def be24_byte_of)

lemma two_six:
  fixes a b :: u8
  assumes "a < 4" "b < 64"
  shows "drop_bit 6 (push_bit 6 a OR (b AND 0x3f)) = a" "(push_bit 6 a OR (b AND 0x3f)) AND 0x3f = b"
proof -
  have b: "b AND 0x3f = b" using and_mask_small [of b 6] assms by (simp add: mask_consts)
  show "drop_bit 6 (push_bit 6 a OR (b AND 0x3f)) = a"
    using unpack_high [of b 6 a] and_mask_small [of a 2] assms b by simp
  show "(push_bit 6 a OR (b AND 0x3f)) AND 0x3f = b"
    using unpack_low [of b 6 a] assms b by (simp add: mask_consts)
qed

lemma request_short_audio:
  assumes "cec_wf m" "n \<le> 4" "unat n \<le> length ids" "unat n \<le> length codes"
    "\<forall>a \<in> set ids. a < 4" "\<forall>b \<in> set codes. b < 64"
  shows "cec_ops_request_short_audio_descriptor (cec_msg_request_short_audio_descriptor r n ids codes m) =
    (n, take (unat n) ids, take (unat n) codes)"
proof -
  have f: "drop_bit 6 (push_bit 6 (ids ! i) OR (codes ! i AND 0x3f)) = ids ! i"
    "(push_bit 6 (ids ! i) OR (codes ! i AND 0x3f)) AND 0x3f = codes ! i" if "i < unat n" for i
    using that assms two_six [of "ids ! i" "codes ! i"] by simp_all
  show ?thesis
    using upto_4 [OF assms(2)] assms(1,3,4) f [of 0] f [of 1] f [of 2] f [of 3]
    by (elim disjE) (simp_all add: cec_msg_request_short_audio_descriptor_def upt_small take_small
        cec_ops_request_short_audio_descriptor_def Let_def del: drop_bit_or)
qed

text \<open>Up to four audio descriptors survive the wire, each cut to its three bytes, and up to four format
  requests survive whole; what goes beyond four is dropped by builder and reader alike.\<close>

theorem cec_short_audio_roundtrip:
  assumes "cec_wf m" "n \<le> 4" "unat n \<le> length ds" "unat n \<le> length ids" "unat n \<le> length codes"
    "\<forall>a \<in> set ids. a < 4" "\<forall>b \<in> set codes. b < 64"
  shows "cec_ops_report_short_audio_descriptor (cec_msg_report_short_audio_descriptor n ds m) =
      (n, map (\<lambda>d. d AND mask 24) (take (unat n) ds)) \<and>
    cec_ops_request_short_audio_descriptor (cec_msg_request_short_audio_descriptor r n ids codes m) =
      (n, take (unat n) ids, take (unat n) codes)"
  using assms by (simp add: report_short_audio request_short_audio)

theorem cec_short_audio_roundtrip_witness:
  "cec_ops_request_short_audio_descriptor
      (cec_msg_request_short_audio_descriptor True 2 [0, 1] [9, 10] (cec_msg_init 0 5)) = (2, [0, 1], [9, 10])"
  using cec_short_audio_roundtrip [of "cec_msg_init 0 5" 2 "[0, 0]" "[0, 1]" "[9, 10]" True] by simp

section \<open>Remote control\<close>

text \<open>A pressed key without argument, a key with a one-byte argument and a channel key (with a major
  number below 256) come back as pressed, and the reader keeps the fields the message does not have.\<close>

theorem cec_user_control_roundtrip:
  fixes m :: cec_msg and u u0 :: cec_op_ui_command
  assumes "cec_wf m" "ui_chan_fmt u < 64" "ui_chan_major u < 256"
  defines "one_byte \<equiv> {CEC_OP_UI_CMD_SELECT_BROADCAST_TYPE, CEC_OP_UI_CMD_SELECT_SOUND_PRESENTATION,
      CEC_OP_UI_CMD_PLAY_FUNCTION, CEC_OP_UI_CMD_SELECT_MEDIA_FUNCTION,
      CEC_OP_UI_CMD_SELECT_AV_INPUT_FUNCTION, CEC_OP_UI_CMD_SELECT_AUDIO_INPUT_FUNCTION}"
    and "r \<equiv> cec_ops_user_control_pressed (cec_msg_user_control_pressed u m) u0"
  shows "(ui_has_opt_arg u = 0 \<longrightarrow> r = u0\<lparr>ui_cmd := ui_cmd u, ui_has_opt_arg := 0\<rparr>) \<and>
    (ui_has_opt_arg u \<noteq> 0 \<and> ui_cmd u \<in> one_byte \<longrightarrow>
       r = u0\<lparr>ui_cmd := ui_cmd u, ui_has_opt_arg := 1, ui_byte0 := ui_byte0 u\<rparr>) \<and>
    (ui_has_opt_arg u \<noteq> 0 \<and> ui_cmd u = CEC_OP_UI_CMD_TUNE_FUNCTION \<longrightarrow> r = u\<lparr>ui_has_opt_arg := 1\<rparr>)"
proof -
  have u: "ui_chan_major u < 1024" using assms(3) by (rule order.strict_trans) simp
  note bits = channel_major_bits [OF assms(2) u] channel_major_read [OF u, THEN iffD2, OF assms(3)]
  show ?thesis
    using assms(1) bits
    by (auto simp: r_def one_byte_def cec_msg_user_control_pressed_def cec_ops_user_control_pressed_def
        Let_def cec_const simp del: drop_bit_or intro!: cec_op_ui_command.equality)
qed

theorem cec_user_control_roundtrip_witness:
  fixes u :: cec_op_ui_command
  defines "u \<equiv> \<lparr>ui_cmd = CEC_OP_UI_CMD_TUNE_FUNCTION, ui_has_opt_arg = 1, ui_byte0 = 2,
      ui_chan_major = 12, ui_chan_minor = 1\<rparr>"
  shows "cec_ops_user_control_pressed (cec_msg_user_control_pressed u (cec_msg_init 0 3)) u = u"
  using cec_user_control_roundtrip [of "cec_msg_init 0 3" u u] by (simp add: u_def)

section \<open>Capability discovery\<close>

lemma hec_bits:
  fixes a b c d :: u8
  assumes "a < 4" "b < 4" "c < 4" "d < 4"
  defines "x \<equiv> push_bit 6 a OR push_bit 4 b OR push_bit 2 c OR d"
  shows "drop_bit 6 x = a" "drop_bit 4 x AND 3 = b" "x AND 3 = d"
proof -
  have t: "take_bit 2 a = a" "take_bit 2 b = b" "take_bit 2 c = c" "take_bit 2 d = d"
    using take_bit_small [of a 2] take_bit_small [of b 2] take_bit_small [of c 2] take_bit_small [of d 2] assms
    by simp_all
  then have x: "x = push_bit 6 (take_bit 2 a) OR push_bit 4 (take_bit 2 b) OR push_bit 2 (take_bit 2 c) OR
      take_bit 2 d" by (simp only: x_def)
  have "drop_bit 6 x = take_bit 2 a"
    unfolding x by (rule bit_word_eqI) (auto simp: bit_simps)
  then show "drop_bit 6 x = a" using t by simp
  have "drop_bit 4 x AND 3 = take_bit 2 b"
    unfolding x mask_consts by (rule bit_word_eqI) (auto simp: bit_simps)
  then show "drop_bit 4 x AND 3 = b" using t by simp
  have "x AND 3 = take_bit 2 d"
    unfolding x mask_consts by (rule bit_word_eqI) (auto simp: bit_simps)
  then show "x AND 3 = d" using t by simp
qed

text \<open>The Ethernet channel state comes back as sent except for the state of the external connection:
  the reader takes it from the bits of the host state, so it reports the host state twice.\<close>

theorem cec_hec_report_state_roundtrip:
  assumes "cec_wf m" "hec < 4" "host < 4" "enc < 4" "err < 4"
  shows "snd (cec_ops_cdc_hec_report_state (cec_msg_cdc_hec_report_state t hec host enc err f fld m)) =
    (t, hec, host, host, err, if f \<noteq> 0 then 1 else 0, if f \<noteq> 0 then fld else 0)"
  using assms hec_bits [of hec host enc err]
  by (simp add: cec_msg_cdc_hec_report_state_def cec_ops_cdc_hec_report_state_def Let_def
      del: drop_bit_or)

theorem cec_hec_report_state_roundtrip_witness:
  "snd (cec_ops_cdc_hec_report_state (cec_msg_cdc_hec_report_state 0x1000 2 1 3 0 0 0 (cec_msg_init 4 15))) =
    (0x1000, 2, 1, 1, 0, 0, 0)"
  using cec_hec_report_state_roundtrip [of "cec_msg_init 4 15" 2 1 3 0 "0x1000" 0 0] by simp

text \<open>A request to set the channel state carries its five addresses and its state to the reader, but
  under the opcode of an inquiry: no receiver that dispatches on the opcode sees it as what it is.\<close>

theorem cec_hec_set_state_opcode:
  assumes "cec_wf m" "a4 = CEC_PHYS_ADDR_INVALID \<longrightarrow> a5 = CEC_PHYS_ADDR_INVALID"
    "a3 = CEC_PHYS_ADDR_INVALID \<longrightarrow> a4 = CEC_PHYS_ADDR_INVALID"
  shows "snd (cec_ops_cdc_hec_set_state (cec_msg_cdc_hec_set_state a1 a2 st a3 a4 a5 m)) =
      (a1, a2, st, a3, a4, a5) \<and>
    get_byte (cec_msg_cdc_hec_set_state a1 a2 st a3 a4 a5 m) 4 = CEC_MSG_CDC_HEC_INQUIRE_STATE \<and>
    get_byte (cec_msg_cdc_hec_set_state a1 a2 st a3 a4 a5 m) 4 \<noteq> CEC_MSG_CDC_HEC_SET_STATE"
  using assms
  by (auto simp: cec_msg_cdc_hec_set_state_def cec_ops_cdc_hec_set_state_def cec_const)

theorem cec_hec_set_state_opcode_witness:
  "get_byte (cec_msg_cdc_hec_set_state 0x1000 0x2000 1 0xffff 0xffff 0xffff (cec_msg_init 4 15)) 4 \<noteq>
    CEC_MSG_CDC_HEC_SET_STATE"
  using cec_hec_set_state_opcode [of "cec_msg_init 4 15" "0xffff" "0xffff" "0xffff" "0x1000" "0x2000" 1]
  by (simp add: cec_const)

end
