(* ===== verification/CecBuild.thy ===== *)
theory CecBuild
  imports CecControl
begin

text \<open>
  What every message builder of \<^verbatim>\<open>linux/cec-funcs.h\<close> promises to the transmit call: the builders as an
  inductive relation (one rule per function, indexed by the opcode it sends), and the facts that
  hold of all of them by rule induction.
\<close>

section \<open>The builders\<close>

inductive cec_builder :: "u8 \<Rightarrow> (cec_msg \<Rightarrow> cec_msg) \<Rightarrow> bool" where
  b_active_source: "cec_builder CEC_MSG_ACTIVE_SOURCE (cec_msg_active_source a)"
| b_image_view_on: "cec_builder CEC_MSG_IMAGE_VIEW_ON cec_msg_image_view_on"
| b_text_view_on: "cec_builder CEC_MSG_TEXT_VIEW_ON cec_msg_text_view_on"
| b_inactive_source: "cec_builder CEC_MSG_INACTIVE_SOURCE (cec_msg_inactive_source a)"
| b_request_active_source: "cec_builder CEC_MSG_REQUEST_ACTIVE_SOURCE (cec_msg_request_active_source a)"
| b_routing_information: "cec_builder CEC_MSG_ROUTING_INFORMATION (cec_msg_routing_information a)"
| b_routing_change: "cec_builder CEC_MSG_ROUTING_CHANGE (cec_msg_routing_change a b c)"
| b_set_stream_path: "cec_builder CEC_MSG_SET_STREAM_PATH (cec_msg_set_stream_path a)"
| b_standby: "cec_builder CEC_MSG_STANDBY cec_msg_standby"
| b_record_off: "cec_builder CEC_MSG_RECORD_OFF (cec_msg_record_off a)"
| b_record_on_own: "cec_builder CEC_MSG_RECORD_ON cec_msg_record_on_own"
| b_record_on_digital: "cec_builder CEC_MSG_RECORD_ON (cec_msg_record_on_digital a)"
| b_record_on_analog: "cec_builder CEC_MSG_RECORD_ON (cec_msg_record_on_analog a b c)"
| b_record_on_plug: "cec_builder CEC_MSG_RECORD_ON (cec_msg_record_on_plug a)"
| b_record_on_phys_addr: "cec_builder CEC_MSG_RECORD_ON (cec_msg_record_on_phys_addr a)"
| b_record_on: "rs_type b \<in> {CEC_OP_RECORD_SRC_OWN, CEC_OP_RECORD_SRC_DIGITAL, CEC_OP_RECORD_SRC_ANALOG, CEC_OP_RECORD_SRC_EXT_PLUG, CEC_OP_RECORD_SRC_EXT_PHYS_ADDR} \<Longrightarrow>
    cec_builder CEC_MSG_RECORD_ON (cec_msg_record_on a b)"
| b_record_status: "cec_builder CEC_MSG_RECORD_STATUS (cec_msg_record_status a)"
| b_record_tv_screen: "cec_builder CEC_MSG_RECORD_TV_SCREEN (cec_msg_record_tv_screen a)"
| b_timer_status: "cec_builder CEC_MSG_TIMER_STATUS (cec_msg_timer_status a b c d e f)"
| b_timer_cleared_status: "cec_builder CEC_MSG_TIMER_CLEARED_STATUS (cec_msg_timer_cleared_status a)"
| b_clear_analogue_timer: "cec_builder CEC_MSG_CLEAR_ANALOGUE_TIMER (cec_msg_clear_analogue_timer a b c d e f g h i j k)"
| b_clear_digital_timer: "cec_builder CEC_MSG_CLEAR_DIGITAL_TIMER (cec_msg_clear_digital_timer a b c d e f g h i)"
| b_clear_ext_timer: "cec_builder CEC_MSG_CLEAR_EXT_TIMER (cec_msg_clear_ext_timer a b c d e f g h i j k)"
| b_set_analogue_timer: "cec_builder CEC_MSG_SET_ANALOGUE_TIMER (cec_msg_set_analogue_timer a b c d e f g h i j k)"
| b_set_digital_timer: "cec_builder CEC_MSG_SET_DIGITAL_TIMER (cec_msg_set_digital_timer a b c d e f g h i)"
| b_set_ext_timer: "cec_builder CEC_MSG_SET_EXT_TIMER (cec_msg_set_ext_timer a b c d e f g h i j k)"
| b_set_timer_program_title: "cec_builder CEC_MSG_SET_TIMER_PROGRAM_TITLE (cec_msg_set_timer_program_title a)"
| b_cec_version: "cec_builder CEC_MSG_CEC_VERSION (cec_msg_cec_version a)"
| b_get_cec_version: "cec_builder CEC_MSG_GET_CEC_VERSION (cec_msg_get_cec_version a)"
| b_report_physical_addr: "cec_builder CEC_MSG_REPORT_PHYSICAL_ADDR (cec_msg_report_physical_addr a b)"
| b_give_physical_addr: "cec_builder CEC_MSG_GIVE_PHYSICAL_ADDR (cec_msg_give_physical_addr a)"
| b_set_menu_language: "cec_builder CEC_MSG_SET_MENU_LANGUAGE (cec_msg_set_menu_language a)"
| b_get_menu_language: "cec_builder CEC_MSG_GET_MENU_LANGUAGE (cec_msg_get_menu_language a)"
| b_report_features: "cec_builder CEC_MSG_REPORT_FEATURES (cec_msg_report_features a b c d)"
| b_give_features: "cec_builder CEC_MSG_GIVE_FEATURES (cec_msg_give_features a)"
| b_deck_control: "cec_builder CEC_MSG_DECK_CONTROL (cec_msg_deck_control a)"
| b_deck_status: "cec_builder CEC_MSG_DECK_STATUS (cec_msg_deck_status a)"
| b_give_deck_status: "cec_builder CEC_MSG_GIVE_DECK_STATUS (cec_msg_give_deck_status a b)"
| b_play: "cec_builder CEC_MSG_PLAY (cec_msg_play a)"
| b_tuner_device_status_analog: "cec_builder CEC_MSG_TUNER_DEVICE_STATUS (cec_msg_tuner_device_status_analog a b c d e)"
| b_tuner_device_status_digital: "cec_builder CEC_MSG_TUNER_DEVICE_STATUS (cec_msg_tuner_device_status_digital a b c)"
| b_tuner_device_status: "cec_builder CEC_MSG_TUNER_DEVICE_STATUS (cec_msg_tuner_device_status a)"
| b_give_tuner_device_status: "cec_builder CEC_MSG_GIVE_TUNER_DEVICE_STATUS (cec_msg_give_tuner_device_status a b)"
| b_select_analogue_service: "cec_builder CEC_MSG_SELECT_ANALOGUE_SERVICE (cec_msg_select_analogue_service a b c)"
| b_select_digital_service: "cec_builder CEC_MSG_SELECT_DIGITAL_SERVICE (cec_msg_select_digital_service a)"
| b_tuner_step_decrement: "cec_builder CEC_MSG_TUNER_STEP_DECREMENT cec_msg_tuner_step_decrement"
| b_tuner_step_increment: "cec_builder CEC_MSG_TUNER_STEP_INCREMENT cec_msg_tuner_step_increment"
| b_device_vendor_id: "cec_builder CEC_MSG_DEVICE_VENDOR_ID (cec_msg_device_vendor_id a)"
| b_give_device_vendor_id: "cec_builder CEC_MSG_GIVE_DEVICE_VENDOR_ID (cec_msg_give_device_vendor_id a)"
| b_vendor_command: "cec_builder CEC_MSG_VENDOR_COMMAND (cec_msg_vendor_command a b)"
| b_vendor_command_with_id: "cec_builder CEC_MSG_VENDOR_COMMAND_WITH_ID (cec_msg_vendor_command_with_id a b c)"
| b_vendor_remote_button_down: "cec_builder CEC_MSG_VENDOR_REMOTE_BUTTON_DOWN (cec_msg_vendor_remote_button_down a b)"
| b_vendor_remote_button_up: "cec_builder CEC_MSG_VENDOR_REMOTE_BUTTON_UP cec_msg_vendor_remote_button_up"
| b_set_osd_string: "cec_builder CEC_MSG_SET_OSD_STRING (cec_msg_set_osd_string a b)"
| b_set_osd_name: "cec_builder CEC_MSG_SET_OSD_NAME (cec_msg_set_osd_name a)"
| b_give_osd_name: "cec_builder CEC_MSG_GIVE_OSD_NAME (cec_msg_give_osd_name a)"
| b_menu_status: "cec_builder CEC_MSG_MENU_STATUS (cec_msg_menu_status a)"
| b_menu_request: "cec_builder CEC_MSG_MENU_REQUEST (cec_msg_menu_request a b)"
| b_user_control_pressed: "cec_builder CEC_MSG_USER_CONTROL_PRESSED (cec_msg_user_control_pressed a)"
| b_user_control_released: "cec_builder CEC_MSG_USER_CONTROL_RELEASED cec_msg_user_control_released"
| b_report_power_status: "cec_builder CEC_MSG_REPORT_POWER_STATUS (cec_msg_report_power_status a)"
| b_give_device_power_status: "cec_builder CEC_MSG_GIVE_DEVICE_POWER_STATUS (cec_msg_give_device_power_status a)"
| b_feature_abort: "cec_builder CEC_MSG_FEATURE_ABORT (cec_msg_feature_abort a b)"
| b_abort: "cec_builder CEC_MSG_ABORT cec_msg_abort"
| b_report_audio_status: "cec_builder CEC_MSG_REPORT_AUDIO_STATUS (cec_msg_report_audio_status a b)"
| b_give_audio_status: "cec_builder CEC_MSG_GIVE_AUDIO_STATUS (cec_msg_give_audio_status a)"
| b_set_system_audio_mode: "cec_builder CEC_MSG_SET_SYSTEM_AUDIO_MODE (cec_msg_set_system_audio_mode a)"
| b_system_audio_mode_request: "cec_builder CEC_MSG_SYSTEM_AUDIO_MODE_REQUEST (cec_msg_system_audio_mode_request a b)"
| b_system_audio_mode_status: "cec_builder CEC_MSG_SYSTEM_AUDIO_MODE_STATUS (cec_msg_system_audio_mode_status a)"
| b_give_system_audio_mode_status: "cec_builder CEC_MSG_GIVE_SYSTEM_AUDIO_MODE_STATUS (cec_msg_give_system_audio_mode_status a)"
| b_report_short_audio_descriptor: "cec_builder CEC_MSG_REPORT_SHORT_AUDIO_DESCRIPTOR (cec_msg_report_short_audio_descriptor a b)"
| b_request_short_audio_descriptor: "cec_builder CEC_MSG_REQUEST_SHORT_AUDIO_DESCRIPTOR (cec_msg_request_short_audio_descriptor a b c d)"
| b_set_audio_volume_level: "cec_builder CEC_MSG_SET_AUDIO_VOLUME_LEVEL (cec_msg_set_audio_volume_level a)"
| b_set_audio_rate: "cec_builder CEC_MSG_SET_AUDIO_RATE (cec_msg_set_audio_rate a)"
| b_report_arc_initiated: "cec_builder CEC_MSG_REPORT_ARC_INITIATED cec_msg_report_arc_initiated"
| b_initiate_arc: "cec_builder CEC_MSG_INITIATE_ARC (cec_msg_initiate_arc a)"
| b_request_arc_initiation: "cec_builder CEC_MSG_REQUEST_ARC_INITIATION (cec_msg_request_arc_initiation a)"
| b_report_arc_terminated: "cec_builder CEC_MSG_REPORT_ARC_TERMINATED cec_msg_report_arc_terminated"
| b_terminate_arc: "cec_builder CEC_MSG_TERMINATE_ARC (cec_msg_terminate_arc a)"
| b_request_arc_termination: "cec_builder CEC_MSG_REQUEST_ARC_TERMINATION (cec_msg_request_arc_termination a)"
| b_report_current_latency: "cec_builder CEC_MSG_REPORT_CURRENT_LATENCY (cec_msg_report_current_latency a b c d e)"
| b_request_current_latency: "cec_builder CEC_MSG_REQUEST_CURRENT_LATENCY (cec_msg_request_current_latency a b)"
| b_cdc_hec_inquire_state: "cec_builder CEC_MSG_CDC_MESSAGE (cec_msg_cdc_hec_inquire_state a b)"
| b_cdc_hec_report_state: "cec_builder CEC_MSG_CDC_MESSAGE (cec_msg_cdc_hec_report_state a b c d e f g)"
| b_cdc_hec_set_state: "cec_builder CEC_MSG_CDC_MESSAGE (cec_msg_cdc_hec_set_state a b c d e f)"
| b_cdc_hec_set_state_adjacent: "cec_builder CEC_MSG_CDC_MESSAGE (cec_msg_cdc_hec_set_state_adjacent a b)"
| b_cdc_hec_request_deactivation: "cec_builder CEC_MSG_CDC_MESSAGE (cec_msg_cdc_hec_request_deactivation a b c)"
| b_cdc_hec_notify_alive: "cec_builder CEC_MSG_CDC_MESSAGE cec_msg_cdc_hec_notify_alive"
| b_cdc_hec_discover: "cec_builder CEC_MSG_CDC_MESSAGE cec_msg_cdc_hec_discover"
| b_cdc_hpd_set_state: "cec_builder CEC_MSG_CDC_MESSAGE (cec_msg_cdc_hpd_set_state a b)"
| b_cdc_hpd_report_state: "cec_builder CEC_MSG_CDC_MESSAGE (cec_msg_cdc_hpd_report_state a b)"

section \<open>What a builder may change\<close>

text \<open>Time stamps, timeout, sequence, flags and status counters belong to the transmit call.\<close>

definition cec_rest :: "cec_msg \<Rightarrow> cec_msg" where
  "cec_rest m = m\<lparr>m_len := 0, m_msg := [], m_reply := 0\<rparr>"

definition cec_sent :: "u8 \<Rightarrow> cec_msg \<Rightarrow> cec_msg \<Rightarrow> bool" where
  "cec_sent op m m' \<longleftrightarrow> cec_wf m' \<and> 2 \<le> m_len m' \<and> m_len m' \<le> 16 \<and> get_byte m' 1 = op \<and>
     cec_msg_initiator m' = cec_msg_initiator m \<and>
     (cec_msg_destination m' = cec_msg_destination m \<or> cec_msg_is_broadcast m') \<and>
     cec_rest m' = cec_rest m"

lemma cec_rest_stmt [simp]:
  "cec_rest (put_bytes at bs m) = cec_rest m" "cec_rest (put_byte i b m) = cec_rest m"
  "cec_rest (or_byte i b m) = cec_rest m" "cec_rest (set_len n m) = cec_rest m"
  "cec_rest (add_len n m) = cec_rest m" "cec_rest (set_reply r op m) = cec_rest m"
  "cec_rest (append_byte b m) = cec_rest m"
  by (simp_all add: cec_rest_def put_bytes_def put_byte_def or_byte_def set_len_def add_len_def
      set_reply_def append_byte_def)

lemma drop_nibble [simp]: "drop_bit 4 (x OR 0xf :: u8) = drop_bit 4 x"
  unfolding mask_consts by (rule bit_word_eqI) (auto simp: bit_simps)

lemma or_nibble [simp]: "(x OR 0xf :: u8) AND 0xf = 0xf"
  unfolding mask_consts by (rule bit_word_eqI) (auto simp: bit_simps)

lemma get_byte_put_bytes_before [simp]:
  "cec_wf m \<Longrightarrow> at + length bs \<le> 16 \<Longrightarrow> i < at \<Longrightarrow> get_byte (put_bytes at bs m) i = get_byte m i"
  by (simp add: get_byte_put_bytes)

lemmas builder_simps = cec_sent_def cec_msg_initiator_def cec_msg_destination_def
  cec_msg_is_broadcast_def Let_def

text \<open>The builders whose length depends on an operand: texts, vendor operands and audio descriptors.\<close>

lemma len_of_nat:
  assumes "2 \<le> k" "k + n \<le> 16"
  shows "2 \<le> (of_nat k + of_nat n :: u32) \<and> (of_nat k + of_nat n :: u32) \<le> 16"
proof -
  have "unat (of_nat k + of_nat n :: u32) = (k + n) mod 2 ^ 32"
    using unat_of_nat [of "k + n", where 'a = 32] by simp
  also have "\<dots> = k + n" using assms by simp
  finally show ?thesis using assms by (simp add: word_le_nat_alt)
qed

lemma len_of_ucast: "b \<le> (of_nat n :: u8) \<Longrightarrow> 2 \<le> k \<Longrightarrow> k + n \<le> 16 \<Longrightarrow>
    2 \<le> (of_nat k + ucast b :: u32) \<and> (of_nat k + ucast b :: u32) \<le> 16"
proof -
  assume b: "b \<le> of_nat n" and k: "2 \<le> k" "k + n \<le> 16"
  have "unat b \<le> n" using b k by (simp add: word_le_nat_alt unat_of_nat)
  then show ?thesis using len_of_nat [of k "unat b"] k by (simp add: of_nat_unat)
qed

lemma sent_text:
  assumes "cec_wf m"
  shows "cec_sent CEC_MSG_SET_TIMER_PROGRAM_TITLE m (cec_msg_set_timer_program_title s m)"
    and "cec_sent CEC_MSG_SET_OSD_NAME m (cec_msg_set_osd_name s m)"
    and "cec_sent CEC_MSG_SET_OSD_STRING m (cec_msg_set_osd_string c s m)"
  using assms len_of_nat [of 2 "min (length s) 14"] len_of_nat [of 3 "min (length s) 13"]
  by (simp_all add: cec_enc builder_simps)

lemma sent_vendor:
  assumes "cec_wf m"
  shows "cec_sent CEC_MSG_VENDOR_COMMAND m (cec_msg_vendor_command n bs m)"
    and "cec_sent CEC_MSG_VENDOR_COMMAND_WITH_ID m (cec_msg_vendor_command_with_id v n bs m)"
    and "cec_sent CEC_MSG_VENDOR_REMOTE_BUTTON_DOWN m (cec_msg_vendor_remote_button_down n bs m)"
proof -
  have b: "length (take (unat (min n k)) bs) \<le> unat k" for k
    using unat_min [of n k] by simp
  show "cec_sent CEC_MSG_VENDOR_COMMAND m (cec_msg_vendor_command n bs m)"
    "cec_sent CEC_MSG_VENDOR_REMOTE_BUTTON_DOWN m (cec_msg_vendor_remote_button_down n bs m)"
    "cec_sent CEC_MSG_VENDOR_COMMAND_WITH_ID m (cec_msg_vendor_command_with_id v n bs m)"
    using assms len_of_ucast [of "min n 14" 14 2] b [of 14] len_of_ucast [of "min n 11" 11 5] b [of 11]
    by (simp_all add: cec_enc builder_simps clip)
qed

lemma sent_short_audio:
  assumes "cec_wf m"
  shows "cec_sent CEC_MSG_REPORT_SHORT_AUDIO_DESCRIPTOR m (cec_msg_report_short_audio_descriptor n ds m)"
    and "cec_sent CEC_MSG_REQUEST_SHORT_AUDIO_DESCRIPTOR m
      (cec_msg_request_short_audio_descriptor r n ids codes m)"
proof -
  have "min n 4 \<le> 4" by simp
  then show "cec_sent CEC_MSG_REPORT_SHORT_AUDIO_DESCRIPTOR m (cec_msg_report_short_audio_descriptor n ds m)"
    using assms by (elim disjE [OF upto_4] disjE)
      (simp_all add: cec_msg_report_short_audio_descriptor_def builder_simps clip upt_small)
  from \<open>min n 4 \<le> 4\<close> show "cec_sent CEC_MSG_REQUEST_SHORT_AUDIO_DESCRIPTOR m
      (cec_msg_request_short_audio_descriptor r n ids codes m)"
    using assms by (elim disjE [OF upto_4] disjE)
      (simp_all add: cec_msg_request_short_audio_descriptor_def builder_simps clip upt_small)
qed

text \<open>Whatever builder of the header made it, a message stays inside its 16 bytes, is between 2 and 16
  bytes long, carries the opcode of its function and the initiator it was set up with, goes to the
  destination it was set up with or to everyone, and nothing the transmit call owns is touched.\<close>

theorem cec_builder_sent:
  assumes "cec_builder op f" "cec_wf m"
  shows "cec_sent op m (f m)"
  using assms
proof (induction rule: cec_builder.induct)
  case (b_record_on b a)
  then show ?case by (auto simp: cec_enc builder_simps)
qed (simp add: sent_text sent_vendor sent_short_audio; fail | simp add: cec_enc builder_simps)+

theorem cec_builder_sent_witness:
  "cec_sent CEC_MSG_STANDBY (cec_msg_init 4 0) (cec_msg_standby (cec_msg_init 4 0))"
  using cec_builder_sent [OF b_standby, of "cec_msg_init 4 0"] by simp

lemma reset_reply [simp]:
  "cec_wf (m\<lparr>m_reply := x, m_timeout := y\<rparr>) = cec_wf m"
  "get_byte (m\<lparr>m_reply := x, m_timeout := y\<rparr>) i = get_byte m i"
  by (simp_all add: cec_wf_def get_byte_def)

lemma m_timeout_stmt [simp]: "m_timeout (put_byte i b m) = m_timeout m" "m_timeout (set_len n m) = m_timeout m"
  by (simp_all add: put_byte_def put_bytes_def set_len_def)

lemma swap_nibbles:
  fixes a b :: u8
  assumes "a < 16" "b < 16"
  shows "drop_bit 4 (push_bit 4 a OR b) = a" "(push_bit 4 a OR b) AND 0xf = b"
  using unpack_high [of b 4 a] unpack_low [of b 4 a] and_mask_small [of a 4] assms
  by (simp_all add: mask_consts)

lemma nibble_bound: "(x :: u8) AND 0xf < 16" "drop_bit 4 (x :: u8) < 16"
proof -
  show "x AND 0xf < 16"
    using take_bit_less [of 4 "x AND mask 4"] by (simp add: mask_consts flip: take_bit_eq_mask)
  have "bit x (4 + n) \<Longrightarrow> n < 4" for n by (drule bit_imp_le_length) simp
  then have "take_bit 4 (drop_bit 4 x) = drop_bit 4 x"
    by (intro bit_word_eqI) (auto simp: bit_simps)
  from take_bit_less [OF this] show "drop_bit 4 x < 16" by simp
qed

text \<open>The refusal of a message goes back to its initiator and names the opcode it refuses.\<close>

theorem cec_reply_feature_abort:
  fixes m :: cec_msg and reason :: u8
  assumes "cec_wf m"
  defines "r \<equiv> cec_msg_reply_feature_abort reason m"
  shows "cec_wf r \<and> m_len r = 4 \<and> cec_msg_initiator r = cec_msg_destination m \<and>
    cec_msg_destination r = cec_msg_initiator m \<and> get_byte r 1 = CEC_MSG_FEATURE_ABORT \<and>
    cec_ops_feature_abort r = (get_byte m 1, reason) \<and> m_reply r = 0 \<and> m_timeout r = 0"
proof -
  define a b where "a = cec_msg_destination m" and "b = cec_msg_initiator m"
  have "a < 16" "b < 16"
    by (simp_all add: a_def b_def cec_msg_destination_def cec_msg_initiator_def nibble_bound)
  with assms(1) show ?thesis
    by (simp add: r_def cec_msg_reply_feature_abort_def cec_msg_set_reply_to_def cec_ops_feature_abort_def
        cec_msg_initiator_def [of "put_byte _ _ _"] cec_msg_destination_def [of "put_byte _ _ _"]
        swap_nibbles flip: a_def b_def del: drop_bit_or)
qed

lemma init_head [simp]: "get_byte (cec_msg_init i d) 0 = push_bit 4 i OR d"
  by (simp add: get_byte_def cec_msg_init_def)

theorem cec_reply_feature_abort_witness:
  "cec_msg_destination (cec_msg_reply_feature_abort 0 (cec_msg_init 4 0)) = 4"
  using cec_reply_feature_abort [of "cec_msg_init 4 0" 0] by (simp add: cec_msg_initiator_def)

end
