(* ===== verification/AbiTables.thy ===== *)
theory AbiTables
  imports Prelude
begin

text \<open>
  The numbers by which guest programs and the kernel understand each other: the system call table
  of \<^verbatim>\<open>asm-generic/unistd.h\<close> with its conditionals and call macros, the C library's copies in
  \<^verbatim>\<open>bits/syscall.h\<close>, and the error numbers of \<^verbatim>\<open>bits/errno.h\<close> and \<^verbatim>\<open>asm-generic/errno*.h\<close>.

  A header is the list of its directives, as a function of the configuration its conditionals test;
  a macro is looked up when it is used, as the preprocessor does.
\<close>

section \<open>Directives\<close>

datatype macro_body = Num nat | Ref string | RefPlus string nat

datatype item =
    Def string macro_body
  | Undef string
  | Entry string string

abbreviation Nr :: "string \<Rightarrow> nat \<Rightarrow> item" where "Nr n v \<equiv> Def n (Num v)"
abbreviation Alias :: "string \<Rightarrow> string \<Rightarrow> item" where "Alias n m \<equiv> Def n (Ref m)"
abbreviation Plus :: "string \<Rightarrow> string \<Rightarrow> nat \<Rightarrow> item" where "Plus n m k \<equiv> Def n (RefPlus m k)"

record cpp_config =
  bits_per_long :: nat
  syscall_compat :: bool
  want_time32 :: bool
  want_renameat :: bool
  want_new_stat :: bool
  want_stat64 :: bool
  want_sync_file_range2 :: bool
  want_set_get_rlimit :: bool
  arch_nommu :: bool
  want_sys_clone3 :: bool
  want_memfd_secret :: bool
  nr3264_stat :: bool

text \<open>The call macros: one system call has up to three kernel functions, chosen by word size and
  compatibility mode.\<close>

definition SYSCALL :: "string \<Rightarrow> string \<Rightarrow> item" where
  [abi_def]: "SYSCALL nr f = Entry nr f"

definition SC_3264 :: "cpp_config \<Rightarrow> string \<Rightarrow> string \<Rightarrow> string \<Rightarrow> item" where
  [abi_def]: "SC_3264 c nr f32 f64 = (if bits_per_long c = 32 \<or> syscall_compat c then SYSCALL nr f32 else SYSCALL nr f64)"

definition SC_COMP :: "cpp_config \<Rightarrow> string \<Rightarrow> string \<Rightarrow> string \<Rightarrow> item" where
  [abi_def]: "SC_COMP c nr f cf = (if syscall_compat c then SYSCALL nr cf else SYSCALL nr f)"

definition SC_COMP_3264 :: "cpp_config \<Rightarrow> string \<Rightarrow> string \<Rightarrow> string \<Rightarrow> string \<Rightarrow> item" where
  [abi_def]: "SC_COMP_3264 c nr f32 f64 cf = (if syscall_compat c then SYSCALL nr cf else SC_3264 c nr f32 f64)"

text \<open>The configuration of \<^verbatim>\<open>asm/unistd.h\<close> for a 64-bit RISC-V guest.\<close>

definition rv64_config :: cpp_config where
  "rv64_config = \<lparr>bits_per_long = 64, syscall_compat = False, want_time32 = False, want_renameat = False,
     want_new_stat = True, want_stat64 = False, want_sync_file_range2 = False, want_set_get_rlimit = True,
     arch_nommu = False, want_sys_clone3 = True, want_memfd_secret = True, nr3264_stat = False\<rparr>"

section \<open>The system calls of the kernel headers\<close>

definition unistd_1 :: "cpp_config \<Rightarrow> item list" where
  "unistd_1 c =
    [Nr ''__NR_io_setup'' 0,
     SC_COMP c ''__NR_io_setup'' ''sys_io_setup'' ''compat_sys_io_setup'',
     Nr ''__NR_io_destroy'' 1,
     SYSCALL ''__NR_io_destroy'' ''sys_io_destroy'',
     Nr ''__NR_io_submit'' 2,
     SC_COMP c ''__NR_io_submit'' ''sys_io_submit'' ''compat_sys_io_submit'',
     Nr ''__NR_io_cancel'' 3,
     SYSCALL ''__NR_io_cancel'' ''sys_io_cancel''] @
    (if want_time32 c \<or> bits_per_long c \<noteq> 32 then [Nr ''__NR_io_getevents'' 4,
     SC_3264 c ''__NR_io_getevents'' ''sys_io_getevents_time32'' ''sys_io_getevents''] else []) @
    [Nr ''__NR_setxattr'' 5,
     SYSCALL ''__NR_setxattr'' ''sys_setxattr'',
     Nr ''__NR_lsetxattr'' 6,
     SYSCALL ''__NR_lsetxattr'' ''sys_lsetxattr'',
     Nr ''__NR_fsetxattr'' 7,
     SYSCALL ''__NR_fsetxattr'' ''sys_fsetxattr'',
     Nr ''__NR_getxattr'' 8,
     SYSCALL ''__NR_getxattr'' ''sys_getxattr'',
     Nr ''__NR_lgetxattr'' 9,
     SYSCALL ''__NR_lgetxattr'' ''sys_lgetxattr'',
     Nr ''__NR_fgetxattr'' 10,
     SYSCALL ''__NR_fgetxattr'' ''sys_fgetxattr'',
     Nr ''__NR_listxattr'' 11,
     SYSCALL ''__NR_listxattr'' ''sys_listxattr'',
     Nr ''__NR_llistxattr'' 12,
     SYSCALL ''__NR_llistxattr'' ''sys_llistxattr'',
     Nr ''__NR_flistxattr'' 13,
     SYSCALL ''__NR_flistxattr'' ''sys_flistxattr'',
     Nr ''__NR_removexattr'' 14,
     SYSCALL ''__NR_removexattr'' ''sys_removexattr'',
     Nr ''__NR_lremovexattr'' 15,
     SYSCALL ''__NR_lremovexattr'' ''sys_lremovexattr'',
     Nr ''__NR_fremovexattr'' 16,
     SYSCALL ''__NR_fremovexattr'' ''sys_fremovexattr'',
     Nr ''__NR_getcwd'' 17,
     SYSCALL ''__NR_getcwd'' ''sys_getcwd'',
     Nr ''__NR_lookup_dcookie'' 18,
     SYSCALL ''__NR_lookup_dcookie'' ''sys_ni_syscall'',
     Nr ''__NR_eventfd2'' 19,
     SYSCALL ''__NR_eventfd2'' ''sys_eventfd2'',
     Nr ''__NR_epoll_create1'' 20,
     SYSCALL ''__NR_epoll_create1'' ''sys_epoll_create1'',
     Nr ''__NR_epoll_ctl'' 21,
     SYSCALL ''__NR_epoll_ctl'' ''sys_epoll_ctl'',
     Nr ''__NR_epoll_pwait'' 22,
     SC_COMP c ''__NR_epoll_pwait'' ''sys_epoll_pwait'' ''compat_sys_epoll_pwait'',
     Nr ''__NR_dup'' 23,
     SYSCALL ''__NR_dup'' ''sys_dup'',
     Nr ''__NR_dup3'' 24,
     SYSCALL ''__NR_dup3'' ''sys_dup3'',
     Nr ''__NR3264_fcntl'' 25,
     SC_COMP_3264 c ''__NR3264_fcntl'' ''sys_fcntl64'' ''sys_fcntl'' ''compat_sys_fcntl64'',
     Nr ''__NR_inotify_init1'' 26,
     SYSCALL ''__NR_inotify_init1'' ''sys_inotify_init1'',
     Nr ''__NR_inotify_add_watch'' 27,
     SYSCALL ''__NR_inotify_add_watch'' ''sys_inotify_add_watch'',
     Nr ''__NR_inotify_rm_watch'' 28,
     SYSCALL ''__NR_inotify_rm_watch'' ''sys_inotify_rm_watch'',
     Nr ''__NR_ioctl'' 29,
     SC_COMP c ''__NR_ioctl'' ''sys_ioctl'' ''compat_sys_ioctl'',
     Nr ''__NR_ioprio_set'' 30,
     SYSCALL ''__NR_ioprio_set'' ''sys_ioprio_set'',
     Nr ''__NR_ioprio_get'' 31,
     SYSCALL ''__NR_ioprio_get'' ''sys_ioprio_get'',
     Nr ''__NR_flock'' 32,
     SYSCALL ''__NR_flock'' ''sys_flock'',
     Nr ''__NR_mknodat'' 33,
     SYSCALL ''__NR_mknodat'' ''sys_mknodat'',
     Nr ''__NR_mkdirat'' 34,
     SYSCALL ''__NR_mkdirat'' ''sys_mkdirat'',
     Nr ''__NR_unlinkat'' 35,
     SYSCALL ''__NR_unlinkat'' ''sys_unlinkat'',
     Nr ''__NR_symlinkat'' 36,
     SYSCALL ''__NR_symlinkat'' ''sys_symlinkat'',
     Nr ''__NR_linkat'' 37,
     SYSCALL ''__NR_linkat'' ''sys_linkat''] @
    (if want_renameat c then [Nr ''__NR_renameat'' 38,
     SYSCALL ''__NR_renameat'' ''sys_renameat''] else []) @
    [Nr ''__NR_umount2'' 39,
     SYSCALL ''__NR_umount2'' ''sys_umount'']"

definition unistd_2 :: "cpp_config \<Rightarrow> item list" where
  "unistd_2 c =
    [Nr ''__NR_mount'' 40,
     SYSCALL ''__NR_mount'' ''sys_mount'',
     Nr ''__NR_pivot_root'' 41,
     SYSCALL ''__NR_pivot_root'' ''sys_pivot_root'',
     Nr ''__NR_nfsservctl'' 42,
     SYSCALL ''__NR_nfsservctl'' ''sys_ni_syscall'',
     Nr ''__NR3264_statfs'' 43,
     SC_COMP_3264 c ''__NR3264_statfs'' ''sys_statfs64'' ''sys_statfs'' ''compat_sys_statfs64'',
     Nr ''__NR3264_fstatfs'' 44,
     SC_COMP_3264 c ''__NR3264_fstatfs'' ''sys_fstatfs64'' ''sys_fstatfs'' ''compat_sys_fstatfs64'',
     Nr ''__NR3264_truncate'' 45,
     SC_COMP_3264 c ''__NR3264_truncate'' ''sys_truncate64'' ''sys_truncate'' ''compat_sys_truncate64'',
     Nr ''__NR3264_ftruncate'' 46,
     SC_COMP_3264 c ''__NR3264_ftruncate'' ''sys_ftruncate64'' ''sys_ftruncate'' ''compat_sys_ftruncate64'',
     Nr ''__NR_fallocate'' 47,
     SC_COMP c ''__NR_fallocate'' ''sys_fallocate'' ''compat_sys_fallocate'',
     Nr ''__NR_faccessat'' 48,
     SYSCALL ''__NR_faccessat'' ''sys_faccessat'',
     Nr ''__NR_chdir'' 49,
     SYSCALL ''__NR_chdir'' ''sys_chdir'',
     Nr ''__NR_fchdir'' 50,
     SYSCALL ''__NR_fchdir'' ''sys_fchdir'',
     Nr ''__NR_chroot'' 51,
     SYSCALL ''__NR_chroot'' ''sys_chroot'',
     Nr ''__NR_fchmod'' 52,
     SYSCALL ''__NR_fchmod'' ''sys_fchmod'',
     Nr ''__NR_fchmodat'' 53,
     SYSCALL ''__NR_fchmodat'' ''sys_fchmodat'',
     Nr ''__NR_fchownat'' 54,
     SYSCALL ''__NR_fchownat'' ''sys_fchownat'',
     Nr ''__NR_fchown'' 55,
     SYSCALL ''__NR_fchown'' ''sys_fchown'',
     Nr ''__NR_openat'' 56,
     SYSCALL ''__NR_openat'' ''sys_openat'',
     Nr ''__NR_close'' 57,
     SYSCALL ''__NR_close'' ''sys_close'',
     Nr ''__NR_vhangup'' 58,
     SYSCALL ''__NR_vhangup'' ''sys_vhangup'',
     Nr ''__NR_pipe2'' 59,
     SYSCALL ''__NR_pipe2'' ''sys_pipe2'',
     Nr ''__NR_quotactl'' 60,
     SYSCALL ''__NR_quotactl'' ''sys_quotactl'',
     Nr ''__NR_getdents64'' 61,
     SYSCALL ''__NR_getdents64'' ''sys_getdents64'',
     Nr ''__NR3264_lseek'' 62,
     SC_3264 c ''__NR3264_lseek'' ''sys_llseek'' ''sys_lseek'',
     Nr ''__NR_read'' 63,
     SYSCALL ''__NR_read'' ''sys_read'',
     Nr ''__NR_write'' 64,
     SYSCALL ''__NR_write'' ''sys_write'',
     Nr ''__NR_readv'' 65,
     SC_COMP c ''__NR_readv'' ''sys_readv'' ''sys_readv'',
     Nr ''__NR_writev'' 66,
     SC_COMP c ''__NR_writev'' ''sys_writev'' ''sys_writev'',
     Nr ''__NR_pread64'' 67,
     SC_COMP c ''__NR_pread64'' ''sys_pread64'' ''compat_sys_pread64'',
     Nr ''__NR_pwrite64'' 68,
     SC_COMP c ''__NR_pwrite64'' ''sys_pwrite64'' ''compat_sys_pwrite64'',
     Nr ''__NR_preadv'' 69,
     SC_COMP c ''__NR_preadv'' ''sys_preadv'' ''compat_sys_preadv'',
     Nr ''__NR_pwritev'' 70,
     SC_COMP c ''__NR_pwritev'' ''sys_pwritev'' ''compat_sys_pwritev'',
     Nr ''__NR3264_sendfile'' 71,
     SYSCALL ''__NR3264_sendfile'' ''sys_sendfile64''] @
    (if want_time32 c \<or> bits_per_long c \<noteq> 32 then [Nr ''__NR_pselect6'' 72,
     SC_COMP_3264 c ''__NR_pselect6'' ''sys_pselect6_time32'' ''sys_pselect6'' ''compat_sys_pselect6_time32'',
     Nr ''__NR_ppoll'' 73,
     SC_COMP_3264 c ''__NR_ppoll'' ''sys_ppoll_time32'' ''sys_ppoll'' ''compat_sys_ppoll_time32''] else []) @
    [Nr ''__NR_signalfd4'' 74,
     SC_COMP c ''__NR_signalfd4'' ''sys_signalfd4'' ''compat_sys_signalfd4'',
     Nr ''__NR_vmsplice'' 75,
     SYSCALL ''__NR_vmsplice'' ''sys_vmsplice'',
     Nr ''__NR_splice'' 76,
     SYSCALL ''__NR_splice'' ''sys_splice'',
     Nr ''__NR_tee'' 77,
     SYSCALL ''__NR_tee'' ''sys_tee'',
     Nr ''__NR_readlinkat'' 78,
     SYSCALL ''__NR_readlinkat'' ''sys_readlinkat'']"

definition unistd_3 :: "cpp_config \<Rightarrow> item list" where
  "unistd_3 c =
    (if want_new_stat c \<or> want_stat64 c then [Nr ''__NR3264_fstatat'' 79,
     SC_3264 c ''__NR3264_fstatat'' ''sys_fstatat64'' ''sys_newfstatat'',
     Nr ''__NR3264_fstat'' 80,
     SC_3264 c ''__NR3264_fstat'' ''sys_fstat64'' ''sys_newfstat''] else []) @
    [Nr ''__NR_sync'' 81,
     SYSCALL ''__NR_sync'' ''sys_sync'',
     Nr ''__NR_fsync'' 82,
     SYSCALL ''__NR_fsync'' ''sys_fsync'',
     Nr ''__NR_fdatasync'' 83,
     SYSCALL ''__NR_fdatasync'' ''sys_fdatasync''] @
    (if want_sync_file_range2 c then [Nr ''__NR_sync_file_range2'' 84,
     SC_COMP c ''__NR_sync_file_range2'' ''sys_sync_file_range2'' ''compat_sys_sync_file_range2''] else [Nr ''__NR_sync_file_range'' 84,
     SC_COMP c ''__NR_sync_file_range'' ''sys_sync_file_range'' ''compat_sys_sync_file_range'']) @
    [Nr ''__NR_timerfd_create'' 85,
     SYSCALL ''__NR_timerfd_create'' ''sys_timerfd_create''] @
    (if want_time32 c \<or> bits_per_long c \<noteq> 32 then [Nr ''__NR_timerfd_settime'' 86,
     SC_3264 c ''__NR_timerfd_settime'' ''sys_timerfd_settime32'' ''sys_timerfd_settime'',
     Nr ''__NR_timerfd_gettime'' 87,
     SC_3264 c ''__NR_timerfd_gettime'' ''sys_timerfd_gettime32'' ''sys_timerfd_gettime''] else []) @
    (if want_time32 c \<or> bits_per_long c \<noteq> 32 then [Nr ''__NR_utimensat'' 88,
     SC_3264 c ''__NR_utimensat'' ''sys_utimensat_time32'' ''sys_utimensat''] else []) @
    [Nr ''__NR_acct'' 89,
     SYSCALL ''__NR_acct'' ''sys_acct'',
     Nr ''__NR_capget'' 90,
     SYSCALL ''__NR_capget'' ''sys_capget'',
     Nr ''__NR_capset'' 91,
     SYSCALL ''__NR_capset'' ''sys_capset'',
     Nr ''__NR_personality'' 92,
     SYSCALL ''__NR_personality'' ''sys_personality'',
     Nr ''__NR_exit'' 93,
     SYSCALL ''__NR_exit'' ''sys_exit'',
     Nr ''__NR_exit_group'' 94,
     SYSCALL ''__NR_exit_group'' ''sys_exit_group'',
     Nr ''__NR_waitid'' 95,
     SC_COMP c ''__NR_waitid'' ''sys_waitid'' ''compat_sys_waitid'',
     Nr ''__NR_set_tid_address'' 96,
     SYSCALL ''__NR_set_tid_address'' ''sys_set_tid_address'',
     Nr ''__NR_unshare'' 97,
     SYSCALL ''__NR_unshare'' ''sys_unshare''] @
    (if want_time32 c \<or> bits_per_long c \<noteq> 32 then [Nr ''__NR_futex'' 98,
     SC_3264 c ''__NR_futex'' ''sys_futex_time32'' ''sys_futex''] else []) @
    [Nr ''__NR_set_robust_list'' 99,
     SC_COMP c ''__NR_set_robust_list'' ''sys_set_robust_list'' ''compat_sys_set_robust_list'',
     Nr ''__NR_get_robust_list'' 100,
     SC_COMP c ''__NR_get_robust_list'' ''sys_get_robust_list'' ''compat_sys_get_robust_list''] @
    (if want_time32 c \<or> bits_per_long c \<noteq> 32 then [Nr ''__NR_nanosleep'' 101,
     SC_3264 c ''__NR_nanosleep'' ''sys_nanosleep_time32'' ''sys_nanosleep''] else []) @
    [Nr ''__NR_getitimer'' 102,
     SC_COMP c ''__NR_getitimer'' ''sys_getitimer'' ''compat_sys_getitimer'',
     Nr ''__NR_setitimer'' 103,
     SC_COMP c ''__NR_setitimer'' ''sys_setitimer'' ''compat_sys_setitimer'',
     Nr ''__NR_kexec_load'' 104,
     SC_COMP c ''__NR_kexec_load'' ''sys_kexec_load'' ''compat_sys_kexec_load'',
     Nr ''__NR_init_module'' 105,
     SYSCALL ''__NR_init_module'' ''sys_init_module'',
     Nr ''__NR_delete_module'' 106,
     SYSCALL ''__NR_delete_module'' ''sys_delete_module'',
     Nr ''__NR_timer_create'' 107,
     SC_COMP c ''__NR_timer_create'' ''sys_timer_create'' ''compat_sys_timer_create'']"

definition unistd_4 :: "cpp_config \<Rightarrow> item list" where
  "unistd_4 c =
    (if want_time32 c \<or> bits_per_long c \<noteq> 32 then [Nr ''__NR_timer_gettime'' 108,
     SC_3264 c ''__NR_timer_gettime'' ''sys_timer_gettime32'' ''sys_timer_gettime''] else []) @
    [Nr ''__NR_timer_getoverrun'' 109,
     SYSCALL ''__NR_timer_getoverrun'' ''sys_timer_getoverrun''] @
    (if want_time32 c \<or> bits_per_long c \<noteq> 32 then [Nr ''__NR_timer_settime'' 110,
     SC_3264 c ''__NR_timer_settime'' ''sys_timer_settime32'' ''sys_timer_settime''] else []) @
    [Nr ''__NR_timer_delete'' 111,
     SYSCALL ''__NR_timer_delete'' ''sys_timer_delete''] @
    (if want_time32 c \<or> bits_per_long c \<noteq> 32 then [Nr ''__NR_clock_settime'' 112,
     SC_3264 c ''__NR_clock_settime'' ''sys_clock_settime32'' ''sys_clock_settime'',
     Nr ''__NR_clock_gettime'' 113,
     SC_3264 c ''__NR_clock_gettime'' ''sys_clock_gettime32'' ''sys_clock_gettime'',
     Nr ''__NR_clock_getres'' 114,
     SC_3264 c ''__NR_clock_getres'' ''sys_clock_getres_time32'' ''sys_clock_getres'',
     Nr ''__NR_clock_nanosleep'' 115,
     SC_3264 c ''__NR_clock_nanosleep'' ''sys_clock_nanosleep_time32'' ''sys_clock_nanosleep''] else []) @
    [Nr ''__NR_syslog'' 116,
     SYSCALL ''__NR_syslog'' ''sys_syslog'',
     Nr ''__NR_ptrace'' 117,
     SC_COMP c ''__NR_ptrace'' ''sys_ptrace'' ''compat_sys_ptrace'',
     Nr ''__NR_sched_setparam'' 118,
     SYSCALL ''__NR_sched_setparam'' ''sys_sched_setparam'',
     Nr ''__NR_sched_setscheduler'' 119,
     SYSCALL ''__NR_sched_setscheduler'' ''sys_sched_setscheduler'',
     Nr ''__NR_sched_getscheduler'' 120,
     SYSCALL ''__NR_sched_getscheduler'' ''sys_sched_getscheduler'',
     Nr ''__NR_sched_getparam'' 121,
     SYSCALL ''__NR_sched_getparam'' ''sys_sched_getparam'',
     Nr ''__NR_sched_setaffinity'' 122,
     SC_COMP c ''__NR_sched_setaffinity'' ''sys_sched_setaffinity'' ''compat_sys_sched_setaffinity'',
     Nr ''__NR_sched_getaffinity'' 123,
     SC_COMP c ''__NR_sched_getaffinity'' ''sys_sched_getaffinity'' ''compat_sys_sched_getaffinity'',
     Nr ''__NR_sched_yield'' 124,
     SYSCALL ''__NR_sched_yield'' ''sys_sched_yield'',
     Nr ''__NR_sched_get_priority_max'' 125,
     SYSCALL ''__NR_sched_get_priority_max'' ''sys_sched_get_priority_max'',
     Nr ''__NR_sched_get_priority_min'' 126,
     SYSCALL ''__NR_sched_get_priority_min'' ''sys_sched_get_priority_min''] @
    (if want_time32 c \<or> bits_per_long c \<noteq> 32 then [Nr ''__NR_sched_rr_get_interval'' 127,
     SC_3264 c ''__NR_sched_rr_get_interval'' ''sys_sched_rr_get_interval_time32'' ''sys_sched_rr_get_interval''] else []) @
    [Nr ''__NR_restart_syscall'' 128,
     SYSCALL ''__NR_restart_syscall'' ''sys_restart_syscall'',
     Nr ''__NR_kill'' 129,
     SYSCALL ''__NR_kill'' ''sys_kill'',
     Nr ''__NR_tkill'' 130,
     SYSCALL ''__NR_tkill'' ''sys_tkill'',
     Nr ''__NR_tgkill'' 131,
     SYSCALL ''__NR_tgkill'' ''sys_tgkill'',
     Nr ''__NR_sigaltstack'' 132,
     SC_COMP c ''__NR_sigaltstack'' ''sys_sigaltstack'' ''compat_sys_sigaltstack'',
     Nr ''__NR_rt_sigsuspend'' 133,
     SC_COMP c ''__NR_rt_sigsuspend'' ''sys_rt_sigsuspend'' ''compat_sys_rt_sigsuspend'',
     Nr ''__NR_rt_sigaction'' 134,
     SC_COMP c ''__NR_rt_sigaction'' ''sys_rt_sigaction'' ''compat_sys_rt_sigaction'',
     Nr ''__NR_rt_sigprocmask'' 135,
     SC_COMP c ''__NR_rt_sigprocmask'' ''sys_rt_sigprocmask'' ''compat_sys_rt_sigprocmask'',
     Nr ''__NR_rt_sigpending'' 136,
     SC_COMP c ''__NR_rt_sigpending'' ''sys_rt_sigpending'' ''compat_sys_rt_sigpending''] @
    (if want_time32 c \<or> bits_per_long c \<noteq> 32 then [Nr ''__NR_rt_sigtimedwait'' 137,
     SC_COMP_3264 c ''__NR_rt_sigtimedwait'' ''sys_rt_sigtimedwait_time32'' ''sys_rt_sigtimedwait'' ''compat_sys_rt_sigtimedwait_time32''] else []) @
    [Nr ''__NR_rt_sigqueueinfo'' 138,
     SC_COMP c ''__NR_rt_sigqueueinfo'' ''sys_rt_sigqueueinfo'' ''compat_sys_rt_sigqueueinfo'']"

definition unistd_5 :: "cpp_config \<Rightarrow> item list" where
  "unistd_5 c =
    [Nr ''__NR_rt_sigreturn'' 139,
     SC_COMP c ''__NR_rt_sigreturn'' ''sys_rt_sigreturn'' ''compat_sys_rt_sigreturn'',
     Nr ''__NR_setpriority'' 140,
     SYSCALL ''__NR_setpriority'' ''sys_setpriority'',
     Nr ''__NR_getpriority'' 141,
     SYSCALL ''__NR_getpriority'' ''sys_getpriority'',
     Nr ''__NR_reboot'' 142,
     SYSCALL ''__NR_reboot'' ''sys_reboot'',
     Nr ''__NR_setregid'' 143,
     SYSCALL ''__NR_setregid'' ''sys_setregid'',
     Nr ''__NR_setgid'' 144,
     SYSCALL ''__NR_setgid'' ''sys_setgid'',
     Nr ''__NR_setreuid'' 145,
     SYSCALL ''__NR_setreuid'' ''sys_setreuid'',
     Nr ''__NR_setuid'' 146,
     SYSCALL ''__NR_setuid'' ''sys_setuid'',
     Nr ''__NR_setresuid'' 147,
     SYSCALL ''__NR_setresuid'' ''sys_setresuid'',
     Nr ''__NR_getresuid'' 148,
     SYSCALL ''__NR_getresuid'' ''sys_getresuid'',
     Nr ''__NR_setresgid'' 149,
     SYSCALL ''__NR_setresgid'' ''sys_setresgid'',
     Nr ''__NR_getresgid'' 150,
     SYSCALL ''__NR_getresgid'' ''sys_getresgid'',
     Nr ''__NR_setfsuid'' 151,
     SYSCALL ''__NR_setfsuid'' ''sys_setfsuid'',
     Nr ''__NR_setfsgid'' 152,
     SYSCALL ''__NR_setfsgid'' ''sys_setfsgid'',
     Nr ''__NR_times'' 153,
     SC_COMP c ''__NR_times'' ''sys_times'' ''compat_sys_times'',
     Nr ''__NR_setpgid'' 154,
     SYSCALL ''__NR_setpgid'' ''sys_setpgid'',
     Nr ''__NR_getpgid'' 155,
     SYSCALL ''__NR_getpgid'' ''sys_getpgid'',
     Nr ''__NR_getsid'' 156,
     SYSCALL ''__NR_getsid'' ''sys_getsid'',
     Nr ''__NR_setsid'' 157,
     SYSCALL ''__NR_setsid'' ''sys_setsid'',
     Nr ''__NR_getgroups'' 158,
     SYSCALL ''__NR_getgroups'' ''sys_getgroups'',
     Nr ''__NR_setgroups'' 159,
     SYSCALL ''__NR_setgroups'' ''sys_setgroups'',
     Nr ''__NR_uname'' 160,
     SYSCALL ''__NR_uname'' ''sys_newuname'',
     Nr ''__NR_sethostname'' 161,
     SYSCALL ''__NR_sethostname'' ''sys_sethostname'',
     Nr ''__NR_setdomainname'' 162,
     SYSCALL ''__NR_setdomainname'' ''sys_setdomainname''] @
    (if want_set_get_rlimit c then [Nr ''__NR_getrlimit'' 163,
     SC_COMP c ''__NR_getrlimit'' ''sys_getrlimit'' ''compat_sys_getrlimit'',
     Nr ''__NR_setrlimit'' 164,
     SC_COMP c ''__NR_setrlimit'' ''sys_setrlimit'' ''compat_sys_setrlimit''] else []) @
    [Nr ''__NR_getrusage'' 165,
     SC_COMP c ''__NR_getrusage'' ''sys_getrusage'' ''compat_sys_getrusage'',
     Nr ''__NR_umask'' 166,
     SYSCALL ''__NR_umask'' ''sys_umask'',
     Nr ''__NR_prctl'' 167,
     SYSCALL ''__NR_prctl'' ''sys_prctl'',
     Nr ''__NR_getcpu'' 168,
     SYSCALL ''__NR_getcpu'' ''sys_getcpu''] @
    (if want_time32 c \<or> bits_per_long c \<noteq> 32 then [Nr ''__NR_gettimeofday'' 169,
     SC_COMP c ''__NR_gettimeofday'' ''sys_gettimeofday'' ''compat_sys_gettimeofday'',
     Nr ''__NR_settimeofday'' 170,
     SC_COMP c ''__NR_settimeofday'' ''sys_settimeofday'' ''compat_sys_settimeofday'',
     Nr ''__NR_adjtimex'' 171,
     SC_3264 c ''__NR_adjtimex'' ''sys_adjtimex_time32'' ''sys_adjtimex''] else []) @
    [Nr ''__NR_getpid'' 172,
     SYSCALL ''__NR_getpid'' ''sys_getpid'',
     Nr ''__NR_getppid'' 173,
     SYSCALL ''__NR_getppid'' ''sys_getppid'',
     Nr ''__NR_getuid'' 174,
     SYSCALL ''__NR_getuid'' ''sys_getuid'',
     Nr ''__NR_geteuid'' 175,
     SYSCALL ''__NR_geteuid'' ''sys_geteuid'',
     Nr ''__NR_getgid'' 176,
     SYSCALL ''__NR_getgid'' ''sys_getgid'',
     Nr ''__NR_getegid'' 177,
     SYSCALL ''__NR_getegid'' ''sys_getegid'',
     Nr ''__NR_gettid'' 178,
     SYSCALL ''__NR_gettid'' ''sys_gettid'']"

definition unistd_6 :: "cpp_config \<Rightarrow> item list" where
  "unistd_6 c =
    [Nr ''__NR_sysinfo'' 179,
     SC_COMP c ''__NR_sysinfo'' ''sys_sysinfo'' ''compat_sys_sysinfo'',
     Nr ''__NR_mq_open'' 180,
     SC_COMP c ''__NR_mq_open'' ''sys_mq_open'' ''compat_sys_mq_open'',
     Nr ''__NR_mq_unlink'' 181,
     SYSCALL ''__NR_mq_unlink'' ''sys_mq_unlink''] @
    (if want_time32 c \<or> bits_per_long c \<noteq> 32 then [Nr ''__NR_mq_timedsend'' 182,
     SC_3264 c ''__NR_mq_timedsend'' ''sys_mq_timedsend_time32'' ''sys_mq_timedsend'',
     Nr ''__NR_mq_timedreceive'' 183,
     SC_3264 c ''__NR_mq_timedreceive'' ''sys_mq_timedreceive_time32'' ''sys_mq_timedreceive''] else []) @
    [Nr ''__NR_mq_notify'' 184,
     SC_COMP c ''__NR_mq_notify'' ''sys_mq_notify'' ''compat_sys_mq_notify'',
     Nr ''__NR_mq_getsetattr'' 185,
     SC_COMP c ''__NR_mq_getsetattr'' ''sys_mq_getsetattr'' ''compat_sys_mq_getsetattr'',
     Nr ''__NR_msgget'' 186,
     SYSCALL ''__NR_msgget'' ''sys_msgget'',
     Nr ''__NR_msgctl'' 187,
     SC_COMP c ''__NR_msgctl'' ''sys_msgctl'' ''compat_sys_msgctl'',
     Nr ''__NR_msgrcv'' 188,
     SC_COMP c ''__NR_msgrcv'' ''sys_msgrcv'' ''compat_sys_msgrcv'',
     Nr ''__NR_msgsnd'' 189,
     SC_COMP c ''__NR_msgsnd'' ''sys_msgsnd'' ''compat_sys_msgsnd'',
     Nr ''__NR_semget'' 190,
     SYSCALL ''__NR_semget'' ''sys_semget'',
     Nr ''__NR_semctl'' 191,
     SC_COMP c ''__NR_semctl'' ''sys_semctl'' ''compat_sys_semctl''] @
    (if want_time32 c \<or> bits_per_long c \<noteq> 32 then [Nr ''__NR_semtimedop'' 192,
     SC_3264 c ''__NR_semtimedop'' ''sys_semtimedop_time32'' ''sys_semtimedop''] else []) @
    [Nr ''__NR_semop'' 193,
     SYSCALL ''__NR_semop'' ''sys_semop'',
     Nr ''__NR_shmget'' 194,
     SYSCALL ''__NR_shmget'' ''sys_shmget'',
     Nr ''__NR_shmctl'' 195,
     SC_COMP c ''__NR_shmctl'' ''sys_shmctl'' ''compat_sys_shmctl'',
     Nr ''__NR_shmat'' 196,
     SC_COMP c ''__NR_shmat'' ''sys_shmat'' ''compat_sys_shmat'',
     Nr ''__NR_shmdt'' 197,
     SYSCALL ''__NR_shmdt'' ''sys_shmdt'',
     Nr ''__NR_socket'' 198,
     SYSCALL ''__NR_socket'' ''sys_socket'',
     Nr ''__NR_socketpair'' 199,
     SYSCALL ''__NR_socketpair'' ''sys_socketpair'',
     Nr ''__NR_bind'' 200,
     SYSCALL ''__NR_bind'' ''sys_bind'',
     Nr ''__NR_listen'' 201,
     SYSCALL ''__NR_listen'' ''sys_listen'',
     Nr ''__NR_accept'' 202,
     SYSCALL ''__NR_accept'' ''sys_accept'',
     Nr ''__NR_connect'' 203,
     SYSCALL ''__NR_connect'' ''sys_connect'',
     Nr ''__NR_getsockname'' 204,
     SYSCALL ''__NR_getsockname'' ''sys_getsockname'',
     Nr ''__NR_getpeername'' 205,
     SYSCALL ''__NR_getpeername'' ''sys_getpeername'',
     Nr ''__NR_sendto'' 206,
     SYSCALL ''__NR_sendto'' ''sys_sendto'',
     Nr ''__NR_recvfrom'' 207,
     SC_COMP c ''__NR_recvfrom'' ''sys_recvfrom'' ''compat_sys_recvfrom'',
     Nr ''__NR_setsockopt'' 208,
     SC_COMP c ''__NR_setsockopt'' ''sys_setsockopt'' ''sys_setsockopt'',
     Nr ''__NR_getsockopt'' 209,
     SC_COMP c ''__NR_getsockopt'' ''sys_getsockopt'' ''sys_getsockopt'',
     Nr ''__NR_shutdown'' 210,
     SYSCALL ''__NR_shutdown'' ''sys_shutdown'',
     Nr ''__NR_sendmsg'' 211,
     SC_COMP c ''__NR_sendmsg'' ''sys_sendmsg'' ''compat_sys_sendmsg'',
     Nr ''__NR_recvmsg'' 212,
     SC_COMP c ''__NR_recvmsg'' ''sys_recvmsg'' ''compat_sys_recvmsg'',
     Nr ''__NR_readahead'' 213,
     SC_COMP c ''__NR_readahead'' ''sys_readahead'' ''compat_sys_readahead'',
     Nr ''__NR_brk'' 214,
     SYSCALL ''__NR_brk'' ''sys_brk'',
     Nr ''__NR_munmap'' 215,
     SYSCALL ''__NR_munmap'' ''sys_munmap'',
     Nr ''__NR_mremap'' 216,
     SYSCALL ''__NR_mremap'' ''sys_mremap'',
     Nr ''__NR_add_key'' 217,
     SYSCALL ''__NR_add_key'' ''sys_add_key'',
     Nr ''__NR_request_key'' 218,
     SYSCALL ''__NR_request_key'' ''sys_request_key'']"

definition unistd_7 :: "cpp_config \<Rightarrow> item list" where
  "unistd_7 c =
    [Nr ''__NR_keyctl'' 219,
     SC_COMP c ''__NR_keyctl'' ''sys_keyctl'' ''compat_sys_keyctl'',
     Nr ''__NR_clone'' 220,
     SYSCALL ''__NR_clone'' ''sys_clone'',
     Nr ''__NR_execve'' 221,
     SC_COMP c ''__NR_execve'' ''sys_execve'' ''compat_sys_execve'',
     Nr ''__NR3264_mmap'' 222,
     SC_3264 c ''__NR3264_mmap'' ''sys_mmap2'' ''sys_mmap'',
     Nr ''__NR3264_fadvise64'' 223,
     SC_COMP c ''__NR3264_fadvise64'' ''sys_fadvise64_64'' ''compat_sys_fadvise64_64''] @
    (if \<not> arch_nommu c then [Nr ''__NR_swapon'' 224,
     SYSCALL ''__NR_swapon'' ''sys_swapon'',
     Nr ''__NR_swapoff'' 225,
     SYSCALL ''__NR_swapoff'' ''sys_swapoff'',
     Nr ''__NR_mprotect'' 226,
     SYSCALL ''__NR_mprotect'' ''sys_mprotect'',
     Nr ''__NR_msync'' 227,
     SYSCALL ''__NR_msync'' ''sys_msync'',
     Nr ''__NR_mlock'' 228,
     SYSCALL ''__NR_mlock'' ''sys_mlock'',
     Nr ''__NR_munlock'' 229,
     SYSCALL ''__NR_munlock'' ''sys_munlock'',
     Nr ''__NR_mlockall'' 230,
     SYSCALL ''__NR_mlockall'' ''sys_mlockall'',
     Nr ''__NR_munlockall'' 231,
     SYSCALL ''__NR_munlockall'' ''sys_munlockall'',
     Nr ''__NR_mincore'' 232,
     SYSCALL ''__NR_mincore'' ''sys_mincore'',
     Nr ''__NR_madvise'' 233,
     SYSCALL ''__NR_madvise'' ''sys_madvise'',
     Nr ''__NR_remap_file_pages'' 234,
     SYSCALL ''__NR_remap_file_pages'' ''sys_remap_file_pages'',
     Nr ''__NR_mbind'' 235,
     SYSCALL ''__NR_mbind'' ''sys_mbind'',
     Nr ''__NR_get_mempolicy'' 236,
     SYSCALL ''__NR_get_mempolicy'' ''sys_get_mempolicy'',
     Nr ''__NR_set_mempolicy'' 237,
     SYSCALL ''__NR_set_mempolicy'' ''sys_set_mempolicy'',
     Nr ''__NR_migrate_pages'' 238,
     SYSCALL ''__NR_migrate_pages'' ''sys_migrate_pages'',
     Nr ''__NR_move_pages'' 239,
     SYSCALL ''__NR_move_pages'' ''sys_move_pages''] else []) @
    [Nr ''__NR_rt_tgsigqueueinfo'' 240,
     SC_COMP c ''__NR_rt_tgsigqueueinfo'' ''sys_rt_tgsigqueueinfo'' ''compat_sys_rt_tgsigqueueinfo'',
     Nr ''__NR_perf_event_open'' 241,
     SYSCALL ''__NR_perf_event_open'' ''sys_perf_event_open'',
     Nr ''__NR_accept4'' 242,
     SYSCALL ''__NR_accept4'' ''sys_accept4''] @
    (if want_time32 c \<or> bits_per_long c \<noteq> 32 then [Nr ''__NR_recvmmsg'' 243,
     SC_COMP_3264 c ''__NR_recvmmsg'' ''sys_recvmmsg_time32'' ''sys_recvmmsg'' ''compat_sys_recvmmsg_time32''] else []) @
    [Nr ''__NR_arch_specific_syscall'' 244] @
    (if want_time32 c \<or> bits_per_long c \<noteq> 32 then [Nr ''__NR_wait4'' 260,
     SC_COMP c ''__NR_wait4'' ''sys_wait4'' ''compat_sys_wait4''] else []) @
    [Nr ''__NR_prlimit64'' 261,
     SYSCALL ''__NR_prlimit64'' ''sys_prlimit64'',
     Nr ''__NR_fanotify_init'' 262,
     SYSCALL ''__NR_fanotify_init'' ''sys_fanotify_init'',
     Nr ''__NR_fanotify_mark'' 263,
     SYSCALL ''__NR_fanotify_mark'' ''sys_fanotify_mark'',
     Nr ''__NR_name_to_handle_at'' 264,
     SYSCALL ''__NR_name_to_handle_at'' ''sys_name_to_handle_at'',
     Nr ''__NR_open_by_handle_at'' 265,
     SYSCALL ''__NR_open_by_handle_at'' ''sys_open_by_handle_at''] @
    (if want_time32 c \<or> bits_per_long c \<noteq> 32 then [Nr ''__NR_clock_adjtime'' 266,
     SC_3264 c ''__NR_clock_adjtime'' ''sys_clock_adjtime32'' ''sys_clock_adjtime''] else []) @
    [Nr ''__NR_syncfs'' 267,
     SYSCALL ''__NR_syncfs'' ''sys_syncfs'']"

definition unistd_8 :: "cpp_config \<Rightarrow> item list" where
  "unistd_8 c =
    [Nr ''__NR_setns'' 268,
     SYSCALL ''__NR_setns'' ''sys_setns'',
     Nr ''__NR_sendmmsg'' 269,
     SC_COMP c ''__NR_sendmmsg'' ''sys_sendmmsg'' ''compat_sys_sendmmsg'',
     Nr ''__NR_process_vm_readv'' 270,
     SYSCALL ''__NR_process_vm_readv'' ''sys_process_vm_readv'',
     Nr ''__NR_process_vm_writev'' 271,
     SYSCALL ''__NR_process_vm_writev'' ''sys_process_vm_writev'',
     Nr ''__NR_kcmp'' 272,
     SYSCALL ''__NR_kcmp'' ''sys_kcmp'',
     Nr ''__NR_finit_module'' 273,
     SYSCALL ''__NR_finit_module'' ''sys_finit_module'',
     Nr ''__NR_sched_setattr'' 274,
     SYSCALL ''__NR_sched_setattr'' ''sys_sched_setattr'',
     Nr ''__NR_sched_getattr'' 275,
     SYSCALL ''__NR_sched_getattr'' ''sys_sched_getattr'',
     Nr ''__NR_renameat2'' 276,
     SYSCALL ''__NR_renameat2'' ''sys_renameat2'',
     Nr ''__NR_seccomp'' 277,
     SYSCALL ''__NR_seccomp'' ''sys_seccomp'',
     Nr ''__NR_getrandom'' 278,
     SYSCALL ''__NR_getrandom'' ''sys_getrandom'',
     Nr ''__NR_memfd_create'' 279,
     SYSCALL ''__NR_memfd_create'' ''sys_memfd_create'',
     Nr ''__NR_bpf'' 280,
     SYSCALL ''__NR_bpf'' ''sys_bpf'',
     Nr ''__NR_execveat'' 281,
     SC_COMP c ''__NR_execveat'' ''sys_execveat'' ''compat_sys_execveat'',
     Nr ''__NR_userfaultfd'' 282,
     SYSCALL ''__NR_userfaultfd'' ''sys_userfaultfd'',
     Nr ''__NR_membarrier'' 283,
     SYSCALL ''__NR_membarrier'' ''sys_membarrier'',
     Nr ''__NR_mlock2'' 284,
     SYSCALL ''__NR_mlock2'' ''sys_mlock2'',
     Nr ''__NR_copy_file_range'' 285,
     SYSCALL ''__NR_copy_file_range'' ''sys_copy_file_range'',
     Nr ''__NR_preadv2'' 286,
     SC_COMP c ''__NR_preadv2'' ''sys_preadv2'' ''compat_sys_preadv2'',
     Nr ''__NR_pwritev2'' 287,
     SC_COMP c ''__NR_pwritev2'' ''sys_pwritev2'' ''compat_sys_pwritev2'',
     Nr ''__NR_pkey_mprotect'' 288,
     SYSCALL ''__NR_pkey_mprotect'' ''sys_pkey_mprotect'',
     Nr ''__NR_pkey_alloc'' 289,
     SYSCALL ''__NR_pkey_alloc'' ''sys_pkey_alloc'',
     Nr ''__NR_pkey_free'' 290,
     SYSCALL ''__NR_pkey_free'' ''sys_pkey_free'',
     Nr ''__NR_statx'' 291,
     SYSCALL ''__NR_statx'' ''sys_statx''] @
    (if want_time32 c \<or> bits_per_long c \<noteq> 32 then [Nr ''__NR_io_pgetevents'' 292,
     SC_COMP_3264 c ''__NR_io_pgetevents'' ''sys_io_pgetevents_time32'' ''sys_io_pgetevents'' ''compat_sys_io_pgetevents''] else []) @
    [Nr ''__NR_rseq'' 293,
     SYSCALL ''__NR_rseq'' ''sys_rseq'',
     Nr ''__NR_kexec_file_load'' 294,
     SYSCALL ''__NR_kexec_file_load'' ''sys_kexec_file_load'']"

definition unistd_9 :: "cpp_config \<Rightarrow> item list" where
  "unistd_9 c =
    (if syscall_compat c \<or> bits_per_long c = 32 then [Nr ''__NR_clock_gettime64'' 403,
     SYSCALL ''__NR_clock_gettime64'' ''sys_clock_gettime'',
     Nr ''__NR_clock_settime64'' 404,
     SYSCALL ''__NR_clock_settime64'' ''sys_clock_settime'',
     Nr ''__NR_clock_adjtime64'' 405,
     SYSCALL ''__NR_clock_adjtime64'' ''sys_clock_adjtime'',
     Nr ''__NR_clock_getres_time64'' 406,
     SYSCALL ''__NR_clock_getres_time64'' ''sys_clock_getres'',
     Nr ''__NR_clock_nanosleep_time64'' 407,
     SYSCALL ''__NR_clock_nanosleep_time64'' ''sys_clock_nanosleep'',
     Nr ''__NR_timer_gettime64'' 408,
     SYSCALL ''__NR_timer_gettime64'' ''sys_timer_gettime'',
     Nr ''__NR_timer_settime64'' 409,
     SYSCALL ''__NR_timer_settime64'' ''sys_timer_settime'',
     Nr ''__NR_timerfd_gettime64'' 410,
     SYSCALL ''__NR_timerfd_gettime64'' ''sys_timerfd_gettime'',
     Nr ''__NR_timerfd_settime64'' 411,
     SYSCALL ''__NR_timerfd_settime64'' ''sys_timerfd_settime'',
     Nr ''__NR_utimensat_time64'' 412,
     SYSCALL ''__NR_utimensat_time64'' ''sys_utimensat'',
     Nr ''__NR_pselect6_time64'' 413,
     SC_COMP c ''__NR_pselect6_time64'' ''sys_pselect6'' ''compat_sys_pselect6_time64'',
     Nr ''__NR_ppoll_time64'' 414,
     SC_COMP c ''__NR_ppoll_time64'' ''sys_ppoll'' ''compat_sys_ppoll_time64'',
     Nr ''__NR_io_pgetevents_time64'' 416,
     SYSCALL ''__NR_io_pgetevents_time64'' ''sys_io_pgetevents'',
     Nr ''__NR_recvmmsg_time64'' 417,
     SC_COMP c ''__NR_recvmmsg_time64'' ''sys_recvmmsg'' ''compat_sys_recvmmsg_time64'',
     Nr ''__NR_mq_timedsend_time64'' 418,
     SYSCALL ''__NR_mq_timedsend_time64'' ''sys_mq_timedsend'',
     Nr ''__NR_mq_timedreceive_time64'' 419,
     SYSCALL ''__NR_mq_timedreceive_time64'' ''sys_mq_timedreceive'',
     Nr ''__NR_semtimedop_time64'' 420,
     SYSCALL ''__NR_semtimedop_time64'' ''sys_semtimedop'',
     Nr ''__NR_rt_sigtimedwait_time64'' 421,
     SC_COMP c ''__NR_rt_sigtimedwait_time64'' ''sys_rt_sigtimedwait'' ''compat_sys_rt_sigtimedwait_time64'',
     Nr ''__NR_futex_time64'' 422,
     SYSCALL ''__NR_futex_time64'' ''sys_futex'',
     Nr ''__NR_sched_rr_get_interval_time64'' 423,
     SYSCALL ''__NR_sched_rr_get_interval_time64'' ''sys_sched_rr_get_interval''] else []) @
    [Nr ''__NR_pidfd_send_signal'' 424,
     SYSCALL ''__NR_pidfd_send_signal'' ''sys_pidfd_send_signal'',
     Nr ''__NR_io_uring_setup'' 425,
     SYSCALL ''__NR_io_uring_setup'' ''sys_io_uring_setup'',
     Nr ''__NR_io_uring_enter'' 426,
     SYSCALL ''__NR_io_uring_enter'' ''sys_io_uring_enter'',
     Nr ''__NR_io_uring_register'' 427,
     SYSCALL ''__NR_io_uring_register'' ''sys_io_uring_register'',
     Nr ''__NR_open_tree'' 428,
     SYSCALL ''__NR_open_tree'' ''sys_open_tree'',
     Nr ''__NR_move_mount'' 429,
     SYSCALL ''__NR_move_mount'' ''sys_move_mount'',
     Nr ''__NR_fsopen'' 430,
     SYSCALL ''__NR_fsopen'' ''sys_fsopen'',
     Nr ''__NR_fsconfig'' 431,
     SYSCALL ''__NR_fsconfig'' ''sys_fsconfig'',
     Nr ''__NR_fsmount'' 432,
     SYSCALL ''__NR_fsmount'' ''sys_fsmount'',
     Nr ''__NR_fspick'' 433,
     SYSCALL ''__NR_fspick'' ''sys_fspick'',
     Nr ''__NR_pidfd_open'' 434,
     SYSCALL ''__NR_pidfd_open'' ''sys_pidfd_open''] @
    (if want_sys_clone3 c then [Nr ''__NR_clone3'' 435,
     SYSCALL ''__NR_clone3'' ''sys_clone3''] else []) @
    [Nr ''__NR_close_range'' 436,
     SYSCALL ''__NR_close_range'' ''sys_close_range'',
     Nr ''__NR_openat2'' 437,
     SYSCALL ''__NR_openat2'' ''sys_openat2'',
     Nr ''__NR_pidfd_getfd'' 438,
     SYSCALL ''__NR_pidfd_getfd'' ''sys_pidfd_getfd'',
     Nr ''__NR_faccessat2'' 439,
     SYSCALL ''__NR_faccessat2'' ''sys_faccessat2'',
     Nr ''__NR_process_madvise'' 440,
     SYSCALL ''__NR_process_madvise'' ''sys_process_madvise'',
     Nr ''__NR_epoll_pwait2'' 441,
     SC_COMP c ''__NR_epoll_pwait2'' ''sys_epoll_pwait2'' ''compat_sys_epoll_pwait2'',
     Nr ''__NR_mount_setattr'' 442,
     SYSCALL ''__NR_mount_setattr'' ''sys_mount_setattr'',
     Nr ''__NR_quotactl_fd'' 443,
     SYSCALL ''__NR_quotactl_fd'' ''sys_quotactl_fd'',
     Nr ''__NR_landlock_create_ruleset'' 444,
     SYSCALL ''__NR_landlock_create_ruleset'' ''sys_landlock_create_ruleset'']"

definition unistd_10 :: "cpp_config \<Rightarrow> item list" where
  "unistd_10 c =
    [Nr ''__NR_landlock_add_rule'' 445,
     SYSCALL ''__NR_landlock_add_rule'' ''sys_landlock_add_rule'',
     Nr ''__NR_landlock_restrict_self'' 446,
     SYSCALL ''__NR_landlock_restrict_self'' ''sys_landlock_restrict_self''] @
    (if want_memfd_secret c then [Nr ''__NR_memfd_secret'' 447,
     SYSCALL ''__NR_memfd_secret'' ''sys_memfd_secret''] else []) @
    [Nr ''__NR_process_mrelease'' 448,
     SYSCALL ''__NR_process_mrelease'' ''sys_process_mrelease'',
     Nr ''__NR_futex_waitv'' 449,
     SYSCALL ''__NR_futex_waitv'' ''sys_futex_waitv'',
     Nr ''__NR_set_mempolicy_home_node'' 450,
     SYSCALL ''__NR_set_mempolicy_home_node'' ''sys_set_mempolicy_home_node'',
     Nr ''__NR_cachestat'' 451,
     SYSCALL ''__NR_cachestat'' ''sys_cachestat'',
     Nr ''__NR_fchmodat2'' 452,
     SYSCALL ''__NR_fchmodat2'' ''sys_fchmodat2'',
     Nr ''__NR_map_shadow_stack'' 453,
     SYSCALL ''__NR_map_shadow_stack'' ''sys_map_shadow_stack'',
     Nr ''__NR_futex_wake'' 454,
     SYSCALL ''__NR_futex_wake'' ''sys_futex_wake'',
     Nr ''__NR_futex_wait'' 455,
     SYSCALL ''__NR_futex_wait'' ''sys_futex_wait'',
     Nr ''__NR_futex_requeue'' 456,
     SYSCALL ''__NR_futex_requeue'' ''sys_futex_requeue'',
     Nr ''__NR_statmount'' 457,
     SYSCALL ''__NR_statmount'' ''sys_statmount'',
     Nr ''__NR_listmount'' 458,
     SYSCALL ''__NR_listmount'' ''sys_listmount'',
     Nr ''__NR_lsm_get_self_attr'' 459,
     SYSCALL ''__NR_lsm_get_self_attr'' ''sys_lsm_get_self_attr'',
     Nr ''__NR_lsm_set_self_attr'' 460,
     SYSCALL ''__NR_lsm_set_self_attr'' ''sys_lsm_set_self_attr'',
     Nr ''__NR_lsm_list_modules'' 461,
     SYSCALL ''__NR_lsm_list_modules'' ''sys_lsm_list_modules'',
     Undef ''__NR_syscalls'',
     Nr ''__NR_syscalls'' 462]"

definition unistd_11 :: "cpp_config \<Rightarrow> item list" where
  "unistd_11 c =
    (if bits_per_long c = 64 \<and> \<not> syscall_compat c then [Alias ''__NR_fcntl'' ''__NR3264_fcntl'',
     Alias ''__NR_statfs'' ''__NR3264_statfs'',
     Alias ''__NR_fstatfs'' ''__NR3264_fstatfs'',
     Alias ''__NR_truncate'' ''__NR3264_truncate'',
     Alias ''__NR_ftruncate'' ''__NR3264_ftruncate'',
     Alias ''__NR_lseek'' ''__NR3264_lseek'',
     Alias ''__NR_sendfile'' ''__NR3264_sendfile''] @
    (if want_new_stat c \<or> want_stat64 c then [Alias ''__NR_newfstatat'' ''__NR3264_fstatat'',
     Alias ''__NR_fstat'' ''__NR3264_fstat''] else []) @
    [Alias ''__NR_mmap'' ''__NR3264_mmap'',
     Alias ''__NR_fadvise64'' ''__NR3264_fadvise64''] @
    (if nr3264_stat c then [Alias ''__NR_stat'' ''__NR3264_stat'',
     Alias ''__NR_lstat'' ''__NR3264_lstat''] else []) else [Alias ''__NR_fcntl64'' ''__NR3264_fcntl'',
     Alias ''__NR_statfs64'' ''__NR3264_statfs'',
     Alias ''__NR_fstatfs64'' ''__NR3264_fstatfs'',
     Alias ''__NR_truncate64'' ''__NR3264_truncate'',
     Alias ''__NR_ftruncate64'' ''__NR3264_ftruncate'',
     Alias ''__NR_llseek'' ''__NR3264_lseek'',
     Alias ''__NR_sendfile64'' ''__NR3264_sendfile''] @
    (if want_new_stat c \<or> want_stat64 c then [Alias ''__NR_fstatat64'' ''__NR3264_fstatat'',
     Alias ''__NR_fstat64'' ''__NR3264_fstat''] else []) @
    [Alias ''__NR_mmap2'' ''__NR3264_mmap'',
     Alias ''__NR_fadvise64_64'' ''__NR3264_fadvise64''] @
    (if nr3264_stat c then [Alias ''__NR_stat64'' ''__NR3264_stat'',
     Alias ''__NR_lstat64'' ''__NR3264_lstat''] else []))"

definition unistd :: "cpp_config \<Rightarrow> item list" where
  "unistd c = unistd_1 c @ unistd_2 c @ unistd_3 c @ unistd_4 c @ unistd_5 c @ unistd_6 c @ unistd_7 c @ unistd_8 c @ unistd_9 c @ unistd_10 c @ unistd_11 c"


section \<open>The system calls of the C library\<close>

definition musl_nr_1 :: "item list" where
  "musl_nr_1 = [
    Nr ''__NR_io_setup'' 0,
    Nr ''__NR_io_destroy'' 1,
    Nr ''__NR_io_submit'' 2,
    Nr ''__NR_io_cancel'' 3,
    Nr ''__NR_io_getevents'' 4,
    Nr ''__NR_setxattr'' 5,
    Nr ''__NR_lsetxattr'' 6,
    Nr ''__NR_fsetxattr'' 7,
    Nr ''__NR_getxattr'' 8,
    Nr ''__NR_lgetxattr'' 9,
    Nr ''__NR_fgetxattr'' 10,
    Nr ''__NR_listxattr'' 11,
    Nr ''__NR_llistxattr'' 12,
    Nr ''__NR_flistxattr'' 13,
    Nr ''__NR_removexattr'' 14,
    Nr ''__NR_lremovexattr'' 15,
    Nr ''__NR_fremovexattr'' 16,
    Nr ''__NR_getcwd'' 17,
    Nr ''__NR_lookup_dcookie'' 18,
    Nr ''__NR_eventfd2'' 19,
    Nr ''__NR_epoll_create1'' 20,
    Nr ''__NR_epoll_ctl'' 21,
    Nr ''__NR_epoll_pwait'' 22,
    Nr ''__NR_dup'' 23,
    Nr ''__NR_dup3'' 24,
    Nr ''__NR_fcntl'' 25,
    Nr ''__NR_inotify_init1'' 26,
    Nr ''__NR_inotify_add_watch'' 27,
    Nr ''__NR_inotify_rm_watch'' 28,
    Nr ''__NR_ioctl'' 29,
    Nr ''__NR_ioprio_set'' 30,
    Nr ''__NR_ioprio_get'' 31,
    Nr ''__NR_flock'' 32,
    Nr ''__NR_mknodat'' 33,
    Nr ''__NR_mkdirat'' 34,
    Nr ''__NR_unlinkat'' 35,
    Nr ''__NR_symlinkat'' 36,
    Nr ''__NR_linkat'' 37,
    Nr ''__NR_umount2'' 39]"

definition musl_nr_2 :: "item list" where
  "musl_nr_2 = [
    Nr ''__NR_mount'' 40,
    Nr ''__NR_pivot_root'' 41,
    Nr ''__NR_nfsservctl'' 42,
    Nr ''__NR_statfs'' 43,
    Nr ''__NR_fstatfs'' 44,
    Nr ''__NR_truncate'' 45,
    Nr ''__NR_ftruncate'' 46,
    Nr ''__NR_fallocate'' 47,
    Nr ''__NR_faccessat'' 48,
    Nr ''__NR_chdir'' 49,
    Nr ''__NR_fchdir'' 50,
    Nr ''__NR_chroot'' 51,
    Nr ''__NR_fchmod'' 52,
    Nr ''__NR_fchmodat'' 53,
    Nr ''__NR_fchownat'' 54,
    Nr ''__NR_fchown'' 55,
    Nr ''__NR_openat'' 56,
    Nr ''__NR_close'' 57,
    Nr ''__NR_vhangup'' 58,
    Nr ''__NR_pipe2'' 59,
    Nr ''__NR_quotactl'' 60,
    Nr ''__NR_getdents64'' 61,
    Nr ''__NR_lseek'' 62,
    Nr ''__NR_read'' 63,
    Nr ''__NR_write'' 64,
    Nr ''__NR_readv'' 65,
    Nr ''__NR_writev'' 66,
    Nr ''__NR_pread64'' 67,
    Nr ''__NR_pwrite64'' 68,
    Nr ''__NR_preadv'' 69,
    Nr ''__NR_pwritev'' 70,
    Nr ''__NR_sendfile'' 71,
    Nr ''__NR_pselect6'' 72,
    Nr ''__NR_ppoll'' 73,
    Nr ''__NR_signalfd4'' 74,
    Nr ''__NR_vmsplice'' 75,
    Nr ''__NR_splice'' 76,
    Nr ''__NR_tee'' 77,
    Nr ''__NR_readlinkat'' 78]"

definition musl_nr_3 :: "item list" where
  "musl_nr_3 = [
    Nr ''__NR_newfstatat'' 79,
    Nr ''__NR_fstat'' 80,
    Nr ''__NR_sync'' 81,
    Nr ''__NR_fsync'' 82,
    Nr ''__NR_fdatasync'' 83,
    Nr ''__NR_sync_file_range'' 84,
    Nr ''__NR_timerfd_create'' 85,
    Nr ''__NR_timerfd_settime'' 86,
    Nr ''__NR_timerfd_gettime'' 87,
    Nr ''__NR_utimensat'' 88,
    Nr ''__NR_acct'' 89,
    Nr ''__NR_capget'' 90,
    Nr ''__NR_capset'' 91,
    Nr ''__NR_personality'' 92,
    Nr ''__NR_exit'' 93,
    Nr ''__NR_exit_group'' 94,
    Nr ''__NR_waitid'' 95,
    Nr ''__NR_set_tid_address'' 96,
    Nr ''__NR_unshare'' 97,
    Nr ''__NR_futex'' 98,
    Nr ''__NR_set_robust_list'' 99,
    Nr ''__NR_get_robust_list'' 100,
    Nr ''__NR_nanosleep'' 101,
    Nr ''__NR_getitimer'' 102,
    Nr ''__NR_setitimer'' 103,
    Nr ''__NR_kexec_load'' 104,
    Nr ''__NR_init_module'' 105,
    Nr ''__NR_delete_module'' 106,
    Nr ''__NR_timer_create'' 107]"

definition musl_nr_4 :: "item list" where
  "musl_nr_4 = [
    Nr ''__NR_timer_gettime'' 108,
    Nr ''__NR_timer_getoverrun'' 109,
    Nr ''__NR_timer_settime'' 110,
    Nr ''__NR_timer_delete'' 111,
    Nr ''__NR_clock_settime'' 112,
    Nr ''__NR_clock_gettime'' 113,
    Nr ''__NR_clock_getres'' 114,
    Nr ''__NR_clock_nanosleep'' 115,
    Nr ''__NR_syslog'' 116,
    Nr ''__NR_ptrace'' 117,
    Nr ''__NR_sched_setparam'' 118,
    Nr ''__NR_sched_setscheduler'' 119,
    Nr ''__NR_sched_getscheduler'' 120,
    Nr ''__NR_sched_getparam'' 121,
    Nr ''__NR_sched_setaffinity'' 122,
    Nr ''__NR_sched_getaffinity'' 123,
    Nr ''__NR_sched_yield'' 124,
    Nr ''__NR_sched_get_priority_max'' 125,
    Nr ''__NR_sched_get_priority_min'' 126,
    Nr ''__NR_sched_rr_get_interval'' 127,
    Nr ''__NR_restart_syscall'' 128,
    Nr ''__NR_kill'' 129,
    Nr ''__NR_tkill'' 130,
    Nr ''__NR_tgkill'' 131,
    Nr ''__NR_sigaltstack'' 132,
    Nr ''__NR_rt_sigsuspend'' 133,
    Nr ''__NR_rt_sigaction'' 134,
    Nr ''__NR_rt_sigprocmask'' 135,
    Nr ''__NR_rt_sigpending'' 136,
    Nr ''__NR_rt_sigtimedwait'' 137,
    Nr ''__NR_rt_sigqueueinfo'' 138]"

definition musl_nr_5 :: "item list" where
  "musl_nr_5 = [
    Nr ''__NR_rt_sigreturn'' 139,
    Nr ''__NR_setpriority'' 140,
    Nr ''__NR_getpriority'' 141,
    Nr ''__NR_reboot'' 142,
    Nr ''__NR_setregid'' 143,
    Nr ''__NR_setgid'' 144,
    Nr ''__NR_setreuid'' 145,
    Nr ''__NR_setuid'' 146,
    Nr ''__NR_setresuid'' 147,
    Nr ''__NR_getresuid'' 148,
    Nr ''__NR_setresgid'' 149,
    Nr ''__NR_getresgid'' 150,
    Nr ''__NR_setfsuid'' 151,
    Nr ''__NR_setfsgid'' 152,
    Nr ''__NR_times'' 153,
    Nr ''__NR_setpgid'' 154,
    Nr ''__NR_getpgid'' 155,
    Nr ''__NR_getsid'' 156,
    Nr ''__NR_setsid'' 157,
    Nr ''__NR_getgroups'' 158,
    Nr ''__NR_setgroups'' 159,
    Nr ''__NR_uname'' 160,
    Nr ''__NR_sethostname'' 161,
    Nr ''__NR_setdomainname'' 162,
    Nr ''__NR_getrlimit'' 163,
    Nr ''__NR_setrlimit'' 164,
    Nr ''__NR_getrusage'' 165,
    Nr ''__NR_umask'' 166,
    Nr ''__NR_prctl'' 167,
    Nr ''__NR_getcpu'' 168,
    Nr ''__NR_gettimeofday'' 169,
    Nr ''__NR_settimeofday'' 170,
    Nr ''__NR_adjtimex'' 171,
    Nr ''__NR_getpid'' 172,
    Nr ''__NR_getppid'' 173,
    Nr ''__NR_getuid'' 174,
    Nr ''__NR_geteuid'' 175,
    Nr ''__NR_getgid'' 176,
    Nr ''__NR_getegid'' 177,
    Nr ''__NR_gettid'' 178]"

definition musl_nr_6 :: "item list" where
  "musl_nr_6 = [
    Nr ''__NR_sysinfo'' 179,
    Nr ''__NR_mq_open'' 180,
    Nr ''__NR_mq_unlink'' 181,
    Nr ''__NR_mq_timedsend'' 182,
    Nr ''__NR_mq_timedreceive'' 183,
    Nr ''__NR_mq_notify'' 184,
    Nr ''__NR_mq_getsetattr'' 185,
    Nr ''__NR_msgget'' 186,
    Nr ''__NR_msgctl'' 187,
    Nr ''__NR_msgrcv'' 188,
    Nr ''__NR_msgsnd'' 189,
    Nr ''__NR_semget'' 190,
    Nr ''__NR_semctl'' 191,
    Nr ''__NR_semtimedop'' 192,
    Nr ''__NR_semop'' 193,
    Nr ''__NR_shmget'' 194,
    Nr ''__NR_shmctl'' 195,
    Nr ''__NR_shmat'' 196,
    Nr ''__NR_shmdt'' 197,
    Nr ''__NR_socket'' 198,
    Nr ''__NR_socketpair'' 199,
    Nr ''__NR_bind'' 200,
    Nr ''__NR_listen'' 201,
    Nr ''__NR_accept'' 202,
    Nr ''__NR_connect'' 203,
    Nr ''__NR_getsockname'' 204,
    Nr ''__NR_getpeername'' 205,
    Nr ''__NR_sendto'' 206,
    Nr ''__NR_recvfrom'' 207,
    Nr ''__NR_setsockopt'' 208,
    Nr ''__NR_getsockopt'' 209,
    Nr ''__NR_shutdown'' 210,
    Nr ''__NR_sendmsg'' 211,
    Nr ''__NR_recvmsg'' 212,
    Nr ''__NR_readahead'' 213,
    Nr ''__NR_brk'' 214,
    Nr ''__NR_munmap'' 215,
    Nr ''__NR_mremap'' 216,
    Nr ''__NR_add_key'' 217,
    Nr ''__NR_request_key'' 218]"

definition musl_nr_7 :: "item list" where
  "musl_nr_7 = [
    Nr ''__NR_keyctl'' 219,
    Nr ''__NR_clone'' 220,
    Nr ''__NR_execve'' 221,
    Nr ''__NR_mmap'' 222,
    Nr ''__NR_fadvise64'' 223,
    Nr ''__NR_swapon'' 224,
    Nr ''__NR_swapoff'' 225,
    Nr ''__NR_mprotect'' 226,
    Nr ''__NR_msync'' 227,
    Nr ''__NR_mlock'' 228,
    Nr ''__NR_munlock'' 229,
    Nr ''__NR_mlockall'' 230,
    Nr ''__NR_munlockall'' 231,
    Nr ''__NR_mincore'' 232,
    Nr ''__NR_madvise'' 233,
    Nr ''__NR_remap_file_pages'' 234,
    Nr ''__NR_mbind'' 235,
    Nr ''__NR_get_mempolicy'' 236,
    Nr ''__NR_set_mempolicy'' 237,
    Nr ''__NR_migrate_pages'' 238,
    Nr ''__NR_move_pages'' 239,
    Nr ''__NR_rt_tgsigqueueinfo'' 240,
    Nr ''__NR_perf_event_open'' 241,
    Nr ''__NR_accept4'' 242,
    Nr ''__NR_recvmmsg'' 243,
    Nr ''__NR_arch_specific_syscall'' 244,
    Nr ''__NR_wait4'' 260,
    Nr ''__NR_prlimit64'' 261,
    Nr ''__NR_fanotify_init'' 262,
    Nr ''__NR_fanotify_mark'' 263,
    Nr ''__NR_name_to_handle_at'' 264,
    Nr ''__NR_open_by_handle_at'' 265,
    Nr ''__NR_clock_adjtime'' 266,
    Nr ''__NR_syncfs'' 267]"

definition musl_nr_8 :: "item list" where
  "musl_nr_8 = [
    Nr ''__NR_setns'' 268,
    Nr ''__NR_sendmmsg'' 269,
    Nr ''__NR_process_vm_readv'' 270,
    Nr ''__NR_process_vm_writev'' 271,
    Nr ''__NR_kcmp'' 272,
    Nr ''__NR_finit_module'' 273,
    Nr ''__NR_sched_setattr'' 274,
    Nr ''__NR_sched_getattr'' 275,
    Nr ''__NR_renameat2'' 276,
    Nr ''__NR_seccomp'' 277,
    Nr ''__NR_getrandom'' 278,
    Nr ''__NR_memfd_create'' 279,
    Nr ''__NR_bpf'' 280,
    Nr ''__NR_execveat'' 281,
    Nr ''__NR_userfaultfd'' 282,
    Nr ''__NR_membarrier'' 283,
    Nr ''__NR_mlock2'' 284,
    Nr ''__NR_copy_file_range'' 285,
    Nr ''__NR_preadv2'' 286,
    Nr ''__NR_pwritev2'' 287,
    Nr ''__NR_pkey_mprotect'' 288,
    Nr ''__NR_pkey_alloc'' 289,
    Nr ''__NR_pkey_free'' 290,
    Nr ''__NR_statx'' 291,
    Nr ''__NR_io_pgetevents'' 292,
    Nr ''__NR_rseq'' 293,
    Nr ''__NR_kexec_file_load'' 294]"

definition musl_nr_9 :: "item list" where
  "musl_nr_9 = [
    Nr ''__NR_pidfd_send_signal'' 424,
    Nr ''__NR_io_uring_setup'' 425,
    Nr ''__NR_io_uring_enter'' 426,
    Nr ''__NR_io_uring_register'' 427,
    Nr ''__NR_open_tree'' 428,
    Nr ''__NR_move_mount'' 429,
    Nr ''__NR_fsopen'' 430,
    Nr ''__NR_fsconfig'' 431,
    Nr ''__NR_fsmount'' 432,
    Nr ''__NR_fspick'' 433,
    Nr ''__NR_pidfd_open'' 434,
    Nr ''__NR_clone3'' 435,
    Nr ''__NR_close_range'' 436,
    Nr ''__NR_openat2'' 437,
    Nr ''__NR_pidfd_getfd'' 438,
    Nr ''__NR_faccessat2'' 439,
    Nr ''__NR_process_madvise'' 440,
    Nr ''__NR_epoll_pwait2'' 441,
    Nr ''__NR_mount_setattr'' 442,
    Nr ''__NR_quotactl_fd'' 443,
    Nr ''__NR_landlock_create_ruleset'' 444]"

definition musl_nr_10 :: "item list" where
  "musl_nr_10 = [
    Nr ''__NR_landlock_add_rule'' 445,
    Nr ''__NR_landlock_restrict_self'' 446,
    Nr ''__NR_memfd_secret'' 447,
    Nr ''__NR_process_mrelease'' 448,
    Nr ''__NR_futex_waitv'' 449,
    Nr ''__NR_set_mempolicy_home_node'' 450,
    Nr ''__NR_cachestat'' 451,
    Nr ''__NR_fchmodat2'' 452,
    Nr ''__NR_map_shadow_stack'' 453,
    Nr ''__NR_futex_wake'' 454,
    Nr ''__NR_futex_wait'' 455,
    Nr ''__NR_futex_requeue'' 456,
    Nr ''__NR_statmount'' 457,
    Nr ''__NR_listmount'' 458,
    Nr ''__NR_lsm_get_self_attr'' 459,
    Nr ''__NR_lsm_set_self_attr'' 460,
    Nr ''__NR_lsm_list_modules'' 461]"

definition musl_nr_11 :: "item list" where
  "musl_nr_11 = [
    Nr ''__NR_mseal'' 462,
    Nr ''__NR_setxattrat'' 463,
    Nr ''__NR_getxattrat'' 464,
    Nr ''__NR_listxattrat'' 465,
    Nr ''__NR_removexattrat'' 466,
    Nr ''__NR_open_tree_attr'' 467,
    Nr ''__NR_file_getattr'' 468,
    Nr ''__NR_file_setattr'' 469,
    Nr ''__NR_listns'' 470,
    Alias ''__NR_sysriscv'' ''__NR_arch_specific_syscall'',
    Plus ''__NR_riscv_flush_icache'' ''__NR_sysriscv'' 15,
    Plus ''__NR_riscv_hwprobe'' ''__NR_sysriscv'' 14]"

definition musl_sys_1 :: "item list" where
  "musl_sys_1 = [
    Nr ''SYS_io_setup'' 0,
    Nr ''SYS_io_destroy'' 1,
    Nr ''SYS_io_submit'' 2,
    Nr ''SYS_io_cancel'' 3,
    Nr ''SYS_io_getevents'' 4,
    Nr ''SYS_setxattr'' 5,
    Nr ''SYS_lsetxattr'' 6,
    Nr ''SYS_fsetxattr'' 7,
    Nr ''SYS_getxattr'' 8,
    Nr ''SYS_lgetxattr'' 9,
    Nr ''SYS_fgetxattr'' 10,
    Nr ''SYS_listxattr'' 11,
    Nr ''SYS_llistxattr'' 12,
    Nr ''SYS_flistxattr'' 13,
    Nr ''SYS_removexattr'' 14,
    Nr ''SYS_lremovexattr'' 15,
    Nr ''SYS_fremovexattr'' 16,
    Nr ''SYS_getcwd'' 17,
    Nr ''SYS_lookup_dcookie'' 18,
    Nr ''SYS_eventfd2'' 19,
    Nr ''SYS_epoll_create1'' 20,
    Nr ''SYS_epoll_ctl'' 21,
    Nr ''SYS_epoll_pwait'' 22,
    Nr ''SYS_dup'' 23,
    Nr ''SYS_dup3'' 24,
    Nr ''SYS_fcntl'' 25,
    Nr ''SYS_inotify_init1'' 26,
    Nr ''SYS_inotify_add_watch'' 27,
    Nr ''SYS_inotify_rm_watch'' 28,
    Nr ''SYS_ioctl'' 29,
    Nr ''SYS_ioprio_set'' 30,
    Nr ''SYS_ioprio_get'' 31,
    Nr ''SYS_flock'' 32,
    Nr ''SYS_mknodat'' 33,
    Nr ''SYS_mkdirat'' 34,
    Nr ''SYS_unlinkat'' 35,
    Nr ''SYS_symlinkat'' 36,
    Nr ''SYS_linkat'' 37,
    Nr ''SYS_umount2'' 39]"

definition musl_sys_2 :: "item list" where
  "musl_sys_2 = [
    Nr ''SYS_mount'' 40,
    Nr ''SYS_pivot_root'' 41,
    Nr ''SYS_nfsservctl'' 42,
    Nr ''SYS_statfs'' 43,
    Nr ''SYS_fstatfs'' 44,
    Nr ''SYS_truncate'' 45,
    Nr ''SYS_ftruncate'' 46,
    Nr ''SYS_fallocate'' 47,
    Nr ''SYS_faccessat'' 48,
    Nr ''SYS_chdir'' 49,
    Nr ''SYS_fchdir'' 50,
    Nr ''SYS_chroot'' 51,
    Nr ''SYS_fchmod'' 52,
    Nr ''SYS_fchmodat'' 53,
    Nr ''SYS_fchownat'' 54,
    Nr ''SYS_fchown'' 55,
    Nr ''SYS_openat'' 56,
    Nr ''SYS_close'' 57,
    Nr ''SYS_vhangup'' 58,
    Nr ''SYS_pipe2'' 59,
    Nr ''SYS_quotactl'' 60,
    Nr ''SYS_getdents64'' 61,
    Nr ''SYS_lseek'' 62,
    Nr ''SYS_read'' 63,
    Nr ''SYS_write'' 64,
    Nr ''SYS_readv'' 65,
    Nr ''SYS_writev'' 66,
    Nr ''SYS_pread64'' 67,
    Nr ''SYS_pwrite64'' 68,
    Nr ''SYS_preadv'' 69,
    Nr ''SYS_pwritev'' 70,
    Nr ''SYS_sendfile'' 71,
    Nr ''SYS_pselect6'' 72,
    Nr ''SYS_ppoll'' 73,
    Nr ''SYS_signalfd4'' 74,
    Nr ''SYS_vmsplice'' 75,
    Nr ''SYS_splice'' 76,
    Nr ''SYS_tee'' 77,
    Nr ''SYS_readlinkat'' 78]"

definition musl_sys_3 :: "item list" where
  "musl_sys_3 = [
    Nr ''SYS_newfstatat'' 79,
    Nr ''SYS_fstat'' 80,
    Nr ''SYS_sync'' 81,
    Nr ''SYS_fsync'' 82,
    Nr ''SYS_fdatasync'' 83,
    Nr ''SYS_sync_file_range'' 84,
    Nr ''SYS_timerfd_create'' 85,
    Nr ''SYS_timerfd_settime'' 86,
    Nr ''SYS_timerfd_gettime'' 87,
    Nr ''SYS_utimensat'' 88,
    Nr ''SYS_acct'' 89,
    Nr ''SYS_capget'' 90,
    Nr ''SYS_capset'' 91,
    Nr ''SYS_personality'' 92,
    Nr ''SYS_exit'' 93,
    Nr ''SYS_exit_group'' 94,
    Nr ''SYS_waitid'' 95,
    Nr ''SYS_set_tid_address'' 96,
    Nr ''SYS_unshare'' 97,
    Nr ''SYS_futex'' 98,
    Nr ''SYS_set_robust_list'' 99,
    Nr ''SYS_get_robust_list'' 100,
    Nr ''SYS_nanosleep'' 101,
    Nr ''SYS_getitimer'' 102,
    Nr ''SYS_setitimer'' 103,
    Nr ''SYS_kexec_load'' 104,
    Nr ''SYS_init_module'' 105,
    Nr ''SYS_delete_module'' 106,
    Nr ''SYS_timer_create'' 107]"

definition musl_sys_4 :: "item list" where
  "musl_sys_4 = [
    Nr ''SYS_timer_gettime'' 108,
    Nr ''SYS_timer_getoverrun'' 109,
    Nr ''SYS_timer_settime'' 110,
    Nr ''SYS_timer_delete'' 111,
    Nr ''SYS_clock_settime'' 112,
    Nr ''SYS_clock_gettime'' 113,
    Nr ''SYS_clock_getres'' 114,
    Nr ''SYS_clock_nanosleep'' 115,
    Nr ''SYS_syslog'' 116,
    Nr ''SYS_ptrace'' 117,
    Nr ''SYS_sched_setparam'' 118,
    Nr ''SYS_sched_setscheduler'' 119,
    Nr ''SYS_sched_getscheduler'' 120,
    Nr ''SYS_sched_getparam'' 121,
    Nr ''SYS_sched_setaffinity'' 122,
    Nr ''SYS_sched_getaffinity'' 123,
    Nr ''SYS_sched_yield'' 124,
    Nr ''SYS_sched_get_priority_max'' 125,
    Nr ''SYS_sched_get_priority_min'' 126,
    Nr ''SYS_sched_rr_get_interval'' 127,
    Nr ''SYS_restart_syscall'' 128,
    Nr ''SYS_kill'' 129,
    Nr ''SYS_tkill'' 130,
    Nr ''SYS_tgkill'' 131,
    Nr ''SYS_sigaltstack'' 132,
    Nr ''SYS_rt_sigsuspend'' 133,
    Nr ''SYS_rt_sigaction'' 134,
    Nr ''SYS_rt_sigprocmask'' 135,
    Nr ''SYS_rt_sigpending'' 136,
    Nr ''SYS_rt_sigtimedwait'' 137,
    Nr ''SYS_rt_sigqueueinfo'' 138]"

definition musl_sys_5 :: "item list" where
  "musl_sys_5 = [
    Nr ''SYS_rt_sigreturn'' 139,
    Nr ''SYS_setpriority'' 140,
    Nr ''SYS_getpriority'' 141,
    Nr ''SYS_reboot'' 142,
    Nr ''SYS_setregid'' 143,
    Nr ''SYS_setgid'' 144,
    Nr ''SYS_setreuid'' 145,
    Nr ''SYS_setuid'' 146,
    Nr ''SYS_setresuid'' 147,
    Nr ''SYS_getresuid'' 148,
    Nr ''SYS_setresgid'' 149,
    Nr ''SYS_getresgid'' 150,
    Nr ''SYS_setfsuid'' 151,
    Nr ''SYS_setfsgid'' 152,
    Nr ''SYS_times'' 153,
    Nr ''SYS_setpgid'' 154,
    Nr ''SYS_getpgid'' 155,
    Nr ''SYS_getsid'' 156,
    Nr ''SYS_setsid'' 157,
    Nr ''SYS_getgroups'' 158,
    Nr ''SYS_setgroups'' 159,
    Nr ''SYS_uname'' 160,
    Nr ''SYS_sethostname'' 161,
    Nr ''SYS_setdomainname'' 162,
    Nr ''SYS_getrlimit'' 163,
    Nr ''SYS_setrlimit'' 164,
    Nr ''SYS_getrusage'' 165,
    Nr ''SYS_umask'' 166,
    Nr ''SYS_prctl'' 167,
    Nr ''SYS_getcpu'' 168,
    Nr ''SYS_gettimeofday'' 169,
    Nr ''SYS_settimeofday'' 170,
    Nr ''SYS_adjtimex'' 171,
    Nr ''SYS_getpid'' 172,
    Nr ''SYS_getppid'' 173,
    Nr ''SYS_getuid'' 174,
    Nr ''SYS_geteuid'' 175,
    Nr ''SYS_getgid'' 176,
    Nr ''SYS_getegid'' 177,
    Nr ''SYS_gettid'' 178]"

definition musl_sys_6 :: "item list" where
  "musl_sys_6 = [
    Nr ''SYS_sysinfo'' 179,
    Nr ''SYS_mq_open'' 180,
    Nr ''SYS_mq_unlink'' 181,
    Nr ''SYS_mq_timedsend'' 182,
    Nr ''SYS_mq_timedreceive'' 183,
    Nr ''SYS_mq_notify'' 184,
    Nr ''SYS_mq_getsetattr'' 185,
    Nr ''SYS_msgget'' 186,
    Nr ''SYS_msgctl'' 187,
    Nr ''SYS_msgrcv'' 188,
    Nr ''SYS_msgsnd'' 189,
    Nr ''SYS_semget'' 190,
    Nr ''SYS_semctl'' 191,
    Nr ''SYS_semtimedop'' 192,
    Nr ''SYS_semop'' 193,
    Nr ''SYS_shmget'' 194,
    Nr ''SYS_shmctl'' 195,
    Nr ''SYS_shmat'' 196,
    Nr ''SYS_shmdt'' 197,
    Nr ''SYS_socket'' 198,
    Nr ''SYS_socketpair'' 199,
    Nr ''SYS_bind'' 200,
    Nr ''SYS_listen'' 201,
    Nr ''SYS_accept'' 202,
    Nr ''SYS_connect'' 203,
    Nr ''SYS_getsockname'' 204,
    Nr ''SYS_getpeername'' 205,
    Nr ''SYS_sendto'' 206,
    Nr ''SYS_recvfrom'' 207,
    Nr ''SYS_setsockopt'' 208,
    Nr ''SYS_getsockopt'' 209,
    Nr ''SYS_shutdown'' 210,
    Nr ''SYS_sendmsg'' 211,
    Nr ''SYS_recvmsg'' 212,
    Nr ''SYS_readahead'' 213,
    Nr ''SYS_brk'' 214,
    Nr ''SYS_munmap'' 215,
    Nr ''SYS_mremap'' 216,
    Nr ''SYS_add_key'' 217,
    Nr ''SYS_request_key'' 218]"

definition musl_sys_7 :: "item list" where
  "musl_sys_7 = [
    Nr ''SYS_keyctl'' 219,
    Nr ''SYS_clone'' 220,
    Nr ''SYS_execve'' 221,
    Nr ''SYS_mmap'' 222,
    Nr ''SYS_fadvise64'' 223,
    Nr ''SYS_swapon'' 224,
    Nr ''SYS_swapoff'' 225,
    Nr ''SYS_mprotect'' 226,
    Nr ''SYS_msync'' 227,
    Nr ''SYS_mlock'' 228,
    Nr ''SYS_munlock'' 229,
    Nr ''SYS_mlockall'' 230,
    Nr ''SYS_munlockall'' 231,
    Nr ''SYS_mincore'' 232,
    Nr ''SYS_madvise'' 233,
    Nr ''SYS_remap_file_pages'' 234,
    Nr ''SYS_mbind'' 235,
    Nr ''SYS_get_mempolicy'' 236,
    Nr ''SYS_set_mempolicy'' 237,
    Nr ''SYS_migrate_pages'' 238,
    Nr ''SYS_move_pages'' 239,
    Nr ''SYS_rt_tgsigqueueinfo'' 240,
    Nr ''SYS_perf_event_open'' 241,
    Nr ''SYS_accept4'' 242,
    Nr ''SYS_recvmmsg'' 243,
    Nr ''SYS_arch_specific_syscall'' 244,
    Nr ''SYS_wait4'' 260,
    Nr ''SYS_prlimit64'' 261,
    Nr ''SYS_fanotify_init'' 262,
    Nr ''SYS_fanotify_mark'' 263,
    Nr ''SYS_name_to_handle_at'' 264,
    Nr ''SYS_open_by_handle_at'' 265,
    Nr ''SYS_clock_adjtime'' 266,
    Nr ''SYS_syncfs'' 267]"

definition musl_sys_8 :: "item list" where
  "musl_sys_8 = [
    Nr ''SYS_setns'' 268,
    Nr ''SYS_sendmmsg'' 269,
    Nr ''SYS_process_vm_readv'' 270,
    Nr ''SYS_process_vm_writev'' 271,
    Nr ''SYS_kcmp'' 272,
    Nr ''SYS_finit_module'' 273,
    Nr ''SYS_sched_setattr'' 274,
    Nr ''SYS_sched_getattr'' 275,
    Nr ''SYS_renameat2'' 276,
    Nr ''SYS_seccomp'' 277,
    Nr ''SYS_getrandom'' 278,
    Nr ''SYS_memfd_create'' 279,
    Nr ''SYS_bpf'' 280,
    Nr ''SYS_execveat'' 281,
    Nr ''SYS_userfaultfd'' 282,
    Nr ''SYS_membarrier'' 283,
    Nr ''SYS_mlock2'' 284,
    Nr ''SYS_copy_file_range'' 285,
    Nr ''SYS_preadv2'' 286,
    Nr ''SYS_pwritev2'' 287,
    Nr ''SYS_pkey_mprotect'' 288,
    Nr ''SYS_pkey_alloc'' 289,
    Nr ''SYS_pkey_free'' 290,
    Nr ''SYS_statx'' 291,
    Nr ''SYS_io_pgetevents'' 292,
    Nr ''SYS_rseq'' 293,
    Nr ''SYS_kexec_file_load'' 294]"

definition musl_sys_9 :: "item list" where
  "musl_sys_9 = [
    Nr ''SYS_pidfd_send_signal'' 424,
    Nr ''SYS_io_uring_setup'' 425,
    Nr ''SYS_io_uring_enter'' 426,
    Nr ''SYS_io_uring_register'' 427,
    Nr ''SYS_open_tree'' 428,
    Nr ''SYS_move_mount'' 429,
    Nr ''SYS_fsopen'' 430,
    Nr ''SYS_fsconfig'' 431,
    Nr ''SYS_fsmount'' 432,
    Nr ''SYS_fspick'' 433,
    Nr ''SYS_pidfd_open'' 434,
    Nr ''SYS_clone3'' 435,
    Nr ''SYS_close_range'' 436,
    Nr ''SYS_openat2'' 437,
    Nr ''SYS_pidfd_getfd'' 438,
    Nr ''SYS_faccessat2'' 439,
    Nr ''SYS_process_madvise'' 440,
    Nr ''SYS_epoll_pwait2'' 441,
    Nr ''SYS_mount_setattr'' 442,
    Nr ''SYS_quotactl_fd'' 443,
    Nr ''SYS_landlock_create_ruleset'' 444]"

definition musl_sys_10 :: "item list" where
  "musl_sys_10 = [
    Nr ''SYS_landlock_add_rule'' 445,
    Nr ''SYS_landlock_restrict_self'' 446,
    Nr ''SYS_memfd_secret'' 447,
    Nr ''SYS_process_mrelease'' 448,
    Nr ''SYS_futex_waitv'' 449,
    Nr ''SYS_set_mempolicy_home_node'' 450,
    Nr ''SYS_cachestat'' 451,
    Nr ''SYS_fchmodat2'' 452,
    Nr ''SYS_map_shadow_stack'' 453,
    Nr ''SYS_futex_wake'' 454,
    Nr ''SYS_futex_wait'' 455,
    Nr ''SYS_futex_requeue'' 456,
    Nr ''SYS_statmount'' 457,
    Nr ''SYS_listmount'' 458,
    Nr ''SYS_lsm_get_self_attr'' 459,
    Nr ''SYS_lsm_set_self_attr'' 460,
    Nr ''SYS_lsm_list_modules'' 461]"

definition musl_sys_11 :: "item list" where
  "musl_sys_11 = [
    Nr ''SYS_mseal'' 462,
    Nr ''SYS_setxattrat'' 463,
    Nr ''SYS_getxattrat'' 464,
    Nr ''SYS_listxattrat'' 465,
    Nr ''SYS_removexattrat'' 466,
    Nr ''SYS_open_tree_attr'' 467,
    Nr ''SYS_file_getattr'' 468,
    Nr ''SYS_file_setattr'' 469,
    Nr ''SYS_listns'' 470,
    Alias ''SYS_sysriscv'' ''__NR_arch_specific_syscall'',
    Plus ''SYS_riscv_flush_icache'' ''__NR_sysriscv'' 15,
    Plus ''SYS_riscv_hwprobe'' ''__NR_sysriscv'' 14]"

definition musl_nr :: "item list" where "musl_nr = musl_nr_1 @ musl_nr_2 @ musl_nr_3 @ musl_nr_4 @ musl_nr_5 @ musl_nr_6 @ musl_nr_7 @ musl_nr_8 @ musl_nr_9 @ musl_nr_10 @ musl_nr_11"
definition musl_sys :: "item list" where "musl_sys = musl_sys_1 @ musl_sys_2 @ musl_sys_3 @ musl_sys_4 @ musl_sys_5 @ musl_sys_6 @ musl_sys_7 @ musl_sys_8 @ musl_sys_9 @ musl_sys_10 @ musl_sys_11"

section \<open>The error numbers\<close>

definition musl_errno_1 :: "item list" where
  "musl_errno_1 = [
    Nr ''EPERM'' 1,
    Nr ''ENOENT'' 2,
    Nr ''ESRCH'' 3,
    Nr ''EINTR'' 4,
    Nr ''EIO'' 5,
    Nr ''ENXIO'' 6,
    Nr ''E2BIG'' 7,
    Nr ''ENOEXEC'' 8,
    Nr ''EBADF'' 9,
    Nr ''ECHILD'' 10,
    Nr ''EAGAIN'' 11,
    Nr ''ENOMEM'' 12,
    Nr ''EACCES'' 13,
    Nr ''EFAULT'' 14,
    Nr ''ENOTBLK'' 15,
    Nr ''EBUSY'' 16,
    Nr ''EEXIST'' 17,
    Nr ''EXDEV'' 18,
    Nr ''ENODEV'' 19,
    Nr ''ENOTDIR'' 20,
    Nr ''EISDIR'' 21,
    Nr ''EINVAL'' 22,
    Nr ''ENFILE'' 23,
    Nr ''EMFILE'' 24,
    Nr ''ENOTTY'' 25,
    Nr ''ETXTBSY'' 26,
    Nr ''EFBIG'' 27,
    Nr ''ENOSPC'' 28,
    Nr ''ESPIPE'' 29,
    Nr ''EROFS'' 30,
    Nr ''EMLINK'' 31,
    Nr ''EPIPE'' 32,
    Nr ''EDOM'' 33,
    Nr ''ERANGE'' 34,
    Nr ''EDEADLK'' 35,
    Nr ''ENAMETOOLONG'' 36,
    Nr ''ENOLCK'' 37,
    Nr ''ENOSYS'' 38,
    Nr ''ENOTEMPTY'' 39,
    Nr ''ELOOP'' 40,
    Alias ''EWOULDBLOCK'' ''EAGAIN'',
    Nr ''ENOMSG'' 42,
    Nr ''EIDRM'' 43,
    Nr ''ECHRNG'' 44,
    Nr ''EL2NSYNC'' 45,
    Nr ''EL3HLT'' 46,
    Nr ''EL3RST'' 47,
    Nr ''ELNRNG'' 48,
    Nr ''EUNATCH'' 49,
    Nr ''ENOCSI'' 50,
    Nr ''EL2HLT'' 51,
    Nr ''EBADE'' 52,
    Nr ''EBADR'' 53,
    Nr ''EXFULL'' 54,
    Nr ''ENOANO'' 55,
    Nr ''EBADRQC'' 56,
    Nr ''EBADSLT'' 57,
    Alias ''EDEADLOCK'' ''EDEADLK'',
    Nr ''EBFONT'' 59,
    Nr ''ENOSTR'' 60,
    Nr ''ENODATA'' 61,
    Nr ''ETIME'' 62,
    Nr ''ENOSR'' 63,
    Nr ''ENONET'' 64,
    Nr ''ENOPKG'' 65,
    Nr ''EREMOTE'' 66,
    Nr ''ENOLINK'' 67,
    Nr ''EADV'' 68,
    Nr ''ESRMNT'' 69,
    Nr ''ECOMM'' 70,
    Nr ''EPROTO'' 71,
    Nr ''EMULTIHOP'' 72,
    Nr ''EDOTDOT'' 73,
    Nr ''EBADMSG'' 74,
    Nr ''EOVERFLOW'' 75,
    Nr ''ENOTUNIQ'' 76,
    Nr ''EBADFD'' 77,
    Nr ''EREMCHG'' 78,
    Nr ''ELIBACC'' 79,
    Nr ''ELIBBAD'' 80,
    Nr ''ELIBSCN'' 81,
    Nr ''ELIBMAX'' 82,
    Nr ''ELIBEXEC'' 83,
    Nr ''EILSEQ'' 84,
    Nr ''ERESTART'' 85,
    Nr ''ESTRPIPE'' 86,
    Nr ''EUSERS'' 87,
    Nr ''ENOTSOCK'' 88,
    Nr ''EDESTADDRREQ'' 89,
    Nr ''EMSGSIZE'' 90,
    Nr ''EPROTOTYPE'' 91,
    Nr ''ENOPROTOOPT'' 92,
    Nr ''EPROTONOSUPPORT'' 93,
    Nr ''ESOCKTNOSUPPORT'' 94,
    Nr ''EOPNOTSUPP'' 95,
    Alias ''ENOTSUP'' ''EOPNOTSUPP'',
    Nr ''EPFNOSUPPORT'' 96,
    Nr ''EAFNOSUPPORT'' 97,
    Nr ''EADDRINUSE'' 98,
    Nr ''EADDRNOTAVAIL'' 99,
    Nr ''ENETDOWN'' 100,
    Nr ''ENETUNREACH'' 101,
    Nr ''ENETRESET'' 102,
    Nr ''ECONNABORTED'' 103,
    Nr ''ECONNRESET'' 104,
    Nr ''ENOBUFS'' 105,
    Nr ''EISCONN'' 106,
    Nr ''ENOTCONN'' 107,
    Nr ''ESHUTDOWN'' 108,
    Nr ''ETOOMANYREFS'' 109,
    Nr ''ETIMEDOUT'' 110,
    Nr ''ECONNREFUSED'' 111,
    Nr ''EHOSTDOWN'' 112,
    Nr ''EHOSTUNREACH'' 113,
    Nr ''EALREADY'' 114,
    Nr ''EINPROGRESS'' 115,
    Nr ''ESTALE'' 116,
    Nr ''EUCLEAN'' 117,
    Nr ''ENOTNAM'' 118,
    Nr ''ENAVAIL'' 119,
    Nr ''EISNAM'' 120,
    Nr ''EREMOTEIO'' 121,
    Nr ''EDQUOT'' 122,
    Nr ''ENOMEDIUM'' 123,
    Nr ''EMEDIUMTYPE'' 124,
    Nr ''ECANCELED'' 125,
    Nr ''ENOKEY'' 126,
    Nr ''EKEYEXPIRED'' 127,
    Nr ''EKEYREVOKED'' 128,
    Nr ''EKEYREJECTED'' 129,
    Nr ''EOWNERDEAD'' 130,
    Nr ''ENOTRECOVERABLE'' 131,
    Nr ''ERFKILL'' 132,
    Nr ''EHWPOISON'' 133]"

definition linux_errno_base_1 :: "item list" where
  "linux_errno_base_1 = [
    Nr ''EPERM'' 1,
    Nr ''ENOENT'' 2,
    Nr ''ESRCH'' 3,
    Nr ''EINTR'' 4,
    Nr ''EIO'' 5,
    Nr ''ENXIO'' 6,
    Nr ''E2BIG'' 7,
    Nr ''ENOEXEC'' 8,
    Nr ''EBADF'' 9,
    Nr ''ECHILD'' 10,
    Nr ''EAGAIN'' 11,
    Nr ''ENOMEM'' 12,
    Nr ''EACCES'' 13,
    Nr ''EFAULT'' 14,
    Nr ''ENOTBLK'' 15,
    Nr ''EBUSY'' 16,
    Nr ''EEXIST'' 17,
    Nr ''EXDEV'' 18,
    Nr ''ENODEV'' 19,
    Nr ''ENOTDIR'' 20,
    Nr ''EISDIR'' 21,
    Nr ''EINVAL'' 22,
    Nr ''ENFILE'' 23,
    Nr ''EMFILE'' 24,
    Nr ''ENOTTY'' 25,
    Nr ''ETXTBSY'' 26,
    Nr ''EFBIG'' 27,
    Nr ''ENOSPC'' 28,
    Nr ''ESPIPE'' 29,
    Nr ''EROFS'' 30,
    Nr ''EMLINK'' 31,
    Nr ''EPIPE'' 32,
    Nr ''EDOM'' 33,
    Nr ''ERANGE'' 34]"

definition linux_errno_1 :: "item list" where
  "linux_errno_1 = [
    Nr ''EDEADLK'' 35,
    Nr ''ENAMETOOLONG'' 36,
    Nr ''ENOLCK'' 37,
    Nr ''ENOSYS'' 38,
    Nr ''ENOTEMPTY'' 39,
    Nr ''ELOOP'' 40,
    Alias ''EWOULDBLOCK'' ''EAGAIN'',
    Nr ''ENOMSG'' 42,
    Nr ''EIDRM'' 43,
    Nr ''ECHRNG'' 44,
    Nr ''EL2NSYNC'' 45,
    Nr ''EL3HLT'' 46,
    Nr ''EL3RST'' 47,
    Nr ''ELNRNG'' 48,
    Nr ''EUNATCH'' 49,
    Nr ''ENOCSI'' 50,
    Nr ''EL2HLT'' 51,
    Nr ''EBADE'' 52,
    Nr ''EBADR'' 53,
    Nr ''EXFULL'' 54,
    Nr ''ENOANO'' 55,
    Nr ''EBADRQC'' 56,
    Nr ''EBADSLT'' 57,
    Alias ''EDEADLOCK'' ''EDEADLK'',
    Nr ''EBFONT'' 59,
    Nr ''ENOSTR'' 60,
    Nr ''ENODATA'' 61,
    Nr ''ETIME'' 62,
    Nr ''ENOSR'' 63,
    Nr ''ENONET'' 64,
    Nr ''ENOPKG'' 65,
    Nr ''EREMOTE'' 66,
    Nr ''ENOLINK'' 67,
    Nr ''EADV'' 68,
    Nr ''ESRMNT'' 69,
    Nr ''ECOMM'' 70,
    Nr ''EPROTO'' 71,
    Nr ''EMULTIHOP'' 72,
    Nr ''EDOTDOT'' 73,
    Nr ''EBADMSG'' 74,
    Nr ''EOVERFLOW'' 75,
    Nr ''ENOTUNIQ'' 76,
    Nr ''EBADFD'' 77,
    Nr ''EREMCHG'' 78,
    Nr ''ELIBACC'' 79,
    Nr ''ELIBBAD'' 80,
    Nr ''ELIBSCN'' 81,
    Nr ''ELIBMAX'' 82,
    Nr ''ELIBEXEC'' 83,
    Nr ''EILSEQ'' 84,
    Nr ''ERESTART'' 85,
    Nr ''ESTRPIPE'' 86,
    Nr ''EUSERS'' 87,
    Nr ''ENOTSOCK'' 88,
    Nr ''EDESTADDRREQ'' 89,
    Nr ''EMSGSIZE'' 90,
    Nr ''EPROTOTYPE'' 91,
    Nr ''ENOPROTOOPT'' 92,
    Nr ''EPROTONOSUPPORT'' 93,
    Nr ''ESOCKTNOSUPPORT'' 94,
    Nr ''EOPNOTSUPP'' 95,
    Nr ''EPFNOSUPPORT'' 96,
    Nr ''EAFNOSUPPORT'' 97,
    Nr ''EADDRINUSE'' 98,
    Nr ''EADDRNOTAVAIL'' 99,
    Nr ''ENETDOWN'' 100,
    Nr ''ENETUNREACH'' 101,
    Nr ''ENETRESET'' 102,
    Nr ''ECONNABORTED'' 103,
    Nr ''ECONNRESET'' 104,
    Nr ''ENOBUFS'' 105,
    Nr ''EISCONN'' 106,
    Nr ''ENOTCONN'' 107,
    Nr ''ESHUTDOWN'' 108,
    Nr ''ETOOMANYREFS'' 109,
    Nr ''ETIMEDOUT'' 110,
    Nr ''ECONNREFUSED'' 111,
    Nr ''EHOSTDOWN'' 112,
    Nr ''EHOSTUNREACH'' 113,
    Nr ''EALREADY'' 114,
    Nr ''EINPROGRESS'' 115,
    Nr ''ESTALE'' 116,
    Nr ''EUCLEAN'' 117,
    Nr ''ENOTNAM'' 118,
    Nr ''ENAVAIL'' 119,
    Nr ''EISNAM'' 120,
    Nr ''EREMOTEIO'' 121,
    Nr ''EDQUOT'' 122,
    Nr ''ENOMEDIUM'' 123,
    Nr ''EMEDIUMTYPE'' 124,
    Nr ''ECANCELED'' 125,
    Nr ''ENOKEY'' 126,
    Nr ''EKEYEXPIRED'' 127,
    Nr ''EKEYREVOKED'' 128,
    Nr ''EKEYREJECTED'' 129,
    Nr ''EOWNERDEAD'' 130,
    Nr ''ENOTRECOVERABLE'' 131,
    Nr ''ERFKILL'' 132,
    Nr ''EHWPOISON'' 133]"

section \<open>What the directives define\<close>

fun numbers :: "item list \<Rightarrow> (string \<times> nat) list" where
  "numbers [] = []"
| "numbers (Def n (Num v) # xs) = (n, v) # numbers xs"
| "numbers (x # xs) = numbers xs"

fun aliases :: "item list \<Rightarrow> (string \<times> string) list" where
  "aliases [] = []"
| "aliases (Def n (Ref m) # xs) = (m, n) # aliases xs"
| "aliases (x # xs) = aliases xs"

text \<open>The public name of a number: the width-neutral \<open>__NR3264_x\<close> is published under the name that the
  last block of the header gives it.\<close>

fun public_name :: "(string \<times> string) list \<Rightarrow> string \<Rightarrow> string" where
  "public_name [] n = n"
| "public_name ((m, a) # as) n = (if n = m then a else public_name as n)"

definition published :: "item list \<Rightarrow> (string \<times> nat) list" where
  "published xs = map (apfst (public_name (aliases xs))) (numbers xs)"

lemma numbers_append [simp]: "numbers (xs @ ys) = numbers xs @ numbers ys"
  by (induction xs rule: numbers.induct) simp_all

lemma aliases_append [simp]: "aliases (xs @ ys) = aliases xs @ aliases ys"
  by (induction xs rule: aliases.induct) simp_all

lemma numbers_if [simp]: "numbers (if b then xs else ys) = (if b then numbers xs else numbers ys)"
  by simp

text \<open>The neutral names and their 64-bit public names.\<close>

definition neutral :: "(string \<times> string) list" where
  "neutral = aliases (unistd_11 rv64_config)"

lemma aliases_unistd: "aliases (unistd rv64_config) = neutral"
  unfolding unistd_def neutral_def aliases_append
  by (simp add: unistd_1_def unistd_2_def unistd_3_def unistd_4_def unistd_5_def unistd_6_def
      unistd_7_def unistd_8_def unistd_9_def unistd_10_def rv64_config_def abi_def)

lemmas header_simps = abi_def rv64_config_def apfst_def map_prod_def

lemma segment_1: "map (apfst (public_name neutral)) (numbers (unistd_1 rv64_config)) = numbers musl_nr_1"
  by (simp add: unistd_1_def musl_nr_1_def neutral_def unistd_11_def header_simps)

lemma segment_2: "map (apfst (public_name neutral)) (numbers (unistd_2 rv64_config)) = numbers musl_nr_2"
  by (simp add: unistd_2_def musl_nr_2_def neutral_def unistd_11_def header_simps)

lemma segment_3: "map (apfst (public_name neutral)) (numbers (unistd_3 rv64_config)) = numbers musl_nr_3"
  by (simp add: unistd_3_def musl_nr_3_def neutral_def unistd_11_def header_simps)

lemma segment_4: "map (apfst (public_name neutral)) (numbers (unistd_4 rv64_config)) = numbers musl_nr_4"
  by (simp add: unistd_4_def musl_nr_4_def neutral_def unistd_11_def header_simps)

lemma segment_5: "map (apfst (public_name neutral)) (numbers (unistd_5 rv64_config)) = numbers musl_nr_5"
  by (simp add: unistd_5_def musl_nr_5_def neutral_def unistd_11_def header_simps)

lemma segment_6: "map (apfst (public_name neutral)) (numbers (unistd_6 rv64_config)) = numbers musl_nr_6"
  by (simp add: unistd_6_def musl_nr_6_def neutral_def unistd_11_def header_simps)

lemma segment_7: "map (apfst (public_name neutral)) (numbers (unistd_7 rv64_config)) = numbers musl_nr_7"
  by (simp add: unistd_7_def musl_nr_7_def neutral_def unistd_11_def header_simps)

lemma segment_8: "map (apfst (public_name neutral)) (numbers (unistd_8 rv64_config)) = numbers musl_nr_8"
  by (simp add: unistd_8_def musl_nr_8_def neutral_def unistd_11_def header_simps)

lemma segment_9: "map (apfst (public_name neutral)) (numbers (unistd_9 rv64_config)) = numbers musl_nr_9"
  by (simp add: unistd_9_def musl_nr_9_def neutral_def unistd_11_def header_simps)

lemma segment_10: "map (apfst (public_name neutral)) (numbers (unistd_10 rv64_config)) = numbers musl_nr_10 @ [(''__NR_syscalls'', 462)]"
  by (simp add: unistd_10_def musl_nr_10_def neutral_def unistd_11_def header_simps)

lemmas segments = segment_1 segment_2 segment_3 segment_4 segment_5 segment_6 segment_7 segment_8 segment_9 segment_10

text \<open>C40 The C library and the kernel headers agree on the system call table: the numbers that the
  generic header publishes for a 64-bit RISC-V guest are, name by name and in order, the C library's
  numbers below 462. The C library's later names are unknown to the header, whose end mark is 462.\<close>

theorem syscall_numbers_agree:
  "published (unistd rv64_config) =
     numbers (musl_nr_1 @ musl_nr_2 @ musl_nr_3 @ musl_nr_4 @ musl_nr_5 @ musl_nr_6 @ musl_nr_7 @ musl_nr_8 @
       musl_nr_9 @ musl_nr_10) @ [(''__NR_syscalls'', 462)] \<and>
   musl_nr = (musl_nr_1 @ musl_nr_2 @ musl_nr_3 @ musl_nr_4 @ musl_nr_5 @ musl_nr_6 @ musl_nr_7 @ musl_nr_8 @
       musl_nr_9 @ musl_nr_10) @ musl_nr_11 \<and>
   hd (numbers musl_nr_11) = (''__NR_mseal'', 462)"
proof -
  have "numbers (unistd_11 rv64_config) = []"
    by (simp add: unistd_11_def rv64_config_def)
  then show ?thesis
    unfolding published_def aliases_unistd
    by (simp add: unistd_def musl_nr_def segments musl_nr_11_def)
qed

section \<open>Numbers are used once\<close>

fun ascending :: "nat \<Rightarrow> nat list \<Rightarrow> nat \<Rightarrow> bool" where
  "ascending lo [] hi \<longleftrightarrow> lo \<le> hi"
| "ascending lo (x # xs) hi \<longleftrightarrow> lo \<le> x \<and> ascending (x + 1) xs hi"

lemma ascending_append: "ascending lo xs mid \<Longrightarrow> ascending mid ys hi \<Longrightarrow> ascending lo (xs @ ys) hi"
proof (induction xs arbitrary: lo)
  case Nil
  have "lo \<le> mid \<Longrightarrow> ascending mid ys hi \<Longrightarrow> ascending lo ys hi" for lo by (cases ys) auto
  then show ?case using Nil by simp
qed simp

lemma ascending_sorted: "ascending lo xs hi \<Longrightarrow> sorted_wrt (<) xs \<and> (\<forall>x \<in> set xs. lo \<le> x \<and> x < hi)"
proof (induction xs arbitrary: lo)
  case (Cons x xs)
  have "ascending lo xs hi \<Longrightarrow> lo \<le> hi" for lo xs by (induction xs arbitrary: lo) (auto, fastforce)
  with Cons show ?case by fastforce
qed simp

lemma ascending_1: "ascending 0 (map snd (numbers musl_nr_1)) 40"
  by (simp add: musl_nr_1_def)

lemma ascending_2: "ascending 40 (map snd (numbers musl_nr_2)) 79"
  by (simp add: musl_nr_2_def)

lemma ascending_3: "ascending 79 (map snd (numbers musl_nr_3)) 108"
  by (simp add: musl_nr_3_def)

lemma ascending_4: "ascending 108 (map snd (numbers musl_nr_4)) 139"
  by (simp add: musl_nr_4_def)

lemma ascending_5: "ascending 139 (map snd (numbers musl_nr_5)) 179"
  by (simp add: musl_nr_5_def)

lemma ascending_6: "ascending 179 (map snd (numbers musl_nr_6)) 219"
  by (simp add: musl_nr_6_def)

lemma ascending_7: "ascending 219 (map snd (numbers musl_nr_7)) 268"
  by (simp add: musl_nr_7_def)

lemma ascending_8: "ascending 268 (map snd (numbers musl_nr_8)) 295"
  by (simp add: musl_nr_8_def)

lemma ascending_9: "ascending 295 (map snd (numbers musl_nr_9)) 445"
  by (simp add: musl_nr_9_def)

lemma ascending_10: "ascending 445 (map snd (numbers musl_nr_10)) 462"
  by (simp add: musl_nr_10_def)

lemma ascending_11: "ascending 462 (map snd (numbers musl_nr_11)) 471"
  by (simp add: musl_nr_11_def)

text \<open>No system call number of the C library is given to two names, and every number is below 471.\<close>

theorem syscall_numbers_unique:
  "distinct (map snd (numbers musl_nr)) \<and> (\<forall>n \<in> set (map snd (numbers musl_nr)). n < 471)"
proof -
  have "ascending 0 (map snd (numbers musl_nr)) 471"
    unfolding musl_nr_def numbers_append map_append
    by (intro ascending_append [OF ascending_1] ascending_append [OF ascending_2] ascending_append [OF ascending_3] ascending_append [OF ascending_4] ascending_append [OF ascending_5] ascending_append [OF ascending_6] ascending_append [OF ascending_7] ascending_append [OF ascending_8] ascending_append [OF ascending_9] ascending_append [OF ascending_10] ascending_11)
  from ascending_sorted [OF this] show ?thesis
    by (simp add: strict_sorted_iff)
qed

theorem syscall_numbers_unique_witness: "snd (hd (numbers musl_nr)) < 471"
proof -
  have "hd (numbers musl_nr) \<in> set (numbers musl_nr)" by (simp add: musl_nr_def musl_nr_1_def)
  then show ?thesis using syscall_numbers_unique by simp
qed

section \<open>The two spellings of the C library\<close>

fun sys_spelling :: "item \<Rightarrow> item" where
  "sys_spelling (Def n b) = Def (''SYS_'' @ drop 5 n) b"
| "sys_spelling x = x"

lemma spelling_1: "map sys_spelling musl_nr_1 = musl_sys_1"
  by (simp add: musl_nr_1_def musl_sys_1_def)

lemma spelling_2: "map sys_spelling musl_nr_2 = musl_sys_2"
  by (simp add: musl_nr_2_def musl_sys_2_def)

lemma spelling_3: "map sys_spelling musl_nr_3 = musl_sys_3"
  by (simp add: musl_nr_3_def musl_sys_3_def)

lemma spelling_4: "map sys_spelling musl_nr_4 = musl_sys_4"
  by (simp add: musl_nr_4_def musl_sys_4_def)

lemma spelling_5: "map sys_spelling musl_nr_5 = musl_sys_5"
  by (simp add: musl_nr_5_def musl_sys_5_def)

lemma spelling_6: "map sys_spelling musl_nr_6 = musl_sys_6"
  by (simp add: musl_nr_6_def musl_sys_6_def)

lemma spelling_7: "map sys_spelling musl_nr_7 = musl_sys_7"
  by (simp add: musl_nr_7_def musl_sys_7_def)

lemma spelling_8: "map sys_spelling musl_nr_8 = musl_sys_8"
  by (simp add: musl_nr_8_def musl_sys_8_def)

lemma spelling_9: "map sys_spelling musl_nr_9 = musl_sys_9"
  by (simp add: musl_nr_9_def musl_sys_9_def)

lemma spelling_10: "map sys_spelling musl_nr_10 = musl_sys_10"
  by (simp add: musl_nr_10_def musl_sys_10_def)

lemma spelling_11: "map sys_spelling musl_nr_11 = musl_sys_11"
  by (simp add: musl_nr_11_def musl_sys_11_def)

text \<open>Every \<open>SYS_\<close> macro of the C library is the \<open>__NR_\<close> macro of the same name, in the same order.\<close>

theorem syscall_spellings: "map sys_spelling musl_nr = musl_sys"
  unfolding musl_nr_def musl_sys_def map_append
  by (simp only: spelling_1 spelling_2 spelling_3 spelling_4 spelling_5 spelling_6 spelling_7 spelling_8 spelling_9 spelling_10 spelling_11)

section \<open>Every number has its kernel function\<close>

fun entries :: "item list \<Rightarrow> (string \<times> string) list" where
  "entries [] = []"
| "entries (Entry n f # xs) = (n, f) # entries xs"
| "entries (x # xs) = entries xs"

lemma entries_append [simp]: "entries (xs @ ys) = entries xs @ entries ys"
  by (induction xs rule: entries.induct) simp_all

lemma sc_entry [simp]:
  "map fst (entries (SYSCALL nr f # xs)) = nr # map fst (entries xs)"
  "map fst (entries (SC_3264 c nr f g # xs)) = nr # map fst (entries xs)"
  "map fst (entries (SC_COMP c nr f g # xs)) = nr # map fst (entries xs)"
  "map fst (entries (SC_COMP_3264 c nr f g h # xs)) = nr # map fst (entries xs)"
  "numbers (SYSCALL nr f # xs) = numbers xs" "numbers (SC_3264 c nr f g # xs) = numbers xs"
  "numbers (SC_COMP c nr f g # xs) = numbers xs" "numbers (SC_COMP_3264 c nr f g h # xs) = numbers xs"
  by (simp_all add: abi_def)

definition served :: "item list \<Rightarrow> bool" where
  "served xs \<longleftrightarrow> map fst (entries xs) =
     filter (\<lambda>n. n \<noteq> ''__NR_arch_specific_syscall'' \<and> n \<noteq> ''__NR_syscalls'') (map fst (numbers xs))"

lemma served_append: "served xs \<Longrightarrow> served ys \<Longrightarrow> served (xs @ ys)"
  by (simp add: served_def)

lemma served_if: "served xs \<Longrightarrow> served ys \<Longrightarrow> served (if b then xs else ys)"
  by simp

lemma served_1: "served (unistd_1 c)"
  unfolding unistd_1_def by (intro served_append served_if) (simp_all add: served_def)

lemma served_2: "served (unistd_2 c)"
  unfolding unistd_2_def by (intro served_append served_if) (simp_all add: served_def)

lemma served_3: "served (unistd_3 c)"
  unfolding unistd_3_def by (intro served_append served_if) (simp_all add: served_def)

lemma served_4: "served (unistd_4 c)"
  unfolding unistd_4_def by (intro served_append served_if) (simp_all add: served_def)

lemma served_5: "served (unistd_5 c)"
  unfolding unistd_5_def by (intro served_append served_if) (simp_all add: served_def)

lemma served_6: "served (unistd_6 c)"
  unfolding unistd_6_def by (intro served_append served_if) (simp_all add: served_def)

lemma served_7: "served (unistd_7 c)"
  unfolding unistd_7_def by (intro served_append served_if) (simp_all add: served_def)

lemma served_8: "served (unistd_8 c)"
  unfolding unistd_8_def by (intro served_append served_if) (simp_all add: served_def)

lemma served_9: "served (unistd_9 c)"
  unfolding unistd_9_def by (intro served_append served_if) (simp_all add: served_def)

lemma served_10: "served (unistd_10 c)"
  unfolding unistd_10_def by (intro served_append served_if) (simp_all add: served_def)

lemma served_11: "served (unistd_11 c)"
  unfolding unistd_11_def by (intro served_append served_if) (simp_all add: served_def)

text \<open>Whatever the configuration, the header names a kernel function for exactly the numbers it defines,
  in their order; only the mark of the architecture's own calls and the end mark have none.\<close>

theorem syscall_table_complete: "served (unistd c)"
  unfolding unistd_def by (intro served_append served_1 served_2 served_3 served_4 served_5 served_6 served_7 served_8 served_9 served_10 served_11)

end
