(* ===== verification/Kerr.thy ===== *)
theory Kerr
  imports Prelude
begin

text \<open>
  Errors of the kernel (\<^verbatim>\<open>src/src/core/err.ts\<close>) and the computations that raise them. An operation of
  the kernel maps its state to an outcome and a state; \<^verbatim>\<open>bad\<close> raises, and what was assigned before
  the raise stays assigned, as with a JavaScript exception.
\<close>

section \<open>Error codes\<close>

datatype errno =
    EACCES | EAGAIN | EBADF | EBUSY | ECHILD | EEXIST
  | EFAULT | EFBIG | EINTR | EINVAL | EIO | EISDIR | ELOOP | EMFILE
  | ENAMETOOLONG | ENFILE | ENOENT | ENOEXEC | ENOMEM
  | ENETUNREACH | ENOSPC | ENOSYS | ENOTDIR | ENOTEMPTY | ENOTSUP
  | EPERM | EPIPE | EPROTO | ERANGE | EROFS | ESRCH | ETIMEDOUT

text \<open>The numbers under which \<^verbatim>\<open>src/src/vm/rv64.ts\<close> reports them to a guest.\<close>

fun eno :: "errno \<Rightarrow> nat" where
  "eno EPERM = 1" | "eno ENOENT = 2" | "eno ESRCH = 3" | "eno EINTR = 4" | "eno EIO = 5"
| "eno ECHILD = 10" | "eno EAGAIN = 11" | "eno ENOMEM = 12" | "eno EACCES = 13" | "eno EFAULT = 14"
| "eno EBUSY = 16" | "eno EEXIST = 17" | "eno ENOTDIR = 20" | "eno EISDIR = 21" | "eno EINVAL = 22"
| "eno ENFILE = 23" | "eno EMFILE = 24" | "eno EFBIG = 27" | "eno ENOSPC = 28" | "eno EPIPE = 32"
| "eno ERANGE = 34" | "eno ENAMETOOLONG = 36" | "eno ENOSYS = 38" | "eno ENOTEMPTY = 39"
| "eno ELOOP = 40" | "eno ENOEXEC = 8" | "eno EBADF = 9" | "eno EPROTO = 71" | "eno ENOTSUP = 95"
| "eno ENETUNREACH = 101" | "eno ETIMEDOUT = 110" | "eno EROFS = 30"

lemma eno_inj: "eno a = eno b \<Longrightarrow> a = b"
  by (cases a; cases b; simp)

instantiation errno :: linorder
begin

definition less_eq_errno :: "errno \<Rightarrow> errno \<Rightarrow> bool" where "a \<le> b \<longleftrightarrow> eno a \<le> eno b"
definition less_errno :: "errno \<Rightarrow> errno \<Rightarrow> bool" where "a < b \<longleftrightarrow> eno a < eno b"

instance
  by standard (auto simp: less_eq_errno_def less_errno_def eno_inj)

end

section \<open>Computations\<close>

type_synonym ('s, 'a) kop = "'s \<Rightarrow> (errno + 'a) \<times> 's"

definition ret :: "'a \<Rightarrow> ('s, 'a) kop" where
  "ret x s = (Inr x, s)"

definition bad :: "errno \<Rightarrow> ('s, 'a) kop" where
  "bad e s = (Inl e, s)"

definition bnd :: "('s, 'a) kop \<Rightarrow> ('a \<Rightarrow> ('s, 'b) kop) \<Rightarrow> ('s, 'b) kop" where
  "bnd m f s = (case m s of (Inl e, s') \<Rightarrow> (Inl e, s') | (Inr x, s') \<Rightarrow> f x s')"

definition catch :: "('s, 'a) kop \<Rightarrow> (errno \<Rightarrow> ('s, 'a) kop) \<Rightarrow> ('s, 'a) kop" where
  "catch m h s = (case m s of (Inl e, s') \<Rightarrow> h e s' | r \<Rightarrow> r)"

definition asks :: "('s \<Rightarrow> 'a) \<Rightarrow> ('s, 'a) kop" where
  "asks f s = (Inr (f s), s)"

definition modify :: "('s \<Rightarrow> 's) \<Rightarrow> ('s, unit) kop" where
  "modify f s = (Inr (), f s)"

definition check :: "bool \<Rightarrow> errno \<Rightarrow> ('s, unit) kop" where
  "check b e = (if b then ret () else bad e)"

definition of_result :: "errno + 'a \<Rightarrow> ('s, 'a) kop" where
  "of_result r s = (r, s)"

definition of_option :: "errno \<Rightarrow> 'a option \<Rightarrow> ('s, 'a) kop" where
  "of_option e x = (case x of None \<Rightarrow> bad e | Some y \<Rightarrow> ret y)"

text \<open>\<open>mapk\<close> runs a computation for each element, in order, and stops at the first error.\<close>

fun mapk :: "('a \<Rightarrow> ('s, 'b) kop) \<Rightarrow> 'a list \<Rightarrow> ('s, 'b list) kop" where
  "mapk f [] = ret []"
| "mapk f (x # xs) = bnd (f x) (\<lambda>y. bnd (mapk f xs) (\<lambda>ys. ret (y # ys)))"

named_theorems kop_simps \<comment> \<open>how computations run\<close>

lemma kop_run [kop_simps]:
  "ret x s = (Inr x, s)" "bad e s = (Inl e, s)" "asks f s = (Inr (f s), s)"
  "modify g s = (Inr (), g s)" "check b e s = (if b then Inr () else Inl e, s)"
  "of_result r s = (r, s)" "of_option e None s = (Inl e, s)" "of_option e (Some y) s = (Inr y, s)"
  by (simp_all add: ret_def bad_def asks_def modify_def check_def of_result_def of_option_def)

lemma bnd_run [kop_simps]:
  "m s = (Inl e, s') \<Longrightarrow> bnd m f s = (Inl e, s')"
  "m s = (Inr x, s') \<Longrightarrow> bnd m f s = f x s'"
  by (simp_all add: bnd_def)

lemma bnd_simple [kop_simps]:
  "bnd (ret x) f s = f x s" "bnd (bad e) f s = (Inl e, s)" "bnd (asks h) f s = f (h s) s"
  "bnd (modify g) k s = k () (g s)" "bnd (check b e) k s = (if b then k () s else (Inl e, s))"
  "bnd (of_result (Inl e)) f s = (Inl e, s)" "bnd (of_result (Inr x)) f s = f x s"
  by (simp_all add: bnd_def kop_run)

lemma bnd_if [kop_simps]: "bnd (if b then m else n) f s = (if b then bnd m f s else bnd n f s)"
  by simp

lemma bnd_assoc [kop_simps]: "bnd (bnd m f) g = bnd m (\<lambda>x. bnd (f x) g)"
  by (rule ext) (simp add: bnd_def split: prod.split sum.split)

section \<open>What a computation establishes\<close>

text \<open>\<open>hoare P m Q E\<close>: started where \<open>P\<close> holds, \<open>m\<close> returns \<open>x\<close> where \<open>Q x\<close> holds or raises \<open>e\<close> where
  \<open>E e\<close> holds.\<close>

definition hoare :: "('s \<Rightarrow> bool) \<Rightarrow> ('s, 'a) kop \<Rightarrow> ('a \<Rightarrow> 's \<Rightarrow> bool) \<Rightarrow> (errno \<Rightarrow> 's \<Rightarrow> bool) \<Rightarrow> bool" where
  "hoare P m Q E \<longleftrightarrow>
     (\<forall>s. P s \<longrightarrow> (case m s of (Inr x, s') \<Rightarrow> Q x s' | (Inl e, s') \<Rightarrow> E e s'))"

named_theorems hoare_rule \<comment> \<open>the rules of the computations\<close>

lemma hoareI: "(\<And>s. P s \<Longrightarrow> case m s of (Inr x, s') \<Rightarrow> Q x s' | (Inl e, s') \<Rightarrow> E e s') \<Longrightarrow> hoare P m Q E"
  by (simp add: hoare_def)

lemma hoare_ok: "hoare P m Q E \<Longrightarrow> P s \<Longrightarrow> m s = (Inr x, s') \<Longrightarrow> Q x s'"
  by (fastforce simp: hoare_def)

lemma hoare_err: "hoare P m Q E \<Longrightarrow> P s \<Longrightarrow> m s = (Inl e, s') \<Longrightarrow> E e s'"
  by (fastforce simp: hoare_def)

lemma hoare_weaken:
  "hoare P' m Q' E' \<Longrightarrow> (\<And>s. P s \<Longrightarrow> P' s) \<Longrightarrow> (\<And>x s. Q' x s \<Longrightarrow> Q x s) \<Longrightarrow>
   (\<And>e s. E' e s \<Longrightarrow> E e s) \<Longrightarrow> hoare P m Q E"
  unfolding hoare_def by (fastforce split: prod.splits sum.splits)

lemma hoare_bnd [hoare_rule]:
  assumes "hoare P m Q E" "\<And>x. hoare (Q x) (f x) R E"
  shows "hoare P (bnd m f) R E"
  unfolding hoare_def bnd_def
proof (intro allI impI)
  fix s assume "P s"
  then show "case case m s of (Inl e, s') \<Rightarrow> (Inl e, s') | (Inr x, s') \<Rightarrow> f x s' of
      (Inl e, s') \<Rightarrow> E e s' | (Inr x, s') \<Rightarrow> R x s'"
    using assms by (fastforce simp: hoare_def split: prod.splits sum.splits)
qed

lemma hoare_simple [hoare_rule]:
  "hoare (\<lambda>s. Q x s) (ret x) Q E"
  "hoare (\<lambda>s. E e s) (bad e) Q E"
  "hoare (\<lambda>s. Q (f s) s) (asks f) Q E"
  "hoare (\<lambda>s. Q () (g s)) (modify g) Q E"
  "hoare (\<lambda>s. (b \<longrightarrow> Q () s) \<and> (\<not> b \<longrightarrow> E e s)) (check b e) Q E"
  by (simp_all add: hoare_def kop_run)

text \<open>A property that a computation never destroys, whatever its outcome.\<close>

definition keeps :: "('s \<Rightarrow> bool) \<Rightarrow> ('s, 'a) kop \<Rightarrow> bool" where
  "keeps P m \<longleftrightarrow> (\<forall>s. P s \<longrightarrow> P (snd (m s)))"

lemma keeps_hoare: "keeps P m \<longleftrightarrow> hoare P m (\<lambda>_. P) (\<lambda>_. P)"
  unfolding keeps_def hoare_def by (auto split: prod.split sum.split simp: snd_def)

lemma keepsD: "keeps P m \<Longrightarrow> P s \<Longrightarrow> P (snd (m s))"
  by (simp add: keeps_def)

lemma keeps_bnd [intro]: "keeps P m \<Longrightarrow> (\<And>x. keeps P (f x)) \<Longrightarrow> keeps P (bnd m f)"
  unfolding keeps_hoare by (rule hoare_bnd)

lemma keeps_simple [intro, simp]:
  "keeps P (ret x)" "keeps P (bad e)" "keeps P (asks f)" "keeps P (check b e)" "keeps P (of_result r)"
  "keeps P (of_option e v)"
  by (simp_all add: keeps_def kop_run of_option_def split: option.split)

lemma keeps_modify: "(\<And>s. P s \<Longrightarrow> P (g s)) \<Longrightarrow> keeps P (modify g)"
  by (simp add: keeps_def kop_run)

lemma keeps_mapk: "(\<And>x. keeps P (f x)) \<Longrightarrow> keeps P (mapk f xs)"
  by (induction xs) auto

end
