(* ===== verification/Path.thy ===== *)
theory Path
  imports Kerr
begin

text \<open>
  Path names (\<open>seg\<close> and \<open>norm\<close> of \<^verbatim>\<open>src/src/fs/vfs.ts\<close>). A path is a string; \<open>seg\<close> splits it at the
  slashes and drops empty and \<open>.\<close> segments; \<open>norm\<close> resolves it against a working directory into an
  absolute path without \<open>..\<close>.
\<close>

section \<open>Splitting and joining\<close>

fun split_slash :: "string \<Rightarrow> string list" where
  "split_slash [] = [[]]"
| "split_slash (c # cs) =
     (if c = CHR ''/'' then [] # split_slash cs
      else (case split_slash cs of [] \<Rightarrow> [[c]] | x # xs \<Rightarrow> (c # x) # xs))"

fun join_slash :: "string list \<Rightarrow> string" where
  "join_slash [] = []"
| "join_slash [x] = x"
| "join_slash (x # y # ys) = x @ CHR ''/'' # join_slash (y # ys)"

definition absolute :: "string \<Rightarrow> bool" where
  "absolute p \<longleftrightarrow> (case p of [] \<Rightarrow> False | c # _ \<Rightarrow> c = CHR ''/'')"

definition seg :: "string \<Rightarrow> string list" where
  "seg p = filter (\<lambda>x. x \<noteq> [] \<and> x \<noteq> ''.'') (split_slash p)"

fun norm_segs :: "string list \<Rightarrow> string list \<Rightarrow> string list" where
  "norm_segs out [] = out"
| "norm_segs out (x # xs) =
     (if x = ''..'' then norm_segs (butlast out) xs
      else if x \<noteq> ''.'' then norm_segs (out @ [x]) xs
      else norm_segs out xs)"

definition path_of :: "string list \<Rightarrow> string" where
  "path_of xs = CHR ''/'' # join_slash xs"

definition norm :: "string \<Rightarrow> string \<Rightarrow> string" where
  "norm p cwd =
     (let src = (if absolute p then seg p else seg cwd @ seg p) in path_of (norm_segs [] src))"

section \<open>Names\<close>

text \<open>A name of a directory entry, as paths spell it.\<close>

definition is_name :: "string \<Rightarrow> bool" where
  "is_name x \<longleftrightarrow> x \<noteq> [] \<and> CHR ''/'' \<notin> set x \<and> x \<noteq> ''.''"

definition canonical :: "string list \<Rightarrow> bool" where
  "canonical xs \<longleftrightarrow> (\<forall>x \<in> set xs. is_name x \<and> x \<noteq> ''..'')"

lemma split_slash_ne [simp]: "split_slash p \<noteq> []"
  by (cases p) (auto split: list.split)

lemma split_slash_noslash: "x \<in> set (split_slash p) \<Longrightarrow> CHR ''/'' \<notin> set x"
proof (induction p arbitrary: x)
  case (Cons c cs)
  then show ?case by (cases "split_slash cs") (auto split: if_splits)
qed simp

lemma split_slash_name: "CHR ''/'' \<notin> set x \<Longrightarrow> split_slash x = [x]"
  by (induction x) auto

lemma split_slash_append:
  "CHR ''/'' \<notin> set x \<Longrightarrow> split_slash (x @ CHR ''/'' # p) = x # split_slash p"
  by (induction x) auto

lemma seg_names: "x \<in> set (seg p) \<Longrightarrow> is_name x"
  using split_slash_noslash by (auto simp: seg_def is_name_def)

lemma split_join: "xs \<noteq> [] \<Longrightarrow> \<forall>x \<in> set xs. CHR ''/'' \<notin> set x \<Longrightarrow> split_slash (join_slash xs) = xs"
  by (induction xs rule: join_slash.induct) (auto simp: split_slash_name split_slash_append)

lemma seg_slash: "seg (CHR ''/'' # p) = seg p"
  by (simp add: seg_def)

lemma seg_path_of [simp]:
  assumes "\<forall>x \<in> set xs. is_name x"
  shows "seg (path_of xs) = xs"
proof (cases "xs = []")
  case True
  then show ?thesis by (simp add: path_of_def seg_def)
next
  case False
  have "\<forall>x \<in> set xs. CHR ''/'' \<notin> set x" using assms by (simp add: is_name_def)
  then have "seg (path_of xs) = filter (\<lambda>x. x \<noteq> [] \<and> x \<noteq> ''.'') xs"
    using False by (simp add: path_of_def seg_slash) (simp add: seg_def split_join)
  also have "\<dots> = xs" using assms by (simp add: is_name_def)
  finally show ?thesis .
qed

lemma absolute_path_of [simp]: "absolute (path_of xs)"
  by (simp add: absolute_def path_of_def)

lemma canonical_butlast: "canonical xs \<Longrightarrow> canonical (butlast xs)"
  by (auto simp: canonical_def dest: in_set_butlastD)

lemma canonical_snoc: "canonical (xs @ [x]) \<longleftrightarrow> canonical xs \<and> is_name x \<and> x \<noteq> ''..''"
  by (auto simp: canonical_def)

lemma norm_segs_canonical:
  "canonical out \<Longrightarrow> \<forall>x \<in> set src. is_name x \<Longrightarrow> canonical (norm_segs out src)"
  by (induction out src rule: norm_segs.induct) (simp_all add: canonical_butlast canonical_snoc)

lemma norm_segs_id: "canonical xs \<Longrightarrow> norm_segs out xs = out @ xs"
  by (induction xs arbitrary: out) (auto simp: canonical_def is_name_def)

lemma norm_segs_append: "norm_segs out (xs @ ys) = norm_segs (norm_segs out xs) ys"
  by (induction out xs rule: norm_segs.induct) auto

text \<open>The segments a path stands for.\<close>

definition segs_of :: "string \<Rightarrow> string \<Rightarrow> string list" where
  "segs_of p cwd = norm_segs [] (if absolute p then seg p else seg cwd @ seg p)"

lemma norm_path_of: "norm p cwd = path_of (segs_of p cwd)"
  by (simp add: norm_def segs_of_def)

lemma segs_of_canonical [simp]: "canonical (segs_of p cwd)"
  unfolding segs_of_def by (rule norm_segs_canonical) (auto simp: canonical_def dest: seg_names)

lemma canonical_names: "canonical xs \<Longrightarrow> \<forall>x \<in> set xs. is_name x"
  by (simp add: canonical_def)

lemma seg_norm [simp]: "seg (norm p cwd) = segs_of p cwd"
  unfolding norm_path_of by (rule seg_path_of) (rule canonical_names, simp)

lemma segs_of_path_of: "canonical xs \<Longrightarrow> segs_of (path_of xs) cwd = xs"
  by (simp add: segs_of_def norm_segs_id canonical_names)

lemma norm_path_of_id: "canonical xs \<Longrightarrow> norm (path_of xs) cwd = path_of xs"
  by (simp add: norm_path_of segs_of_path_of)

lemma path_of_eq_slash: "\<forall>x \<in> set xs. is_name x \<Longrightarrow> path_of xs = ''/'' \<longleftrightarrow> xs = []"
  by (cases xs rule: join_slash.cases) (auto simp: path_of_def is_name_def)

lemma path_of_inj: "\<forall>x \<in> set xs. is_name x \<Longrightarrow> \<forall>x \<in> set ys. is_name x \<Longrightarrow> path_of xs = path_of ys \<Longrightarrow> xs = ys"
  using seg_path_of by metis

section \<open>What norm computes\<close>

text \<open>A normalised path is absolute and made of names only, none of them \<open>.\<close> or \<open>..\<close>; normalising it
  again, from any working directory, changes nothing; and relative resolution is the resolution of
  the joined path.\<close>

theorem norm_canonical:
  "absolute (norm p cwd) \<and> canonical (seg (norm p cwd)) \<and> norm (norm p cwd) cwd' = norm p cwd \<and>
   (\<not> absolute p \<longrightarrow> norm p cwd = norm (path_of (seg cwd @ seg p)) ''/'')"
proof -
  have "norm p cwd = norm (path_of (seg cwd @ seg p)) ''/''" if "\<not> absolute p"
  proof -
    have "\<forall>x \<in> set (seg cwd @ seg p). is_name x" by (auto dest: seg_names)
    then show ?thesis using that by (simp add: norm_path_of segs_of_def del: set_append)
  qed
  then show ?thesis
    using seg_norm [of p cwd] by (auto simp: norm_path_of [of p cwd] norm_path_of_id)
qed

theorem norm_canonical_witness: "norm ''../b/./c'' ''/x/y'' = norm (path_of [''x'', ''y'', ''..'', ''b'', ''c'']) ''/''"
  using norm_canonical [of "''../b/./c''" "''/x/y''"] by (simp add: absolute_def seg_def)

end
