(* ===== verification/Entries.thy ===== *)
theory Entries
  imports Path
begin

text \<open>
  JavaScript \<open>Map\<close>s, which the file system uses for directories and the kernel for its tables: iteration
  is in insertion order, setting a present key keeps its place. The interface is a locale; the model's
  insertion-ordered list implements it.
\<close>

section \<open>The interface\<close>

locale js_map =
  fixes has :: "'m \<Rightarrow> 'k \<Rightarrow> 'v option"
    and put :: "'k \<Rightarrow> 'v \<Rightarrow> 'm \<Rightarrow> 'm"
    and del :: "'k \<Rightarrow> 'm \<Rightarrow> 'm"
    and items :: "'m \<Rightarrow> ('k \<times> 'v) list"
    and ok :: "'m \<Rightarrow> bool"
  assumes has_items: "ok m \<Longrightarrow> has m k = map_of (items m) k"
    and distinct_items: "ok m \<Longrightarrow> distinct (map fst (items m))"
    and has_put: "ok m \<Longrightarrow> has (put k v m) = (has m)(k := Some v)"
    and has_del: "ok m \<Longrightarrow> has (del k m) = (has m)(k := None)"
    and ok_put: "ok m \<Longrightarrow> ok (put k v m)"
    and ok_del: "ok m \<Longrightarrow> ok (del k m)"
begin

lemma item_iff: "ok m \<Longrightarrow> (k, v) \<in> set (items m) \<longleftrightarrow> has m k = Some v"
  by (simp add: has_items distinct_items)

lemma put_put: "ok m \<Longrightarrow> has (put k v (put k w m)) = has (put k v m)"
  by (simp add: has_put ok_put)

lemma del_put: "ok m \<Longrightarrow> has m k = None \<Longrightarrow> has (del k (put k v m)) = has m"
  by (auto simp: has_put has_del ok_put)

lemma put_items: "ok m \<Longrightarrow> set (items (put k v m)) = insert (k, v) {(l, w) \<in> set (items m). l \<noteq> k}"
  by (auto simp: item_iff ok_put has_put split: if_splits)

lemma del_items: "ok m \<Longrightarrow> set (items (del k m)) = {(l, w) \<in> set (items m). l \<noteq> k}"
  by (auto simp: item_iff ok_del has_del split: if_splits)

end

text \<open>How often a value occurs: a put replaces one occurrence, a del removes one.\<close>

locale counted_map = js_map +
  fixes occ :: "'a \<Rightarrow> 'c \<Rightarrow> nat"
  assumes occ_pos: "ok m \<Longrightarrow> 0 < occ m v \<longleftrightarrow> (\<exists>k. has m k = Some v)"
    and occ_put: "ok m \<Longrightarrow> occ (put k v m) w + (if has m k = Some w then 1 else 0) =
        occ m w + (if v = w then 1 else 0)"
    and occ_del: "ok m \<Longrightarrow> occ (del k m) w + (if has m k = Some w then 1 else 0) = occ m w"
begin

lemma occ_fresh: "ok m \<Longrightarrow> has m k = None \<Longrightarrow> occ (put k v m) w = occ m w + (if v = w then 1 else 0)"
  using occ_put [of m k v w] by simp

lemma occ_del_present: "ok m \<Longrightarrow> has m k = Some w \<Longrightarrow> Suc (occ (del k m) w) = occ m w"
  using occ_del [of m k w] by simp

end

text \<open>The total of the values' weights: a put replaces the weight of the old value, a del takes it away.\<close>

locale weighted_map = js_map +
  fixes total :: "('c \<Rightarrow> nat) \<Rightarrow> 'a \<Rightarrow> nat"
  assumes total_put: "ok m \<Longrightarrow> total w (put k v m) + (case has m k of Some u \<Rightarrow> w u | None \<Rightarrow> 0) = total w m + w v"
    and total_del: "ok m \<Longrightarrow> total w (del k m) + (case has m k of Some u \<Rightarrow> w u | None \<Rightarrow> 0) = total w m"
    and total_pos: "ok m \<Longrightarrow> 0 < total w m \<longleftrightarrow> (\<exists>k v. has m k = Some v \<and> 0 < w v)"
begin

lemma total_fresh: "ok m \<Longrightarrow> has m k = None \<Longrightarrow> total w (put k v m) = total w m + w v"
  using total_put [of m w k v] by simp

lemma total_replace: "ok m \<Longrightarrow> has m k = Some u \<Longrightarrow> total w (put k v m) + w u = total w m + w v"
  using total_put [of m w k v] by simp

lemma total_remove: "ok m \<Longrightarrow> has m k = Some u \<Longrightarrow> total w (del k m) + w u = total w m"
  using total_del [of m w k] by simp

lemma total_ge: "ok m \<Longrightarrow> has m k = Some u \<Longrightarrow> w u \<le> total w m"
  using total_remove [of m k u w] by simp

lemma total_same: "ok m \<Longrightarrow> has m k = Some u \<Longrightarrow> w v = w u \<Longrightarrow> total w (put k v m) = total w m"
  using total_replace [of m k u w v] by simp

end

section \<open>Insertion-ordered lists\<close>

type_synonym 'v ents = "(string \<times> 'v) list"

definition ent_get :: "('k \<times> 'v) list \<Rightarrow> 'k \<Rightarrow> 'v option" where
  "ent_get e x = map_of e x"

fun ent_set :: "'k \<Rightarrow> 'v \<Rightarrow> ('k \<times> 'v) list \<Rightarrow> ('k \<times> 'v) list" where
  "ent_set x i [] = [(x, i)]"
| "ent_set x i ((y, j) # e) = (if x = y then (y, i) # e else (y, j) # ent_set x i e)"

fun ent_del :: "'k \<Rightarrow> ('k \<times> 'v) list \<Rightarrow> ('k \<times> 'v) list" where
  "ent_del x [] = []"
| "ent_del x ((y, j) # e) = (if x = y then e else (y, j) # ent_del x e)"

definition ents_ok :: "('k \<times> 'v) list \<Rightarrow> bool" where
  "ents_ok e \<longleftrightarrow> distinct (map fst e)"

definition ent_occ :: "('k \<times> 'v) list \<Rightarrow> 'v \<Rightarrow> nat" where
  "ent_occ e i = count_list (map snd e) i"

definition ent_sum :: "('v \<Rightarrow> nat) \<Rightarrow> ('k \<times> 'v) list \<Rightarrow> nat" where
  "ent_sum w e = sum_list (map (w \<circ> snd) e)"

lemma keys_set: "set (map fst (ent_set x i e)) = insert x (set (map fst e))"
  by (induction x i e rule: ent_set.induct) auto

lemma keys_del: "ents_ok e \<Longrightarrow> set (map fst (ent_del x e)) = set (map fst e) - {x}"
  by (induction x e rule: ent_del.induct) (auto simp: ents_ok_def)

lemma get_set: "ent_get (ent_set x i e) = (ent_get e)(x := Some i)"
  by (rule ext, induction x i e rule: ent_set.induct) (auto simp: ent_get_def)

lemma del_other: "x \<noteq> y \<Longrightarrow> map_of (ent_del x e) y = map_of e y"
  by (induction x e rule: ent_del.induct) auto

lemma del_absent: "ents_ok e \<Longrightarrow> map_of (ent_del x e) x = None"
  using keys_del [of e x] by (simp add: map_of_eq_None_iff flip: set_map)

lemma get_del: "ents_ok e \<Longrightarrow> ent_get (ent_del x e) = (ent_get e)(x := None)"
  by (rule ext) (simp add: ent_get_def del_other del_absent)

lemma ok_set: "ents_ok e \<Longrightarrow> ents_ok (ent_set x i e)"
proof (induction x i e rule: ent_set.induct)
  case (2 x i y j e)
  then show ?case using keys_set [of x i e] by (auto simp: ents_ok_def)
qed (simp add: ents_ok_def)

lemma ok_del: "ents_ok e \<Longrightarrow> ents_ok (ent_del x e)"
proof (induction x e rule: ent_del.induct)
  case (2 x y j e)
  then show ?case using keys_del [of e x] by (auto simp: ents_ok_def)
qed simp

lemma occ_set: "ents_ok e \<Longrightarrow> ent_occ (ent_set x i e) w + (if ent_get e x = Some w then 1 else 0) =
    ent_occ e w + (if i = w then 1 else 0)"
  by (induction x i e rule: ent_set.induct) (auto simp: ent_occ_def ent_get_def ents_ok_def)

lemma occ_del: "ents_ok e \<Longrightarrow> ent_occ (ent_del x e) w + (if ent_get e x = Some w then 1 else 0) = ent_occ e w"
  by (induction x e rule: ent_del.induct)
    (auto simp: ent_occ_def ent_get_def ents_ok_def)

lemma occ_pos: "ents_ok e \<Longrightarrow> 0 < ent_occ e i \<longleftrightarrow> (\<exists>x. ent_get e x = Some i)"
proof -
  assume "ents_ok e"
  then have "(\<exists>x. ent_get e x = Some i) \<longleftrightarrow> i \<in> set (map snd e)"
    by (force simp: ent_get_def ents_ok_def)
  also have "\<dots> \<longleftrightarrow> 0 < ent_occ e i"
    unfolding ent_occ_def by (metis count_list_0_iff neq0_conv)
  finally show ?thesis by simp
qed

interpretation dir: counted_map ent_get ent_set ent_del "\<lambda>e. e" ents_ok ent_occ
proof unfold_locales
  show "ents_ok m \<Longrightarrow> ent_get m k = map_of m k" for m :: "('k \<times> 'v) list" and k
    by (simp add: ent_get_def)
next
  show "ents_ok m \<Longrightarrow> distinct (map fst m)" for m :: "('k \<times> 'v) list" by (simp add: ents_ok_def)
qed (simp_all only: get_set get_del ok_set ok_del occ_set occ_del occ_pos)

lemma sum_set: "ents_ok e \<Longrightarrow> ent_sum w (ent_set x i e) + (case ent_get e x of Some u \<Rightarrow> w u | None \<Rightarrow> 0) =
    ent_sum w e + w i"
  by (induction x i e rule: ent_set.induct) (auto simp: ent_sum_def ent_get_def ents_ok_def)

lemma sum_del: "ents_ok e \<Longrightarrow> ent_sum w (ent_del x e) + (case ent_get e x of Some u \<Rightarrow> w u | None \<Rightarrow> 0) = ent_sum w e"
  by (induction x e rule: ent_del.induct) (auto simp: ent_sum_def ent_get_def ents_ok_def)

lemma sum_zero: "ent_sum w e = 0 \<longleftrightarrow> (\<forall>(k, v) \<in> set e. w v = 0)"
  by (induction e) (auto simp: ent_sum_def)

lemma sum_pos: "ents_ok e \<Longrightarrow> 0 < ent_sum w e \<longleftrightarrow> (\<exists>k v. ent_get e k = Some v \<and> 0 < w v)"
  using sum_zero [of w e] by (auto simp: ent_get_def ents_ok_def)

interpretation tab: weighted_map ent_get ent_set ent_del "\<lambda>e. e" ents_ok ent_sum
  by unfold_locales (simp_all only: sum_set sum_del sum_pos)

end
