(* ===== verification/Vfs.thy ===== *)
theory Vfs
  imports Entries
begin

text \<open>
  The file system of the kernel (\<^verbatim>\<open>src/src/fs/vfs.ts\<close>), operation by operation.

  The nodes are a list; a node's place in it is its identity (the code's \<open>ino\<close> is this place plus one
  when the file system allocated every node), node 0 is the root, and a node once allocated stays in
  the list, as an unreachable object stays harmless for the code. \<open>Date.now()\<close> is the argument \<open>now\<close>.
  A character device has the two functions it was made with: what a read returns, and whether a
  write raises. The bytes of a lazily loaded file come with the call that loads them.
\<close>

section \<open>Data\<close>

record reg_source =
  src_size :: nat
  src_sum :: string
  src_head :: "u8 list option"

record reg =
  r_data :: "u8 list"
  r_sum :: "string option"
  r_source :: "reg_source option"

type_synonym ino = nat

datatype body =
    Reg reg
  | Dir "ino ents"
  | Sym string
  | Chr "nat \<Rightarrow> u8 list" "u8 list \<Rightarrow> errno option" bool

record vnode =
  n_body :: body
  n_mode :: u32
  n_uid :: int
  n_gid :: int
  n_nlink :: int
  n_at :: int
  n_mt :: int
  n_ct :: int

record vfs =
  nodes :: "vnode list"
  vcap :: nat

record cred =
  c_uid :: "int option"
  c_gid :: "int option"
  c_ruid :: "int option"
  c_euid :: "int option"
  c_suid :: "int option"
  c_rgid :: "int option"
  c_egid :: "int option"
  c_sgid :: "int option"
  c_groups :: "int list"

text \<open>\<open>a ?? b\<close>.\<close>

fun nullish :: "'a option \<Rightarrow> 'a \<Rightarrow> 'a" where
  "nullish (Some x) y = x"
| "nullish None y = y"

definition credUid :: "cred \<Rightarrow> int" where
  "credUid c = nullish (c_uid c) (nullish (c_euid c) (nullish (c_ruid c) 0))"

definition credGid :: "cred \<Rightarrow> int" where
  "credGid c = nullish (c_gid c) (nullish (c_egid c) (nullish (c_rgid c) 0))"

section \<open>Nodes\<close>

definition new_node :: "int \<Rightarrow> body \<Rightarrow> u32 \<Rightarrow> int \<Rightarrow> int \<Rightarrow> vnode" where
  "new_node now b mode uid gid =
     \<lparr>n_body = b, n_mode = mode, n_uid = uid, n_gid = gid, n_nlink = 1, n_at = now, n_mt = now, n_ct = now\<rparr>"

definition touch :: "int \<Rightarrow> bool \<Rightarrow> vnode \<Rightarrow> vnode" where
  "touch now data n = (if data then n\<lparr>n_ct := now, n_mt := now\<rparr> else n\<lparr>n_ct := now\<rparr>)"

definition new_reg :: "u8 list \<Rightarrow> reg_source option \<Rightarrow> reg" where
  "new_reg data source = \<lparr>r_data = data, r_sum = map_option src_sum source, r_source = source\<rparr>"

definition reg_size :: "reg \<Rightarrow> nat" where
  "reg_size r = (case r_source r of Some s \<Rightarrow> if r_data r = [] then src_size s else length (r_data r)
     | None \<Rightarrow> length (r_data r))"

definition lazy :: "reg \<Rightarrow> bool" where
  "lazy r \<longleftrightarrow> (case r_source r of Some s \<Rightarrow> r_data r = [] \<and> src_size s > 0 | None \<Rightarrow> False)"

definition reg_head :: "nat \<Rightarrow> reg \<Rightarrow> u8 list" where
  "reg_head n r = (case r_source r of
       Some s \<Rightarrow> if r_data r \<noteq> [] then take n (r_data r)
                else (case src_head s of Some h \<Rightarrow> take n h | None \<Rightarrow> [])
     | None \<Rightarrow> take n (r_data r))"

definition replace :: "u8 list \<Rightarrow> reg \<Rightarrow> reg" where
  "replace bytes r = \<lparr>r_data = bytes, r_sum = None, r_source = None\<rparr>"

text \<open>\<open>materialise\<close>, when the source delivers \<open>loaded\<close>: a wrong size is an error that leaves the file lazy.\<close>

definition materialise :: "u8 list \<Rightarrow> reg \<Rightarrow> reg option" where
  "materialise loaded r = (case r_source r of None \<Rightarrow> Some r
     | Some s \<Rightarrow> if r_data r \<noteq> [] \<or> src_size s = 0 then Some r
                else if length loaded \<noteq> src_size s then None
                else Some (r\<lparr>r_data := loaded\<rparr>))"

section \<open>The node store\<close>

definition node :: "vfs \<Rightarrow> ino \<Rightarrow> vnode" where
  "node fs i = nodes fs ! i"

definition set_node :: "ino \<Rightarrow> (vnode \<Rightarrow> vnode) \<Rightarrow> vfs \<Rightarrow> vfs" where
  "set_node i f fs = fs\<lparr>nodes := (nodes fs)[i := f (node fs i)]\<rparr>"

definition alloc :: "vnode \<Rightarrow> (vfs, ino) kop" where
  "alloc n fs = (Inr (length (nodes fs)), fs\<lparr>nodes := nodes fs @ [n]\<rparr>)"

fun body_ents :: "body \<Rightarrow> ino ents" where
  "body_ents (Dir e) = e"
| "body_ents _ = []"

fun is_dir_body :: "body \<Rightarrow> bool" where
  "is_dir_body (Dir e) = True"
| "is_dir_body _ = False"

definition is_dir :: "vfs \<Rightarrow> ino \<Rightarrow> bool" where
  "is_dir fs i = is_dir_body (n_body (node fs i))"

definition ents :: "vfs \<Rightarrow> ino \<Rightarrow> ino ents" where
  "ents fs i = body_ents (n_body (node fs i))"

fun on_ents :: "(ino ents \<Rightarrow> ino ents) \<Rightarrow> body \<Rightarrow> body" where
  "on_ents f (Dir e) = Dir (f e)"
| "on_ents f b = b"

definition set_ents :: "(ino ents \<Rightarrow> ino ents) \<Rightarrow> vnode \<Rightarrow> vnode" where
  "set_ents f n = n\<lparr>n_body := on_ents f (n_body n)\<rparr>"

definition dir_set :: "ino \<Rightarrow> string \<Rightarrow> ino \<Rightarrow> (vfs, unit) kop" where
  "dir_set d x i = modify (set_node d (set_ents (ent_set x i)))"

definition dir_del :: "ino \<Rightarrow> string \<Rightarrow> (vfs, unit) kop" where
  "dir_del d x = modify (set_node d (set_ents (ent_del x)))"

definition dir_get :: "ino \<Rightarrow> string \<Rightarrow> (vfs, ino option) kop" where
  "dir_get d x = asks (\<lambda>fs. ent_get (ents fs d) x)"

definition touch_node :: "int \<Rightarrow> bool \<Rightarrow> ino \<Rightarrow> (vfs, unit) kop" where
  "touch_node now data i = modify (set_node i (touch now data))"

definition add_nlink :: "int \<Rightarrow> ino \<Rightarrow> (vfs, unit) kop" where
  "add_nlink k i = modify (set_node i (\<lambda>n. n\<lparr>n_nlink := n_nlink n + k\<rparr>))"

section \<open>Permissions\<close>

definition perm_shift :: "vnode \<Rightarrow> cred \<Rightarrow> nat" where
  "perm_shift n c = (if credUid c = n_uid n then 6
     else if credGid c = n_gid n \<or> n_gid n \<in> set (c_groups c) then 3 else 0)"

definition perm_ok :: "vnode \<Rightarrow> cred \<Rightarrow> u32 \<Rightarrow> bool" where
  "perm_ok n c bits \<longleftrightarrow>
     (if credUid c = 0 then True else drop_bit (perm_shift n c) (n_mode n) AND bits \<noteq> 0)"

definition need :: "ino \<Rightarrow> cred \<Rightarrow> u32 \<Rightarrow> (vfs, unit) kop" where
  "need i c bits = bnd (asks (\<lambda>fs. perm_ok (node fs i) c bits)) (\<lambda>b. check b EACCES)"

section \<open>Path walk\<close>

definition link_to :: "vfs \<Rightarrow> ino \<Rightarrow> string option" where
  "link_to fs i = (case n_body (node fs i) of Sym to \<Rightarrow> Some to | _ \<Rightarrow> None)"

text \<open>One round of the walk follows the segments from the root; meeting a symbolic link it resolves the
  link against the directory it is in, appends the rest, and starts \<open>again\<close>.\<close>

fun walk_from ::
    "(string \<Rightarrow> errno + ino \<times> string) \<Rightarrow> vfs \<Rightarrow> cred \<Rightarrow> bool \<Rightarrow> string list \<Rightarrow> ino \<Rightarrow> string list \<Rightarrow>
     errno + ino \<times> string list" where
  "walk_from again fs c follow done n [] = Inr (n, done)"
| "walk_from again fs c follow done n (x # rest) =
     (if \<not> is_dir fs n then Inl ENOTDIR
      else if \<not> perm_ok (node fs n) c 1 then Inl EACCES
      else (case ent_get (ents fs n) x of
          None \<Rightarrow> Inl ENOENT
        | Some z \<Rightarrow>
            (case (if follow \<or> rest \<noteq> [] then link_to fs z else None) of
                Some to \<Rightarrow>
                  (let dst = norm to (path_of done) @ (if rest \<noteq> [] then path_of rest else [])
                   in map_sum id (apsnd seg) (again (norm dst ''/'')))
              | None \<Rightarrow> walk_from again fs c follow (done @ [x]) z rest)))"

text \<open>\<open>walk left\<close> has \<open>left\<close> rounds to go: the code's \<open>hops\<close> is \<open>33 - left\<close>, and \<open>hops > 32\<close> is \<open>left = 0\<close>.\<close>

fun walk :: "nat \<Rightarrow> vfs \<Rightarrow> cred \<Rightarrow> bool \<Rightarrow> string \<Rightarrow> errno + ino \<times> string" where
  "walk 0 fs c follow p = Inl ELOOP"
| "walk (Suc left) fs c follow p =
     (if p = ''/'' then Inr (0, ''/'')
      else map_sum id (apsnd path_of) (walk_from (walk left fs c follow) fs c follow [] 0 (seg p)))"

definition at :: "int \<Rightarrow> string \<Rightarrow> string \<Rightarrow> cred \<Rightarrow> bool \<Rightarrow> (vfs, ino \<times> string) kop" where
  "at now p cwd c follow =
     bnd (asks (\<lambda>fs. walk 33 fs c follow (norm p cwd))) (\<lambda>r.
     bnd (of_result r) (\<lambda>(n, path).
     bnd (if path = ''/'' then ret () else modify (set_node n (\<lambda>v. v\<lparr>n_at := now\<rparr>))) (\<lambda>_.
     ret (n, path))))"

definition par :: "int \<Rightarrow> string \<Rightarrow> string \<Rightarrow> cred \<Rightarrow> (vfs, ino \<times> string \<times> string) kop" where
  "par now p cwd c =
     (let q = norm p cwd in
      bnd (check (q \<noteq> ''/'') EBUSY) (\<lambda>_.
      let a = seg q; name = last a; pp = path_of (butlast a) in
      bnd (check (\<not> length name > 255) ENAMETOOLONG) (\<lambda>_.
      bnd (at now pp ''/'' c True) (\<lambda>(d, _).
      bnd (asks (\<lambda>fs. is_dir fs d)) (\<lambda>b.
      bnd (check b ENOTDIR) (\<lambda>_.
      bnd (need d c 3) (\<lambda>_.
      ret (d, name, q))))))))"

section \<open>Space\<close>

function reach :: "vfs \<Rightarrow> ino list \<Rightarrow> ino list \<Rightarrow> ino list" where
  "reach fs [] seen = seen"
| "reach fs (v # todo) seen =
     (if v \<in> set seen \<or> length (nodes fs) \<le> v then reach fs todo seen
      else reach fs (map snd (ents fs v) @ todo) (v # seen))"
  by pat_completeness auto

termination
proof (relation "measures [\<lambda>(fs, todo, seen). card ({..<length (nodes fs)} - set seen), \<lambda>(fs, todo, seen). length todo]")
  fix fs :: vfs and v :: nat and todo seen :: "nat list"
  assume "\<not> (v \<in> set seen \<or> length (nodes fs) \<le> v)"
  then have "card ({..<length (nodes fs)} - set (v # seen)) < card ({..<length (nodes fs)} - set seen)"
  proof (intro psubset_card_mono)
    have "v \<in> {..<length (nodes fs)} - set seen" "v \<notin> {..<length (nodes fs)} - set (v # seen)"
      using \<open>\<not> (v \<in> set seen \<or> length (nodes fs) \<le> v)\<close> by simp_all
    moreover have "{..<length (nodes fs)} - set (v # seen) \<subseteq> {..<length (nodes fs)} - set seen"
      by (simp add: Diff_mono subset_insertI)
    ultimately show "{..<length (nodes fs)} - set (v # seen) \<subset> {..<length (nodes fs)} - set seen"
      by (metis psubsetI)
  qed simp
  then show "((fs, map snd (ents fs v) @ todo, v # seen), fs, v # todo, seen) \<in>
      measures [\<lambda>(fs, todo, seen). card ({..<length (nodes fs)} - set seen), \<lambda>(fs, todo, seen). length todo]"
    by simp
qed simp_all

definition node_cost :: "vnode \<Rightarrow> nat" where
  "node_cost n = 128 + (case n_body n of Reg r \<Rightarrow> length (r_data r) | _ \<Rightarrow> 0)"

definition used :: "vfs \<Rightarrow> nat" where
  "used fs = sum_list (map (\<lambda>i. node_cost (node fs i)) (reach fs [0] []))"

section \<open>Files\<close>

definition readb :: "int \<Rightarrow> string \<Rightarrow> string \<Rightarrow> cred \<Rightarrow> (vfs, u8 list) kop" where
  "readb now p cwd c =
     bnd (at now p cwd c True) (\<lambda>(i, path).
     bnd (need i c 4) (\<lambda>_.
     bnd (asks (\<lambda>fs. n_body (node fs i))) (\<lambda>b.
     case b of
       Reg r \<Rightarrow> bnd (check (\<not> lazy r) EAGAIN) (\<lambda>_. ret (r_data r))
     | Chr rfn wfn rep \<Rightarrow> ret (rfn 65536)
     | Dir e \<Rightarrow> bad EISDIR
     | Sym to \<Rightarrow> bad EINVAL)))"

definition set_reg :: "ino \<Rightarrow> reg \<Rightarrow> (vfs, unit) kop" where
  "set_reg i r = modify (set_node i (\<lambda>n. n\<lparr>n_body := Reg r\<rparr>))"

definition clear_special :: "ino \<Rightarrow> (vfs, unit) kop" where
  "clear_special i = modify (set_node i (\<lambda>n. n\<lparr>n_mode := n_mode n AND NOT 0xc00\<rparr>))"

text \<open>The node that \<open>writeb\<close> writes: the one the path names, or a new file when there is none.\<close>

definition open_or_make ::
    "int \<Rightarrow> string \<Rightarrow> string \<Rightarrow> cred \<Rightarrow> u32 \<Rightarrow> (vfs, ino \<times> (ino \<times> string) option) kop" where
  "open_or_make now p cwd c mode =
     catch (bnd (at now p cwd c True) (\<lambda>(i, path). ret (i, None)))
       (\<lambda>e. if e \<noteq> ENOENT then bad e else
          bnd (par now p cwd c) (\<lambda>(d, name, path).
          bnd (alloc (new_node now (Reg (new_reg [] None)) mode (credUid c) (credGid c))) (\<lambda>i.
          bnd (dir_set d name i) (\<lambda>_.
          bnd (touch_node now True d) (\<lambda>_.
          ret (i, Some (d, name)))))))"

text \<open>The writing itself, with the rollback when the file system is full; then the whole operation.\<close>

definition write_node ::
    "int \<Rightarrow> u8 list \<Rightarrow> cred \<Rightarrow> bool \<Rightarrow> ino \<times> (ino \<times> string) option \<Rightarrow> (vfs, unit) kop" where
  "write_node now b c add t = (case t of (i, made) \<Rightarrow>
     bnd (need i c 2) (\<lambda>_.
     bnd (asks (\<lambda>fs. n_body (node fs i))) (\<lambda>bd.
     case bd of
       Reg r \<Rightarrow>
         bnd (check (\<not> (add \<and> lazy r)) EAGAIN) (\<lambda>_.
         bnd (set_reg i (replace (if add then r_data r @ b else b) r)) (\<lambda>_.
         bnd (asks (\<lambda>fs. used fs > vcap fs)) (\<lambda>full.
         if full then
           bnd (set_reg i \<lparr>r_data = r_data r, r_sum = None, r_source = r_source r\<rparr>) (\<lambda>_.
           bnd (case made of Some (d, name) \<Rightarrow> dir_del d name | None \<Rightarrow> ret ()) (\<lambda>_.
           bad ENOSPC))
         else
           bnd (if made = None then clear_special i else ret ()) (\<lambda>_.
           touch_node now True i))))
     | Chr rfn wfn rep \<Rightarrow>
         bnd (case wfn b of Some e \<Rightarrow> bad e | None \<Rightarrow> ret ()) (\<lambda>_. touch_node now True i)
     | Dir e \<Rightarrow> bad EISDIR
     | Sym to \<Rightarrow> bad EINVAL)))"

definition writeb ::
    "int \<Rightarrow> string \<Rightarrow> u8 list \<Rightarrow> string \<Rightarrow> cred \<Rightarrow> bool \<Rightarrow> u32 \<Rightarrow> (vfs, unit) kop" where
  "writeb now p b cwd c add mode = bnd (open_or_make now p cwd c mode) (write_node now b c add)"

definition mkfile :: "int \<Rightarrow> string \<Rightarrow> u8 list \<Rightarrow> string \<Rightarrow> cred \<Rightarrow> u32 \<Rightarrow> (vfs, ino) kop" where
  "mkfile now p data cwd c mode =
     bnd (par now p cwd c) (\<lambda>(d, name, path).
     bnd (dir_get d name) (\<lambda>z.
     bnd (check (z = None) EEXIST) (\<lambda>_.
     bnd (alloc (new_node now (Reg (new_reg data None)) mode (credUid c) (credGid c))) (\<lambda>i.
     bnd (dir_set d name i) (\<lambda>_.
     bnd (asks (\<lambda>fs. used fs > vcap fs)) (\<lambda>full.
     if full then bnd (dir_del d name) (\<lambda>_. bad ENOSPC)
     else bnd (touch_node now True d) (\<lambda>_. ret i)))))))"

section \<open>Directories, links, devices\<close>

definition mkdir :: "int \<Rightarrow> string \<Rightarrow> string \<Rightarrow> cred \<Rightarrow> u32 \<Rightarrow> (vfs, ino) kop" where
  "mkdir now p cwd c mode =
     bnd (par now p cwd c) (\<lambda>(d, name, path).
     bnd (dir_get d name) (\<lambda>z.
     bnd (check (z = None) EEXIST) (\<lambda>_.
     bnd (alloc (new_node now (Dir []) mode (credUid c) (credGid c))) (\<lambda>i.
     bnd (dir_set d name i) (\<lambda>_.
     bnd (touch_node now True d) (\<lambda>_.
     ret i))))))"

definition mkchar ::
    "int \<Rightarrow> string \<Rightarrow> (nat \<Rightarrow> u8 list) \<Rightarrow> (u8 list \<Rightarrow> errno option) \<Rightarrow> string \<Rightarrow> cred \<Rightarrow> u32 \<Rightarrow> bool \<Rightarrow>
     (vfs, ino) kop" where
  "mkchar now p r w cwd c mode rep =
     bnd (par now p cwd c) (\<lambda>(d, name, path).
     bnd (dir_get d name) (\<lambda>z.
     bnd (check (z = None) EEXIST) (\<lambda>_.
     bnd (alloc (new_node now (Chr r w rep) mode (credUid c) (credGid c))) (\<lambda>i.
     bnd (dir_set d name i) (\<lambda>_.
     ret i)))))"

text \<open>\<open>list\<close> sorts by the collation of the host (\<open>localeCompare\<close>), an argument.\<close>

fun insert_by :: "(string \<Rightarrow> string \<Rightarrow> bool) \<Rightarrow> string \<times> ino \<Rightarrow> ino ents \<Rightarrow> ino ents" where
  "insert_by le a [] = [a]"
| "insert_by le a (b # xs) = (if le (fst a) (fst b) then a # b # xs else b # insert_by le a xs)"

definition sort_by :: "(string \<Rightarrow> string \<Rightarrow> bool) \<Rightarrow> ino ents \<Rightarrow> ino ents" where
  "sort_by le xs = foldr (insert_by le) xs []"

definition listdir ::
    "(string \<Rightarrow> string \<Rightarrow> bool) \<Rightarrow> int \<Rightarrow> string \<Rightarrow> string \<Rightarrow> cred \<Rightarrow> (vfs, ino ents) kop" where
  "listdir le now p cwd c =
     bnd (at now p cwd c True) (\<lambda>(d, path).
     bnd (asks (\<lambda>fs. is_dir fs d)) (\<lambda>b.
     bnd (check b ENOTDIR) (\<lambda>_.
     bnd (need d c 5) (\<lambda>_.
     asks (\<lambda>fs. sort_by le (ents fs d))))))"

definition rm :: "int \<Rightarrow> string \<Rightarrow> string \<Rightarrow> cred \<Rightarrow> bool \<Rightarrow> (vfs, unit) kop" where
  "rm now p cwd c dir =
     bnd (par now p cwd c) (\<lambda>(d, name, path).
     bnd (dir_get d name) (\<lambda>z.
     bnd (of_option ENOENT z) (\<lambda>n.
     bnd (asks (\<lambda>fs. (is_dir fs n, ents fs n))) (\<lambda>(isd, e).
     bnd (if isd then bnd (check dir EISDIR) (\<lambda>_. check (e = []) ENOTEMPTY)
          else check (\<not> dir) ENOTDIR) (\<lambda>_.
     bnd (dir_del d name) (\<lambda>_.
     bnd (add_nlink (-1) n) (\<lambda>_.
     touch_node now True d)))))))"

text \<open>\<open>rename\<close>: the checks and the move, once both parents are known; then the whole operation.\<close>

fun is_some_dir :: "(bool \<times> ino ents) option \<Rightarrow> bool" where
  "is_some_dir (Some (isd, e)) = isd"
| "is_some_dir None = False"

definition move_entry :: "int \<Rightarrow> ino \<times> string \<times> string \<Rightarrow> ino \<Rightarrow> ino \<times> string \<times> string \<Rightarrow> (vfs, unit) kop" where
  "move_entry now x n y = (case x of (xd, xname, xpath) \<Rightarrow> case y of (yd, yname, ypath) \<Rightarrow>
     if xpath = ypath then ret () else
     bnd (dir_get yd yname) (\<lambda>old.
     bnd (asks (\<lambda>fs. is_dir fs n)) (\<lambda>nd.
     bnd (asks (\<lambda>fs. map_option (\<lambda>i. (is_dir fs i, ents fs i)) old)) (\<lambda>od.
     bnd (check (\<not> (is_some_dir od \<and> \<not> nd)) EISDIR) (\<lambda>_.
     bnd (check (\<not> (nd \<and> od \<noteq> None \<and> \<not> is_some_dir od)) ENOTDIR) (\<lambda>_.
     bnd (check (\<not> (is_some_dir od \<and> snd (the od) \<noteq> [])) ENOTEMPTY) (\<lambda>_.
     bnd (dir_set yd yname n) (\<lambda>_.
     bnd (dir_del xd xname) (\<lambda>_.
     bnd (case old of Some i \<Rightarrow> add_nlink (-1) i | None \<Rightarrow> ret ()) (\<lambda>_.
     bnd (touch_node now True xd) (\<lambda>_.
     touch_node now True yd)))))))))))"

definition rename :: "int \<Rightarrow> string \<Rightarrow> string \<Rightarrow> string \<Rightarrow> cred \<Rightarrow> (vfs, unit) kop" where
  "rename now a b cwd c =
     bnd (par now a cwd c) (\<lambda>x.
     bnd (dir_get (fst x) (fst (snd x))) (\<lambda>z.
     bnd (of_option ENOENT z) (\<lambda>n.
     bnd (par now b cwd c) (\<lambda>y.
     move_entry now x n y))))"

definition link :: "int \<Rightarrow> string \<Rightarrow> string \<Rightarrow> string \<Rightarrow> cred \<Rightarrow> (vfs, unit) kop" where
  "link now a b cwd c =
     bnd (at now a cwd c True) (\<lambda>(n, _).
     bnd (asks (\<lambda>fs. is_dir fs n)) (\<lambda>isd.
     bnd (check (\<not> isd) EPERM) (\<lambda>_.
     bnd (par now b cwd c) (\<lambda>(d, name, path).
     bnd (dir_get d name) (\<lambda>z.
     bnd (check (z = None) EEXIST) (\<lambda>_.
     bnd (dir_set d name n) (\<lambda>_.
     bnd (add_nlink 1 n) (\<lambda>_.
     touch_node now False n))))))))"

definition symlink :: "int \<Rightarrow> string \<Rightarrow> string \<Rightarrow> string \<Rightarrow> cred \<Rightarrow> (vfs, unit) kop" where
  "symlink now to p cwd c =
     bnd (par now p cwd c) (\<lambda>(d, name, path).
     bnd (dir_get d name) (\<lambda>z.
     bnd (check (z = None) EEXIST) (\<lambda>_.
     bnd (alloc (new_node now (Sym to) 0x1ff (credUid c) (credGid c))) (\<lambda>i.
     bnd (dir_set d name i) (\<lambda>_.
     touch_node now True d)))))"

definition readlink :: "int \<Rightarrow> string \<Rightarrow> string \<Rightarrow> cred \<Rightarrow> (vfs, string) kop" where
  "readlink now p cwd c =
     bnd (at now p cwd c False) (\<lambda>(i, path).
     bnd (asks (\<lambda>fs. n_body (node fs i))) (\<lambda>b.
     case b of Sym to \<Rightarrow> ret to | _ \<Rightarrow> bad EINVAL))"

section \<open>Attributes\<close>

definition chmod :: "int \<Rightarrow> string \<Rightarrow> u32 \<Rightarrow> string \<Rightarrow> cred \<Rightarrow> (vfs, unit) kop" where
  "chmod now p mode cwd c =
     bnd (at now p cwd c False) (\<lambda>(i, path).
     bnd (asks (\<lambda>fs. n_uid (node fs i))) (\<lambda>owner.
     bnd (check (\<not> (credUid c \<noteq> 0 \<and> credUid c \<noteq> owner)) EPERM) (\<lambda>_.
     bnd (modify (set_node i (\<lambda>n. n\<lparr>n_mode := mode AND 0xfff\<rparr>))) (\<lambda>_.
     touch_node now False i))))"

definition chown :: "int \<Rightarrow> string \<Rightarrow> int \<Rightarrow> int \<Rightarrow> string \<Rightarrow> cred \<Rightarrow> (vfs, unit) kop" where
  "chown now p uid gid cwd c =
     bnd (check (\<not> credUid c \<noteq> 0) EPERM) (\<lambda>_.
     bnd (at now p cwd c False) (\<lambda>(i, path).
     bnd (modify (set_node i (\<lambda>n. n\<lparr>n_uid := uid, n_gid := gid, n_mode := n_mode n AND NOT 0xc00\<rparr>))) (\<lambda>_.
     touch_node now False i)))"

definition utime :: "int \<Rightarrow> string \<Rightarrow> int \<Rightarrow> int \<Rightarrow> string \<Rightarrow> cred \<Rightarrow> bool \<Rightarrow> (vfs, unit) kop" where
  "utime now p atime mtime cwd c follow =
     bnd (at now p cwd c follow) (\<lambda>(i, path).
     bnd (asks (\<lambda>fs. n_uid (node fs i))) (\<lambda>owner.
     bnd (check (\<not> (credUid c \<noteq> 0 \<and> credUid c \<noteq> owner)) EPERM) (\<lambda>_.
     modify (set_node i (\<lambda>n. n\<lparr>n_at := atime, n_mt := mtime, n_ct := now\<rparr>)))))"

text \<open>\<open>enc(s).length\<close> for the characters of the model: one byte below 128, two above.\<close>

definition enc_len :: "string \<Rightarrow> nat" where
  "enc_len s = sum_list (map (\<lambda>ch. if (of_char ch :: nat) < 128 then 1 else 2) s)"

datatype kind = File_kind | Dir_kind | Link_kind | Char_kind

fun body_kind :: "body \<Rightarrow> kind" where
  "body_kind (Reg r) = File_kind"
| "body_kind (Dir e) = Dir_kind"
| "body_kind (Sym to) = Link_kind"
| "body_kind (Chr r w rep) = Char_kind"

record st =
  st_ino :: nat
  st_kind :: kind
  st_mode :: u32
  st_uid :: int
  st_gid :: int
  st_nlink :: int
  st_size :: nat
  st_at :: int
  st_mt :: int
  st_ct :: int

fun body_size :: "body \<Rightarrow> nat" where
  "body_size (Reg r) = reg_size r"
| "body_size (Dir e) = length e"
| "body_size (Sym to) = enc_len to"
| "body_size (Chr r w rep) = 0"

definition stat :: "int \<Rightarrow> string \<Rightarrow> string \<Rightarrow> cred \<Rightarrow> bool \<Rightarrow> (vfs, st) kop" where
  "stat now p cwd c follow =
     bnd (at now p cwd c follow) (\<lambda>(i, path).
     asks (\<lambda>fs. let n = node fs i in
       \<lparr>st_ino = i + 1, st_kind = body_kind (n_body n), st_mode = n_mode n, st_uid = n_uid n,
        st_gid = n_gid n, st_nlink = n_nlink n, st_size = body_size (n_body n),
        st_at = n_at n, st_mt = n_mt n, st_ct = n_ct n\<rparr>))"

section \<open>A new file system\<close>

definition new_vfs :: "int \<Rightarrow> nat \<Rightarrow> vfs" where
  "new_vfs now cap = \<lparr>nodes = [new_node now (Dir []) 0x1ed 0 0], vcap = cap\<rparr>"

end
