(* ===== verification/VfsWalk.thy ===== *)
theory VfsWalk
  imports Vfs
begin

text \<open>
  What the path walk computes: a link is resolved against its directory and the rest of the path is
  appended; walking a path is walking its parent and taking one more step; with links to be
  followed the walk never ends at a link.
\<close>

section \<open>Link targets as segments\<close>

lemma split_slash_concat: "split_slash (p @ CHR ''/'' # q) = split_slash p @ split_slash q"
proof (induction p)
  case (Cons a p)
  then show ?case by (cases "split_slash p") auto
qed simp

lemma seg_concat: "seg (p @ CHR ''/'' # q) = seg p @ seg q"
  by (simp add: seg_def split_slash_concat)

lemma canonical_append [simp]: "canonical (xs @ ys) \<longleftrightarrow> canonical xs \<and> canonical ys"
  by (auto simp: canonical_def)

lemma canonical_Cons [simp]: "canonical (x # xs) \<longleftrightarrow> is_name x \<and> x \<noteq> ''..'' \<and> canonical xs"
  by (auto simp: canonical_def)

lemma canonical_Nil [simp]: "canonical []"
  by (simp add: canonical_def)

lemma norm_dst:
  assumes "canonical rest"
  shows "norm (norm to base @ (if rest \<noteq> [] then path_of rest else [])) ''/'' = path_of (segs_of to base @ rest)"
proof -
  let ?p = "norm to base @ (if rest \<noteq> [] then path_of rest else [])"
  have "seg ?p = segs_of to base @ rest"
  proof (cases "rest = []")
    case False
    have "path_of rest = CHR ''/'' # join_slash rest" by (simp add: path_of_def)
    then have "seg ?p = segs_of to base @ seg (join_slash rest)"
      using False by (simp add: seg_concat)
    also have "seg (join_slash rest) = seg (path_of rest)" by (simp add: path_of_def seg_slash)
    finally show ?thesis using assms by (simp add: canonical_names)
  qed simp
  moreover have "absolute ?p" by (simp add: norm_path_of absolute_def path_of_def)
  ultimately show ?thesis
    using assms by (simp add: norm_path_of [of ?p] segs_of_def [of ?p] norm_segs_id)
qed

section \<open>The walk over canonical paths\<close>

lemma walk_Suc:
  "canonical xs \<Longrightarrow> walk (Suc k) fs c follow (path_of xs) =
     (if xs = [] then Inr (0, ''/'')
      else map_sum id (apsnd path_of) (walk_from (walk k fs c follow) fs c follow [] 0 xs))"
  by (simp add: path_of_eq_slash canonical_names)

text \<open>One step: the directory check, the permission, the lookup.\<close>

lemma walk_step:
  "walk_from again fs c follow done n (x # rest) =
     (if \<not> is_dir fs n then Inl ENOTDIR
      else if \<not> perm_ok (node fs n) c 1 then Inl EACCES
      else (case ent_get (ents fs n) x of
          None \<Rightarrow> Inl ENOENT
        | Some z \<Rightarrow>
            (case (if follow \<or> rest \<noteq> [] then link_to fs z else None) of
                Some to \<Rightarrow> map_sum id (apsnd seg) (again (path_of (segs_of to (path_of done) @ rest)))
              | None \<Rightarrow> walk_from again fs c follow (done @ [x]) z rest)))"
  if "canonical rest"
  using that by (simp only: walk_from.simps Let_def norm_dst)

lemma walk_from_snoc:
  assumes "canonical [x]"
    and again: "\<And>ys q. canonical ys \<Longrightarrow> again1 (path_of ys) = Inr (d, q) \<Longrightarrow> canonical (seg q) \<Longrightarrow>
      \<exists>k < j. map_sum id (apsnd seg) (again2 (path_of (ys @ [x]))) =
        walk_from (walk k fs c follow) fs c follow (seg q) d [x]"
    and again2: "again2 = walk j0 fs c follow" "j0 < j"
    and seg1: "\<And>ys n q. canonical ys \<Longrightarrow> again1 (path_of ys) = Inr (n, q) \<Longrightarrow> canonical (seg q)"
  shows "canonical as \<Longrightarrow> walk_from again1 fs c True done n as = Inr (d, q) \<Longrightarrow>
    \<exists>k < j. walk_from again2 fs c follow done n (as @ [x]) = walk_from (walk k fs c follow) fs c follow q d [x]"
proof (induction as arbitrary: "done" n)
  case Nil
  then show ?case using again2 by (auto simp del: walk_from.simps(2))
next
  case (Cons a as)
  then obtain z where z: "is_dir fs n" "perm_ok (node fs n) c 1" "ent_get (ents fs n) a = Some z"
    by (auto split: if_splits option.splits)
  have can: "canonical as" "canonical (as @ [x])" using Cons.prems(1) assms(1) by simp_all
  show ?case
  proof (cases "link_to fs z")
    case None
    then have "walk_from again1 fs c True (done @ [a]) z as = Inr (d, q)"
      using Cons.prems(2) z can by (simp add: walk_step del: walk_from.simps(2))
    from Cons.IH [OF can(1) this] show ?thesis
      using z None can by (simp add: walk_step [of "as @ [x]"] del: walk_from.simps(2))
  next
    case (Some to)
    let ?ys = "segs_of to (path_of done) @ as"
    have "map_sum id (apsnd seg) (again1 (path_of ?ys)) = Inr (d, q)"
      using Cons.prems(2) z Some can by (simp add: walk_step del: walk_from.simps(2))
    then obtain q' where q': "again1 (path_of ?ys) = Inr (d, q')" "q = seg q'"
      by (cases "again1 (path_of ?ys)") auto
    have "\<exists>k < j. map_sum id (apsnd seg) (again2 (path_of (?ys @ [x]))) =
        walk_from (walk k fs c follow) fs c follow (seg q') d [x]"
      using again [OF _ q'(1) seg1 [OF _ q'(1)]] can by simp
    then show ?thesis
      using z Some can q' by (simp add: walk_step [of "as @ [x]"] del: walk_from.simps(2))
  qed
qed

text \<open>The path a walk returns is canonical.\<close>

lemma walk_from_canonical:
  assumes "\<And>ys n q. canonical ys \<Longrightarrow> again (path_of ys) = Inr (n, q) \<Longrightarrow> canonical (seg q)"
  shows "canonical done \<Longrightarrow> canonical rest \<Longrightarrow> walk_from again fs c follow done n rest = Inr (m, q) \<Longrightarrow> canonical q"
proof (induction rest arbitrary: "done" n)
  case (Cons x rest)
  then obtain z where z: "is_dir fs n" "perm_ok (node fs n) c 1" "ent_get (ents fs n) x = Some z"
    by (auto split: if_splits option.splits)
  show ?case
  proof (cases "if follow \<or> rest \<noteq> [] then link_to fs z else None")
    case None
    then have "walk_from again fs c follow (done @ [x]) z rest = Inr (m, q)"
      using Cons.prems z by (simp add: walk_step del: walk_from.simps(2))
    then show ?thesis using Cons.prems by (intro Cons.IH [of "done @ [x]" z]) simp_all
  next
    case (Some to)
    then have "map_sum id (apsnd seg) (again (path_of (segs_of to (path_of done) @ rest))) = Inr (m, q)"
      using Cons.prems z by (simp add: walk_step del: walk_from.simps(2))
    then show ?thesis
      using assms [of "segs_of to (path_of done) @ rest"] Cons.prems
      by (cases "again (path_of (segs_of to (path_of done) @ rest))") auto
  qed
qed simp

lemma walk_canonical:
  "canonical xs \<Longrightarrow> walk k fs c follow (path_of xs) = Inr (n, q) \<Longrightarrow> canonical (seg q) \<and> q = path_of (seg q)"
proof (induction k arbitrary: xs n q)
  case (Suc k)
  show ?case
  proof (cases "xs = []")
    case True
    then have "q = path_of []" using Suc.prems walk_Suc [of "[]" k fs c follow] by (simp add: path_of_def)
    then show ?thesis by simp
  next
    case False
    then obtain q' where q': "walk_from (walk k fs c follow) fs c follow [] 0 xs = Inr (n, q')" "q = path_of q'"
      using Suc.prems by (cases "walk_from (walk k fs c follow) fs c follow [] 0 xs") (auto simp: walk_Suc simp del: walk.simps)
    have "canonical q'"
      by (rule walk_from_canonical [OF _ _ Suc.prems(1) q'(1)]) (use Suc.IH in auto)
    then show ?thesis by (simp add: q' canonical_names)
  qed
qed simp

lemma map_sum_seg: "map_sum id (apsnd seg) (map_sum id (apsnd path_of) r) = r"
  if "\<And>n q. r = Inr (n, q) \<Longrightarrow> canonical q"
  using that by (cases r) (auto simp: canonical_names)

text \<open>Walking to a name is walking to its directory and taking one step, with some rounds left.\<close>

lemma walk_snoc_aux:
  assumes x: "canonical [x]"
  shows "canonical as \<Longrightarrow> walk left fs c True (path_of as) = Inr (d, q) \<Longrightarrow>
    \<exists>k < left. map_sum id (apsnd seg) (walk left fs c follow (path_of (as @ [x]))) =
      walk_from (walk k fs c follow) fs c follow (seg q) d [x]"
proof (induction left arbitrary: as d q)
  case (Suc left)
  let ?r = "walk_from (walk left fs c follow) fs c follow [] 0 (as @ [x])"
  have can: "canonical (as @ [x])" using x Suc.prems by simp
  have "walk_from (walk left fs c follow) fs c follow [] 0 (as @ [x]) = Inr (n, q') \<Longrightarrow> canonical q'" for n q'
    by (rule walk_from_canonical [OF _ _ can]) (use walk_canonical in auto)
  then have r: "map_sum id (apsnd seg) (walk (Suc left) fs c follow (path_of (as @ [x]))) = ?r"
    unfolding walk_Suc [OF can] by (simp add: map_sum_seg)
  show ?case
  proof (cases "as = []")
    case True
    then have "d = 0" "q = ''/''" using Suc.prems walk_Suc [of "[]" left fs c True] by (simp_all add: path_of_def)
    then have "?r = walk_from (walk left fs c follow) fs c follow (seg q) d [x]"
      using True by (simp add: seg_def del: walk_from.simps)
    then show ?thesis unfolding r by blast
  next
    case False
    then obtain q' where q': "walk_from (walk left fs c True) fs c True [] 0 as = Inr (d, q')" "q = path_of q'"
      using Suc.prems by (cases "walk_from (walk left fs c True) fs c True [] 0 as") (auto simp: walk_Suc simp del: walk.simps)
    have "canonical q'"
      by (rule walk_from_canonical [OF _ _ Suc.prems(1) q'(1)]) (use walk_canonical in auto)
    have "\<exists>k < Suc left. ?r = walk_from (walk k fs c follow) fs c follow q' d [x]"
    proof (rule walk_from_snoc [OF x _ refl _ _ Suc.prems(1) q'(1)])
      fix ys q assume "canonical ys" "walk left fs c True (path_of ys) = Inr (d, q)"
      from Suc.IH [OF this] show "\<exists>k<Suc left. map_sum id (apsnd seg) (walk left fs c follow (path_of (ys @ [x]))) =
          walk_from (walk k fs c follow) fs c follow (seg q) d [x]"
        using less_SucI by blast
    qed (use walk_canonical in auto)
    then show ?thesis unfolding r using \<open>canonical q'\<close> by (simp add: q' canonical_names)
  qed
qed simp

lemma walk_snoc:
  assumes "canonical (as @ [x])" "walk left fs c True (path_of as) = Inr (d, q)"
  obtains k where "k < left" "walk left fs c follow (path_of (as @ [x])) =
      map_sum id (apsnd path_of) (walk_from (walk k fs c follow) fs c follow (seg q) d [x])"
proof -
  obtain k where k: "k < left" "map_sum id (apsnd seg) (walk left fs c follow (path_of (as @ [x]))) =
      walk_from (walk k fs c follow) fs c follow (seg q) d [x]"
    using walk_snoc_aux [of x as left fs c d q follow] assms by auto
  have "map_sum id (apsnd path_of) (map_sum id (apsnd seg) (walk left fs c follow (path_of (as @ [x])))) =
      walk left fs c follow (path_of (as @ [x]))"
    using walk_canonical [OF assms(1), of left fs c follow] 
    by (cases "walk left fs c follow (path_of (as @ [x]))") auto
  then show ?thesis using k that by metis
qed

section \<open>Links are followed\<close>

lemma walk_from_no_link:
  assumes "\<And>p n q. again p = Inr (n, q) \<Longrightarrow> link_to fs n = None"
  shows "link_to fs n = None \<Longrightarrow> walk_from again fs c True done n rest = Inr (m, q) \<Longrightarrow> link_to fs m = None"
proof (induction rest arbitrary: "done" n)
  case (Cons x rest)
  then obtain z where z: "is_dir fs n" "ent_get (ents fs n) x = Some z"
    by (auto split: if_splits option.splits)
  show ?case
  proof (cases "link_to fs z")
    case None
    then have "walk_from again fs c True (done @ [x]) z rest = Inr (m, q)"
      using Cons.prems z by (simp split: if_splits)
    then show ?thesis using Cons.IH None by blast
  next
    case (Some to)
    then have "\<exists>p. map_sum id (apsnd seg) (again p) = Inr (m, q)"
      using Cons.prems z by (auto simp: Let_def split: if_splits)
    then obtain p where "map_sum id (apsnd seg) (again p) = Inr (m, q)" by blast
    then have "\<exists>q'. again p = Inr (m, q')" by (cases "again p") auto
    then show ?thesis using assms by blast
  qed
qed simp

lemma link_dir: "is_dir fs n \<Longrightarrow> link_to fs n = None"
  by (cases "n_body (node fs n)") (simp_all add: is_dir_def link_to_def)

lemma walk_no_link: "is_dir fs 0 \<Longrightarrow> walk k fs c True p = Inr (n, q) \<Longrightarrow> link_to fs n = None"
proof (induction k arbitrary: p n q)
  case (Suc k)
  show ?case
  proof (cases "p = ''/''")
    case True
    then show ?thesis using Suc.prems by (simp add: link_dir)
  next
    case False
    then obtain q' where "walk_from (walk k fs c True) fs c True [] 0 (seg p) = Inr (n, q')"
      using Suc.prems by (cases "walk_from (walk k fs c True) fs c True [] 0 (seg p)") auto
    then show ?thesis
      using walk_from_no_link Suc.IH [OF Suc.prems(1)] link_dir [OF Suc.prems(1)] by blast
  qed
qed simp

end
