(* ===== verification/VfsInv.thy ===== *)
theory VfsInv
  imports VfsWalk
begin

text \<open>
  The invariant of the file system and its preservation: no dangling entry, no duplicate or
  ill-formed name, the link count of every linked node is the number of its names, a directory or
  symbolic link has at most one name and the root none. Every operation keeps it, whether it returns or raises.
\<close>

section \<open>The invariant\<close>

definition entry_name :: "string \<Rightarrow> bool" where
  "entry_name x \<longleftrightarrow> is_name x \<and> x \<noteq> ''..'' \<and> length x \<le> 255"

definition shape_ok :: "vfs \<Rightarrow> bool" where
  "shape_ok fs \<longleftrightarrow> 0 < length (nodes fs) \<and> is_dir fs 0 \<and>
     (\<forall>d < length (nodes fs). ents_ok (ents fs d) \<and>
        (\<forall>x i. ent_get (ents fs d) x = Some i \<longrightarrow> entry_name x \<and> 0 < i \<and> i < length (nodes fs)))"

text \<open>The number of names of a node.\<close>

definition refs :: "vfs \<Rightarrow> ino \<Rightarrow> nat" where
  "refs fs i = (\<Sum>d < length (nodes fs). ent_occ (ents fs d) i)"

text \<open>Directories and symbolic links have at most one name: hard links go to files and devices only.\<close>

fun single_body :: "body \<Rightarrow> bool" where
  "single_body (Dir e) = True"
| "single_body (Sym to) = True"
| "single_body _ = False"

definition single :: "vfs \<Rightarrow> ino \<Rightarrow> bool" where
  "single fs i = single_body (n_body (node fs i))"

definition links_ok :: "vfs \<Rightarrow> bool" where
  "links_ok fs \<longleftrightarrow> (\<forall>i < length (nodes fs).
     (0 < refs fs i \<longrightarrow> n_nlink (node fs i) = int (refs fs i)) \<and> (single fs i \<longrightarrow> refs fs i \<le> 1))"

definition vfs_ok :: "vfs \<Rightarrow> bool" where
  "vfs_ok fs \<longleftrightarrow> shape_ok fs \<and> links_ok fs"

section \<open>Elementary updates\<close>

abbreviation put_ent :: "ino \<Rightarrow> string \<Rightarrow> ino \<Rightarrow> vfs \<Rightarrow> vfs" where
  "put_ent d x i \<equiv> set_node d (set_ents (ent_set x i))"
abbreviation del_ent :: "ino \<Rightarrow> string \<Rightarrow> vfs \<Rightarrow> vfs" where
  "del_ent d x \<equiv> set_node d (set_ents (ent_del x))"
abbreviation add_node :: "vnode \<Rightarrow> vfs \<Rightarrow> vfs" where
  "add_node n fs \<equiv> fs\<lparr>nodes := nodes fs @ [n]\<rparr>"

lemma length_set_node [simp]: "length (nodes (set_node i f fs)) = length (nodes fs)"
  by (simp add: set_node_def)

lemma vcap_set_node [simp]: "vcap (set_node i f fs) = vcap fs"
  by (simp add: set_node_def)

lemma node_set_node: "j < length (nodes fs) \<Longrightarrow> node (set_node i f fs) j = (if i = j then f (node fs j) else node fs j)"
  by (simp add: node_def set_node_def)

lemma node_add_node: "j < length (nodes fs) \<Longrightarrow> node (add_node n fs) j = node fs j"
  "node (add_node n fs) (length (nodes fs)) = n"
  by (simp_all add: node_def nth_append)

lemma body_ents_on [simp]: "is_dir_body b \<Longrightarrow> body_ents (on_ents f b) = f (body_ents b)"
  by (cases b) auto

lemma is_dir_on [simp]: "is_dir_body (on_ents f b) = is_dir_body b"
  by (cases b) auto

lemma single_on [simp]: "single_body (on_ents f b) = single_body b"
  by (cases b) auto

lemma not_dir_ents: "\<not> is_dir_body b \<Longrightarrow> body_ents b = []"
  by (cases b) auto

lemma set_ents_fields [simp]: "n_nlink (set_ents f n) = n_nlink n" "n_body (set_ents f n) = on_ents f (n_body n)"
  "n_mode (set_ents f n) = n_mode n" "n_uid (set_ents f n) = n_uid n" "n_gid (set_ents f n) = n_gid n"
  by (simp_all add: set_ents_def)

lemma touch_fields [simp]: "n_body (touch now data n) = n_body n" "n_nlink (touch now data n) = n_nlink n"
  "n_mode (touch now data n) = n_mode n" "n_uid (touch now data n) = n_uid n" "n_gid (touch now data n) = n_gid n"
  by (simp_all add: touch_def)

text \<open>Updates that leave entries, kind and link count of a node alone.\<close>

definition quiet :: "(vnode \<Rightarrow> vnode) \<Rightarrow> vnode \<Rightarrow> bool" where
  "quiet f n \<longleftrightarrow> body_ents (n_body (f n)) = body_ents (n_body n) \<and>
     is_dir_body (n_body (f n)) = is_dir_body (n_body n) \<and>
     single_body (n_body (f n)) = single_body (n_body n) \<and> n_nlink (f n) = n_nlink n"

lemma ents_set_node: "j < length (nodes fs) \<Longrightarrow>
    ents (set_node i f fs) j = (if i = j then body_ents (n_body (f (node fs j))) else ents fs j)"
  by (simp add: ents_def node_set_node)

lemma is_dir_set_node: "j < length (nodes fs) \<Longrightarrow>
    is_dir (set_node i f fs) j = (if i = j then is_dir_body (n_body (f (node fs j))) else is_dir fs j)"
  by (simp add: is_dir_def node_set_node)

lemma quiet_ents: "quiet f (node fs i) \<Longrightarrow> j < length (nodes fs) \<Longrightarrow> ents (set_node i f fs) j = ents fs j"
  by (cases "i = j") (simp_all add: ents_set_node quiet_def, simp add: ents_def)

lemma quiet_is_dir: "quiet f (node fs i) \<Longrightarrow> j < length (nodes fs) \<Longrightarrow> is_dir (set_node i f fs) j = is_dir fs j"
  by (cases "i = j") (simp_all add: is_dir_set_node quiet_def, simp add: is_dir_def)

lemma single_set_node: "j < length (nodes fs) \<Longrightarrow>
    single (set_node i f fs) j = (if i = j then single_body (n_body (f (node fs j))) else single fs j)"
  by (simp add: single_def node_set_node)

lemma quiet_single: "quiet f (node fs i) \<Longrightarrow> j < length (nodes fs) \<Longrightarrow> single (set_node i f fs) j = single fs j"
  by (cases "i = j") (simp_all add: single_set_node quiet_def, simp add: single_def)

lemma quiet_nlink: "quiet f (node fs i) \<Longrightarrow> j < length (nodes fs) \<Longrightarrow>
    n_nlink (node (set_node i f fs) j) = n_nlink (node fs j)"
  by (cases "i = j") (simp_all add: node_set_node quiet_def)

lemma refs_quiet: "quiet f (node fs i) \<Longrightarrow> refs (set_node i f fs) w = refs fs w"
  by (simp add: refs_def quiet_ents)

lemma put_ents: "is_dir fs d \<Longrightarrow> j < length (nodes fs) \<Longrightarrow>
    ents (put_ent d x i fs) j = (if d = j then ent_set x i (ents fs j) else ents fs j)"
  by (cases "d = j") (simp_all add: ents_set_node is_dir_def ents_def [of fs])

lemma del_ents: "is_dir fs d \<Longrightarrow> j < length (nodes fs) \<Longrightarrow>
    ents (del_ent d x fs) j = (if d = j then ent_del x (ents fs j) else ents fs j)"
  by (cases "d = j") (simp_all add: ents_set_node is_dir_def ents_def [of fs])

lemma set_ents_is_dir [simp]: "is_dir (set_node d (set_ents f) fs) j = is_dir fs j" if "j < length (nodes fs)"
  using that by (simp add: is_dir_set_node) (simp add: is_dir_def)

lemma set_ents_single [simp]: "single (set_node d (set_ents f) fs) j = single fs j" if "j < length (nodes fs)"
  using that by (simp add: single_set_node) (simp add: single_def)

lemma set_ents_nlink [simp]: "n_nlink (node (set_node d (set_ents f) fs) j) = n_nlink (node fs j)"
  if "j < length (nodes fs)"
  using that by (simp add: node_set_node)

text \<open>Counting names, one directory changed.\<close>

lemma sum_changed:
  fixes g h :: "nat \<Rightarrow> nat"
  assumes "d < n" "\<And>j. j < n \<Longrightarrow> j \<noteq> d \<Longrightarrow> g j = h j"
  shows "(\<Sum>j<n. g j) + h d = (\<Sum>j<n. h j) + g d"
proof -
  have "(\<Sum>j<n. g j) = g d + (\<Sum>j\<in>{..<n} - {d}. g j)" "(\<Sum>j<n. h j) = h d + (\<Sum>j\<in>{..<n} - {d}. h j)"
    using assms(1) by (simp_all add: sum.remove)
  moreover have "(\<Sum>j\<in>{..<n} - {d}. g j) = (\<Sum>j\<in>{..<n} - {d}. h j)"
    by (rule sum.cong) (use assms(2) in auto)
  ultimately show ?thesis by simp
qed

lemma refs_put:
  assumes "d < length (nodes fs)" "is_dir fs d" "ents_ok (ents fs d)"
  shows "refs (put_ent d x i fs) w + (if ent_get (ents fs d) x = Some w then 1 else 0) =
    refs fs w + (if i = w then 1 else 0)"
  using sum_changed [OF assms(1), of "\<lambda>j. ent_occ (ents (put_ent d x i fs) j) w" "\<lambda>j. ent_occ (ents fs j) w"]
    dir.occ_put [OF assms(3), of x i w] assms(1,2)
  by (simp add: refs_def put_ents split: if_splits)

lemma refs_del:
  assumes "d < length (nodes fs)" "is_dir fs d" "ents_ok (ents fs d)"
  shows "refs (del_ent d x fs) w + (if ent_get (ents fs d) x = Some w then 1 else 0) = refs fs w"
  using sum_changed [OF assms(1), of "\<lambda>j. ent_occ (ents (del_ent d x fs) j) w" "\<lambda>j. ent_occ (ents fs j) w"]
    dir.occ_del [OF assms(3), of x w] assms(1,2)
  by (simp add: refs_def del_ents split: if_splits)

lemma add_node_simps [simp]:
  "j < length (nodes fs) \<Longrightarrow> ents (add_node n fs) j = ents fs j"
  "j < length (nodes fs) \<Longrightarrow> is_dir (add_node n fs) j = is_dir fs j"
  "j < length (nodes fs) \<Longrightarrow> single (add_node n fs) j = single fs j"
  "j < length (nodes fs) \<Longrightarrow> node (add_node n fs) j = node fs j"
  "node (add_node n fs) (length (nodes fs)) = n"
  "ents (add_node n fs) (length (nodes fs)) = body_ents (n_body n)"
  by (simp_all add: ents_def is_dir_def single_def node_add_node)

lemma refs_add_node: "body_ents (n_body n) = [] \<Longrightarrow> refs (add_node n fs) w = refs fs w"
  by (simp add: refs_def ent_occ_def)

lemma refs_pos: "shape_ok fs \<Longrightarrow> 0 < refs fs w \<longleftrightarrow> (\<exists>d < length (nodes fs). \<exists>x. ent_get (ents fs d) x = Some w)"
proof -
  assume ok: "shape_ok fs"
  have "0 < refs fs w \<longleftrightarrow> (\<exists>d < length (nodes fs). 0 < ent_occ (ents fs d) w)"
    by (auto simp: refs_def simp flip: neq0_conv)
  also have "\<dots> \<longleftrightarrow> (\<exists>d < length (nodes fs). \<exists>x. ent_get (ents fs d) x = Some w)"
    using ok dir.occ_pos by (metis shape_ok_def)
  finally show ?thesis .
qed

lemma refs_0 [simp]: "shape_ok fs \<Longrightarrow> refs fs 0 = 0"
  using refs_pos [of fs 0] by (auto simp: shape_ok_def)

lemma refs_beyond: "shape_ok fs \<Longrightarrow> length (nodes fs) \<le> w \<Longrightarrow> refs fs w = 0"
  using refs_pos [of fs w] by (fastforce simp: shape_ok_def)

section \<open>The invariant under elementary updates\<close>

lemma shape_quiet: "shape_ok fs \<Longrightarrow> quiet f (node fs i) \<Longrightarrow> shape_ok (set_node i f fs)"
  unfolding shape_ok_def length_set_node by (metis quiet_ents quiet_is_dir)

lemma ok_quiet: "vfs_ok fs \<Longrightarrow> quiet f (node fs i) \<Longrightarrow> vfs_ok (set_node i f fs)"
  by (simp add: vfs_ok_def shape_quiet) (simp add: links_ok_def refs_quiet quiet_single quiet_nlink)

lemma shape_add: "shape_ok fs \<Longrightarrow> body_ents (n_body n) = [] \<Longrightarrow> shape_ok (add_node n fs)"
  by (auto simp: shape_ok_def less_Suc_eq ents_ok_def ent_get_def)

lemma shape_put:
  "shape_ok fs \<Longrightarrow> d < length (nodes fs) \<Longrightarrow> is_dir fs d \<Longrightarrow> entry_name x \<Longrightarrow> 0 < i \<Longrightarrow>
   i < length (nodes fs) \<Longrightarrow> shape_ok (put_ent d x i fs)"
  by (auto simp: shape_ok_def put_ents dir.ok_put dir.has_put split: if_splits)

lemma shape_del:
  "shape_ok fs \<Longrightarrow> d < length (nodes fs) \<Longrightarrow> is_dir fs d \<Longrightarrow> shape_ok (del_ent d x fs)"
  by (auto simp: shape_ok_def del_ents dir.ok_del dir.has_del split: if_splits)

text \<open>A new node under a name that was free, or that was the only name of the node it replaces.\<close>

lemma ok_new_entry:
  assumes ok: "vfs_ok fs" and d: "d < length (nodes fs)" "is_dir fs d" and x: "entry_name x"
    and once: "\<And>z. ent_get (ents fs d) x = Some z \<Longrightarrow> refs fs z = 1"
    and n: "body_ents (n_body n) = []" "n_nlink n = 1"
  shows "vfs_ok (put_ent d x (length (nodes fs)) (add_node n fs))"
proof -
  let ?i = "length (nodes fs)" and ?a = "add_node n fs"
  have s: "shape_ok fs" and l: "links_ok fs" using ok by (simp_all add: vfs_ok_def)
  have a: "shape_ok ?a" "is_dir ?a d" "d < length (nodes ?a)" "ents_ok (ents ?a d)"
    using s d n by (simp_all add: shape_add) (simp add: shape_ok_def)
  have "0 < ?i" using s by (simp add: shape_ok_def)
  have refs: "refs (put_ent d x ?i ?a) w =
      (if ent_get (ents fs d) x = Some w then (if w = ?i then 1 else 0) else refs fs w + (if w = ?i then 1 else 0))" for w
    using refs_put [OF a(3,2,4), of x ?i w] once [of w] d n(1)
    by (auto simp: refs_add_node split: if_splits)
  have "shape_ok (put_ent d x ?i ?a)"
    using shape_put [OF a(1,3,2) x \<open>0 < ?i\<close>] by simp
  moreover have "links_ok (put_ent d x ?i ?a)"
    unfolding links_ok_def
  proof (intro allI impI)
    fix w assume w: "w < length (nodes (put_ent d x ?i ?a))"
    show "(0 < refs (put_ent d x ?i ?a) w \<longrightarrow> n_nlink (node (put_ent d x ?i ?a) w) = int (refs (put_ent d x ?i ?a) w)) \<and>
        (single (put_ent d x ?i ?a) w \<longrightarrow> refs (put_ent d x ?i ?a) w \<le> 1)"
    proof (cases "w = ?i")
      case True
      then show ?thesis using refs_beyond [OF s, of ?i] n w by (simp add: refs)
    next
      case False
      then show ?thesis using l w by (simp add: refs links_ok_def)
    qed
  qed
  ultimately show ?thesis by (simp add: vfs_ok_def)
qed

lemma ok_fresh_entry:
  "vfs_ok fs \<Longrightarrow> d < length (nodes fs) \<Longrightarrow> is_dir fs d \<Longrightarrow> entry_name x \<Longrightarrow> ent_get (ents fs d) x = None \<Longrightarrow>
   body_ents (n_body n) = [] \<Longrightarrow> n_nlink n = 1 \<Longrightarrow> vfs_ok (put_ent d x (length (nodes fs)) (add_node n fs))"
  by (rule ok_new_entry) auto

text \<open>Taking away the only name of a node.\<close>

lemma ok_del_entry:
  assumes ok: "vfs_ok fs" and d: "d < length (nodes fs)" "is_dir fs d"
    and once: "\<And>i. ent_get (ents fs d) x = Some i \<Longrightarrow> refs fs i = 1"
  shows "vfs_ok (del_ent d x fs)"
proof -
  have s: "shape_ok fs" and l: "links_ok fs" using ok by (simp_all add: vfs_ok_def)
  have e: "ents_ok (ents fs d)" using s d by (simp add: shape_ok_def)
  have "refs (del_ent d x fs) w = (if ent_get (ents fs d) x = Some w then refs fs w - 1 else refs fs w)" for w
    using refs_del [OF d e, of x w] by (auto split: if_splits)
  then show ?thesis
    using shape_del [OF s d] l once by (auto simp: vfs_ok_def links_ok_def)
qed

text \<open>Taking away a name and lowering the link count.\<close>

definition bump :: "int \<Rightarrow> ino \<Rightarrow> vfs \<Rightarrow> vfs" where
  "bump k i = set_node i (\<lambda>n. n\<lparr>n_nlink := n_nlink n + k\<rparr>)"

lemma bump_simps [simp]:
  "length (nodes (bump k i fs)) = length (nodes fs)"
  "j < length (nodes fs) \<Longrightarrow> single (bump k i fs) j = single fs j"
  "j < length (nodes fs) \<Longrightarrow> ents (bump k i fs) j = ents fs j"
  "j < length (nodes fs) \<Longrightarrow> is_dir (bump k i fs) j = is_dir fs j"
  by (simp_all add: bump_def ents_set_node is_dir_set_node single_set_node)
    (simp_all add: ents_def is_dir_def single_def)

lemma refs_bump [simp]: "refs (bump k i fs) w = refs fs w"
  by (simp add: refs_def)

lemma shape_bump [simp]: "shape_ok (bump k i fs) = shape_ok fs"
  by (auto simp: shape_ok_def)

lemma nlink_bump: "j < length (nodes fs) \<Longrightarrow>
    n_nlink (node (bump k i fs) j) = n_nlink (node fs j) + (if i = j then k else 0)"
  by (simp add: bump_def node_set_node)

lemma ok_unlink:
  assumes ok: "vfs_ok fs" and d: "d < length (nodes fs)" "is_dir fs d"
    and i: "ent_get (ents fs d) x = Some i"
  shows "vfs_ok (bump (-1) i (del_ent d x fs))"
proof -
  have s: "shape_ok fs" and l: "links_ok fs" using ok by (simp_all add: vfs_ok_def)
  have e: "ents_ok (ents fs d)" using s d by (simp add: shape_ok_def)
  have r: "refs (del_ent d x fs) w + (if w = i then 1 else 0) = refs fs w" for w
    using refs_del [OF d e, of x w] i by (auto split: if_splits)
  have "links_ok (bump (-1) i (del_ent d x fs))"
    unfolding links_ok_def
  proof (intro allI impI)
    fix w assume "w < length (nodes (bump (-1) i (del_ent d x fs)))"
    then show "(0 < refs (bump (- 1) i (del_ent d x fs)) w \<longrightarrow>
        n_nlink (node (bump (- 1) i (del_ent d x fs)) w) = int (refs (bump (- 1) i (del_ent d x fs)) w)) \<and>
        (single (bump (- 1) i (del_ent d x fs)) w \<longrightarrow> refs (bump (- 1) i (del_ent d x fs)) w \<le> 1)"
      using l r [of w] by (auto simp: links_ok_def nlink_bump split: if_splits)
  qed
  then show ?thesis using shape_del [OF s d] by (simp add: vfs_ok_def)
qed

text \<open>A further name for a file that has one.\<close>

lemma ok_link:
  assumes ok: "vfs_ok fs" and d: "d < length (nodes fs)" "is_dir fs d" and x: "entry_name x"
    and absent: "ent_get (ents fs d) x = None" and i: "i < length (nodes fs)" "\<not> single fs i" "0 < refs fs i"
  shows "vfs_ok (bump 1 i (put_ent d x i fs))"
proof -
  have s: "shape_ok fs" and l: "links_ok fs" using ok by (simp_all add: vfs_ok_def)
  have e: "ents_ok (ents fs d)" using s d by (simp add: shape_ok_def)
  have "0 < i" using s i(3) refs_0 by (metis neq0_conv)
  have r: "refs (put_ent d x i fs) w = refs fs w + (if w = i then 1 else 0)" for w
    using refs_put [OF d e, of x i w] absent by (auto split: if_splits)
  have "links_ok (bump 1 i (put_ent d x i fs))"
    using l i by (auto simp: links_ok_def nlink_bump r)
  then show ?thesis using shape_put [OF s d x \<open>0 < i\<close> i(1)] by (simp add: vfs_ok_def)
qed

text \<open>Moving a name, over another one or not.\<close>

lemma ok_rename:
  assumes ok: "vfs_ok fs" and xd: "xd < length (nodes fs)" "is_dir fs xd"
    and yd: "yd < length (nodes fs)" "is_dir fs yd" and y: "entry_name yname"
    and n: "ent_get (ents fs xd) xname = Some n"
  defines "g \<equiv> del_ent xd xname (put_ent yd yname n fs)"
  shows "vfs_ok (case ent_get (ents fs yd) yname of Some old \<Rightarrow> bump (-1) old g | None \<Rightarrow> g)"
proof -
  let ?old = "ent_get (ents fs yd) yname" and ?p = "put_ent yd yname n fs"
  have s: "shape_ok fs" and l: "links_ok fs" using ok by (simp_all add: vfs_ok_def)
  have e: "ents_ok (ents fs yd)" "ents_ok (ents fs xd)" using s xd yd by (simp_all add: shape_ok_def)
  have n0: "0 < n" "n < length (nodes fs)" using s xd n unfolding shape_ok_def by blast+
  have sp: "shape_ok ?p" "xd < length (nodes ?p)" "is_dir ?p xd"
    using shape_put [OF s yd y n0] xd by simp_all
  have ex: "ents_ok (ents ?p xd)" using sp by (simp add: shape_ok_def)
  have "ent_get (ents ?p xd) xname = Some n"
    using n xd yd e by (simp add: put_ents dir.has_put)
  then have r0: "refs g w + (if n = w then 1 else 0) = refs ?p w" for w
    using refs_del [OF sp(2,3) ex, of xname w] by (simp add: g_def split: if_splits)
  have r: "refs g w + (if ?old = Some w then 1 else 0) = refs fs w" for w
  proof -
    have "refs ?p w + (if ?old = Some w then 1 else 0) = refs fs w + (if n = w then 1 else 0)"
      by (rule refs_put [OF yd e(1)])
    then show ?thesis using r0 [of w] by linarith
  qed
  have g: "shape_ok g" using shape_del [OF sp] by (simp add: g_def)
  have len: "length (nodes g) = length (nodes fs)" by (simp add: g_def)
  have dirs: "single g w = single fs w" "n_nlink (node g w) = n_nlink (node fs w)" if "w < length (nodes fs)" for w
    using that by (simp_all add: g_def)
  show ?thesis
  proof (cases ?old)
    case None
    then show ?thesis using g l r by (simp add: vfs_ok_def links_ok_def len dirs)
  next
    case (Some old)
    have "links_ok (bump (-1) old g)"
      unfolding links_ok_def
    proof (intro allI impI)
      fix w assume "w < length (nodes (bump (-1) old g))"
      then show "(0 < refs (bump (- 1) old g) w \<longrightarrow>
          n_nlink (node (bump (- 1) old g) w) = int (refs (bump (- 1) old g) w)) \<and>
          (single (bump (- 1) old g) w \<longrightarrow> refs (bump (- 1) old g) w \<le> 1)"
        using l r [of w] Some by (auto simp: links_ok_def nlink_bump len dirs split: if_splits)
    qed
    then show ?thesis using Some g by (simp add: vfs_ok_def)
  qed
qed

section \<open>What the walk finds\<close>

definition found :: "vfs \<Rightarrow> ino \<Rightarrow> bool" where
  "found fs n \<longleftrightarrow> n < length (nodes fs) \<and> (n = 0 \<or> 0 < refs fs n)"

lemma found_root: "shape_ok fs \<Longrightarrow> found fs 0"
  by (simp add: found_def shape_ok_def)

lemma found_entry:
  assumes "shape_ok fs" "found fs n" "ent_get (ents fs n) x = Some z"
  shows "found fs z"
proof -
  have n: "n < length (nodes fs)" using assms(2) by (simp add: found_def)
  then have "0 < refs fs z" using refs_pos [OF assms(1), of z] assms(3) by blast
  moreover have "z < length (nodes fs)" using assms(1,3) n unfolding shape_ok_def by blast
  ultimately show ?thesis by (simp add: found_def)
qed

lemma walk_from_found:
  assumes "shape_ok fs" "\<And>p n q. again p = Inr (n, q) \<Longrightarrow> found fs n"
  shows "found fs n \<Longrightarrow> walk_from again fs c follow done n rest = Inr (m, q) \<Longrightarrow> found fs m"
proof (induction rest arbitrary: "done" n)
  case (Cons x rest)
  then obtain z where z: "is_dir fs n" "ent_get (ents fs n) x = Some z"
    by (auto split: if_splits option.splits)
  have "found fs z" using found_entry [OF assms(1) Cons.prems(1)] z(2) by blast
  show ?case
  proof (cases "if follow \<or> rest \<noteq> [] then link_to fs z else None")
    case None
    then have "walk_from again fs c follow (done @ [x]) z rest = Inr (m, q)"
      using Cons.prems(2) z by (simp split: if_splits)
    then show ?thesis using Cons.IH \<open>found fs z\<close> by blast
  next
    case (Some to)
    then have "\<exists>p. map_sum id (apsnd seg) (again p) = Inr (m, q)"
      using Cons.prems(2) z by (auto simp: Let_def split: if_splits)
    then obtain p where "map_sum id (apsnd seg) (again p) = Inr (m, q)" by blast
    then have "\<exists>q'. again p = Inr (m, q')" by (cases "again p") auto
    then show ?thesis using assms(2) by blast
  qed
qed simp

lemma walk_found: "shape_ok fs \<Longrightarrow> walk left fs c follow p = Inr (n, q) \<Longrightarrow> found fs n"
proof (induction left arbitrary: p n q)
  case (Suc left)
  show ?case
  proof (cases "p = ''/''")
    case True
    then show ?thesis using Suc.prems by (simp add: found_root)
  next
    case False
    then obtain q' where "walk_from (walk left fs c follow) fs c follow [] 0 (seg p) = Inr (n, q')"
      using Suc.prems(2) by (cases "walk_from (walk left fs c follow) fs c follow [] 0 (seg p)") auto
    then show ?thesis
      using walk_from_found [OF Suc.prems(1) _ found_root [OF Suc.prems(1)]] Suc.IH [OF Suc.prems(1)] by blast
  qed
qed simp

section \<open>The invariant under the operations\<close>

lemma need_run [kop_simps]:
  "need i c bits fs = (if perm_ok (node fs i) c bits then Inr () else Inl EACCES, fs)"
  "bnd (need i c bits) f fs = (if perm_ok (node fs i) c bits then f () fs else (Inl EACCES, fs))"
  by (simp_all add: need_def bnd_def kop_simps)

lemma quiet_touch [simp]: "quiet (touch now data) n"
  by (simp add: quiet_def)

lemma quiet_at [simp]: "quiet (\<lambda>v. v\<lparr>n_at := now\<rparr>) n"
  by (simp add: quiet_def)

lemma keeps_touch [intro]: "keeps vfs_ok (touch_node now data i)"
  unfolding touch_node_def by (rule keeps_modify) (simp add: ok_quiet)

text \<open>Lookups change nothing but access times.\<close>

definition access_only :: "vfs \<Rightarrow> vfs \<Rightarrow> bool" where
  "access_only fs fs' \<longleftrightarrow> length (nodes fs') = length (nodes fs) \<and> vcap fs' = vcap fs \<and>
     (\<forall>j < length (nodes fs). (node fs' j)\<lparr>n_at := 0\<rparr> = (node fs j)\<lparr>n_at := 0\<rparr>)"

lemma access_refl [simp]: "access_only fs fs"
  by (simp add: access_only_def)

lemma access_trans: "access_only fs fs' \<Longrightarrow> access_only fs' fs'' \<Longrightarrow> access_only fs fs''"
  by (simp add: access_only_def)

lemma access_fields:
  assumes "access_only fs fs'" "j < length (nodes fs)"
  shows "n_body (node fs' j) = n_body (node fs j)" "n_mode (node fs' j) = n_mode (node fs j)"
    "n_uid (node fs' j) = n_uid (node fs j)" "n_gid (node fs' j) = n_gid (node fs j)"
    "n_nlink (node fs' j) = n_nlink (node fs j)"
proof -
  have eq: "(node fs' j)\<lparr>n_at := 0\<rparr> = (node fs j)\<lparr>n_at := 0\<rparr>"
    using assms by (simp add: access_only_def)
  show "n_body (node fs' j) = n_body (node fs j)" using arg_cong [OF eq, of n_body] by simp
  show "n_mode (node fs' j) = n_mode (node fs j)" using arg_cong [OF eq, of n_mode] by simp
  show "n_uid (node fs' j) = n_uid (node fs j)" using arg_cong [OF eq, of n_uid] by simp
  show "n_gid (node fs' j) = n_gid (node fs j)" using arg_cong [OF eq, of n_gid] by simp
  show "n_nlink (node fs' j) = n_nlink (node fs j)" using arg_cong [OF eq, of n_nlink] by simp
qed

lemma access_ents:
  assumes "access_only fs fs'" "j < length (nodes fs)"
  shows "ents fs' j = ents fs j" "is_dir fs' j = is_dir fs j"
  using access_fields [OF assms] by (simp_all add: ents_def is_dir_def)

lemma access_single: "access_only fs fs' \<Longrightarrow> j < length (nodes fs) \<Longrightarrow> single fs' j = single fs j"
  using access_fields by (simp add: single_def)

lemma access_same:
  assumes "access_only fs fs'"
  shows "length (nodes fs') = length (nodes fs)" "vcap fs' = vcap fs" "refs fs' w = refs fs w"
    "found fs' w = found fs w"
    "j < length (nodes fs) \<Longrightarrow> ents fs' j = ents fs j" "j < length (nodes fs) \<Longrightarrow> is_dir fs' j = is_dir fs j"
proof -
  show l: "length (nodes fs') = length (nodes fs)" and "vcap fs' = vcap fs"
    using assms by (simp_all add: access_only_def)
  show r: "refs fs' w = refs fs w" for w
    using access_ents [OF assms] by (simp add: refs_def l)
  then show "found fs' w = found fs w" by (simp add: found_def l)
qed (use access_ents [OF assms] in auto)

lemma access_set_at: "access_only fs (set_node i (\<lambda>v. v\<lparr>n_at := now\<rparr>) fs)"
  by (auto simp: access_only_def node_set_node)

lemma at_access: "at now p cwd c follow fs = (r, fs') \<Longrightarrow> access_only fs fs'"
  by (cases "walk 33 fs c follow (norm p cwd)") (auto simp: at_def kop_simps access_set_at split: if_splits)

lemma par_access: "par now p cwd c fs = (r, fs') \<Longrightarrow> access_only fs fs'"
  unfolding par_def Let_def
  by (cases "at now (path_of (butlast (seg (norm p cwd)))) ''/'' c True fs"; cases "fst (at now (path_of (butlast (seg (norm p cwd)))) ''/'' c True fs)")
    (auto simp: kop_simps dest: at_access split: if_splits)

text \<open>After a successful lookup the found node exists and is named or the root.\<close>

lemma at_spec:
  "hoare vfs_ok (at now p cwd c follow) (\<lambda>(n, q) fs. vfs_ok fs \<and> found fs n \<and> (follow \<longrightarrow> link_to fs n = None)) (\<lambda>_. vfs_ok)"
proof (rule hoareI)
  fix fs assume ok: "vfs_ok fs"
  show "case at now p cwd c follow fs of
      (Inl e, s') \<Rightarrow> vfs_ok s' | (Inr x, s') \<Rightarrow> (case x of (n, q) \<Rightarrow>
        \<lambda>fs. vfs_ok fs \<and> found fs n \<and> (follow \<longrightarrow> link_to fs n = None)) s'"
  proof (cases "walk 33 fs c follow (norm p cwd)")
    case (Inl e)
    then show ?thesis using ok by (simp add: at_def kop_simps del: walk.simps)
  next
    case (Inr r)
    obtain n q where r: "r = (n, q)" by (cases r)
    then have f: "found fs n" "follow \<longrightarrow> link_to fs n = None"
      using walk_found Inr ok walk_no_link by (auto simp: vfs_ok_def shape_ok_def simp del: walk.simps)
    then have "found (set_node n (\<lambda>v. v\<lparr>n_at := now\<rparr>) fs) n"
      "follow \<longrightarrow> link_to (set_node n (\<lambda>v. v\<lparr>n_at := now\<rparr>) fs) n = None"
      by (simp_all add: found_def refs_quiet link_to_def node_set_node)
    then show ?thesis using Inr r ok f by (simp add: at_def kop_simps ok_quiet del: walk.simps)
  qed
qed

definition par_post :: "ino \<times> string \<times> string \<Rightarrow> vfs \<Rightarrow> bool" where
  "par_post = (\<lambda>(d, name, path) fs. vfs_ok fs \<and> d < length (nodes fs) \<and> is_dir fs d \<and> entry_name name)"

lemma norm_last:
  assumes "norm p cwd \<noteq> ''/''" "length (last (seg (norm p cwd))) \<le> 255"
  shows "entry_name (last (seg (norm p cwd)))"
proof -
  have "segs_of p cwd \<noteq> []"
    using assms(1) by (auto simp: norm_path_of path_of_def)
  then have "last (segs_of p cwd) \<in> set (segs_of p cwd)" by simp
  then show ?thesis
    using assms(2) segs_of_canonical [of p cwd] by (auto simp: entry_name_def canonical_def)
qed

lemma par_spec: "hoare vfs_ok (par now p cwd c) par_post (\<lambda>_. vfs_ok)"
proof (rule hoareI)
  fix fs assume ok: "vfs_ok fs"
  let ?q = "norm p cwd"
  show "case par now p cwd c fs of (Inl e, s') \<Rightarrow> vfs_ok s' | (Inr x, s') \<Rightarrow> par_post x s'"
  proof (cases "at now (path_of (butlast (seg ?q))) ''/'' c True fs")
    case (Pair r fs')
    show ?thesis
    proof (cases r)
      case (Inl e)
      then have "vfs_ok fs'" using hoare_err [OF at_spec ok] Pair by blast
      then show ?thesis using ok Pair Inl by (simp add: par_def Let_def kop_simps)
    next
      case (Inr nq)
      then have "vfs_ok fs' \<and> found fs' (fst nq)"
        using hoare_ok [OF at_spec ok Pair [unfolded Inr]] by (simp add: case_prod_beta)
      then show ?thesis
        using ok Pair Inr norm_last [of p cwd]
        by (cases nq) (auto simp: par_def Let_def kop_simps par_post_def found_def)
    qed
  qed
qed

lemma par_cases [case_names err ok]:
  fixes r :: "(errno + 'a \<times> 'b \<times> 'c) \<times> 's"
  assumes "\<And>e fs'. r = (Inl e, fs') \<Longrightarrow> P" "\<And>d x q fs'. r = (Inr (d, x, q), fs') \<Longrightarrow> P"
  shows P
  using assms by (cases r; cases "fst r") auto

text \<open>What a successful \<open>par\<close> has looked up.\<close>

lemma at_run:
  "at now p cwd c follow fs = (case walk 33 fs c follow (norm p cwd) of
     Inl e \<Rightarrow> (Inl e, fs)
   | Inr (n, q) \<Rightarrow> (Inr (n, q), if q = ''/'' then fs else set_node n (\<lambda>v. v\<lparr>n_at := now\<rparr>) fs))"
  by (auto simp: at_def kop_simps simp del: walk.simps split: sum.split)

lemma par_walk:
  assumes "par now p cwd c fs = (Inr (d, x, q), fs')"
  obtains as q' where "norm p cwd = path_of (as @ [x])" "q = norm p cwd" "canonical (as @ [x])"
    "walk 33 fs c True (path_of as) = Inr (d, q')" "length x \<le> 255"
    "is_dir fs' d" "perm_ok (node fs' d) c 3"
    "fs' = (if q' = ''/'' then fs else set_node d (\<lambda>v. v\<lparr>n_at := now\<rparr>) fs)"
proof -
  let ?xs = "segs_of p cwd"
  have ne: "norm p cwd \<noteq> ''/''"
    using assms by (auto simp: par_def Let_def kop_simps split: if_splits)
  then have xs: "?xs = butlast ?xs @ [last ?xs]" by (cases "?xs = []") (simp_all add: norm_path_of path_of_def)
  have can: "canonical (butlast ?xs)" by (rule canonical_butlast) simp
  have nn: "norm (path_of (butlast ?xs)) ''/'' = path_of (butlast ?xs)"
    using can by (rule norm_path_of_id)
  show thesis
  proof (cases "walk 33 fs c True (path_of (butlast ?xs))")
    case (Inl e)
    then show ?thesis
      using assms ne by (auto simp: par_def Let_def kop_simps bnd_def at_run nn simp del: walk.simps split: if_splits)
  next
    case (Inr r)
    obtain n q' where r: "r = (n, q')" by (cases r)
    then have "n = d" "x = last ?xs" "q = norm p cwd" "length x \<le> 255" "is_dir fs' d" "perm_ok (node fs' d) c 3"
      "fs' = (if q' = ''/'' then fs else set_node d (\<lambda>v. v\<lparr>n_at := now\<rparr>) fs)"
      using assms ne Inr
      by (auto simp: par_def Let_def kop_simps bnd_def at_run nn need_def asks_def simp del: walk.simps split: if_splits)
    with that [of "butlast ?xs" q'] Inr r xs show ?thesis
      using segs_of_canonical [of p cwd] norm_path_of [of p cwd] by metis
  qed
qed

text \<open>How the elementary statements run.\<close>

lemma stmt_run [kop_simps]:
  "bnd (alloc n) f fs = f (length (nodes fs)) (add_node n fs)"
  "bnd (dir_set d x i) g fs = g () (put_ent d x i fs)" "dir_set d x i fs = (Inr (), put_ent d x i fs)"
  "bnd (dir_del d x) g fs = g () (del_ent d x fs)" "dir_del d x fs = (Inr (), del_ent d x fs)"
  "bnd (dir_get d x) h fs = h (ent_get (ents fs d) x) fs"
  "bnd (touch_node now data i) g fs = g () (set_node i (touch now data) fs)"
  "touch_node now data i fs = (Inr (), set_node i (touch now data) fs)"
  "bnd (add_nlink k i) g fs = g () (bump k i fs)" "add_nlink k i fs = (Inr (), bump k i fs)"
  "bnd (set_reg i r) g fs = g () (set_node i (\<lambda>n. n\<lparr>n_body := Reg r\<rparr>) fs)"
  "bnd (clear_special i) g fs = g () (set_node i (\<lambda>n. n\<lparr>n_mode := n_mode n AND NOT 0xc00\<rparr>) fs)"
  "bnd (of_option e None) h2 fs = (Inl e, fs)" "bnd (of_option e (Some y)) h3 fs = h3 y fs"
  by (simp_all add: alloc_def dir_set_def dir_del_def dir_get_def touch_node_def add_nlink_def bump_def
      set_reg_def clear_special_def bnd_def kop_simps)

lemma new_node_fields [simp]: "n_nlink (new_node now b mode uid gid) = 1" "n_body (new_node now b mode uid gid) = b"
  by (simp_all add: new_node_def)

lemma quiet_reg [simp]: "n_body n = Reg r \<Longrightarrow> quiet (\<lambda>n. n\<lparr>n_body := Reg r'\<rparr>) n"
  by (simp add: quiet_def)

lemma quiet_attr [simp]:
  "quiet (\<lambda>n. n\<lparr>n_mode := f n\<rparr>) n"
  "quiet (\<lambda>n. n\<lparr>n_uid := u, n_gid := g, n_mode := f n\<rparr>) n"
  "quiet (\<lambda>n. n\<lparr>n_at := a, n_mt := b, n_ct := t\<rparr>) n"
  by (simp_all add: quiet_def)

lemma keeps_par:
  "(\<And>d name path. hoare (par_post (d, name, path)) (f (d, name, path)) (\<lambda>_. vfs_ok) (\<lambda>_. vfs_ok)) \<Longrightarrow>
   keeps vfs_ok (bnd (par now p cwd c) f)"
  unfolding keeps_hoare by (rule hoare_bnd [OF par_spec]) auto

lemma keeps_at:
  "(\<And>i path. hoare (\<lambda>fs. vfs_ok fs \<and> found fs i \<and> (follow \<longrightarrow> link_to fs i = None)) (f (i, path)) (\<lambda>_. vfs_ok) (\<lambda>_. vfs_ok)) \<Longrightarrow>
   keeps vfs_ok (bnd (at now p cwd c follow) f)"
  unfolding keeps_hoare by (rule hoare_bnd [OF at_spec]) auto

lemmas tail_simps = hoare_def kop_simps par_post_def ok_quiet ok_fresh_entry ok_unlink

lemma mkdir_keeps: "keeps vfs_ok (mkdir now p cwd c mode)"
  unfolding mkdir_def by (rule keeps_par) (auto simp: tail_simps)

lemma symlink_keeps: "keeps vfs_ok (symlink now to p cwd c)"
  unfolding symlink_def by (rule keeps_par) (auto simp: tail_simps)

lemma mkchar_keeps: "keeps vfs_ok (mkchar now p r w cwd c mode rep)"
  unfolding mkchar_def by (rule keeps_par) (auto simp: tail_simps)

lemma chmod_keeps: "keeps vfs_ok (chmod now p mode cwd c)"
  unfolding chmod_def by (rule keeps_at) (simp add: tail_simps)

lemma chown_keeps: "keeps vfs_ok (chown now p uid gid cwd c)"
  unfolding chown_def by (rule keeps_bnd, simp, rule keeps_at) (simp add: tail_simps)

lemma utime_keeps: "keeps vfs_ok (utime now p a m cwd c follow)"
  unfolding utime_def by (rule keeps_at) (simp add: tail_simps)

lemma stat_keeps: "keeps vfs_ok (stat now p cwd c follow)"
  unfolding stat_def by (rule keeps_at) (simp add: tail_simps)

lemma listdir_keeps: "keeps vfs_ok (listdir le now p cwd c)"
  unfolding listdir_def by (rule keeps_at) (simp add: tail_simps)

lemma readlink_keeps: "keeps vfs_ok (readlink now p cwd c)"
  unfolding readlink_def by (rule keeps_at) (simp add: tail_simps split: body.split)

lemma readb_keeps: "keeps vfs_ok (readb now p cwd c)"
  unfolding readb_def by (rule keeps_at) (simp add: tail_simps split: body.split)

lemma rm_keeps: "keeps vfs_ok (rm now p cwd c dir)"
  unfolding rm_def
  by (rule keeps_par, rule hoareI, case_tac "ent_get (ents s d) name") (auto simp: tail_simps)

lemma single_iff: "single fs i \<longleftrightarrow> is_dir fs i \<or> link_to fs i \<noteq> None"
  by (cases "n_body (node fs i)") (simp_all add: single_def is_dir_def link_to_def)

lemma entry_exists: "shape_ok fs \<Longrightarrow> d < length (nodes fs) \<Longrightarrow> ent_get (ents fs d) x = Some z \<Longrightarrow>
    z < length (nodes fs) \<and> 0 < refs fs z"
  using refs_pos [of fs z] unfolding shape_ok_def by blast

text \<open>A new name that is taken away again leaves a node without names.\<close>

lemma new_entry_once:
  fixes fs :: vfs and x :: string and d :: ino
  assumes "vfs_ok fs" "d < length (nodes fs)" "is_dir fs d" "body_ents (n_body n) = []"
  defines "g \<equiv> put_ent d x (length (nodes fs)) (add_node n fs)"
  shows "refs g (length (nodes fs)) = 1 \<and> ent_get (ents g d) x = Some (length (nodes fs))"
proof -
  have s: "shape_ok fs" using assms(1) by (simp add: vfs_ok_def)
  then have e: "ents_ok (ents (add_node n fs) d)" using assms(2) by (simp add: shape_ok_def)
  have "ent_get (ents fs d) x \<noteq> Some (length (nodes fs))"
    using entry_exists [OF s assms(2), of x "length (nodes fs)"] by auto
  then have "ent_get (ents (add_node n fs) d) x \<noteq> Some (length (nodes fs))"
    using assms(2) by simp
  then show ?thesis
    using refs_put [OF _ _ e, of x "length (nodes fs)" "length (nodes fs)"] assms refs_beyond [OF s, of "length (nodes fs)"] e
    by (simp add: refs_add_node put_ents dir.has_put)
qed

lemma ok_undo:
  assumes "vfs_ok fs" "d < length (nodes fs)" "is_dir fs d" "entry_name x"
    "ent_get (ents fs d) x = None" "body_ents (n_body n) = []" "n_nlink n = 1"
  shows "vfs_ok (del_ent d x (put_ent d x (length (nodes fs)) (add_node n fs)))"
  using assms new_entry_once [OF assms(1-3,6)] by (intro ok_del_entry) (simp_all add: ok_fresh_entry)

lemma mkfile_keeps: "keeps vfs_ok (mkfile now p data cwd c mode)"
  unfolding mkfile_def
  by (rule keeps_par) (auto simp: tail_simps ok_undo)

lemma after_par:
  assumes "vfs_ok fs" "\<And>d x q fs'. access_only fs fs' \<Longrightarrow> par_post (d, x, q) fs' \<Longrightarrow> vfs_ok (snd (f (d, x, q) fs'))"
  shows "vfs_ok (snd (bnd (par now p cwd c) f fs))"
proof (cases "par now p cwd c fs" rule: par_cases)
  case (err e fs')
  then show ?thesis using hoare_err [OF par_spec assms(1)] by (simp add: kop_simps)
next
  case (ok d x q fs')
  then show ?thesis
    using assms(2) par_access [OF ok] hoare_ok [OF par_spec assms(1) ok] by (simp add: kop_simps)
qed

lemma after_at:
  assumes "vfs_ok fs" "\<And>i q fs'. access_only fs fs' \<Longrightarrow> vfs_ok fs' \<Longrightarrow> found fs' i \<Longrightarrow>
      (follow \<longrightarrow> link_to fs' i = None) \<Longrightarrow> vfs_ok (snd (f (i, q) fs'))"
  shows "vfs_ok (snd (bnd (at now p cwd c follow) f fs))"
proof (cases "at now p cwd c follow fs")
  case (Pair r fs')
  show ?thesis
  proof (cases r)
    case (Inl e)
    then show ?thesis using hoare_err [OF at_spec assms(1)] Pair by (simp add: kop_simps)
  next
    case (Inr iq)
    then show ?thesis
      using assms(2) at_access [OF Pair] hoare_ok [OF at_spec assms(1) Pair [unfolded Inr]] Pair
      by (cases iq) (simp add: kop_simps)
  qed
qed

lemma link_keeps: "keeps vfs_ok (link now a b cwd c)"
  unfolding keeps_def link_def
proof (intro allI impI, rule after_at, assumption)
  fix fs0 n q fs
  assume ok: "vfs_ok fs" "found fs n" "True \<longrightarrow> link_to fs n = None"
  show "vfs_ok (snd ((case (n, q) of (n, _) \<Rightarrow>
     bnd (asks (\<lambda>fs. is_dir fs n)) (\<lambda>isd.
     bnd (check (\<not> isd) EPERM) (\<lambda>_.
     bnd (par now b cwd c) (\<lambda>(d, name, path).
     bnd (dir_get d name) (\<lambda>z.
     bnd (check (z = None) EEXIST) (\<lambda>_.
     bnd (dir_set d name n) (\<lambda>_.
     bnd (add_nlink 1 n) (\<lambda>_.
     touch_node now False n)))))))) fs))"
  proof (cases "is_dir fs n")
    case True
    then show ?thesis using ok by (simp add: kop_simps)
  next
    case False
    then have "0 < refs fs n" "n < length (nodes fs)" "\<not> single fs n"
      using ok by (auto simp: found_def vfs_ok_def shape_ok_def single_iff)
    then show ?thesis
      using ok False by (auto simp: kop_simps par_post_def access_same access_single intro!: after_par ok_quiet ok_link)
  qed
qed

definition open_post :: "ino \<times> (ino \<times> string) option \<Rightarrow> vfs \<Rightarrow> bool" where
  "open_post = (\<lambda>(i, made) fs. vfs_ok fs \<and> found fs i \<and>
     (\<forall>d x. made = Some (d, x) \<longrightarrow> d < length (nodes fs) \<and> is_dir fs d \<and> refs fs i = 1 \<and>
        ent_get (ents fs d) x = Some i))"

text \<open>\<open>writeb\<close> makes a file only where no entry is, or in place of a link that leads nowhere.\<close>

lemma made_over_link:
  assumes ok: "vfs_ok fs" and none: "walk 33 fs c True (norm p cwd) = Inl ENOENT"
    and par: "par now p cwd c fs = (Inr (d, x, q), fs')" and z: "ent_get (ents fs' d) x = Some z"
  shows "link_to fs' z \<noteq> None \<and> refs fs' z = 1"
proof -
  from par obtain as q' where p: "norm p cwd = path_of (as @ [x])" "canonical (as @ [x])"
    "walk 33 fs c True (path_of as) = Inr (d, q')" and fs': "is_dir fs' d"
    by (rule par_walk)
  have acc: "access_only fs fs'" using par by (rule par_access)
  have ok': "vfs_ok fs'" "d < length (nodes fs')"
    using hoare_ok [OF par_spec ok par] by (simp_all add: par_post_def)
  then have d: "d < length (nodes fs)" using access_same [OF acc] by simp
  have z': "ent_get (ents fs d) x = Some z" "is_dir fs d"
    using z fs' access_same(5,6) [OF acc d] by simp_all
  have "z < length (nodes fs')" "0 < refs fs' z"
    using entry_exists [of fs' d x z] ok' z by (simp_all add: vfs_ok_def)
  obtain k where "walk 33 fs c True (path_of (as @ [x])) =
      map_sum id (apsnd path_of) (walk_from (walk k fs c True) fs c True (seg q') d [x])"
    using walk_snoc [OF p(2,3)] by blast
  then have "link_to fs z \<noteq> None"
    using none p z' by (cases "link_to fs z") (auto simp: walk_step simp del: walk.simps walk_from.simps(2) split: if_splits)
  moreover have "link_to fs' z = link_to fs z"
    using access_fields(1) [OF acc, of z] \<open>z < length (nodes fs')\<close> access_same [OF acc] by (simp add: link_to_def)
  ultimately have l: "link_to fs' z \<noteq> None" by simp
  then have "refs fs' z \<le> 1"
    using ok'(1) \<open>z < length (nodes fs')\<close> by (auto simp: vfs_ok_def links_ok_def single_iff)
  then show ?thesis using l \<open>0 < refs fs' z\<close> by simp
qed

lemma open_made:
  assumes ok: "vfs_ok fs" and none: "walk 33 fs c True (norm p cwd) = Inl ENOENT"
    and n: "n_nlink n = 1" "body_ents (n_body n) = []"
    and run: "bnd (par now p cwd c) (\<lambda>(d, name, path).
          bnd (alloc n) (\<lambda>i. bnd (dir_set d name i) (\<lambda>_. bnd (touch_node now True d) (\<lambda>_. ret (i, Some (d, name)))))) fs = (r, fs')"
  shows "case r of Inl e \<Rightarrow> vfs_ok fs' | Inr x \<Rightarrow> open_post x fs'"
proof (cases "par now p cwd c fs" rule: par_cases)
  case (err e fs'')
  then show ?thesis using run hoare_err [OF par_spec ok] by (auto simp: kop_simps)
next
  case (ok d x q fs'')
  have post: "par_post (d, x, q) fs''" using hoare_ok [OF par_spec \<open>vfs_ok fs\<close> ok] .
  let ?g = "put_ent d x (length (nodes fs'')) (add_node n fs'')"
  have "refs fs'' z = 1" if "ent_get (ents fs'' d) x = Some z" for z
    using made_over_link [OF \<open>vfs_ok fs\<close> none ok that] by simp
  then have g: "vfs_ok ?g" "refs ?g (length (nodes fs'')) = 1" "ent_get (ents ?g d) x = Some (length (nodes fs''))"
    using post n ok_new_entry [of fs'' d x n] new_entry_once [of fs'' d n x] by (simp_all add: par_post_def)
  have r: "r = Inr (length (nodes fs''), Some (d, x))" "fs' = set_node d (touch now True) ?g"
    using run ok by (auto simp: kop_simps)
  have "d < length (nodes fs'')" "is_dir fs'' d" using post by (simp_all add: par_post_def)
  then show ?thesis
    using g by (simp add: r open_post_def ok_quiet found_def refs_quiet quiet_ents quiet_is_dir)
qed

lemma open_spec: "hoare vfs_ok (open_or_make now p cwd c mode) open_post (\<lambda>_. vfs_ok)"
proof (rule hoareI)
  fix fs assume ok: "vfs_ok fs"
  let ?R = "\<lambda>r. case r of (Inl e, s') \<Rightarrow> vfs_ok s' | (Inr x, s') \<Rightarrow> open_post x s'"
  show "?R (open_or_make now p cwd c mode fs)"
  proof (cases "walk 33 fs c True (norm p cwd)")
    case (Inl e)
    show ?thesis
    proof (cases "e = ENOENT")
      case True
      obtain r fs' where "open_or_make now p cwd c mode fs = (r, fs')"
        by (cases "open_or_make now p cwd c mode fs")
      moreover from this have "case r of Inl e \<Rightarrow> vfs_ok fs' | Inr x \<Rightarrow> open_post x fs'"
        using Inl True
        by (intro open_made [OF ok, of c p cwd "new_node now (Reg (new_reg [] None)) mode (credUid c) (credGid c)" now])
          (simp_all add: open_or_make_def catch_def bnd_def at_run del: walk.simps)
      ultimately show ?thesis by (simp split: sum.splits)
    next
      case False
      then show ?thesis using Inl ok by (simp add: open_or_make_def catch_def bnd_def at_run bad_def del: walk.simps)
    qed
  next
    case (Inr nq)
    obtain n q where nq: "nq = (n, q)" by (cases nq)
    then obtain fs' where "at now p cwd c True fs = (Inr (n, q), fs')"
      using Inr by (simp add: at_run del: walk.simps)
    then show ?thesis
      using hoare_ok [OF at_spec ok] by (fastforce simp: open_or_make_def catch_def kop_simps open_post_def)
  qed
qed

text \<open>The writing half of \<open>writeb\<close>.\<close>

lemma after_open:
  assumes "vfs_ok fs" "\<And>i made fs'. open_post (i, made) fs' \<Longrightarrow> vfs_ok (snd (f (i, made) fs'))"
  shows "vfs_ok (snd (bnd (open_or_make now p cwd c mode) f fs))"
proof (cases "open_or_make now p cwd c mode fs")
  case (Pair r fs')
  then show ?thesis
    using hoare_ok [OF open_spec assms(1)] hoare_err [OF open_spec assms(1)] assms(2)
    by (cases r) (auto simp: kop_simps)
qed

lemma open_post_quiet:
  "open_post (i, made) fs \<Longrightarrow> quiet f (node fs j) \<Longrightarrow> open_post (i, made) (set_node j f fs)"
  by (auto simp: open_post_def ok_quiet found_def refs_quiet quiet_ents quiet_is_dir)

lemma write_node_ok:
  assumes post: "open_post (i, made) fs"
  shows "vfs_ok (snd (write_node now b c add (i, made) fs))"
proof -
  have ok: "vfs_ok fs" using post by (simp add: open_post_def)
  show ?thesis
  proof (cases "n_body (node fs i)")
    case (Reg r)
    let ?put = "\<lambda>r. set_node i (\<lambda>n. n\<lparr>n_body := Reg r\<rparr>)"
    let ?old = "\<lparr>r_data = r_data r, r_sum = None, r_source = r_source r\<rparr>"
    let ?new = "replace (if add then r_data r @ b else b) r"
    have i: "i < length (nodes fs)" using post by (simp add: open_post_def found_def)
    have 1: "open_post (i, made) (?put ?new fs)" using post Reg by (intro open_post_quiet) simp_all
    have 2: "open_post (i, made) (?put ?old (?put ?new fs))"
      by (rule open_post_quiet [OF 1]) (simp add: node_set_node i)
    have 3: "vfs_ok (del_ent d x (?put ?old (?put ?new fs)))" if "made = Some (d, x)" for d x
      using 2 that by (auto simp: open_post_def intro!: ok_del_entry)
    show ?thesis
      using ok 1 2 3 Reg
      by (auto simp: write_node_def kop_simps ok_quiet open_post_def split: option.split)
  next
    case (Chr rfn wfn rep)
    then show ?thesis using ok by (cases "wfn b") (simp_all add: write_node_def kop_simps ok_quiet)
  qed (use ok in \<open>simp_all add: write_node_def kop_simps\<close>)
qed

lemma writeb_keeps: "keeps vfs_ok (writeb now p b cwd c add mode)"
  unfolding keeps_def writeb_def
  by (intro allI impI, rule after_open, assumption) (rule write_node_ok)

lemma move_ok:
  assumes "par_post (xd, xname, xpath) fs" "par_post (yd, yname, ypath) fs" "ent_get (ents fs xd) xname = Some n"
  shows "vfs_ok (snd (move_entry now (xd, xname, xpath) n (yd, yname, ypath) fs))"
  using assms ok_rename [of fs xd yd yname xname n]
  by (auto simp: move_entry_def kop_simps par_post_def ok_quiet split: option.split)

lemma rename_keeps: "keeps vfs_ok (rename now a b cwd c)"
  unfolding keeps_def rename_def
proof (intro allI impI, rule after_par, assumption)
  fix fs0 xd xname xpath fs
  assume x: "par_post (xd, xname, xpath) fs"
  show "vfs_ok (snd (bnd (dir_get (fst (xd, xname, xpath)) (fst (snd (xd, xname, xpath)))) (\<lambda>z.
     bnd (of_option ENOENT z) (\<lambda>n. bnd (par now b cwd c) (\<lambda>y. move_entry now (xd, xname, xpath) n y))) fs))"
  proof (cases "ent_get (ents fs xd) xname")
    case None
    then show ?thesis using x by (simp add: kop_simps par_post_def)
  next
    case (Some n)
    have "vfs_ok (snd (bnd (par now b cwd c) (\<lambda>y. move_entry now (xd, xname, xpath) n y) fs))"
    proof (rule after_par)
      show "vfs_ok fs" using x by (simp add: par_post_def)
      fix yd yname ypath fs'
      assume acc: "access_only fs fs'" and y: "par_post (yd, yname, ypath) fs'"
      have "par_post (xd, xname, xpath) fs'" "ent_get (ents fs' xd) xname = Some n"
        using x y Some access_same [OF acc] by (auto simp: par_post_def)
      then show "vfs_ok (snd (move_entry now (xd, xname, xpath) n (yd, yname, ypath) fs'))"
        using y by (intro move_ok)
    qed
    then show ?thesis using Some by (simp add: kop_simps)
  qed
qed

section \<open>Everything the file system can become\<close>

text \<open>One step is one operation by anyone, at any time, whatever its outcome.\<close>

inductive vfs_step :: "vfs \<Rightarrow> vfs \<Rightarrow> bool" where
  step_readb: "vfs_step fs (snd (readb now p cwd c fs))"
| step_writeb: "vfs_step fs (snd (writeb now p b cwd c add mode fs))"
| step_mkfile: "vfs_step fs (snd (mkfile now p b cwd c mode fs))"
| step_mkdir: "vfs_step fs (snd (mkdir now p cwd c mode fs))"
| step_mkchar: "vfs_step fs (snd (mkchar now p r w cwd c mode rep fs))"
| step_listdir: "vfs_step fs (snd (listdir le now p cwd c fs))"
| step_rm: "vfs_step fs (snd (rm now p cwd c dir fs))"
| step_rename: "vfs_step fs (snd (rename now p q cwd c fs))"
| step_link: "vfs_step fs (snd (link now p q cwd c fs))"
| step_symlink: "vfs_step fs (snd (symlink now to p cwd c fs))"
| step_readlink: "vfs_step fs (snd (readlink now p cwd c fs))"
| step_chmod: "vfs_step fs (snd (chmod now p mode cwd c fs))"
| step_chown: "vfs_step fs (snd (chown now p uid gid cwd c fs))"
| step_utime: "vfs_step fs (snd (utime now p atime mtime cwd c follow fs))"
| step_stat: "vfs_step fs (snd (stat now p cwd c follow fs))"

inductive_cases vfs_stepE: "vfs_step fs fs'"

lemmas operation_keeps = readb_keeps writeb_keeps mkfile_keeps mkdir_keeps mkchar_keeps listdir_keeps
  rm_keeps rename_keeps link_keeps symlink_keeps readlink_keeps chmod_keeps chown_keeps utime_keeps stat_keeps

lemma new_vfs_ok: "vfs_ok (new_vfs now cap)"
  by (simp add: vfs_ok_def shape_ok_def links_ok_def new_vfs_def new_node_def is_dir_def ents_def node_def
      ents_ok_def ent_get_def refs_def ent_occ_def)

lemma step_ok: "vfs_step fs fs' \<Longrightarrow> vfs_ok fs \<Longrightarrow> vfs_ok fs'"
  by (induction rule: vfs_step.induct) (rule keepsD [OF operation_keeps(1)] keepsD [OF operation_keeps(2)]
      keepsD [OF operation_keeps(3)] keepsD [OF operation_keeps(4)] keepsD [OF operation_keeps(5)]
      keepsD [OF operation_keeps(6)] keepsD [OF operation_keeps(7)] keepsD [OF operation_keeps(8)]
      keepsD [OF operation_keeps(9)] keepsD [OF operation_keeps(10)] keepsD [OF operation_keeps(11)]
      keepsD [OF operation_keeps(12)] keepsD [OF operation_keeps(13)] keepsD [OF operation_keeps(14)]
      keepsD [OF operation_keeps(15)], assumption)+

text \<open>C1 However a fresh file system is used, and by whomever: every entry leads to a node and has a proper
  name, no two entries of a directory share a name, the link count of every node that has a name is
  the number of its names, and directories and symbolic links have at most one.\<close>

theorem vfs_invariant: "vfs_step\<^sup>*\<^sup>* (new_vfs now cap) fs \<Longrightarrow> vfs_ok fs"
  by (induction rule: rtranclp_induct) (auto intro: new_vfs_ok step_ok)

definition root_cred :: cred where
  "root_cred = \<lparr>c_uid = Some 0, c_gid = Some 0, c_ruid = None, c_euid = None, c_suid = None, c_rgid = None,
     c_egid = None, c_sgid = None, c_groups = [0]\<rparr>"

theorem vfs_invariant_witness:
  "vfs_ok (snd (link 2 ''/a'' ''/b'' ''/'' root_cred
     (snd (mkfile 1 ''/a'' [1, 2] ''/'' root_cred 0x1a4 (new_vfs 0 4096)))))"
  by (rule vfs_invariant [of 0 4096]) (blast intro: rtranclp.rtrancl_into_rtrancl step_link step_mkfile)

end
