(* ===== verification/VfsProps.thy ===== *)
theory VfsProps
  imports VfsInv "HOL-Library.Code_Target_Nat"
begin

text \<open>
  What the operations of the file system do: what is written is read, names of one node share it,
  the exact change of the name graph, errors that change nothing, permissions, space, link loops;
  and the concrete runs that show where the code departs from what it means to do.
\<close>

section \<open>Lookups survive additions\<close>

text \<open>\<open>fs'\<close> has every entry of \<open>fs\<close>, and the nodes of \<open>fs\<close> with the same kind, links and permissions.\<close>

definition extends :: "vfs \<Rightarrow> vfs \<Rightarrow> bool" where
  "extends fs fs' \<longleftrightarrow>
     length (nodes fs) \<le> length (nodes fs') \<and>
     (\<forall>n < length (nodes fs). is_dir fs' n = is_dir fs n \<and> link_to fs' n = link_to fs n \<and>
        (is_dir fs n \<longrightarrow> (\<forall>c. perm_ok (node fs' n) c 1 = perm_ok (node fs n) c 1)) \<and>
        (\<forall>x z. ent_get (ents fs n) x = Some z \<longrightarrow> ent_get (ents fs' n) x = Some z))"

lemma walk_from_extends:
  assumes ext: "extends fs fs'" "shape_ok fs" and again: "\<And>p r. again p = Inr r \<Longrightarrow> again' p = Inr r"
  shows "found fs n \<Longrightarrow> walk_from again fs c follow done n rest = Inr r \<Longrightarrow>
    walk_from again' fs' c follow done n rest = Inr r"
proof (induction rest arbitrary: "done" n)
  case (Cons x rest)
  then obtain z where z: "is_dir fs n" "perm_ok (node fs n) c 1" "ent_get (ents fs n) x = Some z"
    by (auto split: if_splits option.splits)
  then have z': "is_dir fs' n" "perm_ok (node fs' n) c 1" "ent_get (ents fs' n) x = Some z"
    using ext(1) Cons.prems(1) by (auto simp: extends_def found_def)
  have f: "found fs z" using found_entry [OF ext(2) Cons.prems(1) z(3)] .
  then have l: "link_to fs' z = link_to fs z" using ext(1) by (simp add: extends_def found_def)
  define L where "L = (if follow \<or> rest \<noteq> [] then link_to fs z else None)"
  let ?go = "\<lambda>ag fs. case L of
      Some to \<Rightarrow> (let dst = norm to (path_of done) @ (if rest \<noteq> [] then path_of rest else [])
        in map_sum id (apsnd seg) (ag (norm dst ''/'')))
    | None \<Rightarrow> walk_from ag fs c follow (done @ [x]) z rest"
  have old: "?go again fs = Inr r"
    using Cons.prems(2) by (simp only: walk_from.simps z L_def option.case simp_thms if_True if_False)
  have new: "walk_from again' fs' c follow done n (x # rest) = ?go again' fs'"
    by (simp only: walk_from.simps z' l L_def option.case simp_thms if_True if_False)
  show ?case
  proof (cases L)
    case None
    then show ?thesis using old new Cons.IH [OF f] by simp
  next
    case (Some to)
    define q where "q = norm (norm to (path_of done) @ (if rest \<noteq> [] then path_of rest else [])) ''/''"
    have "map_sum id (apsnd seg) (again q) = Inr r"
      using old unfolding Some option.case Let_def q_def [symmetric] .
    then obtain r0 where "again q = Inr r0" "r = apsnd seg r0" by (cases "again q") auto
    then have "map_sum id (apsnd seg) (again' q) = Inr r" using again by simp
    then show ?thesis unfolding new Some option.case Let_def q_def [symmetric] .
  qed
qed simp

lemma walk_extends:
  assumes "extends fs fs'" "shape_ok fs"
  shows "walk k fs c follow p = Inr r \<Longrightarrow> walk k fs' c follow p = Inr r"
proof (induction k arbitrary: p r)
  case (Suc k)
  show ?case
  proof (cases "p = ''/''")
    case False
    then obtain r' where r': "walk_from (walk k fs c follow) fs c follow [] 0 (seg p) = Inr r'"
      "r = apsnd path_of r'"
      using Suc.prems by (cases "walk_from (walk k fs c follow) fs c follow [] 0 (seg p)") auto
    have "walk_from (walk k fs' c follow) fs' c follow [] 0 (seg p) = Inr r'"
      by (rule walk_from_extends [OF assms _ found_root [OF assms(2)] r'(1)]) (rule Suc.IH)
    then show ?thesis using False r' by simp
  qed (use Suc.prems in simp)
qed simp

lemma perm_same:
  "n_mode m = n_mode n \<Longrightarrow> n_uid m = n_uid n \<Longrightarrow> n_gid m = n_gid n \<Longrightarrow> perm_ok m c bits = perm_ok n c bits"
  by (simp add: perm_ok_def perm_shift_def)

lemma extends_access: "access_only fs fs' \<Longrightarrow> extends fs fs'"
proof -
  assume acc: "access_only fs fs'"
  have "perm_ok (node fs' n) c bits = perm_ok (node fs n) c bits" if "n < length (nodes fs)" for n c bits
    by (rule perm_same) (use access_fields [OF acc that] in auto)
  then show ?thesis using acc access_same(1) [OF acc] by (auto simp: extends_def access_fields access_ents link_to_def)
qed

lemma extends_trans: "extends fs fs' \<Longrightarrow> extends fs' fs'' \<Longrightarrow> extends fs fs''"
  unfolding extends_def by (metis order_trans less_le_trans)

text \<open>Attribute changes other than permissions.\<close>

lemma extends_set_node:
  assumes "n_body (f (node fs i)) = n_body (node fs i)" "n_mode (f (node fs i)) = n_mode (node fs i)"
    "n_uid (f (node fs i)) = n_uid (node fs i)" "n_gid (f (node fs i)) = n_gid (node fs i)"
  shows "extends fs (set_node i f fs)"
proof -
  have "n_body (node (set_node i f fs) n) = n_body (node fs n) \<and> n_mode (node (set_node i f fs) n) = n_mode (node fs n) \<and>
      n_uid (node (set_node i f fs) n) = n_uid (node fs n) \<and> n_gid (node (set_node i f fs) n) = n_gid (node fs n)"
    if "n < length (nodes fs)" for n using that assms by (cases "i = n") (simp_all add: node_set_node)
  moreover from this have "perm_ok (node (set_node i f fs) n) c bits = perm_ok (node fs n) c bits"
    if "n < length (nodes fs)" for n c bits using that by (intro perm_same) auto
  ultimately show ?thesis by (auto simp: extends_def found_def is_dir_def ents_def link_to_def)
qed

lemma extends_touch: "extends fs (set_node i (touch now data) fs)"
  by (rule extends_set_node) simp_all

lemma extends_new:
  assumes "vfs_ok fs" "d < length (nodes fs)" "is_dir fs d" "ent_get (ents fs d) x = None"
  shows "extends fs (put_ent d x (length (nodes fs)) (add_node n fs))"
proof -
  have e: "ents_ok (ents fs d)" using assms by (simp add: vfs_ok_def shape_ok_def)
  have "link_to (put_ent d x (length (nodes fs)) (add_node n fs)) j = link_to fs j" if "j < length (nodes fs)" for j
    using that by (cases "n_body (node fs j)") (simp_all add: link_to_def node_set_node)
  moreover have "perm_ok (node (put_ent d x (length (nodes fs)) (add_node n fs)) j) c bits = perm_ok (node fs j) c bits"
    if "j < length (nodes fs)" for j c bits
    using that by (intro perm_same) (simp_all add: node_set_node)
  ultimately show ?thesis
    using assms e by (auto simp: extends_def found_def put_ents dir.has_put)
qed

section \<open>Reading what was made\<close>

text \<open>The last step of a lookup.\<close>

lemma lookup_entry:
  assumes "canonical (as @ [x])" "walk 33 fs c True (path_of as) = Inr (d, q)" "is_dir fs d"
    "ent_get (ents fs d) x = Some i" "follow \<longrightarrow> link_to fs i = None"
  shows "walk 33 fs c follow (path_of (as @ [x])) =
    (if perm_ok (node fs d) c 1 then Inr (i, path_of (seg q @ [x])) else Inl EACCES)"
proof -
  obtain k where k: "walk 33 fs c follow (path_of (as @ [x])) =
      map_sum id (apsnd path_of) (walk_from (walk k fs c follow) fs c follow (seg q) d [x])"
    using walk_snoc [OF assms(1,2)] by blast
  show ?thesis unfolding k using assms(3-5) by (auto simp: walk_step simp del: walk_from.simps(2))
qed

text \<open>A successful \<open>mkfile\<close>, \<open>mkdir\<close>, \<open>symlink\<close> or \<open>mkchar\<close>: where the new node hangs.\<close>

definition made_at :: "vfs \<Rightarrow> string \<Rightarrow> string \<Rightarrow> cred \<Rightarrow> vnode \<Rightarrow> ino \<Rightarrow> vfs \<Rightarrow> bool" where
  "made_at fs p cwd c n i fs' \<longleftrightarrow> (\<exists>as x d q. norm p cwd = path_of (as @ [x]) \<and> canonical (as @ [x]) \<and>
     walk 33 fs' c True (path_of as) = Inr (d, q) \<and> is_dir fs' d \<and> ent_get (ents fs' d) x = Some i \<and>
     node fs' i = n)"

lemma made_entry:
  assumes ok: "vfs_ok fs" and par: "par now p cwd c fs = (Inr (d, x, q), fs1)"
    and absent: "ent_get (ents fs1 d) x = None"
    and fs': "extends (put_ent d x (length (nodes fs1)) (add_node n fs1)) fs'"
    "node fs' (length (nodes fs1)) = n"
  shows "made_at fs p cwd c n (length (nodes fs1)) fs'"
proof -
  from par obtain as q' where w: "norm p cwd = path_of (as @ [x])" "canonical (as @ [x])"
    "walk 33 fs c True (path_of as) = Inr (d, q')" "is_dir fs1 d"
    by (rule par_walk)
  have post: "vfs_ok fs1" "d < length (nodes fs1)"
    using hoare_ok [OF par_spec ok par] by (simp_all add: par_post_def)
  let ?g = "put_ent d x (length (nodes fs1)) (add_node n fs1)"
  have e: "extends fs fs1" using par_access [OF par] by (rule extends_access)
  have g: "extends fs1 ?g" using post w(4) absent by (intro extends_new)
  have "walk 33 fs' c True (path_of as) = Inr (d, q')"
    using walk_extends [OF extends_trans [OF extends_trans [OF e g] fs'(1)] _ w(3)] ok by (simp add: vfs_ok_def)
  moreover have "ents_ok (ents fs1 d)" using post by (simp add: vfs_ok_def shape_ok_def)
  then have "is_dir ?g d \<and> ent_get (ents ?g d) x = Some (length (nodes fs1))"
    using post w(4) by (simp add: put_ents dir.has_put)
  then have "is_dir fs' d \<and> ent_get (ents fs' d) x = Some (length (nodes fs1))"
    using fs'(1) post by (auto simp: extends_def)
  ultimately show ?thesis using w(1,2) fs'(2) unfolding made_at_def by blast
qed

lemma made_walk:
  assumes "made_at fs p cwd c n i fs'" "follow \<longrightarrow> link_to fs' i = None"
  shows "(\<exists>q. walk 33 fs' c follow (norm p cwd) = Inr (i, q)) \<or> walk 33 fs' c follow (norm p cwd) = Inl EACCES \<and> credUid c \<noteq> 0"
proof -
  from assms(1) obtain as x d q where w: "norm p cwd = path_of (as @ [x])" "canonical (as @ [x])"
    "walk 33 fs' c True (path_of as) = Inr (d, q)" "is_dir fs' d" "ent_get (ents fs' d) x = Some i"
    unfolding made_at_def by blast
  show ?thesis
    using lookup_entry [OF w(2-5) assms(2)] w(1) by (auto simp: perm_ok_def simp del: walk.simps)
qed

lemma made_mkfile:
  assumes ok: "vfs_ok fs" and run: "mkfile now p data cwd c mode fs = (Inr i, fs')"
  shows "made_at fs p cwd c (new_node now (Reg (new_reg data None)) mode (credUid c) (credGid c)) i fs'"
proof (cases "par now p cwd c fs" rule: par_cases)
  case (err e fs1)
  then show ?thesis using run by (simp add: mkfile_def kop_simps)
next
  case (ok d x q fs1)
  let ?n = "new_node now (Reg (new_reg data None)) mode (credUid c) (credGid c)"
  let ?g = "put_ent d x (length (nodes fs1)) (add_node ?n fs1)"
  have post: "par_post (d, x, q) fs1" using hoare_ok [OF par_spec \<open>vfs_ok fs\<close> ok] .
  have r: "ent_get (ents fs1 d) x = None" "i = length (nodes fs1)" "fs' = set_node d (touch now True) ?g"
    using run ok by (auto simp: mkfile_def kop_simps split: if_splits)
  have "node fs' i = ?n" using post by (simp add: r node_set_node par_post_def)
  with made_entry [OF \<open>vfs_ok fs\<close> ok r(1) extends_touch] show ?thesis by (simp add: r)
qed

text \<open>A file that was made is read back by its maker, at once and whole, unless permission is refused;
  the superuser is never refused.\<close>

theorem mkfile_then_read:
  assumes "vfs_ok fs" "mkfile now p data cwd c mode fs = (Inr i, fs')"
  shows "fst (readb now' p cwd c fs') = Inr data \<or> fst (readb now' p cwd c fs') = Inl EACCES \<and> credUid c \<noteq> 0"
proof -
  let ?n = "new_node now (Reg (new_reg data None)) mode (credUid c) (credGid c)"
  have m: "made_at fs p cwd c ?n i fs'" by (rule made_mkfile [OF assms])
  then have n: "node fs' i = ?n" by (auto simp: made_at_def)
  then have "link_to fs' i = None" by (simp add: link_to_def)
  with made_walk [OF m] consider q where "walk 33 fs' c True (norm p cwd) = Inr (i, q)"
    | "walk 33 fs' c True (norm p cwd) = Inl EACCES" "credUid c \<noteq> 0" by blast
  then show ?thesis
  proof cases
    case 1
    let ?f = "if q = ''/'' then fs' else set_node i (\<lambda>v. v\<lparr>n_at := now'\<rparr>) fs'"
    have a: "at now' p cwd c True fs' = (Inr (i, q), ?f)" using 1 by (simp add: at_run del: walk.simps)
    have "i < length (nodes fs')"
      using walk_found [OF _ 1] hoare_ok [OF mkfile_keeps [unfolded keeps_hoare] assms] by (simp add: vfs_ok_def found_def)
    then have "n_body (node ?f i) = n_body ?n \<and> perm_ok (node ?f i) c 4 = perm_ok ?n c 4"
      using n by (auto simp: node_set_node perm_ok_def perm_shift_def)
    then show ?thesis
      using a by (auto simp: readb_def kop_simps lazy_def new_reg_def perm_ok_def)
  next
    case 2
    then show ?thesis by (simp add: readb_def bnd_def at_run del: walk.simps)
  qed
qed

lemma run_pair: "fst r = a \<Longrightarrow> r = (a, snd r)"
  by (cases r) simp

theorem mkfile_then_read_witness:
  "fst (readb 2 ''/a'' ''/'' root_cred (snd (mkfile 1 ''/a'' [7, 8] ''/'' root_cred 0x180 (new_vfs 0 4096)))) = Inr [7, 8]"
proof -
  have "fst (mkfile 1 ''/a'' [7, 8] ''/'' root_cred 0x180 (new_vfs 0 4096)) = Inr 1"
    by code_simp
  from mkfile_then_read [OF new_vfs_ok run_pair [OF this], of 2] show ?thesis
    by (simp add: credUid_def root_cred_def)
qed

section \<open>The graph of names\<close>

text \<open>The abstract file system: which node a directory has under a name. Operations change one edge of it.\<close>

definition graph :: "vfs \<Rightarrow> ino \<times> string \<Rightarrow> ino option" where
  "graph fs = (\<lambda>(d, x). if d < length (nodes fs) then ent_get (ents fs d) x else None)"

text \<open>The edge a path names.\<close>

definition edge_of :: "vfs \<Rightarrow> string \<Rightarrow> string \<Rightarrow> cred \<Rightarrow> ino \<times> string \<Rightarrow> bool" where
  "edge_of fs p cwd c e \<longleftrightarrow> (\<exists>as q. norm p cwd = path_of (as @ [snd e]) \<and> canonical (as @ [snd e]) \<and>
     walk 33 fs c True (path_of as) = Inr (fst e, q))"

lemma graph_access: "access_only fs fs' \<Longrightarrow> graph fs' = graph fs"
  by (rule ext) (auto simp: graph_def access_same)

lemma graph_quiet: "quiet f (node fs i) \<Longrightarrow> graph (set_node i f fs) = graph fs"
  by (rule ext) (auto simp: graph_def quiet_ents)

lemma graph_bump [simp]: "graph (bump k i fs) = graph fs"
  by (rule ext) (auto simp: graph_def)

lemma graph_touch [simp]: "graph (set_node i (touch now data) fs) = graph fs"
  by (simp add: graph_quiet)

lemma graph_put:
  assumes "d < length (nodes fs)" "is_dir fs d" "ents_ok (ents fs d)"
  shows "graph (put_ent d x i fs) = (graph fs)((d, x) \<mapsto> i)"
proof (rule ext)
  fix e :: "ino \<times> string"
  show "graph (put_ent d x i fs) e = ((graph fs)((d, x) \<mapsto> i)) e"
    using assms by (cases e) (auto simp: graph_def put_ents dir.has_put)
qed

lemma graph_del:
  assumes "d < length (nodes fs)" "is_dir fs d" "ents_ok (ents fs d)"
  shows "graph (del_ent d x fs) = (graph fs)((d, x) := None)"
proof (rule ext)
  fix e :: "ino \<times> string"
  show "graph (del_ent d x fs) e = ((graph fs)((d, x) := None)) e"
    using assms by (cases e) (auto simp: graph_def del_ents dir.has_del)
qed

lemma graph_add: "body_ents (n_body n) = [] \<Longrightarrow> graph (add_node n fs) = graph fs"
  by (rule ext) (auto simp: graph_def less_Suc_eq ent_get_def)

lemma access_sym: "access_only fs fs' \<Longrightarrow> access_only fs' fs"
  by (simp add: access_only_def)

lemma edge_access: "access_only fs fs' \<Longrightarrow> vfs_ok fs' \<Longrightarrow> edge_of fs' p cwd c e \<Longrightarrow> edge_of fs p cwd c e"
  using walk_extends [OF extends_access [OF access_sym]] by (fastforce simp: edge_of_def vfs_ok_def simp del: walk.simps)

lemma par_edge:
  assumes "vfs_ok fs" "par now p cwd c fs = (Inr (d, x, q), fs')"
  shows "access_only fs fs' \<and> edge_of fs p cwd c (d, x) \<and> vfs_ok fs' \<and> d < length (nodes fs') \<and> is_dir fs' d \<and>
    ents_ok (ents fs' d) \<and> q = norm p cwd"
proof -
  have "edge_of fs p cwd c (d, x) \<and> q = norm p cwd"
    using assms(2) by (rule par_walk) (auto simp: edge_of_def)
  then show ?thesis
    using hoare_ok [OF par_spec assms] par_access [OF assms(2)]
    by (auto simp: par_post_def vfs_ok_def shape_ok_def)
qed

lemma graph_entry: "d < length (nodes fs) \<Longrightarrow> ent_get (ents fs d) x = graph fs (d, x)"
  by (simp add: graph_def)

lemma rename_effect:
  assumes ok: "vfs_ok fs" and run: "rename now a b cwd c fs = (Inr (), fs')"
  shows "norm a cwd = norm b cwd \<and> graph fs' = graph fs \<or>
    (\<exists>ea eb n. edge_of fs a cwd c ea \<and> edge_of fs b cwd c eb \<and> graph fs ea = Some n \<and>
       graph fs' = (graph fs)(eb \<mapsto> n, ea := None))"
proof (cases "par now a cwd c fs" rule: par_cases)
  case (err e fs1)
  then show ?thesis using run by (simp add: rename_def kop_simps)
next
  case (ok xd xn xq fs1)
  note x = par_edge [OF \<open>vfs_ok fs\<close> ok]
  obtain n where n: "ent_get (ents fs1 xd) xn = Some n"
    using run ok by (cases "ent_get (ents fs1 xd) xn") (auto simp: rename_def kop_simps)
  show ?thesis
  proof (cases "par now b cwd c fs1" rule: par_cases)
    case (err e fs2)
    then show ?thesis using run ok n by (simp add: rename_def kop_simps)
  next
    case b: (ok yd yn yq fs2)
    have "vfs_ok fs1" using x by simp
    note y = par_edge [OF this b]
    have acc: "access_only fs fs2" using x y access_trans by blast
    have move: "move_entry now (xd, xn, xq) n (yd, yn, yq) fs2 = (Inr (), fs')"
      using run ok b n by (simp add: rename_def kop_simps)
    have eb: "edge_of fs b cwd c (yd, yn)" using x y edge_access by blast
    have "graph fs (xd, xn) = Some n" using n x graph_access [of fs fs1] by (metis graph_entry)
    moreover have "graph fs' = (graph fs)((yd, yn) \<mapsto> n, (xd, xn) := None)" if "xq \<noteq> yq"
    proof -
      let ?p = "put_ent yd yn n fs2"
      have xd: "xd < length (nodes ?p)" "is_dir ?p xd"
        using x y access_same [of fs1 fs2] by auto
      have "shape_ok ?p"
      proof (rule shape_put)
        show "entry_name yn" using hoare_ok [OF par_spec \<open>vfs_ok fs1\<close> b] by (simp add: par_post_def)
        show "0 < n" "n < length (nodes fs2)"
          using x n access_same [of fs1 fs2] y unfolding vfs_ok_def shape_ok_def by metis+
      qed (use y in \<open>simp_all add: vfs_ok_def\<close>)
      then have "ents_ok (ents ?p xd)" using xd by (simp add: shape_ok_def)
      then have "graph (del_ent xd xn ?p) = (graph fs)((yd, yn) \<mapsto> n, (xd, xn) := None)"
        using graph_del [OF xd] graph_put [of yd fs2 yn n] y graph_access [OF acc] by simp
      then show ?thesis
        using move that by (auto simp: move_entry_def kop_simps split: if_splits option.splits)
    qed
    moreover have "graph fs' = graph fs" if "xq = yq"
      using move that graph_access [OF acc] by (simp add: move_entry_def kop_simps)
    ultimately show ?thesis using x y eb by metis
  qed
qed

text \<open>C32 A rename that returns has done nothing, when both paths are the same text after normalisation, or has moved one name: the old edge is gone,
  the new edge leads to the node, and every other edge is as before. When the two paths are different spellings of one edge (through
  a symbolic link to a directory), that edge is the old one: it is gone, and nothing leads to the node in its place.\<close>

theorem rename_graph:
  assumes "vfs_ok fs" "rename now a b cwd c fs = (Inr (), fs')"
  shows "norm a cwd = norm b cwd \<and> graph fs' = graph fs \<or>
    (\<exists>ea eb n. edge_of fs a cwd c ea \<and> edge_of fs b cwd c eb \<and> graph fs ea = Some n \<and>
       graph fs' ea = None \<and> (eb \<noteq> ea \<longrightarrow> graph fs' eb = Some n) \<and> (\<forall>e. e \<noteq> ea \<and> e \<noteq> eb \<longrightarrow> graph fs' e = graph fs e))"
proof -
  have "graph fs' ea = None \<and> (eb \<noteq> ea \<longrightarrow> graph fs' eb = Some n) \<and> (\<forall>e. e \<noteq> ea \<and> e \<noteq> eb \<longrightarrow> graph fs' e = graph fs e)"
    if "graph fs' = (graph fs)(eb \<mapsto> n, ea := None)" for ea eb n
    using that by simp
  then show ?thesis using rename_effect [OF assms] by blast
qed

text \<open>A small file system for concrete runs: a directory \<open>/a\<close>, a file \<open>/f\<close> and a link \<open>/l\<close> to the root.\<close>

definition sample_fs :: vfs where
  "sample_fs = snd (symlink 3 ''/'' ''/l'' ''/'' root_cred
     (snd (mkfile 2 ''/f'' [7, 8, 9] ''/'' root_cred 0x1a4
     (snd (mkdir 1 ''/a'' ''/'' root_cred 0x1ed (new_vfs 0 4096))))))"

lemma sample_ok: "vfs_ok sample_fs"
  unfolding sample_fs_def
  by (intro keepsD [OF symlink_keeps] keepsD [OF mkfile_keeps] keepsD [OF mkdir_keeps] new_vfs_ok)

theorem rename_graph_witness:
  "\<exists>ea eb n. graph sample_fs ea = Some n \<and> graph (snd (rename 4 ''/f'' ''/a/g'' ''/'' root_cred sample_fs)) ea = None \<and>
     (eb \<noteq> ea \<longrightarrow> graph (snd (rename 4 ''/f'' ''/a/g'' ''/'' root_cred sample_fs)) eb = Some n)"
proof -
  have run: "fst (rename 4 ''/f'' ''/a/g'' ''/'' root_cred sample_fs) = Inr ()"
    and ne: "norm ''/f'' ''/'' \<noteq> norm ''/a/g'' ''/''" by code_simp+
  from rename_graph [OF sample_ok run_pair [OF run]] ne show ?thesis by metis
qed

text \<open>A removal that returns has removed exactly the edge its path names; the node was no directory, or an
  empty one that was asked for as such, and has one name less.\<close>

theorem rm_graph:
  assumes ok: "vfs_ok fs" and run: "rm now p cwd c dir fs = (Inr (), fs')"
  shows "\<exists>e n. edge_of fs p cwd c e \<and> graph fs e = Some n \<and> graph fs' = (graph fs)(e := None) \<and>
    is_dir fs n = dir \<and> (dir \<longrightarrow> ents fs n = []) \<and> n_nlink (node fs' n) = n_nlink (node fs n) - 1"
proof (cases "par now p cwd c fs" rule: par_cases)
  case (err e fs1)
  then show ?thesis using run by (simp add: rm_def kop_simps)
next
  case (ok d x q fs1)
  note par = par_edge [OF \<open>vfs_ok fs\<close> ok]
  obtain n where n: "ent_get (ents fs1 d) x = Some n"
    using run ok by (cases "ent_get (ents fs1 d) x") (auto simp: rm_def kop_simps)
  have len: "n < length (nodes fs1)" using n par unfolding vfs_ok_def shape_ok_def by blast
  have acc: "access_only fs fs1" and d: "d < length (nodes fs1)" "is_dir fs1 d" "ents_ok (ents fs1 d)"
    using par by simp_all
  have r: "fs' = set_node d (touch now True) (bump (-1) n (del_ent d x fs1))" "is_dir fs1 n = dir" "dir \<longrightarrow> ents fs1 n = []"
    using run ok n by (auto simp: rm_def kop_simps split: if_splits)
  have "n_nlink (node fs' n) = n_nlink (node fs1 n) - 1"
    using len by (simp add: r(1) quiet_nlink nlink_bump)
  moreover have "graph fs' = (graph fs)((d, x) := None)"
    using graph_del [OF d] graph_access [OF acc] by (simp add: r(1))
  moreover have "graph fs (d, x) = Some n" using n d(1) graph_access [OF acc] by (metis graph_entry)
  ultimately show ?thesis
    using par r(2,3) len access_same(1,5,6) [OF acc] access_fields(5) [OF acc] by (intro exI [of _ "(d, x)"] exI [of _ n]) auto
qed

theorem rm_graph_witness:
  "\<exists>e n. graph sample_fs e = Some n \<and>
     graph (snd (rm 4 ''/a'' ''/'' root_cred True sample_fs)) = (graph sample_fs)(e := None)"
proof -
  have "fst (rm 4 ''/a'' ''/'' root_cred True sample_fs) = Inr ()" by code_simp
  from rm_graph [OF sample_ok run_pair [OF this]] show ?thesis by metis
qed

text \<open>A hard link that returns has added exactly the edge its second path names, to the node its first path
  leads to, which is no directory and has one name more; from then on both paths lead to that node
  (the new one unless the caller may not search its directory).\<close>

theorem link_graph:
  assumes ok: "vfs_ok fs" and run: "link now a b cwd c fs = (Inr (), fs')"
  shows "\<exists>e n q. walk 33 fs c True (norm a cwd) = Inr (n, q) \<and> edge_of fs b cwd c e \<and> graph fs e = None \<and>
    graph fs' = (graph fs)(e \<mapsto> n) \<and> \<not> is_dir fs n \<and> n_nlink (node fs' n) = n_nlink (node fs n) + 1 \<and>
    walk 33 fs' c True (norm a cwd) = Inr (n, q) \<and>
    (walk 33 fs' c True (norm b cwd) = Inl EACCES \<or> (\<exists>q'. walk 33 fs' c True (norm b cwd) = Inr (n, q')))"
proof (cases "walk 33 fs c True (norm a cwd)")
  case (Inl e)
  then show ?thesis using run by (simp add: link_def bnd_def at_run del: walk.simps)
next
  case (Inr nq)
  then obtain n q where w: "walk 33 fs c True (norm a cwd) = Inr (n, q)" by (cases nq) auto
  then obtain fs0 where at: "at now a cwd c True fs = (Inr (n, q), fs0)" by (simp add: at_run del: walk.simps)
  have a0: "access_only fs fs0" using at by (rule at_access)
  have ok0: "vfs_ok fs0" "found fs0 n" "link_to fs0 n = None" using hoare_ok [OF at_spec ok at] by simp_all
  have nd: "\<not> is_dir fs0 n" using run at by (auto simp: link_def kop_simps split: if_splits)
  show ?thesis
  proof (cases "par now b cwd c fs0" rule: par_cases)
    case (err e fs1)
    then show ?thesis using run at nd by (simp add: link_def kop_simps)
  next
    case (ok d x r fs1)
    note par = par_edge [OF ok0(1) ok]
    have acc: "access_only fs fs1" using a0 par access_trans by blast
    have d: "d < length (nodes fs1)" "is_dir fs1 d" "ents_ok (ents fs1 d)" using par by simp_all
    have z: "ent_get (ents fs1 d) x = None" and fs': "fs' = set_node n (touch now False) (bump 1 n (put_ent d x n fs1))"
      using run at nd ok by (auto simp: link_def kop_simps split: if_splits)
    have n1: "n < length (nodes fs1)" "n < length (nodes fs)" "\<not> is_dir fs n"
      using ok0(2) nd access_same [OF acc] access_same [OF a0] by (auto simp: found_def)
    have g1: "graph fs (d, x) = None" using z d(1) graph_access [OF acc] by (metis graph_entry)
    have g2: "graph fs' = (graph fs)((d, x) \<mapsto> n)"
      using graph_put [OF d, of x n] graph_access [OF acc] by (simp add: fs')
    have nl: "n_nlink (node fs' n) = n_nlink (node fs n) + 1"
      using n1 access_fields(5) [OF acc n1(2)] by (simp add: fs' quiet_nlink nlink_bump)
    have body: "link_to fs' j = link_to fs1 j \<and> is_dir fs' j = is_dir fs1 j" if "j < length (nodes fs1)" for j
      using that by (cases "n_body (node fs1 j)") (auto simp: link_to_def is_dir_def fs' node_set_node bump_def)
    have perm: "perm_ok (node fs' j) c' bits = perm_ok (node fs1 j) c' bits" if "j < length (nodes fs1)" for j c' bits
      using that by (intro perm_same) (auto simp: fs' node_set_node bump_def)
    have en: "ents fs' j = (if d = j then ent_set x n (ents fs1 j) else ents fs1 j)" if "j < length (nodes fs1)" for j
      using that d by (simp add: fs' quiet_ents put_ents)
    have "extends fs1 fs'"
      unfolding extends_def using body perm en z d by (auto simp: fs' dir.has_put)
    then have e: "extends fs fs'" using extends_access [OF acc] extends_trans by blast
    have e0: "edge_of fs b cwd c (d, x)" using par edge_access [OF a0 ok0(1)] by blast
    then obtain as r' where bb: "norm b cwd = path_of (as @ [x])" "canonical (as @ [x])"
      "walk 33 fs c True (path_of as) = Inr (d, r')" by (auto simp: edge_of_def simp del: walk.simps)
    have s: "shape_ok fs" using assms(1) by (simp add: vfs_ok_def)
    have "link_to fs' n = None"
      using body [OF n1(1)] ok0(3) access_fields(1) [OF par [THEN conjunct1], of n] access_same(1) [OF par [THEN conjunct1]] n1
      by (simp add: link_to_def)
    moreover have "ent_get (ents fs' d) x = Some n" "is_dir fs' d"
      using en d body by (auto simp: dir.has_put)
    ultimately have "walk 33 fs' c True (norm b cwd) = Inl EACCES \<or> (\<exists>q'. walk 33 fs' c True (norm b cwd) = Inr (n, q'))"
      using lookup_entry [OF bb(2) walk_extends [OF e s bb(3)], of n True] bb(1) by (auto simp del: walk.simps)
    then show ?thesis
      using w e0 g1 g2 n1 nl walk_extends [OF e s w] by blast
  qed
qed

theorem link_graph_witness:
  "\<exists>e n. graph (snd (link 4 ''/f'' ''/a/g'' ''/'' root_cred sample_fs)) = (graph sample_fs)(e \<mapsto> n) \<and>
     \<not> is_dir sample_fs n"
proof -
  have "fst (link 4 ''/f'' ''/a/g'' ''/'' root_cred sample_fs) = Inr ()" by code_simp
  from link_graph [OF sample_ok run_pair [OF this]] show ?thesis by metis
qed

section \<open>Errors change nothing\<close>

text \<open>\<open>harmless\<close> computations change access times only, \<open>sure\<close> ones never raise, and a \<open>clean\<close> one changes
  at most access times when it raises.\<close>

definition harmless :: "(vfs, 'a) kop \<Rightarrow> bool" where
  "harmless m \<longleftrightarrow> (\<forall>fs. access_only fs (snd (m fs)))"

definition sure :: "(vfs, 'a) kop \<Rightarrow> bool" where
  "sure m \<longleftrightarrow> (\<forall>fs. \<exists>x. fst (m fs) = Inr x)"

definition clean :: "(vfs, 'a) kop \<Rightarrow> bool" where
  "clean m \<longleftrightarrow> (\<forall>fs e fs'. m fs = (Inl e, fs') \<longrightarrow> access_only fs fs')"

lemma harmless_simple [intro, simp]:
  "harmless (asks f)" "harmless (check b e)" "harmless (of_option e v)" "harmless (dir_get d x)"
  "harmless (need i c bits)" "harmless (ret y)" "harmless (bad e)"
  by (auto simp: harmless_def kop_simps of_option_def dir_get_def split: option.split)

lemma harmless_lookup [intro, simp]: "harmless (at now p cwd c follow)" "harmless (par now p cwd c)"
  unfolding harmless_def using at_access par_access by (metis prod.collapse)+

lemma harmless_bnd: "harmless m \<Longrightarrow> (\<And>x. harmless (f x)) \<Longrightarrow> harmless (bnd m f)"
  unfolding harmless_def bnd_def
  by (auto split: prod.split sum.split) (metis access_trans snd_conv)+

lemma sure_simple [intro, simp]:
  "sure (dir_set d x i)" "sure (dir_del d x)" "sure (touch_node now data i)" "sure (add_nlink k i)"
  "sure (modify g)" "sure (alloc n)" "sure (ret y)"
  by (simp_all add: sure_def kop_simps dir_set_def dir_del_def touch_node_def add_nlink_def alloc_def)

lemma sure_bnd: "sure m \<Longrightarrow> (\<And>x. sure (f x)) \<Longrightarrow> sure (bnd m f)"
  unfolding sure_def bnd_def by (auto split: prod.split sum.split) (metis fst_conv sum.distinct(1))+

lemma clean_sure: "sure m \<Longrightarrow> clean m"
  unfolding sure_def clean_def by (metis fst_conv sum.distinct(1))

lemma clean_harmless: "harmless m \<Longrightarrow> clean m"
  unfolding harmless_def clean_def by (metis snd_conv)

lemma clean_bnd: "harmless m \<Longrightarrow> (\<And>x. clean (f x)) \<Longrightarrow> clean (bnd m f)"
  unfolding harmless_def clean_def bnd_def
  by (auto split: prod.splits sum.splits) (metis access_trans snd_conv)+

lemma clean_if: "clean m \<Longrightarrow> clean n \<Longrightarrow> clean (if b then m else n)"
  by simp

lemma harmless_if: "harmless m \<Longrightarrow> harmless n \<Longrightarrow> harmless (if b then m else n)"
  by simp

lemmas clean_rules = clean_bnd harmless_bnd harmless_if clean_if sure_bnd clean_sure

text \<open>C34 Whatever raises has changed nothing but access times: making a directory, a device or a link, removing,
  renaming, linking, changing mode, owner or times, and every read.\<close>

theorem errors_change_nothing:
  "clean (mkdir now p cwd c mode) \<and> clean (mkchar now p r w cwd c mode rep) \<and> clean (symlink now to p cwd c) \<and>
   clean (rm now p cwd c dir) \<and> clean (rename now p b cwd c) \<and> clean (link now p b cwd c) \<and>
   clean (chmod now p mode cwd c) \<and> clean (chown now p uid gid cwd c) \<and>
   clean (utime now p atime mtime cwd c follow) \<and> clean (readb now p cwd c) \<and> clean (readlink now p cwd c) \<and>
   clean (listdir le now p cwd c) \<and> clean (stat now p cwd c follow)"
proof -
  have mk: "clean (mkdir now p cwd c mode)" "clean (mkchar now p r w cwd c mode rep)" "clean (symlink now to p cwd c)"
    unfolding mkdir_def mkchar_def symlink_def case_prod_beta
    by (simp_all add: clean_rules)
  have rm: "clean (rm now p cwd c dir)"
    unfolding rm_def case_prod_beta
    by (simp_all add: clean_rules)
  have "sure (case old of Some i \<Rightarrow> add_nlink (- 1) i | None \<Rightarrow> ret ())" for old :: "ino option"
    by (cases old) simp_all
  then have mv: "clean (move_entry now x n y)" for x n y
    unfolding move_entry_def case_prod_beta
    by (simp_all add: clean_rules)
  then have ren: "clean (rename now p b cwd c)"
    unfolding rename_def by (simp_all add: clean_rules)
  have ln: "clean (link now p b cwd c)"
    unfolding link_def case_prod_beta
    by (simp_all add: clean_rules)
  have at: "clean (chmod now p mode cwd c)" "clean (chown now p uid gid cwd c)" "clean (utime now p atime mtime cwd c follow)"
    unfolding chmod_def chown_def utime_def case_prod_beta
    by (simp_all add: clean_rules)
  have "harmless (case bd of Reg r \<Rightarrow> bnd (check (\<not> lazy r) EAGAIN) (\<lambda>_. ret (r_data r))
      | Dir e \<Rightarrow> bad EISDIR | Sym to \<Rightarrow> bad EINVAL | Chr rfn wfn rep \<Rightarrow> ret (rfn 65536))" for bd
    by (cases bd) (simp_all add: harmless_bnd)
  then have rd: "clean (readb now p cwd c)"
    unfolding readb_def case_prod_beta
    by (simp_all add: clean_harmless harmless_bnd)
  have "harmless (case bd of Sym to \<Rightarrow> ret to | _ \<Rightarrow> bad EINVAL)" for bd
    by (cases bd) simp_all
  then have rl: "clean (readlink now p cwd c)"
    unfolding readlink_def case_prod_beta
    by (simp_all add: clean_harmless harmless_bnd)
  have ls: "clean (listdir le now p cwd c)" "clean (stat now p cwd c follow)"
    unfolding listdir_def stat_def case_prod_beta
    by (simp_all add: clean_harmless harmless_bnd)
  from mk rm ren ln at rd rl ls show ?thesis by blast
qed

section \<open>Writing\<close>

lemma reach_same:
  assumes "length (nodes fs') = length (nodes fs)" "\<And>j. j < length (nodes fs) \<Longrightarrow> ents fs' j = ents fs j"
  shows "reach fs' todo seen = reach fs todo seen"
  using assms by (induction fs todo seen rule: reach.induct) (auto simp: not_le)

lemma reach_bounded:
  "\<forall>i \<in> set seen. i < length (nodes fs) \<Longrightarrow> \<forall>i \<in> set (reach fs todo seen). i < length (nodes fs)"
  by (induction fs todo seen rule: reach.induct) (auto simp: not_le)

lemma used_same:
  assumes "length (nodes fs') = length (nodes fs)" "\<And>j. j < length (nodes fs) \<Longrightarrow> n_body (node fs' j) = n_body (node fs j)"
  shows "used fs' = used fs"
proof -
  have "reach fs' [0] [] = reach fs [0] []" using assms by (intro reach_same) (simp_all add: ents_def)
  moreover have "\<forall>i \<in> set (reach fs [0] []). i < length (nodes fs)" by (rule reach_bounded) simp
  ultimately show ?thesis
    unfolding used_def node_cost_def using assms(2) by (auto intro!: arg_cong [of _ _ sum_list])
qed

text \<open>C33 A write to a file that exists replaces its contents or appends to them, leaves the names alone, clears
  the set-user and set-group bits, and never takes the file system over its capacity; what a read
  then returns is what was written.\<close>

theorem write_then_read:
  assumes ok: "vfs_ok fs" and w: "walk 33 fs c True (norm p cwd) = Inr (i, q)" and r: "n_body (node fs i) = Reg r"
    and run: "writeb now p b cwd c add mode fs = (Inr (), fs')"
  shows "(fst (readb now' p cwd c fs') = Inr (if add then r_data r @ b else b) \<or> fst (readb now' p cwd c fs') = Inl EACCES) \<and>
    graph fs' = graph fs \<and> n_mode (node fs' i) AND 0xc00 = 0 \<and> used fs' \<le> vcap fs'"
proof -
  obtain fs1 where at: "at now p cwd c True fs = (Inr (i, q), fs1)" using w by (simp add: at_run del: walk.simps)
  have acc: "access_only fs fs1" using at by (rule at_access)
  have ok1: "vfs_ok fs1" "found fs1 i" using hoare_ok [OF at_spec ok at] by simp_all
  then have i: "i < length (nodes fs1)" "i < length (nodes fs)" using access_same(1) [OF acc] by (simp_all add: found_def)
  have r1: "n_body (node fs1 i) = Reg r" using access_fields(1) [OF acc i(2)] r by simp
  let ?d = "if add then r_data r @ b else b"
  let ?r = "replace ?d r"
  let ?g = "set_node i (\<lambda>n. n\<lparr>n_body := Reg ?r\<rparr>) fs1"
  let ?h = "set_node i (\<lambda>n. n\<lparr>n_mode := n_mode n AND NOT 0xc00\<rparr>) ?g"
  have fs': "fs' = set_node i (touch now True) ?h" and full: "used ?g \<le> vcap ?g"
    using run at r1
    by (auto simp: writeb_def open_or_make_def catch_def write_node_def kop_simps split: if_splits)
  have qg: "quiet (\<lambda>n. n\<lparr>n_body := Reg ?r\<rparr>) (node fs1 i)" using r1 by simp
  have node_i: "n_body (node fs' i) = Reg ?r" "n_mode (node fs' i) = n_mode (node fs1 i) AND NOT 0xc00"
    using i(1) by (simp_all add: fs' node_set_node)
  have node_j: "node fs' j = node fs1 j" if "j < length (nodes fs1)" "j \<noteq> i" for j
    using that by (simp add: fs' node_set_node)
  have len: "length (nodes fs') = length (nodes fs1)" by (simp add: fs')
  have same: "is_dir fs' j = is_dir fs1 j \<and> link_to fs' j = link_to fs1 j \<and> ents fs' j = ents fs1 j"
    if "j < length (nodes fs1)" for j
    using that node_i(1) r1 node_j [of j] by (cases "j = i") (simp_all add: is_dir_def link_to_def ents_def)
  have "\<not> is_dir fs1 i" using r1 by (simp add: is_dir_def)
  then have "perm_ok (node fs' j) c' 1 = perm_ok (node fs1 j) c' 1" if "j < length (nodes fs1)" "is_dir fs1 j" for j c'
    using that node_j [of j] by (cases "j = i") auto
  then have "extends fs1 fs'" using same len by (auto simp: extends_def)
  then have "extends fs fs'" using extends_access [OF acc] extends_trans by blast
  then have w': "walk 33 fs' c True (norm p cwd) = Inr (i, q)"
    using walk_extends w ok by (simp add: vfs_ok_def del: walk.simps)
  let ?k = "if q = ''/'' then fs' else set_node i (\<lambda>v. v\<lparr>n_at := now'\<rparr>) fs'"
  have "n_body (node ?k i) = Reg ?r" using node_i(1) i(1) len by (simp add: node_set_node)
  moreover have "at now' p cwd c True fs' = (Inr (i, q), ?k)" using w' by (simp add: at_run del: walk.simps)
  ultimately have "fst (readb now' p cwd c fs') = Inr ?d \<or> fst (readb now' p cwd c fs') = Inl EACCES"
    by (simp add: readb_def kop_simps lazy_def replace_def)
  moreover have "graph fs' = graph fs"
  proof -
    have "graph fs' = graph fs1" by (rule ext) (auto simp: graph_def same len)
    then show ?thesis using graph_access [OF acc] by simp
  qed
  moreover have "n_mode (node fs' i) AND 0xc00 = 0"
    unfolding node_i(2) by (simp add: and.assoc)
  moreover have "used fs' = used ?g"
    by (rule used_same) (auto simp: fs' node_set_node)
  ultimately show ?thesis using full by (simp add: fs')
qed

theorem write_then_read_witness:
  "fst (readb 5 ''/f'' ''/'' root_cred (snd (writeb 4 ''/f'' [1] ''/'' root_cred True 0 sample_fs))) \<in>
    {Inr [7, 8, 9, 1], Inl EACCES}"
proof -
  have run: "fst (writeb 4 ''/f'' [1] ''/'' root_cred True 0 sample_fs) = Inr ()"
    and w: "walk 33 sample_fs root_cred True (norm ''/f'' ''/'') = Inr (2, ''/f'')" by code_simp+
  have "case n_body (node sample_fs 2) of Reg r \<Rightarrow> r_data r = [7, 8, 9] | _ \<Rightarrow> False" by code_simp
  then obtain r where "n_body (node sample_fs 2) = Reg r" "r_data r = [7, 8, 9]" by (auto split: body.splits)
  with write_then_read [OF sample_ok w _ run_pair [OF run], of r 5] show ?thesis by simp
qed

end
