(* ===== verification/VfsLimits.thy ===== *)
theory VfsLimits
  imports VfsProps
begin

text \<open>
  Permissions, capacity and link loops of the file system, and the runs in which
  \<^verbatim>\<open>src/src/fs/vfs.ts\<close> does something else than a file system should: a request for several
  permissions is granted when one of them is, a rename over another spelling of the same name or
  into the moved directory loses what it moves, and a refused write leaves a file behind.
\<close>

section \<open>Permissions\<close>

text \<open>What the permission check decides: the superuser may do anything; others need the bits of their class
  (owner, else group, else others), and one of the requested bits is enough. Hence whoever may search
  a directory passes the checks of \<open>par\<close> (write and search) and of \<open>list\<close> (read and search).\<close>

theorem permission_any_bit:
  "(perm_ok n c bits \<longleftrightarrow> credUid c = 0 \<or> (\<exists>k. bit bits k \<and> bit (n_mode n) (perm_shift n c + k))) \<and>
   (perm_ok n c 1 \<longrightarrow> perm_ok n c 3 \<and> perm_ok n c 5)"
proof -
  have any: "perm_ok n c w \<longleftrightarrow> credUid c = 0 \<or> (\<exists>k. bit w k \<and> bit (n_mode n) (perm_shift n c + k))" for w
  proof -
    have "drop_bit s m AND w \<noteq> 0 \<longleftrightarrow> (\<exists>k. bit w k \<and> bit m (s + k))" for s and m :: u32
    proof -
      have "bit w k \<Longrightarrow> k < 32" for k by (drule bit_imp_le_length) simp
      then show ?thesis by (auto simp: bit_eq_iff [of "drop_bit s m AND w"] bit_simps)
    qed
    then show ?thesis by (simp add: perm_ok_def)
  qed
  have one: "bit (1 :: u32) k \<Longrightarrow> k = 0" and "bit (3 :: u32) 0" "bit (5 :: u32) 0" for k
    by (simp_all add: bit_1_iff)
  then show ?thesis using any [of bits] any [of 1] any [of 3] any [of 5] by metis
qed

definition user_cred :: cred where
  "user_cred = \<lparr>c_uid = Some 1000, c_gid = Some 1000, c_ruid = None, c_euid = None, c_suid = None,
     c_rgid = None, c_egid = None, c_sgid = None, c_groups = [1000]\<rparr>"

theorem permission_any_bit_witness: "perm_ok (node sample_fs 0) user_cred 3"
proof -
  have "perm_ok (node sample_fs 0) user_cred 1" by code_simp
  then show ?thesis using permission_any_bit by blast
qed

text \<open>In a root directory of mode 755 owned by the superuser, an ordinary user removes the superuser's file,
  makes a file of his own and lists what he could not read.\<close>

theorem user_changes_root_directory:
  "n_mode (node sample_fs 0) = 0x1ed \<and> n_uid (node sample_fs 0) = 0 \<and> credUid user_cred = 1000 \<and>
   fst (rm 4 ''/f'' ''/'' user_cred False sample_fs) = Inr () \<and>
   graph sample_fs (0, ''f'') = Some 2 \<and> graph (snd (rm 4 ''/f'' ''/'' user_cred False sample_fs)) (0, ''f'') = None \<and>
   fst (mkfile 4 ''/x'' [1] ''/'' user_cred 0x1a4 sample_fs) = Inr 4"
  by code_simp

section \<open>Capacity\<close>

text \<open>A file is made only within the capacity, and a refused one leaves every name as it was.\<close>

theorem mkfile_capacity:
  assumes ok: "vfs_ok fs" and run: "mkfile now p data cwd c mode fs = (r, fs')"
  shows "(case r of Inr i \<Rightarrow> used fs' \<le> vcap fs' | Inl e \<Rightarrow> graph fs' = graph fs)"
proof (cases "par now p cwd c fs" rule: par_cases)
  case (err e fs1)
  then show ?thesis using run par_access graph_access by (fastforce simp: mkfile_def kop_simps)
next
  case (ok d x q fs1)
  note par = par_edge [OF \<open>vfs_ok fs\<close> ok]
  let ?n = "new_node now (Reg (new_reg data None)) mode (credUid c) (credGid c)"
  let ?a = "add_node ?n fs1"
  let ?g = "put_ent d x (length (nodes fs1)) ?a"
  have d: "d < length (nodes fs1)" "is_dir fs1 d" "ents_ok (ents fs1 d)" using par by simp_all
  have g0: "graph fs1 = graph fs" using par graph_access by blast
  show ?thesis
  proof (cases "ent_get (ents fs1 d) x")
    case (Some z)
    then show ?thesis using run ok g0 by (auto simp: mkfile_def kop_simps)
  next
    case None
    have a: "d < length (nodes ?a)" "is_dir ?a d" "ents_ok (ents ?a d)" using d by simp_all
    have e: "ents ?g d = ent_set x (length (nodes fs1)) (ents fs1 d)" using d by (simp add: put_ents)
    have "graph (del_ent d x ?g) = (graph ?g)((d, x) := None)"
      by (rule graph_del) (use d e dir.ok_put in auto)
    also have "graph ?g = (graph fs1)((d, x) \<mapsto> length (nodes fs1))"
      using graph_put [OF a] by (simp add: graph_add)
    also have "\<dots> ((d, x) := None) = graph fs1"
      using None d by (auto simp: graph_def fun_eq_iff)
    finally have undo: "graph (del_ent d x ?g) = graph fs" using g0 by simp
    have touch: "used (set_node d (touch now True) ?g) = used ?g"
      by (rule used_same) (auto simp: node_set_node)
    show ?thesis
      using run ok None undo touch by (auto simp: mkfile_def kop_simps split: if_splits)
  qed
qed

theorem mkfile_capacity_witness:
  "graph (snd (mkfile 1 ''/a'' [1, 2, 3] ''/'' root_cred 0 (new_vfs 0 200))) = graph (new_vfs 0 200)"
proof -
  have "fst (mkfile 1 ''/a'' [1, 2, 3] ''/'' root_cred 0 (new_vfs 0 200)) = Inl ENOSPC" by code_simp
  from mkfile_capacity [OF new_vfs_ok run_pair [OF this]] show ?thesis by simp
qed

text \<open>Directories and links are made without a look at the capacity: in a file system whose capacity is used up
  by its root, each of them is made and the capacity exceeded.\<close>

theorem directories_ignore_capacity:
  "used (new_vfs 0 128) = 128 \<and>
   fst (mkdir 1 ''/a'' ''/'' root_cred 0x1ed (new_vfs 0 128)) = Inr 1 \<and>
   used (snd (mkdir 1 ''/a'' ''/'' root_cred 0x1ed (new_vfs 0 128))) = 256 \<and>
   fst (symlink 1 ''/'' ''/a'' ''/'' root_cred (new_vfs 0 128)) = Inr () \<and>
   used (snd (symlink 1 ''/'' ''/a'' ''/'' root_cred (new_vfs 0 128))) = 256"
  by code_simp

section \<open>Link loops\<close>

text \<open>A walk always ends, and a link in the root that leads to itself ends it with \<open>ELOOP\<close>, however the path
  goes on behind the link.\<close>

theorem self_link_loops:
  assumes x: "canonical [x]" "ent_get (ents fs 0) x = Some z" "link_to fs z = Some to" "segs_of to ''/'' = [x]"
    and root: "is_dir fs 0" "perm_ok (node fs 0) c 1"
  shows "canonical rest \<Longrightarrow> fst (at now (path_of (x # rest)) cwd c True fs) = Inl ELOOP"
proof -
  have "walk k fs c True (path_of (x # rest)) = Inl ELOOP" if "canonical rest" for k
  proof (induction k)
    case (Suc k)
    have "path_of [] = ''/''" by (simp add: path_of_def)
    then show ?case
      using that x root Suc by (simp add: walk_Suc walk_step del: walk.simps walk_from.simps(2))
  qed simp
  then show "canonical rest \<Longrightarrow> ?thesis"
    using x(1) by (simp add: at_run norm_path_of_id del: walk.simps)
qed

theorem self_link_loops_witness:
  "fst (at 2 (path_of [''s'', ''t'']) ''/'' root_cred True (snd (symlink 1 ''s'' ''/s'' ''/'' root_cred (new_vfs 0 4096)))) =
    Inl ELOOP"
proof -
  let ?fs = "snd (symlink 1 ''s'' ''/s'' ''/'' root_cred (new_vfs 0 4096))"
  have c: "canonical [''s'']" "canonical [''t'']" by (simp_all add: is_name_def)
  have e: "ent_get (ents ?fs 0) ''s'' = Some 1" "link_to ?fs 1 = Some ''s''" "segs_of ''s'' ''/'' = [''s'']"
    "is_dir ?fs 0" "perm_ok (node ?fs 0) root_cred 1" by code_simp+
  show ?thesis by (rule self_link_loops [OF c(1) e(1,2,3,4,5) c(2)])
qed

section \<open>Renames and writes that lose something\<close>

text \<open>A rename whose two paths are different spellings of the same name removes the name: nothing leads to
  the node any more.\<close>

theorem rename_alias_removes:
  assumes "vfs_ok fs" "rename now a b cwd c fs = (Inr (), fs')" "norm a cwd \<noteq> norm b cwd"
    "edge_of fs a cwd c e" "edge_of fs b cwd c e"
  shows "graph fs' = (graph fs)(e := None)"
proof -
  have "e1 = e2" if e: "edge_of fs p cwd c e1" "edge_of fs p cwd c e2" for p e1 e2
  proof -
    obtain as1 q1 where 1: "norm p cwd = path_of (as1 @ [snd e1])" "canonical (as1 @ [snd e1])"
      "walk 33 fs c True (path_of as1) = Inr (fst e1, q1)" using e(1) unfolding edge_of_def by blast
    obtain as2 q2 where 2: "norm p cwd = path_of (as2 @ [snd e2])" "canonical (as2 @ [snd e2])"
      "walk 33 fs c True (path_of as2) = Inr (fst e2, q2)" using e(2) unfolding edge_of_def by blast
    have "as1 @ [snd e1] = as2 @ [snd e2]"
      by (rule path_of_inj [OF canonical_names [OF 1(2)] canonical_names [OF 2(2)]]) (use 1 2 in simp)
    then show ?thesis using 1(3) 2(3) by (simp add: prod_eq_iff del: walk.simps)
  qed
  then show ?thesis
    using rename_effect [OF assms(1,2)] assms(3-5) by (metis fun_upd_upd)
qed

theorem rename_alias_removes_witness:
  "graph sample_fs (0, ''f'') = Some 2 \<and>
   graph (snd (rename 4 ''/f'' ''/l/f'' ''/'' root_cred sample_fs)) (0, ''f'') = None"
proof -
  have run: "fst (rename 4 ''/f'' ''/l/f'' ''/'' root_cred sample_fs) = Inr ()"
    and n: "norm ''/f'' ''/'' = path_of ([] @ [''f''])" "norm ''/l/f'' ''/'' = path_of ([''l''] @ [''f''])"
      "norm ''/f'' ''/'' \<noteq> norm ''/l/f'' ''/''"
    and w: "walk 33 sample_fs root_cred True (path_of []) = Inr (0, ''/'')"
      "walk 33 sample_fs root_cred True (path_of [''l'']) = Inr (0, ''/'')"
    and g: "graph sample_fs (0, ''f'') = Some 2" by code_simp+
  have c: "canonical [''l'']" "canonical [''f'']" by (simp_all add: is_name_def)
  have "edge_of sample_fs ''/f'' ''/'' root_cred (0, ''f'')"
    unfolding edge_of_def fst_conv snd_conv
    by (rule exI [of _ "[]"], rule exI [of _ "''/''"], intro conjI n(1) w(1)) (use c in simp)
  moreover have "edge_of sample_fs ''/l/f'' ''/'' root_cred (0, ''f'')"
    unfolding edge_of_def fst_conv snd_conv
    by (rule exI [of _ "[''l'']"], rule exI [of _ "''/''"], intro conjI n(2) w(2)) (use c in simp)
  ultimately have "graph (snd (rename 4 ''/f'' ''/l/f'' ''/'' root_cred sample_fs)) = (graph sample_fs)((0, ''f'') := None)"
    using rename_alias_removes [OF sample_ok run_pair [OF run] n(3)] by simp
  then show ?thesis using g by simp
qed

text \<open>A directory can be renamed into itself: it then is its own entry, and no path from the root leads to it.\<close>

theorem rename_into_itself:
  "fst (rename 4 ''/a'' ''/a/b'' ''/'' root_cred sample_fs) = Inr () \<and>
   graph (snd (rename 4 ''/a'' ''/a/b'' ''/'' root_cred sample_fs)) (1, ''b'') = Some 1 \<and>
   fst (stat 5 ''/a'' ''/'' root_cred True (snd (rename 4 ''/a'' ''/a/b'' ''/'' root_cred sample_fs))) = Inl ENOENT"
  by code_simp

text \<open>A write that is refused for lack of permission has made the file: creating a read-only file raises
  \<open>EACCES\<close> and leaves an empty file under the name. And a write to a link that leads nowhere puts a
  file in place of the link instead of making the file the link names.\<close>

theorem refused_write_leaves_file:
  "fst (writeb 4 ''/n'' [1] ''/'' user_cred False 0x124 sample_fs) = Inl EACCES \<and>
   graph sample_fs (0, ''n'') = None \<and>
   graph (snd (writeb 4 ''/n'' [1] ''/'' user_cred False 0x124 sample_fs)) (0, ''n'') = Some 4 \<and>
   fst (readlink 6 ''/d'' ''/'' root_cred (snd (symlink 4 ''/gone'' ''/d'' ''/'' root_cred sample_fs))) = Inr ''/gone'' \<and>
   fst (readlink 6 ''/d'' ''/'' root_cred (snd (writeb 5 ''/d'' [1] ''/'' root_cred False 0x1a4
     (snd (symlink 4 ''/gone'' ''/d'' ''/'' root_cred sample_fs))))) = Inl EINVAL"
  by code_simp

end
