(* ===== verification/Stream.thy ===== *)
theory Stream
  imports Kerr
begin

text \<open>
  The pipe of the kernel (\<^verbatim>\<open>src/src/io/stream.ts\<close>, class \<open>Pipe\<close>): a queue of byte arrays with the list of
  the readers that wait, a mark that it is shut and the counts of its held write and read ends.
  A promise that a reader waits on is the reader's number; resolving it is a delivery.
\<close>

section \<open>State and operations\<close>

record pipe =
  pi_q :: "u8 list list"
  pi_w :: "nat list"
  pi_shut :: bool
  pi_refs :: nat
  pi_rrefs :: nat

type_synonym delivery = "nat \<times> u8 list"

definition new_pipe :: pipe where
  "new_pipe = \<lparr>pi_q = [], pi_w = [], pi_shut = False, pi_refs = 0, pi_rrefs = 0\<rparr>"

definition pipe_hold :: "pipe \<Rightarrow> pipe" where
  "pipe_hold p = p\<lparr>pi_refs := pi_refs p + 1\<rparr>"

definition pipe_holdR :: "pipe \<Rightarrow> pipe" where
  "pipe_holdR p = p\<lparr>pi_rrefs := pi_rrefs p + 1\<rparr>"

text \<open>\<open>wr\<close> returns the number of bytes taken, with the deliveries it caused.\<close>

definition pipe_wr :: "u8 list \<Rightarrow> (pipe, nat \<times> delivery list) kop" where
  "pipe_wr b =
     bnd (asks pi_shut) (\<lambda>shut.
     bnd (check (\<not> shut) EPIPE) (\<lambda>_.
     if b = [] then ret (0, []) else
     bnd (asks pi_w) (\<lambda>w.
     case w of
       r # rest \<Rightarrow> bnd (modify (\<lambda>p. p\<lparr>pi_w := rest\<rparr>)) (\<lambda>_. ret (length b, [(r, b)]))
     | [] \<Rightarrow> bnd (modify (\<lambda>p. p\<lparr>pi_q := pi_q p @ [b]\<rparr>)) (\<lambda>_. ret (length b, [])))))"

text \<open>\<open>rd\<close> of reader \<open>r\<close> delivers at once, or lets the reader wait.\<close>

definition pipe_rd :: "nat \<Rightarrow> (pipe, delivery list) kop" where
  "pipe_rd r =
     bnd (asks pi_q) (\<lambda>q.
     case q of
       b # rest \<Rightarrow> bnd (modify (\<lambda>p. p\<lparr>pi_q := rest\<rparr>)) (\<lambda>_. ret [(r, b)])
     | [] \<Rightarrow>
         bnd (asks pi_shut) (\<lambda>shut.
         if shut then ret [(r, [])]
         else bnd (modify (\<lambda>p. p\<lparr>pi_w := pi_w p @ [r]\<rparr>)) (\<lambda>_. ret [])))"

definition pipe_end :: "(pipe, delivery list) kop" where
  "pipe_end =
     bnd (asks pi_shut) (\<lambda>shut.
     if shut then ret [] else
     bnd (asks pi_w) (\<lambda>w.
     bnd (modify (\<lambda>p. p\<lparr>pi_shut := True, pi_w := []\<rparr>)) (\<lambda>_.
     ret (map (\<lambda>r. (r, [])) w))))"

definition pipe_close :: "(pipe, delivery list) kop" where
  "pipe_close =
     bnd (asks pi_refs) (\<lambda>n.
     bnd (modify (\<lambda>p. p\<lparr>pi_refs := n - 1\<rparr>)) (\<lambda>_.
     if n > 0 \<and> n - 1 > 0 then ret [] else pipe_end))"

definition pipe_cancel :: "(pipe, delivery list) kop" where
  "pipe_cancel = pipe_end"

definition pipe_releaseR :: "(pipe, delivery list) kop" where
  "pipe_releaseR =
     bnd (asks pi_rrefs) (\<lambda>n.
     bnd (modify (\<lambda>p. p\<lparr>pi_rrefs := n - 1\<rparr>)) (\<lambda>_.
     if n > 0 \<and> n - 1 > 0 then ret [] else pipe_end))"

section \<open>A pipe in use\<close>

text \<open>Any calls, in any order, by anyone who has the pipe; a refused write is an exception for its caller
  and nothing for the pipe.\<close>

datatype pcall = Wr "u8 list" | Rd nat | Hold | HoldR | Close | Cancel | ReleaseR

fun pipe_call :: "pcall \<Rightarrow> pipe \<Rightarrow> delivery list \<times> pipe" where
  "pipe_call (Wr b) p = (case pipe_wr b p of (Inr (n, d), p') \<Rightarrow> (d, p') | (Inl e, p') \<Rightarrow> ([], p'))"
| "pipe_call (Rd r) p = (case pipe_rd r p of (Inr d, p') \<Rightarrow> (d, p') | (Inl e, p') \<Rightarrow> ([], p'))"
| "pipe_call Hold p = ([], pipe_hold p)"
| "pipe_call HoldR p = ([], pipe_holdR p)"
| "pipe_call Close p = (case pipe_close p of (Inr d, p') \<Rightarrow> (d, p') | (Inl e, p') \<Rightarrow> ([], p'))"
| "pipe_call Cancel p = (case pipe_cancel p of (Inr d, p') \<Rightarrow> (d, p') | (Inl e, p') \<Rightarrow> ([], p'))"
| "pipe_call ReleaseR p = (case pipe_releaseR p of (Inr d, p') \<Rightarrow> (d, p') | (Inl e, p') \<Rightarrow> ([], p'))"

fun pipe_run :: "pcall list \<Rightarrow> pipe \<Rightarrow> delivery list \<times> pipe" where
  "pipe_run [] p = ([], p)"
| "pipe_run (c # cs) p = (case pipe_call c p of (d, p') \<Rightarrow> apfst ((@) d) (pipe_run cs p'))"

text \<open>What was written before the pipe was shut, and who asked to read.\<close>

fun accepted :: "pcall list \<Rightarrow> pipe \<Rightarrow> u8 list list" where
  "accepted [] p = []"
| "accepted (c # cs) p =
     (case c of Wr b \<Rightarrow> if pi_shut p \<or> b = [] then [] else [b] | _ \<Rightarrow> []) @ accepted cs (snd (pipe_call c p))"

fun asked :: "pcall list \<Rightarrow> nat list" where
  "asked [] = []"
| "asked (Rd r # cs) = r # asked cs"
| "asked (_ # cs) = asked cs"

section \<open>The invariant\<close>

text \<open>Data waits only when no reader does, nobody waits at a shut pipe, and no empty array is queued (it
  would read as the end).\<close>

definition pipe_ok :: "pipe \<Rightarrow> bool" where
  "pipe_ok p \<longleftrightarrow> (pi_q p = [] \<or> pi_w p = []) \<and> (pi_shut p \<longrightarrow> pi_w p = []) \<and> [] \<notin> set (pi_q p)"

lemmas pipe_defs = pipe_wr_def pipe_rd_def pipe_end_def pipe_close_def pipe_cancel_def pipe_releaseR_def
  pipe_hold_def pipe_holdR_def

lemma call_ok: "pipe_ok p \<Longrightarrow> pipe_ok (snd (pipe_call c p))"
  by (cases c) (auto simp: pipe_ok_def pipe_defs kop_simps split: list.split)

lemma run_ok: "pipe_ok p \<Longrightarrow> pipe_ok (snd (pipe_run cs p))"
proof (induction cs arbitrary: p)
  case (Cons c cs)
  then show ?case using call_ok [OF Cons.prems, of c] by (auto split: prod.split)
qed simp

lemma new_pipe_ok [simp]: "pipe_ok new_pipe"
  by (simp add: pipe_ok_def new_pipe_def)

text \<open>One call: the data delivered and the data queued, and the readers served and waiting.\<close>

lemma call_data:
  assumes "pipe_ok p" "pipe_call c p = (d, p')"
  shows "filter (\<lambda>b. b \<noteq> []) (map snd d) @ pi_q p' =
    pi_q p @ (case c of Wr b \<Rightarrow> if pi_shut p \<or> b = [] then [] else [b] | _ \<Rightarrow> [])"
proof (cases c)
  case (Rd r)
  then show ?thesis using assms by (cases "pi_q p") (auto simp: pipe_ok_def pipe_defs kop_simps if_distribR split: if_splits)
next
  case (Wr b)
  then show ?thesis using assms
    by (cases "pi_w p") (auto simp: pipe_ok_def pipe_defs kop_simps split: if_splits)
qed (use assms in \<open>auto simp: pipe_ok_def pipe_defs kop_simps filter_empty_conv split: if_splits\<close>)

lemma call_readers:
  assumes "pipe_ok p" "pipe_call c p = (d, p')"
  shows "map fst d @ pi_w p' = pi_w p @ asked [c]"
proof (cases c)
  case (Rd r)
  then show ?thesis using assms by (cases "pi_q p") (auto simp: pipe_ok_def pipe_defs kop_simps split: if_splits)
next
  case (Wr b)
  then show ?thesis using assms
    by (cases "pi_w p") (auto simp: pipe_ok_def pipe_defs kop_simps split: if_splits)
qed (use assms in \<open>auto simp: pipe_ok_def pipe_defs kop_simps comp_def split: if_splits\<close>)

lemma asked_Cons: "asked (c # cs) = asked [c] @ asked cs"
  by (cases c) simp_all

lemma run_data:
  "pipe_ok p \<Longrightarrow> pipe_run cs p = (d, p') \<Longrightarrow>
   filter (\<lambda>b. b \<noteq> []) (map snd d) @ pi_q p' = pi_q p @ accepted cs p"
proof (induction cs arbitrary: p d)
  case (Cons c cs)
  obtain d1 p1 d2 where c: "pipe_call c p = (d1, p1)" and r: "pipe_run cs p1 = (d2, p')" and d: "d = d1 @ d2"
    using Cons.prems(2) by (auto split: prod.splits simp: apfst_def map_prod_def)
  have "pipe_ok p1" using call_ok [OF Cons.prems(1), of c] c by simp
  then show ?case using Cons.IH [OF _ r] call_data [OF Cons.prems(1) c] c d by simp
qed simp

lemma run_readers:
  "pipe_ok p \<Longrightarrow> pipe_run cs p = (d, p') \<Longrightarrow> map fst d @ pi_w p' = pi_w p @ asked cs"
proof (induction cs arbitrary: p d)
  case (Cons c cs)
  obtain d1 p1 d2 where c: "pipe_call c p = (d1, p1)" and r: "pipe_run cs p1 = (d2, p')" and d: "d = d1 @ d2"
    using Cons.prems(2) by (auto split: prod.splits simp: apfst_def map_prod_def)
  have "pipe_ok p1" using call_ok [OF Cons.prems(1), of c] c by simp
  then show ?case using Cons.IH [OF _ r] call_readers [OF Cons.prems(1) c] d by (simp add: asked_Cons [of c cs])
qed simp

text \<open>C27 However a pipe is used: what its readers get (the empty array, the end of the data, apart) followed by
  what is still queued is what the writers were allowed to write, array by array and in order; and the
  readers are served in the order in which they asked, those that wait being the last ones.\<close>

theorem pipe_first_in_first_out:
  assumes "pipe_run cs new_pipe = (d, p)"
  shows "filter (\<lambda>b. b \<noteq> []) (map snd d) @ pi_q p = accepted cs new_pipe \<and> map fst d @ pi_w p = asked cs"
  using run_data [OF new_pipe_ok assms] run_readers [OF new_pipe_ok assms] by (simp add: new_pipe_def)

theorem pipe_first_in_first_out_witness:
  "filter (\<lambda>b. b \<noteq> []) (map snd [(7, [1::u8]), (8, [2]), (9, [])]) @ [] = [[1], [2]] \<and>
   map fst [(7, [1::u8]), (8, [2]), (9, [])] @ [] = [7, 8, 9::nat]"
  using pipe_first_in_first_out [of "[Hold, Rd 7, Wr [1], Wr [2], Rd 8, Rd 9, Close, Wr [3]]"
      "[(7, [1]), (8, [2]), (9, [])]" "snd (pipe_run [Hold, Rd 7, Wr [1], Wr [2], Rd 8, Rd 9, Close, Wr [3]] new_pipe)"]
  by (simp add: pipe_defs kop_simps new_pipe_def)

section \<open>Held ends\<close>

text \<open>Both ends of a pipe are counted in the same way, and the interface is that of a counted resource: it
  dies when a release leaves no holder, and the other operations leave it alone.\<close>

locale counted =
  fixes hold :: "'p \<Rightarrow> 'p"
    and release :: "('p, 'd) kop"
    and holders :: "'p \<Rightarrow> nat"
    and dead :: "'p \<Rightarrow> bool"
  assumes hold_holders: "holders (hold p) = holders p + 1"
    and hold_dead: "dead (hold p) = dead p"
    and release_holders: "holders (snd (release p)) = holders p - 1"
    and release_dead: "dead (snd (release p)) \<longleftrightarrow> dead p \<or> holders p \<le> 1"
    and release_returns: "\<exists>d. fst (release p) = Inr d"
begin

lemma holds: "holders ((hold ^^ n) p) = holders p + n \<and> dead ((hold ^^ n) p) = dead p"
  by (induction n) (simp_all add: hold_holders hold_dead)

lemma releases:
  "n \<le> holders p \<Longrightarrow> holders (((snd \<circ> release) ^^ n) p) = holders p - n \<and>
   (dead (((snd \<circ> release) ^^ n) p) \<longleftrightarrow> dead p \<or> 0 < n \<and> holders p = n)"
  by (induction n) (auto simp: release_holders release_dead)

lemma last_release_kills:
  assumes "\<not> dead p" "holders p = 0"
  shows "\<not> dead (((snd \<circ> release) ^^ n) ((hold ^^ Suc n) p)) \<and>
    dead (((snd \<circ> release) ^^ Suc n) ((hold ^^ Suc n) p))"
  using assms releases [of "Suc n" "(hold ^^ Suc n) p"] releases [of n "(hold ^^ Suc n) p"]
  by (simp add: holds del: funpow.simps)

end

lemma end_state: "pipe_end p = (Inr (if pi_shut p then [] else map (\<lambda>r. (r, [])) (pi_w p)),
    if pi_shut p then p else p\<lparr>pi_shut := True, pi_w := []\<rparr>)"
  by (simp add: pipe_end_def kop_simps)

interpretation wend: counted pipe_hold pipe_close pi_refs pi_shut
  by unfold_locales (auto simp: pipe_hold_def pipe_close_def end_state kop_simps)

interpretation rend: counted pipe_holdR pipe_releaseR pi_rrefs pi_shut
  by unfold_locales (auto simp: pipe_holdR_def pipe_releaseR_def end_state kop_simps)

end
