(* ===== verification/Proc.thy ===== *)
theory Proc
  imports Vfs Stream
begin

text \<open>
  A process (\<^verbatim>\<open>src/src/core/proc.ts\<close>), its credentials and the calls that change them
  (\<^verbatim>\<open>src/src/core/sys.ts\<close>, \<^verbatim>\<open>fullCred\<close> and \<^verbatim>\<open>executableCred\<close> of \<^verbatim>\<open>src/src/core/kernel.ts\<close>). A stream
  is a pipe, by its number, or another one, which has none of the counting methods.
  Identities are integers, so that \<open>Number.isInteger\<close> holds of each; the signal mask is unbounded. The
  field \<open>p_done\<close> is control state of the asynchronous \<open>run\<close>: whether it has come to its end.
\<close>

unbundle bit_operations_syntax

section \<open>Data\<close>

datatype pstate = Ready | Run | Sleep | Stop | Zombie

datatype stream = Pip nat | Other nat

record fd =
  fd_in :: "stream option"
  fd_out :: "stream option"
  fd_path :: "string option"
  fd_rd :: bool
  fd_wr :: bool
  fd_add :: bool
  fd_clo :: bool
  fd_pos :: int

definition new_fd :: "stream option \<Rightarrow> stream option \<Rightarrow> string option \<Rightarrow> bool \<Rightarrow> bool \<Rightarrow> bool \<Rightarrow> fd" where
  "new_fd i out path rd wr add =
     \<lparr>fd_in = i, fd_out = out, fd_path = path, fd_rd = rd, fd_wr = wr, fd_add = add, fd_clo = False, fd_pos = 0\<rparr>"

record io =
  io_sin :: stream
  io_sout :: stream
  io_serr :: stream

record proc =
  p_pid :: int
  p_ppid :: int
  p_pgid :: int
  p_cmd :: string
  p_argv :: "string list"
  p_cwd :: string
  p_env :: "(string \<times> string) list"
  p_cred :: cred
  p_state :: pstate
  p_code :: "int option"
  p_sig :: "nat option"
  p_aborted :: bool
  p_fds :: "(int \<times> fd) list"
  p_kids :: "int list"
  p_mask :: u32
  p_held :: bool
  p_fsuid :: int
  p_fsgid :: int
  p_sigmask :: int
  p_pending :: "nat option"
  p_done :: bool

definition new_proc ::
    "int \<Rightarrow> int \<Rightarrow> int \<Rightarrow> string \<Rightarrow> string list \<Rightarrow> string \<Rightarrow> (string \<times> string) list \<Rightarrow> cred \<Rightarrow> io \<Rightarrow> proc" where
  "new_proc pid ppid pgid cmd argv cwd env c i =
     \<lparr>p_pid = pid, p_ppid = ppid, p_pgid = pgid, p_cmd = cmd, p_argv = argv, p_cwd = cwd, p_env = env,
      p_cred = c, p_state = Ready, p_code = None, p_sig = None, p_aborted = False,
      p_fds = [(0, new_fd (Some (io_sin i)) None (Some ''/dev/stdin'') True False False),
               (1, new_fd None (Some (io_sout i)) (Some ''/dev/stdout'') False True False),
               (2, new_fd None (Some (io_serr i)) (Some ''/dev/stderr'') False True False)],
      p_kids = [], p_mask = 0x12, p_held = False, p_fsuid = credUid c, p_fsgid = credGid c,
      p_sigmask = 0, p_pending = None, p_done = False\<rparr>"

section \<open>The end and the signals\<close>

definition proc_end :: "int \<Rightarrow> proc \<Rightarrow> proc" where
  "proc_end n p = (if p_code p \<noteq> None then p else p\<lparr>p_code := Some (n AND 0xff), p_state := Zombie\<rparr>)"

definition sig_bit :: "nat \<Rightarrow> int" where
  "sig_bit s = push_bit (s - 1) 1"

definition signal :: "nat \<Rightarrow> proc \<Rightarrow> bool \<times> proc" where
  "signal s p =
     (if s = 0 then (True, p)
      else if p_code p \<noteq> None then (False, p)
      else if s \<noteq> 9 \<and> p_sigmask p AND sig_bit s \<noteq> 0 then (False, p\<lparr>p_pending := Some s\<rparr>)
      else (True, p\<lparr>p_sig := Some s, p_aborted := True\<rparr>))"

definition set_signal_mask :: "nat \<Rightarrow> int \<Rightarrow> proc \<Rightarrow> int \<times> proc" where
  "set_signal_mask how m p =
     (let old = p_sigmask p; kill = push_bit 8 1;
          m1 = (if how = 0 then old OR m else if how = 1 then old AND NOT m else m);
          p1 = p\<lparr>p_sigmask := m1 AND NOT kill\<rparr>
      in (old,
          case p_pending p1 of
            Some s \<Rightarrow>
              if p_sigmask p1 AND sig_bit s = 0 then snd (signal s (p1\<lparr>p_pending := None\<rparr>)) else p1
          | None \<Rightarrow> p1))"

section \<open>Credentials\<close>

definition s_euid :: "proc \<Rightarrow> int" where
  "s_euid p = nullish (c_euid (p_cred p)) (credUid (p_cred p))"

definition s_suid :: "proc \<Rightarrow> int" where
  "s_suid p = nullish (c_suid (p_cred p)) (s_euid p)"

definition s_ruid :: "proc \<Rightarrow> int" where
  "s_ruid p = nullish (c_ruid (p_cred p)) (nullish (c_uid (p_cred p)) (s_euid p))"

definition s_egid :: "proc \<Rightarrow> int" where
  "s_egid p = nullish (c_egid (p_cred p)) (credGid (p_cred p))"

definition s_sgid :: "proc \<Rightarrow> int" where
  "s_sgid p = nullish (c_sgid (p_cred p)) (s_egid p)"

definition s_rgid :: "proc \<Rightarrow> int" where
  "s_rgid p = nullish (c_rgid (p_cred p)) (nullish (c_gid (p_cred p)) (s_egid p))"

definition set_umask :: "u32 \<Rightarrow> proc \<Rightarrow> proc" where
  "set_umask n p = p\<lparr>p_mask := n AND 0x1ff\<rparr>"

definition privileged :: "proc \<Rightarrow> bool" where
  "privileged p \<longleftrightarrow> s_euid p = 0"

definition validId :: "int \<Rightarrow> bool" where
  "validId n \<longleftrightarrow> 0 \<le> n \<and> n < 0xffffffff"

definition canSetUid :: "proc \<Rightarrow> int \<Rightarrow> bool" where
  "canSetUid p i \<longleftrightarrow> privileged p \<or> i = s_ruid p \<or> i = s_euid p \<or> i = s_suid p"

definition canSetGid :: "proc \<Rightarrow> int \<Rightarrow> bool" where
  "canSetGid p i \<longleftrightarrow> privileged p \<or> i = s_rgid p \<or> i = s_egid p \<or> i = s_sgid p"

fun ids :: "int option list \<Rightarrow> bool \<Rightarrow> (proc, unit) kop" where
  "ids [] grp = ret ()"
| "ids (None # a) grp = ids a grp"
| "ids (Some i # a) grp =
     bnd (asks (\<lambda>p. validId i \<and> (if grp then canSetGid p i else canSetUid p i))) (\<lambda>b.
     bnd (check b EPERM) (\<lambda>_. ids a grp))"

definition setResuid :: "int option \<Rightarrow> int option \<Rightarrow> int option \<Rightarrow> (proc, unit) kop" where
  "setResuid r e s =
     bnd (ids [r, e, s] False) (\<lambda>_.
     modify (\<lambda>p. let r' = nullish r (s_ruid p); e' = nullish e (s_euid p); s' = nullish s (s_suid p) in
       p\<lparr>p_cred := (p_cred p)\<lparr>c_ruid := Some r', c_euid := Some e', c_suid := Some s', c_uid := Some e'\<rparr>,
         p_fsuid := e'\<rparr>))"

definition setResgid :: "int option \<Rightarrow> int option \<Rightarrow> int option \<Rightarrow> (proc, unit) kop" where
  "setResgid r e s =
     bnd (ids [r, e, s] True) (\<lambda>_.
     modify (\<lambda>p. let r' = nullish r (s_rgid p); e' = nullish e (s_egid p); s' = nullish s (s_sgid p) in
       p\<lparr>p_cred := (p_cred p)\<lparr>c_rgid := Some r', c_egid := Some e', c_sgid := Some s', c_gid := Some e'\<rparr>,
         p_fsgid := e'\<rparr>))"

definition setReuid :: "int option \<Rightarrow> int option \<Rightarrow> (proc, unit) kop" where
  "setReuid r e =
     bnd (asks s_ruid) (\<lambda>oldRuid.
     bnd (ids [r, e] False) (\<lambda>_.
     modify (\<lambda>p. let r' = nullish r (s_ruid p); e' = nullish e (s_euid p);
         s' = (if r \<noteq> None \<or> e \<noteq> None \<and> e \<noteq> Some oldRuid then e' else s_suid p) in
       p\<lparr>p_cred := (p_cred p)\<lparr>c_ruid := Some r', c_euid := Some e', c_suid := Some s', c_uid := Some e'\<rparr>,
         p_fsuid := e'\<rparr>)))"

definition setRegid :: "int option \<Rightarrow> int option \<Rightarrow> (proc, unit) kop" where
  "setRegid r e =
     bnd (asks s_rgid) (\<lambda>oldRgid.
     bnd (ids [r, e] True) (\<lambda>_.
     modify (\<lambda>p. let r' = nullish r (s_rgid p); e' = nullish e (s_egid p);
         s' = (if r \<noteq> None \<or> e \<noteq> None \<and> e \<noteq> Some oldRgid then e' else s_sgid p) in
       p\<lparr>p_cred := (p_cred p)\<lparr>c_rgid := Some r', c_egid := Some e', c_sgid := Some s', c_gid := Some e'\<rparr>,
         p_fsgid := e'\<rparr>)))"

definition setUid :: "int \<Rightarrow> (proc, unit) kop" where
  "setUid u =
     bnd (ids [Some u] False) (\<lambda>_.
     bnd (asks privileged) (\<lambda>b.
     if b then setResuid (Some u) (Some u) (Some u) else setResuid None (Some u) None))"

definition setGid :: "int \<Rightarrow> (proc, unit) kop" where
  "setGid g =
     bnd (ids [Some g] True) (\<lambda>_.
     bnd (asks privileged) (\<lambda>b.
     if b then setResgid (Some g) (Some g) (Some g) else setResgid None (Some g) None))"

definition setFsuid :: "int \<Rightarrow> (proc, int) kop" where
  "setFsuid u =
     bnd (asks p_fsuid) (\<lambda>old.
     bnd (modify (\<lambda>p. if validId u \<and> canSetUid p u then p\<lparr>p_fsuid := u\<rparr> else p)) (\<lambda>_.
     ret old))"

definition setFsgid :: "int \<Rightarrow> (proc, int) kop" where
  "setFsgid g =
     bnd (asks p_fsgid) (\<lambda>old.
     bnd (modify (\<lambda>p. if validId g \<and> canSetGid p g then p\<lparr>p_fsgid := g\<rparr> else p)) (\<lambda>_.
     ret old))"

definition setGroups :: "int list \<Rightarrow> (proc, unit) kop" where
  "setGroups gs =
     bnd (asks privileged) (\<lambda>b.
     bnd (check b EPERM) (\<lambda>_.
     bnd (check (list_all validId gs) EINVAL) (\<lambda>_.
     modify (\<lambda>p. p\<lparr>p_cred := (p_cred p)\<lparr>c_groups := gs\<rparr>\<rparr>))))"

section \<open>Credentials of a new image\<close>

definition rootCred :: cred where
  "rootCred = \<lparr>c_uid = Some 0, c_gid = Some 0, c_ruid = Some 0, c_euid = Some 0, c_suid = Some 0,
     c_rgid = Some 0, c_egid = Some 0, c_sgid = Some 0, c_groups = [0]\<rparr>"

definition fullCred :: "cred \<Rightarrow> cred" where
  "fullCred c =
     (let uid = nullish (c_euid c) (nullish (c_uid c) (nullish (c_ruid c) 0));
          gid = nullish (c_egid c) (nullish (c_gid c) (nullish (c_rgid c) 0))
      in \<lparr>c_uid = Some uid, c_gid = Some gid,
          c_ruid = Some (nullish (c_ruid c) (nullish (c_uid c) uid)), c_euid = Some uid,
          c_suid = Some (nullish (c_suid c) uid),
          c_rgid = Some (nullish (c_rgid c) (nullish (c_gid c) gid)), c_egid = Some gid,
          c_sgid = Some (nullish (c_sgid c) gid), c_groups = c_groups c\<rparr>)"

definition procFsCred :: "proc \<Rightarrow> cred" where
  "procFsCred p = \<lparr>c_uid = Some (p_fsuid p), c_gid = Some (p_fsgid p), c_ruid = None, c_euid = None, c_suid = None,
     c_rgid = None, c_egid = None, c_sgid = None, c_groups = c_groups (p_cred p)\<rparr>"

text \<open>Whether the decoded bytes start with \<open>#!\<close>; a \<open>TextDecoder\<close> drops a leading byte order mark.\<close>

definition script :: "u8 list \<Rightarrow> bool" where
  "script h \<longleftrightarrow> take 2 (if take 3 h = [0xef, 0xbb, 0xbf] then drop 3 h else h) = [0x23, 0x21]"

definition executableCred :: "bool \<Rightarrow> vnode \<Rightarrow> reg \<Rightarrow> cred \<Rightarrow> errno + cred" where
  "executableCred setId n r base =
     (let c = fullCred base; mode = n_mode n in
      if \<not> (setId \<and> mode AND 0xc00 \<noteq> 0) then Inr c
      else if script (reg_head 64 r) then Inl EACCES
      else
        (let c1 = (if mode AND 0x800 \<noteq> 0 then c\<lparr>c_euid := Some (n_uid n), c_uid := Some (n_uid n), c_suid := Some (n_uid n)\<rparr> else c)
         in Inr (if mode AND 0x400 \<noteq> 0 then c1\<lparr>c_egid := Some (n_gid n), c_gid := Some (n_gid n), c_sgid := Some (n_gid n)\<rparr> else c1)))"

section \<open>What a process can become\<close>

text \<open>The calls by which a running process changes who it is, with any arguments, refused or not.\<close>

inductive cred_step :: "proc \<Rightarrow> proc \<Rightarrow> bool" where
  "cred_step p (snd (setResuid r e s p))"
| "cred_step p (snd (setResgid r e s p))"
| "cred_step p (snd (setReuid r e p))"
| "cred_step p (snd (setRegid r e p))"
| "cred_step p (snd (setUid u p))"
| "cred_step p (snd (setGid g p))"
| "cred_step p (snd (setFsuid u p))"
| "cred_step p (snd (setFsgid g p))"
| "cred_step p (snd (setGroups gs p))"

definition uids :: "proc \<Rightarrow> int set" where
  "uids p = {s_ruid p, s_euid p, s_suid p}"

definition gids :: "proc \<Rightarrow> int set" where
  "gids p = {s_rgid p, s_egid p, s_sgid p}"

definition no_gain :: "proc \<Rightarrow> proc \<Rightarrow> bool" where
  "no_gain p p' \<longleftrightarrow> uids p' \<subseteq> uids p \<and> gids p' \<subseteq> gids p \<and> p_fsuid p' \<in> insert (p_fsuid p) (uids p) \<and>
     p_fsgid p' \<in> insert (p_fsgid p) (gids p) \<and> c_groups (p_cred p') = c_groups (p_cred p)"

lemma no_gain_refl: "no_gain p p"
  by (simp add: no_gain_def)

lemma no_gain_trans:
  assumes "no_gain p q" "no_gain q r"
  shows "no_gain p r"
proof -
  have groups: "c_groups (p_cred r) = c_groups (p_cred p)" using assms by (simp add: no_gain_def)
  have "insert (p_fsuid q) (uids q) \<subseteq> insert (p_fsuid p) (uids p)"
      "insert (p_fsgid q) (gids q) \<subseteq> insert (p_fsgid p) (gids p)"
    using assms(1) by (auto simp: no_gain_def)
  then show ?thesis using assms groups unfolding no_gain_def by (meson order_trans subsetD)
qed

text \<open>What \<open>ids\<close> checks of all requested identities.\<close>

definition may_set :: "int option list \<Rightarrow> bool \<Rightarrow> proc \<Rightarrow> bool" where
  "may_set a g p \<longleftrightarrow> (\<forall>i. Some i \<in> set a \<longrightarrow> validId i \<and> (if g then canSetGid p i else canSetUid p i))"

lemma may_set_simps [simp]:
  "may_set [] g p" "may_set (None # a) g p \<longleftrightarrow> may_set a g p"
  "may_set (Some i # a) g p \<longleftrightarrow> validId i \<and> (if g then canSetGid p i else canSetUid p i) \<and> may_set a g p"
  by (auto simp: may_set_def)

lemma ids_run: "ids a g p = (if may_set a g p then Inr () else Inl EPERM, p)"
  by (induction a g rule: ids.induct) (simp_all add: kop_simps)

lemmas id_defs = s_euid_def s_suid_def s_ruid_def s_egid_def s_sgid_def s_rgid_def credUid_def credGid_def

lemmas set_id_defs = setResuid_def setResgid_def setReuid_def setRegid_def setUid_def setGid_def setFsuid_def
  setFsgid_def setGroups_def

lemma bnd_ids [kop_simps]: "bnd (ids a g) f p = (if may_set a g p then f () p else (Inl EPERM, p))"
  by (simp add: bnd_def ids_run)

text \<open>What the two assignments do to the identities.\<close>

lemma uids_assign:
  "uids (p\<lparr>p_cred := (p_cred p)\<lparr>c_ruid := Some r, c_euid := Some e, c_suid := Some s, c_uid := Some e\<rparr>, p_fsuid := f\<rparr>) = {r, e, s}"
  "gids (p\<lparr>p_cred := (p_cred p)\<lparr>c_ruid := Some r, c_euid := Some e, c_suid := Some s, c_uid := Some e\<rparr>, p_fsuid := f\<rparr>) = gids p"
  "uids (p\<lparr>p_cred := (p_cred p)\<lparr>c_rgid := Some r, c_egid := Some e, c_sgid := Some s, c_gid := Some e\<rparr>, p_fsgid := f\<rparr>) = uids p"
  "gids (p\<lparr>p_cred := (p_cred p)\<lparr>c_rgid := Some r, c_egid := Some e, c_sgid := Some s, c_gid := Some e\<rparr>, p_fsgid := f\<rparr>) = {r, e, s}"
  by (simp_all add: uids_def gids_def id_defs)

lemma nullish_in: "nullish a b \<in> A \<longleftrightarrow> (case a of Some x \<Rightarrow> x \<in> A | None \<Rightarrow> b \<in> A)"
  by (cases a) simp_all

lemma canSet_uids: "\<not> privileged p \<Longrightarrow> canSetUid p i \<longleftrightarrow> i \<in> uids p"
  "\<not> privileged p \<Longrightarrow> canSetGid p i \<longleftrightarrow> i \<in> gids p"
  by (auto simp: canSetUid_def canSetGid_def uids_def gids_def)

lemma own_ids: "s_ruid p \<in> uids p" "s_euid p \<in> uids p" "s_suid p \<in> uids p"
  "s_rgid p \<in> gids p" "s_egid p \<in> gids p" "s_sgid p \<in> gids p"
  by (simp_all add: uids_def gids_def)

text \<open>An assignment of identities the process has is no gain.\<close>

lemma assign_no_gain:
  "{r, e, s} \<subseteq> uids p \<Longrightarrow> no_gain p
     (p\<lparr>p_cred := (p_cred p)\<lparr>c_ruid := Some r, c_euid := Some e, c_suid := Some s, c_uid := Some e\<rparr>, p_fsuid := e\<rparr>)"
  "{r, e, s} \<subseteq> gids p \<Longrightarrow> no_gain p
     (p\<lparr>p_cred := (p_cred p)\<lparr>c_rgid := Some r, c_egid := Some e, c_sgid := Some s, c_gid := Some e\<rparr>, p_fsgid := e\<rparr>)"
  by (simp_all add: no_gain_def uids_assign)

lemma may_set_own:
  "\<not> privileged p \<Longrightarrow> may_set a False p \<Longrightarrow> x \<in> set a \<Longrightarrow> v \<in> uids p \<Longrightarrow> nullish x v \<in> uids p"
  "\<not> privileged p \<Longrightarrow> may_set a True p \<Longrightarrow> x \<in> set a \<Longrightarrow> v \<in> gids p \<Longrightarrow> nullish x v \<in> gids p"
  by (cases x; simp add: may_set_def canSet_uids)+

lemma set_id_no_gain:
  assumes "\<not> privileged p"
  shows "no_gain p (snd (setResuid r e s p))" "no_gain p (snd (setResgid r e s p))"
    "no_gain p (snd (setReuid r e p))" "no_gain p (snd (setRegid r e p))"
proof -
  note own = may_set_own [OF assms] own_ids
  show "no_gain p (snd (setResuid r e s p))"
    by (simp add: setResuid_def kop_simps no_gain_refl Let_def, intro impI assign_no_gain) (auto intro: own)
  show "no_gain p (snd (setResgid r e s p))"
    by (simp add: setResgid_def kop_simps no_gain_refl Let_def, intro impI assign_no_gain) (auto intro: own)
  show "no_gain p (snd (setReuid r e p))"
    by (simp only: setReuid_def kop_simps no_gain_refl Let_def snd_conv if_distrib [of snd] split: if_split,
        intro conjI impI assign_no_gain no_gain_refl) (auto intro: own)
  show "no_gain p (snd (setRegid r e p))"
    by (simp only: setRegid_def kop_simps no_gain_refl Let_def snd_conv if_distrib [of snd] split: if_split,
        intro conjI impI assign_no_gain no_gain_refl) (auto intro: own)
qed

lemma set_one_no_gain:
  assumes "\<not> privileged p"
  shows "no_gain p (snd (setUid u p))" "no_gain p (snd (setGid g p))" "no_gain p (snd (setFsuid u p))"
    "no_gain p (snd (setFsgid g p))" "no_gain p (snd (setGroups gs p))"
proof -
  show "no_gain p (snd (setUid u p))" "no_gain p (snd (setGid g p))"
    using assms set_id_no_gain [OF assms]
    by (simp_all add: setUid_def setGid_def kop_simps no_gain_refl del: may_set_simps)
  show "no_gain p (snd (setFsuid u p))"
    using assms by (simp add: setFsuid_def kop_simps no_gain_def canSet_uids) (simp add: uids_def gids_def id_defs)
  show "no_gain p (snd (setFsgid g p))"
    using assms by (simp add: setFsgid_def kop_simps no_gain_def canSet_uids) (simp add: uids_def gids_def id_defs)
  show "no_gain p (snd (setGroups gs p))" using assms by (simp add: setGroups_def kop_simps no_gain_refl)
qed

lemma cred_step_no_gain: "cred_step p p' \<Longrightarrow> \<not> privileged p \<Longrightarrow> no_gain p p'"
  by (induction rule: cred_step.induct) (rule set_id_no_gain set_one_no_gain, assumption)+

lemma still_unprivileged: "no_gain p p' \<Longrightarrow> 0 \<notin> uids p \<Longrightarrow> 0 \<notin> uids p' \<and> \<not> privileged p'"
  using own_ids(2) [of p'] unfolding no_gain_def privileged_def by (metis subsetD)

lemma steps_no_gain: "cred_step\<^sup>*\<^sup>* p p' \<Longrightarrow> 0 \<notin> uids p \<Longrightarrow> no_gain p p' \<and> 0 \<notin> uids p'"
proof (induction rule: rtranclp_induct)
  case (step q r)
  then have q: "no_gain p q" "0 \<notin> uids q" by blast+
  then have "\<not> privileged q" by (simp add: uids_def privileged_def)
  then have r: "no_gain q r" by (rule cred_step_no_gain [OF step.hyps(2)])
  then show ?case using no_gain_trans [OF q(1) r] still_unprivileged [OF r q(2)] by blast
qed (simp add: no_gain_refl)

text \<open>C7 A process none of whose three user identities is the superuser's gains nothing, whatever identity calls
  it makes: user, group and file system identities are among those it had, its groups are the same.\<close>

theorem unprivileged_gains_nothing:
  "cred_step\<^sup>*\<^sup>* p p' \<Longrightarrow> 0 \<notin> uids p \<Longrightarrow> no_gain p p' \<and> \<not> privileged p'"
  using steps_no_gain still_unprivileged by blast

definition guest_proc :: proc where
  "guest_proc = new_proc 3 1 3 ''x'' [''x''] ''/'' []
     \<lparr>c_uid = Some 1000, c_gid = Some 1000, c_ruid = Some 1000, c_euid = Some 1000, c_suid = Some 1001,
      c_rgid = Some 1000, c_egid = Some 1000, c_sgid = Some 1000, c_groups = []\<rparr>
     \<lparr>io_sin = Other 0, io_sout = Other 1, io_serr = Other 2\<rparr>"

theorem unprivileged_gains_nothing_witness:
  "no_gain guest_proc (snd (setUid 1001 guest_proc)) \<and> \<not> privileged (snd (setUid 1001 guest_proc))"
proof (rule unprivileged_gains_nothing)
  show "cred_step\<^sup>*\<^sup>* guest_proc (snd (setUid 1001 guest_proc))"
    by (intro r_into_rtranclp cred_step.intros)
  show "0 \<notin> uids guest_proc"
    by (simp add: guest_proc_def new_proc_def uids_def id_defs)
qed

text \<open>The superuser who takes another identity with \<open>setUid\<close> has taken it for good: all three identities and
  the file system's are the new one, and no sequence of identity calls brings another one back.\<close>

theorem setuid_drops_for_good:
  assumes "privileged p" "setUid u p = (Inr (), q)" "u \<noteq> 0" "cred_step\<^sup>*\<^sup>* q p'"
  shows "uids q = {u} \<and> p_fsuid q = u \<and> uids p' = {u} \<and> p_fsuid p' = u"
proof -
  have q: "uids q = {u}" "p_fsuid q = u"
    using assms(1,2) by (auto simp: setUid_def setResuid_def kop_simps Let_def uids_assign split: if_splits)
  with steps_no_gain [OF assms(4)] assms(3) have "no_gain q p'" by simp
  moreover have "uids p' \<noteq> {}" by (simp add: uids_def)
  ultimately show ?thesis using q by (auto simp: no_gain_def)
qed

definition root_proc :: proc where
  "root_proc = guest_proc\<lparr>p_cred := rootCred\<rparr>"

theorem setuid_drops_for_good_witness:
  "uids (snd (setUid 0 (snd (setUid 1000 root_proc)))) = {1000}"
  using setuid_drops_for_good [of root_proc 1000 "snd (setUid 1000 root_proc)"
      "snd (setUid 0 (snd (setUid 1000 root_proc)))"] cred_step.intros(5) [of "snd (setUid 1000 root_proc)" 0]
  by (auto simp: root_proc_def rootCred_def privileged_def id_defs setUid_def setResuid_def kop_simps validId_def canSetUid_def)

text \<open>A refused identity call changes nothing.\<close>

theorem refused_identity_call_is_clean:
  "m \<in> {setResuid r e s, setResgid r e s, setReuid r e, setRegid r e, setUid u, setGid g, setGroups gs} \<Longrightarrow>
   m p = (Inl err, p') \<Longrightarrow> p' = p \<and> err \<in> {EPERM, EINVAL}"
  by (auto simp: set_id_defs kop_simps split: if_splits)

theorem refused_identity_call_is_clean_witness:
  "snd (setUid 0 guest_proc) = guest_proc \<and> EPERM \<in> {EPERM, EINVAL}"
  using refused_identity_call_is_clean [of "setUid 0" None None None 0 0 "[]" guest_proc EPERM "snd (setUid 0 guest_proc)"]
  by (simp add: guest_proc_def new_proc_def setUid_def kop_simps canSetUid_def privileged_def id_defs)

end
