(* ===== verification/Kernel.thy ===== *)
theory Kernel
  imports VfsProps Proc
begin

text \<open>
  The kernel of the guest system (\<^verbatim>\<open>src/src/core/kernel.ts\<close>) and the calls of a process on descriptors
  (\<^verbatim>\<open>src/src/core/sys.ts\<close>): the process table, starting and ending programs, signals to others,
  pipes, files behind descriptors.

  Process objects are kept by their number, which the kernel never reuses; \<open>k_procs\<close> are the keys of the
  table \<open>procs\<close> in its order. A reader that waits at a pipe has a number; \<open>k_woken\<close> collects the deliveries
  that pipes make when an end is released.
\<close>

section \<open>State\<close>

record kern =
  k_fs :: vfs
  k_objs :: "(int \<times> proc) list"
  k_procs :: "int list"
  k_pipes :: "pipe list"
  k_woken :: "delivery list"
  k_seq :: int
  k_setid :: bool

definition proc_at :: "kern \<Rightarrow> int \<Rightarrow> proc" where
  "proc_at k pid = the (ent_get (k_objs k) pid)"

definition upd_proc :: "int \<Rightarrow> (proc \<Rightarrow> proc) \<Rightarrow> kern \<Rightarrow> kern" where
  "upd_proc pid f k = k\<lparr>k_objs := ent_set pid (f (proc_at k pid)) (k_objs k)\<rparr>"

definition on_fs :: "(vfs, 'a) kop \<Rightarrow> (kern, 'a) kop" where
  "on_fs m k = (case m (k_fs k) of (r, fs) \<Rightarrow> (r, k\<lparr>k_fs := fs\<rparr>))"

definition on_proc :: "int \<Rightarrow> (proc, 'a) kop \<Rightarrow> (kern, 'a) kop" where
  "on_proc pid m k = (case m (proc_at k pid) of (r, p) \<Rightarrow> (r, upd_proc pid (\<lambda>_. p) k))"

definition set_fd :: "int \<Rightarrow> int \<Rightarrow> fd \<Rightarrow> kern \<Rightarrow> kern" where
  "set_fd pid n f = upd_proc pid (\<lambda>p. p\<lparr>p_fds := ent_set n f (p_fds p)\<rparr>)"

definition del_fd :: "int \<Rightarrow> int \<Rightarrow> kern \<Rightarrow> kern" where
  "del_fd pid n = upd_proc pid (\<lambda>p. p\<lparr>p_fds := ent_del n (p_fds p)\<rparr>)"

section \<open>Streams\<close>

text \<open>\<open>s?.holdR?.()\<close> and its kind: only pipes count.\<close>

fun hold_in :: "stream option \<Rightarrow> kern \<Rightarrow> kern" where
  "hold_in (Some (Pip i)) k = k\<lparr>k_pipes := (k_pipes k)[i := pipe_holdR (k_pipes k ! i)]\<rparr>"
| "hold_in s k = k"

fun hold_out :: "stream option \<Rightarrow> kern \<Rightarrow> kern" where
  "hold_out (Some (Pip i)) k = k\<lparr>k_pipes := (k_pipes k)[i := pipe_hold (k_pipes k ! i)]\<rparr>"
| "hold_out s k = k"

text \<open>A call on a pipe that returns, with what it delivered.\<close>

definition pipe_out :: "nat \<Rightarrow> (pipe, delivery list) kop \<Rightarrow> kern \<Rightarrow> kern" where
  "pipe_out i m k = (case m (k_pipes k ! i) of
     (r, p) \<Rightarrow> k\<lparr>k_pipes := (k_pipes k)[i := p], k_woken := k_woken k @ (case r of Inr d \<Rightarrow> d | Inl e \<Rightarrow> [])\<rparr>)"

fun release_in :: "stream option \<Rightarrow> kern \<Rightarrow> kern" where
  "release_in (Some (Pip i)) k = pipe_out i pipe_releaseR k"
| "release_in s k = k"

fun release_out :: "stream option \<Rightarrow> kern \<Rightarrow> kern" where
  "release_out (Some (Pip i)) k = pipe_out i pipe_close k"
| "release_out s k = k"

definition hold_fd :: "fd \<Rightarrow> kern \<Rightarrow> kern" where
  "hold_fd f = hold_out (fd_out f) \<circ> hold_in (fd_in f)"

definition release_fd :: "fd \<Rightarrow> kern \<Rightarrow> kern" where
  "release_fd f = release_out (fd_out f) \<circ> release_in (fd_in f)"

section \<open>Descriptors\<close>

text \<open>\<open>Kern.fd\<close>: the lowest free number from 3 to 255.\<close>

definition kfd :: "proc \<Rightarrow> int option" where
  "kfd p = find (\<lambda>n. ent_get (p_fds p) n = None) [3..255]"

definition kern_fd :: "int \<Rightarrow> (kern, int) kop" where
  "kern_fd pid = bnd (asks (\<lambda>k. kfd (proc_at k pid))) (of_option EMFILE)"

definition get_fd :: "int \<Rightarrow> int \<Rightarrow> (kern, fd) kop" where
  "get_fd pid n = bnd (asks (\<lambda>k. ent_get (p_fds (proc_at k pid)) n)) (of_option EBADF)"

definition sys_pipe :: "int \<Rightarrow> (kern, int \<times> int) kop" where
  "sys_pipe pid =
     bnd (kern_fd pid) (\<lambda>rd.
     bnd (asks (\<lambda>k. length (k_pipes k))) (\<lambda>i.
     bnd (modify (\<lambda>k. k\<lparr>k_pipes := k_pipes k @ [new_pipe]\<rparr>)) (\<lambda>_.
     bnd (modify (set_fd pid rd (new_fd (Some (Pip i)) None None True False False))) (\<lambda>_.
     bnd (modify (hold_in (Some (Pip i)))) (\<lambda>_.
     bnd (kern_fd pid) (\<lambda>wr.
     bnd (modify (set_fd pid wr (new_fd None (Some (Pip i)) None False True False))) (\<lambda>_.
     bnd (modify (hold_out (Some (Pip i)))) (\<lambda>_.
     ret (rd, wr)))))))))"

definition sys_close :: "int \<Rightarrow> int \<Rightarrow> (kern, unit) kop" where
  "sys_close pid n =
     bnd (get_fd pid n) (\<lambda>f.
     bnd (modify (del_fd pid n)) (\<lambda>_.
     modify (release_fd f)))"

definition clone_fd :: "int \<Rightarrow> int \<Rightarrow> int option \<Rightarrow> (kern, int) kop" where
  "clone_fd pid old nu =
     bnd (get_fd pid old) (\<lambda>f.
     bnd (case nu of Some n \<Rightarrow> ret n | None \<Rightarrow> kern_fd pid) (\<lambda>n.
     if n = old then ret n else
     bnd (asks (\<lambda>k. ent_get (p_fds (proc_at k pid)) n)) (\<lambda>q.
     bnd (modify (case q of Some g \<Rightarrow> release_fd g | None \<Rightarrow> id)) (\<lambda>_.
     bnd (modify (hold_fd f)) (\<lambda>_.
     bnd (modify (set_fd pid n (new_fd (fd_in f) (fd_out f) (fd_path f) (fd_rd f) (fd_wr f) (fd_add f)))) (\<lambda>_.
     ret n))))))"

text \<open>\<open>fcntl\<close> of the 64-bit interpreter: 0 and 1030 copy the
  descriptor to the lowest free place from the one given, 1 and 2 read and set its mark to close on
  replacement, 3 and 4 read and set its access.\<close>

definition kfd_from :: "nat \<Rightarrow> proc \<Rightarrow> int option" where
  "kfd_from m p = find (\<lambda>n. ent_get (p_fds p) n = None) [max 3 (int m)..255]"

definition nat_arg :: "int \<Rightarrow> int \<Rightarrow> (kern, nat) kop" where
  "nat_arg n hi = bnd (check (\<not> (n < 0 \<or> hi < n)) ERANGE) (\<lambda>_. ret (nat n))"

definition fcntl_dup :: "int \<Rightarrow> int \<Rightarrow> bool \<Rightarrow> int \<Rightarrow> (kern, int) kop" where
  "fcntl_dup pid n clo arg =
     bnd (nat_arg arg 255) (\<lambda>lo.
     bnd (asks (\<lambda>k. kfd_from lo (proc_at k pid))) (\<lambda>fr.
     bnd (of_option EMFILE fr) (\<lambda>m.
     bnd (clone_fd pid n (Some m)) (\<lambda>q.
     bnd (get_fd pid q) (\<lambda>g.
     bnd (modify (set_fd pid q (g\<lparr>fd_clo := clo\<rparr>))) (\<lambda>_. ret q))))))"

definition sys_fcntl :: "int \<Rightarrow> int \<Rightarrow> int \<Rightarrow> int \<Rightarrow> (kern, int) kop" where
  "sys_fcntl pid n cmd arg =
     bnd (get_fd pid n) (\<lambda>f.
     if cmd = 0 \<or> cmd = 1030 then fcntl_dup pid n (cmd = 1030) arg
     else if cmd = 1 then ret (if fd_clo f then 1 else 0)
     else if cmd = 2 then bnd (nat_arg arg 0x7fffffff) (\<lambda>a.
       bnd (modify (set_fd pid n (f\<lparr>fd_clo := a AND 1 \<noteq> 0\<rparr>))) (\<lambda>_. ret 0))
     else if cmd = 3 then ret (if fd_rd f \<and> fd_wr f then 2 else if fd_wr f then 1 else 0)
     else if cmd = 4 then bnd (nat_arg arg 0x7fffffff) (\<lambda>a.
       bnd (modify (set_fd pid n (f\<lparr>fd_add := a AND 0x400 \<noteq> 0\<rparr>))) (\<lambda>_. ret 0))
     else ret (-22))"

section \<open>Files behind descriptors\<close>

definition file_at :: "int \<Rightarrow> int \<Rightarrow> string \<Rightarrow> (kern, ino \<times> string) kop" where
  "file_at now pid path =
     bnd (asks (\<lambda>k. proc_at k pid)) (\<lambda>p. on_fs (at now path (p_cwd p) (procFsCred p) True))"

definition fs_need :: "int \<Rightarrow> ino \<Rightarrow> u32 \<Rightarrow> (kern, unit) kop" where
  "fs_need pid i bits = bnd (asks (\<lambda>k. proc_at k pid)) (\<lambda>p. on_fs (need i (procFsCred p) bits))"

definition masked :: "proc \<Rightarrow> u32 \<Rightarrow> u32" where
  "masked p mode = mode AND NOT (p_mask p)"

definition sys_writeb :: "int \<Rightarrow> int \<Rightarrow> string \<Rightarrow> u8 list \<Rightarrow> bool \<Rightarrow> u32 \<Rightarrow> (kern, unit) kop" where
  "sys_writeb now pid path b add mode =
     bnd (asks (\<lambda>k. proc_at k pid)) (\<lambda>p. on_fs (writeb now path b (p_cwd p) (procFsCred p) add (masked p mode)))"

definition sys_mkfile :: "int \<Rightarrow> int \<Rightarrow> string \<Rightarrow> u8 list \<Rightarrow> u32 \<Rightarrow> (kern, ino) kop" where
  "sys_mkfile now pid path b mode =
     bnd (asks (\<lambda>k. proc_at k pid)) (\<lambda>p. on_fs (mkfile now path b (p_cwd p) (procFsCred p) (masked p mode)))"

definition sys_stat_size :: "int \<Rightarrow> int \<Rightarrow> string \<Rightarrow> (kern, int) kop" where
  "sys_stat_size now pid path =
     bnd (asks (\<lambda>k. proc_at k pid)) (\<lambda>p.
     bnd (on_fs (stat now path (p_cwd p) (procFsCred p) True)) (\<lambda>s. ret (int (st_size s))))"

text \<open>\<open>open\<close>: the flags are the characters \<open>r\<close>, \<open>w\<close>, \<open>a\<close>, \<open>+\<close>.\<close>

definition open_existing :: "int \<Rightarrow> int \<Rightarrow> string \<Rightarrow> string \<Rightarrow> bool \<Rightarrow> bool \<Rightarrow> (kern, string) kop" where
  "open_existing now pid path flags rd wr =
     bnd (file_at now pid path) (\<lambda>(i, hpath).
     bnd (asks (\<lambda>k. is_dir (k_fs k) i)) (\<lambda>isd.
     bnd (check (\<not> isd) EISDIR) (\<lambda>_.
     bnd (if rd then fs_need pid i 4 else ret ()) (\<lambda>_.
     bnd (if wr then fs_need pid i 2 else ret ()) (\<lambda>_.
     bnd (if take 1 flags = ''w'' then sys_writeb now pid hpath [] False 0x1b6 else ret ()) (\<lambda>_.
     ret hpath))))))"

definition sys_open :: "int \<Rightarrow> int \<Rightarrow> string \<Rightarrow> string \<Rightarrow> u32 \<Rightarrow> (kern, int) kop" where
  "sys_open now pid path flags mode =
     (let rd = (CHR ''r'' \<in> set flags \<or> CHR ''+'' \<in> set flags);
          wr = (CHR ''w'' \<in> set flags \<or> CHR ''a'' \<in> set flags \<or> CHR ''+'' \<in> set flags);
          add = (take 1 flags = ''a'')
      in if path = ''/dev/tty'' then
           bnd (kern_fd pid) (\<lambda>n.
           bnd (asks (\<lambda>k. p_fds (proc_at k pid))) (\<lambda>fds.
           bnd (modify (set_fd pid n (new_fd (Option.bind (ent_get fds 0) fd_in) (Option.bind (ent_get fds 1) fd_out)
                  None rd wr add))) (\<lambda>_.
           ret n)))
         else
           bnd (catch (open_existing now pid path flags rd wr)
                 (\<lambda>e. if e \<noteq> ENOENT \<or> \<not> wr then bad e else
                    bnd (sys_mkfile now pid path [] mode) (\<lambda>_.
                    bnd (file_at now pid path) (\<lambda>(i, hpath). ret hpath)))) (\<lambda>hpath.
           bnd (kern_fd pid) (\<lambda>n.
           bnd (if add then sys_stat_size now pid hpath else ret 0) (\<lambda>pos.
           bnd (modify (set_fd pid n ((new_fd None None (Some hpath) rd wr add)\<lparr>fd_pos := pos\<rparr>))) (\<lambda>_.
           ret n)))))"

definition sys_openDir :: "int \<Rightarrow> int \<Rightarrow> string \<Rightarrow> (kern, int) kop" where
  "sys_openDir now pid path =
     bnd (file_at now pid path) (\<lambda>(i, hpath).
     bnd (asks (\<lambda>k. is_dir (k_fs k) i)) (\<lambda>isd.
     bnd (check isd ENOTDIR) (\<lambda>_.
     bnd (fs_need pid i 5) (\<lambda>_.
     bnd (kern_fd pid) (\<lambda>n.
     bnd (modify (set_fd pid n (new_fd None None (Some hpath) True False False))) (\<lambda>_.
     ret n))))))"

text \<open>The descriptor with its path, or \<open>EBADF\<close>.\<close>

definition file_fd :: "int \<Rightarrow> int \<Rightarrow> (kern, fd \<times> string) kop" where
  "file_fd pid n = bnd (get_fd pid n) (\<lambda>f. bnd (of_option EBADF (fd_path f)) (\<lambda>path. ret (f, path)))"

definition set_pos :: "int \<Rightarrow> int \<Rightarrow> fd \<Rightarrow> int \<Rightarrow> (kern, unit) kop" where
  "set_pos pid n f pos = modify (set_fd pid n (f\<lparr>fd_pos := pos\<rparr>))"

text \<open>\<open>b.slice(pos, pos + len)\<close>: a negative place counts from the end.\<close>

definition js_index :: "u8 list \<Rightarrow> int \<Rightarrow> nat" where
  "js_index b p = nat (if p < 0 then max 0 (int (length b) + p) else min p (int (length b)))"

definition slice :: "int \<Rightarrow> nat \<Rightarrow> u8 list \<Rightarrow> u8 list" where
  "slice pos len b = (let lo = js_index b pos in take (js_index b (pos + int len) - lo) (drop lo b))"

definition sys_fdr :: "int \<Rightarrow> int \<Rightarrow> int \<Rightarrow> nat \<Rightarrow> (kern, u8 list) kop" where
  "sys_fdr now pid n len =
     bnd (file_fd pid n) (\<lambda>(f, path).
     bnd (check (fd_rd f) EBADF) (\<lambda>_.
     bnd (file_at now pid path) (\<lambda>(i, _).
     bnd (asks (\<lambda>k. n_body (node (k_fs k) i))) (\<lambda>bd.
     case bd of
       Reg r \<Rightarrow>
         (let b = slice (fd_pos f) len (r_data r) in
          bnd (set_pos pid n f (fd_pos f + int (length b))) (\<lambda>_. ret b))
     | _ \<Rightarrow>
         if (case bd of Chr rfn wfn rep \<Rightarrow> fd_pos f > 0 \<and> \<not> rep | _ \<Rightarrow> False) then ret []
         else
           bnd (asks (\<lambda>k. proc_at k pid)) (\<lambda>p.
           bnd (on_fs (readb now path (p_cwd p) (procFsCred p))) (\<lambda>all.
           let b = take len all in
           bnd (set_pos pid n f (fd_pos f + int (length b))) (\<lambda>_. ret b)))))))"

text \<open>The new contents when \<open>b\<close> is written at \<open>pos\<close>: zeros fill what lies between.\<close>

definition overlay :: "u8 list \<Rightarrow> nat \<Rightarrow> u8 list \<Rightarrow> u8 list" where
  "overlay data pos b =
     (let n = max (length data) (pos + length b); x = data @ replicate (n - length data) 0
      in take pos x @ b @ drop (pos + length b) x)"

definition sys_fdw :: "int \<Rightarrow> int \<Rightarrow> int \<Rightarrow> u8 list \<Rightarrow> (kern, nat) kop" where
  "sys_fdw now pid n b =
     bnd (file_fd pid n) (\<lambda>(f, path).
     bnd (check (fd_wr f) EBADF) (\<lambda>_.
     bnd (file_at now pid path) (\<lambda>(i, _).
     bnd (asks (\<lambda>k. n_body (node (k_fs k) i))) (\<lambda>bd.
     case bd of
       Reg r \<Rightarrow>
         (let pos = (if fd_add f then length (r_data r) else nat (fd_pos f)) in
          bnd (sys_writeb now pid path (overlay (r_data r) pos b) False 0x1b6) (\<lambda>_.
          bnd (set_pos pid n f (int (pos + length b))) (\<lambda>_. ret (length b))))
     | _ \<Rightarrow>
         bnd (sys_writeb now pid path b True 0x1b6) (\<lambda>_.
         bnd (set_pos pid n f (fd_pos f + int (length b))) (\<lambda>_. ret (length b)))))))"

definition sys_seek :: "int \<Rightarrow> int \<Rightarrow> int \<Rightarrow> int \<Rightarrow> nat \<Rightarrow> (kern, int) kop" where
  "sys_seek now pid n off whence =
     bnd (file_fd pid n) (\<lambda>(f, path).
     bnd (if whence = 0 then ret 0 else if whence = 1 then ret (fd_pos f) else sys_stat_size now pid path) (\<lambda>base.
     bnd (check (\<not> base + off < 0) EINVAL) (\<lambda>_.
     bnd (set_pos pid n f (base + off)) (\<lambda>_.
     ret (base + off)))))"

section \<open>Pipes behind descriptors\<close>

text \<open>Reading and writing descriptors that have a pipe (the interpreter's \<open>read\<close> and \<open>write\<close> of a
  descriptor with a stream): reader \<open>r\<close> gets its bytes, or waits.\<close>

definition pipe_of :: "stream option \<Rightarrow> (kern, nat) kop" where
  "pipe_of s = (case s of Some (Pip i) \<Rightarrow> ret i | _ \<Rightarrow> bad EBADF)"

definition fd_read_pipe :: "int \<Rightarrow> int \<Rightarrow> nat \<Rightarrow> (kern, delivery list) kop" where
  "fd_read_pipe pid n r =
     bnd (get_fd pid n) (\<lambda>f.
     bnd (pipe_of (fd_in f)) (\<lambda>i. \<lambda>k.
     case pipe_rd r (k_pipes k ! i) of (x, p) \<Rightarrow> (x, k\<lparr>k_pipes := (k_pipes k)[i := p]\<rparr>)))"

definition fd_write_pipe :: "int \<Rightarrow> int \<Rightarrow> u8 list \<Rightarrow> (kern, nat \<times> delivery list) kop" where
  "fd_write_pipe pid n b =
     bnd (get_fd pid n) (\<lambda>f.
     bnd (pipe_of (fd_out f)) (\<lambda>i. \<lambda>k.
     case pipe_wr b (k_pipes k ! i) of (x, p) \<Rightarrow> (x, k\<lparr>k_pipes := (k_pipes k)[i := p]\<rparr>)))"

section \<open>Programs\<close>

record start_opt =
  o_sin :: "stream option"
  o_sout :: "stream option"
  o_serr :: "stream option"
  o_fds :: "(int \<times> fd) list option"
  o_pgid :: "int option"
  o_cwd :: "string option"
  o_env :: "(string \<times> string) list option"

text \<open>\<open>s.split(c)\<close>.\<close>

fun split_on :: "char \<Rightarrow> string \<Rightarrow> string list" where
  "split_on c [] = [[]]"
| "split_on c (x # xs) = (if x = c then [] # split_on c xs else case split_on c xs of y # ys \<Rightarrow> (x # y) # ys | [] \<Rightarrow> [[x]])"

definition strip_slash :: "string \<Rightarrow> string" where
  "strip_slash d = (if d \<noteq> [] \<and> last d = CHR ''/'' then butlast d else d)"

fun which_in :: "int \<Rightarrow> int \<Rightarrow> string \<Rightarrow> string list \<Rightarrow> (kern, string) kop" where
  "which_in now pid name [] = bad ENOENT"
| "which_in now pid name (d # ds) =
     catch
       (bnd (file_at now pid (strip_slash d @ ''/'' @ name)) (\<lambda>(i, hpath).
        bnd (fs_need pid i 1) (\<lambda>_.
        bnd (asks (\<lambda>k. n_body (node (k_fs k) i))) (\<lambda>b.
        case b of Reg r \<Rightarrow> ret hpath | _ \<Rightarrow> bad ENOENT))))
       (\<lambda>_. which_in now pid name ds)"

definition which :: "int \<Rightarrow> int \<Rightarrow> string \<Rightarrow> (kern, string) kop" where
  "which now pid name =
     (if CHR ''/'' \<in> set name then
        bnd (file_at now pid name) (\<lambda>(_, q).
        bnd (asks (\<lambda>k. proc_at k pid)) (\<lambda>p.
        bnd (on_fs (at now q ''/'' (procFsCred p) True)) (\<lambda>(i, _).
        bnd (fs_need pid i 1) (\<lambda>_. ret q))))
      else
        bnd (asks (\<lambda>k. nullish (ent_get (p_env (proc_at k pid)) ''PATH'') ''/bin'')) (\<lambda>path.
        which_in now pid name (split_on (CHR '':'') path)))"

text \<open>\<open>??\<close> over streams: the option given, else the parent's, else a fresh memory stream.\<close>

fun or_else :: "'a option \<Rightarrow> 'a option \<Rightarrow> 'a option" where
  "or_else (Some x) y = Some x"
| "or_else None y = y"

definition start_io :: "start_opt \<Rightarrow> (int \<times> fd) list \<Rightarrow> io" where
  "start_io opt fds =
     \<lparr>io_sin = nullish (or_else (o_sin opt) (Option.bind (ent_get fds 0) fd_in)) (Other 0),
      io_sout = nullish (or_else (o_sout opt) (Option.bind (ent_get fds 1) fd_out)) (Other 1),
      io_serr = nullish (or_else (o_serr opt) (Option.bind (ent_get fds 2) fd_out)) (Other 2)\<rparr>"

definition hold_io :: "io \<Rightarrow> kern \<Rightarrow> kern" where
  "hold_io i = (if io_serr i \<noteq> io_sout i then hold_out (Some (io_serr i)) else id) \<circ>
     hold_out (Some (io_sout i)) \<circ> hold_in (Some (io_sin i))"

definition hold_all :: "(int \<times> fd) list \<Rightarrow> kern \<Rightarrow> kern" where
  "hold_all = fold (\<lambda>(n, f). hold_fd f)"

definition release_all :: "(int \<times> fd) list \<Rightarrow> kern \<Rightarrow> kern" where
  "release_all = fold (\<lambda>(n, f). release_fd f)"

text \<open>The process that \<open>start\<close> makes for the parent \<open>p\<close>: with the table of descriptors given, or with its
  three streams.\<close>

definition start_proc :: "proc \<Rightarrow> int \<Rightarrow> string \<Rightarrow> string list \<Rightarrow> start_opt \<Rightarrow> cred \<Rightarrow> proc" where
  "start_proc p pid path argv opt cred =
     (let q = (new_proc pid (p_pid p) (nullish (o_pgid opt) pid) path argv (nullish (o_cwd opt) (p_cwd p))
                (nullish (o_env opt) (p_env p)) cred (start_io opt (p_fds p)))\<lparr>p_mask := p_mask p\<rparr>
      in case o_fds opt of Some fds \<Rightarrow> q\<lparr>p_fds := fds, p_held := True\<rparr> | None \<Rightarrow> q)"

text \<open>\<open>start\<close> from the number of the new process on.\<close>

definition launch :: "string \<Rightarrow> string list \<Rightarrow> int \<Rightarrow> start_opt \<Rightarrow> ino \<Rightarrow> reg \<Rightarrow> (kern, int) kop" where
  "launch path argv pr opt i r =
     bnd (asks k_seq) (\<lambda>pid.
     bnd (modify (\<lambda>k. k\<lparr>k_seq := pid + 1\<rparr>)) (\<lambda>_.
     bnd (asks (\<lambda>k. proc_at k pr)) (\<lambda>p.
     bnd (if o_fds opt = None then modify (hold_io (start_io opt (p_fds p))) else ret ()) (\<lambda>_.
     bnd (asks (\<lambda>k. executableCred (k_setid k) (node (k_fs k) i) r (p_cred p))) (\<lambda>c.
     bnd (of_result c) (\<lambda>cred.
     bnd (modify (case o_fds opt of Some fds \<Rightarrow> hold_all fds | None \<Rightarrow> id)) (\<lambda>_.
     bnd (modify (\<lambda>k. upd_proc pr (\<lambda>p. p\<lparr>p_kids := p_kids p @ [pid]\<rparr>)
            (k\<lparr>k_objs := ent_set pid (start_proc p pid path argv opt cred) (k_objs k), k_procs := k_procs k @ [pid]\<rparr>))) (\<lambda>_.
     ret pid))))))))"

definition start :: "int \<Rightarrow> string \<Rightarrow> string list \<Rightarrow> int \<Rightarrow> start_opt \<Rightarrow> (kern, int) kop" where
  "start now name argv pr opt =
     bnd (which now pr name) (\<lambda>path.
     bnd (file_at now pr path) (\<lambda>(i, _).
     bnd (asks (\<lambda>k. n_body (node (k_fs k) i))) (\<lambda>b.
     case b of
       Reg r \<Rightarrow> launch path (name # argv) pr opt i r
     | _ \<Rightarrow> bad ENOEXEC)))"

text \<open>The replacement of the image in \<open>run\<close>: the descriptors marked to close on it are released.\<close>

definition exec_replace :: "int \<Rightarrow> string \<Rightarrow> string list \<Rightarrow> (string \<times> string) list \<Rightarrow> cred \<Rightarrow> (kern, unit) kop" where
  "exec_replace pid path argv env cred =
     bnd (asks (\<lambda>k. filter (\<lambda>(n, f). fd_clo f) (p_fds (proc_at k pid)))) (\<lambda>clo.
     bnd (modify (fold (\<lambda>(n, f). del_fd pid n \<circ> release_fd f) clo)) (\<lambda>_.
     modify (upd_proc pid (\<lambda>p. p\<lparr>p_cmd := path, p_argv := argv, p_env := env, p_cred := fullCred cred,
       p_fsuid := credUid (fullCred cred), p_fsgid := credGid (fullCred cred)\<rparr>))))"

text \<open>The end of \<open>run\<close>: what the process holds is released, then it ends.\<close>

definition kern_exit :: "int \<Rightarrow> int \<Rightarrow> kern \<Rightarrow> kern" where
  "kern_exit pid code k =
     (let p = proc_at k pid; fds = p_fds p;
          out1 = Option.bind (ent_get fds 1) fd_out; out2 = Option.bind (ent_get fds 2) fd_out;
          k1 = (if p_held p then release_all fds k
                else (if out2 \<noteq> out1 then release_out out2 else id)
                  (release_out out1 (release_in (Option.bind (ent_get fds 0) fd_in) k)))
      in upd_proc pid (\<lambda>p. (proc_end code p)\<lparr>p_done := True\<rparr>) k1)"

section \<open>The process table\<close>

definition is_root :: "proc \<Rightarrow> bool" where
  "is_root p \<longleftrightarrow> nullish (c_euid (p_cred p)) (nullish (c_uid (p_cred p)) 0) = 0"

definition real_uid :: "proc \<Rightarrow> int" where
  "real_uid p = nullish (c_ruid (p_cred p)) (nullish (c_uid (p_cred p)) 0)"

definition reap :: "int \<Rightarrow> int option \<Rightarrow> kern \<Rightarrow> kern" where
  "reap pid pr k =
     (if pid \<le> 2 \<or> pid \<notin> set (k_procs k) \<or> p_code (proc_at k pid) = None then k
      else
        (let k1 = k\<lparr>k_procs := filter (\<lambda>q. q \<noteq> pid) (k_procs k)\<rparr>;
             pp = (case pr of Some q \<Rightarrow> Some q
                     | None \<Rightarrow> if p_ppid (proc_at k pid) \<in> set (k_procs k1) then Some (p_ppid (proc_at k pid)) else None)
         in case pp of Some q \<Rightarrow> upd_proc q (\<lambda>p. p\<lparr>p_kids := filter (\<lambda>c. c \<noteq> pid) (p_kids p)\<rparr>) k1
              | None \<Rightarrow> k1))"

text \<open>\<open>wait\<close> returns the code, or nothing while the process has none and the caller waits.\<close>

definition kern_wait :: "int \<Rightarrow> int \<Rightarrow> (kern, int option) kop" where
  "kern_wait pid pr =
     bnd (asks (\<lambda>k. pid \<in> set (k_procs k))) (\<lambda>b.
     bnd (check b ESRCH) (\<lambda>_.
     bnd (asks (\<lambda>k. (proc_at k pid, proc_at k pr))) (\<lambda>(p, q).
     bnd (check (\<not> (p_ppid p \<noteq> p_pid q \<and> \<not> is_root q)) ECHILD) (\<lambda>_.
     case p_code p of
       None \<Rightarrow> ret None
     | Some n \<Rightarrow> bnd (modify (reap pid (Some pr))) (\<lambda>_. ret (Some n))))))"

definition kill_one :: "nat \<Rightarrow> int \<Rightarrow> int \<Rightarrow> (kern, int) kop" where
  "kill_one sig by pid =
     (if pid = 1 then ret 0 else
      bnd (asks (\<lambda>k. (proc_at k by, proc_at k pid))) (\<lambda>(q, p).
      bnd (check (\<not> (\<not> is_root q \<and> real_uid q \<noteq> real_uid p)) EPERM) (\<lambda>_.
      bnd (if sig = 0 then ret () else
             modify (upd_proc pid (\<lambda>p. let p' = snd (signal sig p) in
               if sig = 9 \<or> p_state p' = Sleep then proc_end (128 + int sig) p' else p'))) (\<lambda>_.
      ret 1))))"

definition kern_kill :: "int \<Rightarrow> nat \<Rightarrow> int \<Rightarrow> (kern, int) kop" where
  "kern_kill target sig by =
     bnd (asks (\<lambda>k. filter (\<lambda>q. if target < 0 then p_pgid (proc_at k q) = - target else q = target) (k_procs k))) (\<lambda>q.
     bnd (check (q \<noteq> []) ESRCH) (\<lambda>_.
     bnd (mapk (kill_one sig by) q) (\<lambda>ns. ret (sum_list ns))))"

definition kern_stop :: "int \<Rightarrow> (kern, unit) kop" where
  "kern_stop by =
     bnd (asks (\<lambda>k. is_root (proc_at k by))) (\<lambda>b.
     bnd (check b EPERM) (\<lambda>_.
     modify (\<lambda>k. fold (\<lambda>q. if q \<noteq> 1 \<and> q \<noteq> by then upd_proc q (\<lambda>p. snd (signal 15 p)) else id) (k_procs k) k)))"

text \<open>Start-up: process 1, and a session. A session's environment is an argument.\<close>

definition kern_init :: "(string \<times> string) list \<Rightarrow> kern \<Rightarrow> kern" where
  "kern_init env k =
     (if 1 \<in> set (k_procs k) then k else
      k\<lparr>k_objs := ent_set 1 ((new_proc 1 0 1 ''init'' [''init''] ''/'' env rootCred
             \<lparr>io_sin = Other 0, io_sout = Other 1, io_serr = Other 1\<rparr>)\<lparr>p_state := Sleep\<rparr>) (k_objs k),
        k_procs := k_procs k @ [1], k_seq := 2\<rparr>)"

definition session :: "io \<Rightarrow> cred \<Rightarrow> string \<Rightarrow> (string \<times> string) list \<Rightarrow> (kern, int) kop" where
  "session io c home env =
     bnd (modify (kern_init env)) (\<lambda>_.
     bnd (asks k_seq) (\<lambda>pid.
     bnd (modify (\<lambda>k. k\<lparr>k_seq := pid + 1\<rparr>)) (\<lambda>_.
     bnd (modify (\<lambda>k. upd_proc 1 (\<lambda>p. p\<lparr>p_kids := p_kids p @ [pid]\<rparr>)
       (k\<lparr>k_objs := ent_set pid ((new_proc pid 1 pid ''thsh'' [''thsh''] home env (fullCred c) io)\<lparr>p_state := Run\<rparr>) (k_objs k),
          k_procs := k_procs k @ [pid]\<rparr>))) (\<lambda>_.
     ret pid))))"

definition new_kern :: "vfs \<Rightarrow> bool \<Rightarrow> kern" where
  "new_kern fs setid = \<lparr>k_fs = fs, k_objs = [], k_procs = [], k_pipes = [], k_woken = [], k_seq = 1, k_setid = setid\<rparr>"

end
