(* ===== verification/KernelInv.thy ===== *)
theory KernelInv
  imports Kernel
begin

text \<open>
  What the kernel keeps, however its processes use it: the table of processes is well formed, every end of
  a pipe is counted exactly as often as descriptors hold it, a pipe is shut when one of its ends is gone,
  and the file system keeps its own invariant.
\<close>

section \<open>Who holds a pipe\<close>

definition uses :: "(fd \<Rightarrow> stream option) \<Rightarrow> nat \<Rightarrow> fd \<Rightarrow> nat" where
  "uses sel i f = (if sel f = Some (Pip i) then 1 else 0)"

definition proc_uses :: "(fd \<Rightarrow> stream option) \<Rightarrow> nat \<Rightarrow> proc \<Rightarrow> nat" where
  "proc_uses sel i p = (if p_done p then 0 else ent_sum (uses sel i) (p_fds p))"

definition holders :: "(fd \<Rightarrow> stream option) \<Rightarrow> nat \<Rightarrow> kern \<Rightarrow> nat" where
  "holders sel i k = ent_sum (proc_uses sel i) (k_objs k)"

definition known :: "kern \<Rightarrow> int \<Rightarrow> bool" where
  "known k pid \<longleftrightarrow> ent_get (k_objs k) pid \<noteq> None"

definition live :: "kern \<Rightarrow> int \<Rightarrow> bool" where
  "live k pid \<longleftrightarrow> (case ent_get (k_objs k) pid of Some p \<Rightarrow> \<not> p_done p | None \<Rightarrow> False)"

definition stream_ok :: "kern \<Rightarrow> stream option \<Rightarrow> bool" where
  "stream_ok k s \<longleftrightarrow> (\<forall>i. s = Some (Pip i) \<longrightarrow> i < length (k_pipes k))"

definition fd_ok :: "kern \<Rightarrow> fd \<Rightarrow> bool" where
  "fd_ok k f \<longleftrightarrow> stream_ok k (fd_in f) \<and> stream_ok k (fd_out f)"

definition proc_ok :: "kern \<Rightarrow> proc \<Rightarrow> bool" where
  "proc_ok k p \<longleftrightarrow> ents_ok (p_fds p) \<and> (\<forall>n f. ent_get (p_fds p) n = Some f \<longrightarrow> fd_ok k f)"

definition tables_ok :: "kern \<Rightarrow> bool" where
  "tables_ok k \<longleftrightarrow> ents_ok (k_objs k) \<and> (\<forall>pid \<in> set (k_procs k). known k pid) \<and>
     (\<forall>pid p. ent_get (k_objs k) pid = Some p \<longrightarrow> pid < k_seq k \<and> proc_ok k p)"

definition exact :: "(fd \<Rightarrow> stream option) \<Rightarrow> (pipe \<Rightarrow> nat) \<Rightarrow> kern \<Rightarrow> bool" where
  "exact sel cnt k \<longleftrightarrow> (\<forall>i < length (k_pipes k). cnt (k_pipes k ! i) = holders sel i k)"

text \<open>A pipe that is not shut has both ends, unless its making has failed half-way and nobody ever had its
  write end.\<close>

definition ends_ok :: "pipe \<Rightarrow> bool" where
  "ends_ok p \<longleftrightarrow> pipe_ok p \<and> (pi_shut p \<longrightarrow> pi_refs p = 0 \<or> pi_rrefs p = 0) \<and>
     (\<not> pi_shut p \<longrightarrow> pi_refs p > 0 \<and> pi_rrefs p > 0 \<or> pi_refs p = 0 \<and> pi_q p = [])"

definition kern_ok :: "kern \<Rightarrow> bool" where
  "kern_ok k \<longleftrightarrow> tables_ok k \<and> exact fd_out pi_refs k \<and> exact fd_in pi_rrefs k \<and>
     list_all ends_ok (k_pipes k) \<and> vfs_ok (k_fs k)"

section \<open>The primitives\<close>

lemma stream_cases: "hold_in s k = (case s of Some (Pip i) \<Rightarrow> k\<lparr>k_pipes := (k_pipes k)[i := pipe_holdR (k_pipes k ! i)]\<rparr> | _ \<Rightarrow> k)"
  "hold_out s k = (case s of Some (Pip i) \<Rightarrow> k\<lparr>k_pipes := (k_pipes k)[i := pipe_hold (k_pipes k ! i)]\<rparr> | _ \<Rightarrow> k)"
  "release_in s k = (case s of Some (Pip i) \<Rightarrow> pipe_out i pipe_releaseR k | _ \<Rightarrow> k)"
  "release_out s k = (case s of Some (Pip i) \<Rightarrow> pipe_out i pipe_close k | _ \<Rightarrow> k)"
  by (simp_all split: option.split stream.split)

lemma pipe_out_frame [simp]:
  "k_objs (pipe_out i m k) = k_objs k" "k_seq (pipe_out i m k) = k_seq k" "k_fs (pipe_out i m k) = k_fs k"
  "k_procs (pipe_out i m k) = k_procs k" "k_setid (pipe_out i m k) = k_setid k"
  "k_pipes (pipe_out i m k) = (k_pipes k)[i := snd (m (k_pipes k ! i))]"
  by (simp_all add: pipe_out_def split: prod.split)

lemma stream_frame [simp]:
  "k_objs (hold_in s k) = k_objs k" "k_seq (hold_in s k) = k_seq k" "k_fs (hold_in s k) = k_fs k"
  "length (k_pipes (hold_in s k)) = length (k_pipes k)" "k_procs (hold_in s k) = k_procs k"
  "k_objs (hold_out s k) = k_objs k" "k_seq (hold_out s k) = k_seq k" "k_fs (hold_out s k) = k_fs k"
  "length (k_pipes (hold_out s k)) = length (k_pipes k)" "k_procs (hold_out s k) = k_procs k"
  "k_objs (release_in s k) = k_objs k" "k_seq (release_in s k) = k_seq k" "k_fs (release_in s k) = k_fs k"
  "length (k_pipes (release_in s k)) = length (k_pipes k)" "k_procs (release_in s k) = k_procs k"
  "k_objs (release_out s k) = k_objs k" "k_seq (release_out s k) = k_seq k" "k_fs (release_out s k) = k_fs k"
  "length (k_pipes (release_out s k)) = length (k_pipes k)" "k_procs (release_out s k) = k_procs k"
  by (simp_all add: stream_cases split: option.split stream.split)

lemma fd_frame [simp]:
  "k_objs (hold_fd f k) = k_objs k" "k_seq (hold_fd f k) = k_seq k" "k_fs (hold_fd f k) = k_fs k"
  "length (k_pipes (hold_fd f k)) = length (k_pipes k)" "k_procs (hold_fd f k) = k_procs k"
  "k_objs (release_fd f k) = k_objs k" "k_seq (release_fd f k) = k_seq k" "k_fs (release_fd f k) = k_fs k"
  "length (k_pipes (release_fd f k)) = length (k_pipes k)" "k_procs (release_fd f k) = k_procs k"
  by (simp_all add: hold_fd_def release_fd_def)

lemma upd_frame [simp]:
  "k_pipes (upd_proc pid g k) = k_pipes k" "k_seq (upd_proc pid g k) = k_seq k" "k_fs (upd_proc pid g k) = k_fs k"
  "k_procs (upd_proc pid g k) = k_procs k" "k_objs (upd_proc pid g k) = ent_set pid (g (proc_at k pid)) (k_objs k)"
  "k_pipes (set_fd pid n f k) = k_pipes k" "k_seq (set_fd pid n f k) = k_seq k" "k_fs (set_fd pid n f k) = k_fs k"
  "k_pipes (del_fd pid n k) = k_pipes k" "k_seq (del_fd pid n k) = k_seq k" "k_fs (del_fd pid n k) = k_fs k"
  by (simp_all add: upd_proc_def set_fd_def del_fd_def)

lemma proc_at_frame [simp]:
  "proc_at (hold_fd f k) = proc_at k" "proc_at (release_fd f k) = proc_at k" "proc_at (hold_in s k) = proc_at k"
  "proc_at (hold_out s k) = proc_at k" "proc_at (release_in s k) = proc_at k" "proc_at (release_out s k) = proc_at k"
  by (simp_all add: proc_at_def fun_eq_iff)

lemma holders_cong: "k_objs k' = k_objs k \<Longrightarrow> holders sel i k' = holders sel i k"
  by (simp add: holders_def)

lemma holders_frame [simp]:
  "holders sel i (hold_fd f k) = holders sel i k" "holders sel i (release_fd f k) = holders sel i k"
  "holders sel i (hold_in s k) = holders sel i k" "holders sel i (hold_out s k) = holders sel i k"
  "holders sel i (release_in s k) = holders sel i k" "holders sel i (release_out s k) = holders sel i k"
  by (simp_all add: holders_def)

lemma nth_upd: "i < length xs \<Longrightarrow> xs[j := x] ! i = (if j = i then x else xs ! i)"
  by (cases "j < length xs") (simp_all add: nth_list_update)

lemma other_end [simp]:
  "pi_rrefs (pipe_hold p) = pi_rrefs p" "pi_refs (pipe_holdR p) = pi_refs p"
  "pi_rrefs (snd (pipe_close p)) = pi_rrefs p" "pi_refs (snd (pipe_releaseR p)) = pi_refs p"
  by (simp_all add: pipe_hold_def pipe_holdR_def pipe_close_def pipe_releaseR_def end_state kop_simps)

text \<open>What the calls do to the counts of pipe \<open>i\<close>.\<close>

lemma counts_streams:
  assumes "i < length (k_pipes k)"
  shows "pi_refs (k_pipes (hold_in s k) ! i) = pi_refs (k_pipes k ! i)"
    "pi_rrefs (k_pipes (hold_in s k) ! i) = pi_rrefs (k_pipes k ! i) + (if s = Some (Pip i) then 1 else 0)"
    "pi_refs (k_pipes (hold_out s k) ! i) = pi_refs (k_pipes k ! i) + (if s = Some (Pip i) then 1 else 0)"
    "pi_rrefs (k_pipes (hold_out s k) ! i) = pi_rrefs (k_pipes k ! i)"
    "pi_refs (k_pipes (release_in s k) ! i) = pi_refs (k_pipes k ! i)"
    "pi_rrefs (k_pipes (release_in s k) ! i) = pi_rrefs (k_pipes k ! i) - (if s = Some (Pip i) then 1 else 0)"
    "pi_refs (k_pipes (release_out s k) ! i) = pi_refs (k_pipes k ! i) - (if s = Some (Pip i) then 1 else 0)"
    "pi_rrefs (k_pipes (release_out s k) ! i) = pi_rrefs (k_pipes k ! i)"
  using assms
  by (simp_all add: stream_cases nth_upd wend.hold_holders rend.hold_holders wend.release_holders
      rend.release_holders split: option.split stream.split)

lemma counts_fd:
  assumes "i < length (k_pipes k)"
  shows "pi_refs (k_pipes (hold_fd f k) ! i) = pi_refs (k_pipes k ! i) + uses fd_out i f"
    "pi_rrefs (k_pipes (hold_fd f k) ! i) = pi_rrefs (k_pipes k ! i) + uses fd_in i f"
    "pi_refs (k_pipes (release_fd f k) ! i) = pi_refs (k_pipes k ! i) - uses fd_out i f"
    "pi_rrefs (k_pipes (release_fd f k) ! i) = pi_rrefs (k_pipes k ! i) - uses fd_in i f"
  using assms by (simp_all add: hold_fd_def release_fd_def counts_streams uses_def)

section \<open>Tables\<close>

lemma live_get:
  assumes "live k pid"
  shows "ent_get (k_objs k) pid = Some (proc_at k pid)" "\<not> p_done (proc_at k pid)"
  using assms by (cases "ent_get (k_objs k) pid"; simp add: live_def proc_at_def)+

lemma fd_ok_cong: "length (k_pipes k') = length (k_pipes k) \<Longrightarrow> fd_ok k' f = fd_ok k f"
  by (simp add: fd_ok_def stream_ok_def)

lemma proc_ok_cong: "length (k_pipes k') = length (k_pipes k) \<Longrightarrow> proc_ok k' p = proc_ok k p"
  by (simp add: proc_ok_def fd_ok_cong [of k' k])

lemma tables_cong:
  "k_objs k' = k_objs k \<Longrightarrow> k_seq k' = k_seq k \<Longrightarrow> k_procs k' = k_procs k \<Longrightarrow>
   length (k_pipes k') = length (k_pipes k) \<Longrightarrow> tables_ok k' = tables_ok k"
  by (simp add: tables_ok_def known_def proc_ok_cong [of k' k])

lemma known_get: "known k pid \<longleftrightarrow> ent_get (k_objs k) pid = Some (proc_at k pid)"
  by (auto simp: known_def proc_at_def)

lemma live_known: "live k pid \<Longrightarrow> known k pid"
  by (simp add: known_get live_get)

lemma tables_frame [simp]: "tables_ok (hold_fd f k) = tables_ok k" "tables_ok (release_fd f k) = tables_ok k"
  by (rule tables_cong; simp)+

lemma tables_get: "tables_ok k \<Longrightarrow> ent_get (k_objs k) pid = Some p \<Longrightarrow> proc_ok k p \<and> pid < k_seq k"
  by (auto simp: tables_ok_def)

lemma live_ok: "tables_ok k \<Longrightarrow> live k pid \<Longrightarrow> proc_ok k (proc_at k pid)"
  using tables_get live_get by blast

lemma proc_at_upd [simp]: "proc_at (upd_proc pid g k) q = (if q = pid then g (proc_at k pid) else proc_at k q)"
  by (simp add: proc_at_def upd_proc_def get_set)

lemma proc_at_fd [simp]:
  "proc_at (set_fd pid n f k) q = (if q = pid then (proc_at k pid)\<lparr>p_fds := ent_set n f (p_fds (proc_at k pid))\<rparr> else proc_at k q)"
  "proc_at (del_fd pid n k) q = (if q = pid then (proc_at k pid)\<lparr>p_fds := ent_del n (p_fds (proc_at k pid))\<rparr> else proc_at k q)"
  by (simp_all add: set_fd_def del_fd_def)

lemma get_upd: "ent_get (k_objs (upd_proc pid g k)) q = (if q = pid then Some (g (proc_at k pid)) else ent_get (k_objs k) q)"
  by (simp add: get_set)

lemma tables_upd:
  assumes tab: "tables_ok k" and live: "known k pid" and g: "proc_ok k (g (proc_at k pid))"
  shows "tables_ok (upd_proc pid g k)"
  unfolding tables_ok_def
proof (intro conjI allI impI ballI)
  show "ents_ok (k_objs (upd_proc pid g k))" using tab by (simp add: tables_ok_def ok_set)
next
  fix q assume "q \<in> set (k_procs (upd_proc pid g k))"
  then show "known (upd_proc pid g k) q" using tab by (simp add: tables_ok_def known_def get_set)
next
  fix q p assume q: "ent_get (k_objs (upd_proc pid g k)) q = Some p"
  have old: "pid < k_seq k" using tables_get [OF tab] live by (simp add: known_get)
  have "q < k_seq k \<and> proc_ok k p"
  proof (cases "q = pid")
    case True
    then show ?thesis using q g old by (simp only: get_upd if_True option.inject) simp
  next
    case False
    then show ?thesis using q tables_get [OF tab, of q p] by (simp only: get_upd if_False)
  qed
  then show "q < k_seq (upd_proc pid g k)" "proc_ok (upd_proc pid g k) p" by (simp_all add: proc_ok_cong [of "upd_proc pid g k" k])
qed

lemma live_upd:
  assumes "live k pid" "p_done (g (proc_at k pid)) \<longleftrightarrow> p_done (proc_at k pid)"
  shows "live (upd_proc pid g k) q \<longleftrightarrow> live k q"
  using assms live_get [OF assms(1)] by (cases "q = pid") (simp_all add: live_def get_set)

lemma live_fd [simp]: "live k pid \<Longrightarrow> live (set_fd pid n f k) q \<longleftrightarrow> live k q"
  "live k pid \<Longrightarrow> live (del_fd pid n k) q \<longleftrightarrow> live k q"
  unfolding set_fd_def del_fd_def by (rule live_upd; simp)+

lemma live_cong: "k_objs k' = k_objs k \<Longrightarrow> live k' pid = live k pid"
  by (simp add: live_def)

lemma live_frame [simp]: "live (hold_fd f k) = live k" "live (release_fd f k) = live k" "live (hold_in s k) = live k"
  "live (hold_out s k) = live k"
  by (simp_all add: live_def fun_eq_iff)

lemma proc_ok_set: "proc_ok k p \<Longrightarrow> fd_ok k f \<Longrightarrow> proc_ok k (p\<lparr>p_fds := ent_set n f (p_fds p)\<rparr>)"
  by (auto simp: proc_ok_def ok_set get_set)

lemma proc_ok_del: "proc_ok k p \<Longrightarrow> proc_ok k (p\<lparr>p_fds := ent_del n (p_fds p)\<rparr>)"
  by (auto simp: proc_ok_def ok_del get_del split: if_splits)

lemma tables_fd:
  "tables_ok k \<Longrightarrow> live k pid \<Longrightarrow> fd_ok k f \<Longrightarrow> tables_ok (set_fd pid n f k)"
  "tables_ok k \<Longrightarrow> live k pid \<Longrightarrow> tables_ok (del_fd pid n k)"
  unfolding set_fd_def del_fd_def by (rule tables_upd; simp add: live_ok live_known proc_ok_set proc_ok_del)+

text \<open>How the number of holders changes.\<close>

lemma holders_upd:
  assumes "tables_ok k" "known k pid"
  shows "holders sel i (upd_proc pid g k) + proc_uses sel i (proc_at k pid) = holders sel i k + proc_uses sel i (g (proc_at k pid))"
  using assms tab.total_replace [of "k_objs k" pid "proc_at k pid" "proc_uses sel i" "g (proc_at k pid)"]
  by (simp add: holders_def tables_ok_def known_get)

lemma holders_set:
  assumes "tables_ok k" "live k pid"
  shows "holders sel i (set_fd pid n f k) + (case ent_get (p_fds (proc_at k pid)) n of Some g \<Rightarrow> uses sel i g | None \<Rightarrow> 0) =
    holders sel i k + uses sel i f"
  using holders_upd [OF assms(1) live_known [OF assms(2)], of sel i "\<lambda>p. p\<lparr>p_fds := ent_set n f (p_fds p)\<rparr>"] live_get [OF assms(2)]
    sum_set [of "p_fds (proc_at k pid)" "uses sel i" n f] live_ok [OF assms]
  by (simp add: set_fd_def proc_uses_def proc_ok_def)

lemma holders_del:
  assumes "tables_ok k" "live k pid"
  shows "holders sel i (del_fd pid n k) + (case ent_get (p_fds (proc_at k pid)) n of Some g \<Rightarrow> uses sel i g | None \<Rightarrow> 0) =
    holders sel i k"
  using holders_upd [OF assms(1) live_known [OF assms(2)], of sel i "\<lambda>p. p\<lparr>p_fds := ent_del n (p_fds p)\<rparr>"] live_get [OF assms(2)]
    sum_del [of "p_fds (proc_at k pid)" "uses sel i" n] live_ok [OF assms]
  by (simp add: del_fd_def proc_uses_def proc_ok_def)

lemma holders_ge:
  assumes "tables_ok k" "live k pid" "ent_get (p_fds (proc_at k pid)) n = Some f"
  shows "uses sel i f \<le> holders sel i k"
  using holders_del [OF assms(1,2), of sel i n] assms(3) by simp

section \<open>Ends\<close>

lemma ends_pipe:
  "ends_ok p \<Longrightarrow> 0 < pi_refs p \<Longrightarrow> ends_ok (pipe_hold p)"
  "ends_ok p \<Longrightarrow> 0 < pi_rrefs p \<Longrightarrow> ends_ok (pipe_holdR p)"
  "ends_ok p \<Longrightarrow> 0 < pi_refs p \<Longrightarrow> ends_ok (snd (pipe_close p))"
  "ends_ok p \<Longrightarrow> 0 < pi_rrefs p \<Longrightarrow> ends_ok (snd (pipe_releaseR p))"
  by (auto simp: ends_ok_def pipe_ok_def pipe_hold_def pipe_holdR_def pipe_close_def pipe_releaseR_def end_state kop_simps)

lemma ends_rd: "ends_ok p \<Longrightarrow> ends_ok (snd (pipe_rd r p))"
  by (cases "pi_q p") (auto simp: ends_ok_def pipe_ok_def pipe_rd_def kop_simps if_distribR)

lemma ends_wr: "ends_ok p \<Longrightarrow> 0 < pi_refs p \<Longrightarrow> ends_ok (snd (pipe_wr b p))"
  by (cases "pi_w p") (auto simp: ends_ok_def pipe_ok_def pipe_wr_def kop_simps if_distribR)

lemma list_all_upd: "list_all P xs \<Longrightarrow> (i < length xs \<Longrightarrow> P x) \<Longrightarrow> list_all P (xs[i := x])"
  unfolding list_all_length by (metis length_list_update nth_upd)

definition held :: "kern \<Rightarrow> fd \<Rightarrow> bool" where
  "held k f \<longleftrightarrow> (\<forall>i < length (k_pipes k). uses fd_in i f \<le> pi_rrefs (k_pipes k ! i) \<and> uses fd_out i f \<le> pi_refs (k_pipes k ! i))"

lemma ends_streams:
  assumes "list_all ends_ok (k_pipes k)"
  shows "(\<And>i. i < length (k_pipes k) \<Longrightarrow> s = Some (Pip i) \<Longrightarrow> 0 < pi_rrefs (k_pipes k ! i)) \<Longrightarrow>
      list_all ends_ok (k_pipes (hold_in s k)) \<and> list_all ends_ok (k_pipes (release_in s k))"
    "(\<And>i. i < length (k_pipes k) \<Longrightarrow> s = Some (Pip i) \<Longrightarrow> 0 < pi_refs (k_pipes k ! i)) \<Longrightarrow>
      list_all ends_ok (k_pipes (hold_out s k)) \<and> list_all ends_ok (k_pipes (release_out s k))"
proof -
  have e: "ends_ok (k_pipes k ! i)" if "i < length (k_pipes k)" for i
    using assms that by (simp add: list_all_length)
  show "(\<And>i. i < length (k_pipes k) \<Longrightarrow> s = Some (Pip i) \<Longrightarrow> 0 < pi_rrefs (k_pipes k ! i)) \<Longrightarrow>
      list_all ends_ok (k_pipes (hold_in s k)) \<and> list_all ends_ok (k_pipes (release_in s k))"
    using assms by (simp add: stream_cases list_all_upd ends_pipe e split: option.split stream.split)
  show "(\<And>i. i < length (k_pipes k) \<Longrightarrow> s = Some (Pip i) \<Longrightarrow> 0 < pi_refs (k_pipes k ! i)) \<Longrightarrow>
      list_all ends_ok (k_pipes (hold_out s k)) \<and> list_all ends_ok (k_pipes (release_out s k))"
    using assms by (simp add: stream_cases list_all_upd ends_pipe e split: option.split stream.split)
qed

lemma ends_fd:
  assumes "list_all ends_ok (k_pipes k)" "held k f"
  shows "list_all ends_ok (k_pipes (hold_fd f k))" "list_all ends_ok (k_pipes (release_fd f k))"
proof -
  have r: "i < length (k_pipes k) \<Longrightarrow> fd_in f = Some (Pip i) \<Longrightarrow> 0 < pi_rrefs (k_pipes k ! i)"
    and w: "i < length (k_pipes k) \<Longrightarrow> fd_out f = Some (Pip i) \<Longrightarrow> 0 < pi_refs (k_pipes k ! i)" for i
    using assms(2) by (auto simp: held_def uses_def dest!: spec [of _ i])
  note i = ends_streams(1) [OF assms(1) r]
  show "list_all ends_ok (k_pipes (hold_fd f k))"
    using ends_streams(2) [of "hold_in (fd_in f) k" "fd_out f"] i w by (simp add: hold_fd_def counts_streams)
  show "list_all ends_ok (k_pipes (release_fd f k))"
    using ends_streams(2) [of "release_in (fd_in f) k" "fd_out f"] i w by (simp add: release_fd_def counts_streams)
qed

section \<open>One end at a time\<close>

text \<open>Both ends are counted alike: \<open>sel\<close> is the end a descriptor has, \<open>cnt\<close> its count at the pipe.\<close>

locale pipe_end =
  fixes sel :: "fd \<Rightarrow> stream option" and cnt :: "pipe \<Rightarrow> nat"
  assumes new_cnt: "cnt new_pipe = 0"
    and hold_cnt: "i < length (k_pipes k) \<Longrightarrow> cnt (k_pipes (hold_fd f k) ! i) = cnt (k_pipes k ! i) + uses sel i f"
    and release_cnt: "i < length (k_pipes k) \<Longrightarrow> cnt (k_pipes (release_fd f k) ! i) = cnt (k_pipes k ! i) - uses sel i f"
    and sel_ok: "fd_ok k f \<Longrightarrow> sel f = Some (Pip i) \<Longrightarrow> i < length (k_pipes k)"
begin

lemma exact_cong: "k_objs k' = k_objs k \<Longrightarrow> k_pipes k' = k_pipes k \<Longrightarrow> exact sel cnt k' = exact sel cnt k"
  by (simp add: exact_def holders_def)

lemma exact_held: "exact sel cnt k \<Longrightarrow> tables_ok k \<Longrightarrow> live k pid \<Longrightarrow> ent_get (p_fds (proc_at k pid)) n = Some f \<Longrightarrow>
    i < length (k_pipes k) \<Longrightarrow> uses sel i f \<le> cnt (k_pipes k ! i)"
  using holders_ge by (simp add: exact_def)

lemma exact_close:
  assumes "tables_ok k" "live k pid" "exact sel cnt k" "ent_get (p_fds (proc_at k pid)) n = Some f"
  shows "exact sel cnt (release_fd f (del_fd pid n k))"
  unfolding exact_def
proof (intro allI impI)
  fix i assume "i < length (k_pipes (release_fd f (del_fd pid n k)))"
  then have i: "i < length (k_pipes k)" by simp
  then show "cnt (k_pipes (release_fd f (del_fd pid n k)) ! i) = holders sel i (release_fd f (del_fd pid n k))"
    using holders_del [OF assms(1,2), of sel i n] assms(3,4) by (simp add: release_cnt exact_def)
qed

lemma exact_set:
  assumes "tables_ok k" "live k pid" "exact sel cnt k" and that: "\<And>i. uses sel i g = uses sel i f"
  shows "exact sel cnt (hold_fd f (set_fd pid n g
    ((case ent_get (p_fds (proc_at k pid)) n of Some q \<Rightarrow> release_fd q | None \<Rightarrow> id) k)))"
  unfolding exact_def
proof (intro allI impI)
  let ?k = "(case ent_get (p_fds (proc_at k pid)) n of Some q \<Rightarrow> release_fd q | None \<Rightarrow> id) k"
  fix i assume "i < length (k_pipes (hold_fd f (set_fd pid n g ?k)))"
  then have i: "i < length (k_pipes k)" "i < length (k_pipes ?k)" by (simp_all split: option.splits)
  have k: "k_objs ?k = k_objs k" "tables_ok ?k" "live ?k pid" "proc_at ?k = proc_at k"
    using assms(1,2) by (auto split: option.split)
  have c: "cnt (k_pipes ?k ! i) + (case ent_get (p_fds (proc_at k pid)) n of Some q \<Rightarrow> uses sel i q | None \<Rightarrow> 0) = cnt (k_pipes k ! i)"
    using i exact_held [OF assms(3,1,2), of n _ i] by (simp add: release_cnt split: option.split)
  show "cnt (k_pipes (hold_fd f (set_fd pid n g ?k)) ! i) = holders sel i (hold_fd f (set_fd pid n g ?k))"
    using i holders_set [OF k(2,3), of sel i n g] assms(3) c that k holders_cong [OF k(1), of sel i] by (simp add: hold_cnt exact_def)
qed

lemma exact_new:
  assumes "tables_ok k" "exact sel cnt k"
  shows "exact sel cnt (k\<lparr>k_pipes := k_pipes k @ [new_pipe]\<rparr>)"
proof -
  have "holders sel (length (k_pipes k)) k = 0"
  proof (rule ccontr)
    assume "holders sel (length (k_pipes k)) k \<noteq> 0"
    moreover have "ents_ok (k_objs k)" using assms(1) by (simp add: tables_ok_def)
    ultimately obtain pid p where p: "ent_get (k_objs k) pid = Some p" "0 < proc_uses sel (length (k_pipes k)) p"
      using sum_pos [of "k_objs k" "proc_uses sel (length (k_pipes k))"] by (auto simp: holders_def)
    have ok: "proc_ok k p" using tables_get [OF assms(1) p(1)] by simp
    then obtain n f where f: "ent_get (p_fds p) n = Some f" "0 < uses sel (length (k_pipes k)) f"
      using p(2) sum_pos [of "p_fds p" "uses sel (length (k_pipes k))"] by (auto simp: proc_uses_def proc_ok_def split: if_splits)
    then have "sel f = Some (Pip (length (k_pipes k)))" by (simp add: uses_def split: if_splits)
    then show False using sel_ok [of k f] ok f(1) by (auto simp: proc_ok_def)
  qed
  then show ?thesis using assms(2) by (simp add: exact_def holders_def nth_append new_cnt less_Suc_eq)
qed

end

interpretation wr: pipe_end fd_out pi_refs
  by unfold_locales (simp_all add: counts_fd fd_ok_def stream_ok_def new_pipe_def)

interpretation rd: pipe_end fd_in pi_rrefs
  by unfold_locales (simp_all add: counts_fd fd_ok_def stream_ok_def new_pipe_def)

section \<open>The whole invariant\<close>

lemma ok_parts: "kern_ok k \<Longrightarrow> tables_ok k" "kern_ok k \<Longrightarrow> exact fd_out pi_refs k" "kern_ok k \<Longrightarrow> exact fd_in pi_rrefs k"
  "kern_ok k \<Longrightarrow> list_all ends_ok (k_pipes k)" "kern_ok k \<Longrightarrow> vfs_ok (k_fs k)"
  by (simp_all add: kern_ok_def)

lemma ok_cong: "k_objs k' = k_objs k \<Longrightarrow> k_pipes k' = k_pipes k \<Longrightarrow> k_seq k' = k_seq k \<Longrightarrow> k_procs k' = k_procs k \<Longrightarrow> k_fs k' = k_fs k \<Longrightarrow> kern_ok k' = kern_ok k"
  using wr.exact_cong [of k' k] rd.exact_cong [of k' k] tables_cong [of k' k] by (simp add: kern_ok_def)

lemma ok_fs: "kern_ok k \<Longrightarrow> vfs_ok fs \<Longrightarrow> kern_ok (k\<lparr>k_fs := fs\<rparr>)"
  by (simp add: kern_ok_def wr.exact_cong [of "k\<lparr>k_fs := fs\<rparr>" k] rd.exact_cong [of "k\<lparr>k_fs := fs\<rparr>" k]
      tables_cong [of "k\<lparr>k_fs := fs\<rparr>" k])

lemma ok_held:
  assumes "kern_ok k" "live k pid" "ent_get (p_fds (proc_at k pid)) n = Some f"
  shows "held k f" "fd_ok k f"
proof -
  show "held k f"
    using assms ok_parts [OF assms(1)] wr.exact_held rd.exact_held by (simp add: held_def)
  show "fd_ok k f" using live_ok [OF ok_parts(1) [OF assms(1)] assms(2)] assms(3) by (simp add: proc_ok_def)
qed

lemma ok_close:
  assumes "kern_ok k" "live k pid" "ent_get (p_fds (proc_at k pid)) n = Some f"
  shows "kern_ok (release_fd f (del_fd pid n k))"
proof -
  have "held (del_fd pid n k) f" using ok_held(1) [OF assms] by (simp add: held_def)
  then show ?thesis
    using ok_parts [OF assms(1)] assms(2,3)
    by (simp add: kern_ok_def wr.exact_close rd.exact_close ends_fd tables_fd)
qed

lemma release_ok:
  assumes "kern_ok k" "live k pid" "ent_get (p_fds (proc_at k pid)) n = Some f"
  shows "list_all ends_ok (k_pipes (release_fd f k))"
  using ends_fd(2) [OF ok_parts(4) [OF assms(1)] ok_held(1) [OF assms]] .

lemma ok_set_fd:
  assumes "kern_ok k" "live k pid" "fd_ok k g" "\<And>i. uses fd_in i g = uses fd_in i f" "\<And>i. uses fd_out i g = uses fd_out i f"
    and "list_all ends_ok (k_pipes (hold_fd f ((case ent_get (p_fds (proc_at k pid)) n of Some q \<Rightarrow> release_fd q | None \<Rightarrow> id) k)))"
  shows "kern_ok (hold_fd f (set_fd pid n g ((case ent_get (p_fds (proc_at k pid)) n of Some q \<Rightarrow> release_fd q | None \<Rightarrow> id) k)))"
proof -
  let ?k = "(case ent_get (p_fds (proc_at k pid)) n of Some q \<Rightarrow> release_fd q | None \<Rightarrow> id) k"
  have k: "tables_ok ?k" "live ?k pid" "fd_ok ?k g" "k_fs ?k = k_fs k"
    using assms(2,3) ok_parts(1) [OF assms(1)] by (auto simp: fd_ok_def stream_ok_def split: option.split)
  have "k_pipes (hold_fd f (set_fd pid n g ?k)) = k_pipes (hold_fd f ?k)"
    by (simp add: hold_fd_def stream_cases split: option.split stream.split)
  then show ?thesis
    using k ok_parts [OF assms(1)] assms(2,4-6) by (simp add: kern_ok_def wr.exact_set rd.exact_set tables_fd)
qed

text \<open>A descriptor without streams, in a free place.\<close>

lemma ok_set_plain:
  assumes "kern_ok k" "live k pid" "ent_get (p_fds (proc_at k pid)) n = None" "fd_in g = None" "fd_out g = None"
  shows "kern_ok (set_fd pid n g k)"
  using ok_set_fd [OF assms(1,2), of g g n] assms ok_parts(4) [OF assms(1)]
  by (simp add: fd_ok_def stream_ok_def hold_fd_def)

text \<open>A descriptor replaced by one with the same streams.\<close>

lemma ok_set_same:
  assumes "kern_ok k" "live k pid" "ent_get (p_fds (proc_at k pid)) n = Some f" "fd_in g = fd_in f" "fd_out g = fd_out f"
  shows "kern_ok (set_fd pid n g k)"
proof -
  have u: "uses fd_in i g = uses fd_in i f" "uses fd_out i g = uses fd_out i f" for i
    using assms(4,5) by (simp_all add: uses_def)
  have "holders sel i (set_fd pid n g k) = holders sel i k" if "uses sel i g = uses sel i f" for sel i
    using holders_set [OF ok_parts(1) [OF assms(1)] assms(2), of sel i n g] assms(3) that by simp
  then have "exact fd_in pi_rrefs (set_fd pid n g k)" "exact fd_out pi_refs (set_fd pid n g k)"
    using ok_parts [OF assms(1)] u by (simp_all add: exact_def)
  moreover have "fd_ok k g" using ok_held(2) [OF assms(1-3)] assms(4,5) by (simp add: fd_ok_def)
  ultimately show ?thesis using assms(2) ok_parts [OF assms(1)] by (simp add: kern_ok_def tables_fd)
qed

text \<open>Changes of a process that leave its descriptors alone.\<close>

lemma ok_upd:
  assumes "kern_ok k" "known k pid" "p_fds (g (proc_at k pid)) = p_fds (proc_at k pid)" "p_done (g (proc_at k pid)) = p_done (proc_at k pid)"
  shows "kern_ok (upd_proc pid g k)"
proof -
  have "holders sel i (upd_proc pid g k) = holders sel i k" for sel i
    using holders_upd [OF ok_parts(1) [OF assms(1)] assms(2), of sel i g] assms(3,4)
    by (cases "p_done (proc_at k pid)") (simp_all add: proc_uses_def)
  moreover have "proc_ok k (g (proc_at k pid))"
    using tables_get [OF ok_parts(1) [OF assms(1)]] assms(2,3) by (simp add: proc_ok_def known_get)
  ultimately show ?thesis using ok_parts [OF assms(1)] assms(2) by (simp add: kern_ok_def tables_upd exact_def)
qed

section \<open>Calls on descriptors\<close>

lemma find_upto:
  assumes "find P [a..b] = Some n"
  shows "P n \<and> a \<le> n \<and> n \<le> b \<and> (\<forall>m. a \<le> m \<and> m < n \<longrightarrow> \<not> P m)"
proof -
  from assms obtain i where i: "i < length [a..b]" "P ([a..b] ! i)" "n = [a..b] ! i" "\<And>j. j < i \<Longrightarrow> \<not> P ([a..b] ! j)"
    unfolding find_Some_iff by blast
  then have n: "n = a + int i" "a + int i \<le> b" by (simp_all add: nth_upto)
  have "\<not> P m" if "a \<le> m" "m < n" for m
    using i(4) [of "nat (m - a)"] that n by (simp add: nth_upto)
  then show ?thesis using i n by simp
qed

lemma kfd_free:
  assumes "kfd p = Some n"
  shows "ent_get (p_fds p) n = None" "3 \<le> n" "n \<le> 255" "\<And>m. 3 \<le> m \<Longrightarrow> m < n \<Longrightarrow> ent_get (p_fds p) m \<noteq> None"
  using find_upto [of "\<lambda>n. ent_get (p_fds p) n = None" 3 255 n] assms[unfolded kfd_def] by blast+

lemma get_fd_run: "get_fd pid n k = (case ent_get (p_fds (proc_at k pid)) n of Some f \<Rightarrow> Inr f | None \<Rightarrow> Inl EBADF, k)"
  by (simp add: get_fd_def kop_simps of_option_def split: option.split)

lemma kern_fd_run: "kern_fd pid k = (case kfd (proc_at k pid) of Some n \<Rightarrow> Inr n | None \<Rightarrow> Inl EMFILE, k)"
  by (simp add: kern_fd_def kop_simps of_option_def split: option.split)

lemma bnd_get_fd [kop_simps]: "bnd (get_fd pid n) m k = (case ent_get (p_fds (proc_at k pid)) n of Some f \<Rightarrow> m f k | None \<Rightarrow> (Inl EBADF, k))"
  by (simp add: bnd_def get_fd_run split: option.split)

lemma bnd_kern_fd [kop_simps]: "bnd (kern_fd pid) m k = (case kfd (proc_at k pid) of Some n \<Rightarrow> m n k | None \<Rightarrow> (Inl EMFILE, k))"
  by (simp add: bnd_def kern_fd_run split: option.split)

lemma close_ok: "kern_ok k \<Longrightarrow> live k pid \<Longrightarrow> kern_ok (snd (sys_close pid n k))"
  by (simp add: sys_close_def kop_simps ok_close split: option.split)

lemma set_hold: "set_fd pid n g (hold_fd f k) = hold_fd f (set_fd pid n g k)"
  by (simp add: hold_fd_def stream_cases set_fd_def upd_proc_def proc_at_def split: option.split stream.split)

lemma tables_mono:
  assumes "tables_ok k" "k_objs k' = k_objs k" "k_seq k' = k_seq k" "k_procs k' = k_procs k" "length (k_pipes k) \<le> length (k_pipes k')"
  shows "tables_ok k'"
proof -
  have "proc_ok k p \<Longrightarrow> proc_ok k' p" for p
    using assms(5) by (fastforce simp: proc_ok_def fd_ok_def stream_ok_def)
  then show ?thesis using assms(1-4) unfolding tables_ok_def known_def by simp
qed

lemma ok_new_pipe: "kern_ok k \<Longrightarrow> kern_ok (k\<lparr>k_pipes := k_pipes k @ [new_pipe]\<rparr>)"
  by (simp add: kern_ok_def wr.exact_new rd.exact_new tables_mono [of k] ends_ok_def) (simp add: new_pipe_def)

lemma hold_new_fd: "hold_in s = hold_fd (new_fd s None p a b c)" "hold_out s = hold_fd (new_fd None s p a b c)"
  by (simp_all add: hold_fd_def new_fd_def fun_eq_iff)

lemma ok_set_free:
  assumes "kern_ok k" "live k pid" "ent_get (p_fds (proc_at k pid)) n = None" "fd_ok k f" "list_all ends_ok (k_pipes (hold_fd f k))"
  shows "kern_ok (hold_fd f (set_fd pid n f k))"
  using ok_set_fd [OF assms(1,2,4), of f n] assms(3,5) by simp

lemma sys_pipe_ok:
  assumes ok: "kern_ok k" and live: "live k pid"
  shows "kern_ok (snd (sys_pipe pid k))"
proof (cases "kfd (proc_at k pid)")
  case None
  then show ?thesis using ok by (simp add: sys_pipe_def kop_simps)
next
  case (Some rd)
  let ?i = "length (k_pipes k)"
  let ?k1 = "k\<lparr>k_pipes := k_pipes k @ [new_pipe]\<rparr>"
  let ?r = "new_fd (Some (Pip ?i)) None None True False False" and ?w = "new_fd None (Some (Pip ?i)) None False True False"
  let ?k2 = "hold_fd ?r (set_fd pid rd ?r ?k1)"
  have l1: "live ?k1 pid" "proc_at ?k1 = proc_at k" using live by (simp_all add: live_def proc_at_def fun_eq_iff)
  have "kern_ok ?k2"
  proof (rule ok_set_free [OF ok_new_pipe [OF ok] l1(1)])
    show "ent_get (p_fds (proc_at ?k1 pid)) rd = None" using kfd_free(1) [OF Some] l1 by simp
    show "fd_ok ?k1 ?r" by (simp add: fd_ok_def stream_ok_def new_fd_def)
    show "list_all ends_ok (k_pipes (hold_fd ?r ?k1))"
      using ok_parts(4) [OF ok] by (simp add: hold_fd_def new_fd_def ends_ok_def pipe_ok_def new_pipe_def pipe_holdR_def nth_append)
  qed
  moreover have p2: "k_pipes ?k2 = k_pipes k @ [pipe_holdR new_pipe]" by (simp add: hold_fd_def new_fd_def)
  have l2: "live ?k2 pid" using l1 by simp
  show ?thesis
  proof (cases "kfd (proc_at ?k2 pid)")
    case None
    then show ?thesis using \<open>kern_ok ?k2\<close> Some
      by (simp add: sys_pipe_def kop_simps hold_new_fd(1) [of _ None True False False] del: proc_at_frame proc_at_fd)
  next
    case wr: (Some wr)
    have "kern_ok (hold_fd ?w (set_fd pid wr ?w ?k2))"
    proof (rule ok_set_free [OF \<open>kern_ok ?k2\<close> l2])
      show "ent_get (p_fds (proc_at ?k2 pid)) wr = None" by (rule kfd_free(1) [OF wr])
      show "fd_ok ?k2 ?w" by (simp add: fd_ok_def stream_ok_def new_fd_def)
      show "list_all ends_ok (k_pipes (hold_fd ?w ?k2))"
        using ok_parts(4) [OF ok] unfolding hold_fd_def
        by (simp add: p2 new_fd_def ends_ok_def pipe_ok_def new_pipe_def pipe_holdR_def pipe_hold_def nth_append)
    qed
    then show ?thesis using Some wr
      by (simp add: sys_pipe_def kop_simps hold_new_fd(1) [of _ None True False False]
          hold_new_fd(2) [of _ None False True False] del: proc_at_frame proc_at_fd)
  qed
qed

lemma clone_ok:
  assumes ok: "kern_ok k" and live: "live k pid"
  shows "kern_ok (snd (clone_fd pid old nu k))"
proof (cases "ent_get (p_fds (proc_at k pid)) old")
  case None
  then show ?thesis using ok by (simp add: clone_fd_def kop_simps)
next
  case f: (Some f)
  have main: "kern_ok (snd ((if n = old then ret n else
     bnd (asks (\<lambda>k. ent_get (p_fds (proc_at k pid)) n)) (\<lambda>q.
     bnd (modify (case q of Some g \<Rightarrow> release_fd g | None \<Rightarrow> id)) (\<lambda>_.
     bnd (modify (hold_fd f)) (\<lambda>_.
     bnd (modify (set_fd pid n (new_fd (fd_in f) (fd_out f) (fd_path f) (fd_rd f) (fd_wr f) (fd_add f)))) (\<lambda>_.
     ret n))))) k))" (is "kern_ok (snd (?m k))") for n
  proof (cases "n = old")
    case False
    let ?g = "new_fd (fd_in f) (fd_out f) (fd_path f) (fd_rd f) (fd_wr f) (fd_add f)"
    let ?k = "(case ent_get (p_fds (proc_at k pid)) n of Some q \<Rightarrow> release_fd q | None \<Rightarrow> id) k"
    have u: "uses fd_in i ?g = uses fd_in i f" "uses fd_out i ?g = uses fd_out i f" for i
      by (simp_all add: uses_def new_fd_def)
    have "list_all ends_ok (k_pipes (hold_fd f ?k))"
    proof (rule ends_fd(1))
      show "list_all ends_ok (k_pipes ?k)"
        using release_ok [OF ok live, of n] ok_parts(4) [OF ok] by (simp split: option.split)
      show "held ?k f"
      proof (cases "ent_get (p_fds (proc_at k pid)) n")
        case None
        then show ?thesis using ok_held(1) [OF ok live f] by simp
      next
        case (Some q)
        have "kern_ok (release_fd q (del_fd pid n k))" by (rule ok_close [OF ok live Some])
        moreover have "ent_get (p_fds (proc_at (release_fd q (del_fd pid n k)) pid)) old = Some f"
          using f False live_ok [OF ok_parts(1) [OF ok] live] by (simp add: get_del proc_ok_def)
        ultimately have "held (release_fd q (del_fd pid n k)) f" using live by (intro ok_held(1) [of _ pid old]) simp_all
        moreover have "k_pipes (release_fd q (del_fd pid n k)) = k_pipes (release_fd q k)"
          by (simp add: release_fd_def stream_cases split: option.split stream.split)
        ultimately show ?thesis using Some by (simp add: held_def)
      qed
    qed
    then have "kern_ok (hold_fd f (set_fd pid n ?g ?k))"
      using ok_held(2) [OF ok live f] u by (intro ok_set_fd [OF ok live]) (simp_all add: fd_ok_def new_fd_def)
    then show ?thesis using False by (simp add: kop_simps set_hold)
  qed (simp add: kop_simps ok)
  show ?thesis using f main ok by (cases nu) (simp_all add: clone_fd_def kop_simps split: option.split del: bnd_if)
qed

section \<open>Calls on files\<close>

text \<open>A computation that changes only the file system, and one that may end with a change to the rest.\<close>

definition inv :: "kern \<Rightarrow> kern \<Rightarrow> bool" where
  "inv k0 k \<longleftrightarrow> kern_ok k \<and> (\<exists>fs. k = k0\<lparr>k_fs := fs\<rparr>)"

definition settles :: "kern \<Rightarrow> (kern, 'a) kop \<Rightarrow> bool" where
  "settles k0 m \<longleftrightarrow> (\<forall>k. inv k0 k \<longrightarrow> kern_ok (snd (m k)))"

lemma inv_same: "inv k0 k \<Longrightarrow> k_objs k = k_objs k0" "inv k0 k \<Longrightarrow> k_pipes k = k_pipes k0"
  "inv k0 k \<Longrightarrow> k_seq k = k_seq k0" "inv k0 k \<Longrightarrow> k_procs k = k_procs k0"
  by (auto simp: inv_def)

lemma inv_proc: "inv k0 k \<Longrightarrow> proc_at k pid = proc_at k0 pid"
  by (simp add: inv_same proc_at_def)

lemma settles_bnd:
  assumes "keeps (inv k0) m" "\<And>x. settles k0 (f x)"
  shows "settles k0 (bnd m f)"
  unfolding settles_def
proof (intro allI impI)
  fix k assume "inv k0 k"
  then have "inv k0 (snd (m k))" by (rule keepsD [OF assms(1)])
  then show "kern_ok (snd (bnd m f k))"
    using assms(2) by (cases "m k") (auto simp: bnd_def settles_def inv_def split: sum.split)
qed

lemma settles_keeps: "keeps (inv k0) m \<Longrightarrow> settles k0 m"
  unfolding settles_def keeps_def by (auto simp: inv_def)

lemma settles_get_fd:
  assumes "\<And>f. ent_get (p_fds (proc_at k0 pid)) n = Some f \<Longrightarrow> settles k0 (m f)"
  shows "settles k0 (bnd (get_fd pid n) m)"
  unfolding settles_def
proof (intro allI impI)
  fix k assume k: "inv k0 k"
  then show "kern_ok (snd (bnd (get_fd pid n) m k))"
    using assms by (cases "ent_get (p_fds (proc_at k0 pid)) n") (auto simp: kop_simps inv_proc [OF k] settles_def inv_def)
qed

lemma settles_kern_fd:
  assumes "\<And>n. kfd (proc_at k0 pid) = Some n \<Longrightarrow> settles k0 (m n)"
  shows "settles k0 (bnd (kern_fd pid) m)"
  unfolding settles_def
proof (intro allI impI)
  fix k assume k: "inv k0 k"
  then show "kern_ok (snd (bnd (kern_fd pid) m k))"
    using assms by (cases "kfd (proc_at k0 pid)") (auto simp: kop_simps inv_proc [OF k] settles_def inv_def)
qed

lemma settles_asks: "(\<And>k. inv k0 k \<Longrightarrow> settles k0 (m (g k))) \<Longrightarrow> settles k0 (bnd (asks g) m)"
  unfolding settles_def by (simp add: kop_simps)

lemma settles_proc: "settles k0 (m (proc_at k0 pid)) \<Longrightarrow> settles k0 (bnd (asks (\<lambda>k. proc_at k pid)) m)"
  by (rule settles_asks) (simp add: inv_proc)

lemma settles_if: "settles k0 m \<Longrightarrow> settles k0 n \<Longrightarrow> settles k0 (if b then m else n)"
  by simp

lemma keeps_catch: "keeps P m \<Longrightarrow> (\<And>e. keeps P (h e)) \<Longrightarrow> keeps P (catch m h)"
  unfolding keeps_def catch_def by (auto split: prod.split sum.split)

lemma keeps_on_fs:
  assumes "keeps vfs_ok m"
  shows "keeps (inv k0) (on_fs m)"
  unfolding keeps_def
proof (intro allI impI)
  fix k assume k: "inv k0 k"
  then have "vfs_ok (snd (m (k_fs k)))" using keepsD [OF assms] ok_parts(5) by (auto simp: inv_def)
  then show "inv k0 (snd (on_fs m k))"
    using k ok_fs by (cases "m (k_fs k)") (auto simp: on_fs_def inv_def)
qed

lemma at_keeps: "keeps vfs_ok (at now p cwd c follow)"
  unfolding keeps_hoare by (rule hoare_weaken [OF at_spec]) auto

lemma need_keeps: "keeps vfs_ok (need i c bits)"
  unfolding need_def by auto

lemma file_keeps:
  "keeps (inv k0) (file_at now pid path)" "keeps (inv k0) (fs_need pid i bits)"
  "keeps (inv k0) (sys_writeb now pid path b add mode)" "keeps (inv k0) (sys_mkfile now pid path b mode)"
  "keeps (inv k0) (sys_stat_size now pid path)"
  unfolding file_at_def fs_need_def sys_writeb_def sys_mkfile_def sys_stat_size_def
  by (intro keeps_bnd keeps_simple keeps_on_fs at_keeps need_keeps operation_keeps)+

lemma keeps_split: "(\<And>a b. keeps P (f a b)) \<Longrightarrow> keeps P (case x of (a, b) \<Rightarrow> f a b)"
  "keeps P m \<Longrightarrow> keeps P n \<Longrightarrow> keeps P (if b then m else n)"
  by (auto split: prod.split)

lemma settles_split: "(\<And>a b. x = (a, b) \<Longrightarrow> settles P (f a b)) \<Longrightarrow> settles P (case x of (a, b) \<Rightarrow> f a b)"
  by (auto split: prod.split)

lemma open_existing_keeps: "keeps (inv k0) (open_existing now pid path flags rd wr)"
  unfolding open_existing_def by (intro keeps_bnd keeps_split keeps_simple file_keeps)

text \<open>The final assignments.\<close>

lemma inv_live: "inv k0 k \<Longrightarrow> live k pid = live k0 pid"
  by (simp add: inv_same live_def)

lemma settles_set_plain:
  assumes "live k0 pid" "kfd (proc_at k0 pid) = Some n" "fd_in g = None" "fd_out g = None"
  shows "settles k0 (bnd (modify (set_fd pid n g)) (\<lambda>_. ret x))"
  unfolding settles_def
proof (intro allI impI)
  fix k assume k: "inv k0 k"
  then have "kern_ok (set_fd pid n g k)"
    using assms kfd_free(1) [OF assms(2)] by (intro ok_set_plain) (simp_all add: inv_proc inv_live, simp add: inv_def)
  then show "kern_ok (snd (bnd (modify (set_fd pid n g)) (\<lambda>_. ret x) k))" by (simp add: kop_simps)
qed

lemma settles_set_pos:
  assumes "live k0 pid" "ent_get (p_fds (proc_at k0 pid)) n = Some f"
  shows "settles k0 (bnd (set_pos pid n f pos) (\<lambda>_. ret x))"
  unfolding settles_def
proof (intro allI impI)
  fix k assume k: "inv k0 k"
  then have "kern_ok (set_fd pid n (f\<lparr>fd_pos := pos\<rparr>) k)"
    using assms by (intro ok_set_same [of _ _ _ f]) (simp_all add: inv_proc inv_live, simp add: inv_def)
  then show "kern_ok (snd (bnd (set_pos pid n f pos) (\<lambda>_. ret x) k))" by (simp add: kop_simps set_pos_def)
qed

lemma open_ok:
  assumes "live k0 pid" "path \<noteq> ''/dev/tty''"
  shows "settles k0 (sys_open now pid path flags mode)"
  using assms(2) unfolding sys_open_def Let_def
  by (simp only: if_False)
    (intro settles_bnd settles_kern_fd keeps_catch open_existing_keeps keeps_split keeps_bnd keeps_simple file_keeps
      settles_set_plain assms(1); simp add: new_fd_def)

lemma openDir_ok: "live k0 pid \<Longrightarrow> settles k0 (sys_openDir now pid path)"
  unfolding sys_openDir_def
  by (intro settles_bnd settles_split settles_kern_fd keeps_simple file_keeps settles_set_plain; simp add: new_fd_def)

lemma settles_file_fd:
  assumes "\<And>f path. ent_get (p_fds (proc_at k0 pid)) n = Some f \<Longrightarrow> settles k0 (m (f, path))"
  shows "settles k0 (bnd (file_fd pid n) m)"
  unfolding file_fd_def bnd_assoc
  by (rule settles_get_fd, rule settles_bnd, rule keeps_simple(6), simp add: settles_def kop_simps assms[unfolded settles_def])

lemma settles_body: "(\<And>r. settles k0 (f r)) \<Longrightarrow> settles k0 g \<Longrightarrow>
   settles k0 (case bd of Reg r \<Rightarrow> f r | Dir e \<Rightarrow> g | Sym to \<Rightarrow> g | Chr rfn wfn rep \<Rightarrow> g)"
  by (auto split: body.split)

lemma settles_asks_any: "(\<And>x. settles k0 (m x)) \<Longrightarrow> settles k0 (bnd (asks g) m)"
  by (rule settles_asks)

lemmas settle_rules = settles_file_fd settles_kern_fd settles_set_pos settles_set_plain settles_if settles_split settles_asks_any settles_bnd

lemma fdr_ok: "live k0 pid \<Longrightarrow> settles k0 (sys_fdr now pid n len)"
  unfolding sys_fdr_def Let_def
  by (rule settles_file_fd)
    (simp only: prod.case,
     intro settles_bnd keeps_simple file_keeps settles_split settles_body settles_set_pos settles_if settles_keeps
      keeps_on_fs operation_keeps)

lemma fdw_ok: "live k0 pid \<Longrightarrow> settles k0 (sys_fdw now pid n b)"
  unfolding sys_fdw_def Let_def
  by (rule settles_file_fd)
    (simp only: prod.case,
     intro settles_bnd keeps_simple file_keeps settles_split settles_body settles_set_pos settles_if settles_keeps)

lemma seek_ok: "live k0 pid \<Longrightarrow> settles k0 (sys_seek now pid n off whence)"
  unfolding sys_seek_def
  by (rule settles_file_fd)
    (simp only: prod.case,
     intro settles_bnd keeps_simple keeps_split file_keeps settles_set_pos)

section \<open>Calls on pipes\<close>

lemma list_all_nth: "list_all P xs \<Longrightarrow> i < length xs \<Longrightarrow> P (xs ! i)"
  by (simp add: list_all_length)

text \<open>A pipe changes without its counts.\<close>

lemma ok_pipe_upd:
  assumes "kern_ok k" "i < length (k_pipes k) \<Longrightarrow> ends_ok p" "pi_refs p = pi_refs (k_pipes k ! i)" "pi_rrefs p = pi_rrefs (k_pipes k ! i)"
  shows "kern_ok (k\<lparr>k_pipes := (k_pipes k)[i := p]\<rparr>)"
proof -
  let ?k = "k\<lparr>k_pipes := (k_pipes k)[i := p]\<rparr>"
  have "exact fd_out pi_refs ?k" "exact fd_in pi_rrefs ?k"
    using ok_parts(2,3) [OF assms(1)] assms(3,4) by (simp_all add: exact_def holders_def nth_upd)
  moreover have "tables_ok ?k" using ok_parts(1) [OF assms(1)] tables_cong [of ?k k] by simp
  ultimately show ?thesis using ok_parts [OF assms(1)] assms(2) by (simp add: kern_ok_def list_all_upd)
qed

lemma rw_counts:
  "pi_refs (snd (pipe_rd r p)) = pi_refs p" "pi_rrefs (snd (pipe_rd r p)) = pi_rrefs p"
  "pi_refs (snd (pipe_wr b p)) = pi_refs p" "pi_rrefs (snd (pipe_wr b p)) = pi_rrefs p"
  by (simp_all add: pipe_rd_def pipe_wr_def kop_simps if_distribR split: list.split)

lemma pipe_of_run: "bnd (pipe_of s) m k = (case s of Some (Pip i) \<Rightarrow> m i k | _ \<Rightarrow> (Inl EBADF, k))"
  by (simp add: pipe_of_def kop_simps split: option.split stream.split)

lemma pipe_state:
  "snd (fd_read_pipe pid n r k) = (case ent_get (p_fds (proc_at k pid)) n of
     Some f \<Rightarrow> (case fd_in f of Some (Pip i) \<Rightarrow> k\<lparr>k_pipes := (k_pipes k)[i := snd (pipe_rd r (k_pipes k ! i))]\<rparr> | _ \<Rightarrow> k) | None \<Rightarrow> k)"
  "snd (fd_write_pipe pid n b k) = (case ent_get (p_fds (proc_at k pid)) n of
     Some f \<Rightarrow> (case fd_out f of Some (Pip i) \<Rightarrow> k\<lparr>k_pipes := (k_pipes k)[i := snd (pipe_wr b (k_pipes k ! i))]\<rparr> | _ \<Rightarrow> k) | None \<Rightarrow> k)"
  by (simp_all add: fd_read_pipe_def fd_write_pipe_def kop_simps pipe_of_run split: option.split stream.split prod.split)

text \<open>A call on the pipe of a descriptor, whatever it does to the pipe but its counts.\<close>

lemma pipe_call_ok:
  assumes "kern_ok k" "pi_refs p = pi_refs (k_pipes k ! i)" "pi_rrefs p = pi_rrefs (k_pipes k ! i)"
    "i < length (k_pipes k) \<Longrightarrow> ends_ok (k_pipes k ! i) \<Longrightarrow> ends_ok p"
  shows "kern_ok (k\<lparr>k_pipes := (k_pipes k)[i := p]\<rparr>)"
proof (rule ok_pipe_upd [OF assms(1) _ assms(2,3)])
  assume i: "i < length (k_pipes k)"
  show "ends_ok p" by (rule assms(4) [OF i list_all_nth [OF ok_parts(4) [OF assms(1)] i]])
qed

lemma read_pipe_ok: "kern_ok k \<Longrightarrow> kern_ok (snd (fd_read_pipe pid n r k))"
  by (simp add: pipe_state pipe_call_ok rw_counts ends_rd split: option.split stream.split)

lemma write_pipe_ok:
  assumes "kern_ok k" "live k pid"
  shows "kern_ok (snd (fd_write_pipe pid n b k))"
proof -
  have "0 < pi_refs (k_pipes k ! i)"
    if "ent_get (p_fds (proc_at k pid)) n = Some f" "fd_out f = Some (Pip i)" "i < length (k_pipes k)" for f i
    using ok_held(1) [OF assms that(1)] that(2,3) by (auto simp: held_def uses_def dest!: spec [of _ i])
  then show ?thesis using assms(1)
    by (simp add: pipe_state pipe_call_ok rw_counts ends_wr split: option.split stream.split)
qed

end
