(* ===== verification/KernelRun.thy ===== *)
theory KernelRun
  imports KernelInv
begin

text \<open>
  The life of a process and the steps of the system: start with a table of descriptors, replacement of the
  image, end, signals, waits; the invariant holds in every state that the system reaches.
\<close>

section \<open>Whole tables\<close>

text \<open>Every stream of a table is open and has a holder.\<close>

definition open_ends :: "kern \<Rightarrow> (int \<times> fd) list \<Rightarrow> bool" where
  "open_ends k fds \<longleftrightarrow> ents_ok fds \<and> (\<forall>(n, f) \<in> set fds. fd_ok k f \<and> held k f)"

lemma hold_all_frame [simp]:
  "k_objs (hold_all fds k) = k_objs k" "k_seq (hold_all fds k) = k_seq k" "k_fs (hold_all fds k) = k_fs k"
  "length (k_pipes (hold_all fds k)) = length (k_pipes k)" "k_procs (hold_all fds k) = k_procs k"
  by (induction fds arbitrary: k) (auto simp: hold_all_def)

lemma release_all_frame [simp]:
  "k_objs (release_all fds k) = k_objs k" "k_seq (release_all fds k) = k_seq k" "k_fs (release_all fds k) = k_fs k"
  "length (k_pipes (release_all fds k)) = length (k_pipes k)" "k_procs (release_all fds k) = k_procs k"
  by (induction fds arbitrary: k) (auto simp: release_all_def)

lemma proc_at_all [simp]: "proc_at (release_all fds k) = proc_at k" "proc_at (hold_all fds k) = proc_at k"
  by (simp_all add: proc_at_def fun_eq_iff)

lemma held_mono: "held k f \<Longrightarrow> held (hold_fd g k) f"
  unfolding held_def by (force simp: counts_fd)

lemma fd_ok_frame [simp]: "fd_ok (hold_fd g k) f = fd_ok k f" "fd_ok (release_fd g k) f = fd_ok k f"
  by (rule fd_ok_cong; simp)+

lemma hold_all_counts:
  assumes "i < length (k_pipes k)"
  shows "pi_refs (k_pipes (hold_all fds k) ! i) = pi_refs (k_pipes k ! i) + ent_sum (uses fd_out i) fds \<and>
    pi_rrefs (k_pipes (hold_all fds k) ! i) = pi_rrefs (k_pipes k ! i) + ent_sum (uses fd_in i) fds"
  using assms
proof (induction fds arbitrary: k)
  case (Cons e fds)
  then show ?case using Cons.IH [of "hold_fd (snd e) k"]
    by (cases e) (simp add: hold_all_def ent_sum_def counts_fd)
qed (simp add: hold_all_def ent_sum_def)

lemma release_all_counts:
  assumes "i < length (k_pipes k)"
  shows "pi_refs (k_pipes (release_all fds k) ! i) = pi_refs (k_pipes k ! i) - ent_sum (uses fd_out i) fds \<and>
    pi_rrefs (k_pipes (release_all fds k) ! i) = pi_rrefs (k_pipes k ! i) - ent_sum (uses fd_in i) fds"
  using assms
proof (induction fds arbitrary: k)
  case (Cons e fds)
  then show ?case using Cons.IH [of "release_fd (snd e) k"]
    by (cases e) (simp add: release_all_def ent_sum_def counts_fd)
qed (simp add: release_all_def ent_sum_def)

lemma hold_all_ends:
  assumes "list_all ends_ok (k_pipes k)" "\<forall>(n, f) \<in> set fds. held k f"
  shows "list_all ends_ok (k_pipes (hold_all fds k))"
  using assms
proof (induction fds arbitrary: k)
  case (Cons e fds)
  obtain n f where e: "e = (n, f)" by (cases e)
  have "list_all ends_ok (k_pipes (hold_fd f k))" using Cons.prems e by (intro ends_fd) auto
  moreover have "\<forall>(m, g) \<in> set fds. held (hold_fd f k) g" using Cons.prems(2) held_mono by fastforce
  ultimately show ?case using Cons.IH [of "hold_fd f k"] e by (simp add: hold_all_def)
qed (simp add: hold_all_def)

text \<open>A table can be released whole when every pipe has at least its ends.\<close>

lemma release_all_ends:
  assumes "list_all ends_ok (k_pipes k)"
    "\<forall>i < length (k_pipes k). ent_sum (uses fd_in i) fds \<le> pi_rrefs (k_pipes k ! i) \<and> ent_sum (uses fd_out i) fds \<le> pi_refs (k_pipes k ! i)"
  shows "list_all ends_ok (k_pipes (release_all fds k))"
  using assms
proof (induction fds arbitrary: k)
  case (Cons e fds)
  obtain n f where e: "e = (n, f)" by (cases e)
  have le: "uses fd_in i f + ent_sum (uses fd_in i) fds \<le> pi_rrefs (k_pipes k ! i) \<and>
      uses fd_out i f + ent_sum (uses fd_out i) fds \<le> pi_refs (k_pipes k ! i)" if "i < length (k_pipes k)" for i
    using Cons.prems(2) that e by (simp add: ent_sum_def)
  have "held k f" unfolding held_def using le by (meson add_leD1)
  then have "list_all ends_ok (k_pipes (release_fd f k))" using Cons.prems(1) by (intro ends_fd)
  moreover have "\<forall>i < length (k_pipes (release_fd f k)). ent_sum (uses fd_in i) fds \<le> pi_rrefs (k_pipes (release_fd f k) ! i) \<and>
      ent_sum (uses fd_out i) fds \<le> pi_refs (k_pipes (release_fd f k) ! i)"
    using le by (force simp: counts_fd)
  ultimately show ?case using Cons.IH [of "release_fd f k"] e by (simp add: release_all_def)
qed (simp add: release_all_def)

section \<open>New processes\<close>

definition add_proc :: "proc \<Rightarrow> kern \<Rightarrow> kern" where
  "add_proc q k = k\<lparr>k_seq := k_seq k + 1, k_objs := ent_set (k_seq k) q (k_objs k), k_procs := k_procs k @ [k_seq k]\<rparr>"

lemma fresh_pid: "tables_ok k \<Longrightarrow> ent_get (k_objs k) (k_seq k) = None"
  using tables_get [of k "k_seq k"] by (cases "ent_get (k_objs k) (k_seq k)") auto

lemma holders_add: "tables_ok k \<Longrightarrow> holders sel i (add_proc q k) = holders sel i k + proc_uses sel i q"
  using tab.total_fresh [OF _ fresh_pid, of k "proc_uses sel i" q] by (simp add: holders_def add_proc_def tables_ok_def)

lemma tables_add:
  assumes "tables_ok k" "proc_ok k q"
  shows "tables_ok (add_proc q k)"
proof -
  have ok: "proc_ok (add_proc q k) p \<longleftrightarrow> proc_ok k p" for p by (rule proc_ok_cong) (simp add: add_proc_def)
  have new: "ent_get (k_objs (add_proc q k)) pid = (if pid = k_seq k then Some q else ent_get (k_objs k) pid)" for pid
    by (simp add: add_proc_def get_set)
  show ?thesis
    unfolding tables_ok_def
  proof (intro conjI allI impI ballI)
    show "ents_ok (k_objs (add_proc q k))" using assms(1) by (simp add: tables_ok_def add_proc_def ok_set)
  next
    fix pid assume "pid \<in> set (k_procs (add_proc q k))"
    then have "pid = k_seq k \<or> known k pid" using assms(1) by (auto simp: add_proc_def tables_ok_def)
    then show "known (add_proc q k) pid" by (auto simp: known_def new)
  next
    fix pid p assume "ent_get (k_objs (add_proc q k)) pid = Some p"
    then have "pid \<le> k_seq k \<and> proc_ok k p"
      using tables_get [OF assms(1), of pid p] assms(2) by (cases "pid = k_seq k") (simp_all add: new)
    then show "pid < k_seq (add_proc q k)" "proc_ok (add_proc q k) p" by (simp_all add: ok, simp add: add_proc_def)
  qed
qed

text \<open>A process that starts with a table of open ends.\<close>

lemma ok_add:
  assumes ok: "kern_ok k" and fds: "open_ends k (p_fds q)" and q: "\<not> p_done q"
  shows "kern_ok (add_proc q (hold_all (p_fds q) k))"
proof -
  let ?k = "hold_all (p_fds q) k"
  have t: "tables_ok ?k" using ok_parts(1) [OF ok] tables_cong [of ?k k] by simp
  have "proc_ok k q" using fds by (auto simp: proc_ok_def open_ends_def ent_get_def dest: map_of_SomeD)
  then have "tables_ok (add_proc q ?k)" using tables_add [OF t] proc_ok_cong [of ?k k q] by simp
  moreover have "exact fd_out pi_refs (add_proc q ?k)" "exact fd_in pi_rrefs (add_proc q ?k)"
    using ok_parts(2,3) [OF ok] q
    by (simp_all add: exact_def holders_add [OF t] proc_uses_def)
      (simp_all add: add_proc_def hold_all_counts holders_cong [of ?k k])
  moreover have "list_all ends_ok (k_pipes (add_proc q ?k))"
    using hold_all_ends [OF ok_parts(4) [OF ok], of "p_fds q"] fds unfolding add_proc_def open_ends_def by fastforce
  ultimately show ?thesis using ok_parts(5) [OF ok] by (simp add: kern_ok_def) (simp add: add_proc_def)
qed

text \<open>A process without pipes is a process whose table holds nothing.\<close>

definition no_pipes :: "(int \<times> fd) list \<Rightarrow> bool" where
  "no_pipes fds \<longleftrightarrow> (\<forall>(n, f) \<in> set fds. \<forall>i. fd_in f \<noteq> Some (Pip i) \<and> fd_out f \<noteq> Some (Pip i))"

lemma no_pipes_open: "ents_ok fds \<Longrightarrow> no_pipes fds \<Longrightarrow> open_ends k fds"
  by (fastforce simp: no_pipes_def open_ends_def fd_ok_def stream_ok_def held_def uses_def)

lemma stream_plain:
  "(\<And>i. s \<noteq> Some (Pip i)) \<Longrightarrow> hold_in s k = k \<and> hold_out s k = k \<and> release_in s k = k \<and> release_out s k = k"
  by (auto simp: stream_cases split: option.split stream.split)

lemma no_pipes_hold: "no_pipes fds \<Longrightarrow> hold_all fds k = k \<and> release_all fds k = k"
proof (induction fds arbitrary: k)
  case (Cons e fds)
  have "no_pipes fds" using Cons.prems by (auto simp: no_pipes_def)
  moreover have "hold_fd (snd e) k = k \<and> release_fd (snd e) k = k"
    using Cons.prems by (cases e) (simp add: no_pipes_def hold_fd_def release_fd_def stream_plain)
  ultimately show ?case using Cons.IH by (cases e) (simp add: hold_all_def release_all_def)
qed (simp add: hold_all_def release_all_def)

section \<open>The calls of a life\<close>

lemma get_fd_known: "ent_get (p_fds (proc_at k pid)) n = Some f \<Longrightarrow> get_fd pid n k = (Inr f, k)"
  by (simp add: get_fd_run)

lemma kfd_from_free: "kfd_from m p = Some n \<Longrightarrow> ent_get (p_fds p) n = None \<and> 3 \<le> n \<and> int m \<le> n \<and> n \<le> 255"
  unfolding kfd_from_def using find_upto by fastforce

text \<open>A mark of a descriptor set anew.\<close>

lemma mark_ok:
  assumes "kern_ok k" "live k pid" "ent_get (p_fds (proc_at k pid)) n = Some f"
  shows "kern_ok (set_fd pid n (f\<lparr>fd_clo := c\<rparr>) k)" "kern_ok (set_fd pid n (f\<lparr>fd_add := c\<rparr>) k)"
  by (rule ok_set_same [OF assms]; simp)+

lemma keeps_clone: "keeps (\<lambda>k. kern_ok k \<and> live k pid) (clone_fd pid old nu)"
proof -
  have "live (snd (clone_fd pid old nu k)) pid" if "live k pid" for k
    using that by (cases nu) (simp_all add: clone_fd_def kop_simps if_distribR split: option.split)
  then show ?thesis using clone_ok by (simp add: keeps_def)
qed

lemma keeps_nat_arg [simp]: "keeps P (nat_arg n hi)"
  unfolding nat_arg_def by (intro keeps_bnd keeps_simple)

lemma keeps_mark:
  assumes "\<And>g. fd_in (h g) = fd_in g \<and> fd_out (h g) = fd_out g"
  shows "keeps (\<lambda>k. kern_ok k \<and> live k pid) (bnd (get_fd pid n) (\<lambda>g. bnd (modify (set_fd pid n (h g))) (\<lambda>_. ret x)))"
  unfolding keeps_def using assms
  by (simp add: kop_simps ok_set_same split: option.split)

lemma fcntl_dup_keeps: "keeps (\<lambda>k. kern_ok k \<and> live k pid) (fcntl_dup pid n clo arg)"
  unfolding fcntl_dup_def
  by (intro keeps_bnd keeps_simple keeps_nat_arg keeps_clone keeps_mark) simp

lemma fcntl_ok:
  assumes "kern_ok k" "live k pid"
  shows "kern_ok (snd (sys_fcntl pid n cmd arg k))"
proof (cases "ent_get (p_fds (proc_at k pid)) n")
  case (Some f)
  then show ?thesis
    using assms keepsD [OF fcntl_dup_keeps, of k pid n _ arg]
    by (simp add: sys_fcntl_def nat_arg_def kop_simps mark_ok if_distribR)
qed (simp add: sys_fcntl_def kop_simps assms)

text \<open>The end.\<close>

lemma sum_le_holders:
  assumes "tables_ok k" "live k pid"
  shows "ent_sum (uses sel i) (p_fds (proc_at k pid)) \<le> holders sel i k"
  using assms tab.total_ge [of "k_objs k" pid "proc_at k pid" "proc_uses sel i"] live_get [OF assms(2)]
  by (simp add: holders_def tables_ok_def proc_uses_def)

lemma ok_done:
  assumes ok: "kern_ok k" and live: "live k pid" and g: "p_fds (g (proc_at k pid)) = p_fds (proc_at k pid)" "p_done (g (proc_at k pid))"
  shows "kern_ok (upd_proc pid g (release_all (p_fds (proc_at k pid)) k))"
proof -
  let ?fds = "p_fds (proc_at k pid)"
  let ?k = "release_all ?fds k"
  note t = ok_parts(1) [OF ok]
  have t': "tables_ok ?k" and l': "known ?k pid"
    using t tables_cong [of ?k k] live_known [OF live] by (simp_all add: known_def)
  have le: "ent_sum (uses sel i) ?fds \<le> holders sel i k" for sel i by (rule sum_le_holders [OF t live])
  have "holders sel i (upd_proc pid g ?k) + ent_sum (uses sel i) ?fds = holders sel i k" for sel i
    using holders_upd [OF t' l', of sel i g] g live_get [OF live] holders_cong [of ?k k]
    by (simp add: proc_uses_def)
  then have h: "holders sel i (upd_proc pid g ?k) = holders sel i k - ent_sum (uses sel i) ?fds" for sel i
    by (metis add_diff_cancel_right')
  have "exact fd_out pi_refs (upd_proc pid g ?k)" "exact fd_in pi_rrefs (upd_proc pid g ?k)"
    using ok_parts(2,3) [OF ok] by (simp_all add: exact_def h release_all_counts del: upd_frame(5))
  moreover have "proc_ok ?k (g (proc_at ?k pid))"
    unfolding proc_at_all proc_ok_cong [OF release_all_frame(4)]
    using live_ok [OF t live] g by (simp add: proc_ok_def)
  then have "tables_ok (upd_proc pid g ?k)" by (rule tables_upd [OF t' l'])
  moreover have "list_all ends_ok (k_pipes ?k)"
    using le ok_parts(2,3) [OF ok] by (intro release_all_ends [OF ok_parts(4) [OF ok]]) (simp add: exact_def)
  ultimately show ?thesis using ok_parts(5) [OF ok] by (simp add: kern_ok_def)
qed

lemma proc_end_frame [simp]: "p_fds (proc_end c p) = p_fds p" "p_done (proc_end c p) = p_done p"
  by (simp_all add: proc_end_def)

lemma signal_frame [simp]: "p_fds (snd (signal s p)) = p_fds p" "p_done (snd (signal s p)) = p_done p"
  by (simp_all add: signal_def)

lemma exit_ok:
  assumes "kern_ok k" "live k pid" "p_held (proc_at k pid) \<or> no_pipes (p_fds (proc_at k pid))"
  shows "kern_ok (kern_exit pid code k)"
proof -
  let ?fds = "p_fds (proc_at k pid)"
  have plain: "fd_in f \<noteq> Some (Pip i) \<and> fd_out f \<noteq> Some (Pip i)" if "no_pipes ?fds" "ent_get ?fds n = Some f" for n f i
    using that by (auto simp: no_pipes_def ent_get_def dest!: map_of_SomeD)
  have "kern_exit pid code k = upd_proc pid (\<lambda>p. (proc_end code p)\<lparr>p_done := True\<rparr>) (release_all ?fds k)"
  proof (cases "p_held (proc_at k pid)")
    case False
    then have "no_pipes ?fds" using assms(3) by simp
    then have "release_in (Option.bind (ent_get ?fds n) fd_in) j = j \<and> release_out (Option.bind (ent_get ?fds n) fd_out) j = j" for n j
      using plain by (cases "ent_get ?fds n") (simp_all add: stream_plain)
    then show ?thesis using False no_pipes_hold [OF \<open>no_pipes ?fds\<close>] by (simp add: kern_exit_def Let_def)
  qed (simp add: kern_exit_def Let_def)
  then show ?thesis using ok_done [OF assms(1,2), of "\<lambda>p. (proc_end code p)\<lparr>p_done := True\<rparr>"] by simp
qed

text \<open>The replacement of the image.\<close>

lemma del_release: "del_fd pid n (release_fd f k) = release_fd f (del_fd pid n k)"
  by (simp add: release_fd_def stream_cases del_fd_def upd_proc_def proc_at_def pipe_out_def
      split: option.split stream.split prod.split)

lemma close_all_ok:
  assumes "kern_ok k" "live k pid" "distinct (map fst clo)" "\<forall>(n, f) \<in> set clo. ent_get (p_fds (proc_at k pid)) n = Some f"
  shows "kern_ok (fold (\<lambda>(n, f). del_fd pid n \<circ> release_fd f) clo k) \<and> live (fold (\<lambda>(n, f). del_fd pid n \<circ> release_fd f) clo k) pid"
  using assms
proof (induction clo arbitrary: k)
  case (Cons e clo)
  obtain n f where e: "e = (n, f)" by (cases e)
  let ?k = "release_fd f (del_fd pid n k)"
  have fd: "ent_get (p_fds (proc_at k pid)) n = Some f" using Cons.prems(4) e by simp
  have "ents_ok (p_fds (proc_at k pid))" using live_ok [OF ok_parts(1)] Cons.prems by (simp add: proc_ok_def)
  then have "\<forall>(m, g) \<in> set clo. ent_get (p_fds (proc_at ?k pid)) m = Some g"
    using Cons.prems(3,4) e by (force simp: get_del)
  moreover have "kern_ok ?k" by (rule ok_close [OF Cons.prems(1,2) fd])
  moreover have "live ?k pid" using Cons.prems(2) by simp
  ultimately show ?case using Cons.IH [of ?k] Cons.prems(3) e by (simp add: del_release)
qed simp

lemma exec_ok:
  assumes "kern_ok k" "live k pid"
  shows "kern_ok (snd (exec_replace pid path argv env cred k))"
proof -
  let ?clo = "filter (\<lambda>(n, f). fd_clo f) (p_fds (proc_at k pid))"
  have e: "ents_ok (p_fds (proc_at k pid))" using live_ok [OF ok_parts(1)] assms by (simp add: proc_ok_def)
  then have "distinct (map fst ?clo)" by (simp add: ents_ok_def distinct_map_filter)
  moreover have "\<forall>(n, f) \<in> set ?clo. ent_get (p_fds (proc_at k pid)) n = Some f"
    using e by (auto simp: ents_ok_def ent_get_def)
  ultimately have "kern_ok (fold (\<lambda>(n, f). del_fd pid n \<circ> release_fd f) ?clo k)" "live (fold (\<lambda>(n, f). del_fd pid n \<circ> release_fd f) ?clo k) pid"
    using close_all_ok [OF assms] by blast+
  then show ?thesis unfolding exec_replace_def by (simp add: kop_simps ok_upd live_known)
qed

text \<open>The start of a program: with a table of open ends, or without pipes.\<close>

definition start_fits :: "kern \<Rightarrow> int \<Rightarrow> start_opt \<Rightarrow> bool" where
  "start_fits k pr opt \<longleftrightarrow>
     (case o_fds opt of
        Some fds \<Rightarrow> open_ends k fds
      | None \<Rightarrow> (let io = start_io opt (p_fds (proc_at k pr)) in
          \<forall>i. io_sin io \<noteq> Pip i \<and> io_sout io \<noteq> Pip i \<and> io_serr io \<noteq> Pip i))"

lemma ok_seq: "kern_ok k \<Longrightarrow> kern_ok (k\<lparr>k_seq := k_seq k + 1\<rparr>)"
proof -
  let ?k = "k\<lparr>k_seq := k_seq k + 1\<rparr>"
  assume ok: "kern_ok k"
  have "tables_ok ?k"
    using ok_parts(1) [OF ok] proc_ok_cong [of ?k k] unfolding tables_ok_def known_def by fastforce
  then show "kern_ok ?k" using ok wr.exact_cong [of ?k k] rd.exact_cong [of ?k k] by (simp add: kern_ok_def)
qed

lemma which_in_keeps: "keeps (inv objs) (which_in now pid name ds)"
proof (induction ds)
  case (Cons d ds)
  show ?case
    by (simp only: which_in.simps)
      (intro keeps_catch Cons.IH keeps_bnd keeps_split file_keeps keeps_simple, auto split: body.split)
qed simp

lemma which_keeps: "keeps (inv objs) (which now pid name)"
  unfolding which_def
  by (intro keeps_split keeps_bnd which_in_keeps file_keeps keeps_simple keeps_on_fs at_keeps)

lemma hold_io_plain: "(\<And>i. io_sin io \<noteq> Pip i \<and> io_sout io \<noteq> Pip i \<and> io_serr io \<noteq> Pip i) \<Longrightarrow> hold_io io k = k"
  by (simp add: hold_io_def stream_plain)

lemma kids_ok: "kern_ok k \<Longrightarrow> known k pr \<Longrightarrow> kern_ok (upd_proc pr (\<lambda>p. p\<lparr>p_kids := h p\<rparr>) k)"
  by (rule ok_upd) simp_all

lemma add_frame [simp]: "known k pr \<Longrightarrow> known (add_proc q k) pr"
  by (simp add: known_def add_proc_def get_set)

text \<open>What \<open>start\<close> does once it has its program: \<open>q\<close> is the process it makes.\<close>

lemma start_adds:
  assumes ok: "kern_ok k" and pr: "live k pr" and fds: "open_ends k (p_fds q)" and q: "\<not> p_done q"
  shows "kern_ok (upd_proc pr (\<lambda>p. p\<lparr>p_kids := h p\<rparr>) (add_proc q (hold_all (p_fds q) k)))"
proof (rule kids_ok [OF ok_add [OF ok fds q]])
  have "known (hold_all (p_fds q) k) pr" using live_known [OF pr] by (simp add: known_def)
  then show "known (add_proc q (hold_all (p_fds q) k)) pr" by simp
qed

lemma start_proc_facts:
  assumes "start_fits k pr opt"
  shows "open_ends k (p_fds (start_proc (proc_at k pr) pid path argv opt cred))" "\<not> p_done (start_proc (proc_at k pr) pid path argv opt cred)"
    "o_fds opt = None \<Longrightarrow> no_pipes (p_fds (start_proc (proc_at k pr) pid path argv opt cred))"
proof -
  show none: "no_pipes (p_fds (start_proc (proc_at k pr) pid path argv opt cred))" if "o_fds opt = None"
    using assms that by (simp add: start_fits_def start_proc_def Let_def no_pipes_def new_proc_def new_fd_def)
  show "open_ends k (p_fds (start_proc (proc_at k pr) pid path argv opt cred))"
  proof (cases "o_fds opt")
    case None
    then show ?thesis by (intro no_pipes_open none) (simp add: start_proc_def Let_def ents_ok_def new_proc_def)
  qed (use assms in \<open>simp add: start_fits_def start_proc_def Let_def\<close>)
  show "\<not> p_done (start_proc (proc_at k pr) pid path argv opt cred)"
    by (simp add: start_proc_def Let_def new_proc_def split: option.split)
qed

lemma open_ends_cong: "k_pipes k' = k_pipes k \<Longrightarrow> open_ends k' fds = open_ends k fds"
  by (simp add: open_ends_def fd_ok_def stream_ok_def held_def)

lemma start_fits_cong: "inv k0 k \<Longrightarrow> start_fits k pr opt = start_fits k0 pr opt"
  using open_ends_cong [OF inv_same(2)] by (simp add: start_fits_def inv_proc split: option.split)

lemma stream_seq:
  "hold_in s (k\<lparr>k_seq := m\<rparr>) = (hold_in s k)\<lparr>k_seq := m\<rparr>" "hold_out s (k\<lparr>k_seq := m\<rparr>) = (hold_out s k)\<lparr>k_seq := m\<rparr>"
  by (simp_all add: stream_cases split: option.split stream.split)

lemma hold_all_seq: "hold_all fds (k\<lparr>k_seq := m\<rparr>) = (hold_all fds k)\<lparr>k_seq := m\<rparr>"
  by (induction fds arbitrary: k) (auto simp: hold_all_def hold_fd_def stream_seq)

lemma proc_at_seq [simp]: "proc_at (k\<lparr>k_seq := m\<rparr>) = proc_at k"
  by (simp add: proc_at_def fun_eq_iff)

text \<open>All that \<open>launch\<close> can do.\<close>

lemma launch_run:
  assumes "start_fits k pr opt"
  shows "launch path argv pr opt i r k = (case executableCred (k_setid k) (node (k_fs k) i) r (p_cred (proc_at k pr)) of
      Inl e \<Rightarrow> (Inl e, k\<lparr>k_seq := k_seq k + 1\<rparr>)
    | Inr cred \<Rightarrow> (let q = start_proc (proc_at k pr) (k_seq k) path argv opt cred in
        (Inr (k_seq k), upd_proc pr (\<lambda>p. p\<lparr>p_kids := p_kids p @ [k_seq k]\<rparr>) (add_proc q (hold_all (p_fds q) k)))))"
proof (cases "o_fds opt")
  case None
  then have io: "hold_io (start_io opt (p_fds (proc_at k pr))) j = j" for j
    using assms by (intro hold_io_plain) (simp add: start_fits_def Let_def)
  have "hold_all (p_fds (start_proc (proc_at k pr) pid path argv opt cred)) j = j" for pid cred j
    using no_pipes_hold [OF start_proc_facts(3) [OF assms None]] by simp
  then show ?thesis using None
    by (simp add: launch_def kop_simps io add_proc_def split: sum.split)
next
  case (Some fds)
  have "p_fds (start_proc (proc_at k pr) pid path argv opt cred) = fds" for pid cred
    using Some by (simp add: start_proc_def Let_def)
  then show ?thesis using Some
    by (simp add: launch_def kop_simps hold_all_seq add_proc_def split: sum.split)
qed

lemma launch_ok:
  assumes "kern_ok k" "live k pr" "start_fits k pr opt"
  shows "kern_ok (snd (launch path argv pr opt i r k))"
  using assms launch_run [OF assms(3)] start_adds [OF assms(1,2) start_proc_facts(1,2) [OF assms(3)]] ok_seq
  by (simp add: Let_def split: sum.split)

lemma start_ok:
  assumes "kern_ok k" "live k pr" "start_fits k pr opt"
  shows "kern_ok (snd (start now name argv pr opt k))"
proof -
  have "settles k (start now name argv pr opt)"
    unfolding start_def
  proof (rule settles_bnd [OF which_keeps], rule settles_bnd [OF file_keeps(1)], rule settles_split,
      rule settles_asks, rule settles_body)
    fix r path i b
    show "settles k (launch path (name # argv) pr opt i r)"
      using assms(2,3) start_fits_cong inv_live launch_ok unfolding settles_def inv_def by blast
  qed (rule settles_keeps, simp)
  then show ?thesis using assms(1) unfolding settles_def inv_def
    by (metis kern.surjective kern.update_convs(1))
qed

section \<open>The process table\<close>

lemma ok_procs:
  assumes "kern_ok k" "set ps \<subseteq> set (k_procs k)"
  shows "kern_ok (k\<lparr>k_procs := ps\<rparr>)"
proof -
  let ?k = "k\<lparr>k_procs := ps\<rparr>"
  have "tables_ok ?k"
    using ok_parts(1) [OF assms(1)] assms(2) proc_ok_cong [of ?k k] unfolding tables_ok_def known_def by auto
  then show ?thesis using assms(1) wr.exact_cong [of ?k k] rd.exact_cong [of ?k k] by (simp add: kern_ok_def)
qed

lemma known_proc: "kern_ok k \<Longrightarrow> pid \<in> set (k_procs k) \<Longrightarrow> known k pid"
  using ok_parts(1) by (simp add: tables_ok_def)

lemma reap_ok:
  assumes "kern_ok k" "\<And>q. pr = Some q \<Longrightarrow> known k q"
  shows "kern_ok (reap pid pr k)"
proof -
  let ?k = "k\<lparr>k_procs := filter (\<lambda>q. q \<noteq> pid) (k_procs k)\<rparr>"
  have ok: "kern_ok ?k" by (rule ok_procs [OF assms(1)]) auto
  have kids: "kern_ok (upd_proc q (\<lambda>p. p\<lparr>p_kids := filter (\<lambda>c. c \<noteq> pid) (p_kids p)\<rparr>) ?k)" if "known k q" for q
    using that by (intro kids_ok [OF ok]) (simp add: known_def)
  show ?thesis
    using assms ok kids known_proc [OF assms(1)] by (simp add: reap_def Let_def split: option.split)
qed

lemma wait_ok: "kern_ok k \<Longrightarrow> known k pr \<Longrightarrow> kern_ok (snd (kern_wait pid pr k))"
  using reap_ok [of k "Some pr" pid] by (simp add: kern_wait_def kop_simps split: option.split)

text \<open>Signals change no descriptor.\<close>

lemma ok_same_fds:
  assumes "kern_ok k" "known k pid" "\<And>p. p_fds (g p) = p_fds p \<and> p_done (g p) = p_done p"
  shows "kern_ok (upd_proc pid g k) \<and> (known (upd_proc pid g k) q \<longleftrightarrow> known k q)"
  using assms(2) ok_upd [OF assms(1,2), of g] assms(3) by (auto simp: known_def get_set)

lemma kill_one_keeps:
  "keeps (\<lambda>k. kern_ok k \<and> (\<forall>q \<in> qs. known k q)) (kill_one sig by pid)" if "pid \<in> qs"
  unfolding keeps_def
proof (intro allI impI)
  fix k assume k: "kern_ok k \<and> (\<forall>q \<in> qs. known k q)"
  have "kern_ok (upd_proc pid (\<lambda>p. let p' = snd (signal sig p) in
      if sig = 9 \<or> p_state p' = Sleep then proc_end (128 + int sig) p' else p') k) \<and>
    (known (upd_proc pid (\<lambda>p. let p' = snd (signal sig p) in
      if sig = 9 \<or> p_state p' = Sleep then proc_end (128 + int sig) p' else p') k) q \<longleftrightarrow> known k q)" for q
    using k that by (intro ok_same_fds) (simp_all add: Let_def)
  then show "kern_ok (snd (kill_one sig by pid k)) \<and> (\<forall>q \<in> qs. known (snd (kill_one sig by pid k)) q)"
    using k by (simp add: kill_one_def kop_simps)
qed

lemma mapk_keeps: "(\<And>x. x \<in> set xs \<Longrightarrow> keeps P (f x)) \<Longrightarrow> keeps P (mapk f xs)"
  by (induction xs) (auto intro!: keeps_bnd)

lemma kill_ok: "kern_ok k \<Longrightarrow> kern_ok (snd (kern_kill target sig by k))"
proof -
  assume ok: "kern_ok k"
  let ?q = "filter (\<lambda>q. if target < 0 then p_pgid (proc_at k q) = - target else q = target) (k_procs k)"
  have "keeps (\<lambda>k. kern_ok k \<and> (\<forall>q \<in> set ?q. known k q)) (bnd (mapk (kill_one sig by) ?q) (\<lambda>ns. ret (sum_list ns)))"
    by (intro keeps_bnd mapk_keeps kill_one_keeps keeps_simple)
  moreover have "kern_ok k \<and> (\<forall>q \<in> set ?q. known k q)" using ok known_proc by simp
  ultimately have "kern_ok (snd (bnd (mapk (kill_one sig by) ?q) (\<lambda>ns. ret (sum_list ns)) k))" using keepsD by fastforce
  then show ?thesis using ok by (simp add: kern_kill_def kop_simps)
qed

lemma stop_ok: "kern_ok k \<Longrightarrow> kern_ok (snd (kern_stop by k))"
proof -
  assume ok: "kern_ok k"
  have "kern_ok (fold (\<lambda>q. if q \<noteq> 1 \<and> q \<noteq> by then upd_proc q (\<lambda>p. snd (signal 15 p)) else id) qs j)"
    if "kern_ok j" "\<forall>q \<in> set qs. known j q" for qs j
    using that
  proof (induction qs arbitrary: j)
    case (Cons q qs)
    have "kern_ok (upd_proc q (\<lambda>p. snd (signal 15 p)) j)" "known (upd_proc q (\<lambda>p. snd (signal 15 p)) j) r = known j r" for r
      using ok_same_fds [OF Cons.prems(1), of q "\<lambda>p. snd (signal 15 p)"] Cons.prems(2) by simp_all
    then show ?case using Cons by simp
  qed simp
  then show ?thesis using ok known_proc [OF ok] by (simp add: kern_stop_def kop_simps)
qed

lemma cred_step_frame: "cred_step p q \<Longrightarrow> p_fds q = p_fds p \<and> p_done q = p_done p"
  by (induction rule: cred_step.induct) (simp_all add: set_id_defs kop_simps Let_def)

lemma sigmask_frame: "p_fds (snd (set_signal_mask how m p)) = p_fds p \<and> p_done (snd (set_signal_mask how m p)) = p_done p"
  by (simp add: set_signal_mask_def Let_def split: option.split)

text \<open>Start-up and sessions.\<close>

lemma init_ok:
  assumes "kern_ok k" "1 \<in> set (k_procs k) \<or> k_objs k = []"
  shows "kern_ok (kern_init env k) \<and> 1 \<in> set (k_procs (kern_init env k))"
proof (cases "1 \<in> set (k_procs k)")
  case False
  let ?q = "(new_proc 1 0 1 ''init'' [''init''] ''/'' env rootCred \<lparr>io_sin = Other 0, io_sout = Other 1, io_serr = Other 1\<rparr>)\<lparr>p_state := Sleep\<rparr>"
  let ?j = "k\<lparr>k_seq := 1\<rparr>"
  have objs: "k_objs k = []" using False assms(2) by simp
  have "tables_ok ?j" using ok_parts(1) [OF assms(1)] objs by (simp add: tables_ok_def known_def ent_get_def)
  then have j: "kern_ok ?j" using assms(1) wr.exact_cong [of ?j k] rd.exact_cong [of ?j k] by (simp add: kern_ok_def)
  have np: "no_pipes (p_fds ?q)" by (simp add: new_proc_def new_fd_def no_pipes_def)
  have "kern_ok (add_proc ?q (hold_all (p_fds ?q) ?j))"
    by (rule ok_add [OF j no_pipes_open [OF _ np]]) (simp_all add: new_proc_def ents_ok_def)
  moreover have "add_proc ?q (hold_all (p_fds ?q) ?j) = kern_init env k"
    using False no_pipes_hold [OF np] by (simp add: add_proc_def kern_init_def)
  ultimately show ?thesis using False by (simp add: kern_init_def)
qed (use assms in \<open>simp add: kern_init_def\<close>)

lemma session_ok:
  assumes "kern_ok k" "1 \<in> set (k_procs k) \<or> k_objs k = []" "\<And>i. io_sin io \<noteq> Pip i \<and> io_sout io \<noteq> Pip i \<and> io_serr io \<noteq> Pip i"
  shows "kern_ok (snd (session io c home env k))"
proof -
  let ?k = "kern_init env k"
  let ?q = "(new_proc (k_seq ?k) 1 (k_seq ?k) ''thsh'' [''thsh''] home env (fullCred c) io)\<lparr>p_state := Run\<rparr>"
  have k: "kern_ok ?k" "1 \<in> set (k_procs ?k)" using init_ok [OF assms(1,2)] by simp_all
  have np: "no_pipes (p_fds ?q)" using assms(3) by (simp add: new_proc_def new_fd_def no_pipes_def)
  have "kern_ok (add_proc ?q (hold_all (p_fds ?q) ?k))"
    by (rule ok_add [OF k(1) no_pipes_open [OF _ np]]) (simp_all add: new_proc_def ents_ok_def)
  then have "kern_ok (add_proc ?q ?k)" using no_pipes_hold [OF np, of ?k] by simp
  then have "kern_ok (upd_proc 1 (\<lambda>p. p\<lparr>p_kids := p_kids p @ [k_seq ?k]\<rparr>) (add_proc ?q ?k))"
    using kids_ok [of "add_proc ?q ?k" 1 "\<lambda>p. p_kids p @ [k_seq ?k]"] known_proc [OF k] by simp
  then show ?thesis by (simp add: session_def kop_simps add_proc_def)
qed

section \<open>Steps\<close>

text \<open>What can happen: a process that has not ended makes a call, ends, or a session starts. The restrictions
  say what the counting of the code relies on: a program starts with a table of descriptors whose ends are
  open, or without pipes, and one without a table has made no pipe when it ends; nobody opens
  \<open>/dev/tty\<close>, whose descriptor shares streams uncounted.\<close>

inductive kern_step :: "kern \<Rightarrow> kern \<Rightarrow> bool" where
  step_pipe: "live k pid \<Longrightarrow> kern_step k (snd (sys_pipe pid k))"
| step_close: "live k pid \<Longrightarrow> kern_step k (snd (sys_close pid n k))"
| step_clone: "live k pid \<Longrightarrow> kern_step k (snd (clone_fd pid n m k))"
| step_fcntl: "live k pid \<Longrightarrow> kern_step k (snd (sys_fcntl pid n cmd arg k))"
| step_open: "live k pid \<Longrightarrow> path \<noteq> ''/dev/tty'' \<Longrightarrow> kern_step k (snd (sys_open now pid path flags mode k))"
| step_openDir: "live k pid \<Longrightarrow> kern_step k (snd (sys_openDir now pid path k))"
| step_fdr: "live k pid \<Longrightarrow> kern_step k (snd (sys_fdr now pid n len k))"
| step_fdw: "live k pid \<Longrightarrow> kern_step k (snd (sys_fdw now pid n b k))"
| step_seek: "live k pid \<Longrightarrow> kern_step k (snd (sys_seek now pid n off whence k))"
| step_fs: "vfs_step (k_fs k) fs \<Longrightarrow> kern_step k (k\<lparr>k_fs := fs\<rparr>)"
| step_read: "live k pid \<Longrightarrow> kern_step k (snd (fd_read_pipe pid n r k))"
| step_write: "live k pid \<Longrightarrow> kern_step k (snd (fd_write_pipe pid n b k))"
| step_cred: "live k pid \<Longrightarrow> cred_step (proc_at k pid) p \<Longrightarrow> kern_step k (upd_proc pid (\<lambda>_. p) k)"
| step_umask: "live k pid \<Longrightarrow> kern_step k (upd_proc pid (set_umask mode) k)"
| step_sigmask: "live k pid \<Longrightarrow> kern_step k (upd_proc pid (\<lambda>p. snd (set_signal_mask how m p)) k)"
| step_start: "live k pid \<Longrightarrow> start_fits k pid opt \<Longrightarrow> kern_step k (snd (start now name argv pid opt k))"
| step_exec: "live k pid \<Longrightarrow> kern_step k (snd (exec_replace pid path argv env c k))"
| step_exit: "live k pid \<Longrightarrow> p_held (proc_at k pid) \<or> no_pipes (p_fds (proc_at k pid)) \<Longrightarrow> kern_step k (kern_exit pid code k)"
| step_wait: "live k pid \<Longrightarrow> kern_step k (snd (kern_wait q pid k))"
| step_reap: "kern_step k (reap pid None k)"
| step_kill: "live k pid \<Longrightarrow> kern_step k (snd (kern_kill target sig pid k))"
| step_stop: "live k pid \<Longrightarrow> kern_step k (snd (kern_stop pid k))"
| step_session: "1 \<in> set (k_procs k) \<or> k_objs k = [] \<Longrightarrow> (\<And>i. io_sin io \<noteq> Pip i \<and> io_sout io \<noteq> Pip i \<and> io_serr io \<noteq> Pip i) \<Longrightarrow>
    kern_step k (snd (session io c home env k))"

inductive_cases kern_stepE: "kern_step k k'"

lemma settles_now: "settles k m \<Longrightarrow> kern_ok k \<Longrightarrow> kern_ok (snd (m k))"
  unfolding settles_def inv_def by (metis kern.surjective kern.update_convs(1))

lemma cred_ok: "kern_ok k \<Longrightarrow> live k pid \<Longrightarrow> cred_step (proc_at k pid) p \<Longrightarrow> kern_ok (upd_proc pid (\<lambda>_. p) k)"
  using cred_step_frame by (intro ok_upd live_known) auto

lemma mask_ok:
  "kern_ok k \<Longrightarrow> live k pid \<Longrightarrow> kern_ok (upd_proc pid (set_umask mode) k)"
  "kern_ok k \<Longrightarrow> live k pid \<Longrightarrow> kern_ok (upd_proc pid (\<lambda>p. snd (set_signal_mask how m p)) k)"
  by (rule ok_upd; simp add: live_known set_umask_def sigmask_frame)+

lemma fs_step_ok: "kern_ok k \<Longrightarrow> vfs_step (k_fs k) fs \<Longrightarrow> kern_ok (k\<lparr>k_fs := fs\<rparr>)"
  using ok_fs step_ok ok_parts(5) by blast

lemma kern_step_ok: "kern_step k k' \<Longrightarrow> kern_ok k \<Longrightarrow> kern_ok k'"
proof (induction rule: kern_step.induct)
  case (step_open k pid path now flags mode)
  then show ?case using settles_now [OF open_ok] by blast
next
  case (step_openDir k pid now path)
  then show ?case using settles_now [OF openDir_ok] by blast
next
  case (step_fdr k pid now n len)
  then show ?case using settles_now [OF fdr_ok] by blast
next
  case (step_fdw k pid now n b)
  then show ?case using settles_now [OF fdw_ok] by blast
next
  case (step_seek k pid now n off whence)
  then show ?case using settles_now [OF seek_ok] by blast
next
  case (step_wait k pid q)
  then show ?case using wait_ok live_known by blast
next
  case (step_session k io c home env)
  then show ?case using session_ok by blast
qed (blast intro: sys_pipe_ok close_ok clone_ok fcntl_ok fs_step_ok read_pipe_ok write_pipe_ok cred_ok mask_ok start_ok
      exec_ok exit_ok reap_ok kill_ok stop_ok)+

lemma new_kern_ok: "vfs_ok fs \<Longrightarrow> kern_ok (new_kern fs setid)"
  by (simp add: kern_ok_def new_kern_def tables_ok_def exact_def ents_ok_def ent_get_def)

definition reaches :: "vfs \<Rightarrow> bool \<Rightarrow> kern \<Rightarrow> bool" where
  "reaches fs setid k \<longleftrightarrow> vfs_ok fs \<and> kern_step\<^sup>*\<^sup>* (new_kern fs setid) k"

lemma reaches_ok: "reaches fs setid k \<Longrightarrow> kern_ok k"
proof -
  have "kern_step\<^sup>*\<^sup>* (new_kern fs setid) k \<Longrightarrow> kern_ok (new_kern fs setid) \<Longrightarrow> kern_ok k"
    by (induction rule: rtranclp_induct) (auto intro: kern_step_ok)
  then show "reaches fs setid k \<Longrightarrow> kern_ok k" using new_kern_ok by (simp add: reaches_def)
qed

end
