(* ===== verification/KernelProps.thy ===== *)
theory KernelProps
  imports KernelRun
begin

text \<open>
  The properties of the kernel: what the invariant of its tables means for those who read and write pipes,
  what the calls on descriptors do, who may signal whom, and where the counting of pipe ends fails.
\<close>

section \<open>Pipes and their holders\<close>

text \<open>A process that has not ended has this end of pipe \<open>i\<close>.\<close>

definition holds_end :: "(fd \<Rightarrow> stream option) \<Rightarrow> nat \<Rightarrow> kern \<Rightarrow> bool" where
  "holds_end sel i k \<longleftrightarrow> (\<exists>pid n f. live k pid \<and> ent_get (p_fds (proc_at k pid)) n = Some f \<and> sel f = Some (Pip i))"

lemma proc_uses_pos: "proc_ok k p \<Longrightarrow> 0 < proc_uses sel i p \<longleftrightarrow>
    \<not> p_done p \<and> (\<exists>n f. ent_get (p_fds p) n = Some f \<and> sel f = Some (Pip i))"
  using sum_pos [of "p_fds p" "uses sel i"] by (auto simp: proc_uses_def proc_ok_def uses_def split: if_splits)

lemma holders_pos:
  assumes "tables_ok k"
  shows "0 < holders sel i k \<longleftrightarrow> holds_end sel i k"
proof -
  have "0 < holders sel i k \<longleftrightarrow> (\<exists>pid p. ent_get (k_objs k) pid = Some p \<and> 0 < proc_uses sel i p)"
    using sum_pos [of "k_objs k" "proc_uses sel i"] assms by (simp add: holders_def tables_ok_def)
  also have "\<dots> \<longleftrightarrow> (\<exists>pid. live k pid \<and> (\<exists>n f. ent_get (p_fds (proc_at k pid)) n = Some f \<and> sel f = Some (Pip i)))"
  proof -
    have "(\<exists>p. ent_get (k_objs k) pid = Some p \<and> 0 < proc_uses sel i p) \<longleftrightarrow>
      live k pid \<and> (\<exists>n f. ent_get (p_fds (proc_at k pid)) n = Some f \<and> sel f = Some (Pip i))" for pid
    proof (cases "ent_get (k_objs k) pid")
      case (Some p)
      then show ?thesis
        using proc_uses_pos [of k p sel i] tables_get [OF assms Some] by (simp add: live_def proc_at_def)
    qed (simp add: live_def)
    then show ?thesis by simp
  qed
  finally show ?thesis by (simp add: holds_end_def)
qed

lemma count_pos:
  assumes "kern_ok k" "i < length (k_pipes k)"
  shows "0 < pi_refs (k_pipes k ! i) \<longleftrightarrow> holds_end fd_out i k" "0 < pi_rrefs (k_pipes k ! i) \<longleftrightarrow> holds_end fd_in i k"
  using ok_parts(2,3) [OF assms(1)] assms(2) holders_pos [OF ok_parts(1) [OF assms(1)]] by (simp_all add: exact_def)

lemma pipe_at_ok: "kern_ok k \<Longrightarrow> i < length (k_pipes k) \<Longrightarrow> ends_ok (k_pipes k ! i)"
  using list_all_nth [OF ok_parts(4)] .


text \<open>C23 A write to a pipe is refused with \<open>EPIPE\<close> exactly when no process that runs can read it any more;
  otherwise all bytes are taken at once, whatever waits in the pipe already (it has no bound). This is for systems used as \<open>kern_step\<close> has it: nobody opens
  \<open>/dev/tty\<close>, programs start with a table of open descriptors or without pipes, and a process without a table that has a pipe does not
  end.\<close>

theorem write_refused_without_reader:
  assumes "reaches fs setid k" "live k pid" "ent_get (p_fds (proc_at k pid)) n = Some f" "fd_out f = Some (Pip i)"
  shows "(fst (fd_write_pipe pid n b k) = Inl EPIPE \<longleftrightarrow> \<not> holds_end fd_in i k) \<and>
    (holds_end fd_in i k \<longrightarrow> (\<exists>d. fst (fd_write_pipe pid n b k) = Inr (length b, d)))"
proof -
  note ok = reaches_ok [OF assms(1)]
  have i: "i < length (k_pipes k)" using ok_held(2) [OF ok assms(2,3)] assms(4) by (simp add: fd_ok_def stream_ok_def)
  have "holds_end fd_out i k" using assms(2-4) by (auto simp: holds_end_def)
  then have "0 < pi_refs (k_pipes k ! i)" using count_pos(1) [OF ok i] by simp
  then have "pi_shut (k_pipes k ! i) \<longleftrightarrow> \<not> holds_end fd_in i k"
    using pipe_at_ok [OF ok i] count_pos(2) [OF ok i] by (auto simp: ends_ok_def)
  then show ?thesis using assms(3,4)
    by (simp add: fd_write_pipe_def kop_simps pipe_of_run pipe_wr_def split: prod.split list.split)
qed


section \<open>Calls on descriptors\<close>

text \<open>A copy of a descriptor is a descriptor of its own: it has the streams, the path and the access of the
  first, but starts at position 0 and without the mark to close on replacement; the other descriptors are as
  they were, and the call returns the place asked for.\<close>

theorem copy_starts_anew:
  assumes "ent_get (p_fds (proc_at k pid)) old = Some f" "nu \<noteq> old"
  shows "fst (clone_fd pid old (Some nu) k) = Inr nu \<and>
    ent_get (p_fds (proc_at (snd (clone_fd pid old (Some nu) k)) pid)) =
      (ent_get (p_fds (proc_at k pid)))(nu \<mapsto> f\<lparr>fd_pos := 0, fd_clo := False\<rparr>)"
  using assms by (cases f) (simp add: clone_fd_def kop_simps get_set new_fd_def split: option.split)

lemma fold_del_skip: "n \<notin> fst ` set c \<Longrightarrow> fold (\<lambda>(n, f). ent_del n) c ((n, f) # e) = (n, f) # fold (\<lambda>(n, f). ent_del n) c e"
  by (induction c arbitrary: e) auto

lemma fold_del: "ents_ok e \<Longrightarrow> fold (\<lambda>(n, f). ent_del n) (filter P e) e = filter (\<lambda>x. \<not> P x) e"
proof (induction e)
  case (Cons x e)
  obtain n f where x: "x = (n, f)" by (cases x)
  have "n \<notin> fst ` set (filter P e)" "ents_ok e" using Cons.prems x by (auto simp: ents_ok_def)
  then show ?case using Cons.IH x by (simp add: fold_del_skip)
qed simp

lemma fold_close_fds: "p_fds (proc_at (fold (\<lambda>(n, f). del_fd pid n \<circ> release_fd f) clo k) pid) =
    fold (\<lambda>(n, f). ent_del n) clo (p_fds (proc_at k pid))"
  by (induction clo arbitrary: k) auto

text \<open>The replacement of a program's image closes exactly the descriptors marked for it, keeps the others with
  their positions, and takes over the identity that it is given.\<close>

theorem exec_closes_marked:
  assumes "reaches fs setid k" "live k pid"
  shows "(let p = proc_at (snd (exec_replace pid path argv env c k)) pid in
    p_fds p = filter (\<lambda>(n, f). \<not> fd_clo f) (p_fds (proc_at k pid)) \<and> p_env p = env \<and> p_argv p = argv \<and>
    p_cred p = fullCred c \<and> p_fsuid p = credUid (fullCred c))"
proof -
  have "ents_ok (p_fds (proc_at k pid))"
    using live_ok [OF ok_parts(1) [OF reaches_ok [OF assms(1)]] assms(2)] by (simp add: proc_ok_def)
  then have "fold (\<lambda>(n, f). ent_del n) (filter (\<lambda>(n, f). fd_clo f) (p_fds (proc_at k pid))) (p_fds (proc_at k pid)) =
      filter (\<lambda>(n, f). \<not> fd_clo f) (p_fds (proc_at k pid))"
    using fold_del [of "p_fds (proc_at k pid)" "\<lambda>(n, f). fd_clo f"] by (simp add: case_prod_unfold)
  then show ?thesis by (simp add: exec_replace_def kop_simps fold_close_fds)
qed

section \<open>Signals\<close>

lemma signal_cred [simp]: "p_cred (snd (signal s p)) = p_cred p" "p_cred (proc_end c p) = p_cred p"
  by (simp_all add: signal_def proc_end_def)

lemma who_frame: "p_cred p = p_cred q \<Longrightarrow> is_root p = is_root q \<and> real_uid p = real_uid q"
  by (simp add: is_root_def real_uid_def)

text \<open>What a call that signals leaves alone: the identities of all, and those who may not be signalled.\<close>

definition spared :: "int \<Rightarrow> kern \<Rightarrow> kern \<Rightarrow> bool" where
  "spared by k k' \<longleftrightarrow> (\<forall>q. p_cred (proc_at k' q) = p_cred (proc_at k q)) \<and>
     (\<forall>q. q = 1 \<or> \<not> is_root (proc_at k by) \<and> real_uid (proc_at k by) \<noteq> real_uid (proc_at k q) \<longrightarrow> proc_at k' q = proc_at k q)"

lemma kill_one_effect:
  "snd (kill_one sig by pid j) = j \<or>
   (\<exists>g. snd (kill_one sig by pid j) = upd_proc pid g j \<and> (\<forall>p. p_cred (g p) = p_cred p) \<and> pid \<noteq> 1 \<and>
     (is_root (proc_at j by) \<or> real_uid (proc_at j by) = real_uid (proc_at j pid)))"
proof -
  let ?g = "\<lambda>p. let p' = snd (signal sig p) in if sig = 9 \<or> p_state p' = Sleep then proc_end (128 + int sig) p' else p'"
  have "\<forall>p. p_cred (?g p) = p_cred p" by (simp add: Let_def)
  moreover have "snd (kill_one sig by pid j) = j \<or> snd (kill_one sig by pid j) = upd_proc pid ?g j \<and> pid \<noteq> 1 \<and>
     (is_root (proc_at j by) \<or> real_uid (proc_at j by) = real_uid (proc_at j pid))"
    by (simp add: kill_one_def kop_simps del: upd_frame)
  ultimately show ?thesis by blast
qed

lemma spared_upd:
  assumes "spared by k j" "\<And>p. p_cred (g p) = p_cred p" "pid \<noteq> 1"
    "is_root (proc_at k by) \<or> real_uid (proc_at k by) = real_uid (proc_at k pid)"
  shows "spared by k (upd_proc pid g j)"
proof -
  have s: "p_cred (proc_at j q) = p_cred (proc_at k q)"
      "q = 1 \<or> \<not> is_root (proc_at k by) \<and> real_uid (proc_at k by) \<noteq> real_uid (proc_at k q) \<Longrightarrow> proc_at j q = proc_at k q" for q
    using assms(1) unfolding spared_def by blast+
  show ?thesis unfolding spared_def
  proof (intro conjI allI impI)
    show "p_cred (proc_at (upd_proc pid g j) q) = p_cred (proc_at k q)" for q using assms(2) s(1) by simp
  next
    fix q assume q: "q = 1 \<or> \<not> is_root (proc_at k by) \<and> real_uid (proc_at k by) \<noteq> real_uid (proc_at k q)"
    then have "q \<noteq> pid" using assms(3,4) by blast
    then show "proc_at (upd_proc pid g j) q = proc_at k q" using s(2) [OF q] by simp
  qed
qed

lemma kill_one_spares: "keeps (spared by k) (kill_one sig by pid)"
  unfolding keeps_def
proof (intro allI impI)
  fix j assume j: "spared by k j"
  then have "p_cred (proc_at j q) = p_cred (proc_at k q)" for q unfolding spared_def by blast
  then have w: "is_root (proc_at j q) = is_root (proc_at k q)" "real_uid (proc_at j q) = real_uid (proc_at k q)" for q
    using who_frame by blast+
  show "spared by k (snd (kill_one sig by pid j))"
    using kill_one_effect [of sig "by" pid j] j unfolding w by (metis spared_upd)
qed

text \<open>C26 Nobody, root included, signals process 1; a process without root's rights signals only processes of its own real user, whatever group
  it names; and a signal changes nobody's identity. This holds of refused calls too, which may have signalled some of a group.\<close>

theorem signal_own_processes:
  "p_cred (proc_at (snd (kern_kill target sig by k)) q) = p_cred (proc_at k q) \<and>
    proc_at (snd (kern_kill target sig by k)) 1 = proc_at k 1 \<and>
    (proc_at (snd (kern_kill target sig by k)) q = proc_at k q \<or> is_root (proc_at k by) \<or> real_uid (proc_at k q) = real_uid (proc_at k by))"
proof -
  have "keeps (spared by k) (kern_kill target sig by)"
    unfolding kern_kill_def by (intro keeps_bnd keeps_simple keeps_mapk kill_one_spares)
  then have "spared by k (snd (kern_kill target sig by k))"
    by (rule keepsD) (simp add: spared_def)
  then have "p_cred (proc_at (snd (kern_kill target sig by k)) q) = p_cred (proc_at k q)"
    "\<And>q. q = 1 \<or> \<not> is_root (proc_at k by) \<and> real_uid (proc_at k by) \<noteq> real_uid (proc_at k q) \<Longrightarrow>
      proc_at (snd (kern_kill target sig by k)) q = proc_at k q"
    unfolding spared_def by blast+
  then show ?thesis by metis
qed

section \<open>Waiting\<close>

text \<open>A process that has ended is waited for once: the code is its exit status, the process leaves the table
  and the list of its parent's children, and a second wait finds nothing.\<close>

theorem wait_once:
  assumes "fst (kern_wait pid pr k) = Inr (Some n)" "2 < pid"
  shows "p_code (proc_at k pid) = Some n \<and> pid \<in> set (k_procs k) \<and>
    k_procs (snd (kern_wait pid pr k)) = filter (\<lambda>q. q \<noteq> pid) (k_procs k) \<and>
    pid \<notin> set (p_kids (proc_at (snd (kern_wait pid pr k)) pr)) \<and>
    fst (kern_wait pid pr (snd (kern_wait pid pr k))) = Inl ESRCH"
proof -
  have c: "pid \<in> set (k_procs k)" "p_code (proc_at k pid) = Some n"
      "p_ppid (proc_at k pid) = p_pid (proc_at k pr) \<or> is_root (proc_at k pr)"
    using assms(1) by (auto simp: kern_wait_def kop_simps split: if_splits option.splits)
  then have "snd (kern_wait pid pr k) = reap pid (Some pr) k" by (auto simp: kern_wait_def kop_simps)
  then show ?thesis using c assms(2) by (simp add: reap_def Let_def) (simp add: kern_wait_def kop_simps)
qed

section \<open>New pipes\<close>

lemma pipe_run:
  assumes "sys_pipe pid k = (Inr (rd, wr), k')"
  shows "k_pipes k' = k_pipes k @ [new_pipe\<lparr>pi_refs := 1, pi_rrefs := 1\<rparr>]"
    "kfd (proc_at k pid) = Some rd" "rd < wr" "ent_get (p_fds (proc_at k pid)) wr = None"
    "ent_get (p_fds (proc_at k' pid)) = (ent_get (p_fds (proc_at k pid)))
       (rd \<mapsto> new_fd (Some (Pip (length (k_pipes k)))) None None True False False,
        wr \<mapsto> new_fd None (Some (Pip (length (k_pipes k)))) None False True False)"
    "q \<noteq> pid \<Longrightarrow> proc_at k' q = proc_at k q" "p_held (proc_at k' pid) = p_held (proc_at k pid)"
    "q \<noteq> pid \<Longrightarrow> live k' q = live k q"
proof -
  let ?i = "length (k_pipes k)"
  let ?k1 = "k\<lparr>k_pipes := k_pipes k @ [new_pipe]\<rparr>"
  let ?k2 = "hold_in (Some (Pip ?i)) (set_fd pid rd (new_fd (Some (Pip ?i)) None None True False False) ?k1)"
  let ?k3 = "hold_out (Some (Pip ?i)) (set_fd pid wr (new_fd None (Some (Pip ?i)) None False True False) ?k2)"
  have p1: "proc_at ?k1 q = proc_at k q" for q by (simp add: proc_at_def)
  show rd: "kfd (proc_at k pid) = Some rd"
    using assms by (simp add: sys_pipe_def kop_simps split: option.splits del: proc_at_fd hold_in.simps hold_out.simps)
  have wr: "kfd (proc_at ?k2 pid) = Some wr" and k': "k' = ?k3"
    using assms rd by (simp_all add: sys_pipe_def kop_simps split: option.splits del: proc_at_fd hold_in.simps hold_out.simps)
  show "k_pipes k' = k_pipes k @ [new_pipe\<lparr>pi_refs := 1, pi_rrefs := 1\<rparr>]"
    by (simp add: k' pipe_hold_def pipe_holdR_def new_pipe_def)
  have g: "ent_get (p_fds (proc_at ?k2 pid)) = (ent_get (p_fds (proc_at k pid)))(rd \<mapsto> new_fd (Some (Pip ?i)) None None True False False)"
    by (simp add: p1 get_set del: hold_in.simps)
  show "ent_get (p_fds (proc_at k pid)) wr = None" "rd < wr"
  proof -
    have free: "ent_get (p_fds (proc_at ?k2 pid)) wr = None" and le: "3 \<le> wr" using kfd_free(1,2) [OF wr] by blast+
    have ne: "rd \<noteq> wr" using free unfolding g by (auto split: if_splits)
    then show f: "ent_get (p_fds (proc_at k pid)) wr = None" using free unfolding g by simp
    show "rd < wr" using kfd_free(4) [OF rd le] f ne by (cases "wr < rd") auto
  qed
  show "ent_get (p_fds (proc_at k' pid)) = (ent_get (p_fds (proc_at k pid)))
       (rd \<mapsto> new_fd (Some (Pip (length (k_pipes k)))) None None True False False,
        wr \<mapsto> new_fd None (Some (Pip (length (k_pipes k)))) None False True False)"
    by (simp add: k' p1 get_set del: hold_in.simps hold_out.simps)
  show "q \<noteq> pid \<Longrightarrow> proc_at k' q = proc_at k q" "p_held (proc_at k' pid) = p_held (proc_at k pid)"
    by (simp_all add: k' p1 del: hold_in.simps hold_out.simps)
  show "q \<noteq> pid \<Longrightarrow> live k' q = live k q"
    by (simp add: k' live_def set_fd_def get_set)
qed

text \<open>A new pipe has its read end at the lowest free descriptor from 3 and its write end at a later one, both
  counted once; the other descriptors are as they were.\<close>

theorem pipe_makes_both_ends:
  assumes "sys_pipe pid k = (Inr (rd, wr), k')"
  shows "3 \<le> rd \<and> rd < wr \<and> (\<forall>m. 3 \<le> m \<and> m < rd \<longrightarrow> ent_get (p_fds (proc_at k pid)) m \<noteq> None) \<and>
    ent_get (p_fds (proc_at k pid)) rd = None \<and> ent_get (p_fds (proc_at k pid)) wr = None \<and>
    last (k_pipes k') = new_pipe\<lparr>pi_refs := 1, pi_rrefs := 1\<rparr> \<and>
    (\<forall>m. m \<noteq> rd \<and> m \<noteq> wr \<longrightarrow> ent_get (p_fds (proc_at k' pid)) m = ent_get (p_fds (proc_at k pid)) m) \<and>
    map_option fd_in (ent_get (p_fds (proc_at k' pid)) rd) = Some (Some (Pip (length (k_pipes k)))) \<and>
    map_option fd_out (ent_get (p_fds (proc_at k' pid)) wr) = Some (Some (Pip (length (k_pipes k))))"
  using pipe_run [OF assms] kfd_free [OF pipe_run(2) [OF assms]] by (simp add: new_fd_def)

section \<open>Where the counting fails\<close>

text \<open>When only one descriptor is free, the call that makes a pipe is refused, but its read end stays in the
  table: it is a pipe without a writer that is not shut, so that whoever reads it waits for ever.\<close>

theorem pipe_refused_leaves_reader:
  assumes "kfd (proc_at k pid) = Some rd" "\<And>m. rd < m \<Longrightarrow> m \<le> 255 \<Longrightarrow> ent_get (p_fds (proc_at k pid)) m \<noteq> None"
  shows "(let k' = snd (sys_pipe pid k) in
    fst (sys_pipe pid k) = Inl EMFILE \<and>
    ent_get (p_fds (proc_at k' pid)) rd = Some (new_fd (Some (Pip (length (k_pipes k)))) None None True False False) \<and>
    k_pipes k' = k_pipes k @ [new_pipe\<lparr>pi_rrefs := 1\<rparr>] \<and>
    fst (fd_read_pipe pid rd r k') = Inr [] \<and> pi_w (k_pipes (snd (fd_read_pipe pid rd r k')) ! length (k_pipes k)) = [r])"
proof -
  let ?i = "length (k_pipes k)"
  let ?k1 = "k\<lparr>k_pipes := k_pipes k @ [new_pipe]\<rparr>"
  let ?k2 = "hold_in (Some (Pip ?i)) (set_fd pid rd (new_fd (Some (Pip ?i)) None None True False False) ?k1)"
  have p1: "proc_at ?k1 q = proc_at k q" for q by (simp add: proc_at_def)
  have g: "ent_get (p_fds (proc_at ?k2 pid)) = (ent_get (p_fds (proc_at k pid)))(rd \<mapsto> new_fd (Some (Pip ?i)) None None True False False)"
    by (simp add: p1 get_set del: hold_in.simps)
  have "kfd (proc_at ?k2 pid) = None"
  proof (rule ccontr)
    assume "kfd (proc_at ?k2 pid) \<noteq> None"
    then obtain m where m: "kfd (proc_at ?k2 pid) = Some m" by blast
    have "m \<noteq> rd" "ent_get (p_fds (proc_at k pid)) m = None" "3 \<le> m" "m \<le> 255"
      using kfd_free(1-3) [OF m] unfolding g by (auto split: if_splits)
    then show False using kfd_free(4) [OF assms(1), of m] assms(2) [of m] by (cases "m < rd") auto
  qed
  then have run: "sys_pipe pid k = (Inl EMFILE, ?k2)"
    using assms(1) by (simp add: sys_pipe_def kop_simps p1 del: proc_at_fd hold_in.simps hold_out.simps)
  have pipes: "k_pipes ?k2 = k_pipes k @ [new_pipe\<lparr>pi_rrefs := 1\<rparr>]" by (simp add: pipe_holdR_def new_pipe_def)
  have fd: "ent_get (p_fds (proc_at ?k2 pid)) rd = Some (new_fd (Some (Pip ?i)) None None True False False)" unfolding g by simp
  have in': "fd_in (new_fd (Some (Pip ?i)) None None True False False) = Some (Pip ?i)" by (simp add: new_fd_def)
  have rd: "pipe_rd r (new_pipe\<lparr>pi_rrefs := 1\<rparr>) = (Inr [], new_pipe\<lparr>pi_rrefs := 1, pi_w := [r]\<rparr>)"
    by (simp add: pipe_rd_def kop_simps new_pipe_def)
  have "fd_read_pipe pid rd r ?k2 = (Inr [], ?k2\<lparr>k_pipes := (k_pipes ?k2)[?i := new_pipe\<lparr>pi_rrefs := 1, pi_w := [r]\<rparr>]\<rparr>)"
    unfolding fd_read_pipe_def bnd_get_fd fd option.case pipe_of_run in' stream.case pipes nth_append_length rd prod.case ..
  then show ?thesis unfolding run Let_def fst_conv snd_conv using fd pipes by (simp del: hold_in.simps proc_at_fd)
qed

text \<open>A program started with three streams only, not with a table, releases only those when it ends: the
  ends of a pipe that it made are never given back, so that the pipe is not shut although nobody has it.\<close>

theorem pipe_outlives_its_maker:
  assumes "reaches fs setid k" "live k pid" "\<not> p_held (proc_at k pid)" "no_pipes (p_fds (proc_at k pid))"
    and run: "sys_pipe pid k = (Inr (rd, wr), k1)"
  shows "(let i = length (k_pipes k); k2 = kern_exit pid code k1 in
    k_pipes k2 ! i = new_pipe\<lparr>pi_refs := 1, pi_rrefs := 1\<rparr> \<and> \<not> pi_shut (k_pipes k2 ! i) \<and>
    \<not> holds_end fd_in i k2 \<and> \<not> holds_end fd_out i k2)"
proof -
  note r = pipe_run [OF run]
  let ?fds = "p_fds (proc_at k1 pid)" and ?i = "length (k_pipes k)" and ?k2 = "kern_exit pid code k1"
  have ge: "3 \<le> rd" "3 \<le> wr" using kfd_free(2) [OF r(2)] r(3) by simp_all
  have std: "ent_get ?fds n = ent_get (p_fds (proc_at k pid)) n" if "n < 3" for n
    using r(5) that ge by simp
  have plain: "Option.bind (ent_get ?fds n) fd_in \<noteq> Some (Pip j)" "Option.bind (ent_get ?fds n) fd_out \<noteq> Some (Pip j)"
    if "n < 3" for n j
  proof -
    have "fd_in f \<noteq> Some (Pip j) \<and> fd_out f \<noteq> Some (Pip j)" if "ent_get (p_fds (proc_at k pid)) n = Some f" for f
      using assms(4) that by (auto simp: no_pipes_def ent_get_def dest!: map_of_SomeD)
    then show "Option.bind (ent_get ?fds n) fd_in \<noteq> Some (Pip j)" "Option.bind (ent_get ?fds n) fd_out \<noteq> Some (Pip j)"
      using std [OF that] by (cases "ent_get (p_fds (proc_at k pid)) n"; simp)+
  qed
  have k2: "?k2 = upd_proc pid (\<lambda>p. (proc_end code p)\<lparr>p_done := True\<rparr>) k1"
    using assms(3) r(7) plain by (simp add: kern_exit_def Let_def stream_plain)
  have "\<not> holds_end sel ?i ?k2" if sel: "\<And>f j. fd_ok k f \<Longrightarrow> sel f = Some (Pip j) \<Longrightarrow> j < length (k_pipes k)" for sel
  proof
    assume "holds_end sel ?i ?k2"
    then obtain q n f where q: "live ?k2 q" "ent_get (p_fds (proc_at ?k2 q)) n = Some f" "sel f = Some (Pip ?i)"
      by (auto simp: holds_end_def)
    have ne: "q \<noteq> pid" using q(1) by (auto simp: k2 live_def get_set)
    then have "live k q" "ent_get (p_fds (proc_at k q)) n = Some f"
      using q r(6,8) by (simp_all add: k2 live_def get_set)
    then have "fd_ok k f" using ok_held(2) [OF reaches_ok [OF assms(1)]] by blast
    then show False using sel [OF _ q(3)] by simp
  qed
  then have "\<not> holds_end fd_in ?i ?k2" "\<not> holds_end fd_out ?i ?k2" using rd.sel_ok wr.sel_ok by blast+
  then show ?thesis using r(1) by (simp add: Let_def k2 new_pipe_def)
qed

lemma shut_stays: "i < length (k_pipes k) \<Longrightarrow> pi_shut (k_pipes k ! i) \<Longrightarrow> pi_shut (k_pipes (release_out s k) ! i)"
  by (simp add: stream_cases nth_upd pipe_close_def end_state kop_simps split: option.split stream.split)

lemma last_reader_shuts:
  "i < length (k_pipes k) \<Longrightarrow> pi_rrefs (k_pipes k ! i) = 1 \<Longrightarrow> pi_shut (k_pipes (release_in (Some (Pip i)) k) ! i)"
  by (simp add: pipe_releaseR_def end_state kop_simps)

text \<open>Opening \<open>/dev/tty\<close> in a pipeline gives a descriptor with the pipe of the standard input, which is not
  counted: closing it again shuts the pipe, although the standard input still has it.\<close>

theorem tty_close_shuts_stdin:
  assumes "reaches fs setid k" "live k pid" "ent_get (p_fds (proc_at k pid)) 0 = Some f" "fd_in f = Some (Pip i)"
    "pi_rrefs (k_pipes k ! i) = 1" "kfd (proc_at k pid) = Some n"
  shows "fst (sys_open now pid ''/dev/tty'' flags mode k) = Inr n \<and>
    (let k' = snd (sys_close pid n (snd (sys_open now pid ''/dev/tty'' flags mode k))) in
      pi_shut (k_pipes k' ! i) \<and> live k' pid \<and> ent_get (p_fds (proc_at k' pid)) 0 = Some f)"
proof -
  note ok = reaches_ok [OF assms(1)]
  have i: "i < length (k_pipes k)" using ok_held(2) [OF ok assms(2,3)] assms(4) by (simp add: fd_ok_def stream_ok_def)
  have e: "ents_ok (p_fds (proc_at k pid))" using live_ok [OF ok_parts(1) [OF ok] assms(2)] by (simp add: proc_ok_def)
  have n: "n \<noteq> 0" using kfd_free(2) [OF assms(6)] by simp
  obtain g where o: "sys_open now pid ''/dev/tty'' flags mode k = (Inr n, set_fd pid n g k)" "fd_in g = Some (Pip i)"
    using assms(3,4,6) by (simp add: sys_open_def Let_def kop_simps new_fd_def)
  let ?k = "del_fd pid n (set_fd pid n g k)"
  have "snd (sys_close pid n (set_fd pid n g k)) = release_fd g ?k" by (simp add: sys_close_def kop_simps get_set)
  moreover have "pi_shut (k_pipes (release_fd g ?k) ! i)"
    unfolding release_fd_def o_apply o(2)
    by (rule shut_stays; (rule last_reader_shuts)?) (simp_all add: i assms(5))
  moreover have "ent_get (p_fds (proc_at (release_fd g ?k) pid)) 0 = Some f"
    using e n assms(3) by (simp add: get_del get_set ok_set)
  ultimately show ?thesis using o(1) assms(2) by (simp add: Let_def)
qed

section \<open>Identity of programs\<close>

lemma bnd_Inr: "bnd m f k = (Inr y, k') \<Longrightarrow> \<exists>x j. m k = (Inr x, j) \<and> f x j = (Inr y, k')"
  by (auto simp: bnd_def split: prod.splits sum.splits)

lemma file_at_walk:
  assumes "file_at now pr path k = (Inr (i, q), j)" "vfs_ok (k_fs k)"
  shows "walk 33 (k_fs j) (procFsCred (proc_at k pr)) True (norm path (p_cwd (proc_at k pr))) = Inr (i, q)"
proof -
  let ?p = "proc_at k pr"
  have at: "at now path (p_cwd ?p) (procFsCred ?p) True (k_fs k) = (Inr (i, q), k_fs j)"
    using assms by (auto simp: file_at_def kop_simps on_fs_def split: prod.splits)
  then have w: "walk 33 (k_fs k) (procFsCred ?p) True (norm path (p_cwd ?p)) = Inr (i, q)"
    and j: "k_fs j = (if q = ''/'' then k_fs k else set_node i (\<lambda>v. v\<lparr>n_at := now\<rparr>) (k_fs k))"
    by (auto simp: at_run simp del: walk.simps split: sum.splits)
  have "extends (k_fs k) (k_fs j)" unfolding j by (auto intro: extends_set_node extends_access [OF access_refl])
  then show ?thesis using walk_extends w assms(2) by (auto simp: vfs_ok_def)
qed

lemma start_found:
  assumes ok: "kern_ok k" and run: "start now name argv pr opt k = (Inr pid, k')"
  obtains j path i q r where "inv k j" "launch path (name # argv) pr opt i r j = (Inr pid, k')"
    "walk 33 (k_fs j) (procFsCred (proc_at k pr)) True (norm path (p_cwd (proc_at k pr))) = Inr (i, q)" "n_body (node (k_fs j) i) = Reg r"
proof -
  have k: "inv k k" using ok by (auto simp: inv_def intro!: exI [of _ "k_fs k"])
  from bnd_Inr [OF run [unfolded start_def]] obtain path j1 where 1: "which now pr name k = (Inr path, j1)"
      "bnd (file_at now pr path) (\<lambda>(i, _). bnd (asks (\<lambda>k. n_body (node (k_fs k) i))) (\<lambda>b.
        case b of Reg r \<Rightarrow> launch path (name # argv) pr opt i r | _ \<Rightarrow> bad ENOEXEC)) j1 = (Inr pid, k')" by blast
  have j1: "inv k j1" using keepsD [OF which_keeps k, of now pr name] 1(1) by simp
  from bnd_Inr [OF 1(2)] obtain i q j where 2: "file_at now pr path j1 = (Inr (i, q), j)"
      "bnd (asks (\<lambda>k. n_body (node (k_fs k) i))) (\<lambda>b.
        case b of Reg r \<Rightarrow> launch path (name # argv) pr opt i r | _ \<Rightarrow> bad ENOEXEC) j = (Inr pid, k')" by fast
  have j: "inv k j" using keepsD [OF file_keeps(1) j1, of now pr path] 2(1) by simp
  obtain r where "launch path (name # argv) pr opt i r j = (Inr pid, k')" "n_body (node (k_fs j) i) = Reg r"
    using 2(2) by (auto simp: kop_simps split: body.splits)
  moreover have "vfs_ok (k_fs j1)" using j1 ok_parts(5) by (simp add: inv_def)
  ultimately show thesis using that j file_at_walk [OF 2(1)] inv_proc [OF j1, of pr] by metis
qed

lemma inv_setid: "inv k j \<Longrightarrow> k_setid j = k_setid k"
  by (auto simp: inv_def)

lemma start_proc_who [simp]: "p_cred (start_proc p pid path argv opt c) = c" "p_ppid (start_proc p pid path argv opt c) = p_pid p"
  "p_mask (start_proc p pid path argv opt c) = p_mask p"
  by (simp_all add: start_proc_def Let_def new_proc_def split: option.split)

lemma executable_ids:
  assumes "executableCred s n r base = Inr c"
  shows "c_ruid c = c_ruid (fullCred base) \<and> c_rgid c = c_rgid (fullCred base) \<and> c_groups c = c_groups (fullCred base) \<and>
    (if s \<and> n_mode n AND 0x800 \<noteq> 0 then c_euid c = Some (n_uid n) \<and> c_suid c = Some (n_uid n)
     else c_euid c = c_euid (fullCred base) \<and> c_suid c = c_suid (fullCred base)) \<and>
    (if s \<and> n_mode n AND 0x400 \<noteq> 0 then c_egid c = Some (n_gid n) \<and> c_sgid c = Some (n_gid n)
     else c_egid c = c_egid (fullCred base) \<and> c_sgid c = c_sgid (fullCred base))"
proof -
  have "n_mode n AND 0x800 = (n_mode n AND 0xc00) AND 0x800" "n_mode n AND 0x400 = (n_mode n AND 0xc00) AND 0x400"
    by (simp_all add: and.assoc)
  then have "n_mode n AND 0x800 = 0 \<and> n_mode n AND 0x400 = 0" if "n_mode n AND 0xc00 = 0" using that by (simp only: zero_and_eq simp_thms)
  then show ?thesis using assms by (auto simp: executableCred_def Let_def split: if_splits)
qed

text \<open>C25 A program that starts gets a number that no process had, its parent's number and file mode mask, and its parent's real user, real group and groups. Its
  path leads to a regular file, and that file decides who it is: when the system honours set-id bits and the file has the set-user bit,
  the effective and the saved user are the file's owner, otherwise those of the parent; and so for the group. The program must start as the
  counting of pipe ends supposes: with a table of descriptors whose pipes are open, or with three streams that are no pipes
  (\<open>start_fits\<close>; the shell starts a pipeline otherwise), in a system that was so used before (\<open>kern_step\<close>).\<close>

theorem start_identity:
  assumes "reaches fs setid k" "live k pr" "start_fits k pr opt" "start now name argv pr opt k = (Inr pid, k')"
  shows "ent_get (k_objs k) pid = None \<and> pid \<in> set (k_procs k') \<and> pid \<in> set (p_kids (proc_at k' pr)) \<and>
    (let p = proc_at k' pid; c = p_cred p; b = fullCred (p_cred (proc_at k pr)) in
      p_ppid p = p_pid (proc_at k pr) \<and> p_mask p = p_mask (proc_at k pr) \<and>
      c_ruid c = c_ruid b \<and> c_rgid c = c_rgid b \<and> c_groups c = c_groups b \<and>
      (\<exists>i q r. walk 33 (k_fs k') (procFsCred (proc_at k pr)) True (norm (p_cmd p) (p_cwd (proc_at k pr))) = Inr (i, q) \<and>
        (let v = node (k_fs k') i in n_body v = Reg r \<and>
          (if k_setid k \<and> n_mode v AND 0x800 \<noteq> 0 then c_euid c = Some (n_uid v) \<and> c_suid c = Some (n_uid v)
           else c_euid c = c_euid b \<and> c_suid c = c_suid b) \<and>
          (if k_setid k \<and> n_mode v AND 0x400 \<noteq> 0 then c_egid c = Some (n_gid v) \<and> c_sgid c = Some (n_gid v)
           else c_egid c = c_egid b \<and> c_sgid c = c_sgid b))))"
proof -
  note ok = reaches_ok [OF assms(1)]
  obtain j path i q r where j: "inv k j" and run: "launch path (name # argv) pr opt i r j = (Inr pid, k')"
    and leads: "walk 33 (k_fs j) (procFsCred (proc_at k pr)) True (norm path (p_cwd (proc_at k pr))) = Inr (i, q)" "n_body (node (k_fs j) i) = Reg r"
    by (rule start_found [OF ok assms(4)])
  have fit: "start_fits j pr opt" using start_fits_cong [OF j] assms(3) by simp
  have fresh: "ent_get (k_objs k) (k_seq k) = None" by (rule fresh_pid [OF ok_parts(1) [OF ok]])
  obtain cred where c: "executableCred (k_setid k) (node (k_fs j) i) r (p_cred (proc_at k pr)) = Inr cred" and pid: "pid = k_seq k"
    and k': "k' = (let q = start_proc (proc_at k pr) (k_seq k) path (name # argv) opt cred in
      upd_proc pr (\<lambda>p. p\<lparr>p_kids := p_kids p @ [k_seq k]\<rparr>) (add_proc q (hold_all (p_fds q) j)))"
    using run launch_run [OF fit] inv_same(3) [OF j] inv_setid [OF j] inv_proc [OF j]
    by (auto simp: Let_def split: sum.splits)
  have ne: "pr \<noteq> pid" using live_known [OF assms(2)] fresh pid by (auto simp: known_def)
  let ?q = "start_proc (proc_at k pr) (k_seq k) path (name # argv) opt cred"
  have at: "proc_at (add_proc ?q (hold_all (p_fds ?q) j)) q = (if q = pid then ?q else proc_at k q)" for q
    using inv_same(3) [OF j] inv_proc [OF j, of q] by (simp add: proc_at_def add_proc_def get_set pid)
  have new: "proc_at k' pid = ?q" "p_kids (proc_at k' pr) = p_kids (proc_at k pr) @ [pid]"
    "k_fs k' = k_fs j" "pid \<in> set (k_procs k')"
    using ne by (simp_all add: k' Let_def at pid) (simp_all add: add_proc_def inv_same(3) [OF j])
  have "p_cmd ?q = path" by (simp add: start_proc_def Let_def new_proc_def split: option.split)
  then show ?thesis
    using executable_ids [OF c] fresh pid leads new unfolding Let_def by (simp del: walk.simps)
qed

section \<open>A system in use\<close>

text \<open>A file system with one program, two sessions of a user (processes 2 and 3), a pipe of the first.\<close>

definition prog_fs :: vfs where
  "prog_fs = snd (mkfile 2 ''/x'' [7, 8, 9] ''/'' root_cred 0x1ed (new_vfs 0 4096))"

definition plain_io :: io where
  "plain_io = \<lparr>io_sin = Other 0, io_sout = Other 1, io_serr = Other 2\<rparr>"

definition sys0 :: kern where
  "sys0 = new_kern prog_fs False"

definition sys1 :: kern where
  "sys1 = snd (session plain_io (p_cred guest_proc) ''/'' [] sys0)"

definition sys2 :: kern where
  "sys2 = snd (session plain_io (p_cred guest_proc) ''/'' [] sys1)"

definition sys3 :: kern where
  "sys3 = snd (sys_pipe 2 sys2)"

definition sys4 :: kern where
  "sys4 = snd (fd_read_pipe 2 3 9 sys3)"

lemma prog_ok: "vfs_ok prog_fs"
  unfolding prog_fs_def by (intro keepsD [OF mkfile_keeps] new_vfs_ok)

lemma live_iff: "live k pid = (case ent_get (k_objs k) pid of Some p \<Rightarrow> \<not> p_done p | None \<Rightarrow> False)"
  by (rule live_def)

lemma reaches_step: "reaches fs setid k \<Longrightarrow> kern_step k k' \<Longrightarrow> reaches fs setid k'"
  by (auto simp: reaches_def intro: rtranclp.rtrancl_into_rtrancl)

lemma sys_reached: "reaches prog_fs False sys0" "reaches prog_fs False sys1" "reaches prog_fs False sys2"
  "reaches prog_fs False sys3" "reaches prog_fs False sys4"
proof -
  show 0: "reaches prog_fs False sys0" by (simp add: reaches_def prog_ok sys0_def)
  have "k_objs sys0 = []" by code_simp
  then show 1: "reaches prog_fs False sys1" unfolding sys1_def
    by (intro reaches_step [OF 0] step_session) (simp_all add: plain_io_def)
  have "1 \<in> set (k_procs sys1)" by code_simp
  then show 2: "reaches prog_fs False sys2" unfolding sys2_def
    by (intro reaches_step [OF 1] step_session) (simp_all add: plain_io_def)
  have "live sys2 2" by code_simp
  then show 3: "reaches prog_fs False sys3" unfolding sys3_def
    by (intro reaches_step [OF 2] step_pipe)
  have "live sys3 2" by code_simp
  then show 4: "reaches prog_fs False sys4" unfolding sys4_def
    by (intro reaches_step [OF 3] step_read)
qed


theorem write_refused_without_reader_witness:
  "fst (fd_write_pipe 2 4 [1] sys3) = Inl EPIPE \<longleftrightarrow> \<not> holds_end fd_in 0 sys3"
proof -
  have l: "live sys3 2" by code_simp
  have "map_option fd_out (ent_get (p_fds (proc_at sys3 2)) 4) = Some (Some (Pip 0))" by code_simp
  then obtain f where "ent_get (p_fds (proc_at sys3 2)) 4 = Some f" "fd_out f = Some (Pip 0)" by auto
  from write_refused_without_reader [OF sys_reached(4) l this, of "[1]"] show ?thesis by blast
qed


theorem copy_starts_anew_witness:
  "fst (clone_fd 2 3 (Some 7) sys3) = Inr 7"
proof -
  have "ent_get (p_fds (proc_at sys3 2)) 3 \<noteq> None" by code_simp
  then obtain f where "ent_get (p_fds (proc_at sys3 2)) 3 = Some f" by blast
  from copy_starts_anew [OF this, of 7] show ?thesis by simp
qed

theorem exec_closes_marked_witness:
  "p_fds (proc_at (snd (exec_replace 2 ''/x'' [''x''] [] rootCred (snd (sys_fcntl 2 3 2 1 sys3)))) 2) =
    filter (\<lambda>(n, f). \<not> fd_clo f) (p_fds (proc_at (snd (sys_fcntl 2 3 2 1 sys3)) 2))"
proof -
  have l: "live sys3 2" "live (snd (sys_fcntl 2 3 2 1 sys3)) 2" by code_simp+
  have "reaches prog_fs False (snd (sys_fcntl 2 3 2 1 sys3))"
    by (intro reaches_step [OF sys_reached(4)] step_fcntl l)
  from exec_closes_marked [OF this l(2)] show ?thesis unfolding Let_def by blast
qed

theorem wait_once_witness:
  "fst (kern_wait 3 1 (snd (kern_wait 3 1 (kern_exit 3 5 sys3)))) = Inl ESRCH"
proof -
  have "fst (kern_wait 3 1 (kern_exit 3 5 sys3)) = Inr (Some 5)" by code_simp
  from wait_once [OF this] show ?thesis by simp
qed

theorem pipe_makes_both_ends_witness:
  "last (k_pipes sys3) = new_pipe\<lparr>pi_refs := 1, pi_rrefs := 1\<rparr>"
proof -
  have "fst (sys_pipe 2 sys2) = Inr (3, 4)" by code_simp
  from pipe_makes_both_ends [OF run_pair [OF this]] show ?thesis by (simp add: sys3_def)
qed

text \<open>A process with one free descriptor.\<close>

definition full_fds :: "(int \<times> fd) list" where
  "full_fds = map (\<lambda>n. (n, new_fd None None None False False False)) [4..255]"

lemma full_get: "ent_get full_fds n = (if 4 \<le> n \<and> n \<le> 255 then Some (new_fd None None None False False False) else None)"
proof -
  have "map_of (map (\<lambda>n. (n, f n)) xs) n = (if n \<in> set xs then Some (f n) else None)" for xs :: "int list" and f :: "int \<Rightarrow> fd"
    by (induction xs) auto
  then show ?thesis by (simp only: full_fds_def ent_get_def set_upto atLeastAtMost_iff)
qed

theorem pipe_refused_leaves_reader_witness:
  "fst (sys_pipe 2 (upd_proc 2 (\<lambda>p. p\<lparr>p_fds := full_fds\<rparr>) sys2)) = Inl EMFILE"
proof -
  let ?k = "upd_proc 2 (\<lambda>p. p\<lparr>p_fds := full_fds\<rparr>) sys2"
  have fds: "p_fds (proc_at ?k 2) = full_fds" by simp
  have f3: "find P [3..255] = Some 3" if "P 3" for P :: "int \<Rightarrow> bool"
    by (simp only: upto_rec1 [of 3 255] find.simps that simp_thms if_True numeral_le_iff semiring_norm)
  have "kfd (proc_at ?k 2) = Some 3" unfolding kfd_def fds full_get by (rule f3) simp
  from pipe_refused_leaves_reader [OF this] show ?thesis unfolding Let_def fds full_get by simp
qed

theorem pipe_outlives_its_maker_witness:
  "\<not> pi_shut (k_pipes (kern_exit 2 0 sys3) ! 0)"
proof -
  have l: "live sys2 2" "\<not> p_held (proc_at sys2 2)" "length (k_pipes sys2) = 0" by code_simp+
  have "p_fds (proc_at sys2 2) = p_fds (new_proc 2 1 2 ''thsh'' [''thsh''] ''/'' [] rootCred plain_io)" by code_simp
  then have "no_pipes (p_fds (proc_at sys2 2))" by (simp add: no_pipes_def new_proc_def new_fd_def plain_io_def)
  moreover have "fst (sys_pipe 2 sys2) = Inr (3, 4)" by code_simp
  ultimately show ?thesis
    using pipe_outlives_its_maker [OF sys_reached(3) l(1,2) _ run_pair] l(3)
    unfolding Let_def sys3_def by metis
qed

text \<open>A program that starts with a table whose standard input is the pipe.\<close>

definition pipe_fds :: "(int \<times> fd) list" where
  "pipe_fds = [(0, new_fd (Some (Pip 0)) None None True False False), (1, new_fd None (Some (Other 1)) None False True False)]"

definition pipe_opt :: start_opt where
  "pipe_opt = \<lparr>o_sin = None, o_sout = None, o_serr = None, o_fds = Some pipe_fds, o_pgid = None, o_cwd = None, o_env = None\<rparr>"

definition sys5 :: kern where
  "sys5 = snd (start 5 ''/x'' [] 2 pipe_opt sys3)"

definition sys6 :: kern where
  "sys6 = snd (sys_close 2 3 sys5)"

lemma pipe_fits: "start_fits sys3 2 pipe_opt"
proof -
  have "length (k_pipes sys3) = 1" "pi_rrefs (k_pipes sys3 ! 0) = 1" by code_simp+
  then show ?thesis
    by (simp add: start_fits_def pipe_opt_def open_ends_def pipe_fds_def ents_ok_def fd_ok_def stream_ok_def new_fd_def
        held_def uses_def)
qed

lemma live_sys3: "live sys3 2"
  by code_simp

lemma sys_started: "reaches prog_fs False sys5" "reaches prog_fs False sys6"
proof -
  show 5: "reaches prog_fs False sys5" unfolding sys5_def
    by (intro reaches_step [OF sys_reached(4)] step_start live_sys3 pipe_fits)
  have "live sys5 2" by code_simp
  then show "reaches prog_fs False sys6" unfolding sys6_def by (intro reaches_step [OF 5] step_close)
qed

theorem start_identity_witness:
  "ent_get (k_objs sys3) 4 = None \<and> 4 \<in> set (p_kids (proc_at sys5 2))"
proof -
  have "fst (start 5 ''/x'' [] 2 pipe_opt sys3) = Inr 4" by code_simp
  from start_identity [OF sys_reached(4) live_sys3 pipe_fits run_pair [OF this]] show ?thesis unfolding sys5_def by blast
qed

theorem tty_close_shuts_stdin_witness:
  "pi_shut (k_pipes (snd (sys_close 4 3 (snd (sys_open 5 4 ''/dev/tty'' ''r'' 0 sys6)))) ! 0)"
proof -
  have l: "live sys6 4" "kfd (proc_at sys6 4) = Some 3" "pi_rrefs (k_pipes sys6 ! 0) = 1" by code_simp+
  have "map_option fd_in (ent_get (p_fds (proc_at sys6 4)) 0) = Some (Some (Pip 0))" by code_simp
  then obtain f where "ent_get (p_fds (proc_at sys6 4)) 0 = Some f" "fd_in f = Some (Pip 0)" by auto
  from tty_close_shuts_stdin [OF sys_started(2) l(1) this l(3,2)] show ?thesis unfolding Let_def by blast
qed

end
