(* ===== verification/ByteOrder.thy ===== *)
theory ByteOrder
  imports Prelude
begin

text \<open>
  The byte order of integers: the swaps of \<^verbatim>\<open>linux/swab.h\<close>, the conversions of the C library (\<^verbatim>\<open>endian.h\<close>,
  \<^verbatim>\<open>byteswap.h\<close>) and of \<^verbatim>\<open>linux/byteorder\<close>, and the loads and stores of \<^verbatim>\<open>openssl/byteorder.h\<close>. They are
  compared with what they are for: the order of the bytes in memory.
\<close>

section \<open>Swaps\<close>

definition constant_swab16 :: "u16 \<Rightarrow> u16" where
  "constant_swab16 x =
     push_bit 8 (x AND 0xff) OR
     drop_bit 8 (x AND 0xff00)"

definition constant_swab32 :: "u32 \<Rightarrow> u32" where
  "constant_swab32 x =
     push_bit 24 (x AND 0xff) OR
     push_bit 8 (x AND 0xff00) OR
     drop_bit 8 (x AND 0xff0000) OR
     drop_bit 24 (x AND 0xff000000)"

definition constant_swab64 :: "u64 \<Rightarrow> u64" where
  "constant_swab64 x =
     push_bit 56 (x AND 0xff) OR
     push_bit 40 (x AND 0xff00) OR
     push_bit 24 (x AND 0xff0000) OR
     push_bit 8 (x AND 0xff000000) OR
     drop_bit 8 (x AND 0xff00000000) OR
     drop_bit 24 (x AND 0xff0000000000) OR
     drop_bit 40 (x AND 0xff000000000000) OR
     drop_bit 56 (x AND 0xff00000000000000)"

definition constant_swahw32 :: "u32 \<Rightarrow> u32" where
  "constant_swahw32 x = push_bit 16 (x AND 0xffff) OR drop_bit 16 (x AND 0xffff0000)"

definition constant_swahb32 :: "u32 \<Rightarrow> u32" where
  "constant_swahb32 x = push_bit 8 (x AND 0x00ff00ff) OR drop_bit 8 (x AND 0xff00ff00)"

text \<open>The functions, where no architecture version is defined; \<open>thru32\<close> is \<open>__SWAB_64_THRU_32__\<close>.\<close>

definition fswab16 :: "u16 \<Rightarrow> u16" where
  "fswab16 val = constant_swab16 val"

definition fswab32 :: "u32 \<Rightarrow> u32" where
  "fswab32 val = constant_swab32 val"

definition fswab64 :: "bool \<Rightarrow> u64 \<Rightarrow> u64" where
  "fswab64 thru32 val =
     (if thru32 then
        (let h = ucast (drop_bit 32 val) :: u32; l = ucast (val AND (push_bit 32 1 - 1)) :: u32
         in push_bit 32 (ucast (fswab32 l)) OR ucast (fswab32 h))
      else constant_swab64 val)"

definition fswahw32 :: "u32 \<Rightarrow> u32" where
  "fswahw32 val = constant_swahw32 val"

definition fswahb32 :: "u32 \<Rightarrow> u32" where
  "fswahb32 val = constant_swahb32 val"

text \<open>The macros choose by \<open>__builtin_constant_p\<close>, here \<open>cst\<close>.\<close>

definition swab16 :: "bool \<Rightarrow> u16 \<Rightarrow> u16" where
  "swab16 cst x = (if cst then constant_swab16 x else fswab16 x)"

definition swab32 :: "bool \<Rightarrow> u32 \<Rightarrow> u32" where
  "swab32 cst x = (if cst then constant_swab32 x else fswab32 x)"

definition swab64 :: "bool \<Rightarrow> bool \<Rightarrow> u64 \<Rightarrow> u64" where
  "swab64 thru32 cst x = (if cst then constant_swab64 x else fswab64 thru32 x)"

definition swab :: "bool \<Rightarrow> u64 \<Rightarrow> u64" where
  "swab cst y = swab64 False cst y"

definition swahw32 :: "bool \<Rightarrow> u32 \<Rightarrow> u32" where
  "swahw32 cst x = (if cst then constant_swahw32 x else fswahw32 x)"

definition swahb32 :: "bool \<Rightarrow> u32 \<Rightarrow> u32" where
  "swahb32 cst x = (if cst then constant_swahb32 x else fswahb32 x)"

text \<open>Through a pointer, and in place: \<open>m\<close> is the memory of values of this type.\<close>

definition swab16p :: "('p \<Rightarrow> u16) \<Rightarrow> 'p \<Rightarrow> u16" where
  "swab16p m p = swab16 False (m p)"

definition swab16s :: "('p \<Rightarrow> u16) \<Rightarrow> 'p \<Rightarrow> ('p \<Rightarrow> u16)" where
  "swab16s m p = m(p := swab16p m p)"

definition swab32p :: "('p \<Rightarrow> u32) \<Rightarrow> 'p \<Rightarrow> u32" where
  "swab32p m p = swab32 False (m p)"

definition swab32s :: "('p \<Rightarrow> u32) \<Rightarrow> 'p \<Rightarrow> ('p \<Rightarrow> u32)" where
  "swab32s m p = m(p := swab32p m p)"

definition swab64p :: "bool \<Rightarrow> ('p \<Rightarrow> u64) \<Rightarrow> 'p \<Rightarrow> u64" where
  "swab64p thru32 m p = swab64 thru32 False (m p)"

definition swab64s :: "bool \<Rightarrow> ('p \<Rightarrow> u64) \<Rightarrow> 'p \<Rightarrow> ('p \<Rightarrow> u64)" where
  "swab64s thru32 m p = m(p := swab64p thru32 m p)"

definition swahw32p :: "('p \<Rightarrow> u32) \<Rightarrow> 'p \<Rightarrow> u32" where
  "swahw32p m p = swahw32 False (m p)"

definition swahw32s :: "('p \<Rightarrow> u32) \<Rightarrow> 'p \<Rightarrow> ('p \<Rightarrow> u32)" where
  "swahw32s m p = m(p := swahw32p m p)"

definition swahb32p :: "('p \<Rightarrow> u32) \<Rightarrow> 'p \<Rightarrow> u32" where
  "swahb32p m p = swahb32 False (m p)"

definition swahb32s :: "('p \<Rightarrow> u32) \<Rightarrow> 'p \<Rightarrow> ('p \<Rightarrow> u32)" where
  "swahb32s m p = m(p := swahb32p m p)"

section \<open>The C library\<close>

definition bswap16 :: "u16 \<Rightarrow> u16" where
  "bswap16 x = push_bit 8 x OR drop_bit 8 x"

definition bswap32 :: "u32 \<Rightarrow> u32" where
  "bswap32 x = drop_bit 24 x OR drop_bit 8 x AND 0xff00 OR push_bit 8 x AND 0xff0000 OR push_bit 24 x"

definition bswap64 :: "u64 \<Rightarrow> u64" where
  "bswap64 x = push_bit 32 (ucast (bswap32 (ucast x)) + 0) OR ucast (bswap32 (ucast (drop_bit 32 x)))"

definition bswap_16 :: "u16 \<Rightarrow> u16" where
  "bswap_16 x = push_bit 8 x OR drop_bit 8 x"

definition bswap_32 :: "u32 \<Rightarrow> u32" where
  "bswap_32 x = drop_bit 24 x OR drop_bit 8 x AND 0xff00 OR push_bit 8 x AND 0xff0000 OR push_bit 24 x"

definition bswap_64 :: "u64 \<Rightarrow> u64" where
  "bswap_64 x = push_bit 32 (ucast (bswap_32 (ucast x)) + 0) OR ucast (bswap_32 (ucast (drop_bit 32 x)))"

text \<open>The conversions of \<^verbatim>\<open>endian.h\<close> on a host that is big-endian or not.\<close>

definition htobe16 :: "bool \<Rightarrow> u16 \<Rightarrow> u16" where
  "htobe16 big x = (if big then x else bswap16 x)"

definition be16toh :: "bool \<Rightarrow> u16 \<Rightarrow> u16" where
  "be16toh big x = (if big then x else bswap16 x)"

definition htole16 :: "bool \<Rightarrow> u16 \<Rightarrow> u16" where
  "htole16 big x = (if big then bswap16 x else x)"

definition le16toh :: "bool \<Rightarrow> u16 \<Rightarrow> u16" where
  "le16toh big x = (if big then bswap16 x else x)"

definition htobe32 :: "bool \<Rightarrow> u32 \<Rightarrow> u32" where
  "htobe32 big x = (if big then x else bswap32 x)"

definition be32toh :: "bool \<Rightarrow> u32 \<Rightarrow> u32" where
  "be32toh big x = (if big then x else bswap32 x)"

definition htole32 :: "bool \<Rightarrow> u32 \<Rightarrow> u32" where
  "htole32 big x = (if big then bswap32 x else x)"

definition le32toh :: "bool \<Rightarrow> u32 \<Rightarrow> u32" where
  "le32toh big x = (if big then bswap32 x else x)"

definition htobe64 :: "bool \<Rightarrow> u64 \<Rightarrow> u64" where
  "htobe64 big x = (if big then x else bswap64 x)"

definition be64toh :: "bool \<Rightarrow> u64 \<Rightarrow> u64" where
  "be64toh big x = (if big then x else bswap64 x)"

definition htole64 :: "bool \<Rightarrow> u64 \<Rightarrow> u64" where
  "htole64 big x = (if big then bswap64 x else x)"

definition le64toh :: "bool \<Rightarrow> u64 \<Rightarrow> u64" where
  "le64toh big x = (if big then bswap64 x else x)"

section \<open>The kernel headers of byte order\<close>

text \<open>\<^verbatim>\<open>linux/byteorder/little_endian.h\<close> and \<^verbatim>\<open>big_endian.h\<close>, the macros and the functions through a pointer.\<close>

definition little_cpu_to_le64 :: "bool \<Rightarrow> u64 \<Rightarrow> u64" where
  "little_cpu_to_le64 cst x = x"

definition little_cpu_to_le64p :: "('p \<Rightarrow> u64) \<Rightarrow> 'p \<Rightarrow> u64" where
  "little_cpu_to_le64p m p = m p"

definition little_le64_to_cpu :: "bool \<Rightarrow> u64 \<Rightarrow> u64" where
  "little_le64_to_cpu cst x = x"

definition little_le64_to_cpup :: "('p \<Rightarrow> u64) \<Rightarrow> 'p \<Rightarrow> u64" where
  "little_le64_to_cpup m p = m p"

definition little_cpu_to_be64 :: "bool \<Rightarrow> u64 \<Rightarrow> u64" where
  "little_cpu_to_be64 cst x = swab64 False cst x"

definition little_cpu_to_be64p :: "('p \<Rightarrow> u64) \<Rightarrow> 'p \<Rightarrow> u64" where
  "little_cpu_to_be64p m p = swab64p False m p"

definition little_be64_to_cpu :: "bool \<Rightarrow> u64 \<Rightarrow> u64" where
  "little_be64_to_cpu cst x = swab64 False cst x"

definition little_be64_to_cpup :: "('p \<Rightarrow> u64) \<Rightarrow> 'p \<Rightarrow> u64" where
  "little_be64_to_cpup m p = swab64p False m p"

definition little_cpu_to_le32 :: "bool \<Rightarrow> u32 \<Rightarrow> u32" where
  "little_cpu_to_le32 cst x = x"

definition little_cpu_to_le32p :: "('p \<Rightarrow> u32) \<Rightarrow> 'p \<Rightarrow> u32" where
  "little_cpu_to_le32p m p = m p"

definition little_le32_to_cpu :: "bool \<Rightarrow> u32 \<Rightarrow> u32" where
  "little_le32_to_cpu cst x = x"

definition little_le32_to_cpup :: "('p \<Rightarrow> u32) \<Rightarrow> 'p \<Rightarrow> u32" where
  "little_le32_to_cpup m p = m p"

definition little_cpu_to_be32 :: "bool \<Rightarrow> u32 \<Rightarrow> u32" where
  "little_cpu_to_be32 cst x = swab32 cst x"

definition little_cpu_to_be32p :: "('p \<Rightarrow> u32) \<Rightarrow> 'p \<Rightarrow> u32" where
  "little_cpu_to_be32p m p = swab32p m p"

definition little_be32_to_cpu :: "bool \<Rightarrow> u32 \<Rightarrow> u32" where
  "little_be32_to_cpu cst x = swab32 cst x"

definition little_be32_to_cpup :: "('p \<Rightarrow> u32) \<Rightarrow> 'p \<Rightarrow> u32" where
  "little_be32_to_cpup m p = swab32p m p"

definition little_cpu_to_le16 :: "bool \<Rightarrow> u16 \<Rightarrow> u16" where
  "little_cpu_to_le16 cst x = x"

definition little_cpu_to_le16p :: "('p \<Rightarrow> u16) \<Rightarrow> 'p \<Rightarrow> u16" where
  "little_cpu_to_le16p m p = m p"

definition little_le16_to_cpu :: "bool \<Rightarrow> u16 \<Rightarrow> u16" where
  "little_le16_to_cpu cst x = x"

definition little_le16_to_cpup :: "('p \<Rightarrow> u16) \<Rightarrow> 'p \<Rightarrow> u16" where
  "little_le16_to_cpup m p = m p"

definition little_cpu_to_be16 :: "bool \<Rightarrow> u16 \<Rightarrow> u16" where
  "little_cpu_to_be16 cst x = swab16 cst x"

definition little_cpu_to_be16p :: "('p \<Rightarrow> u16) \<Rightarrow> 'p \<Rightarrow> u16" where
  "little_cpu_to_be16p m p = swab16p m p"

definition little_be16_to_cpu :: "bool \<Rightarrow> u16 \<Rightarrow> u16" where
  "little_be16_to_cpu cst x = swab16 cst x"

definition little_be16_to_cpup :: "('p \<Rightarrow> u16) \<Rightarrow> 'p \<Rightarrow> u16" where
  "little_be16_to_cpup m p = swab16p m p"

definition big_cpu_to_le64 :: "bool \<Rightarrow> u64 \<Rightarrow> u64" where
  "big_cpu_to_le64 cst x = swab64 False cst x"

definition big_cpu_to_le64p :: "('p \<Rightarrow> u64) \<Rightarrow> 'p \<Rightarrow> u64" where
  "big_cpu_to_le64p m p = swab64p False m p"

definition big_le64_to_cpu :: "bool \<Rightarrow> u64 \<Rightarrow> u64" where
  "big_le64_to_cpu cst x = swab64 False cst x"

definition big_le64_to_cpup :: "('p \<Rightarrow> u64) \<Rightarrow> 'p \<Rightarrow> u64" where
  "big_le64_to_cpup m p = swab64p False m p"

definition big_cpu_to_be64 :: "bool \<Rightarrow> u64 \<Rightarrow> u64" where
  "big_cpu_to_be64 cst x = x"

definition big_cpu_to_be64p :: "('p \<Rightarrow> u64) \<Rightarrow> 'p \<Rightarrow> u64" where
  "big_cpu_to_be64p m p = m p"

definition big_be64_to_cpu :: "bool \<Rightarrow> u64 \<Rightarrow> u64" where
  "big_be64_to_cpu cst x = x"

definition big_be64_to_cpup :: "('p \<Rightarrow> u64) \<Rightarrow> 'p \<Rightarrow> u64" where
  "big_be64_to_cpup m p = m p"

definition big_cpu_to_le32 :: "bool \<Rightarrow> u32 \<Rightarrow> u32" where
  "big_cpu_to_le32 cst x = swab32 cst x"

definition big_cpu_to_le32p :: "('p \<Rightarrow> u32) \<Rightarrow> 'p \<Rightarrow> u32" where
  "big_cpu_to_le32p m p = swab32p m p"

definition big_le32_to_cpu :: "bool \<Rightarrow> u32 \<Rightarrow> u32" where
  "big_le32_to_cpu cst x = swab32 cst x"

definition big_le32_to_cpup :: "('p \<Rightarrow> u32) \<Rightarrow> 'p \<Rightarrow> u32" where
  "big_le32_to_cpup m p = swab32p m p"

definition big_cpu_to_be32 :: "bool \<Rightarrow> u32 \<Rightarrow> u32" where
  "big_cpu_to_be32 cst x = x"

definition big_cpu_to_be32p :: "('p \<Rightarrow> u32) \<Rightarrow> 'p \<Rightarrow> u32" where
  "big_cpu_to_be32p m p = m p"

definition big_be32_to_cpu :: "bool \<Rightarrow> u32 \<Rightarrow> u32" where
  "big_be32_to_cpu cst x = x"

definition big_be32_to_cpup :: "('p \<Rightarrow> u32) \<Rightarrow> 'p \<Rightarrow> u32" where
  "big_be32_to_cpup m p = m p"

definition big_cpu_to_le16 :: "bool \<Rightarrow> u16 \<Rightarrow> u16" where
  "big_cpu_to_le16 cst x = swab16 cst x"

definition big_cpu_to_le16p :: "('p \<Rightarrow> u16) \<Rightarrow> 'p \<Rightarrow> u16" where
  "big_cpu_to_le16p m p = swab16p m p"

definition big_le16_to_cpu :: "bool \<Rightarrow> u16 \<Rightarrow> u16" where
  "big_le16_to_cpu cst x = swab16 cst x"

definition big_le16_to_cpup :: "('p \<Rightarrow> u16) \<Rightarrow> 'p \<Rightarrow> u16" where
  "big_le16_to_cpup m p = swab16p m p"

definition big_cpu_to_be16 :: "bool \<Rightarrow> u16 \<Rightarrow> u16" where
  "big_cpu_to_be16 cst x = x"

definition big_cpu_to_be16p :: "('p \<Rightarrow> u16) \<Rightarrow> 'p \<Rightarrow> u16" where
  "big_cpu_to_be16p m p = m p"

definition big_be16_to_cpu :: "bool \<Rightarrow> u16 \<Rightarrow> u16" where
  "big_be16_to_cpu cst x = x"

definition big_be16_to_cpup :: "('p \<Rightarrow> u16) \<Rightarrow> 'p \<Rightarrow> u16" where
  "big_be16_to_cpup m p = m p"

section \<open>Loads and stores\<close>

text \<open>\<^verbatim>\<open>openssl/byteorder.h\<close>. A build has no conversions of its host (\<open>None\<close>: the bytes are shifted out one by
  one), or those of \<^verbatim>\<open>endian.h\<close> on a host that is big-endian or not (\<open>Some big\<close>: the value is converted and
  copied as it lies in memory). The buffer and the place stand for the pointer; a function returns the place
  after the bytes.\<close>

type_synonym build = "bool option"

definition bytes_le :: "nat \<Rightarrow> 'a::len word \<Rightarrow> u8 list" where
  "bytes_le n x = map (\<lambda>i. ucast (drop_bit (8 * i) x)) [0..<n]"

fun of_bytes :: "u8 list \<Rightarrow> 'a::len word" where
  "of_bytes [] = 0"
| "of_bytes (b # bs) = ucast b OR push_bit 8 (of_bytes bs)"

text \<open>The bytes of a value in the memory of a host, and the value they are.\<close>

definition in_mem :: "bool \<Rightarrow> nat \<Rightarrow> 'a::len word \<Rightarrow> u8 list" where
  "in_mem big n x = (if big then rev (bytes_le n x) else bytes_le n x)"

definition from_mem :: "bool \<Rightarrow> u8 list \<Rightarrow> 'a::len word" where
  "from_mem big bs = of_bytes (if big then rev bs else bs)"

definition put :: "u8 list \<Rightarrow> nat \<Rightarrow> u8 list \<Rightarrow> u8 list \<times> nat" where
  "put buf p bs = (take p buf @ bs @ drop (p + length bs) buf, p + length bs)"

definition got :: "u8 list \<Rightarrow> nat \<Rightarrow> nat \<Rightarrow> u8 list" where
  "got buf p n = take n (drop p buf)"


definition store_u16_le :: "build \<Rightarrow> u8 list \<Rightarrow> nat \<Rightarrow> u16 \<Rightarrow> u8 list \<times> nat" where
  "store_u16_le c out p val =
     (case c of
        Some big \<Rightarrow> put out p (in_mem big 2 (htole16 big val))
      | None \<Rightarrow> put out p
          [ucast (val AND 0xff), ucast (drop_bit 8 val AND 0xff)])"

definition store_u16_be :: "build \<Rightarrow> u8 list \<Rightarrow> nat \<Rightarrow> u16 \<Rightarrow> u8 list \<times> nat" where
  "store_u16_be c out p val =
     (case c of
        Some big \<Rightarrow> put out p (in_mem big 2 (htobe16 big val))
      | None \<Rightarrow> put out p
          [ucast (drop_bit 8 val AND 0xff), ucast (val AND 0xff)])"

definition load_u16_le :: "build \<Rightarrow> u8 list \<Rightarrow> nat \<Rightarrow> u16 \<times> nat" where
  "load_u16_le c inp p =
     (case c of
        Some big \<Rightarrow> (le16toh big (from_mem big (got inp p 2)), p + 2)
      | None \<Rightarrow> (ucast (inp ! p) OR push_bit 8 (ucast (inp ! (p + 1))), p + 2))"

definition load_u16_be :: "build \<Rightarrow> u8 list \<Rightarrow> nat \<Rightarrow> u16 \<times> nat" where
  "load_u16_be c inp p =
     (case c of
        Some big \<Rightarrow> (be16toh big (from_mem big (got inp p 2)), p + 2)
      | None \<Rightarrow> (ucast (inp ! (p + 1)) OR push_bit 8 (ucast (inp ! p)), p + 2))"

definition store_u32_le :: "build \<Rightarrow> u8 list \<Rightarrow> nat \<Rightarrow> u32 \<Rightarrow> u8 list \<times> nat" where
  "store_u32_le c out p val =
     (case c of
        Some big \<Rightarrow> put out p (in_mem big 4 (htole32 big val))
      | None \<Rightarrow> put out p
          [ucast (val AND 0xff), ucast (drop_bit 8 val AND 0xff), ucast (drop_bit 16 val AND 0xff), ucast (drop_bit 24 val AND 0xff)])"

definition store_u32_be :: "build \<Rightarrow> u8 list \<Rightarrow> nat \<Rightarrow> u32 \<Rightarrow> u8 list \<times> nat" where
  "store_u32_be c out p val =
     (case c of
        Some big \<Rightarrow> put out p (in_mem big 4 (htobe32 big val))
      | None \<Rightarrow> put out p
          [ucast (drop_bit 24 val AND 0xff), ucast (drop_bit 16 val AND 0xff), ucast (drop_bit 8 val AND 0xff), ucast (val AND 0xff)])"

definition load_u32_le :: "build \<Rightarrow> u8 list \<Rightarrow> nat \<Rightarrow> u32 \<times> nat" where
  "load_u32_le c inp p =
     (case c of
        Some big \<Rightarrow> (le32toh big (from_mem big (got inp p 4)), p + 4)
      | None \<Rightarrow> (ucast (inp ! p) OR push_bit 8 (ucast (inp ! (p + 1))) OR push_bit 16 (ucast (inp ! (p + 2))) OR push_bit 24 (ucast (inp ! (p + 3))), p + 4))"

definition load_u32_be :: "build \<Rightarrow> u8 list \<Rightarrow> nat \<Rightarrow> u32 \<times> nat" where
  "load_u32_be c inp p =
     (case c of
        Some big \<Rightarrow> (be32toh big (from_mem big (got inp p 4)), p + 4)
      | None \<Rightarrow> (ucast (inp ! (p + 3)) OR push_bit 8 (ucast (inp ! (p + 2))) OR push_bit 16 (ucast (inp ! (p + 1))) OR push_bit 24 (ucast (inp ! p)), p + 4))"

definition store_u64_le :: "build \<Rightarrow> u8 list \<Rightarrow> nat \<Rightarrow> u64 \<Rightarrow> u8 list \<times> nat" where
  "store_u64_le c out p val =
     (case c of
        Some big \<Rightarrow> put out p (in_mem big 8 (htole64 big val))
      | None \<Rightarrow> put out p
          [ucast (val AND 0xff), ucast (drop_bit 8 val AND 0xff), ucast (drop_bit 16 val AND 0xff), ucast (drop_bit 24 val AND 0xff), ucast (drop_bit 32 val AND 0xff), ucast (drop_bit 40 val AND 0xff), ucast (drop_bit 48 val AND 0xff), ucast (drop_bit 56 val AND 0xff)])"

definition store_u64_be :: "build \<Rightarrow> u8 list \<Rightarrow> nat \<Rightarrow> u64 \<Rightarrow> u8 list \<times> nat" where
  "store_u64_be c out p val =
     (case c of
        Some big \<Rightarrow> put out p (in_mem big 8 (htobe64 big val))
      | None \<Rightarrow> put out p
          [ucast (drop_bit 56 val AND 0xff), ucast (drop_bit 48 val AND 0xff), ucast (drop_bit 40 val AND 0xff), ucast (drop_bit 32 val AND 0xff), ucast (drop_bit 24 val AND 0xff), ucast (drop_bit 16 val AND 0xff), ucast (drop_bit 8 val AND 0xff), ucast (val AND 0xff)])"

definition load_u64_le :: "build \<Rightarrow> u8 list \<Rightarrow> nat \<Rightarrow> u64 \<times> nat" where
  "load_u64_le c inp p =
     (case c of
        Some big \<Rightarrow> (le64toh big (from_mem big (got inp p 8)), p + 8)
      | None \<Rightarrow> (ucast (inp ! p) OR push_bit 8 (ucast (inp ! (p + 1))) OR push_bit 16 (ucast (inp ! (p + 2))) OR push_bit 24 (ucast (inp ! (p + 3))) OR push_bit 32 (ucast (inp ! (p + 4))) OR push_bit 40 (ucast (inp ! (p + 5))) OR push_bit 48 (ucast (inp ! (p + 6))) OR push_bit 56 (ucast (inp ! (p + 7))), p + 8))"

definition load_u64_be :: "build \<Rightarrow> u8 list \<Rightarrow> nat \<Rightarrow> u64 \<times> nat" where
  "load_u64_be c inp p =
     (case c of
        Some big \<Rightarrow> (be64toh big (from_mem big (got inp p 8)), p + 8)
      | None \<Rightarrow> (ucast (inp ! (p + 7)) OR push_bit 8 (ucast (inp ! (p + 6))) OR push_bit 16 (ucast (inp ! (p + 5))) OR push_bit 24 (ucast (inp ! (p + 4))) OR push_bit 32 (ucast (inp ! (p + 3))) OR push_bit 40 (ucast (inp ! (p + 2))) OR push_bit 48 (ucast (inp ! (p + 1))) OR push_bit 56 (ucast (inp ! p)), p + 8))"
section \<open>The bytes of a word\<close>

lemma byte_masks:
  "(0xff :: u16) = mask 8" "(0xff00 :: u16) = push_bit 8 (mask 8)"
  "(0xff :: u32) = mask 8" "(0xff00 :: u32) = push_bit 8 (mask 8)" "(0xff0000 :: u32) = push_bit 16 (mask 8)"
  "(0xff000000 :: u32) = push_bit 24 (mask 8)" "(0xffff :: u32) = mask 16" "(0xffff0000 :: u32) = push_bit 16 (mask 16)"
  "(0x00ff00ff :: u32) = mask 8 OR push_bit 16 (mask 8)" "(0xff00ff00 :: u32) = push_bit 8 (mask 8) OR push_bit 24 (mask 8)"
  "(0xff :: u64) = mask 8" "(0xff00 :: u64) = push_bit 8 (mask 8)" "(0xff0000 :: u64) = push_bit 16 (mask 8)"
  "(0xff000000 :: u64) = push_bit 24 (mask 8)" "(0xff00000000 :: u64) = push_bit 32 (mask 8)"
  "(0xff0000000000 :: u64) = push_bit 40 (mask 8)" "(0xff000000000000 :: u64) = push_bit 48 (mask 8)"
  "(0xff00000000000000 :: u64) = push_bit 56 (mask 8)" "(push_bit 32 1 - 1 :: u64) = mask 32"
  by (simp_all add: mask_eq_exp_minus_1 push_bit_eq_mult)

lemma length_bytes_le [simp]: "length (bytes_le n x) = n"
  by (simp add: bytes_le_def)

lemma bytes_le_Suc: "bytes_le (Suc n) x = ucast x # bytes_le n (drop_bit 8 x)"
  unfolding bytes_le_def upt_conv_Cons [OF zero_less_Suc] map_Suc_upt [symmetric] by (simp add: drop_bit_drop_bit add.commute)

lemma of_bytes_le: "of_bytes (bytes_le n x) = take_bit (8 * n) x"
proof (induction n arbitrary: x)
  case (Suc n)
  show ?case unfolding bytes_le_Suc of_bytes.simps Suc.IH
    by (rule bit_word_eqI) (auto simp: bit_simps)
qed (simp add: bytes_le_def)

lemma of_bytes_word [simp]:
  "of_bytes (bytes_le 2 x) = (x :: u16)" "of_bytes (bytes_le 4 y) = (y :: u32)" "of_bytes (bytes_le 8 z) = (z :: u64)"
  by (simp_all add: of_bytes_le take_bit_word_eq_self)

lemma list_of_bytes:
  "length bs = 2 \<Longrightarrow> ucast (bs ! 0) OR push_bit 8 (ucast (bs ! 1)) = (of_bytes bs :: u16)"
  "length bs = 4 \<Longrightarrow> ucast (bs ! 0) OR push_bit 8 (ucast (bs ! 1)) OR push_bit 16 (ucast (bs ! 2)) OR push_bit 24 (ucast (bs ! 3)) =
    (of_bytes bs :: u32)"
  "length bs = 8 \<Longrightarrow> ucast (bs ! 0) OR push_bit 8 (ucast (bs ! 1)) OR push_bit 16 (ucast (bs ! 2)) OR push_bit 24 (ucast (bs ! 3)) OR
    push_bit 32 (ucast (bs ! 4)) OR push_bit 40 (ucast (bs ! 5)) OR push_bit 48 (ucast (bs ! 6)) OR push_bit 56 (ucast (bs ! 7)) =
    (of_bytes bs :: u64)"
  by (auto simp: numeral_eq_Suc length_Suc_conv push_bit_or push_bit_push_bit or.assoc)

lemma byte_high: "8 \<le> n \<Longrightarrow> \<not> bit (x :: u8) n"
  by (auto dest: bit_imp_le_length)

lemma of_bytes_exact:
  "length bs = 2 \<Longrightarrow> bytes_le 2 (of_bytes bs :: u16) = bs" "length bs = 4 \<Longrightarrow> bytes_le 4 (of_bytes bs :: u32) = bs"
  "length bs = 8 \<Longrightarrow> bytes_le 8 (of_bytes bs :: u64) = bs"
proof -
  have "bytes_le 2 (ucast a OR push_bit 8 (ucast b) :: u16) = [a, b]" for a b
    unfolding bytes_le_def by (simp add: upt_rec, intro conjI bit_word_eqI) (auto simp: bit_simps byte_high)
  then show "length bs = 2 \<Longrightarrow> bytes_le 2 (of_bytes bs :: u16) = bs"
    by (auto simp: numeral_eq_Suc length_Suc_conv)
  have "bytes_le 4 (ucast a OR push_bit 8 (ucast b) OR push_bit 16 (ucast c) OR push_bit 24 (ucast d) :: u32) = [a, b, c, d]" for a b c d
    unfolding bytes_le_def by (simp add: upt_rec, intro conjI bit_word_eqI) (auto simp: bit_simps byte_high)
  then show "length bs = 4 \<Longrightarrow> bytes_le 4 (of_bytes bs :: u32) = bs"
    unfolding list_of_bytes(2) [symmetric] by (auto simp: numeral_eq_Suc length_Suc_conv)
  have "bytes_le 8 (ucast a OR push_bit 8 (ucast b) OR push_bit 16 (ucast c) OR push_bit 24 (ucast d) OR push_bit 32 (ucast e) OR
      push_bit 40 (ucast f) OR push_bit 48 (ucast g) OR push_bit 56 (ucast h) :: u64) = [a, b, c, d, e, f, g, h]" for a b c d e f g h
    unfolding bytes_le_def by (simp add: upt_rec, intro conjI bit_word_eqI) (auto simp: bit_simps byte_high)
  then show "length bs = 8 \<Longrightarrow> bytes_le 8 (of_bytes bs :: u64) = bs"
    unfolding list_of_bytes(3) [symmetric] by (auto simp: numeral_eq_Suc length_Suc_conv)
qed

section \<open>Swaps\<close>

text \<open>A swap of integers of \<open>n\<close> bytes: the bytes of the result are those of the argument in reverse.\<close>

locale byte_swap =
  fixes n :: nat and f :: "'a::len word \<Rightarrow> 'a word"
  assumes whole: "of_bytes (bytes_le n x) = (x :: 'a word)"
    and exact: "length bs = n \<Longrightarrow> bytes_le n (of_bytes bs :: 'a word) = bs"
    and reverses: "bytes_le n (f x) = rev (bytes_le n x)"
begin

lemma eq_bytes: "bytes_le n x = bytes_le n y \<Longrightarrow> x = (y :: 'a word)"
  by (metis whole)

lemma involution: "f (f x) = x"
  by (rule eq_bytes) (simp add: reverses)

lemma unique: "(\<And>x. bytes_le n (g x) = rev (bytes_le n x)) \<Longrightarrow> g x = f x"
  by (rule eq_bytes) (simp add: reverses)

text \<open>To swap is to see the memory of a host of the other kind.\<close>

lemma other_host: "in_mem big n (f x) = in_mem (\<not> big) n x"
  by (simp add: in_mem_def reverses)

lemma of_reversed: "length bs = n \<Longrightarrow> f (of_bytes bs) = of_bytes (rev bs)"
  by (rule eq_bytes) (simp add: reverses exact)

end

lemma constant_swab16_bytes: "bytes_le 2 (constant_swab16 x) = rev (bytes_le 2 x)"
  unfolding constant_swab16_def byte_masks bytes_le_def
  by (simp add: upt_rec, intro conjI bit_word_eqI) (auto simp: bit_simps)

lemma constant_swab32_bytes: "bytes_le 4 (constant_swab32 x) = rev (bytes_le 4 x)"
  unfolding constant_swab32_def byte_masks bytes_le_def
  by (simp add: upt_rec, intro conjI bit_word_eqI) (auto simp: bit_simps)

lemma constant_swab64_bytes: "bytes_le 8 (constant_swab64 x) = rev (bytes_le 8 x)"
  unfolding constant_swab64_def byte_masks bytes_le_def
  by (simp add: upt_rec, intro conjI bit_word_eqI) (auto simp: bit_simps)

text \<open>The halves of a 64-bit word.\<close>

lemma no_high_bit: "32 \<le> n \<Longrightarrow> \<not> bit (x :: u32) n"
  by (auto dest: bit_imp_le_length)

lemma bytes_halves: "bytes_le 8 (push_bit 32 (ucast h) OR ucast l :: u64) = bytes_le 4 (l :: u32) @ bytes_le 4 (h :: u32)"
  unfolding bytes_le_def
  by (simp add: upt_rec, intro conjI bit_word_eqI) (auto simp: bit_simps no_high_bit)

lemma bytes_low: "bytes_le 4 (ucast (x :: u64) :: u32) = take 4 (bytes_le 8 x)"
  "bytes_le 4 (ucast (drop_bit 32 (x :: u64)) :: u32) = drop 4 (bytes_le 8 x)"
  unfolding bytes_le_def by (simp add: upt_rec, intro conjI bit_word_eqI, auto simp: bit_simps)+

lemma ucast_low: "ucast (x AND mask 32 :: u64) = (ucast x :: u32)"
  by (rule bit_word_eqI) (auto simp: bit_simps)

lemma halves_swap:
  fixes g :: "u32 \<Rightarrow> u32" and x :: u64
  assumes "\<And>y. bytes_le 4 (g y) = rev (bytes_le 4 y)"
  shows "bytes_le 8 (push_bit 32 (ucast (g (ucast x))) OR ucast (g (ucast (drop_bit 32 x))) :: u64) = rev (bytes_le 8 x)"
proof -
  have "rev (bytes_le 8 x) = rev (drop 4 (bytes_le 8 x)) @ rev (take 4 (bytes_le 8 x))"
    by (metis append_take_drop_id rev_append)
  then show ?thesis by (simp only: bytes_halves assms bytes_low(2)) (simp only: bytes_low(1))
qed

lemma fswab64_bytes: "bytes_le 8 (fswab64 thru32 x) = rev (bytes_le 8 x)"
  unfolding fswab64_def byte_masks ucast_low Let_def fswab32_def
  using halves_swap [OF constant_swab32_bytes] constant_swab64_bytes by simp

interpretation swap16: byte_swap 2 "swab16 cst" for cst
  by unfold_locales (simp_all add: of_bytes_exact swab16_def fswab16_def constant_swab16_bytes)

interpretation swap32: byte_swap 4 "swab32 cst" for cst
  by unfold_locales (simp_all add: of_bytes_exact swab32_def fswab32_def constant_swab32_bytes)

interpretation swap64: byte_swap 8 "swab64 thru32 cst" for thru32 cst
  by unfold_locales (simp_all add: of_bytes_exact swab64_def fswab64_bytes constant_swab64_bytes)

lemma bswap_bytes:
  "bytes_le 2 (bswap16 x) = rev (bytes_le 2 x)" "bytes_le 4 (bswap32 y) = rev (bytes_le 4 y)"
  unfolding bswap16_def bswap32_def byte_masks bytes_le_def
  by (simp add: upt_rec, intro conjI bit_word_eqI, auto simp: bit_simps)+

lemma bswap64_bytes: "bytes_le 8 (bswap64 x) = rev (bytes_le 8 x)"
  unfolding bswap64_def add_0_right by (rule halves_swap) (rule bswap_bytes)

interpretation lib16: byte_swap 2 bswap16 by unfold_locales (simp_all add: of_bytes_exact bswap_bytes)
interpretation lib32: byte_swap 4 bswap32 by unfold_locales (simp_all add: of_bytes_exact bswap_bytes)
interpretation lib64: byte_swap 8 bswap64 by unfold_locales (simp_all add: of_bytes_exact bswap64_bytes)

text \<open>The two headers of the C library define the same functions.\<close>

lemma bswap_copies: "bswap_16 x = bswap16 x" "bswap_32 y = bswap32 y" "bswap_64 z = bswap64 z"
  by (simp_all add: bswap_16_def bswap16_def bswap_32_def bswap32_def bswap_64_def bswap64_def)

lemma swab_bswap: "swab16 cst x = bswap16 x" "swab32 cst y = bswap32 y" "swab64 thru32 cst z = bswap64 z"
  by (rule lib16.unique lib32.unique lib64.unique, rule swap16.reverses swap32.reverses swap64.reverses)+

lemma half_bytes:
  "bytes_le 4 (constant_swahw32 y) = drop 2 (bytes_le 4 y) @ take 2 (bytes_le 4 y)"
  "bytes_le 4 (constant_swahb32 y) = [bytes_le 4 y ! 1, bytes_le 4 y ! 0, bytes_le 4 y ! 3, bytes_le 4 y ! 2]"
  unfolding constant_swahw32_def constant_swahb32_def byte_masks bytes_le_def
  by (simp add: upt_rec, intro conjI bit_word_eqI, auto simp: bit_simps)+

lemma swap_in_halves:
  assumes "length b = 4"
  shows "drop 2 [b ! 1, b ! 0, b ! 3, b ! 2] @ take 2 [b ! 1, b ! 0, b ! 3, b ! 2] = rev b"
    "[(drop 2 b @ take 2 b) ! 1, (drop 2 b @ take 2 b) ! 0, (drop 2 b @ take 2 b) ! 3, (drop 2 b @ take 2 b) ! 2] = rev b"
  using assms by (auto simp: length_Suc_conv numeral_eq_Suc)

text \<open>Every swap of the image reverses the bytes of its argument, whether it is computed at once, through
  32-bit halves, or in the C library; so all of them agree, and undo themselves. A swap of 32 bits is the
  swap of the halves of the swap within the halves.\<close>

theorem swaps_reverse_bytes:
  "bytes_le 2 (swab16 cst x) = rev (bytes_le 2 x) \<and> bytes_le 4 (swab32 cst y) = rev (bytes_le 4 y) \<and>
   bytes_le 8 (swab64 thru32 cst z) = rev (bytes_le 8 z) \<and> swab16 cst (swab16 cst x) = x \<and> swab32 cst (swab32 cst y) = y \<and>
   swab64 thru32 cst (swab64 thru32 cst z) = z \<and> bswap16 x = swab16 cst x \<and> bswap32 y = swab32 cst y \<and>
   bswap64 z = swab64 thru32 cst z \<and> bswap_16 x = bswap16 x \<and> bswap_32 y = bswap32 y \<and> bswap_64 z = bswap64 z \<and>
   swahw32 cst (swahb32 cst y) = swab32 cst y \<and> swahb32 cst (swahw32 cst y) = swab32 cst y"
proof -
  have "constant_swahw32 (constant_swahb32 y) = constant_swab32 y" "constant_swahb32 (constant_swahw32 y) = constant_swab32 y"
    by (rule swap32.eq_bytes, simp only: half_bytes constant_swab32_bytes swap_in_halves length_bytes_le)+
  then have "swahw32 cst (swahb32 cst y) = swab32 cst y" "swahb32 cst (swahw32 cst y) = swab32 cst y"
    by (simp_all add: swahw32_def swahb32_def fswahw32_def fswahb32_def swab32_def fswab32_def)
  then show ?thesis
    by (simp only: swab_bswap lib16.reverses lib32.reverses lib64.reverses lib16.involution lib32.involution
        lib64.involution bswap_copies simp_thms)
qed

section \<open>Conversions\<close>

lemma in_mem_swapped:
  "in_mem big 2 (bswap16 x) = in_mem (\<not> big) 2 x" "in_mem big 4 (bswap32 y) = in_mem (\<not> big) 4 y"
  "in_mem big 8 (bswap64 z) = in_mem (\<not> big) 8 z"
  by (rule lib16.other_host lib32.other_host lib64.other_host)+

lemma in_mem_conv:
  "in_mem big 2 (htobe16 big x) = in_mem True 2 x" "in_mem big 2 (htole16 big x) = in_mem False 2 x"
  "in_mem big 4 (htobe32 big y) = in_mem True 4 y" "in_mem big 4 (htole32 big y) = in_mem False 4 y"
  "in_mem big 8 (htobe64 big z) = in_mem True 8 z" "in_mem big 8 (htole64 big z) = in_mem False 8 z"
  by (simp_all add: htobe16_def htole16_def htobe32_def htole32_def htobe64_def htole64_def in_mem_swapped)

text \<open>What the kernel's headers make of an integer lies in the memory of either host in the order asked for:
  the little-endian header on a little-endian host, the big-endian one on a big-endian host, directly or
  through a pointer, and the C library's conversions alike; the readers undo it.\<close>

theorem conversions_fix_memory:
  "in_mem False 2 (little_cpu_to_be16 cst x) = in_mem True 2 x \<and> in_mem True 2 (big_cpu_to_be16 cst x) = in_mem True 2 x \<and>
   in_mem False 4 (little_cpu_to_be32 cst y) = in_mem True 4 y \<and> in_mem True 4 (big_cpu_to_be32 cst y) = in_mem True 4 y \<and>
   in_mem False 8 (little_cpu_to_be64 cst z) = in_mem True 8 z \<and> in_mem True 8 (big_cpu_to_be64 cst z) = in_mem True 8 z \<and>
   in_mem False 2 (little_cpu_to_le16 cst x) = in_mem False 2 x \<and> in_mem True 2 (big_cpu_to_le16 cst x) = in_mem False 2 x \<and>
   in_mem False 4 (little_cpu_to_le32 cst y) = in_mem False 4 y \<and> in_mem True 4 (big_cpu_to_le32 cst y) = in_mem False 4 y \<and>
   in_mem False 8 (little_cpu_to_le64 cst z) = in_mem False 8 z \<and> in_mem True 8 (big_cpu_to_le64 cst z) = in_mem False 8 z \<and>
   little_be32_to_cpu cst (little_cpu_to_be32 cst y) = y \<and> big_le32_to_cpu cst (big_cpu_to_le32 cst y) = y \<and>
   little_be64_to_cpu cst (little_cpu_to_be64 cst z) = z \<and> big_le64_to_cpu cst (big_cpu_to_le64 cst z) = z \<and>
   little_cpu_to_be32p m p = little_cpu_to_be32 cst (m p) \<and> big_cpu_to_le64p m' q = big_cpu_to_le64 cst (m' q) \<and>
   htobe32 False y = little_cpu_to_be32 cst y \<and> htole64 True z = big_cpu_to_le64 cst z \<and> be32toh big (htobe32 big y) = y"
  by (simp add: little_cpu_to_be16_def big_cpu_to_be16_def little_cpu_to_be32_def big_cpu_to_be32_def little_cpu_to_be64_def
      big_cpu_to_be64_def little_cpu_to_le16_def big_cpu_to_le16_def little_cpu_to_le32_def big_cpu_to_le32_def
      little_cpu_to_le64_def big_cpu_to_le64_def little_be32_to_cpu_def big_le32_to_cpu_def little_be64_to_cpu_def
      big_le64_to_cpu_def little_cpu_to_be32p_def big_cpu_to_le64p_def swab32p_def swab64p_def htobe32_def htole64_def
      be32toh_def swab_bswap in_mem_swapped lib32.involution lib64.involution)

section \<open>Loads and stores\<close>

lemma from_mem_in_mem [simp]:
  "from_mem big (in_mem big 2 x) = (x :: u16)" "from_mem big (in_mem big 4 y) = (y :: u32)" "from_mem big (in_mem big 8 z) = (z :: u64)"
  by (simp_all add: from_mem_def in_mem_def)

lemma got_put: "p + length bs \<le> length buf \<Longrightarrow> n = length bs \<Longrightarrow> got (fst (put buf p bs)) p n = bs"
  by (simp add: got_def put_def)

text \<open>A store writes the bytes of the value in its order, whatever the build.\<close>

lemma portable_bytes:
  "[ucast (x AND 0xff), ucast (drop_bit 8 x AND 0xff)] = bytes_le 2 (x :: u16)"
  "[ucast (y AND 0xff), ucast (drop_bit 8 y AND 0xff), ucast (drop_bit 16 y AND 0xff), ucast (drop_bit 24 y AND 0xff)] =
    bytes_le 4 (y :: u32)"
  "[ucast (z AND 0xff), ucast (drop_bit 8 z AND 0xff), ucast (drop_bit 16 z AND 0xff), ucast (drop_bit 24 z AND 0xff),
    ucast (drop_bit 32 z AND 0xff), ucast (drop_bit 40 z AND 0xff), ucast (drop_bit 48 z AND 0xff), ucast (drop_bit 56 z AND 0xff)] =
    bytes_le 8 (z :: u64)"
  unfolding bytes_le_def byte_masks by (simp add: upt_rec, intro conjI bit_word_eqI, auto simp: bit_simps)+

lemma portable_rev:
  "[ucast (drop_bit 8 x AND 0xff), ucast (x AND 0xff)] = rev (bytes_le 2 (x :: u16))"
  "[ucast (drop_bit 24 y AND 0xff), ucast (drop_bit 16 y AND 0xff), ucast (drop_bit 8 y AND 0xff), ucast (y AND 0xff)] =
    rev (bytes_le 4 (y :: u32))"
  "[ucast (drop_bit 56 z AND 0xff), ucast (drop_bit 48 z AND 0xff), ucast (drop_bit 40 z AND 0xff), ucast (drop_bit 32 z AND 0xff),
    ucast (drop_bit 24 z AND 0xff), ucast (drop_bit 16 z AND 0xff), ucast (drop_bit 8 z AND 0xff), ucast (z AND 0xff)] =
    rev (bytes_le 8 (z :: u64))"
  unfolding portable_bytes [symmetric] by simp_all

lemma store_bytes:
  "store_u16_le c buf p x = put buf p (bytes_le 2 x)" "store_u16_be c buf p x = put buf p (rev (bytes_le 2 x))"
  "store_u32_le c buf p y = put buf p (bytes_le 4 y)" "store_u32_be c buf p y = put buf p (rev (bytes_le 4 y))"
  "store_u64_le c buf p z = put buf p (bytes_le 8 z)" "store_u64_be c buf p z = put buf p (rev (bytes_le 8 z))"
  by (simp_all add: store_u16_le_def store_u16_be_def store_u32_le_def store_u32_be_def store_u64_le_def store_u64_be_def
      in_mem_conv portable_bytes portable_rev split: option.split) (simp_all add: in_mem_def)

text \<open>A load reads them back, whatever the build that stored them.\<close>

lemma got_nth: "p + n \<le> length buf \<Longrightarrow> i < n \<Longrightarrow> buf ! (p + i) = got buf p n ! i"
  by (simp add: got_def)

lemma length_got: "p + n \<le> length buf \<Longrightarrow> length (got buf p n) = n"
  by (simp add: got_def)

lemma list_of_reversed:
  "length bs = 2 \<Longrightarrow> ucast (bs ! 1) OR push_bit 8 (ucast (bs ! 0)) = (of_bytes (rev bs) :: u16)"
  "length bs = 4 \<Longrightarrow> ucast (bs ! 3) OR push_bit 8 (ucast (bs ! 2)) OR push_bit 16 (ucast (bs ! 1)) OR push_bit 24 (ucast (bs ! 0)) =
    (of_bytes (rev bs) :: u32)"
  "length bs = 8 \<Longrightarrow> ucast (bs ! 7) OR push_bit 8 (ucast (bs ! 6)) OR push_bit 16 (ucast (bs ! 5)) OR push_bit 24 (ucast (bs ! 4)) OR
    push_bit 32 (ucast (bs ! 3)) OR push_bit 40 (ucast (bs ! 2)) OR push_bit 48 (ucast (bs ! 1)) OR push_bit 56 (ucast (bs ! 0)) =
    (of_bytes (rev bs) :: u64)"
  using list_of_bytes [of "rev bs"] by (simp_all add: rev_nth)

lemma load_host:
  "length bs = 2 \<Longrightarrow> le16toh big (from_mem big bs) = of_bytes bs" "length bs = 2 \<Longrightarrow> be16toh big (from_mem big bs) = of_bytes (rev bs)"
  "length bs = 4 \<Longrightarrow> le32toh big (from_mem big bs) = of_bytes bs" "length bs = 4 \<Longrightarrow> be32toh big (from_mem big bs) = of_bytes (rev bs)"
  "length bs = 8 \<Longrightarrow> le64toh big (from_mem big bs) = of_bytes bs" "length bs = 8 \<Longrightarrow> be64toh big (from_mem big bs) = of_bytes (rev bs)"
  by (simp_all add: le16toh_def be16toh_def le32toh_def be32toh_def le64toh_def be64toh_def from_mem_def lib16.of_reversed
      lib32.of_reversed lib64.of_reversed)

lemma load16:
  assumes "p + 2 \<le> length buf"
  shows "load_u16_le c buf p = (of_bytes (got buf p 2), p + 2)" "load_u16_be c buf p = (of_bytes (rev (got buf p 2)), p + 2)"
  using assms got_nth [OF assms, of 0] got_nth [OF assms, of 1] length_got [OF assms]
  by (simp_all add: load_u16_le_def load_u16_be_def load_host list_of_bytes [unfolded One_nat_def] list_of_reversed [unfolded One_nat_def] split: option.split)

lemma load32:
  assumes "p + 4 \<le> length buf"
  shows "load_u32_le c buf p = (of_bytes (got buf p 4), p + 4)" "load_u32_be c buf p = (of_bytes (rev (got buf p 4)), p + 4)"
  using assms got_nth [OF assms, of 0] got_nth [OF assms, of 1] got_nth [OF assms, of 2] got_nth [OF assms, of 3] length_got [OF assms]
  by (simp_all add: load_u32_le_def load_u32_be_def load_host list_of_bytes [unfolded One_nat_def] list_of_reversed [unfolded One_nat_def] split: option.split)

lemma load64:
  assumes "p + 8 \<le> length buf"
  shows "load_u64_le c buf p = (of_bytes (got buf p 8), p + 8)" "load_u64_be c buf p = (of_bytes (rev (got buf p 8)), p + 8)"
  using assms got_nth [OF assms, of 0] got_nth [OF assms, of 1] got_nth [OF assms, of 2] got_nth [OF assms, of 3]
    got_nth [OF assms, of 4] got_nth [OF assms, of 5] got_nth [OF assms, of 6] got_nth [OF assms, of 7] length_got [OF assms]
  by (simp_all add: load_u64_le_def load_u64_be_def load_host list_of_bytes [unfolded One_nat_def] list_of_reversed [unfolded One_nat_def] split: option.split)

lemma put_room: "p + length bs \<le> length buf \<Longrightarrow> length (fst (put buf p bs)) = length buf"
  by (simp add: put_def)

lemma got_put_whole: "p + length bs \<le> length buf \<Longrightarrow> got (fst (put buf p bs)) p (length bs) = bs"
  by (rule got_put) simp_all

text \<open>C39 Whatever one build of the library stores, every build loads again, at the place after it: builds
  without conversions of the host, and with those of a host of either kind, put the same bytes at the same
  place, least or most significant first, and leave the rest of the buffer alone.\<close>

theorem stored_is_loaded:
  assumes "p + 8 \<le> length buf"
  shows "load_u16_le d (fst (store_u16_le c buf p x)) p = (x, snd (store_u16_le c buf p x)) \<and>
    load_u16_be d (fst (store_u16_be c buf p x)) p = (x, snd (store_u16_be c buf p x)) \<and>
    load_u32_le d (fst (store_u32_le c buf p y)) p = (y, snd (store_u32_le c buf p y)) \<and>
    load_u32_be d (fst (store_u32_be c buf p y)) p = (y, snd (store_u32_be c buf p y)) \<and>
    load_u64_le d (fst (store_u64_le c buf p z)) p = (z, snd (store_u64_le c buf p z)) \<and>
    load_u64_be d (fst (store_u64_be c buf p z)) p = (z, snd (store_u64_be c buf p z)) \<and>
    fst (store_u16_le c buf p x) = take p buf @ bytes_le 2 x @ drop (p + 2) buf \<and>
    fst (store_u16_be c buf p x) = take p buf @ rev (bytes_le 2 x) @ drop (p + 2) buf \<and>
    fst (store_u32_le c buf p y) = take p buf @ bytes_le 4 y @ drop (p + 4) buf \<and>
    fst (store_u32_be c buf p y) = take p buf @ rev (bytes_le 4 y) @ drop (p + 4) buf \<and>
    fst (store_u64_le c buf p z) = take p buf @ bytes_le 8 z @ drop (p + 8) buf \<and>
    fst (store_u64_be c buf p z) = take p buf @ rev (bytes_le 8 z) @ drop (p + 8) buf"
proof -
  have g: "got (fst (put buf p bs)) p n = bs" "length (fst (put buf p bs)) = length buf" "snd (put buf p bs) = p + n"
    if "length bs = n" "n \<le> 8" for bs n
    using that assms got_put_whole [of p bs buf] put_room [of p bs buf] by (simp_all add: put_def)
  have w: "of_bytes (rev (rev (bytes_le 2 x))) = x" by simp
  show ?thesis
    unfolding store_bytes using assms
    by (simp add: load16 load32 load64 g) (simp add: put_def)
qed

theorem stored_is_loaded_witness:
  "load_u32_be (Some True) (fst (store_u32_be None (replicate 9 0) 1 0x1234)) 1 = (0x1234, 5)"
  using stored_is_loaded [of 1 "replicate 9 0" "Some True" None 0 "0x1234" 0] by (simp add: store_bytes put_def)

end
