(* ===== verification/Align.thy ===== *)
theory Align
  imports Prelude
begin

text \<open>
  The alignment of sizes and addresses in C, \<open>(x + a - 1) & ~(a - 1)\<close> for a power of two, on 64-bit words:
  the next multiple.
\<close>

lemma and_not_mask: "x AND NOT (mask k) = x - take_bit k (x :: 'a::len word)"
proof -
  have "x = (x AND NOT (mask k)) + take_bit k x"
    unfolding take_bit_eq_mask by (subst disjunctive_add) (auto simp: bit_simps intro!: bit_word_eqI)
  then show ?thesis by (metis add_diff_cancel_right')
qed

lemma unat_align: "unat (x AND NOT (mask k)) = unat (x :: u64) - unat x mod 2 ^ k"
proof -
  have "unat (take_bit k x) = unat x mod 2 ^ k" unfolding unsigned_take_bit_eq by (rule take_bit_eq_mod)
  moreover have "take_bit k x \<le> x" by (simp add: word_le_nat_alt calculation)
  ultimately show ?thesis by (simp add: and_not_mask unat_sub)
qed

text \<open>The next multiple of \<open>2 ^ k\<close>.\<close>

definition up :: "nat \<Rightarrow> nat \<Rightarrow> nat" where
  "up k n = (n + (2 ^ k - 1)) div 2 ^ k * 2 ^ k"

lemma up_align:
  assumes "k < 64" "unat (x :: u64) + (2 ^ k - 1) < 2 ^ 64"
  shows "unat ((x + 2 ^ k - 1) AND NOT (2 ^ k - 1)) = up k (unat x)"
proof -
  have k: "unat (2 ^ k - 1 :: u64) = 2 ^ k - 1"
  proof -
    have "unat (2 ^ k :: u64) = 2 ^ k" using assms(1) by (simp add: unat_pow2)
    moreover have "1 \<le> (2 ^ k :: u64)" using calculation by (simp add: word_le_nat_alt)
    ultimately show ?thesis by (simp add: unat_sub)
  qed
  have m: "2 ^ k - 1 = (mask k :: u64)" by (simp add: mask_eq_exp_minus_1)
  then have x: "x + 2 ^ k - 1 = x + mask k" by (simp add: algebra_simps)
  have u: "unat (x + mask k) = unat x + (2 ^ k - 1)"
    using assms(2) k unfolding m by (subst unat_add_lem [THEN iffD1]) simp_all
  show ?thesis unfolding x m unat_align u up_def minus_mod_eq_div_mult ..
qed

lemma up_props: "2 ^ k dvd up k n" "n \<le> up k n" "up k n < n + 2 ^ k"
proof -
  show "2 ^ k dvd up k n" by (simp add: up_def)
  let ?m = "2 ^ k :: nat"
  have "(n + (?m - 1)) div ?m * ?m + (n + (?m - 1)) mod ?m = n + (?m - 1)" by (rule div_mult_mod_eq)
  moreover have "(n + (?m - 1)) mod ?m < ?m" by simp
  ultimately show "n \<le> up k n" "up k n < n + 2 ^ k" unfolding up_def by linarith+
qed

lemma up_shift: "2 ^ k dvd a \<Longrightarrow> up k (a + n) = a + up k n"
  by (auto simp: up_def add.assoc algebra_simps elim!: dvdE)

lemma unat_num: "unat (ucast (num :: u32) :: u64) = unat num"
proof -
  have "unat num < 2 ^ LENGTH(32)" by (rule unsigned_less)
  then show ?thesis by (simp add: unsigned_ucast_eq take_bit_nat_eq_self)
qed

end
