(* ===== verification/Tlv.thy ===== *)
theory Tlv
  imports ByteOrder Align
begin

text \<open>
  The messages of the cluster protocol TIPC as its configuration header reads and writes them
  (\<^verbatim>\<open>linux/tipc_config.h\<close>): items of type, length and value in a buffer, lists of them, the message header, and
  the addresses of \<^verbatim>\<open>linux/tipc.h\<close>. Pointers are places in a buffer of bytes; integers are stored through the
  byte order header of the image, on its little-endian host.
\<close>

section \<open>Fields in the buffer\<close>

definition get16 :: "u8 list \<Rightarrow> nat \<Rightarrow> u16" where
  "get16 buf p = from_mem False (got buf p 2)"

definition set16 :: "u8 list \<Rightarrow> nat \<Rightarrow> u16 \<Rightarrow> u8 list" where
  "set16 buf p x = fst (put buf p (in_mem False 2 x))"

definition set32 :: "u8 list \<Rightarrow> nat \<Rightarrow> u32 \<Rightarrow> u8 list" where
  "set32 buf p x = fst (put buf p (in_mem False 4 x))"

text \<open>\<open>struct tlv_desc\<close>: the length, then the type.\<close>

definition sizeof_tlv_desc :: u64 where "sizeof_tlv_desc = 4"

definition tlv_len :: "u8 list \<Rightarrow> nat \<Rightarrow> u16" where
  "tlv_len buf tlv = get16 buf tlv"

definition tlv_type :: "u8 list \<Rightarrow> nat \<Rightarrow> u16" where
  "tlv_type buf tlv = get16 buf (tlv + 2)"

section \<open>Items\<close>

definition TLV_ALIGNTO :: u64 where "TLV_ALIGNTO = 4"

definition TLV_ALIGN :: "u64 \<Rightarrow> u64" where
  "TLV_ALIGN datalen = (datalen + (TLV_ALIGNTO - 1)) AND NOT (TLV_ALIGNTO - 1)"

definition TLV_LENGTH :: "u64 \<Rightarrow> u64" where
  "TLV_LENGTH datalen = sizeof_tlv_desc + datalen"

definition TLV_SPACE :: "u64 \<Rightarrow> u64" where
  "TLV_SPACE datalen = TLV_ALIGN (TLV_LENGTH datalen)"

definition TLV_DATA :: "nat \<Rightarrow> nat" where
  "TLV_DATA tlv = tlv + unat (TLV_LENGTH 0)"

definition TLV_OK :: "u8 list \<Rightarrow> nat \<Rightarrow> u16 \<Rightarrow> bool" where
  "TLV_OK buf tlv space \<longleftrightarrow> TLV_SPACE 0 \<le> ucast space \<and> little_be16_to_cpu False (tlv_len buf tlv) \<le> space"

definition TLV_CHECK :: "u8 list \<Rightarrow> nat \<Rightarrow> u16 \<Rightarrow> u16 \<Rightarrow> bool" where
  "TLV_CHECK buf tlv space exp_type \<longleftrightarrow>
     TLV_OK buf tlv space \<and> little_be16_to_cpu False (tlv_type buf tlv) = exp_type"

definition TLV_GET_LEN :: "u8 list \<Rightarrow> nat \<Rightarrow> u16" where
  "TLV_GET_LEN buf tlv = little_be16_to_cpu False (tlv_len buf tlv)"

definition TLV_SET_LEN :: "u8 list \<Rightarrow> nat \<Rightarrow> u16 \<Rightarrow> u8 list" where
  "TLV_SET_LEN buf tlv len = set16 buf tlv (little_cpu_to_be16 False len)"

definition TLV_CHECK_TYPE :: "u8 list \<Rightarrow> nat \<Rightarrow> u16 \<Rightarrow> bool" where
  "TLV_CHECK_TYPE buf tlv type \<longleftrightarrow> little_be16_to_cpu False (tlv_type buf tlv) = type"

definition TLV_SET_TYPE :: "u8 list \<Rightarrow> nat \<Rightarrow> u16 \<Rightarrow> u8 list" where
  "TLV_SET_TYPE buf tlv type = set16 buf (tlv + 2) (little_cpu_to_be16 False type)"

text \<open>\<open>data\<close> is \<open>NULL\<close> or points to bytes; the length as an \<open>int\<close> is cut to 16 bits where it is stored.\<close>

definition TLV_SET :: "u8 list \<Rightarrow> nat \<Rightarrow> u16 \<Rightarrow> u8 list option \<Rightarrow> u16 \<Rightarrow> u8 list \<times> u64" where
  "TLV_SET buf tlv type data len =
     (let n = TLV_LENGTH (ucast len);
          b1 = set16 buf (tlv + 2) (little_cpu_to_be16 False type);
          b2 = set16 b1 tlv (little_cpu_to_be16 False (ucast n))
      in (case data of
            Some d \<Rightarrow>
              if len \<noteq> 0 then
                (let b3 = fst (put b2 (TLV_DATA tlv) (take (unat len) d))
                 in fst (put b3 (TLV_DATA tlv + unat len) (replicate (unat (TLV_SPACE (ucast len) - n)) 0)))
              else b2
          | None \<Rightarrow> b2, TLV_SPACE (ucast len)))"

section \<open>Lists\<close>

record tlv_list =
  tlv_ptr :: nat
  tlv_space :: u32

definition TLV_LIST_INIT :: "nat \<Rightarrow> u32 \<Rightarrow> tlv_list" where
  "TLV_LIST_INIT data space = \<lparr>tlv_ptr = data, tlv_space = space\<rparr>"

definition TLV_LIST_EMPTY :: "tlv_list \<Rightarrow> bool" where
  "TLV_LIST_EMPTY l \<longleftrightarrow> tlv_space l = 0"

definition TLV_LIST_CHECK :: "u8 list \<Rightarrow> tlv_list \<Rightarrow> u16 \<Rightarrow> bool" where
  "TLV_LIST_CHECK buf l exp_type = TLV_CHECK buf (tlv_ptr l) (ucast (tlv_space l)) exp_type"

definition TLV_LIST_DATA :: "tlv_list \<Rightarrow> nat" where
  "TLV_LIST_DATA l = TLV_DATA (tlv_ptr l)"

definition TLV_LIST_STEP :: "u8 list \<Rightarrow> tlv_list \<Rightarrow> tlv_list" where
  "TLV_LIST_STEP buf l =
     (let space = ucast (TLV_ALIGN (ucast (little_be16_to_cpu False (tlv_len buf (tlv_ptr l))))) :: u16
      in \<lparr>tlv_ptr = tlv_ptr l + unat space, tlv_space = tlv_space l - ucast space\<rparr>)"

section \<open>The message header\<close>

definition sizeof_tcm_hdr :: u64 where "sizeof_tcm_hdr = 16"

definition TCM_ALIGN :: "u64 \<Rightarrow> u64" where
  "TCM_ALIGN datalen = (datalen + 3) AND NOT 3"

definition TCM_LENGTH :: "u64 \<Rightarrow> u64" where
  "TCM_LENGTH datalen = sizeof_tcm_hdr + datalen"

definition TCM_SPACE :: "u64 \<Rightarrow> u64" where
  "TCM_SPACE datalen = TCM_ALIGN (TCM_LENGTH datalen)"

definition TCM_DATA :: "nat \<Rightarrow> nat" where
  "TCM_DATA msg = msg + unat (TCM_LENGTH 0)"

definition TCM_SET :: "u8 list \<Rightarrow> nat \<Rightarrow> u16 \<Rightarrow> u16 \<Rightarrow> u8 list option \<Rightarrow> u16 \<Rightarrow> u8 list \<times> u64" where
  "TCM_SET buf msg cmd flags data data_len =
     (let n = TCM_LENGTH (ucast data_len);
          b1 = set32 buf msg (little_cpu_to_be32 False (ucast n));
          b2 = set16 b1 (msg + 4) (little_cpu_to_be16 False cmd);
          b3 = set16 b2 (msg + 6) (little_cpu_to_be16 False flags)
      in (case data of
            Some d \<Rightarrow>
              if data_len \<noteq> 0 then
                (let b4 = fst (put b3 (TCM_DATA msg) (take (unat data_len) d))
                 in fst (put b4 (TCM_DATA msg + unat data_len) (replicate (unat (TCM_SPACE (ucast data_len) - n)) 0)))
              else b3
          | None \<Rightarrow> b3, TCM_SPACE (ucast data_len)))"

section \<open>Addresses\<close>

definition TIPC_NODE_BITS :: nat where "TIPC_NODE_BITS = 12"
definition TIPC_CLUSTER_BITS :: nat where "TIPC_CLUSTER_BITS = 12"
definition TIPC_ZONE_BITS :: nat where "TIPC_ZONE_BITS = 8"
definition TIPC_NODE_OFFSET :: nat where "TIPC_NODE_OFFSET = 0"
definition TIPC_CLUSTER_OFFSET :: nat where "TIPC_CLUSTER_OFFSET = TIPC_NODE_BITS"
definition TIPC_ZONE_OFFSET :: nat where "TIPC_ZONE_OFFSET = TIPC_CLUSTER_OFFSET + TIPC_CLUSTER_BITS"
definition TIPC_NODE_SIZE :: u64 where "TIPC_NODE_SIZE = push_bit TIPC_NODE_BITS 1 - 1"
definition TIPC_CLUSTER_SIZE :: u64 where "TIPC_CLUSTER_SIZE = push_bit TIPC_CLUSTER_BITS 1 - 1"
definition TIPC_ZONE_SIZE :: u64 where "TIPC_ZONE_SIZE = push_bit TIPC_ZONE_BITS 1 - 1"
definition TIPC_NODE_MASK :: u64 where "TIPC_NODE_MASK = push_bit TIPC_NODE_OFFSET TIPC_NODE_SIZE"
definition TIPC_CLUSTER_MASK :: u64 where "TIPC_CLUSTER_MASK = push_bit TIPC_CLUSTER_OFFSET TIPC_CLUSTER_SIZE"
definition TIPC_ZONE_MASK :: u64 where "TIPC_ZONE_MASK = push_bit TIPC_ZONE_OFFSET TIPC_ZONE_SIZE"

definition tipc_addr :: "u32 \<Rightarrow> u32 \<Rightarrow> u32 \<Rightarrow> u32" where
  "tipc_addr zone cluster node =
     push_bit TIPC_ZONE_OFFSET zone OR push_bit TIPC_CLUSTER_OFFSET cluster OR node"

definition tipc_zone :: "u32 \<Rightarrow> u32" where
  "tipc_zone addr = drop_bit TIPC_ZONE_OFFSET addr"

definition tipc_cluster :: "u32 \<Rightarrow> u32" where
  "tipc_cluster addr = ucast (drop_bit TIPC_CLUSTER_OFFSET (ucast addr AND TIPC_CLUSTER_MASK))"

definition tipc_node :: "u32 \<Rightarrow> u32" where
  "tipc_node addr = ucast (ucast addr AND TIPC_NODE_MASK)"

section \<open>The buffer\<close>

lemma put_after:
  assumes "p + length a + length c \<le> length buf"
  shows "fst (put (fst (put buf p a)) (p + length a) c) = fst (put buf p (a @ c))"
proof -
  have e: "length c + (p + length a) = p + (length a + length c)" by simp
  show ?thesis using assms by (simp add: put_def) (simp only: e)
qed

lemma put_before:
  assumes "p + length a + length c \<le> length buf"
  shows "fst (put (fst (put buf (p + length a) c)) p a) = fst (put buf p (a @ c))"
proof -
  have "length c + (p + length a) = p + (length a + length c)" by simp
  then show ?thesis using assms by (simp add: put_def add.assoc)
qed

lemma put_length [simp]: "p + length a \<le> length buf \<Longrightarrow> length (fst (put buf p a)) = length buf"
  by (simp add: put_def)

lemma got_inside: "p + length a \<le> length buf \<Longrightarrow> i + n \<le> length a \<Longrightarrow> got (fst (put buf p a)) (p + i) n = take n (drop i a)"
  by (simp add: got_def put_def)

lemma be16_field: "little_be16_to_cpu False (of_bytes (rev (bytes_le 2 x))) = x"
  by (simp add: little_be16_to_cpu_def swap16.of_reversed)

lemma set16_be: "set16 buf p (little_cpu_to_be16 False x) = fst (put buf p (rev (bytes_le 2 x)))"
  by (simp add: set16_def little_cpu_to_be16_def swap16.reverses in_mem_def)

lemma get16_be: "got buf p 2 = rev (bytes_le 2 x) \<Longrightarrow> little_be16_to_cpu False (get16 buf p) = x"
  by (simp add: get16_def from_mem_def be16_field)

section \<open>Sizes\<close>

lemma tlv_align:
  assumes "unat x + 3 < 2 ^ 64"
  shows "unat (TLV_ALIGN x) = up 2 (unat x)"
proof -
  have "TLV_ALIGN x = (x + 2 ^ 2 - 1) AND NOT (2 ^ 2 - 1)"
    by (simp add: TLV_ALIGN_def TLV_ALIGNTO_def add.commute)
  then show ?thesis using up_align [of 2 x] assms by simp
qed

lemma len_lt: "unat (len :: u16) < 65536"
  using unsigned_less [of len] by simp

lemma unat_len: "unat (ucast (len :: u16) :: u64) = unat len"
  using len_lt [of len] by (simp add: unsigned_ucast_eq take_bit_nat_eq_self)

lemma cut16: "unat (x :: u64) < 65536 \<Longrightarrow> unat (ucast x :: u16) = unat x" "unat (y :: u32) < 65536 \<Longrightarrow> unat (ucast y :: u16) = unat y"
  by (simp_all add: unsigned_ucast_eq take_bit_nat_eq_self)

lemma up32: "unat (ucast (len :: u16) :: u32) = unat len"
  using len_lt [of len] by (simp add: unsigned_ucast_eq take_bit_nat_eq_self)

lemma tlv_length: "unat (TLV_LENGTH (ucast (len :: u16))) = 4 + unat len"
  using len_lt [of len] by (simp add: TLV_LENGTH_def sizeof_tlv_desc_def unat_word_ariths unat_len)

lemma tlv_space: "unat (TLV_SPACE (ucast (len :: u16))) = up 2 (4 + unat len)"
  using len_lt [of len] by (simp add: TLV_SPACE_def tlv_align tlv_length)

lemma tlv_data: "TLV_DATA p = p + 4" "TLV_SPACE 0 = 4"
  by (simp_all add: TLV_DATA_def TLV_LENGTH_def sizeof_tlv_desc_def TLV_SPACE_def TLV_ALIGN_def TLV_ALIGNTO_def)

section \<open>One item\<close>

text \<open>The bytes of an item: length and type most significant byte first, the value, zeros up to the next
  multiple of four.\<close>

definition tlv_item :: "u16 \<Rightarrow> u8 list \<Rightarrow> u8 list" where
  "tlv_item t d = rev (bytes_le 2 (of_nat (4 + length d) :: u16)) @ rev (bytes_le 2 t) @ d @ replicate (up 2 (4 + length d) - (4 + length d)) 0"

lemma length_tlv_item [simp]: "length (tlv_item t d) = up 2 (4 + length d)"
  using up_props(2) [where k = 2 and n = "4 + length d"] by (simp add: tlv_item_def)

lemma set_item:
  assumes "length d < 65532" "p + up 2 (4 + length d) \<le> length buf"
  shows "TLV_SET buf p t (Some d) (of_nat (length d)) = (fst (put buf p (tlv_item t d)), TLV_SPACE (ucast (of_nat (length d) :: u16)))"
proof -
  let ?len = "of_nat (length d) :: u16"
  have len: "unat ?len = length d" using assms(1) by (simp add: unat_of_nat)
  have u: "4 + length d \<le> up 2 (4 + length d)" using up_props(2) [where k = 2 and n = "4 + length d"] by simp
  have n: "ucast (TLV_LENGTH (ucast ?len)) = (of_nat (4 + length d) :: u16)"
  proof (rule word_unat_eq_iff [THEN iffD2])
    have "unat (of_nat (4 + length d) :: u16) = 4 + length d" by (subst unat_of_nat) (use assms(1) in simp)
    then show "unat (ucast (TLV_LENGTH (ucast ?len)) :: u16) = unat (of_nat (4 + length d) :: u16)"
      using assms(1) by (simp add: unsigned_ucast_eq tlv_length len take_bit_nat_eq_self del: of_nat_add)
  qed
  have pad: "unat (TLV_SPACE (ucast ?len) - TLV_LENGTH (ucast ?len)) = up 2 (4 + length d) - (4 + length d)"
    by (subst unat_sub) (use u in \<open>simp_all add: word_le_nat_alt tlv_space tlv_length len\<close>)
  have head: "set16 (set16 buf (p + 2) (little_cpu_to_be16 False t)) p (little_cpu_to_be16 False (of_nat (4 + length d))) =
      fst (put buf p (rev (bytes_le 2 (of_nat (4 + length d) :: u16)) @ rev (bytes_le 2 t)))"
    unfolding set16_be using assms(2) u
      put_before [of p "rev (bytes_le 2 (of_nat (4 + length d) :: u16))" "rev (bytes_le 2 t)" buf] by simp
  show ?thesis
  proof (cases "d = []")
    case True
    have "up 2 4 = 4" by (simp add: up_def)
    then show ?thesis using True head n by (simp add: TLV_SET_def Let_def tlv_item_def)
  next
    case False
    then have "?len \<noteq> 0" using len by auto
    have run: "TLV_SET buf p t (Some d) ?len = (fst (put (fst (put
        (fst (put buf p (rev (bytes_le 2 (of_nat (4 + length d) :: u16)) @ rev (bytes_le 2 t)))) (p + 4) d))
        (p + 4 + length d) (replicate (up 2 (4 + length d) - (4 + length d)) 0)), TLV_SPACE (ucast ?len))"
      using \<open>?len \<noteq> 0\<close> by (simp only: TLV_SET_def Let_def n head option.case if_True simp_thms tlv_data pad len) simp
    have filled: "fst (put (fst (put buf p h)) (p + 4) d) = fst (put buf p (h @ d))" if "length h = 4" for h
      using put_after [of p h d buf] that assms(2) u by simp
    have pads: "fst (put (fst (put buf p (h @ d))) (p + 4 + length d) pd) = fst (put buf p (h @ d @ pd))"
      if "length h = 4" "length pd = up 2 (4 + length d) - (4 + length d)" for h pd
    proof -
      have e: "p + length (h @ d) = p + 4 + length d" using that(1) by simp
      show ?thesis using put_after [of p "h @ d" pd buf] that assms(2) u unfolding e by simp
    qed
    have "length (rev (bytes_le 2 (of_nat (4 + length d) :: u16)) @ rev (bytes_le 2 t)) = 4" by simp
    note h = this
    show ?thesis unfolding run filled [OF h] pads [OF h length_replicate] tlv_item_def by (simp only: append_assoc)
  qed
qed

text \<open>What the readers see where an item lies.\<close>

lemma item_at:
  assumes "got buf p (up 2 (4 + length d)) = tlv_item t d" "length d < 65532"
  shows "TLV_GET_LEN buf p = of_nat (4 + length d)" "TLV_CHECK_TYPE buf p t"
    "TLV_CHECK buf p space t \<longleftrightarrow> 4 + length d \<le> unat space"
    "got buf (TLV_DATA p) (length d) = d"
proof -
  let ?n = "up 2 (4 + length d)"
  have u: "4 + length d \<le> ?n" using up_props(2) [where k = 2 and n = "4 + length d"] by simp
  have part: "got buf (p + i) m = take m (drop i (tlv_item t d))" if "i + m \<le> ?n" for i m
  proof -
    have "got buf (p + i) m = take m (drop i (got buf p ?n))"
      using that by (simp add: got_def drop_take min_def add.commute)
    then show ?thesis by (simp add: assms(1))
  qed
  have l: "unat (of_nat (4 + length d) :: u16) = 4 + length d" by (subst unat_of_nat) (use assms(2) in simp)
  have len: "little_be16_to_cpu False (tlv_len buf p) = of_nat (4 + length d)"
    unfolding tlv_len_def using part [of 0 2] u by (intro get16_be) (simp add: tlv_item_def)
  have type: "little_be16_to_cpu False (tlv_type buf p) = t"
    unfolding tlv_type_def using part [of 2 2] u by (intro get16_be) (simp add: tlv_item_def)
  show "TLV_GET_LEN buf p = of_nat (4 + length d)" "TLV_CHECK_TYPE buf p t"
    by (simp_all only: TLV_GET_LEN_def TLV_CHECK_TYPE_def len type)
  have "4 \<le> (ucast space :: u64) \<longleftrightarrow> 4 \<le> unat space" by (simp add: word_le_nat_alt unat_len)
  then show "TLV_CHECK buf p space t \<longleftrightarrow> 4 + length d \<le> unat space"
    using l by (auto simp: TLV_CHECK_def TLV_OK_def len type tlv_data word_le_nat_alt simp del: of_nat_add)
  show "got buf (TLV_DATA p) (length d) = d"
    using part [of 4 "length d"] u by (simp add: tlv_data tlv_item_def)
qed

text \<open>An item that is written is read back: its length, its type, its value, zeros to the next multiple of
  four; a check of it succeeds exactly when the space left reaches to the end of its value; the rest of the
  buffer is as it was.\<close>

theorem item_roundtrip:
  assumes "length d < 65532" "p + up 2 (4 + length d) \<le> length buf"
  shows "(let (b, n) = TLV_SET buf p t (Some d) (of_nat (length d)) in
    unat n = up 2 (4 + length d) \<and> TLV_GET_LEN b p = of_nat (4 + length d) \<and> TLV_CHECK_TYPE b p t \<and>
    (TLV_CHECK b p space t \<longleftrightarrow> 4 + length d \<le> unat space) \<and> got b (TLV_DATA p) (length d) = d \<and>
    length b = length buf \<and> take p b = take p buf \<and> drop (p + unat n) b = drop (p + unat n) buf)"
proof -
  let ?len = "of_nat (length d) :: u16"
  have len: "unat ?len = length d" using assms(1) by (simp add: unat_of_nat)
  let ?b = "fst (put buf p (tlv_item t d))"
  have "got ?b p (up 2 (4 + length d)) = tlv_item t d"
    using got_inside [of p "tlv_item t d" buf 0 "up 2 (4 + length d)"] assms(2) by simp
  note at = item_at [OF this assms(1)]
  have "length ?b = length buf" "take p ?b = take p buf" "drop (p + up 2 (4 + length d)) ?b = drop (p + up 2 (4 + length d)) buf"
    using assms(2) by (simp_all add: put_def)
  then show ?thesis
    unfolding set_item [OF assms] Let_def prod.case tlv_space len using at by blast
qed

theorem item_roundtrip_witness:
  "TLV_CHECK (fst (TLV_SET (replicate 16 7) 4 3 (Some [1, 2, 3, 4, 5]) 5)) 4 9 3 \<and>
   \<not> TLV_CHECK (fst (TLV_SET (replicate 16 7) 4 3 (Some [1, 2, 3, 4, 5]) 5)) 4 8 3"
  using item_roundtrip [of "[1, 2, 3, 4, 5]" 4 "replicate 16 7" 3 9] item_roundtrip [of "[1, 2, 3, 4, 5]" 4 "replicate 16 7" 3 8]
  by (simp add: up_def split: prod.splits)

section \<open>Lists of items\<close>

text \<open>A list written item after item, and read with the calls for lists, each item with the type expected.\<close>

fun write_items :: "u8 list \<Rightarrow> nat \<Rightarrow> (u16 \<times> u8 list) list \<Rightarrow> u8 list" where
  "write_items buf p [] = buf"
| "write_items buf p ((t, d) # xs) =
     (case TLV_SET buf p t (Some d) (of_nat (length d)) of (b, n) \<Rightarrow> write_items b (p + unat n) xs)"

fun read_items :: "u8 list \<Rightarrow> u16 list \<Rightarrow> tlv_list \<Rightarrow> u8 list list option" where
  "read_items buf [] l = (if TLV_LIST_EMPTY l then Some [] else None)"
| "read_items buf (t # ts) l =
     (if \<not> TLV_LIST_EMPTY l \<and> TLV_LIST_CHECK buf l t then
        map_option ((#) (got buf (TLV_LIST_DATA l) (unat (TLV_GET_LEN buf (tlv_ptr l)) - unat (TLV_LENGTH 0))))
          (read_items buf ts (TLV_LIST_STEP buf l))
      else None)"

definition items_space :: "(u16 \<times> u8 list) list \<Rightarrow> nat" where
  "items_space xs = (\<Sum>(t, d) \<leftarrow> xs. up 2 (4 + length d))"

lemma items_space_Cons [simp]: "items_space ((t, d) # xs) = up 2 (4 + length d) + items_space xs" "items_space [] = 0"
  by (simp_all add: items_space_def)

lemma write_frame:
  assumes "items_space xs < 65536" "p + items_space xs \<le> length buf"
  shows "length (write_items buf p xs) = length buf \<and> take p (write_items buf p xs) = take p buf"
  using assms
proof (induction xs arbitrary: buf p)
  case (Cons x xs)
  obtain t d where x: "x = (t, d)" by (cases x)
  let ?n = "up 2 (4 + length d)"
  have u: "4 + length d \<le> ?n" using up_props(2) [where k = 2 and n = "4 + length d"] by simp
  then have d: "length d < 65532" "unat (of_nat (length d) :: u16) = length d" using Cons.prems(1) x by (simp_all add: unat_of_nat)
  let ?b = "fst (put buf p (tlv_item t d))"
  have run: "write_items buf p (x # xs) = write_items ?b (p + ?n) xs"
    using Cons.prems(2) x d by (simp add: set_item tlv_space)
  have whole: "p + length (tlv_item t d) \<le> length buf" using Cons.prems(2) x by simp
  have room: "items_space xs < 65536" "p + ?n + items_space xs \<le> length ?b" using Cons.prems x put_length [OF whole] by simp_all
  have "length (write_items ?b (p + ?n) xs) = length buf \<and> take (p + ?n) (write_items ?b (p + ?n) xs) = take (p + ?n) ?b"
    using Cons.IH [OF room] put_length [OF whole] by (simp only: simp_thms)
  moreover have "take p ?b = take p buf" using Cons.prems(2) x by (simp add: put_def)
  moreover have "take p w = take p (take (p + ?n) w)" for w :: "u8 list" by simp
  ultimately show ?case unfolding run by metis
qed simp

lemma list_step:
  assumes "got buf (tlv_ptr l) (up 2 (4 + length d)) = tlv_item t d" "up 2 (4 + length d) < 65536"
  shows "TLV_LIST_STEP buf l = \<lparr>tlv_ptr = tlv_ptr l + up 2 (4 + length d), tlv_space = tlv_space l - of_nat (up 2 (4 + length d))\<rparr>"
proof -
  let ?n = "up 2 (4 + length d)"
  have u: "4 + length d \<le> ?n" "?n < 4 + length d + 2 ^ 2" using up_props(2,3) [where k = 2 and n = "4 + length d"] by simp_all
  then have d: "length d < 65532" using assms(2) by simp
  have l: "unat (of_nat (4 + length d) :: u16) = 4 + length d" by (subst unat_of_nat) (use d in simp)
  have len: "little_be16_to_cpu False (tlv_len buf (tlv_ptr l)) = of_nat (4 + length d)"
    using item_at(1) [OF assms(1) d] by (simp add: TLV_GET_LEN_def)
  have "unat (TLV_ALIGN (ucast (of_nat (4 + length d) :: u16))) = ?n"
    by (subst tlv_align) (use d in \<open>simp_all only: unat_len l\<close>, simp)
  then have n: "unat (ucast (TLV_ALIGN (ucast (of_nat (4 + length d) :: u16))) :: u16) = ?n"
    using assms(2) by (subst cut16(1)) simp_all
  have "unat (of_nat ?n :: u32) = ?n" by (subst unat_of_nat) (use assms(2) in simp)
  then have "ucast (ucast (TLV_ALIGN (ucast (of_nat (4 + length d) :: u16))) :: u16) = (of_nat ?n :: u32)"
    by (intro word_unat_eq_iff [THEN iffD2]) (simp only: up32 n)
  then show ?thesis unfolding TLV_LIST_STEP_def Let_def len by (simp only: n)
qed

text \<open>C36 A list of items, written one after the other, is read back as it was with the calls for lists, whatever
  comes after it in the buffer, as long as it fits the 16 bits of the space that the check takes.\<close>

theorem list_roundtrip:
  assumes "items_space xs < 65536" "p + items_space xs \<le> length buf"
  shows "read_items (write_items buf p xs) (map fst xs) (TLV_LIST_INIT p (of_nat (items_space xs))) = Some (map snd xs)"
  using assms
proof (induction xs arbitrary: buf p)
  case Nil
  show ?case by (simp add: TLV_LIST_INIT_def TLV_LIST_EMPTY_def)
next
  case (Cons x xs)
  obtain t d where x: "x = (t, d)" by (cases x)
  let ?n = "up 2 (4 + length d)" and ?s = "items_space xs"
  have u: "4 + length d \<le> ?n" using up_props(2) [where k = 2 and n = "4 + length d"] by simp
  then have d: "length d < 65532" "unat (of_nat (length d) :: u16) = length d" using Cons.prems(1) x by (simp_all add: unat_of_nat)
  let ?b = "fst (put buf p (tlv_item t d))"
  let ?w = "write_items ?b (p + ?n) xs" and ?l = "TLV_LIST_INIT p (of_nat (items_space (x # xs)))"
  have run: "write_items buf p ((t, d) # xs) = ?w" using Cons.prems(2) x d by (simp add: set_item tlv_space)
  have room: "?s < 65536" "p + ?n + ?s \<le> length ?b" using Cons.prems x by simp_all
  have "take (p + ?n) ?w = take (p + ?n) ?b" using write_frame [OF room] by simp
  then have "got ?w p ?n = got ?b p ?n" unfolding got_def by (metis take_drop add.commute)
  also have "\<dots> = tlv_item t d" using got_inside [of p "tlv_item t d" buf 0 ?n] Cons.prems(2) x by simp
  finally have here: "got ?w p ?n = tlv_item t d" .
  note at = item_at [OF here d(1)]
  have sp: "unat (of_nat (?n + ?s) :: u32) = ?n + ?s" by (subst unat_of_nat) (use Cons.prems(1) x in simp)
  then have cut: "unat (ucast (of_nat (?n + ?s) :: u32) :: u16) = ?n + ?s"
    using Cons.prems(1) x by (subst cut16(2)) simp_all
  have "TLV_LIST_CHECK ?w ?l t"
    unfolding TLV_LIST_CHECK_def TLV_LIST_INIT_def using at(3) cut u x by (simp del: of_nat_add)
  moreover have "\<not> TLV_LIST_EMPTY ?l" unfolding TLV_LIST_EMPTY_def TLV_LIST_INIT_def
  proof
    assume "tlv_space \<lparr>tlv_ptr = p, tlv_space = of_nat (items_space (x # xs))\<rparr> = 0"
    then have "unat (of_nat (?n + ?s) :: u32) = 0" using x by (simp del: of_nat_add)
    then show False using sp u by simp
  qed
  moreover have "TLV_LIST_STEP ?w ?l = TLV_LIST_INIT (p + ?n) (of_nat ?s)"
    by (subst list_step [where t = t and d = d]) (use here Cons.prems(1) x in \<open>simp_all add: TLV_LIST_INIT_def\<close>)
  moreover have "unat (of_nat (4 + length d) :: u16) - unat (TLV_LENGTH 0) = length d"
    by (subst unat_of_nat) (use d in \<open>simp add: TLV_LENGTH_def sizeof_tlv_desc_def\<close>)
  ultimately show ?case
    using Cons.IH [OF room] at(1,4) unfolding x run list.map fst_conv read_items.simps
    by (simp add: TLV_LIST_DATA_def TLV_LIST_INIT_def del: of_nat_add)
qed

theorem list_roundtrip_witness:
  "read_items (write_items (replicate 24 0) 4 [(1, [7]), (2, []), (3, [1, 2, 3, 4])]) [1, 2, 3] (TLV_LIST_INIT 4 20) =
    Some [[7], [], [1, 2, 3, 4]]"
  using list_roundtrip [of "[(1, [7]), (2, []), (3, [1, 2, 3, 4])]" 4 "replicate 24 0"] by (simp add: up_def)

section \<open>Where lists go wrong\<close>

text \<open>C37 A walk over a list of items, which checks an item, uses it and steps on until the list is empty, need not end: at an item whose length says 0 the
  list is not empty, the item passes the check of its length and type (\<open>TLV_LIST_CHECK\<close>, for the type that it has), and however often the
  step is made, the list is still there. The space left must be 4 at least in its low 16 bits, which are what the check
  looks at.\<close>

theorem empty_length_never_ends:
  assumes "tlv_len buf (tlv_ptr l) = 0" "4 \<le> unat (ucast (tlv_space l) :: u16)"
  shows "(let l' = (TLV_LIST_STEP buf ^^ n) l in
    l' = l \<and> \<not> TLV_LIST_EMPTY l' \<and> TLV_LIST_CHECK buf l' (little_be16_to_cpu False (tlv_type buf (tlv_ptr l))))"
proof -
  have z: "little_be16_to_cpu False 0 = 0" by (simp add: little_be16_to_cpu_def swab16_def fswab16_def constant_swab16_def)
  have "TLV_ALIGN (ucast (0 :: u16)) = 0" by (simp add: TLV_ALIGN_def TLV_ALIGNTO_def)
  then have "TLV_LIST_STEP buf l = l" by (cases l) (use assms(1) z in \<open>simp add: TLV_LIST_STEP_def Let_def\<close>)
  then have "(TLV_LIST_STEP buf ^^ n) l = l" by (induction n) simp_all
  moreover have "TLV_OK buf (tlv_ptr l) (ucast (tlv_space l))"
    using assms z by (simp add: TLV_OK_def tlv_data word_le_nat_alt unat_len)
  moreover have "\<not> TLV_LIST_EMPTY l" using assms(2) by (auto simp: TLV_LIST_EMPTY_def)
  ultimately show ?thesis by (simp add: Let_def TLV_LIST_CHECK_def TLV_CHECK_def)
qed

theorem empty_length_never_ends_witness:
  "(TLV_LIST_STEP [0, 0, 0, 1, 9, 9, 9, 9] ^^ 1000) (TLV_LIST_INIT 0 8) = TLV_LIST_INIT 0 8"
proof -
  have "tlv_len [0, 0, 0, 1, 9, 9, 9, 9] 0 = 0"
    by (simp add: tlv_len_def get16_def from_mem_def got_def)
  with empty_length_never_ends [of "[0, 0, 0, 1, 9, 9, 9, 9]" "TLV_LIST_INIT 0 8" 1000] show ?thesis
    by (simp add: TLV_LIST_INIT_def Let_def)
qed

text \<open>An item that ends the list without its padding passes the check, but the step over it takes the padding
  from the space all the same: the space left wraps around to more than four thousand million bytes.\<close>

theorem unpadded_end_underflows:
  assumes "TLV_GET_LEN buf (tlv_ptr l) = len" "tlv_space l = ucast len" "unat len mod 4 \<noteq> 0" "4 \<le> unat len" "unat len < 65533"
  shows "TLV_OK buf (tlv_ptr l) (ucast (tlv_space l)) \<and> unat (tlv_space (TLV_LIST_STEP buf l)) = 2 ^ 32 - (4 - unat len mod 4)"
proof -
  let ?n = "unat len"
  have up: "up 2 ?n = ?n + (4 - ?n mod 4)"
  proof -
    have "(?n + 3) div 4 = ?n div 4 + 1" using assms(3) by presburger
    then show ?thesis by (simp add: up_def) presburger
  qed
  have small: "up 2 ?n < 65536" using up assms(3,5) mod_less_divisor [of 4 ?n] by presburger
  have get: "little_be16_to_cpu False (tlv_len buf (tlv_ptr l)) = len" using assms(1) by (simp add: TLV_GET_LEN_def)
  have "unat (TLV_ALIGN (ucast len)) = up 2 ?n"
    by (subst tlv_align) (use len_lt [of len] in \<open>simp_all add: unat_len\<close>)
  then have n: "unat (ucast (TLV_ALIGN (ucast len)) :: u16) = up 2 ?n" using small by (subst cut16(1)) simp_all
  have s: "tlv_space (TLV_LIST_STEP buf l) = (ucast len :: u32) - ucast (ucast (TLV_ALIGN (ucast len)) :: u16)"
    by (simp only: TLV_LIST_STEP_def Let_def get assms(2) tlv_list.select_convs)
  have "?n < up 2 ?n" using up assms(3) mod_less_divisor [of 4 ?n] by simp
  then have "unat (tlv_space (TLV_LIST_STEP buf l)) = 2 ^ 32 + ?n - up 2 ?n"
    unfolding s unat_sub_if_size word_le_nat_alt up32 n by (simp add: word_size)
  then have "unat (tlv_space (TLV_LIST_STEP buf l)) = 2 ^ 32 - (4 - ?n mod 4)" unfolding up by simp
  moreover have "ucast (tlv_space l) = len"
    unfolding assms(2) by (rule word_unat_eq_iff [THEN iffD2], subst cut16(2)) (simp_all add: up32 len_lt)
  ultimately show ?thesis using assms(1,4) by (simp add: TLV_OK_def tlv_data word_le_nat_alt unat_len get)
qed

theorem unpadded_end_underflows_witness:
  "unat (tlv_space (TLV_LIST_STEP [0, 5, 0, 1, 9] (TLV_LIST_INIT 0 5))) = 2 ^ 32 - 3"
proof -
  have "TLV_GET_LEN [0, 5, 0, 1, 9] 0 = 5" by code_simp
  with unpadded_end_underflows [of "[0, 5, 0, 1, 9]" "TLV_LIST_INIT 0 5" 5] show ?thesis
    by (simp add: TLV_LIST_INIT_def)
qed

text \<open>A list of more than 65535 bytes is checked with the low 16 bits of its space only.\<close>

theorem check_cuts_space:
  "\<not> TLV_LIST_CHECK buf \<lparr>tlv_ptr = p, tlv_space = 0x10000\<rparr> t"
  by (simp add: TLV_LIST_CHECK_def TLV_CHECK_def TLV_OK_def tlv_data)

section \<open>Addresses\<close>

text \<open>An address packs zone, cluster and node without loss when each fits its field, and the three parts of any
  address pack to it again; a node number that does not fit changes the cluster.\<close>

theorem address_roundtrip:
  "(unat z < 2 ^ 8 \<and> unat c < 2 ^ 12 \<and> unat n < 2 ^ 12 \<longrightarrow>
     tipc_zone (tipc_addr z c n) = z \<and> tipc_cluster (tipc_addr z c n) = c \<and> tipc_node (tipc_addr z c n) = n) \<and>
   tipc_addr (tipc_zone a) (tipc_cluster a) (tipc_node a) = a \<and>
   tipc_cluster (tipc_addr 0 0 0x1000) = 1"
proof -
  have m: "TIPC_CLUSTER_MASK = push_bit 12 (mask 12)" "TIPC_NODE_MASK = mask 12"
    by (simp_all add: TIPC_CLUSTER_MASK_def TIPC_NODE_MASK_def TIPC_CLUSTER_SIZE_def TIPC_NODE_SIZE_def TIPC_CLUSTER_OFFSET_def
        TIPC_NODE_OFFSET_def TIPC_NODE_BITS_def TIPC_CLUSTER_BITS_def mask_eq_exp_minus_1)
  have o: "TIPC_ZONE_OFFSET = 24" "TIPC_CLUSTER_OFFSET = 12"
    by (simp_all add: TIPC_ZONE_OFFSET_def TIPC_CLUSTER_OFFSET_def TIPC_NODE_BITS_def TIPC_CLUSTER_BITS_def)
  note defs = tipc_addr_def tipc_zone_def tipc_cluster_def tipc_node_def m o
  have fit: "bit (x :: u32) i \<Longrightarrow> unat x < 2 ^ k \<Longrightarrow> i < k" for x i k
    by (metis bit_take_bit_iff take_bit_nat_eq_self_iff take_bit_nat_less_exp unsigned_take_bit_eq word_unat_eq_iff)
  have "tipc_zone (tipc_addr z c n) = z" "tipc_cluster (tipc_addr z c n) = c" "tipc_node (tipc_addr z c n) = n"
    if "unat z < 2 ^ 8" "unat c < 2 ^ 12" "unat n < 2 ^ 12"
  proof -
    have f: "bit z i \<Longrightarrow> i < 8" "bit c i \<Longrightarrow> i < 12" "bit n i \<Longrightarrow> i < 12" for i
      using fit [of z i 8] fit [of c i 12] fit [of n i 12] that by simp_all
    show "tipc_zone (tipc_addr z c n) = z" "tipc_cluster (tipc_addr z c n) = c" "tipc_node (tipc_addr z c n) = n"
      unfolding defs by (rule bit_word_eqI, auto simp: bit_simps dest: f)+
  qed
  moreover have "tipc_addr (tipc_zone a) (tipc_cluster a) (tipc_node a) = a"
    unfolding defs
  proof (rule bit_word_eqI)
    fix i assume "i < LENGTH(32)"
    then show "bit (push_bit 24 (drop_bit 24 a) OR push_bit 12 (ucast (drop_bit 12 (ucast a AND push_bit 12 (mask 12) :: u64))) OR
        ucast (ucast a AND mask 12 :: u64)) i = bit a i"
      by (cases "i < 24") (auto simp: bit_simps)
  qed
  moreover have "tipc_cluster (tipc_addr 0 0 0x1000) = 1"
    unfolding defs by (rule bit_word_eqI) (auto simp: bit_simps)
  ultimately show ?thesis by blast
qed

theorem address_roundtrip_witness:
  "tipc_zone (tipc_addr 1 2 3) = 1 \<and> tipc_cluster (tipc_addr 1 2 3) = 2 \<and> tipc_node (tipc_addr 1 2 3) = 3"
  using address_roundtrip [of 1 2 3 0] by simp

end
