(* ===== verification/Vring.thy ===== *)
theory Vring
  imports Align
begin

text \<open>
  The ring of buffers that a guest shares with its host (\<^verbatim>\<open>linux/virtio_ring.h\<close>): where its parts lie, the
  size of the whole, and when an index asks for a notification. Addresses are 64-bit words; the sizes of the
  structures are those of the C types (16 bytes a descriptor, 2 an index, 8 a used element).
\<close>

section \<open>Layout\<close>

record vring =
  vr_num :: u32
  vr_desc :: u64
  vr_avail :: u64
  vr_used :: u64

definition sizeof_desc :: u64 where "sizeof_desc = 16"
definition sizeof_virtio16 :: u64 where "sizeof_virtio16 = 2"
definition sizeof_used_elem :: u64 where "sizeof_used_elem = 8"

text \<open>\<open>&avail->ring[num]\<close>, the place of \<open>vring_used_event\<close>, and the place of \<open>vring_avail_event\<close>.\<close>

definition vring_used_event_at :: "vring \<Rightarrow> u64" where
  "vring_used_event_at vr = vr_avail vr + 2 * sizeof_virtio16 + ucast (vr_num vr) * sizeof_virtio16"

definition vring_avail_event_at :: "vring \<Rightarrow> u64" where
  "vring_avail_event_at vr = vr_used vr + 2 * sizeof_virtio16 + ucast (vr_num vr) * sizeof_used_elem"

definition vring_init :: "u32 \<Rightarrow> u64 \<Rightarrow> u64 \<Rightarrow> vring" where
  "vring_init num p align =
     (let vr = \<lparr>vr_num = num, vr_desc = p, vr_avail = p + ucast num * sizeof_desc, vr_used = 0\<rparr>
      in vr\<lparr>vr_used := (vring_used_event_at vr + sizeof_virtio16 + align - 1) AND NOT (align - 1)\<rparr>)"

definition vring_size :: "u32 \<Rightarrow> u64 \<Rightarrow> u32" where
  "vring_size num align =
     ucast (((sizeof_desc * ucast num + sizeof_virtio16 * ucast (3 + num) + align - 1) AND NOT (align - 1)) +
       sizeof_virtio16 * 3 + sizeof_used_elem * ucast num)"

definition vring_need_event :: "u16 \<Rightarrow> u16 \<Rightarrow> u16 \<Rightarrow> bool" where
  "vring_need_event event_idx new_idx old \<longleftrightarrow> new_idx - event_idx - 1 < new_idx - old"

section \<open>What the ring promises\<close>

text \<open>C38 A ring laid out at an aligned address has its parts one after the other without overlap: the descriptors,
  the available ring with its event index, the used ring at the next aligned address; the last event index
  ends exactly where \<open>vring_size\<close> says that the ring ends. This holds of rings that fit: \<open>vring_size\<close> is a 32-bit number, so a ring of \<open>n\<close> descriptors at an
  alignment \<open>a\<close>, a power of two, must have 26n + 12 + a below 2^32, and the ring must end below 2^64; a ring of 2^28 descriptors has a cut size.\<close>

theorem vring_layout:
  assumes fits: "26 * unat num + 12 + 2 ^ k < 2 ^ 32" "unat p + (26 * unat num + 12 + 2 ^ k) < 2 ^ 64"
    and aligned: "2 ^ k dvd unat p"
  shows "(let vr = vring_init num p (2 ^ k) in
    vr_desc vr = p \<and> unat (vr_avail vr) = unat p + 16 * unat num \<and>
    unat (vring_used_event_at vr) = unat (vr_avail vr) + 4 + 2 * unat num \<and>
    unat (vring_used_event_at vr) + 2 \<le> unat (vr_used vr) \<and> 2 ^ k dvd unat (vr_used vr) \<and>
    unat (vr_used vr) < unat (vring_used_event_at vr) + 2 + 2 ^ k \<and>
    unat (vring_avail_event_at vr) + 2 = unat p + unat (vring_size num (2 ^ k)))"
proof -
  let ?n = "unat num"
  have k: "k < 64"
  proof (rule ccontr)
    assume "\<not> k < 64"
    then have "(2::nat) ^ 64 \<le> 2 ^ k" by (intro power_increasing) simp_all
    then show False using fits(1) by simp
  qed
  define e :: u64 where "e = p + ucast num * 16 + 4 + ucast num * 2 + 2"
  define s :: u64 where "s = 16 * ucast num + 2 * ucast (3 + num)"
  have e: "unat e = unat p + (18 * ?n + 6)"
    using fits by (simp add: e_def unat_word_ariths unat_num)
  have s: "unat s = 18 * ?n + 6"
    using fits by (simp add: s_def unat_word_ariths unat_num)
  have used: "unat ((e + 2 ^ k - 1) AND NOT (2 ^ k - 1)) = unat p + up k (18 * ?n + 6)"
    using fits by (subst up_align [OF k]) (simp_all add: e up_shift [OF aligned])
  have size: "unat ((s + 2 ^ k - 1) AND NOT (2 ^ k - 1)) = up k (18 * ?n + 6)"
    using fits by (subst up_align [OF k]) (simp_all add: s)
  note u = up_props [where k = k and n = "18 * ?n + 6"]
  let ?vr = "vring_init num p (2 ^ k)"
  have vr: "vr_desc ?vr = p" "vr_num ?vr = num" "vr_avail ?vr = p + ucast num * 16" "vr_used ?vr = (e + 2 ^ k - 1) AND NOT (2 ^ k - 1)"
    by (simp_all add: vring_init_def Let_def vring_used_event_at_def sizeof_desc_def sizeof_virtio16_def e_def algebra_simps)
  have avail: "unat (vr_avail ?vr) = unat p + 16 * ?n"
    using fits by (simp add: vr unat_word_ariths unat_num)
  have event: "unat (vring_used_event_at ?vr) = unat p + 16 * ?n + 4 + 2 * ?n"
    using fits by (simp add: vring_used_event_at_def vr sizeof_virtio16_def unat_word_ariths unat_num)
  have last: "unat (vring_avail_event_at ?vr) = unat p + up k (18 * ?n + 6) + 4 + 8 * ?n"
    using fits u used by (simp add: vring_avail_event_at_def vr sizeof_virtio16_def sizeof_used_elem_def unat_word_ariths unat_num)
  have total: "unat (vring_size num (2 ^ k)) = up k (18 * ?n + 6) + 6 + 8 * ?n"
  proof -
    let ?x = "((s + 2 ^ k - 1) AND NOT (2 ^ k - 1)) + 2 * 3 + 8 * ucast num :: u64"
    have x: "unat ?x = up k (18 * ?n + 6) + 6 + 8 * ?n"
      using fits u size by (simp add: unat_word_ariths unat_num)
    then have "unat ?x < 2 ^ 32" using fits u by simp
    moreover have "vring_size num (2 ^ k) = ucast ?x"
      by (simp add: vring_size_def sizeof_desc_def sizeof_virtio16_def sizeof_used_elem_def s_def)
    ultimately show ?thesis using x by (simp add: unsigned_ucast_eq take_bit_nat_eq_self)
  qed
  show ?thesis
    unfolding Let_def avail event last total vr(1) vr(4) used using u aligned by (auto intro: dvd_add)
qed

theorem vring_layout_witness:
  "unat (vring_avail_event_at (vring_init 256 0x80001000 (2 ^ 12))) + 2 = unat (0x80001000 :: u64) + unat (vring_size 256 (2 ^ 12))"
  using vring_layout [of 256 12 "0x80001000"] unfolding Let_def by (simp add: dvd_eq_mod_eq_0)

text \<open>An index asks for a notification exactly when it is among those passed since the last one, from the old
  index up to the new, however the indices wrap around.\<close>

theorem event_among_passed:
  "vring_need_event e n old \<longleftrightarrow> (\<exists>i < unat (n - old). e = old + of_nat i)"
proof -
  have w: "d - x - 1 < d \<longleftrightarrow> x < d" for d x :: u16 by uint_arith
  have "vring_need_event e n old \<longleftrightarrow> (n - old) - (e - old) - 1 < n - old" by (simp add: vring_need_event_def)
  also have "\<dots> \<longleftrightarrow> e - old < n - old" by (rule w)
  also have "\<dots> \<longleftrightarrow> unat (e - old) < unat (n - old)" by (rule word_less_nat_alt)
  also have "\<dots> \<longleftrightarrow> (\<exists>i < unat (n - old). e = old + of_nat i)"
  proof
    assume "unat (e - old) < unat (n - old)"
    then show "\<exists>i < unat (n - old). e = old + of_nat i" by (intro exI [of _ "unat (e - old)"]) simp
  next
    assume "\<exists>i < unat (n - old). e = old + of_nat i"
    then obtain i where i: "i < unat (n - old)" "e = old + of_nat i" by blast
    have "unat (n - old) < 2 ^ LENGTH(16)" by (rule unsigned_less)
    then have "i < 2 ^ 16" using i(1) by simp
    then show "unat (e - old) < unat (n - old)" using i by (simp add: unat_of_nat)
  qed
  finally show ?thesis .
qed

end
