(* ===== verification/Mem64.thy ===== *)
theory Mem64
  imports Kerr Entries ByteOrder
begin

text \<open>
  The memory of a guest program (\<^verbatim>\<open>src/src/vm/mem64.ts\<close>): pages that are made when something other than
  zero is first written to them, within a budget. Addresses are integers (\<open>bigint\<close>); a page is its number
  and its bytes. The floating point accesses, which copy the same bytes, are not modelled. \<open>mem_ok\<close> is what
  every operation keeps; \<open>byte\<close> reads a memory as a function from addresses, and the operations are shown to be
  those of such a flat memory; \<open>mem_store\<close> states what all stores share.
\<close>

section \<open>State\<close>

definition PG :: nat where "PG = 65536"

record mem =
  m_page :: "(nat \<times> u8 list) list"
  m_used :: nat
  m_top :: int
  m_cap :: nat

definition new_mem :: "int \<Rightarrow> nat \<Rightarrow> errno + mem" where
  "new_mem mtop cap =
     (if mtop < 1024 * 1024 \<or> 2 ^ 53 - 1 < mtop then Inl ENOEXEC
      else if 2 ^ 53 - 1 < cap \<or> cap < PG then Inl ENOMEM
      else Inr \<lparr>m_page = [], m_used = 0, m_top = mtop, m_cap = cap\<rparr>)"

section \<open>Operations\<close>

definition chk :: "int \<Rightarrow> nat \<Rightarrow> (mem, unit) kop" where
  "chk at n = bnd (asks m_top) (\<lambda>t. check (\<not> (at < 0 \<or> t < at + int n)) ERANGE)"

definition make :: "nat \<Rightarrow> (mem, unit) kop" where
  "make n =
     bnd (asks (\<lambda>m. m_used m + PG \<le> m_cap m)) (\<lambda>b.
     bnd (check b ENOMEM) (\<lambda>_.
     modify (\<lambda>m. m\<lparr>m_page := ent_set n (replicate PG 0) (m_page m), m_used := m_used m + PG\<rparr>)))"

text \<open>\<open>each\<close>: the parts of a range by pages, as page, offset, length and position in the range.\<close>

function chunks :: "nat \<Rightarrow> nat \<Rightarrow> nat \<Rightarrow> (nat \<times> nat \<times> nat \<times> nat) list" where
  "chunks at n p =
     (if p < n then
        (let q = at + p; off = q mod PG; len = min (n - p) (PG - off)
         in (q div PG, off, len, p) # chunks at n (p + len))
      else [])"
  by pat_completeness auto

termination
  by (relation "measure (\<lambda>(at, n, p). n - p)") (auto simp: PG_def)

declare chunks.simps [simp del]

text \<open>\<open>q.set(x, off)\<close>.\<close>

definition set_at :: "u8 list \<Rightarrow> nat \<Rightarrow> u8 list \<Rightarrow> u8 list" where
  "set_at q off x = take off q @ x @ drop (off + length x) q"

definition mem_read :: "int \<Rightarrow> nat \<Rightarrow> (mem, u8 list) kop" where
  "mem_read at n =
     bnd (chk at n) (\<lambda>_.
     asks (\<lambda>m. fold (\<lambda>(p, off, len, dst) out.
       case ent_get (m_page m) p of Some q \<Rightarrow> set_at out dst (take len (drop off q)) | None \<Rightarrow> out)
       (chunks (nat at) n 0) (replicate n 0)))"

definition write_chunk :: "u8 list \<Rightarrow> nat \<times> nat \<times> nat \<times> nat \<Rightarrow> (mem, unit) kop" where
  "write_chunk b c = (case c of (p, off, len, src) \<Rightarrow>
     let x = take len (drop src b) in
     bnd (asks (\<lambda>m. ent_get (m_page m) p = None \<and> (\<exists>v \<in> set x. v \<noteq> 0))) (\<lambda>new.
     bnd (if new then make p else ret ()) (\<lambda>_.
     modify (\<lambda>m. case ent_get (m_page m) p of
         Some q \<Rightarrow> m\<lparr>m_page := ent_set p (set_at q off x) (m_page m)\<rparr>
       | None \<Rightarrow> m))))"

definition mem_write :: "int \<Rightarrow> u8 list \<Rightarrow> (mem, unit) kop" where
  "mem_write at b =
     bnd (chk at (length b)) (\<lambda>_.
     bnd (mapk (write_chunk b) (chunks (nat at) (length b) 0)) (\<lambda>_. ret ()))"

definition drop_page :: "nat \<Rightarrow> nat \<Rightarrow> nat \<Rightarrow> mem \<Rightarrow> mem" where
  "drop_page at en p m =
     (case ent_get (m_page m) p of
        None \<Rightarrow> m
      | Some q \<Rightarrow>
          (let base = p * PG; lo = (if at > base then at - base else 0); hi = (if en < base + PG then en - base else PG)
           in if lo = 0 \<and> hi = PG then m\<lparr>m_page := ent_del p (m_page m), m_used := m_used m - PG\<rparr>
              else m\<lparr>m_page := ent_set p (set_at q lo (replicate (hi - lo) 0)) (m_page m)\<rparr>))"

definition mem_drop :: "int \<Rightarrow> nat \<Rightarrow> (mem, unit) kop" where
  "mem_drop at n =
     bnd (chk at n) (\<lambda>_.
     if n = 0 then ret () else
     (let en = nat at + n in
      modify (fold (drop_page (nat at) en) [nat at div PG..<(en - 1) div PG + 1])))"

text \<open>Loads: from the page when they lie in one, from a copy of the bytes otherwise.\<close>

definition page_at :: "nat \<Rightarrow> mem \<Rightarrow> u8 list option" where
  "page_at a m = ent_get (m_page m) (a div PG)"

definition mem_u8 :: "int \<Rightarrow> (mem, u8) kop" where
  "mem_u8 at =
     bnd (chk at 1) (\<lambda>_.
     asks (\<lambda>m. case page_at (nat at) m of Some q \<Rightarrow> q ! (nat at mod PG) | None \<Rightarrow> 0))"

definition mem_u16 :: "int \<Rightarrow> (mem, u16) kop" where
  "mem_u16 at =
     bnd (chk at 2) (\<lambda>_.
     let off = nat at mod PG in
     if off > PG - 2 then bnd (mem_read at 2) (\<lambda>b. ret (ucast (b ! 0) OR push_bit 8 (ucast (b ! 1))))
     else asks (\<lambda>m. case page_at (nat at) m of
         Some q \<Rightarrow> ucast (q ! off) OR push_bit 8 (ucast (q ! (off + 1)))
       | None \<Rightarrow> 0))"

definition mem_u32 :: "int \<Rightarrow> (mem, u32) kop" where
  "mem_u32 at =
     bnd (chk at 4) (\<lambda>_.
     let off = nat at mod PG in
     if off > PG - 4 then
       bnd (mem_read at 4) (\<lambda>b. ret (ucast (b ! 0) OR push_bit 8 (ucast (b ! 1)) OR push_bit 16 (ucast (b ! 2)) OR push_bit 24 (ucast (b ! 3))))
     else asks (\<lambda>m. case page_at (nat at) m of
         Some q \<Rightarrow> ucast (q ! off) OR push_bit 8 (ucast (q ! (off + 1))) OR push_bit 16 (ucast (q ! (off + 2))) OR
           push_bit 24 (ucast (q ! (off + 3)))
       | None \<Rightarrow> 0))"

text \<open>\<open>n = n << 8 | b[i]\<close> for \<open>i\<close> from 7 to 0.\<close>

fun shift_in :: "u8 list \<Rightarrow> u64 \<Rightarrow> u64" where
  "shift_in [] n = n"
| "shift_in (b # bs) n = shift_in bs (push_bit 8 n OR ucast b)"

definition mem_u64 :: "int \<Rightarrow> (mem, u64) kop" where
  "mem_u64 at =
     bnd (chk at 8) (\<lambda>_.
     let off = nat at mod PG in
     if off > PG - 8 then bnd (mem_read at 8) (\<lambda>b. ret (shift_in (map ((!) b) [7, 6, 5, 4, 3, 2, 1, 0]) 0))
     else asks (\<lambda>m. case page_at (nat at) m of
         Some q \<Rightarrow> shift_in (map (\<lambda>i. q ! (off + i)) [7, 6, 5, 4, 3, 2, 1, 0]) 0
       | None \<Rightarrow> 0))"

text \<open>The same as signed integers.\<close>

definition mem_i8 :: "int \<Rightarrow> (mem, int) kop" where "mem_i8 at = bnd (mem_u8 at) (\<lambda>x. ret (sint x))"
definition mem_i16 :: "int \<Rightarrow> (mem, int) kop" where "mem_i16 at = bnd (mem_u16 at) (\<lambda>x. ret (sint x))"
definition mem_i32 :: "int \<Rightarrow> (mem, int) kop" where "mem_i32 at = bnd (mem_u32 at) (\<lambda>x. ret (sint x))"
definition mem_i64 :: "int \<Rightarrow> (mem, int) kop" where "mem_i64 at = bnd (mem_u64 at) (\<lambda>x. ret (sint x))"

text \<open>Stores: \<open>n\<close> is any integer, of which the low \<open>8 z\<close> bits are stored.\<close>

definition int_bytes :: "nat \<Rightarrow> int \<Rightarrow> u8 list" where
  "int_bytes z x = map (\<lambda>i. of_int (drop_bit (8 * i) x AND 255)) [0..<z]"

definition mem_setN :: "int \<Rightarrow> int \<Rightarrow> nat \<Rightarrow> (mem, unit) kop" where
  "mem_setN at n z =
     bnd (chk at z) (\<lambda>_.
     let off = nat at mod PG; x = take_bit (z * 8) n; p = nat at div PG in
     if off > PG - z then mem_write at (int_bytes z x)
     else
       bnd (asks (\<lambda>m. ent_get (m_page m) p = None \<and> x \<noteq> 0)) (\<lambda>new.
       bnd (if new then make p else ret ()) (\<lambda>_.
       modify (\<lambda>m. case ent_get (m_page m) p of
           Some q \<Rightarrow> m\<lparr>m_page := ent_set p (set_at q off (int_bytes z x)) (m_page m)\<rparr>
         | None \<Rightarrow> m))))"

definition mem_set8 :: "int \<Rightarrow> int \<Rightarrow> (mem, unit) kop" where
  "mem_set8 at n =
     bnd (chk at 1) (\<lambda>_.
     let v = take_bit 8 n; p = nat at div PG; off = nat at mod PG in
     bnd (asks (\<lambda>m. ent_get (m_page m) p = None \<and> v \<noteq> 0)) (\<lambda>new.
     bnd (if new then make p else ret ()) (\<lambda>_.
     modify (\<lambda>m. case ent_get (m_page m) p of
         Some q \<Rightarrow> m\<lparr>m_page := ent_set p (q[off := of_int v]) (m_page m)\<rparr>
       | None \<Rightarrow> m))))"

definition mem_set16 :: "int \<Rightarrow> int \<Rightarrow> (mem, unit) kop" where "mem_set16 at n = mem_setN at n 2"
definition mem_set32 :: "int \<Rightarrow> int \<Rightarrow> (mem, unit) kop" where "mem_set32 at n = mem_setN at n 4"
definition mem_set64 :: "int \<Rightarrow> int \<Rightarrow> (mem, unit) kop" where "mem_set64 at n = mem_setN at n 8"

section \<open>The flat memory\<close>

definition byte :: "mem \<Rightarrow> nat \<Rightarrow> u8" where
  "byte m a = (case page_at a m of Some q \<Rightarrow> q ! (a mod PG) | None \<Rightarrow> 0)"

definition flat_write :: "nat \<Rightarrow> u8 list \<Rightarrow> (nat \<Rightarrow> u8) \<Rightarrow> nat \<Rightarrow> u8" where
  "flat_write at b f a = (if at \<le> a \<and> a < at + length b then b ! (a - at) else f a)"

definition mem_ok :: "mem \<Rightarrow> bool" where
  "mem_ok m \<longleftrightarrow> ents_ok (m_page m) \<and> (\<forall>p q. ent_get (m_page m) p = Some q \<longrightarrow> length q = PG) \<and>
     m_used m = ent_sum (\<lambda>_. PG) (m_page m) \<and> m_used m \<le> m_cap m"

lemma PG_pos [simp]: "0 < PG"
  by (simp add: PG_def)

lemma set_at_length [simp]: "off + length x \<le> length q \<Longrightarrow> length (set_at q off x) = length q"
  by (simp add: set_at_def)

lemma set_at_nth: "off + length x \<le> length q \<Longrightarrow> i < length q \<Longrightarrow>
    set_at q off x ! i = (if off \<le> i \<and> i < off + length x then x ! (i - off) else q ! i)"
  by (auto simp: set_at_def nth_append)

lemma flat_out: "\<not> (at \<le> a \<and> a < at + length b) \<Longrightarrow> flat_write at b f a = f a"
  unfolding flat_write_def by (rule if_not_P)

lemma flat_in: "at \<le> a \<Longrightarrow> a < at + length b \<Longrightarrow> flat_write at b f a = b ! (a - at)"
  by (simp add: flat_write_def)

lemma flat_write_nil [simp]: "flat_write at [] f = f"
  by (rule ext, rule flat_out) simp

lemma flat_write_append: "flat_write (at + length b) c (flat_write at b f) = flat_write at (b @ c) f"
  by (auto simp: flat_write_def fun_eq_iff nth_append)

lemma flat_write_zeros: "(\<And>i. i < n \<Longrightarrow> f (at + i) = 0) \<Longrightarrow> flat_write at (replicate n 0) f = f"
proof (rule ext)
  fix a assume f: "\<And>i. i < n \<Longrightarrow> f (at + i) = 0"
  show "flat_write at (replicate n 0) f a = f a"
    using f [of "a - at"] by (cases "at \<le> a \<and> a < at + n") (auto simp: flat_write_def)
qed

text \<open>An address is its page and its place in it.\<close>

lemma page_split: "a = p * PG + i \<Longrightarrow> i < PG \<Longrightarrow> a div PG = p \<and> a mod PG = i"
  by (simp add: PG_def)

lemma in_page: "off + len \<le> PG \<Longrightarrow> p * PG + off \<le> a \<and> a < p * PG + off + len \<longleftrightarrow> a div PG = p \<and> off \<le> a mod PG \<and> a mod PG < off + len"
proof
  assume o: "off + len \<le> PG" and a: "p * PG + off \<le> a \<and> a < p * PG + off + len"
  then have "a = p * PG + (a - p * PG)" "a - p * PG < PG" by auto
  then have "a div PG = p \<and> a mod PG = a - p * PG" by (rule page_split)
  then show "a div PG = p \<and> off \<le> a mod PG \<and> a mod PG < off + len" using a by auto
next
  assume "off + len \<le> PG" "a div PG = p \<and> off \<le> a mod PG \<and> a mod PG < off + len"
  then show "p * PG + off \<le> a \<and> a < p * PG + off + len"
    using div_mult_mod_eq [of a PG] by auto
qed

text \<open>A page replaced.\<close>

lemma ok_get: "mem_ok m \<Longrightarrow> ent_get (m_page m) p = Some q \<Longrightarrow> length q = PG"
  by (auto simp: mem_ok_def)

lemma ok_page:
  assumes "mem_ok m" "ent_get (m_page m) p = Some q" "length q' = PG"
  shows "mem_ok (m\<lparr>m_page := ent_set p q' (m_page m)\<rparr>)"
  using assms tab.total_same [of "m_page m" p q "\<lambda>_. PG" q'] by (auto simp: mem_ok_def ok_set get_set)

lemma byte_page:
  assumes "mem_ok m" "ent_get (m_page m) p = Some q" "off + length x \<le> PG"
  shows "byte (m\<lparr>m_page := ent_set p (set_at q off x) (m_page m)\<rparr>) = flat_write (p * PG + off) x (byte m)"
proof (rule ext)
  fix a
  have q: "length q = PG" by (rule ok_get [OF assms(1,2)])
  show "byte (m\<lparr>m_page := ent_set p (set_at q off x) (m_page m)\<rparr>) a = flat_write (p * PG + off) x (byte m) a"
  proof (cases "a div PG = p")
    case True
    then have "a - (p * PG + off) = a mod PG - off" using div_mult_mod_eq [of a PG] by auto
    then show ?thesis
      using True assms(2,3) q in_page [OF assms(3), of p a]
      by (simp add: byte_def flat_write_def page_at_def get_set set_at_nth)
  next
    case False
    then have "\<not> (p * PG + off \<le> a \<and> a < p * PG + off + length x)" by (simp only: in_page [OF assms(3)]) simp
    then have "flat_write (p * PG + off) x (byte m) a = byte m a" by (rule flat_out)
    then show ?thesis using False by (simp add: byte_def page_at_def get_set)
  qed
qed

lemma make_run: "make n m = (if m_used m + PG \<le> m_cap m then (Inr (), m\<lparr>m_page := ent_set n (replicate PG 0) (m_page m), m_used := m_used m + PG\<rparr>)
    else (Inl ENOMEM, m))"
  by (simp add: make_def kop_simps)

lemma made_ok:
  assumes "mem_ok m" "ent_get (m_page m) p = None" "m_used m + PG \<le> m_cap m"
  shows "mem_ok (m\<lparr>m_page := ent_set p (replicate PG 0) (m_page m), m_used := m_used m + PG\<rparr>)" (is "mem_ok ?m")
    "byte (m\<lparr>m_page := ent_set p (replicate PG 0) (m_page m), m_used := m_used m + PG\<rparr>) = byte m"
  using assms tab.total_fresh [of "m_page m" p "\<lambda>_. PG" "replicate PG 0"]
  by (auto simp: mem_ok_def ok_set get_set byte_def page_at_def fun_eq_iff)

text \<open>\<open>x\<close> is put into a page, which is made when \<open>x\<close> is not all zeros: the step that all stores share.\<close>

definition put_page :: "nat \<Rightarrow> nat \<Rightarrow> u8 list \<Rightarrow> bool \<Rightarrow> (mem, unit) kop" where
  "put_page p off x nz =
     bnd (asks (\<lambda>m. ent_get (m_page m) p = None \<and> nz)) (\<lambda>new.
     bnd (if new then make p else ret ()) (\<lambda>_.
     modify (\<lambda>m. case ent_get (m_page m) p of
         Some q \<Rightarrow> m\<lparr>m_page := ent_set p (set_at q off x) (m_page m)\<rparr>
       | None \<Rightarrow> m)))"

lemma byte_none: "ent_get (m_page m) p = None \<Longrightarrow> i < PG \<Longrightarrow> byte m (p * PG + i) = 0"
  using page_split [OF refl, of i p] by (simp add: byte_def page_at_def)

lemma put_page_spec:
  assumes ok: "mem_ok m" and fit: "off + length x \<le> PG" and nz: "\<not> nz \<Longrightarrow> x = replicate (length x) 0"
  shows "case put_page p off x nz m of
      (Inr _, m') \<Rightarrow> mem_ok m' \<and> byte m' = flat_write (p * PG + off) x (byte m) \<and> m_top m' = m_top m \<and> m_cap m' = m_cap m
    | (Inl e, m') \<Rightarrow> e = ENOMEM \<and> m' = m"
proof (cases "ent_get (m_page m) p")
  case (Some q)
  then show ?thesis
    using byte_page [OF ok Some fit] ok_page [OF ok Some, of "set_at q off x"] ok_get [OF ok Some] fit
    by (simp add: put_page_def kop_simps)
next
  case None
  show ?thesis
  proof (cases nz)
    case False
    have "flat_write (p * PG + off) x (byte m) = byte m"
      using nz [OF False] flat_write_zeros [of "length x" "byte m" "p * PG + off"] byte_none [OF None] fit
      by (metis add.assoc add_less_cancel_left less_le_trans)
    then show ?thesis using None False ok by (simp add: put_page_def kop_simps)
  next
    case True
    show ?thesis
    proof (cases "m_used m + PG \<le> m_cap m")
      case room: True
      let ?m = "m\<lparr>m_page := ent_set p (replicate PG 0) (m_page m), m_used := m_used m + PG\<rparr>"
      note m = made_ok [OF ok None room]
      have q: "ent_get (m_page ?m) p = Some (replicate PG 0)" by (simp add: get_set)
      have "put_page p off x nz m = (Inr (), ?m\<lparr>m_page := ent_set p (set_at (replicate PG 0) off x) (m_page ?m)\<rparr>)"
        using None True room q by (simp add: put_page_def kop_simps bnd_def make_run)
      then show ?thesis
        using byte_page [OF m(1) q fit] ok_page [OF m(1) q, of "set_at (replicate PG 0) off x"] m(2) fit by simp
    next
      case False
      then show ?thesis using None True by (simp add: put_page_def kop_simps bnd_def make_run)
    qed
  qed
qed


section \<open>Reads and writes of ranges\<close>

lemma nonzero_zeros: "\<not> (\<exists>v \<in> set x. v \<noteq> 0) \<Longrightarrow> x = replicate (length x) (0 :: u8)"
  by (intro replicate_eqI) auto

lemma write_chunk_put: "write_chunk b (p, off, len, src) =
    put_page p off (take len (drop src b)) (\<exists>v \<in> set (take len (drop src b)). v \<noteq> 0)"
  by (simp add: write_chunk_def put_page_def Let_def)

text \<open>The first part of a range.\<close>

lemma first_chunk:
  assumes "p < n" "q = at + p" "off = q mod PG" "len = min (n - p) (PG - off)"
  shows "chunks at n p = (q div PG, off, len, p) # chunks at n (p + len)" "0 < len" "off + len \<le> PG" "len \<le> n - p"
    "q div PG * PG + off = at + p"
proof -
  have "off < PG" using assms(3) by simp
  then show "0 < len" "off + len \<le> PG" "len \<le> n - p" using assms(1,4) by auto
  show "q div PG * PG + off = at + p" unfolding assms(2,3) by (rule div_mult_mod_eq)
  show "chunks at n p = (q div PG, off, len, p) # chunks at n (p + len)"
    by (subst chunks.simps) (simp add: assms Let_def)
qed

lemma no_chunk: "n \<le> p \<Longrightarrow> chunks at n p = []"
  by (subst chunks.simps) simp

lemma write_chunks:
  assumes "mem_ok m" "p \<le> length b"
  shows "case mapk (write_chunk b) (chunks at (length b) p) m of
      (Inr _, m') \<Rightarrow> mem_ok m' \<and> byte m' = flat_write (at + p) (drop p b) (byte m) \<and> m_top m' = m_top m \<and> m_cap m' = m_cap m
    | (Inl e, m') \<Rightarrow> e = ENOMEM \<and> mem_ok m' \<and> m_top m' = m_top m \<and> m_cap m' = m_cap m \<and>
        (\<exists>k < length b - p. byte m' = flat_write (at + p) (take k (drop p b)) (byte m))"
  using assms
proof (induction "length b - p" arbitrary: p m rule: less_induct)
  case less
  show ?case
  proof (cases "p < length b")
    case False
    then show ?thesis using less.prems by (simp add: no_chunk kop_simps)
  next
    case True
    define q off len where "q = at + p" and "off = q mod PG" and "len = min (length b - p) (PG - off)"
    note c = first_chunk [OF True q_def off_def len_def]
    define x where "x = take len (drop p b)"
    have x: "length x = len" using c(4) by (simp add: x_def)
    have app: "x @ drop (p + len) b = drop p b" unfolding x_def by (metis append_take_drop_id drop_drop add.commute)
    let ?nz = "\<exists>v \<in> set x. v \<noteq> 0"
    have "off + length x \<le> PG" using x c(3) by simp
    note put = put_page_spec [OF less.prems(1) this, of ?nz "q div PG", OF nonzero_zeros]
    have run: "mapk (write_chunk b) (chunks at (length b) p) m =
        bnd (put_page (q div PG) off x ?nz) (\<lambda>y. bnd (mapk (write_chunk b) (chunks at (length b) (p + len))) (\<lambda>ys. ret (y # ys))) m"
      by (simp add: c(1) write_chunk_put x_def)
    show ?thesis
    proof (cases "put_page (q div PG) off x ?nz m")
      case (Pair r m1)
      show ?thesis
      proof (cases r)
        case (Inl e)
        have "byte m = flat_write (at + p) (take 0 (drop p b)) (byte m)" by simp
        then show ?thesis using put Pair Inl True less.prems(1) unfolding run
          by (simp add: kop_simps) (rule exI [of _ 0], simp)
      next
        case (Inr u)
        have m1: "mem_ok m1" "byte m1 = flat_write (at + p) x (byte m)" "m_top m1 = m_top m" "m_cap m1 = m_cap m"
          using put Pair Inr c(5) by simp_all
        have small: "length b - (p + len) < length b - p" "p + len \<le> length b" using c(2,4) True by auto
        have glue: "flat_write (at + (p + len)) y (byte m1) = flat_write (at + p) (x @ y) (byte m)" for y
          using flat_write_append [of "at + p" x y "byte m"] by (simp add: m1(2) x add.assoc)
        have pre: "x @ take k (drop (p + len) b) = take (len + k) (drop p b)" for k
          by (simp add: x_def take_add add.commute [of p len])
        show ?thesis
        proof (cases "mapk (write_chunk b) (chunks at (length b) (p + len)) m1")
          case ih: (Pair r' m2)
          note step = less.hyps [OF small(1) m1(1) small(2)]
          show ?thesis
          proof (cases r')
            case l: (Inl e)
            then obtain k where "k < length b - (p + len)" "byte m2 = flat_write (at + (p + len)) (take k (drop (p + len) b)) (byte m1)"
              using step ih by auto
            then have "len + k < length b - p" "byte m2 = flat_write (at + p) (take (len + k) (drop p b)) (byte m)"
              unfolding glue pre by auto
            then show ?thesis using step ih l m1(3,4) Pair Inr unfolding run by (auto simp: bnd_def)
          next
            case r: (Inr ys)
            then show ?thesis using step ih m1(3,4) Pair Inr unfolding run by (simp add: bnd_def ret_def glue app)
          qed
        qed
      qed
    qed
  qed
qed

lemma read_chunks:
  assumes "mem_ok m" "length out = n" "\<And>i. p \<le> i \<Longrightarrow> i < n \<Longrightarrow> out ! i = 0"
  shows "fold (\<lambda>(p, off, len, dst) out. case ent_get (m_page m) p of
        Some q \<Rightarrow> set_at out dst (take len (drop off q)) | None \<Rightarrow> out) (chunks at n p) out =
      map (\<lambda>i. if p \<le> i then byte m (at + i) else out ! i) [0..<n]" (is "fold ?f _ _ = _")
  using assms
proof (induction "n - p" arbitrary: p out rule: less_induct)
  case less
  show ?case
  proof (cases "p < n")
    case False
    then show ?thesis using less.prems by (auto simp: no_chunk intro!: nth_equalityI)
  next
    case True
    define q off len where "q = at + p" and "off = q mod PG" and "len = min (n - p) (PG - off)"
    note c = first_chunk [OF True q_def off_def len_def]
    define out1 where "out1 = ?f (q div PG, off, len, p) out"
    have b: "byte m (at + i) = (case ent_get (m_page m) (q div PG) of Some z \<Rightarrow> z ! (off + (i - p)) | None \<Rightarrow> 0)"
      if "p \<le> i" "i < p + len" for i
    proof -
      have "at + i = q div PG * PG + (off + (i - p))" using c(5) that(1) by simp
      moreover have "off + (i - p) < PG" using c(3) that by simp
      ultimately have "(at + i) div PG = q div PG \<and> (at + i) mod PG = off + (i - p)" by (rule page_split)
      then show ?thesis by (simp add: byte_def page_at_def split: option.split)
    qed
    have out1: "length out1 = n \<and> (\<forall>i < n. out1 ! i = (if p \<le> i \<and> i < p + len then byte m (at + i) else out ! i))"
    proof (cases "ent_get (m_page m) (q div PG)")
      case None
      then show ?thesis using less.prems(2,3) b by (auto simp: out1_def)
    next
      case (Some z)
      have z: "length (take len (drop off z)) = len" "p + length (take len (drop off z)) \<le> length out"
        using ok_get [OF less.prems(1) Some] c(3,4) less.prems(2) True by auto
      have "out1 = set_at out p (take len (drop off z))" by (simp add: out1_def Some)
      then show ?thesis
        using set_at_nth [OF z(2)] set_at_length [OF z(2)] z b Some less.prems(2) ok_get [OF less.prems(1) Some] c(3)
        by auto
    qed
    have "fold ?f (chunks at n (p + len)) out1 = map (\<lambda>i. if p + len \<le> i then byte m (at + i) else out1 ! i) [0..<n]"
      using out1 less.prems(3) c(2) True by (intro less.hyps [OF _ less.prems(1)]) auto
    also have "\<dots> = map (\<lambda>i. if p \<le> i then byte m (at + i) else out ! i) [0..<n]"
      using out1 by (intro map_cong) auto
    finally show ?thesis by (simp add: c(1) out1_def)
  qed
qed

definition in_range :: "mem \<Rightarrow> int \<Rightarrow> nat \<Rightarrow> bool" where
  "in_range m at n \<longleftrightarrow> 0 \<le> at \<and> at + int n \<le> m_top m"

lemma chk_bnd: "bnd (chk at n) f m = (if in_range m at n then f () m else (Inl ERANGE, m))"
  by (auto simp: chk_def kop_simps in_range_def not_less)

lemma read_spec: "mem_ok m \<Longrightarrow> mem_read at n m = (if in_range m at n then (Inr (map (\<lambda>i. byte m (nat at + i)) [0..<n]), m) else (Inl ERANGE, m))"
  using read_chunks [of m "replicate n 0" n 0 "nat at"] by (simp add: mem_read_def chk_bnd kop_simps)

lemma write_spec:
  assumes "mem_ok m" "in_range m at (length b)"
  shows "case mem_write at b m of
      (Inr _, m') \<Rightarrow> mem_ok m' \<and> byte m' = flat_write (nat at) b (byte m) \<and> m_top m' = m_top m \<and> m_cap m' = m_cap m
    | (Inl e, m') \<Rightarrow> e = ENOMEM \<and> mem_ok m' \<and> m_top m' = m_top m \<and> m_cap m' = m_cap m \<and>
        (\<exists>k < length b. byte m' = flat_write (nat at) (take k b) (byte m))"
proof -
  have "mem_write at b m = bnd (mapk (write_chunk b) (chunks (nat at) (length b) 0)) (\<lambda>_. ret ()) m"
    by (simp only: mem_write_def chk_bnd assms(2) if_True)
  then show ?thesis using write_chunks [OF assms(1), of 0 b "nat at"]
    by (simp add: bnd_def ret_def split: prod.splits sum.splits)
qed


section \<open>Dropping a range\<close>

lemma on_page: "a div PG = p \<longleftrightarrow> p * PG \<le> a \<and> a < p * PG + PG"
  using in_page [of 0 PG p a] by simp

lemma drop_page_spec:
  assumes ok: "mem_ok m" and r: "at < p * PG + PG" "p * PG < en" "at < en"
  shows "mem_ok (drop_page at en p m)" "m_top (drop_page at en p m) = m_top m" "m_cap (drop_page at en p m) = m_cap m"
    "byte (drop_page at en p m) a = (if a div PG = p \<and> at \<le> a \<and> a < en then 0 else byte m a)"
    "m_used (drop_page at en p m) \<le> m_used m"
proof -
  define lo hi where "lo = (if at > p * PG then at - p * PG else 0)" and "hi = (if en < p * PG + PG then en - p * PG else PG)"
  have lh: "lo + (hi - lo) = hi" "hi \<le> PG" using r by (auto simp: lo_def hi_def)
  have rng: "(p * PG + lo \<le> a \<and> a < p * PG + hi) = (a div PG = p \<and> at \<le> a \<and> a < en)"
    unfolding on_page using r by (auto simp: lo_def hi_def)
  have all: "mem_ok (drop_page at en p m) \<and> m_top (drop_page at en p m) = m_top m \<and> m_cap (drop_page at en p m) = m_cap m \<and>
    byte (drop_page at en p m) a = (if a div PG = p \<and> at \<le> a \<and> a < en then 0 else byte m a) \<and>
    m_used (drop_page at en p m) \<le> m_used m"
  proof (cases "ent_get (m_page m) p")
    case None
    then show ?thesis using ok by (auto simp: drop_page_def byte_def page_at_def)
  next
    case (Some q)
    show ?thesis
    proof (cases "lo = 0 \<and> hi = PG")
      case True
      let ?m = "m\<lparr>m_page := ent_del p (m_page m), m_used := m_used m - PG\<rparr>"
      have d: "drop_page at en p m = ?m"
        using Some True by (simp add: drop_page_def lo_def hi_def Let_def)
      have e: "ents_ok (m_page m)" using ok by (simp add: mem_ok_def)
      have "mem_ok ?m"
        using ok tab.total_remove [OF e Some, of "\<lambda>_. PG"] by (auto simp: mem_ok_def ok_del get_del)
      moreover have "byte ?m a = (if a div PG = p \<and> at \<le> a \<and> a < en then 0 else byte m a)"
        using rng True on_page [of a p] e by (auto simp: byte_def page_at_def get_del)
      ultimately show ?thesis unfolding d by simp
    next
      case False
      let ?x = "replicate (hi - lo) (0 :: u8)"
      let ?m = "m\<lparr>m_page := ent_set p (set_at q lo ?x) (m_page m)\<rparr>"
      have d: "drop_page at en p m = ?m"
        unfolding drop_page_def Let_def lo_def [symmetric] hi_def [symmetric] by (simp only: Some option.case False if_False)
      have fit: "lo + length ?x \<le> PG" using lh by simp
      have "byte ?m a = flat_write (p * PG + lo) ?x (byte m) a"
        using byte_page [OF ok Some fit] by simp
      also have "\<dots> = (if a div PG = p \<and> at \<le> a \<and> a < en then 0 else byte m a)"
        unfolding rng [symmetric] using lh(1) by (auto simp: flat_write_def)
      finally show ?thesis
        unfolding d using ok_page [OF ok Some, of "set_at q lo ?x"] ok_get [OF ok Some] fit by simp
    qed
  qed
  then show "mem_ok (drop_page at en p m)" "m_top (drop_page at en p m) = m_top m" "m_cap (drop_page at en p m) = m_cap m"
    "byte (drop_page at en p m) a = (if a div PG = p \<and> at \<le> a \<and> a < en then 0 else byte m a)"
    "m_used (drop_page at en p m) \<le> m_used m" by blast+
qed

lemma drop_pages:
  assumes "mem_ok m" "at < en" "\<And>p. p \<in> set ps \<Longrightarrow> at < p * PG + PG \<and> p * PG < en"
  shows "mem_ok (fold (drop_page at en) ps m) \<and> m_top (fold (drop_page at en) ps m) = m_top m \<and>
    m_cap (fold (drop_page at en) ps m) = m_cap m \<and> m_used (fold (drop_page at en) ps m) \<le> m_used m \<and>
    byte (fold (drop_page at en) ps m) = (\<lambda>a. if a div PG \<in> set ps \<and> at \<le> a \<and> a < en then 0 else byte m a)"
  using assms(1,3)
proof (induction ps arbitrary: m)
  case (Cons p ps)
  have p: "at < p * PG + PG" "p * PG < en" using Cons.prems(2) [of p] by simp_all
  note d = drop_page_spec [OF Cons.prems(1) p assms(2)]
  have "(\<lambda>a. if a div PG \<in> set ps \<and> at \<le> a \<and> a < en then 0 else byte (drop_page at en p m) a) =
      (\<lambda>a. if a div PG \<in> set (p # ps) \<and> at \<le> a \<and> a < en then 0 else byte m a)"
    by (rule ext) (simp add: d(4))
  then show ?case using Cons.IH [OF d(1)] Cons.prems(2) d(2,3,5) by fastforce
qed simp

lemma drop_spec:
  assumes "mem_ok m" "in_range m at n"
  shows "\<exists>m'. mem_drop at n m = (Inr (), m') \<and> mem_ok m' \<and> byte m' = flat_write (nat at) (replicate n 0) (byte m) \<and>
    m_top m' = m_top m \<and> m_cap m' = m_cap m \<and> m_used m' \<le> m_used m"
proof (cases "n = 0")
  case True
  then show ?thesis using assms by (simp add: mem_drop_def chk_bnd ret_def)
next
  case False
  let ?a = "nat at" and ?e = "nat at + n"
  let ?ps = "[?a div PG..<(?e - 1) div PG + 1]"
  have run: "mem_drop at n m = (Inr (), fold (drop_page ?a ?e) ?ps m)"
    using assms(2) False by (simp add: mem_drop_def chk_bnd modify_def Let_def)
  have "?a < p * PG + PG \<and> p * PG < ?e" if "p \<in> set ?ps" for p
  proof -
    have p: "?a div PG \<le> p" "p \<le> (?e - 1) div PG" using that by auto
    have "p * PG \<le> (?e - 1) div PG * PG" using p(2) by simp
    also have "\<dots> \<le> ?e - 1" by (rule div_times_less_eq_dividend)
    finally have "p * PG < ?e" using False by simp
    moreover have "?a < ?a div PG * PG + PG" using div_mult_mod_eq [of ?a PG] mod_less_divisor [OF PG_pos, of ?a] by linarith
    then have "?a < p * PG + PG" using p(1) mult_le_mono1 [OF p(1), of PG] by linarith
    ultimately show ?thesis by blast
  qed
  note d = drop_pages [OF _ _ this]
  have "a div PG \<in> set ?ps" if "?a \<le> a" "a < ?e" for a
  proof -
    have "a \<le> ?e - 1" using that by simp
    then show ?thesis using div_le_mono [OF that(1), of PG] div_le_mono [OF \<open>a \<le> ?e - 1\<close>, of PG] unfolding set_upt atLeastLessThan_iff by linarith
  qed
  note pages = this
  have "(if a div PG \<in> set ?ps \<and> ?a \<le> a \<and> a < ?e then 0 else byte m a) = flat_write ?a (replicate n 0) (byte m) a" for a
  proof (cases "?a \<le> a \<and> a < ?e")
    case True
    then have "flat_write ?a (replicate n 0) (byte m) a = 0" by (auto simp: flat_write_def)
    then show ?thesis using True pages [of a] by (simp only: simp_thms if_True)
  next
    case False
    then have "flat_write ?a (replicate n 0) (byte m) a = byte m a" by (intro flat_out) simp
    then show ?thesis using False by (simp only: simp_thms if_False)
  qed
  then have fw: "(\<lambda>a. if a div PG \<in> set ?ps \<and> ?a \<le> a \<and> a < ?e then 0 else byte m a) = flat_write ?a (replicate n 0) (byte m)"
    by (rule ext)
  have "?a < ?e" using False by simp
  note d' = d [OF assms(1) this]
  show ?thesis by (rule exI [of _ "fold (drop_page ?a ?e) ?ps m"]) (simp only: run d' fw simp_thms)
qed


section \<open>Loads and stores\<close>

lemma shift_in_snoc: "shift_in (xs @ [b]) n = push_bit 8 (shift_in xs n) OR ucast b"
  by (induction xs arbitrary: n) simp_all

lemma shift_in_rev: "shift_in (rev bs) 0 = of_bytes bs"
  by (induction bs) (simp_all add: shift_in_snoc or.commute)

text \<open>The bytes at an address.\<close>

definition at_bytes :: "(nat \<Rightarrow> u8) \<Rightarrow> nat \<Rightarrow> nat \<Rightarrow> u8 list" where
  "at_bytes f a n = map (\<lambda>i. f (a + i)) [0..<n]"

lemma at_bytes_simps [simp]: "length (at_bytes f a n) = n" "i < n \<Longrightarrow> at_bytes f a n ! i = f (a + i)"
  by (simp_all add: at_bytes_def)

lemma same_page: "a mod PG + i < PG \<Longrightarrow> (a + i) div PG = a div PG \<and> (a + i) mod PG = a mod PG + i"
  by (rule page_split) (use div_mult_mod_eq [of a PG] in simp_all)

lemma byte_same_page: "a mod PG + i < PG \<Longrightarrow> byte m (a + i) = (case page_at a m of Some q \<Rightarrow> q ! (a mod PG + i) | None \<Rightarrow> 0)"
  using same_page [of a i] by (simp add: byte_def page_at_def split: option.split)

lemma PG_minus: "n \<le> 8 \<Longrightarrow> \<not> a mod PG > PG - n \<Longrightarrow> i < n \<Longrightarrow> a mod PG + i < PG"
  by (simp add: PG_def)

lemma page_bytes:
  assumes "n \<le> 8" "\<not> a mod PG > PG - n"
  shows "at_bytes (byte m) a n = (case page_at a m of Some q \<Rightarrow> map (\<lambda>i. q ! (a mod PG + i)) [0..<n] | None \<Rightarrow> replicate n 0)"
proof (rule nth_equalityI)
  show "length (at_bytes (byte m) a n) = length (case page_at a m of Some q \<Rightarrow> map (\<lambda>i. q ! (a mod PG + i)) [0..<n] | None \<Rightarrow> replicate n 0)"
    by (simp split: option.split)
  fix i assume "i < length (at_bytes (byte m) a n)"
  then show "at_bytes (byte m) a n ! i = (case page_at a m of Some q \<Rightarrow> map (\<lambda>i. q ! (a mod PG + i)) [0..<n] | None \<Rightarrow> replicate n 0) ! i"
    using byte_same_page [OF PG_minus [OF assms], of i m] by (simp split: option.split)
qed

text \<open>A load takes the bytes from the page or from a copy.\<close>

lemma load_bytes:
  assumes ok: "mem_ok m" and n: "n \<le> 8" and page: "\<And>q. page_at (nat at) m = Some q \<Longrightarrow> g q = h (map (\<lambda>i. q ! (nat at mod PG + i)) [0..<n])"
    and zero: "h (replicate n 0) = z"
  shows "bnd (chk at n) (\<lambda>_. if nat at mod PG > PG - n then bnd (mem_read at n) (\<lambda>b. ret (h b))
      else asks (\<lambda>m. case page_at (nat at) m of Some q \<Rightarrow> g q | None \<Rightarrow> z)) m =
    (if in_range m at n then (Inr (h (at_bytes (byte m) (nat at) n)), m) else (Inl ERANGE, m))"
proof (cases "nat at mod PG > PG - n")
  case True
  have "bnd (mem_read at n) (\<lambda>b. ret (h b)) m = (if in_range m at n then (Inr (h (at_bytes (byte m) (nat at) n)), m) else (Inl ERANGE, m))"
    using read_spec [OF ok, of at n] by (simp add: bnd_def ret_def at_bytes_def)
  then show ?thesis using True by (simp only: chk_bnd if_True) simp
next
  case False
  have "(case page_at (nat at) m of Some q \<Rightarrow> g q | None \<Rightarrow> z) = h (at_bytes (byte m) (nat at) n)"
    using page zero by (simp add: page_bytes [OF n False] split: option.split)
  then show ?thesis using False by (simp add: chk_bnd asks_def)
qed

lemma load_spec:
  assumes ok: "mem_ok m"
  shows "mem_u8 at m = (if in_range m at 1 then (Inr (byte m (nat at)), m) else (Inl ERANGE, m))"
    "mem_u16 at m = (if in_range m at 2 then (Inr (of_bytes (at_bytes (byte m) (nat at) 2)), m) else (Inl ERANGE, m))"
    "mem_u32 at m = (if in_range m at 4 then (Inr (of_bytes (at_bytes (byte m) (nat at) 4)), m) else (Inl ERANGE, m))"
    "mem_u64 at m = (if in_range m at 8 then (Inr (of_bytes (at_bytes (byte m) (nat at) 8)), m) else (Inl ERANGE, m))"
proof -
  note lb = list_of_bytes [OF at_bytes_simps(1), symmetric]
  show "mem_u8 at m = (if in_range m at 1 then (Inr (byte m (nat at)), m) else (Inl ERANGE, m))"
    by (simp add: mem_u8_def chk_bnd kop_simps byte_def)
  show "mem_u16 at m = (if in_range m at 2 then (Inr (of_bytes (at_bytes (byte m) (nat at) 2)), m) else (Inl ERANGE, m))"
    unfolding mem_u16_def Let_def lb by (rule load_bytes [OF ok]) simp_all
  show "mem_u32 at m = (if in_range m at 4 then (Inr (of_bytes (at_bytes (byte m) (nat at) 4)), m) else (Inl ERANGE, m))"
    unfolding mem_u32_def Let_def lb by (rule load_bytes [OF ok]) simp_all
  have rev8: "[7, 6, 5, 4, 3, 2, 1, 0] = rev [0..<8::nat]" by (simp add: upt_rec)
  have "mem_u64 at m = (if in_range m at 8 then (Inr (shift_in (map ((!) (at_bytes (byte m) (nat at) 8)) [7, 6, 5, 4, 3, 2, 1, 0]) 0), m) else (Inl ERANGE, m))"
    unfolding mem_u64_def Let_def by (rule load_bytes [OF ok]) (simp_all add: nth_Cons')
  then show "mem_u64 at m = (if in_range m at 8 then (Inr (of_bytes (at_bytes (byte m) (nat at) 8)), m) else (Inl ERANGE, m))"
    using map_nth [of "at_bytes (byte m) (nat at) 8"] unfolding rev8 rev_map [symmetric] shift_in_rev by simp
qed

section \<open>Stores\<close>

lemma length_int_bytes [simp]: "length (int_bytes z x) = z"
  by (simp add: int_bytes_def)

lemma int_bytes_word: "8 * z \<le> LENGTH('a) \<Longrightarrow> int_bytes z (take_bit (z * 8) n) = bytes_le z (of_int n :: 'a::len word)"
proof -
  assume z: "8 * z \<le> LENGTH('a)"
  have "of_int (drop_bit (8 * i) (take_bit (z * 8) n) AND 255) = (ucast (drop_bit (8 * i) (of_int n :: 'a word)) :: u8)" if "i < z" for i
  proof (rule bit_word_eqI)
    fix k assume "k < LENGTH(8)"
    moreover have "x AND 255 = take_bit 8 x" for x :: int by (simp add: take_bit_eq_mask mask_eq_exp_minus_1)
    ultimately show "bit (of_int (drop_bit (8 * i) (take_bit (z * 8) n) AND 255) :: u8) k = bit (ucast (drop_bit (8 * i) (of_int n :: 'a word)) :: u8) k"
      using z that by (simp add: bit_simps)
  qed
  then show ?thesis by (simp add: int_bytes_def bytes_le_def)
qed

lemma int_bytes_zero: "int_bytes z 0 = replicate z 0"
  by (simp add: int_bytes_def map_replicate_const)

definition stored :: "mem \<Rightarrow> int \<Rightarrow> u8 list \<Rightarrow> (errno + unit) \<times> mem \<Rightarrow> bool" where
  "stored m at b r \<longleftrightarrow> (case r of
      (Inr _, m') \<Rightarrow> mem_ok m' \<and> byte m' = flat_write (nat at) b (byte m) \<and> m_top m' = m_top m \<and> m_cap m' = m_cap m
    | (Inl e, m') \<Rightarrow> e = ENOMEM \<and> mem_ok m' \<and> m_top m' = m_top m \<and> m_cap m' = m_cap m \<and>
        (\<exists>k < length b. byte m' = flat_write (nat at) (take k b) (byte m)))"

lemma stored_put:
  assumes ok: "mem_ok m" and fit: "nat at mod PG + length b \<le> PG" and nz: "\<not> nz \<Longrightarrow> b = replicate (length b) 0" and b: "b \<noteq> []"
  shows "stored m at b (put_page (nat at div PG) (nat at mod PG) b nz m)"
proof -
  have "byte m = flat_write (nat at) (take 0 b) (byte m)" by simp
  then show ?thesis using put_page_spec [OF ok fit nz, of nz "nat at div PG"] b ok
    by (simp add: stored_def split: prod.splits sum.splits) (metis length_greater_0_conv flat_write_nil take0)
qed

lemma store_spec:
  assumes ok: "mem_ok m" and r: "in_range m at z" and z: "0 < z" "z \<le> 8"
  shows "stored m at (int_bytes z (take_bit (z * 8) n)) (mem_setN at n z m)"
proof (cases "nat at mod PG > PG - z")
  case True
  let ?b = "int_bytes z (take_bit (z * 8) n)"
  have "mem_setN at n z m = mem_write at ?b m" using True r by (simp add: mem_setN_def chk_bnd Let_def)
  then show ?thesis using write_spec [OF ok, of at ?b] r by (simp add: stored_def)
next
  case False
  let ?b = "int_bytes z (take_bit (z * 8) n)"
  have "mem_setN at n z m = put_page (nat at div PG) (nat at mod PG) ?b (take_bit (z * 8) n \<noteq> 0) m"
    using False r by (simp add: mem_setN_def chk_bnd Let_def put_page_def)
  moreover have "nat at mod PG + length ?b \<le> PG" using False z by (simp add: PG_def)
  moreover have "?b \<noteq> []" using z(1) by (simp flip: length_greater_0_conv)
  ultimately show ?thesis using stored_put [OF ok, of at ?b "take_bit (z * 8) n \<noteq> 0"] int_bytes_zero by simp
qed

lemma set8_run: "in_range m at 1 \<Longrightarrow> mem_set8 at n m =
    bnd (asks (\<lambda>m. ent_get (m_page m) (nat at div PG) = None \<and> take_bit 8 n \<noteq> 0)) (\<lambda>new.
     bnd (if new then make (nat at div PG) else ret ()) (\<lambda>_.
     modify (\<lambda>m. case ent_get (m_page m) (nat at div PG) of
         Some q \<Rightarrow> m\<lparr>m_page := ent_set (nat at div PG) (q[nat at mod PG := of_int (take_bit 8 n)]) (m_page m)\<rparr>
       | None \<Rightarrow> m))) m"
  by (simp only: mem_set8_def Let_def chk_bnd if_True)

lemma store8_spec:
  assumes ok: "mem_ok m" and r: "in_range m at 1"
  shows "stored m at [of_int n] (mem_set8 at n m)"
proof -
  let ?v = "take_bit 8 n" and ?p = "nat at div PG" and ?off = "nat at mod PG"
  have v: "of_int ?v = (of_int n :: u8)" by (rule bit_word_eqI) (simp add: bit_simps)
  have set1: "q[?off := of_int ?v] = set_at q ?off [of_int ?v]" if "length q = PG" for q
    using that mod_less_divisor [OF PG_pos, of "nat at"] by (simp add: set_at_def upd_conv_take_nth_drop)
  have "mem_set8 at n m = put_page ?p ?off [of_int ?v] (?v \<noteq> 0) m"
  proof (cases "ent_get (m_page m) ?p")
    case None
    show ?thesis using r None set1 by (simp only: set8_run) (simp add: put_page_def kop_simps bnd_def make_run get_set)
  next
    case (Some q)
    show ?thesis using r Some set1 [OF ok_get [OF ok Some]] by (simp only: set8_run) (simp add: put_page_def kop_simps)
  qed
  moreover have "?off + length [of_int ?v :: u8] \<le> PG" using mod_less_divisor [OF PG_pos, of "nat at"] by (simp add: Suc_le_eq)
  ultimately show ?thesis using stored_put [OF ok, of at "[of_int ?v]" "?v \<noteq> 0"] v by auto
qed


text \<open>A store that has a page of the budget left for each part of its range succeeds.\<close>

lemma put_page_room: "m_used m + PG \<le> m_cap m \<Longrightarrow> \<exists>m'. put_page p off x nz m = (Inr (), m') \<and> m_used m' \<le> m_used m + PG \<and> m_cap m' = m_cap m"
  by (cases "ent_get (m_page m) p") (auto simp: put_page_def kop_simps bnd_def make_run get_set)

lemma write_room: "m_used m + PG * length cs \<le> m_cap m \<Longrightarrow> \<exists>ys m'. mapk (write_chunk b) cs m = (Inr ys, m')"
proof (induction cs arbitrary: m)
  case (Cons c cs)
  obtain p off len src where c: "c = (p, off, len, src)" by (cases c)
  have "m_used m + PG \<le> m_cap m" using Cons.prems by simp
  then obtain m1 where "write_chunk b c m = (Inr (), m1)" "m_used m1 \<le> m_used m + PG" "m_cap m1 = m_cap m"
    unfolding c write_chunk_put using put_page_room by blast
  moreover from this obtain ys m2 where "mapk (write_chunk b) cs m1 = (Inr ys, m2)"
    using Cons.IH [of m1] Cons.prems by auto
  ultimately show ?case by (simp add: bnd_def ret_def)
qed (simp add: ret_def)

text \<open>A range has a part for each page that it touches.\<close>

lemma chunks_count: "p < n \<Longrightarrow> length (chunks at n p) = (at + n - 1) div PG - (at + p) div PG + 1"
proof (induction "n - p" arbitrary: p rule: less_induct)
  case less
  define q off len where "q = at + p" and "off = q mod PG" and "len = min (n - p) (PG - off)"
  note c = first_chunk [OF less.prems q_def off_def len_def]
  show ?case
  proof (cases "p + len < n")
    case False
    then have "(at + n - 1) div PG = q div PG"
      unfolding on_page using c(2-5) less.prems by linarith
    then show ?thesis using False by (simp add: c(1) no_chunk q_def)
  next
    case True
    then have len: "off + len = PG" using c(3) by (auto simp: len_def)
    then have next_page: "at + (p + len) = Suc (q div PG) * PG" using c(5) by simp
    have "(at + (p + len)) div PG = Suc (q div PG)" unfolding next_page by (rule nonzero_mult_div_cancel_right) simp
    moreover have "(at + (p + len)) div PG \<le> (at + n - 1) div PG" using True by (intro div_le_mono) simp
    moreover have "length (chunks at n (p + len)) = (at + n - 1) div PG - (at + (p + len)) div PG + 1"
      using True c(2) by (intro less.hyps) auto
    ultimately show ?thesis by (simp add: c(1) q_def)
  qed
qed

lemma write_fits:
  assumes "in_range m at (length b)" "b \<noteq> []"
    "m_used m + PG * ((nat at + length b - 1) div PG - nat at div PG + 1) \<le> m_cap m"
  shows "\<exists>m'. mem_write at b m = (Inr (), m')"
proof -
  have "length (chunks (nat at) (length b) 0) = (nat at + length b - 1) div PG - nat at div PG + 1"
    using chunks_count [of 0 "length b" "nat at"] assms(2) by simp
  then obtain ys m' where "mapk (write_chunk b) (chunks (nat at) (length b) 0) m = (Inr ys, m')"
    using write_room [of m "chunks (nat at) (length b) 0" b] assms(3) by auto
  then show ?thesis using assms(1) by (simp add: mem_write_def chk_bnd) (simp add: bnd_def ret_def)
qed

lemma store_fits:
  assumes "in_range m at z" "m_used m + 2 * PG \<le> m_cap m" "0 < z" "z \<le> 8"
  shows "\<exists>m'. mem_setN at n z m = (Inr (), m')"
proof (cases "nat at mod PG > PG - z")
  case True
  let ?b = "int_bytes z (take_bit (z * 8) n)"
  have "(nat at + z - 1) div PG \<le> (nat at + PG) div PG" using assms(4) by (intro div_le_mono) (simp add: PG_def)
  also have "\<dots> = nat at div PG + 1" by (rule div_add_self2) (use PG_pos in linarith)
  finally have "(nat at + z - 1) div PG - nat at div PG + 1 \<le> 2" by linarith
  then have "PG * ((nat at + z - 1) div PG - nat at div PG + 1) \<le> PG * 2" by (rule mult_le_mono2)
  then have "m_used m + PG * ((nat at + length ?b - 1) div PG - nat at div PG + 1) \<le> m_cap m"
    using assms(2) unfolding length_int_bytes by linarith
  then have "\<exists>m'. mem_write at ?b m = (Inr (), m')"
    using assms by (intro write_fits) (simp_all flip: length_greater_0_conv)
  then show ?thesis using True assms(1) by (simp add: mem_setN_def chk_bnd Let_def)
next
  case False
  then have "mem_setN at n z m = put_page (nat at div PG) (nat at mod PG) (int_bytes z (take_bit (z * 8) n)) (take_bit (z * 8) n \<noteq> 0) m"
    using assms(1) by (simp add: mem_setN_def chk_bnd Let_def put_page_def)
  then show ?thesis using put_page_room [of m] assms(2) by (metis add_leD1 add.assoc mult_2)
qed

lemma store8_fits:
  assumes "in_range m at 1" "m_used m + 2 * PG \<le> m_cap m"
  shows "\<exists>m'. mem_set8 at n m = (Inr (), m')"
  using assms by (cases "ent_get (m_page m) (nat at div PG)")
    (simp_all only: set8_run, auto simp: kop_simps bnd_def make_run get_set)

text \<open>What all stores share: \<open>st\<close> stores the bytes \<open>enc v\<close>.\<close>

locale mem_store =
  fixes st :: "int \<Rightarrow> 'v \<Rightarrow> (mem, unit) kop" and enc :: "'v \<Rightarrow> u8 list"
  assumes inside: "mem_ok m \<Longrightarrow> in_range m at (length (enc v)) \<Longrightarrow> stored m at (enc v) (st at v m)"
    and outside: "\<not> in_range m at (length (enc v)) \<Longrightarrow> st at v m = (Inl ERANGE, m)"
begin

lemma same: "mem_ok m \<Longrightarrow> mem_ok (snd (st at v m)) \<and> m_top (snd (st at v m)) = m_top m \<and> m_cap (snd (st at v m)) = m_cap m"
  using inside [of m at v] outside [of m at v]
  by (cases "in_range m at (length (enc v))") (auto simp: stored_def split: prod.splits sum.splits)

lemma errors:
  assumes "mem_ok m" "st at v m = (Inl e, m')"
  shows "e = ERANGE \<and> m' = m \<or> e = ENOMEM \<and> (\<exists>k < length (enc v). byte m' = flat_write (nat at) (take k (enc v)) (byte m))"
  using inside [of m at v] outside [of m at v] assms
  by (cases "in_range m at (length (enc v))") (auto simp: stored_def)

lemma over:
  assumes "mem_ok m" "st at v m = (Inr u, m')"
  shows "mem_ok m' \<and> in_range m' at (length (enc v)) \<and> byte m' = flat_write (nat at) (enc v) (byte m)"
  using inside [of m at v] outside [of m at v] assms
  by (cases "in_range m at (length (enc v))") (auto simp: stored_def in_range_def)

lemma read_back:
  assumes "mem_ok m" "st at v m = (Inr u, m')"
  shows "at_bytes (byte m') (nat at) (length (enc v)) = enc v"
  using over [OF assms] by (auto simp: at_bytes_def flat_write_def intro: nth_equalityI)

lemma frame:
  assumes "mem_ok m" "st at v m = (r, m')" "a < nat at \<or> nat at + length (enc v) \<le> a"
  shows "byte m' a = byte m a"
proof (cases r)
  case (Inr u)
  then have "byte m' = flat_write (nat at) (enc v) (byte m)" using over [OF assms(1)] assms(2) by blast
  then show ?thesis using assms(3) flat_out [of "nat at" a "enc v"] by auto
next
  case (Inl e)
  then consider "m' = m" | k where "k < length (enc v)" "byte m' = flat_write (nat at) (take k (enc v)) (byte m)"
    using errors [OF assms(1)] assms(2) by blast
  then show ?thesis using assms(3) flat_out [of "nat at" a] by cases auto
qed

end

lemma setN_outside: "\<not> in_range m at z \<Longrightarrow> mem_setN at n z m = (Inl ERANGE, m)"
  by (simp add: mem_setN_def chk_bnd)

interpretation wr: mem_store mem_write "\<lambda>b. b"
  by unfold_locales (use write_spec in \<open>simp add: stored_def\<close>, simp add: mem_write_def chk_bnd)

interpretation w8: mem_store mem_set8 "\<lambda>n. bytes_le 1 (of_int n :: u8)"
proof unfold_locales
  have b: "bytes_le 1 (of_int n :: u8) = [of_int n]" for n by (simp add: bytes_le_def)
  show "mem_ok m \<Longrightarrow> in_range m at (length (bytes_le 1 (of_int v :: u8))) \<Longrightarrow> stored m at (bytes_le 1 (of_int v :: u8)) (mem_set8 at v m)" for m at v
    unfolding b using store8_spec [of m at v] by simp
  show "\<not> in_range m at (length (bytes_le 1 (of_int v :: u8))) \<Longrightarrow> mem_set8 at v m = (Inl ERANGE, m)" for m at v
    by (simp add: mem_set8_def chk_bnd)
qed

interpretation w16: mem_store mem_set16 "\<lambda>n. bytes_le 2 (of_int n :: u16)"
  using store_spec [where z = 2] setN_outside [where z = 2] int_bytes_word [of 2, where 'a = 16]
  by unfold_locales (simp_all add: mem_set16_def)

interpretation w32: mem_store mem_set32 "\<lambda>n. bytes_le 4 (of_int n :: u32)"
  using store_spec [where z = 4] setN_outside [where z = 4] int_bytes_word [of 4, where 'a = 32]
  by unfold_locales (simp_all add: mem_set32_def)

interpretation w64: mem_store mem_set64 "\<lambda>n. bytes_le 8 (of_int n :: u64)"
  using store_spec [where z = 8] setN_outside [where z = 8] int_bytes_word [of 8, where 'a = 64]
  by unfold_locales (simp_all add: mem_set64_def)

section \<open>Properties\<close>

text \<open>The operations a program makes on its memory, in any order.\<close>

inductive mem_step :: "mem \<Rightarrow> mem \<Rightarrow> bool" where
  do_write: "mem_step m (snd (mem_write at b m))"
| do_set8: "mem_step m (snd (mem_set8 at n m))"
| do_set16: "mem_step m (snd (mem_set16 at n m))"
| do_set32: "mem_step m (snd (mem_set32 at n m))"
| do_set64: "mem_step m (snd (mem_set64 at n m))"
| do_drop: "mem_step m (snd (mem_drop at k m))"
| do_read: "mem_step m (snd (mem_read at k m))"
| do_u8: "mem_step m (snd (mem_u8 at m))"
| do_u16: "mem_step m (snd (mem_u16 at m))"
| do_u32: "mem_step m (snd (mem_u32 at m))"
| do_u64: "mem_step m (snd (mem_u64 at m))"

lemma drop_same: "mem_ok m \<Longrightarrow> mem_ok (snd (mem_drop at n m)) \<and> m_top (snd (mem_drop at n m)) = m_top m \<and> m_cap (snd (mem_drop at n m)) = m_cap m"
  using drop_spec [of m at n] by (cases "in_range m at n") (auto simp: mem_drop_def chk_bnd)

lemma step_same: "mem_step m m' \<Longrightarrow> mem_ok m \<Longrightarrow> mem_ok m' \<and> m_top m' = m_top m \<and> m_cap m' = m_cap m"
  by (induction rule: mem_step.induct)
    (simp_all add: wr.same w8.same w16.same w32.same w64.same drop_same read_spec load_spec)

lemma new_ok: "new_mem t c = Inr m \<Longrightarrow> mem_ok m \<and> m_top m = t \<and> m_cap m = c"
  by (auto simp: new_mem_def mem_ok_def ents_ok_def ent_get_def ent_sum_def split: if_splits)

text \<open>C29 Whatever a program does with its memory, every page is there once and whole, the count of the memory
  in use is that of the pages and never exceeds the budget, and neither budget nor size change.\<close>

theorem memory_within_budget:
  assumes "new_mem t c = Inr m0" "mem_step\<^sup>*\<^sup>* m0 m"
  shows "mem_ok m \<and> m_used m = PG * length (m_page m) \<and> m_used m \<le> c \<and> m_top m = t \<and> m_cap m = c"
proof -
  have "mem_ok m \<and> m_top m = t \<and> m_cap m = c"
    using assms(2) by (induction rule: rtranclp_induct) (use new_ok [OF assms(1)] step_same in \<open>auto\<close>)
  moreover have "ent_sum (\<lambda>_. PG) e = PG * length e" for e :: "(nat \<times> u8 list) list"
    by (induction e) (simp_all add: ent_sum_def)
  ultimately show ?thesis by (auto simp: mem_ok_def)
qed

text \<open>A memory of a megabyte with a budget of two pages.\<close>

definition mem0 :: mem where "mem0 = \<lparr>m_page = [], m_used = 0, m_top = 1048576, m_cap = 131072\<rparr>"

lemma mem0: "new_mem 1048576 131072 = Inr mem0" "mem_ok mem0"
proof -
  show "new_mem 1048576 131072 = Inr mem0" by (simp add: new_mem_def mem0_def PG_def)
  then show "mem_ok mem0" using new_ok by blast
qed

theorem memory_within_budget_witness: "m_used (snd (mem_set64 65532 (- 1) mem0)) \<le> 131072"
  using memory_within_budget [OF mem0(1) r_into_rtranclp [of mem_step, OF do_set64 [of mem0 65532 "- 1"]]] by simp

text \<open>C28 The memory behaves as a flat array of bytes, wherever page boundaries lie. A new memory is all zero. An access of any width that lies
  inside the memory works, one that does not raises \<open>ERANGE\<close> and changes nothing: reads and loads give the bytes from the address on, least
  significant first; a write changes exactly the bytes of its range, and when the budget ends in its middle (\<open>ENOMEM\<close>), the bytes before; a
  drop makes its range zero.\<close>

theorem memory_is_flat:
  assumes ok: "mem_ok m"
  shows "(new_mem t c = Inr m \<longrightarrow> byte m a = 0) \<and>
    mem_read at n m = (if in_range m at n then (Inr (at_bytes (byte m) (nat at) n), m) else (Inl ERANGE, m)) \<and>
    mem_u8 at m = (if in_range m at 1 then (Inr (byte m (nat at)), m) else (Inl ERANGE, m)) \<and>
    mem_u16 at m = (if in_range m at 2 then (Inr (of_bytes (at_bytes (byte m) (nat at) 2)), m) else (Inl ERANGE, m)) \<and>
    mem_u32 at m = (if in_range m at 4 then (Inr (of_bytes (at_bytes (byte m) (nat at) 4)), m) else (Inl ERANGE, m)) \<and>
    mem_u64 at m = (if in_range m at 8 then (Inr (of_bytes (at_bytes (byte m) (nat at) 8)), m) else (Inl ERANGE, m)) \<and>
    (case mem_write at b m of
       (Inr _, m') \<Rightarrow> in_range m at (length b) \<and> byte m' = flat_write (nat at) b (byte m)
     | (Inl e, m') \<Rightarrow>
         if in_range m at (length b) then e = ENOMEM \<and> (\<exists>k < length b. byte m' = flat_write (nat at) (take k b) (byte m))
         else e = ERANGE \<and> m' = m) \<and>
    (if in_range m at n
     then \<exists>m'. mem_drop at n m = (Inr (), m') \<and> byte m' = flat_write (nat at) (replicate n 0) (byte m) \<and> m_used m' \<le> m_used m
     else mem_drop at n m = (Inl ERANGE, m))"
proof -
  have "byte m a = 0" if "new_mem t c = Inr m"
    using that by (auto simp: new_mem_def byte_def page_at_def ent_get_def split: if_splits)
  moreover have "case mem_write at b m of
       (Inr _, m') \<Rightarrow> in_range m at (length b) \<and> byte m' = flat_write (nat at) b (byte m)
     | (Inl e, m') \<Rightarrow>
         if in_range m at (length b) then e = ENOMEM \<and> (\<exists>k < length b. byte m' = flat_write (nat at) (take k b) (byte m))
         else e = ERANGE \<and> m' = m"
    using write_spec [OF ok, of at b] wr.outside [of m at b] by (cases "in_range m at (length b)") (auto split: prod.splits sum.splits)
  moreover have "if in_range m at n
     then \<exists>m'. mem_drop at n m = (Inr (), m') \<and> byte m' = flat_write (nat at) (replicate n 0) (byte m) \<and> m_used m' \<le> m_used m
     else mem_drop at n m = (Inl ERANGE, m)"
    using drop_spec [OF ok, of at n] by (auto simp: mem_drop_def chk_bnd)
  ultimately show ?thesis
    using read_spec [OF ok, of at n] load_spec [OF ok, of at] by (simp add: at_bytes_def)
qed

theorem memory_is_flat_witness:
  "mem_u64 65532 mem0 = (Inr (of_bytes (at_bytes (byte mem0) 65532 8)), mem0) \<and> byte mem0 65532 = 0 \<and> mem_u16 1048575 mem0 = (Inl ERANGE, mem0)"
  using memory_is_flat [OF mem0(2), of 1048576 131072 65532 65532] memory_is_flat [OF mem0(2), of _ _ _ 1048575] mem0(1)
  by (simp add: in_range_def mem0_def)

text \<open>A write succeeds whenever the budget has a page left for each page that its range touches.\<close>

theorem write_with_budget:
  assumes "in_range m at (length b)" "b \<noteq> []"
    "m_used m + PG * ((nat at + length b - 1) div PG - nat at div PG + 1) \<le> m_cap m"
  shows "\<exists>m'. mem_write at b m = (Inr (), m')"
  using assms by (rule write_fits)

theorem write_with_budget_witness: "\<exists>m'. mem_write 65532 [1, 2, 3, 4, 5] mem0 = (Inr (), m')"
  by (rule write_with_budget) (simp_all add: in_range_def mem0_def PG_def)

text \<open>C31 An integer that is stored is loaded again, cut to the width of the store and with either reading of its sign, also across a page boundary, and
  nothing outside its bytes changes; for each of the four widths.\<close>

theorem store_then_load:
  assumes ok: "mem_ok m"
  shows "(mem_set64 at n m = (Inr (), m') \<longrightarrow> mem_u64 at m' = (Inr (of_int n), m') \<and> mem_i64 at m' = (Inr (signed_take_bit 63 n), m') \<and>
       (\<forall>a. a < nat at \<or> nat at + 8 \<le> a \<longrightarrow> byte m' a = byte m a)) \<and>
    (mem_set32 at n m = (Inr (), m') \<longrightarrow> mem_u32 at m' = (Inr (of_int n), m') \<and> mem_i32 at m' = (Inr (signed_take_bit 31 n), m') \<and>
       (\<forall>a. a < nat at \<or> nat at + 4 \<le> a \<longrightarrow> byte m' a = byte m a)) \<and>
    (mem_set16 at n m = (Inr (), m') \<longrightarrow> mem_u16 at m' = (Inr (of_int n), m') \<and> mem_i16 at m' = (Inr (signed_take_bit 15 n), m') \<and>
       (\<forall>a. a < nat at \<or> nat at + 2 \<le> a \<longrightarrow> byte m' a = byte m a)) \<and>
    (mem_set8 at n m = (Inr (), m') \<longrightarrow> mem_u8 at m' = (Inr (of_int n), m') \<and> mem_i8 at m' = (Inr (signed_take_bit 7 n), m') \<and>
       (\<forall>a. a < nat at \<or> nat at + 1 \<le> a \<longrightarrow> byte m' a = byte m a))"
proof (intro conjI impI)
  assume st: "mem_set64 at n m = (Inr (), m')"
  show u: "mem_u64 at m' = (Inr (of_int n), m')"
    using w64.over [OF ok st] w64.read_back [OF ok st] load_spec(4) [of m' at] by (auto simp: flat_in)
  show "mem_i64 at m' = (Inr (signed_take_bit 63 n), m')" using u by (simp add: mem_i64_def kop_simps signed_of_int)
  show "\<forall>a. a < nat at \<or> nat at + 8 \<le> a \<longrightarrow> byte m' a = byte m a" using w64.frame [OF ok st] by simp
next
  assume st: "mem_set32 at n m = (Inr (), m')"
  show u: "mem_u32 at m' = (Inr (of_int n), m')"
    using w32.over [OF ok st] w32.read_back [OF ok st] load_spec(3) [of m' at] by (auto simp: flat_in)
  show "mem_i32 at m' = (Inr (signed_take_bit 31 n), m')" using u by (simp add: mem_i32_def kop_simps signed_of_int)
  show "\<forall>a. a < nat at \<or> nat at + 4 \<le> a \<longrightarrow> byte m' a = byte m a" using w32.frame [OF ok st] by simp
next
  assume st: "mem_set16 at n m = (Inr (), m')"
  show u: "mem_u16 at m' = (Inr (of_int n), m')"
    using w16.over [OF ok st] w16.read_back [OF ok st] load_spec(2) [of m' at] by (auto simp: flat_in)
  show "mem_i16 at m' = (Inr (signed_take_bit 15 n), m')" using u by (simp add: mem_i16_def kop_simps signed_of_int)
  show "\<forall>a. a < nat at \<or> nat at + 2 \<le> a \<longrightarrow> byte m' a = byte m a" using w16.frame [OF ok st] by simp
next
  assume st: "mem_set8 at n m = (Inr (), m')"
  have b: "bytes_le 1 (of_int n :: u8) = [of_int n]" by (simp add: bytes_le_def)
  show u: "mem_u8 at m' = (Inr (of_int n), m')"
    using w8.over [OF ok st] load_spec(1) [of m' at] b by (auto simp: flat_in)
  show "mem_i8 at m' = (Inr (signed_take_bit 7 n), m')" using u by (simp add: mem_i8_def kop_simps signed_of_int)
  show "\<forall>a. a < nat at \<or> nat at + 1 \<le> a \<longrightarrow> byte m' a = byte m a" using w8.frame [OF ok st] b by simp
qed

theorem store_then_load_witness:
  "\<exists>m1. mem_set64 65532 (- 2) mem0 = (Inr (), m1) \<and> mem_u64 65532 m1 = (Inr (- 2), m1) \<and> byte m1 65531 = 0"
proof -
  have "in_range mem0 65532 8" "m_used mem0 + 2 * PG \<le> m_cap mem0" by (simp_all add: in_range_def mem0_def PG_def)
  then obtain m1 where m: "mem_set64 65532 (- 2) mem0 = (Inr (), m1)" using store_fits [of mem0 65532 8] unfolding mem_set64_def by auto
  have "byte mem0 65531 = 0" by (simp add: byte_def page_at_def mem0_def ent_get_def)
  then show ?thesis using store_then_load [OF mem0(2), of 65532 "- 2" m1] m by simp
qed

text \<open>An access that is not wholly inside the memory raises ERANGE and changes nothing.\<close>

theorem outside_is_refused:
  assumes "\<not> in_range m at n"
  shows "mem_read at n m = (Inl ERANGE, m) \<and> mem_drop at n m = (Inl ERANGE, m) \<and>
    (length b = n \<longrightarrow> mem_write at b m = (Inl ERANGE, m)) \<and>
    (n = 8 \<longrightarrow> mem_u64 at m = (Inl ERANGE, m) \<and> mem_set64 at v m = (Inl ERANGE, m)) \<and>
    (n = 4 \<longrightarrow> mem_u32 at m = (Inl ERANGE, m) \<and> mem_set32 at v m = (Inl ERANGE, m)) \<and>
    (n = 2 \<longrightarrow> mem_u16 at m = (Inl ERANGE, m) \<and> mem_set16 at v m = (Inl ERANGE, m)) \<and>
    (n = 1 \<longrightarrow> mem_u8 at m = (Inl ERANGE, m) \<and> mem_set8 at v m = (Inl ERANGE, m))"
  using assms w8.outside [of m at v] w16.outside [of m at v] w32.outside [of m at v] w64.outside [of m at v] wr.outside [of m at b]
  by (auto simp: mem_read_def mem_drop_def chk_bnd mem_u8_def mem_u16_def mem_u32_def mem_u64_def)


theorem outside_is_refused_witness: "mem_set64 1048570 7 mem0 = (Inl ERANGE, mem0)"
  using outside_is_refused [of mem0 1048570 8 "[]" 7] by (simp add: in_range_def mem0_def)

end
