(* ===== verification/Rv64.thy ===== *)
theory Rv64
  imports Mem64 "HOL-Library.Signed_Division"
begin

text \<open>
  The RV64GC interpreter (class \<open>Rv64\<close> of \<^verbatim>\<open>src/src/vm/rv64.ts\<close>): registers, the checks of memory accesses,
  every instruction, and the step. Registers are words, read as signed integers as the code reads them;
  addresses and intermediate results are integers (\<open>bigint\<close>). An instruction is a 32-bit word; for a compressed
  one its upper half is zero.

  Not in this theory: the calls of the system (\<open>call\<close>), which \<open>step\<close> reports to its caller, and the arithmetic of
  floating point numbers, which is JavaScript's and is the parameter \<open>js\<close>.
\<close>

section \<open>State\<close>

record rv_seg =
  s_name :: string
  s_at :: int
  s_end :: int
  s_flg :: string

record map_ent =
  e_at :: int
  e_end :: int
  e_prot :: nat
  e_shared :: bool
  e_path :: "string option"
  e_off :: "int option"

record rv =
  r_x :: "u64 list"
  r_f :: "u64 list"
  r_m :: mem
  r_pc :: int
  r_floor :: int
  r_brk :: int
  r_stackAt :: int
  r_res :: int
  r_fcsr :: u32
  r_mapAt :: int
  r_maps :: "map_ent list"
  r_seg :: "rv_seg list"
  r_eat :: int
  r_eend :: int

definition PAGE :: int where "PAGE = 4096"
definition MIN64 :: int where "MIN64 = - (2 ^ 63)"

text \<open>\<open>BigInt.asIntN(z, n)\<close>, \<open>BigInt.asUintN(64, n)\<close> and the next multiple of a page.\<close>

definition sx :: "int \<Rightarrow> nat \<Rightarrow> int" where "sx n z = signed_take_bit (z - 1) n"
definition ux :: "int \<Rightarrow> int" where "ux n = take_bit 64 n"
definition al :: "int \<Rightarrow> int" where "al n = (n + PAGE - 1) AND - PAGE"

text \<open>\<open>i >>> k & (2 ^ n - 1)\<close>.\<close>

definition field :: "nat \<Rightarrow> nat \<Rightarrow> u32 \<Rightarrow> nat" where
  "field k n i = unat (drop_bit k i AND mask n)"

definition xr :: "nat \<Rightarrow> rv \<Rightarrow> int" where "xr n r = sint (r_x r ! n)"

definition setx :: "nat \<Rightarrow> int \<Rightarrow> (rv, unit) kop" where
  "setx d n = modify (\<lambda>r. if d \<noteq> 0 then r\<lparr>r_x := (r_x r)[d := of_int n]\<rparr> else r)"

definition setpc :: "int \<Rightarrow> (rv, unit) kop" where "setpc a = modify (\<lambda>r. r\<lparr>r_pc := a\<rparr>)"

definition ill :: "(rv, 'a) kop" where "ill = bad ENOEXEC"

definition on_mem :: "(mem, 'a) kop \<Rightarrow> (rv, 'a) kop" where
  "on_mem f r = (case f (r_m r) of (v, m) \<Rightarrow> (v, r\<lparr>r_m := m\<rparr>))"

section \<open>Accesses\<close>

text \<open>\<open>exec\<close>: the last segment that was executed is remembered.\<close>

definition exec_ok :: "int \<Rightarrow> nat \<Rightarrow> (rv, unit) kop" where
  "exec_ok at n r =
     (let en = at + int n in
      if r_eat r \<le> at \<and> en \<le> r_eend r then (Inr (), r)
      else case find (\<lambda>s. CHR ''x'' \<in> set (s_flg s) \<and> s_at s \<le> at \<and> en \<le> s_end s) (r_seg r) of
        Some s \<Rightarrow> (Inr (), r\<lparr>r_eat := s_at s, r_eend := s_end s\<rparr>)
      | None \<Rightarrow>
          if \<exists>m \<in> set (r_maps r). e_prot m AND 4 \<noteq> 0 \<and> e_at m \<le> at \<and> en \<le> e_end m then (Inr (), r) else (Inl EACCES, r))"

definition seg_of :: "rv \<Rightarrow> int \<Rightarrow> int \<Rightarrow> rv_seg option" where
  "seg_of r at en = (if at < r_floor r then find (\<lambda>s. s_at s \<le> at \<and> en \<le> s_end s) (r_seg r) else None)"

definition in_map :: "rv \<Rightarrow> int \<Rightarrow> int \<Rightarrow> bool" where
  "in_map r at en \<longleftrightarrow> (\<exists>m \<in> set (r_maps r). e_at m \<le> at \<and> en \<le> e_end m)"

definition mem_chk :: "int \<Rightarrow> nat \<Rightarrow> bool \<Rightarrow> (rv, unit) kop" where
  "mem_chk at n wr r =
     (let en = at + int n; q = seg_of r at en in
      if at < 0 \<or> m_top (r_m r) < en then (Inl ERANGE, r)
      else if n = 0 then (Inr (), r)
      else if \<not> (q \<noteq> None \<or> r_floor r \<le> at \<and> en \<le> r_brk r \<or> r_stackAt r \<le> at \<or> in_map r at en) then (Inl ERANGE, r)
      else if wr \<and> (case q of Some s \<Rightarrow> CHR ''w'' \<notin> set (s_flg s) | None \<Rightarrow> False) then (Inl EACCES, r)
      else if wr \<and> q = None \<and> (\<exists>m \<in> set (r_maps r). e_at m \<le> at \<and> en \<le> e_end m \<and> e_prot m AND 2 = 0) then (Inl EACCES, r)
      else (Inr (), r))"

definition load_at :: "nat \<Rightarrow> nat \<Rightarrow> int \<Rightarrow> (rv, unit) kop" where
  "load_at d f at0 =
     (let at = ux at0; get = (\<lambda>n g. bnd (mem_chk at n False) (\<lambda>_. bnd (on_mem g) (setx d))) in
      if f = 0 then get 1 (mem_i8 at)
      else if f = 1 then get 2 (mem_i16 at)
      else if f = 2 then get 4 (mem_i32 at)
      else if f = 3 then get 8 (mem_i64 at)
      else if f = 4 then get 1 (bnd (mem_u8 at) (\<lambda>v. ret (uint v)))
      else if f = 5 then get 2 (bnd (mem_u16 at) (\<lambda>v. ret (uint v)))
      else if f = 6 then get 4 (bnd (mem_u32 at) (\<lambda>v. ret (uint v)))
      else ill)"

definition store_at :: "nat \<Rightarrow> int \<Rightarrow> int \<Rightarrow> (rv, unit) kop" where
  "store_at f at0 n =
     (let at = ux at0; put = (\<lambda>z g. bnd (mem_chk at z True) (\<lambda>_. on_mem g)) in
      if f = 0 then put 1 (mem_set8 at n)
      else if f = 1 then put 2 (mem_set16 at n)
      else if f = 2 then put 4 (mem_set32 at n)
      else if f = 3 then put 8 (mem_set64 at n)
      else ill)"

definition setf :: "nat \<Rightarrow> u64 \<Rightarrow> (rv, unit) kop" where
  "setf d n = modify (\<lambda>r. r\<lparr>r_f := (r_f r)[d := n]\<rparr>)"

definition fload_at :: "nat \<Rightarrow> nat \<Rightarrow> int \<Rightarrow> (rv, unit) kop" where
  "fload_at d f at0 =
     (let at = ux at0 in
      if f = 2 then bnd (mem_chk at 4 False) (\<lambda>_. bnd (on_mem (mem_u32 at)) (\<lambda>v. setf d (0xffffffff00000000 OR ucast v)))
      else if f = 3 then bnd (mem_chk at 8 False) (\<lambda>_. bnd (on_mem (mem_u64 at)) (setf d))
      else ill)"

definition fstore_at :: "nat \<Rightarrow> nat \<Rightarrow> int \<Rightarrow> (rv, unit) kop" where
  "fstore_at s f at0 =
     (let at = ux at0 in
      if f = 2 then bnd (mem_chk at 4 True) (\<lambda>_. bnd (asks (\<lambda>r. uint (r_f r ! s))) (\<lambda>v. on_mem (mem_set32 at v)))
      else if f = 3 then bnd (mem_chk at 8 True) (\<lambda>_. bnd (asks (\<lambda>r. uint (r_f r ! s))) (\<lambda>v. on_mem (mem_set64 at v)))
      else ill)"

section \<open>Immediates\<close>

definition immI :: "u32 \<Rightarrow> int" where "immI i = sx (uint (drop_bit 20 i)) 12"

definition immS :: "u32 \<Rightarrow> int" where
  "immS i = sx (uint (push_bit 5 (drop_bit 25 i) OR (drop_bit 7 i AND 31))) 12"

definition immB :: "u32 \<Rightarrow> int" where
  "immB i = sx (uint (push_bit 12 (drop_bit 31 i) OR push_bit 11 (drop_bit 7 i AND 1) OR push_bit 5 (drop_bit 25 i AND 63) OR
     push_bit 1 (drop_bit 8 i AND 15))) 13"

definition immU :: "u32 \<Rightarrow> int" where "immU i = sx (uint (i AND 0xfffff000)) 32"

definition immJ :: "u32 \<Rightarrow> int" where
  "immJ i = sx (uint (push_bit 20 (drop_bit 31 i) OR push_bit 12 (drop_bit 12 i AND 255) OR push_bit 11 (drop_bit 20 i AND 1) OR
     push_bit 1 (drop_bit 21 i AND 1023))) 21"

section \<open>Integer instructions\<close>

definition rv_div :: "int \<Rightarrow> int \<Rightarrow> bool \<Rightarrow> nat \<Rightarrow> int" where
  "rv_div a b uns bits =
     (if b = 0 then (if uns then 2 ^ bits - 1 else - 1)
      else let lo = - (2 ^ (bits - 1)) in
      if \<not> uns \<and> a = lo \<and> b = - 1 then lo else a sdiv b)"

definition rv_rem :: "int \<Rightarrow> int \<Rightarrow> bool \<Rightarrow> int" where
  "rv_rem a b uns = (if b = 0 then a else if \<not> uns \<and> a = MIN64 \<and> b = - 1 then 0 else a smod b)"

definition opI :: "nat \<Rightarrow> nat \<Rightarrow> u32 \<Rightarrow> int \<Rightarrow> (rv, unit) kop" where
  "opI d f i a =
     (let im = immI i; sh = field 20 6 i; hi = field 26 6 i in
      if f = 0 then setx d (a + im)
      else if f = 1 then (if hi \<noteq> 0 then ill else setx d (push_bit sh (ux a)))
      else if f = 2 then setx d (if a < im then 1 else 0)
      else if f = 3 then setx d (if ux a < ux im then 1 else 0)
      else if f = 4 then setx d (a XOR im)
      else if f = 5 then
        (if hi = 0 then setx d (drop_bit sh (ux a))
         else if hi = 0x10 then setx d (drop_bit sh a)
         else ill)
      else if f = 6 then setx d (a OR im)
      else if f = 7 then setx d (a AND im)
      else ret ())"

definition opIW :: "nat \<Rightarrow> nat \<Rightarrow> u32 \<Rightarrow> int \<Rightarrow> (rv, unit) kop" where
  "opIW d f i a =
     (let sh = field 20 5 i; hi = field 25 7 i in
      if f = 0 then setx d (sx (a + immI i) 32)
      else if f = 1 \<and> hi = 0 then setx d (sx (push_bit sh (sx a 32)) 32)
      else if f = 5 \<and> hi = 0 then setx d (sx (drop_bit sh (take_bit 32 a)) 32)
      else if f = 5 \<and> hi = 0x20 then setx d (sx (drop_bit sh (sx a 32)) 32)
      else ill)"

definition opR :: "nat \<Rightarrow> nat \<Rightarrow> nat \<Rightarrow> int \<Rightarrow> int \<Rightarrow> (rv, unit) kop" where
  "opR d f hi a b =
     (let sh = nat (ux b AND 63) in
      if hi = 1 then
       (if f = 0 then setx d (a * b)
        else if f = 1 then setx d (drop_bit 64 (a * b))
        else if f = 2 then setx d (drop_bit 64 (a * ux b))
        else if f = 3 then setx d (drop_bit 64 (ux a * ux b))
        else if f = 4 then setx d (rv_div a b False 64)
        else if f = 5 then setx d (rv_div (ux a) (ux b) True 64)
        else if f = 6 then setx d (rv_rem a b False)
        else if f = 7 then setx d (rv_rem (ux a) (ux b) True)
        else ret ())
      else if f = 0 then (if hi = 0 then setx d (a + b) else if hi = 0x20 then setx d (a - b) else ill)
      else if f = 1 then (if hi = 0 then setx d (push_bit sh (ux a)) else ill)
      else if f = 2 then (if hi = 0 then setx d (if a < b then 1 else 0) else ill)
      else if f = 3 then (if hi = 0 then setx d (if ux a < ux b then 1 else 0) else ill)
      else if f = 4 then (if hi = 0 then setx d (a XOR b) else ill)
      else if f = 5 then
        (if hi = 0 then setx d (drop_bit sh (ux a)) else if hi = 0x20 then setx d (drop_bit sh a) else ill)
      else if f = 6 then (if hi = 0 then setx d (a OR b) else ill)
      else if f = 7 then (if hi = 0 then setx d (a AND b) else ill)
      else ret ())"

definition opRW :: "nat \<Rightarrow> nat \<Rightarrow> nat \<Rightarrow> int \<Rightarrow> int \<Rightarrow> (rv, unit) kop" where
  "opRW d f hi a b =
     (let sh = nat (ux b AND 31) in
      if hi = 1 then
       (let x = sx a 32; y = sx b 32; xu = take_bit 32 a; yu = take_bit 32 b in
        if f = 0 then setx d (sx (x * y) 32)
        else if f = 4 then setx d (sx (rv_div x y False 64) 32)
        else if f = 5 then setx d (sx (rv_div xu yu True 32) 32)
        else if f = 6 then setx d (sx (rv_rem x y False) 32)
        else if f = 7 then setx d (sx (rv_rem xu yu True) 32)
        else ill)
      else if f = 0 \<and> hi = 0 then setx d (sx (a + b) 32)
      else if f = 0 \<and> hi = 0x20 then setx d (sx (a - b) 32)
      else if f = 1 \<and> hi = 0 then setx d (sx (push_bit sh (sx a 32)) 32)
      else if f = 5 \<and> hi = 0 then setx d (sx (drop_bit sh (take_bit 32 a)) 32)
      else if f = 5 \<and> hi = 0x20 then setx d (sx (drop_bit sh (sx a 32)) 32)
      else ill)"

definition branch :: "nat \<Rightarrow> int \<Rightarrow> int \<Rightarrow> (rv, bool) kop" where
  "branch f a b =
     (if f = 0 then ret (a = b)
      else if f = 1 then ret (a \<noteq> b)
      else if f = 4 then ret (a < b)
      else if f = 5 then ret (b \<le> a)
      else if f = 6 then ret (ux a < ux b)
      else if f = 7 then ret (ux b \<le> ux a)
      else ill)"

section \<open>Atomic instructions\<close>

definition setres :: "int \<Rightarrow> (rv, unit) kop" where "setres a = modify (\<lambda>r. r\<lparr>r_res := a\<rparr>)"

definition amo_out :: "nat \<Rightarrow> int \<Rightarrow> int \<Rightarrow> int \<Rightarrow> int \<Rightarrow> int option" where
  "amo_out fn a b au bu =
     (if fn = 0 then Some (a + b)
      else if fn = 1 then Some b
      else if fn = 4 then Some (a XOR b)
      else if fn = 8 then Some (a OR b)
      else if fn = 12 then Some (a AND b)
      else if fn = 16 then Some (if a < b then a else b)
      else if fn = 20 then Some (if b < a then a else b)
      else if fn = 24 then Some (if au < bu then au else bu)
      else if fn = 28 then Some (if bu < au then au else bu)
      else None)"

definition atomic :: "nat \<Rightarrow> nat \<Rightarrow> u32 \<Rightarrow> int \<Rightarrow> int \<Rightarrow> (rv, unit) kop" where
  "atomic d f i at0 n =
     (if f \<noteq> 2 \<and> f \<noteq> 3 then ill else
      let at = ux at0; z = (if f = 2 then 4 else 8); fn = field 27 5 i;
          put = (\<lambda>v. on_mem (if f = 2 then mem_set32 at v else mem_set64 at v)) in
      bnd (mem_chk at z (fn \<noteq> 2)) (\<lambda>_.
      bnd (on_mem (if f = 2 then mem_i32 at else mem_i64 at)) (\<lambda>old.
      if fn = 2 then
        (if field 20 5 i \<noteq> 0 then ill else bnd (setres at) (\<lambda>_. setx d old))
      else if fn = 3 then
        bnd (asks (\<lambda>r. r_res r = at)) (\<lambda>ok.
        bnd (setres (- 1)) (\<lambda>_.
        bnd (if ok then put n else ret ()) (\<lambda>_.
        setx d (if ok then 0 else 1))))
      else
        (let a = (if f = 2 then sx old 32 else old); b = (if f = 2 then sx n 32 else n);
             au = (if f = 2 then take_bit 32 old else ux old); bu = (if f = 2 then take_bit 32 n else ux n) in
         case amo_out fn a b au bu of
           None \<Rightarrow> ill
         | Some out \<Rightarrow> bnd (put out) (\<lambda>_. bnd (setres (- 1)) (\<lambda>_. setx d old))))))"

section \<open>Control and status registers\<close>

text \<open>\<open>now\<close> is \<open>Date.now()\<close>.\<close>

definition csr_old :: "int \<Rightarrow> nat \<Rightarrow> u32 \<Rightarrow> int option" where
  "csr_old now nr fcsr =
     (if nr = 0xc00 \<or> nr = 0xc02 then Some 0
      else if nr = 0xc01 then Some (now * 1000)
      else if nr = 1 then Some (uint (fcsr AND 31))
      else if nr = 2 then Some (uint (drop_bit 5 fcsr AND 7))
      else if nr = 3 then Some (uint (fcsr AND 255))
      else None)"

definition csr :: "int \<Rightarrow> nat \<Rightarrow> nat \<Rightarrow> u32 \<Rightarrow> int \<Rightarrow> nat \<Rightarrow> (rv, unit) kop" where
  "csr now d f i a ai =
     (let nr = field 20 12 i; rw = (1 \<le> nr \<and> nr \<le> 3) in
      bnd (asks (\<lambda>r. csr_old now nr (r_fcsr r))) (\<lambda>v0. case v0 of None \<Rightarrow> ill | Some old \<Rightarrow>
      if f \<notin> {1, 2, 3, 5, 6, 7} then ill else
      (let n = (if 5 \<le> f then int ai else ux a);
           wr = (if f = 1 \<or> f = 5 then n else if f = 2 \<or> f = 6 then old OR n else old AND NOT n);
           hit = (f = 1 \<or> f = 5 \<or> n \<noteq> 0) in
       if hit \<and> \<not> rw then ill else
       bnd (modify (\<lambda>r. if \<not> hit then r
          else if nr = 1 then r\<lparr>r_fcsr := (r_fcsr r AND NOT 31) OR of_int (wr AND 31)\<rparr>
          else if nr = 2 then r\<lparr>r_fcsr := (r_fcsr r AND 31) OR push_bit 5 (of_int (wr AND 7))\<rparr>
          else r\<lparr>r_fcsr := of_int (wr AND 255)\<rparr>)) (\<lambda>_.
       setx d old))))"


section \<open>Floating point instructions\<close>

text \<open>The arithmetic on numbers. \<open>j_arith\<close> maps an operation, the precision of its result (single or not) and the
  contents of the registers of its operands to the bits of the result; \<open>j_le\<close>, \<open>j_lt\<close>, \<open>j_eq\<close> compare; \<open>j_int\<close> is
  \<open>toInt\<close>, the integer for a number, a width, a signedness and a rounding mode, and whether it was not representable;
  \<open>j_num\<close> gives the bits of the number for an integer.\<close>

datatype farith = FAdd | FSub | FMul | FDiv | FSqrt | FMin | FMax | FMadd | FMsub | FNmsub | FNmadd | FNarrow | FWiden

record js =
  j_arith :: "farith \<Rightarrow> bool \<Rightarrow> u64 list \<Rightarrow> u64"
  j_le :: "bool \<Rightarrow> u64 \<Rightarrow> u64 \<Rightarrow> bool"
  j_lt :: "bool \<Rightarrow> u64 \<Rightarrow> u64 \<Rightarrow> bool"
  j_eq :: "bool \<Rightarrow> u64 \<Rightarrow> u64 \<Rightarrow> bool"
  j_int :: "bool \<Rightarrow> u64 \<Rightarrow> nat \<Rightarrow> bool \<Rightarrow> nat \<Rightarrow> int \<times> bool"
  j_num :: "bool \<Rightarrow> int \<Rightarrow> u64"

text \<open>A single is in the lower half of its register, the upper half all ones; anything else is a NaN.\<close>

definition fraw :: "u64 \<Rightarrow> bool \<Rightarrow> u64" where
  "fraw q single =
     (if \<not> single then q
      else if drop_bit 32 q = 0xffffffff then q AND 0xffffffff
      else 0x7fc00000)"

definition fbits :: "nat \<Rightarrow> u64 \<Rightarrow> bool \<Rightarrow> (rv, unit) kop" where
  "fbits d n single = setf d (if single then 0xffffffff00000000 OR take_bit 32 n else n)"

definition fr :: "nat \<Rightarrow> rv \<Rightarrow> u64" where "fr n r = r_f r ! n"

definition f_exp :: "bool \<Rightarrow> u64 \<Rightarrow> nat" where
  "f_exp single q = (if single then unat (drop_bit 23 q AND mask 8) else unat (drop_bit 52 q AND mask 11))"

definition f_frac :: "bool \<Rightarrow> u64 \<Rightarrow> nat" where
  "f_frac single q = (if single then unat (q AND mask 23) else unat (q AND mask 52))"

definition f_sign :: "bool \<Rightarrow> u64 \<Rightarrow> bool" where
  "f_sign single q = bit q (if single then 31 else 63)"

definition f_all :: "bool \<Rightarrow> nat" where "f_all single = (if single then 255 else 2047)"

text \<open>\<open>Number.isNaN(fr(n))\<close> and \<open>!fr(n)\<close>, which NaN satisfies too.\<close>

definition f_nan :: "bool \<Rightarrow> u64 \<Rightarrow> bool" where
  "f_nan single q \<longleftrightarrow> (let b = fraw q single in f_exp single b = f_all single \<and> f_frac single b \<noteq> 0)"

definition f_falsy :: "bool \<Rightarrow> u64 \<Rightarrow> bool" where
  "f_falsy single q \<longleftrightarrow> (let b = fraw q single in f_nan single q \<or> f_exp single b = 0 \<and> f_frac single b = 0)"

definition fclass :: "u64 \<Rightarrow> bool \<Rightarrow> int" where
  "fclass q0 single =
     (let q = fraw q0 single; s = f_sign single q; ex = f_exp single q; frac = f_frac single q in
      if ex = f_all single then
        (if frac = 0 then 2 ^ (if s then 0 else 7)
         else 2 ^ (if bit q (if single then 22 else 51) then 9 else 8))
      else if ex = 0 then
        (if frac = 0 then 2 ^ (if s then 3 else 4) else 2 ^ (if s then 2 else 5))
      else 2 ^ (if s then 1 else 6))"

definition round_mode :: "nat \<Rightarrow> (rv, nat) kop" where
  "round_mode n =
     bnd (asks (\<lambda>r. if n = 7 then unat (drop_bit 5 (r_fcsr r) AND 7) else n)) (\<lambda>q.
     if 4 < q then ill else ret q)"

definition raise_flag :: "u32 \<Rightarrow> (rv, unit) kop" where
  "raise_flag b = modify (\<lambda>r. r\<lparr>r_fcsr := r_fcsr r OR b\<rparr>)"

definition fma :: "js \<Rightarrow> nat \<Rightarrow> nat \<Rightarrow> u32 \<Rightarrow> nat \<Rightarrow> nat \<Rightarrow> (rv, unit) kop" where
  "fma j op d i a b =
     (let c = field 27 5 i; fmt = field 25 2 i; single = (fmt = 0) in
      if \<not> single \<and> fmt \<noteq> 1 then ill else
      bnd (round_mode (field 12 3 i)) (\<lambda>_.
      bnd (asks (\<lambda>r. [fr a r, fr b r, fr c r])) (\<lambda>xs.
      fbits d (j_arith j (if op = 0x43 then FMadd else if op = 0x47 then FMsub else if op = 0x4b then FNmsub else FNmadd) single xs) single)))"

definition fop2 :: "js \<Rightarrow> farith \<Rightarrow> nat \<Rightarrow> nat \<Rightarrow> bool \<Rightarrow> nat \<Rightarrow> nat \<Rightarrow> (rv, unit) kop" where
  "fop2 j g d f3 single a b =
     bnd (round_mode f3) (\<lambda>_. bnd (asks (\<lambda>r. j_arith j g single [fr a r, fr b r])) (\<lambda>v. fbits d v single))"

definition fop1 :: "js \<Rightarrow> farith \<Rightarrow> nat \<Rightarrow> nat \<Rightarrow> bool \<Rightarrow> nat \<Rightarrow> (rv, unit) kop" where
  "fop1 j g d f3 single a =
     bnd (round_mode f3) (\<lambda>_. bnd (asks (\<lambda>r. j_arith j g single [fr a r])) (\<lambda>v. fbits d v single))"

definition fdiv :: "js \<Rightarrow> nat \<Rightarrow> nat \<Rightarrow> bool \<Rightarrow> nat \<Rightarrow> nat \<Rightarrow> (rv, unit) kop" where
  "fdiv j d f3 single a b =
     bnd (round_mode f3) (\<lambda>_.
     bnd (asks (\<lambda>r. (fr a r, fr b r))) (\<lambda>(q, z).
     bnd (if f_falsy single z \<and> \<not> f_falsy single q then raise_flag 8
          else if f_falsy single z \<and> f_falsy single q then raise_flag 16 else ret ()) (\<lambda>_.
     fbits d (j_arith j FDiv single [q, z]) single)))"

definition fsgnj :: "nat \<Rightarrow> nat \<Rightarrow> bool \<Rightarrow> nat \<Rightarrow> nat \<Rightarrow> (rv, unit) kop" where
  "fsgnj d f3 single a b =
     (if 2 < f3 then ill else
      bnd (asks (\<lambda>r. (fraw (fr a r) single, fraw (fr b r) single))) (\<lambda>(x, y).
      let sign = (if single then 0x80000000 else 0x8000000000000000);
          mag = x AND NOT sign; sa = x AND sign; sb = y AND sign in
      fbits d (mag OR (if f3 = 0 then sb else if f3 = 1 then sb XOR sign else sa XOR sb)) single))"

definition fminmax :: "js \<Rightarrow> nat \<Rightarrow> nat \<Rightarrow> bool \<Rightarrow> nat \<Rightarrow> nat \<Rightarrow> (rv, unit) kop" where
  "fminmax j d f3 single a b =
     (if 1 < f3 then ill else
      bnd (asks (\<lambda>r. (fr a r, fr b r))) (\<lambda>(q, z).
      if f_nan single q \<and> f_nan single z then fbits d (if single then 0x7fc00000 else 0x7ff8000000000000) single
      else if f_nan single q then fbits d (fraw z single) single
      else if f_nan single z then fbits d (fraw q single) single
      else fbits d (j_arith j (if f3 \<noteq> 0 then FMax else FMin) single [q, z]) single))"

definition fcompare :: "js \<Rightarrow> nat \<Rightarrow> nat \<Rightarrow> bool \<Rightarrow> nat \<Rightarrow> nat \<Rightarrow> (rv, unit) kop" where
  "fcompare j d f3 single a b =
     (if 2 < f3 then ill else
      bnd (asks (\<lambda>r. (fr a r, fr b r))) (\<lambda>(q, z).
      if f_nan single q \<or> f_nan single z then
        bnd (if f3 \<noteq> 2 then raise_flag 16 else ret ()) (\<lambda>_. setx d 0)
      else setx d (if (if f3 = 0 then j_le j single q z else if f3 = 1 then j_lt j single q z else j_eq j single q z) then 1 else 0)))"

definition fto_int :: "js \<Rightarrow> nat \<Rightarrow> nat \<Rightarrow> bool \<Rightarrow> nat \<Rightarrow> nat \<Rightarrow> (rv, unit) kop" where
  "fto_int j d f3 single a b =
     (if 3 < b then ill else
      let bits = (if b < 2 then 32 else 64); uns = odd b in
      bnd (asks (fr a)) (\<lambda>q.
      bnd (round_mode f3) (\<lambda>m.
      let (v, inv) = j_int j single q bits uns m in
      bnd (if inv then raise_flag 16 else ret ()) (\<lambda>_.
      setx d (if bits = 32 then sx v 32 else v)))))"

definition fof_int :: "js \<Rightarrow> nat \<Rightarrow> nat \<Rightarrow> bool \<Rightarrow> nat \<Rightarrow> nat \<Rightarrow> (rv, unit) kop" where
  "fof_int j d f3 single a b =
     (if 3 < b then ill else
      bnd (round_mode f3) (\<lambda>_.
      bnd (asks (xr a)) (\<lambda>x.
      fbits d (j_num j single (if b = 0 then sx x 32 else if b = 1 then take_bit 32 x else if b = 2 then x else ux x)) single)))"

definition fop :: "js \<Rightarrow> nat \<Rightarrow> nat \<Rightarrow> nat \<Rightarrow> nat \<Rightarrow> nat \<Rightarrow> (rv, unit) kop" where
  "fop j d f3 hi a b =
     (let single = even hi in
      if hi \<in> {0x00, 0x01} then fop2 j FAdd d f3 single a b
      else if hi \<in> {0x04, 0x05} then fop2 j FSub d f3 single a b
      else if hi \<in> {0x08, 0x09} then fop2 j FMul d f3 single a b
      else if hi \<in> {0x0c, 0x0d} then fdiv j d f3 single a b
      else if hi \<in> {0x10, 0x11} then fsgnj d f3 single a b
      else if hi \<in> {0x14, 0x15} then fminmax j d f3 single a b
      else if hi = 0x20 then (if b \<noteq> 1 then ill else fop1 j FNarrow d f3 True a)
      else if hi = 0x21 then (if b \<noteq> 0 then ill else fop1 j FWiden d f3 False a)
      else if hi \<in> {0x2c, 0x2d} then (if b \<noteq> 0 then ill else fop1 j FSqrt d f3 single a)
      else if hi \<in> {0x50, 0x51} then fcompare j d f3 single a b
      else if hi \<in> {0x60, 0x61} then fto_int j d f3 single a b
      else if hi \<in> {0x68, 0x69} then fof_int j d f3 single a b
      else if hi \<in> {0x70, 0x71} then
        (if b \<noteq> 0 then ill
         else if f3 = 0 then bnd (asks (fr a)) (\<lambda>q. setx d (if single then sx (uint (fraw q True)) 32 else uint (fraw q False)))
         else if f3 = 1 then bnd (asks (fr a)) (\<lambda>q. setx d (fclass q single))
         else ill)
      else if hi \<in> {0x78, 0x79} then
        (if b \<noteq> 0 \<or> f3 \<noteq> 0 then ill
         else bnd (asks (xr a)) (\<lambda>x. fbits d (of_int (if single then take_bit 32 x else ux x)) single))
      else ill)"


section \<open>Compressed instructions\<close>

text \<open>The offsets and immediates: bits of the instruction, moved.\<close>

definition c_imm6 :: "u32 \<Rightarrow> u32" where "c_imm6 i = (drop_bit 7 i AND 0x20) OR (drop_bit 2 i AND 0x1f)"
definition c_addi4spn :: "u32 \<Rightarrow> u32" where
  "c_addi4spn i = (drop_bit 1 i AND 0x3c0) OR (drop_bit 7 i AND 0x30) OR (drop_bit 2 i AND 8) OR (drop_bit 4 i AND 4)"
definition c_d :: "u32 \<Rightarrow> u32" where "c_d i = (push_bit 1 i AND 0xc0) OR (drop_bit 7 i AND 0x38)"
definition c_w :: "u32 \<Rightarrow> u32" where "c_w i = (push_bit 1 i AND 0x40) OR (drop_bit 7 i AND 0x38) OR (drop_bit 4 i AND 4)"
definition c_16sp :: "u32 \<Rightarrow> u32" where
  "c_16sp i = (drop_bit 3 i AND 0x200) OR (drop_bit 2 i AND 0x10) OR (push_bit 1 i AND 0x40) OR (push_bit 4 i AND 0x180) OR
     (push_bit 3 i AND 0x20)"
definition c_lui :: "u32 \<Rightarrow> u32" where "c_lui i = (push_bit 5 i AND 0x20000) OR (push_bit 10 i AND 0x1f000)"
definition c_b :: "u32 \<Rightarrow> u32" where
  "c_b i = (drop_bit 4 i AND 0x100) OR (push_bit 1 i AND 0xc0) OR (push_bit 3 i AND 0x20) OR (drop_bit 7 i AND 0x18) OR
     (drop_bit 2 i AND 6)"
definition c_ldsp :: "u32 \<Rightarrow> u32" where
  "c_ldsp i = (push_bit 4 i AND 0x1c0) OR (drop_bit 7 i AND 0x20) OR (drop_bit 2 i AND 0x18)"
definition c_lwsp :: "u32 \<Rightarrow> u32" where
  "c_lwsp i = (push_bit 4 i AND 0xc0) OR (drop_bit 7 i AND 0x20) OR (drop_bit 2 i AND 0x1c)"
definition c_sdsp :: "u32 \<Rightarrow> u32" where "c_sdsp i = (drop_bit 1 i AND 0x1c0) OR (drop_bit 7 i AND 0x38)"
definition c_swsp :: "u32 \<Rightarrow> u32" where "c_swsp i = (drop_bit 1 i AND 0xc0) OR (drop_bit 7 i AND 0x3c)"
definition c_j :: "u32 \<Rightarrow> u32" where
  "c_j i = (drop_bit 1 i AND 0x800) OR (push_bit 2 i AND 0x400) OR (drop_bit 1 i AND 0x300) OR (push_bit 1 i AND 0x80) OR
     (drop_bit 1 i AND 0x40) OR (push_bit 3 i AND 0x20) OR (drop_bit 7 i AND 0x10) OR (drop_bit 2 i AND 0xe)"

definition cj :: "u32 \<Rightarrow> int" where "cj i = sx (uint (c_j i)) 12"

definition cstep0 :: "u32 \<Rightarrow> (rv, unit) kop" where
  "cstep0 i =
     (let f = field 13 3 i; rp = 8 + field 7 3 i; sp = 8 + field 2 3 i in
      if f = 0 then
        (let n = c_addi4spn i in
         if n = 0 then ill else bnd (asks (xr 2)) (\<lambda>x. setx sp (x + uint n)))
      else if f = 1 then bnd (asks (xr rp)) (\<lambda>x. fload_at sp 3 (x + uint (c_d i)))
      else if f = 2 then bnd (asks (xr rp)) (\<lambda>x. load_at sp 2 (x + uint (c_w i)))
      else if f = 3 then bnd (asks (xr rp)) (\<lambda>x. load_at sp 3 (x + uint (c_d i)))
      else if f = 5 then bnd (asks (xr rp)) (\<lambda>x. fstore_at sp 3 (x + uint (c_d i)))
      else if f = 6 then bnd (asks (\<lambda>r. (xr rp r, xr sp r))) (\<lambda>(x, y). store_at 2 (x + uint (c_w i)) y)
      else if f = 7 then bnd (asks (\<lambda>r. (xr rp r, xr sp r))) (\<lambda>(x, y). store_at 3 (x + uint (c_d i)) y)
      else ill)"

definition c_arith :: "u32 \<Rightarrow> (rv, unit) kop" where
  "c_arith i =
     (let rp = 8 + field 7 3 i; sp = 8 + field 2 3 i; ci = sx (uint (c_imm6 i)) 6; f2 = field 10 2 i; sh = unat (c_imm6 i);
          hi = field 12 1 i; lo = field 5 2 i in
      bnd (asks (\<lambda>r. (xr rp r, xr sp r))) (\<lambda>(x, y).
      if f2 = 0 then setx rp (drop_bit sh (ux x))
      else if f2 = 1 then setx rp (drop_bit sh x)
      else if f2 = 2 then setx rp (x AND ci)
      else if hi = 0 \<and> lo = 0 then setx rp (x - y)
      else if hi = 0 \<and> lo = 1 then setx rp (x XOR y)
      else if hi = 0 \<and> lo = 2 then setx rp (x OR y)
      else if hi = 0 \<and> lo = 3 then setx rp (x AND y)
      else if hi \<noteq> 0 \<and> lo = 0 then setx rp (sx (x - y) 32)
      else if hi \<noteq> 0 \<and> lo = 1 then setx rp (sx (x + y) 32)
      else ill))"

definition cstep1 :: "u32 \<Rightarrow> int \<Rightarrow> (rv, unit) kop" where
  "cstep1 i at =
     (let f = field 13 3 i; rd = field 7 5 i; rp = 8 + field 7 3 i; ci = sx (uint (c_imm6 i)) 6 in
      if f = 0 then bnd (asks (xr rd)) (\<lambda>x. setx rd (x + ci))
      else if f = 1 then (if rd = 0 then ill else bnd (asks (xr rd)) (\<lambda>x. setx rd (sx (x + ci) 32)))
      else if f = 2 then setx rd ci
      else if f = 3 then
        (if rd = 2 then
           (let z = sx (uint (c_16sp i)) 10 in
            if z = 0 then ill else bnd (asks (xr 2)) (\<lambda>x. setx 2 (x + z)))
         else
           (let z = sx (uint (c_lui i)) 18 in
            if rd = 0 \<or> z = 0 then ill else setx rd z))
      else if f = 4 then c_arith i
      else if f = 5 then setpc (ux (at + cj i))
      else if f = 6 \<or> f = 7 then
        bnd (asks (xr rp)) (\<lambda>x.
        if (if f = 6 then x = 0 else x \<noteq> 0) then setpc (ux (at + sx (uint (c_b i)) 9)) else ret ())
      else ill)"

definition cstep2 :: "u32 \<Rightarrow> int \<Rightarrow> (rv, unit) kop" where
  "cstep2 i at =
     (let f = field 13 3 i; rd = field 7 5 i; rs = field 2 5 i; hi = field 12 1 i in
      if f = 0 then (if rd = 0 then ill else bnd (asks (xr rd)) (\<lambda>x. setx rd (push_bit (unat (c_imm6 i)) (ux x))))
      else if f = 1 then (if rd = 0 then ill else bnd (asks (xr 2)) (\<lambda>x. fload_at rd 3 (x + uint (c_ldsp i))))
      else if f = 2 then (if rd = 0 then ill else bnd (asks (xr 2)) (\<lambda>x. load_at rd 2 (x + uint (c_lwsp i))))
      else if f = 3 then (if rd = 0 then ill else bnd (asks (xr 2)) (\<lambda>x. load_at rd 3 (x + uint (c_ldsp i))))
      else if f = 4 then
        (if hi = 0 \<and> rs = 0 then (if rd = 0 then ill else bnd (asks (xr rd)) (\<lambda>x. setpc (ux x)))
         else if hi = 0 then (if rd = 0 then ill else bnd (asks (xr rs)) (setx rd))
         else if rs = 0 \<and> rd = 0 then bad EINTR
         else if rs = 0 then bnd (asks (xr rd)) (\<lambda>x. bnd (setx 1 (at + 2)) (\<lambda>_. setpc (ux x)))
         else (if rd = 0 then ill else bnd (asks (\<lambda>r. (xr rd r, xr rs r))) (\<lambda>(x, y). setx rd (x + y))))
      else if f = 5 then bnd (asks (xr 2)) (\<lambda>x. fstore_at rs 3 (x + uint (c_sdsp i)))
      else if f = 6 then bnd (asks (\<lambda>r. (xr 2 r, xr rs r))) (\<lambda>(x, y). store_at 2 (x + uint (c_swsp i)) y)
      else if f = 7 then bnd (asks (\<lambda>r. (xr 2 r, xr rs r))) (\<lambda>(x, y). store_at 3 (x + uint (c_sdsp i)) y)
      else ill)"

definition cstep :: "u32 \<Rightarrow> int \<Rightarrow> (rv, unit) kop" where
  "cstep i at =
     (let q = field 0 2 i in
      if q = 0 then cstep0 i else if q = 1 then cstep1 i at else if q = 2 then cstep2 i at else ill)"

section \<open>A step\<close>

text \<open>An instruction of 32 bits at \<open>at\<close>; the program counter is already behind it. The result says whether it is a
  call of the system.\<close>

definition exec32 :: "js \<Rightarrow> int \<Rightarrow> u32 \<Rightarrow> int \<Rightarrow> (rv, bool) kop" where
  "exec32 j now i at =
     (let op = field 0 7 i; d = field 7 5 i; f3 = field 12 3 i; a = field 15 5 i; b = field 20 5 i; f7 = field 25 7 i;
          go = (\<lambda>m. bnd m (\<lambda>_. ret False)) in
      bnd (asks (\<lambda>r. (xr a r, xr b r))) (\<lambda>(xv, yv).
      if op = 0x03 then go (load_at d f3 (xv + immI i))
      else if op = 0x07 then go (fload_at d f3 (xv + immI i))
      else if op = 0x0f then ret False
      else if op = 0x13 then go (opI d f3 i xv)
      else if op = 0x17 then go (setx d (at + immU i))
      else if op = 0x1b then go (opIW d f3 i xv)
      else if op = 0x23 then go (store_at f3 (xv + immS i) yv)
      else if op = 0x27 then go (fstore_at b f3 (xv + immS i))
      else if op = 0x2f then go (atomic d f3 i xv yv)
      else if op = 0x33 then go (opR d f3 f7 xv yv)
      else if op = 0x37 then go (setx d (immU i))
      else if op = 0x3b then go (opRW d f3 f7 xv yv)
      else if op \<in> {0x43, 0x47, 0x4b, 0x4f} then go (fma j op d i a b)
      else if op = 0x53 then go (fop j d f3 f7 a b)
      else if op = 0x63 then
        go (bnd (branch f3 xv yv) (\<lambda>t. if t then setpc (ux (at + immB i)) else ret ()))
      else if op = 0x67 then
        (if f3 \<noteq> 0 then ill
         else go (let q = ux (xv + immI i) AND NOT 1 in bnd (setx d (at + 4)) (\<lambda>_. setpc q)))
      else if op = 0x6f then go (bnd (setx d (at + 4)) (\<lambda>_. setpc (ux (at + immJ i))))
      else if op = 0x73 then
        (if i = 0x00000073 then ret True
         else if i = 0x00100073 then bad EINTR
         else go (csr now d f3 i xv a))
      else ill))"

definition rv_step :: "js \<Rightarrow> int \<Rightarrow> (rv, bool) kop" where
  "rv_step j now =
     bnd (asks r_pc) (\<lambda>at.
     bnd (exec_ok at 2) (\<lambda>_.
     bnd (on_mem (mem_u16 at)) (\<lambda>h.
     if h AND 3 \<noteq> 3 then bnd (setpc (ux (at + 2))) (\<lambda>_. bnd (cstep (ucast h) at) (\<lambda>_. ret False))
     else
       bnd (exec_ok at 4) (\<lambda>_.
       bnd (on_mem (mem_u32 at)) (\<lambda>i.
       bnd (setpc (ux (at + 4))) (\<lambda>_.
       exec32 j now i at))))))"

text \<open>The loop of \<open>run\<close> with a limit on the instructions: \<open>call\<close> answers the calls of the system and tells whether the
  program has ended. \<open>now\<close> gives the time of each instruction.\<close>

fun rv_run :: "js \<Rightarrow> (nat \<Rightarrow> int) \<Rightarrow> (rv, bool) kop \<Rightarrow> nat \<Rightarrow> (rv, unit) kop" where
  "rv_run j now call 0 = bad ELOOP"
| "rv_run j now call (Suc n) =
     bnd (rv_step j (now n)) (\<lambda>s.
     bnd (if s then call else ret False) (\<lambda>stop.
     if stop then ret () else rv_run j now call n))"


section \<open>An example\<close>

text \<open>Two segments, a heap of a page, a stack; empty memory.\<close>

definition blank_rv :: rv where
  "blank_rv = \<lparr>r_x = replicate 32 0, r_f = replicate 32 0, r_m = mem0, r_pc = 65536, r_floor = 196608, r_brk = 200704,
     r_stackAt = 786432, r_res = - 1, r_fcsr = 0, r_mapAt = 274877906944, r_maps = [],
     r_seg = [\<lparr>s_name = ''text'', s_at = 65536, s_end = 131072, s_flg = ''rx''\<rparr>, \<lparr>s_name = ''data'', s_at = 131072, s_end = 196608, s_flg = ''rw''\<rparr>],
     r_eat = 0, r_eend = 0\<rparr>"

end
