(* ===== verification/RvAlu.thy ===== *)
theory RvAlu
  imports Rv64
begin

text \<open>
  What the integer instructions compute, as the manual of the instruction set states it on words of 64, 32 and
  128 bits, and the proof that the interpreter, which computes with unbounded integers, agrees.
\<close>

section \<open>Integers and words\<close>

named_theorems rv_word \<comment> \<open>what becomes of an integer result in a register\<close>

lemma bit_high: "bit (a :: 'a::len word) n \<Longrightarrow> n < LENGTH('a)"
  by (rule bit_imp_le_length)

lemma ux_sint [rv_word]: "ux (sint (a :: u64)) = uint a"
  unfolding ux_def by (rule bit_eqI) (auto simp: bit_take_bit_iff bit_sint_iff bit_uint_iff dest: bit_high)

lemma sint_of [rv_word]: "of_int (sint (a :: u64)) = a"
  by simp

lemma sx32 [rv_word]: "of_int (sx n 32) = (scast (of_int n :: u32) :: u64)"
  unfolding sx_def by (rule bit_word_eqI) (auto simp: bit_simps min_def)

lemma low32 [rv_word]: "(of_int (sint (a :: u64)) :: u32) = ucast a"
  by (rule bit_word_eqI) (auto simp: bit_simps min_def)

lemma scast_low [rv_word]: "(scast (a :: u64) :: u32) = ucast a"
  by (rule bit_word_eqI) (auto simp: bit_simps min_def)

lemma sx_sint32 [rv_word]: "sx (sint (a :: u64)) 32 = sint (ucast a :: u32)"
  unfolding sx_def by (rule bit_eqI) (auto simp: bit_simps min_def)

lemma take_sint32 [rv_word]: "take_bit 32 (sint (a :: u64)) = uint (ucast a :: u32)"
  by (rule bit_eqI) (auto simp: bit_simps)

lemma bitwise [rv_word]:
  "of_int (sint a XOR sint b) = (a XOR b :: u64)" "of_int (sint a OR sint b) = (a OR b :: u64)"
  "of_int (sint a AND sint b) = (a AND b :: u64)"
  by (rule bit_word_eqI; simp add: bit_word_of_int_iff bit_xor_iff bit_or_iff bit_and_iff bit_sint_iff)+

lemma shifts [rv_word]:
  "of_int (push_bit n (uint a)) = (push_bit n a :: u64)" "of_int (drop_bit n (uint a)) = (drop_bit n a :: u64)"
  "of_int (drop_bit n (sint a)) = (signed_drop_bit n a :: u64)"
  by (rule bit_word_eqI; auto simp: bit_word_of_int_iff bit_push_bit_iff bit_drop_bit_eq bit_uint_iff bit_signed_drop_bit_iff bit_sint_iff dest: bit_high)+

lemma shifts32 [rv_word]:
  "of_int (push_bit n (sint x)) = (push_bit n x :: u32)" "of_int (drop_bit n (uint x)) = (drop_bit n x :: u32)"
  "of_int (drop_bit n (sint x)) = (signed_drop_bit n x :: u32)"
  by (rule bit_word_eqI; auto simp: bit_word_of_int_iff bit_push_bit_iff bit_drop_bit_eq bit_uint_iff bit_signed_drop_bit_iff bit_sint_iff dest: bit_high)+

lemma compares [rv_word]: "sint a < sint b \<longleftrightarrow> a <s (b :: u64)" "uint a < uint b \<longleftrightarrow> a < (b :: u64)"
  by (simp_all add: word_sless_alt word_less_def)

text \<open>The upper half of a product of 128 bits.\<close>

lemma high_product [rv_word]:
  "of_int (drop_bit 64 (sint a * sint b)) = (ucast (drop_bit 64 (scast a * scast b :: 128 word)) :: u64)"
  "of_int (drop_bit 64 (sint a * uint b)) = (ucast (drop_bit 64 (scast a * ucast b :: 128 word)) :: u64)"
  "of_int (drop_bit 64 (uint a * uint b)) = (ucast (drop_bit 64 (ucast a * ucast b :: 128 word)) :: u64)"
proof -
  have h: "of_int (drop_bit 64 n) = (ucast (drop_bit 64 (of_int n :: 128 word)) :: u64)" for n
    by (rule bit_word_eqI) (auto simp: bit_simps)
  have s: "(of_int (sint (x :: u64)) :: 128 word) = scast x" and u: "(of_int (uint (x :: u64)) :: 128 word) = ucast x" for x
    by simp_all
  show "of_int (drop_bit 64 (sint a * sint b)) = (ucast (drop_bit 64 (scast a * scast b :: 128 word)) :: u64)"
    "of_int (drop_bit 64 (sint a * uint b)) = (ucast (drop_bit 64 (scast a * ucast b :: 128 word)) :: u64)"
    "of_int (drop_bit 64 (uint a * uint b)) = (ucast (drop_bit 64 (ucast a * ucast b :: 128 word)) :: u64)"
    by (simp_all only: h of_int_mult s u scast_eq [symmetric] ucast_eq [symmetric])
qed

section \<open>Reference\<close>

text \<open>The immediates, as sign-extended words.\<close>

definition w12 :: "u32 \<Rightarrow> u64" where "w12 i = scast (ucast (drop_bit 20 i) :: 12 word)"

definition spec_I :: "nat \<Rightarrow> nat \<Rightarrow> nat \<Rightarrow> u64 \<Rightarrow> u64 \<Rightarrow> u64 option" where
  "spec_I f hi sh a im =
     (if f = 0 then Some (a + im)
      else if f = 1 \<and> hi = 0 then Some (push_bit sh a)
      else if f = 2 then Some (of_bool (a <s im))
      else if f = 3 then Some (of_bool (a < im))
      else if f = 4 then Some (a XOR im)
      else if f = 5 \<and> hi = 0 then Some (drop_bit sh a)
      else if f = 5 \<and> hi = 16 then Some (signed_drop_bit sh a)
      else if f = 6 then Some (a OR im)
      else if f = 7 then Some (a AND im)
      else None)"

definition spec_IW :: "nat \<Rightarrow> nat \<Rightarrow> nat \<Rightarrow> u32 \<Rightarrow> u32 \<Rightarrow> u32 option" where
  "spec_IW f hi sh a im =
     (if f = 0 then Some (a + im)
      else if f = 1 \<and> hi = 0 then Some (push_bit sh a)
      else if f = 5 \<and> hi = 0 then Some (drop_bit sh a)
      else if f = 5 \<and> hi = 32 then Some (signed_drop_bit sh a)
      else None)"

text \<open>Division by zero gives all ones and the dividend; the quotient that does not fit is the dividend.\<close>

definition div_s :: "'a::len word \<Rightarrow> 'a word \<Rightarrow> 'a word" where
  "div_s a b = (if b = 0 then - 1 else of_int (sint a sdiv sint b))"

definition div_u :: "'a::len word \<Rightarrow> 'a word \<Rightarrow> 'a word" where
  "div_u a b = (if b = 0 then - 1 else a div b)"

definition rem_s :: "'a::len word \<Rightarrow> 'a word \<Rightarrow> 'a word" where
  "rem_s a b = (if b = 0 then a else of_int (sint a smod sint b))"

definition rem_u :: "'a::len word \<Rightarrow> 'a word \<Rightarrow> 'a word" where
  "rem_u a b = (if b = 0 then a else a mod b)"

definition spec_R :: "nat \<Rightarrow> nat \<Rightarrow> u64 \<Rightarrow> u64 \<Rightarrow> u64 option" where
  "spec_R f hi a b =
     (let sh = unat (b AND 63) in
      if hi = 0 then
        Some ([a + b, push_bit sh a, of_bool (a <s b), of_bool (a < b), a XOR b, drop_bit sh a, a OR b, a AND b] ! f)
      else if hi = 32 \<and> f = 0 then Some (a - b)
      else if hi = 32 \<and> f = 5 then Some (signed_drop_bit sh a)
      else if hi = 1 then
        Some ([a * b, ucast (drop_bit 64 (scast a * scast b :: 128 word)), ucast (drop_bit 64 (scast a * ucast b :: 128 word)),
          ucast (drop_bit 64 (ucast a * ucast b :: 128 word)), div_s a b, div_u a b, rem_s a b, rem_u a b] ! f)
      else None)"

definition spec_RW :: "nat \<Rightarrow> nat \<Rightarrow> u32 \<Rightarrow> u32 \<Rightarrow> u32 option" where
  "spec_RW f hi a b =
     (let sh = unat (b AND 31) in
      if hi = 0 \<and> f = 0 then Some (a + b)
      else if hi = 32 \<and> f = 0 then Some (a - b)
      else if hi = 0 \<and> f = 1 then Some (push_bit sh a)
      else if hi = 0 \<and> f = 5 then Some (drop_bit sh a)
      else if hi = 32 \<and> f = 5 then Some (signed_drop_bit sh a)
      else if hi = 1 \<and> f = 0 then Some (a * b)
      else if hi = 1 \<and> f = 4 then Some (div_s a b)
      else if hi = 1 \<and> f = 5 then Some (div_u a b)
      else if hi = 1 \<and> f = 6 then Some (rem_s a b)
      else if hi = 1 \<and> f = 7 then Some (rem_u a b)
      else None)"

text \<open>A result goes to its register, unless that is register 0; no result is an illegal instruction.\<close>

definition put_reg :: "nat \<Rightarrow> u64 \<Rightarrow> rv \<Rightarrow> rv" where
  "put_reg d v r = (if d = 0 then r else r\<lparr>r_x := (r_x r)[d := v]\<rparr>)"

definition retire :: "nat \<Rightarrow> u64 option \<Rightarrow> (rv, unit) kop" where
  "retire d v r = (case v of Some w \<Rightarrow> (Inr (), put_reg d w r) | None \<Rightarrow> (Inl ENOEXEC, r))"

section \<open>Agreement\<close>

lemma setx_run: "setx d n r = (Inr (), put_reg d (of_int n) r)"
  by (simp add: setx_def modify_def put_reg_def)

lemma ill_run: "ill r = (Inl ENOEXEC, r)"
  by (simp add: ill_def bad_def)

lemma bool_word [rv_word]: "(if b then 1 else 0 :: int) = of_bool b"
  by simp

lemma immI_word: "immI i = sint (w12 i)"
  unfolding immI_def w12_def sx_def by (rule bit_eqI) (auto simp: bit_simps min_def)

lemma opI_spec:
  assumes "f < 8"
  shows "opI d f i (sint a) r = retire d (spec_I f (field 26 6 i) (field 20 6 i) a (w12 i)) r"
proof -
  consider "f = 0" | "f = 1" | "f = 2" | "f = 3" | "f = 4" | "f = 5" | "f = 6" | "f = 7" using assms by linarith
  then show ?thesis
    by cases (simp_all add: opI_def Let_def retire_def spec_I_def setx_run ill_run immI_word rv_word)
qed

lemma opIW_spec: "opIW d f i (sint (a :: u64)) r =
    retire d (map_option scast (spec_IW f (field 25 7 i) (field 20 5 i) (ucast a) (ucast (w12 i)))) r"
  by (simp add: opIW_def Let_def retire_def spec_IW_def setx_run ill_run immI_word rv_word)

lemma trunc_pos: "0 \<le> m \<Longrightarrow> 0 \<le> n \<Longrightarrow> m sdiv n = m div n" "0 \<le> m \<Longrightarrow> 0 \<le> n \<Longrightarrow> m smod n = m mod (n :: int)"
  by (auto simp: signed_divide_int_def signed_modulo_int_def sgn_if)

lemma trunc_minus_one: "n sdiv - 1 = - n" "n smod - 1 = (0 :: int)" "n smod 1 = (0 :: int)"
  by (auto simp: signed_divide_int_def signed_modulo_int_def sgn_if)

lemma div_word [rv_word]:
  "of_int (rv_div (sint a) (sint b) False 64) = div_s a (b :: u64)"
  "of_int (rv_div (uint a) (uint b) True 64) = div_u a (b :: u64)"
  "of_int (rv_rem (sint a) (sint b) False) = rem_s a (b :: u64)"
  "of_int (rv_rem (uint a) (uint b) True) = rem_u a (b :: u64)"
proof -
  show "of_int (rv_div (sint a) (sint b) False 64) = div_s a b"
    by (simp add: rv_div_def div_s_def Let_def signed_eq_0_iff trunc_minus_one)
  show "of_int (rv_div (uint a) (uint b) True 64) = div_u a b"
    by (simp add: rv_div_def div_u_def Let_def unsigned_eq_0_iff trunc_pos word_div_def)
  show "of_int (rv_rem (sint a) (sint b) False) = rem_s a b"
    by (simp add: rv_rem_def rem_s_def MIN64_def signed_eq_0_iff trunc_minus_one)
  show "of_int (rv_rem (uint a) (uint b) True) = rem_u a b"
    by (simp add: rv_rem_def rem_u_def unsigned_eq_0_iff trunc_pos word_mod_def)
qed

lemma sint32_range: "- (2 ^ 31) \<le> sint (x :: u32)"
  using sint_greater_eq [of x] by simp

lemma div_word32 [rv_word]:
  "of_int (rv_div (sint x) (sint y) False 64) = div_s x (y :: u32)"
  "of_int (rv_div (uint x) (uint y) True 32) = div_u x (y :: u32)"
  "of_int (rv_rem (sint x) (sint y) False) = rem_s x (y :: u32)"
  "of_int (rv_rem (uint x) (uint y) True) = rem_u x (y :: u32)"
proof -
  have "sint x \<noteq> - 9223372036854775808" using sint32_range [of x] by simp
  then show "of_int (rv_div (sint x) (sint y) False 64) = div_s x y" "of_int (rv_rem (sint x) (sint y) False) = rem_s x y"
    by (simp_all add: rv_div_def div_s_def Let_def signed_eq_0_iff rv_rem_def rem_s_def MIN64_def signed_eq_0_iff)
  show "of_int (rv_div (uint x) (uint y) True 32) = div_u x y"
    by (simp add: rv_div_def div_u_def Let_def unsigned_eq_0_iff trunc_pos word_div_def)
  show "of_int (rv_rem (uint x) (uint y) True) = rem_u x y"
    by (simp add: rv_rem_def rem_u_def unsigned_eq_0_iff trunc_pos word_mod_def)
qed

lemma shift_amount [rv_word]: "nat (uint b AND 63) = unat (b AND 63 :: u64)" "nat (uint b AND 31) = unat (b AND 31 :: u64)"
  by (simp_all add: unat_eq_nat_uint uint_and)

lemma opR_spec:
  assumes "f < 8"
  shows "opR d f hi (sint (a :: u64)) (sint (b :: u64)) r = retire d (spec_R f hi a b) r"
proof -
  consider "f = 0" | "f = 1" | "f = 2" | "f = 3" | "f = 4" | "f = 5" | "f = 6" | "f = 7" using assms by linarith
  then show ?thesis
    by cases (simp_all add: opR_def Let_def retire_def spec_R_def setx_run ill_run rv_word)
qed

lemma shift_amount32 [rv_word]: "unat (b AND 31 :: u64) = unat (ucast b AND 31 :: u32)"
proof -
  have "ucast b AND 31 = (ucast (b AND 31) :: u32)" by (rule bit_word_eqI) (auto simp: bit_simps)
  moreover have "unat (b AND 31) < 2 ^ 32" using word_and_le1 [of b 31] by (simp add: word_le_nat_alt)
  ultimately show ?thesis by (simp add: unsigned_ucast_eq take_bit_nat_eq_self)
qed

lemma opRW_spec: "opRW d f hi (sint (a :: u64)) (sint (b :: u64)) r = retire d (map_option scast (spec_RW f hi (ucast a) (ucast b))) r"
  by (simp add: opRW_def Let_def retire_def spec_RW_def setx_run ill_run rv_word)

end
