(* ===== verification/RvComp.thy ===== *)
theory RvComp
  imports RvAlu
begin

text \<open>
  Compressed instructions against the manual: each stands for an instruction of 32 bits, which \<open>expand\<close> builds from
  the tables of the manual. The encodings, their decoding by the interpreter, and the proof that \<open>cstep\<close> does what
  the expanded instruction does, with the encodings where it does not named.
\<close>

section \<open>Encodings\<close>

definition enc_R :: "u32 \<Rightarrow> u32 \<Rightarrow> u32 \<Rightarrow> nat \<Rightarrow> nat \<Rightarrow> nat \<Rightarrow> u32" where
  "enc_R op f3 f7 rd rs1 rs2 =
     op OR push_bit 7 (of_nat rd) OR push_bit 12 f3 OR push_bit 15 (of_nat rs1) OR push_bit 20 (of_nat rs2) OR push_bit 25 f7"

definition enc_I :: "u32 \<Rightarrow> u32 \<Rightarrow> nat \<Rightarrow> nat \<Rightarrow> u32 \<Rightarrow> u32" where
  "enc_I op f3 rd rs1 im = op OR push_bit 7 (of_nat rd) OR push_bit 12 f3 OR push_bit 15 (of_nat rs1) OR push_bit 20 im"

definition enc_S :: "u32 \<Rightarrow> u32 \<Rightarrow> nat \<Rightarrow> nat \<Rightarrow> u32 \<Rightarrow> u32" where
  "enc_S op f3 rs1 rs2 im =
     op OR push_bit 7 (take_bit 5 im) OR push_bit 12 f3 OR push_bit 15 (of_nat rs1) OR push_bit 20 (of_nat rs2) OR
     push_bit 25 (drop_bit 5 im)"

definition enc_B :: "u32 \<Rightarrow> u32 \<Rightarrow> nat \<Rightarrow> nat \<Rightarrow> u32 \<Rightarrow> u32" where
  "enc_B op f3 rs1 rs2 im =
     op OR push_bit 7 (take_bit 1 (drop_bit 11 im)) OR push_bit 8 (take_bit 4 (drop_bit 1 im)) OR push_bit 12 f3 OR
     push_bit 15 (of_nat rs1) OR push_bit 20 (of_nat rs2) OR push_bit 25 (take_bit 6 (drop_bit 5 im)) OR push_bit 31 (drop_bit 12 im)"

definition enc_U :: "u32 \<Rightarrow> nat \<Rightarrow> u32 \<Rightarrow> u32" where
  "enc_U op rd im = op OR push_bit 7 (of_nat rd) OR push_bit 12 (drop_bit 12 im)"

definition enc_J :: "u32 \<Rightarrow> nat \<Rightarrow> u32 \<Rightarrow> u32" where
  "enc_J op rd im =
     op OR push_bit 7 (of_nat rd) OR push_bit 12 (take_bit 8 (drop_bit 12 im)) OR push_bit 20 (take_bit 1 (drop_bit 11 im)) OR
     push_bit 21 (take_bit 10 (drop_bit 1 im)) OR push_bit 31 (drop_bit 20 im)"

text \<open>Bits of an instruction moved to their places, as (from, to).\<close>

definition scatter :: "(nat \<times> nat) list \<Rightarrow> u32 \<Rightarrow> u32" where
  "scatter l i = foldr (\<lambda>(s, d) w. (if bit i s then push_bit d 1 else 0) OR w) l 0"

section \<open>Expansion\<close>

definition expand0 :: "u32 \<Rightarrow> u32 option" where
  "expand0 i =
     (let f = field 13 3 i; rp = 8 + field 7 3 i; sp = 8 + field 2 3 i;
          n4 = scatter [(5, 3), (6, 2), (7, 6), (8, 7), (9, 8), (10, 9), (11, 4), (12, 5)] i;
          nd = scatter [(5, 6), (6, 7), (10, 3), (11, 4), (12, 5)] i; nw = scatter [(5, 6), (6, 2), (10, 3), (11, 4), (12, 5)] i in
      if f = 0 then (if n4 = 0 then None else Some (enc_I 0x13 0 sp 2 n4))
      else if f = 1 then Some (enc_I 0x07 3 sp rp nd)
      else if f = 2 then Some (enc_I 0x03 2 sp rp nw)
      else if f = 3 then Some (enc_I 0x03 3 sp rp nd)
      else if f = 5 then Some (enc_S 0x27 3 rp sp nd)
      else if f = 6 then Some (enc_S 0x23 2 rp sp nw)
      else if f = 7 then Some (enc_S 0x23 3 rp sp nd)
      else None)"

definition imm6 :: "u32 \<Rightarrow> u32" where "imm6 i = scatter [(2, 0), (3, 1), (4, 2), (5, 3), (6, 4), (12, 5)] i"

definition expand_arith :: "u32 \<Rightarrow> u32 option" where
  "expand_arith i =
     (let rp = 8 + field 7 3 i; sp = 8 + field 2 3 i; f2 = field 10 2 i; hi = field 12 1 i; lo = field 5 2 i in
      if f2 = 0 then Some (enc_I 0x13 5 rp rp (imm6 i))
      else if f2 = 1 then Some (enc_I 0x13 5 rp rp (imm6 i OR 0x400))
      else if f2 = 2 then Some (enc_I 0x13 7 rp rp (signed_take_bit 5 (imm6 i)))
      else if hi = 0 then
        Some (enc_R 0x33 ([0, 4, 6, 7] ! lo) (if lo = 0 then 0x20 else 0) rp rp sp)
      else if lo = 0 then Some (enc_R 0x3b 0 0x20 rp rp sp)
      else if lo = 1 then Some (enc_R 0x3b 0 0 rp rp sp)
      else None)"

definition expand1 :: "u32 \<Rightarrow> u32 option" where
  "expand1 i =
     (let f = field 13 3 i; rd = field 7 5 i; rp = 8 + field 7 3 i; im = signed_take_bit 5 (imm6 i);
          n16 = scatter [(2, 5), (3, 7), (4, 8), (5, 6), (6, 4), (12, 9)] i;
          nl = scatter [(2, 12), (3, 13), (4, 14), (5, 15), (6, 16), (12, 17)] i;
          nb = scatter [(2, 5), (3, 1), (4, 2), (5, 6), (6, 7), (10, 3), (11, 4), (12, 8)] i;
          nj = scatter [(2, 5), (3, 1), (4, 2), (5, 3), (6, 7), (7, 6), (8, 10), (9, 8), (10, 9), (11, 4), (12, 11)] i in
      if f = 0 then Some (enc_I 0x13 0 rd rd im)
      else if f = 1 then (if rd = 0 then None else Some (enc_I 0x1b 0 rd rd im))
      else if f = 2 then Some (enc_I 0x13 0 rd 0 im)
      else if f = 3 then
        (if rd = 2 then (if n16 = 0 then None else Some (enc_I 0x13 0 2 2 (signed_take_bit 9 n16)))
         else if nl = 0 then None else Some (enc_U 0x37 rd (signed_take_bit 17 nl)))
      else if f = 4 then expand_arith i
      else if f = 5 then Some (enc_J 0x6f 0 (signed_take_bit 11 nj))
      else if f = 6 then Some (enc_B 0x63 0 rp 0 (signed_take_bit 8 nb))
      else Some (enc_B 0x63 1 rp 0 (signed_take_bit 8 nb)))"

definition expand2 :: "u32 \<Rightarrow> u32 option" where
  "expand2 i =
     (let f = field 13 3 i; rd = field 7 5 i; rs = field 2 5 i; hi = field 12 1 i;
          nld = scatter [(2, 6), (3, 7), (4, 8), (5, 3), (6, 4), (12, 5)] i;
          nlw = scatter [(2, 6), (3, 7), (4, 2), (5, 3), (6, 4), (12, 5)] i;
          nsd = scatter [(7, 6), (8, 7), (9, 8), (10, 3), (11, 4), (12, 5)] i;
          nsw = scatter [(7, 6), (8, 7), (9, 2), (10, 3), (11, 4), (12, 5)] i in
      if f = 0 then Some (enc_I 0x13 1 rd rd (imm6 i))
      else if f = 1 then Some (enc_I 0x07 3 rd 2 nld)
      else if f = 2 then (if rd = 0 then None else Some (enc_I 0x03 2 rd 2 nlw))
      else if f = 3 then (if rd = 0 then None else Some (enc_I 0x03 3 rd 2 nld))
      else if f = 4 then
        (if hi = 0 \<and> rs = 0 then (if rd = 0 then None else Some (enc_I 0x67 0 0 rd 0))
         else if hi = 0 then Some (enc_R 0x33 0 0 rd 0 rs)
         else if rs = 0 \<and> rd = 0 then Some 0x00100073
         else if rs = 0 then Some (enc_I 0x67 0 1 rd 0)
         else Some (enc_R 0x33 0 0 rd rd rs))
      else if f = 5 then Some (enc_S 0x27 3 2 rs nsd)
      else if f = 6 then Some (enc_S 0x23 2 2 rs nsw)
      else Some (enc_S 0x23 3 2 rs nsd))"

definition expand :: "u32 \<Rightarrow> u32 option" where
  "expand i =
     (let q = field 0 2 i in if q = 0 then expand0 i else if q = 1 then expand1 i else if q = 2 then expand2 i else None)"

section \<open>Decoding\<close>

lemma bit_nat: "(n :: nat) < 2 ^ k \<Longrightarrow> bit n j \<Longrightarrow> j < k"
  by (metis bit_take_bit_iff take_bit_nat_eq_self)

lemma bit_nat_high: "(n :: nat) < 2 ^ k \<Longrightarrow> k \<le> j \<Longrightarrow> \<not> bit n j"
  using bit_nat [of n k j] by auto

lemma bit_const: "unat (w :: u32) < 2 ^ k \<Longrightarrow> bit w j \<Longrightarrow> j < k"
  using bit_nat [of "unat w" k j] by (auto simp: bit_unsigned_iff dest: bit_high)

lemma bit_const_high: "unat (w :: u32) < 2 ^ k \<Longrightarrow> k \<le> j \<Longrightarrow> \<not> bit w j"
  using bit_const [of w k j] by auto

text \<open>Words of 32 bits that agree in each bit.\<close>

lemma word32_eqI:
  fixes v w :: u32
  assumes "
     bit v 0 = bit w 0 \<and> bit v 1 = bit w 1 \<and> bit v 2 = bit w 2 \<and> bit v 3 = bit w 3 \<and> bit v 4 = bit w 4 \<and>
     bit v 5 = bit w 5 \<and> bit v 6 = bit w 6 \<and> bit v 7 = bit w 7 \<and> bit v 8 = bit w 8 \<and> bit v 9 = bit w 9 \<and>
     bit v 10 = bit w 10 \<and> bit v 11 = bit w 11 \<and> bit v 12 = bit w 12 \<and> bit v 13 = bit w 13 \<and> bit v 14 = bit w 14 \<and>
     bit v 15 = bit w 15 \<and> bit v 16 = bit w 16 \<and> bit v 17 = bit w 17 \<and> bit v 18 = bit w 18 \<and> bit v 19 = bit w 19 \<and>
     bit v 20 = bit w 20 \<and> bit v 21 = bit w 21 \<and> bit v 22 = bit w 22 \<and> bit v 23 = bit w 23 \<and> bit v 24 = bit w 24 \<and>
     bit v 25 = bit w 25 \<and> bit v 26 = bit w 26 \<and> bit v 27 = bit w 27 \<and> bit v 28 = bit w 28 \<and> bit v 29 = bit w 29 \<and>
     bit v 30 = bit w 30 \<and> bit v 31 = bit w 31"
  shows "v = w"
proof (rule bit_word_eqI)
  fix n assume "n < LENGTH(32)"
  then have "n < 32" by simp
  moreover have "[0..<32] = [0, 1, 2, 3, 4, 5, 6, 7, 8, 9, 10, 11, 12, 13, 14, 15, 16, 17, 18, 19, 20, 21, 22, 23, 24, 25, 26,
      27, 28, 29, 30, 31]" by code_simp
  ultimately have "n \<in> set [0, 1, 2, 3, 4, 5, 6, 7, 8, 9, 10, 11, 12, 13, 14, 15, 16, 17, 18, 19, 20, 21, 22, 23, 24, 25, 26, 27,
      28, 29, 30, 31]" by (metis atLeastLessThan_iff le0 set_upt)
  then show "bit v n = bit w n" using assms by auto
qed

lemma field_is: "drop_bit k w AND mask n = (of_nat v :: u32) \<Longrightarrow> v < 2 ^ 32 \<Longrightarrow> field k n w = v"
  by (simp add: field_def unat_of_nat)

lemma field_lt: "field k n i < 2 ^ n"
  unfolding field_def take_bit_eq_mask [symmetric] unsigned_take_bit_eq by simp

lemma field_word: "drop_bit k w AND mask n = v \<Longrightarrow> field k n w = unat v"
  by (simp add: field_def)

lemmas field_rules = field_word [OF bit_word_eqI] field_is [OF bit_word_eqI]

lemma enc_I_fields:
  assumes "unat op < 2 ^ 7" "unat f3 < 2 ^ 3" "rd < 2 ^ 5" "rs1 < 2 ^ 5"
  shows "field 0 7 (enc_I op f3 rd rs1 im) = unat op" "field 12 3 (enc_I op f3 rd rs1 im) = unat f3"
    "field 7 5 (enc_I op f3 rd rs1 im) = rd" "field 15 5 (enc_I op f3 rd rs1 im) = rs1"
    "drop_bit 20 (enc_I op f3 rd rs1 im) = take_bit 12 im"
proof -
  note b = bit_const [OF assms(1)] bit_const [OF assms(2)] bit_nat [OF assms(3)] bit_nat [OF assms(4)]
  show "field 0 7 (enc_I op f3 rd rs1 im) = unat op" "field 12 3 (enc_I op f3 rd rs1 im) = unat f3"
    by (rule field_word, rule bit_word_eqI, auto simp: enc_I_def bit_simps dest: b)+
  show "field 7 5 (enc_I op f3 rd rs1 im) = rd" "field 15 5 (enc_I op f3 rd rs1 im) = rs1"
    by (rule field_is, rule bit_word_eqI; use assms in \<open>auto simp: enc_I_def bit_simps dest: b\<close>)+
  show "drop_bit 20 (enc_I op f3 rd rs1 im) = take_bit 12 im"
    by (rule bit_word_eqI) (auto simp: enc_I_def bit_simps dest: b)
qed

lemma enc_R_fields:
  assumes "unat op < 2 ^ 7" "unat f3 < 2 ^ 3" "rd < 2 ^ 5" "rs1 < 2 ^ 5" "rs2 < 2 ^ 5" "unat f7 < 2 ^ 7"
  shows "field 0 7 (enc_R op f3 f7 rd rs1 rs2) = unat op" "field 12 3 (enc_R op f3 f7 rd rs1 rs2) = unat f3"
    "field 25 7 (enc_R op f3 f7 rd rs1 rs2) = unat f7" "field 7 5 (enc_R op f3 f7 rd rs1 rs2) = rd"
    "field 15 5 (enc_R op f3 f7 rd rs1 rs2) = rs1" "field 20 5 (enc_R op f3 f7 rd rs1 rs2) = rs2"
proof -
  note b = bit_const [OF assms(1)] bit_const [OF assms(2)] bit_nat [OF assms(3)] bit_nat [OF assms(4)] bit_nat [OF assms(5)]
    bit_const [OF assms(6)]
  show "field 0 7 (enc_R op f3 f7 rd rs1 rs2) = unat op" "field 12 3 (enc_R op f3 f7 rd rs1 rs2) = unat f3"
    "field 25 7 (enc_R op f3 f7 rd rs1 rs2) = unat f7"
    by (rule field_word, rule bit_word_eqI, auto simp: enc_R_def bit_simps dest: b)+
  show "field 7 5 (enc_R op f3 f7 rd rs1 rs2) = rd" "field 15 5 (enc_R op f3 f7 rd rs1 rs2) = rs1"
    "field 20 5 (enc_R op f3 f7 rd rs1 rs2) = rs2"
    by (rule field_is, rule bit_word_eqI; use assms in \<open>auto simp: enc_R_def bit_simps dest: b\<close>)+
qed

lemma enc_S_fields:
  assumes "unat op < 2 ^ 7" "unat f3 < 2 ^ 3" "rs1 < 2 ^ 5" "rs2 < 2 ^ 5"
  shows "field 0 7 (enc_S op f3 rs1 rs2 im) = unat op" "field 12 3 (enc_S op f3 rs1 rs2 im) = unat f3"
    "field 15 5 (enc_S op f3 rs1 rs2 im) = rs1" "field 20 5 (enc_S op f3 rs1 rs2 im) = rs2"
    "push_bit 5 (drop_bit 25 (enc_S op f3 rs1 rs2 im)) OR (drop_bit 7 (enc_S op f3 rs1 rs2 im) AND 31) = take_bit 12 im"
proof -
  note h = bit_const_high [OF assms(1)] bit_const_high [OF assms(2)] bit_nat_high [OF assms(3)] bit_nat_high [OF assms(4)]
  note b = bit_const [OF assms(1)] bit_const [OF assms(2)] bit_nat [OF assms(3)] bit_nat [OF assms(4)]
  show "field 0 7 (enc_S op f3 rs1 rs2 im) = unat op" "field 12 3 (enc_S op f3 rs1 rs2 im) = unat f3"
    by (rule field_word, rule bit_word_eqI, auto simp: enc_S_def bit_simps dest: b)+
  show "field 15 5 (enc_S op f3 rs1 rs2 im) = rs1" "field 20 5 (enc_S op f3 rs1 rs2 im) = rs2"
    by (rule field_is, rule bit_word_eqI; use assms in \<open>auto simp: enc_S_def bit_simps dest: b\<close>)+
  have m: "31 = (mask 5 :: u32)" by (simp add: mask_eq_exp_minus_1)
  show "push_bit 5 (drop_bit 25 (enc_S op f3 rs1 rs2 im)) OR (drop_bit 7 (enc_S op f3 rs1 rs2 im) AND 31) = take_bit 12 im"
    unfolding m by (rule word32_eqI) (simp add: enc_S_def bit_simps h del: push_bit_Suc drop_bit_Suc)
qed

lemma enc_B_fields:
  assumes "unat op < 2 ^ 7" "unat f3 < 2 ^ 3" "rs1 < 2 ^ 5" "rs2 < 2 ^ 5"
  shows "field 0 7 (enc_B op f3 rs1 rs2 im) = unat op" "field 12 3 (enc_B op f3 rs1 rs2 im) = unat f3"
    "field 15 5 (enc_B op f3 rs1 rs2 im) = rs1" "field 20 5 (enc_B op f3 rs1 rs2 im) = rs2"
    "immB (enc_B op f3 rs1 rs2 im) = sx (uint (take_bit 13 im AND NOT 1)) 13"
proof -
  note h = bit_const_high [OF assms(1)] bit_const_high [OF assms(2)] bit_nat_high [OF assms(3)] bit_nat_high [OF assms(4)]
  note b = bit_const [OF assms(1)] bit_const [OF assms(2)] bit_nat [OF assms(3)] bit_nat [OF assms(4)]
  show "field 0 7 (enc_B op f3 rs1 rs2 im) = unat op" "field 12 3 (enc_B op f3 rs1 rs2 im) = unat f3"
    by (rule field_word, rule bit_word_eqI, auto simp: enc_B_def bit_simps dest: b)+
  show "field 15 5 (enc_B op f3 rs1 rs2 im) = rs1" "field 20 5 (enc_B op f3 rs1 rs2 im) = rs2"
    by (rule field_is, rule bit_word_eqI; use assms in \<open>auto simp: enc_B_def bit_simps dest: b\<close>)+
  have m: "1 = (mask 1 :: u32)" "63 = (mask 6 :: u32)" "15 = (mask 4 :: u32)" by (simp_all add: mask_eq_exp_minus_1)
  have "push_bit 12 (drop_bit 31 i) OR push_bit 11 (drop_bit 7 i AND mask 1) OR push_bit 5 (drop_bit 25 i AND mask 6) OR
      push_bit 1 (drop_bit 8 i AND mask 4) = take_bit 13 im AND NOT (mask 1)" if "i = enc_B op f3 rs1 rs2 im" for i
    unfolding that by (rule word32_eqI) (simp add: enc_B_def bit_simps h del: push_bit_Suc drop_bit_Suc,
        simp add: numeral_2_eq_2 numeral_3_eq_3 bit_iff_odd_drop_bit del: push_bit_Suc drop_bit_Suc)
  then show "immB (enc_B op f3 rs1 rs2 im) = sx (uint (take_bit 13 im AND NOT 1)) 13"
    unfolding immB_def m by simp
qed

lemma enc_U_fields:
  assumes "unat op < 2 ^ 7" "rd < 2 ^ 5"
  shows "field 0 7 (enc_U op rd im) = unat op" "field 7 5 (enc_U op rd im) = rd"
    "immU (enc_U op rd im) = sx (uint (im AND NOT (mask 12))) 32"
proof -
  note b = bit_const [OF assms(1)] bit_nat [OF assms(2)]
  show "field 0 7 (enc_U op rd im) = unat op"
    by (rule field_word, rule bit_word_eqI, auto simp: enc_U_def bit_simps dest: b)+
  show "field 7 5 (enc_U op rd im) = rd"
    by (rule field_is, rule bit_word_eqI; use assms in \<open>auto simp: enc_U_def bit_simps dest: b\<close>)+
  have m: "0xfffff000 = (push_bit 12 (mask 20) :: u32)" by (simp add: mask_eq_exp_minus_1 push_bit_eq_mult)
  have "enc_U op rd im AND push_bit 12 (mask 20) = im AND NOT (mask 12)"
    by (rule bit_word_eqI) (auto simp: enc_U_def bit_simps dest: b)
  then show "immU (enc_U op rd im) = sx (uint (im AND NOT (mask 12))) 32" unfolding immU_def m by simp
qed

lemma enc_J_fields:
  assumes "unat op < 2 ^ 7" "rd < 2 ^ 5"
  shows "field 0 7 (enc_J op rd im) = unat op" "field 7 5 (enc_J op rd im) = rd"
    "immJ (enc_J op rd im) = sx (uint (take_bit 21 im AND NOT 1)) 21"
proof -
  note h = bit_const_high [OF assms(1)] bit_nat_high [OF assms(2)]
  note b = bit_const [OF assms(1)] bit_nat [OF assms(2)]
  show "field 0 7 (enc_J op rd im) = unat op"
    by (rule field_word, rule bit_word_eqI, auto simp: enc_J_def bit_simps dest: b)+
  show "field 7 5 (enc_J op rd im) = rd"
    by (rule field_is, rule bit_word_eqI; use assms in \<open>auto simp: enc_J_def bit_simps dest: b\<close>)+
  have m: "1 = (mask 1 :: u32)" "255 = (mask 8 :: u32)" "1023 = (mask 10 :: u32)" by (simp_all add: mask_eq_exp_minus_1)
  have "push_bit 20 (drop_bit 31 i) OR push_bit 12 (drop_bit 12 i AND mask 8) OR push_bit 11 (drop_bit 20 i AND mask 1) OR
      push_bit 1 (drop_bit 21 i AND mask 10) = take_bit 21 im AND NOT (mask 1)" if "i = enc_J op rd im" for i
    unfolding that by (rule word32_eqI) (simp add: enc_J_def bit_simps h del: push_bit_Suc drop_bit_Suc,
        simp add: numeral_2_eq_2 numeral_3_eq_3 bit_iff_odd_drop_bit del: push_bit_Suc drop_bit_Suc)
  then show "immJ (enc_J op rd im) = sx (uint (take_bit 21 im AND NOT 1)) 21"
    unfolding immJ_def m by simp
qed


section \<open>The offsets\<close>

lemma bit_scatter: "bit (scatter l i) n \<longleftrightarrow> n < 32 \<and> list_ex (\<lambda>(s, d). d = n \<and> bit i s) l"
proof (induction l)
  case (Cons x l)
  obtain s d where x: "x = (s, d)" by (cases x)
  have "scatter (x # l) i = (if bit i s then push_bit d 1 else 0) OR scatter l i" by (simp add: scatter_def x)
  then show ?case using Cons.IH by (cases "bit i s") (auto simp: x bit_or_iff bit_exp_iff push_bit_eq_mult)
qed (simp add: scatter_def)

lemma bit_scatter_simps [simp]:
  "bit (scatter [] i) n \<longleftrightarrow> False"
  "bit (scatter ((s, d) # l) i) n \<longleftrightarrow> n < 32 \<and> d = n \<and> bit i s \<or> bit (scatter l i) n"
  by (auto simp: bit_scatter)

lemma c_addi4spn_bits: "c_addi4spn i = scatter [(5, 3), (6, 2), (7, 6), (8, 7), (9, 8), (10, 9), (11, 4), (12, 5)] i"
  unfolding c_addi4spn_def
  by (rule word32_eqI) (simp only: bit_and_iff bit_or_iff bit_push_bit_iff bit_drop_bit_eq comp_apply bit_scatter_simps, simp)

lemma c_d_bits: "c_d i = scatter [(5, 6), (6, 7), (10, 3), (11, 4), (12, 5)] i"
  unfolding c_d_def
  by (rule word32_eqI) (simp only: bit_and_iff bit_or_iff bit_push_bit_iff bit_drop_bit_eq comp_apply bit_scatter_simps, simp)

lemma c_w_bits: "c_w i = scatter [(5, 6), (6, 2), (10, 3), (11, 4), (12, 5)] i"
  unfolding c_w_def
  by (rule word32_eqI) (simp only: bit_and_iff bit_or_iff bit_push_bit_iff bit_drop_bit_eq comp_apply bit_scatter_simps, simp)

lemma c_imm6_bits: "c_imm6 i = imm6 i"
  unfolding c_imm6_def imm6_def
  by (rule word32_eqI) (simp only: bit_and_iff bit_or_iff bit_push_bit_iff bit_drop_bit_eq comp_apply bit_scatter_simps, simp)

lemma c_16sp_bits: "c_16sp i = scatter [(2, 5), (3, 7), (4, 8), (5, 6), (6, 4), (12, 9)] i"
  unfolding c_16sp_def
  by (rule word32_eqI) (simp only: bit_and_iff bit_or_iff bit_push_bit_iff bit_drop_bit_eq comp_apply bit_scatter_simps, simp)

lemma c_lui_bits: "c_lui i = scatter [(2, 12), (3, 13), (4, 14), (5, 15), (6, 16), (12, 17)] i"
  unfolding c_lui_def
  by (rule word32_eqI) (simp only: bit_and_iff bit_or_iff bit_push_bit_iff bit_drop_bit_eq comp_apply bit_scatter_simps, simp)

lemma c_b_bits: "c_b i = scatter [(2, 5), (3, 1), (4, 2), (5, 6), (6, 7), (10, 3), (11, 4), (12, 8)] i"
  unfolding c_b_def
  by (rule word32_eqI) (simp only: bit_and_iff bit_or_iff bit_push_bit_iff bit_drop_bit_eq comp_apply bit_scatter_simps, simp)

lemma c_j_bits: "c_j i = scatter [(2, 5), (3, 1), (4, 2), (5, 3), (6, 7), (7, 6), (8, 10), (9, 8), (10, 9), (11, 4), (12, 11)] i"
  unfolding c_j_def
  by (rule word32_eqI) (simp only: bit_and_iff bit_or_iff bit_push_bit_iff bit_drop_bit_eq comp_apply bit_scatter_simps, simp)

lemma c_ldsp_bits: "c_ldsp i = scatter [(2, 6), (3, 7), (4, 8), (5, 3), (6, 4), (12, 5)] i"
  unfolding c_ldsp_def
  by (rule word32_eqI) (simp only: bit_and_iff bit_or_iff bit_push_bit_iff bit_drop_bit_eq comp_apply bit_scatter_simps, simp)

lemma c_lwsp_bits: "c_lwsp i = scatter [(2, 6), (3, 7), (4, 2), (5, 3), (6, 4), (12, 5)] i"
  unfolding c_lwsp_def
  by (rule word32_eqI) (simp only: bit_and_iff bit_or_iff bit_push_bit_iff bit_drop_bit_eq comp_apply bit_scatter_simps, simp)

lemma c_sdsp_bits: "c_sdsp i = scatter [(7, 6), (8, 7), (9, 8), (10, 3), (11, 4), (12, 5)] i"
  unfolding c_sdsp_def
  by (rule word32_eqI) (simp only: bit_and_iff bit_or_iff bit_push_bit_iff bit_drop_bit_eq comp_apply bit_scatter_simps, simp)

lemma c_swsp_bits: "c_swsp i = scatter [(7, 6), (8, 7), (9, 2), (10, 3), (11, 4), (12, 5)] i"
  unfolding c_swsp_def
  by (rule word32_eqI) (simp only: bit_and_iff bit_or_iff bit_push_bit_iff bit_drop_bit_eq comp_apply bit_scatter_simps, simp)

lemmas offsets = c_addi4spn_bits c_d_bits c_w_bits c_imm6_bits c_16sp_bits c_lui_bits
  c_b_bits c_j_bits c_ldsp_bits c_lwsp_bits c_sdsp_bits c_swsp_bits

section \<open>Sign extensions\<close>

lemma bit_sx: "0 < z \<Longrightarrow> bit (sx x z) n = bit x (min n (z - 1))"
  by (auto simp: sx_def bit_signed_take_bit_iff min_def)

lemma sx_unsigned:
  assumes "0 < z" "z \<le> 32" "\<And>n. z - 1 \<le> n \<Longrightarrow> \<not> bit w n"
  shows "sx (uint (take_bit z (w :: u32))) z = uint w"
  by (rule bit_eqI) (use assms in \<open>auto simp: bit_sx bit_uint_iff bit_take_bit_iff min_def\<close>)

lemma sx_signed:
  assumes "0 < k" "k \<le> z" "z \<le> 32"
  shows "sx (uint (take_bit z (signed_take_bit (k - 1) w :: u32))) z = sx (uint w) k"
  by (rule bit_eqI) (use assms in \<open>auto simp: bit_sx bit_uint_iff bit_take_bit_iff bit_signed_take_bit_iff min_def\<close>)

lemma even_not1: "\<not> bit v 0 \<Longrightarrow> v AND NOT 1 = (v :: u32)"
proof (rule bit_word_eqI)
  fix n assume "\<not> bit v 0" "n < LENGTH(32)"
  then show "bit (v AND NOT 1) n = bit v n"
    by (cases "n = 0") (simp_all only: bit_and_iff bit_not_iff bit_1_iff, simp_all)
qed

lemma sx_signed_even:
  assumes "1 < k" "k \<le> z" "z \<le> 32" "\<not> bit w 0"
  shows "sx (uint (take_bit z (signed_take_bit (k - 1) w :: u32) AND NOT 1)) z = sx (uint w) k"
proof -
  have "\<not> bit (signed_take_bit (k - 1) w) 0" using assms(4) by (simp only: bit_signed_take_bit_iff min_0R) simp
  then have "\<not> bit (take_bit z (signed_take_bit (k - 1) w)) 0" by (simp only: bit_take_bit_iff) simp
  then have "take_bit z (signed_take_bit (k - 1) w) AND NOT 1 = take_bit z (signed_take_bit (k - 1) w)" by (rule even_not1)
  then show ?thesis using sx_signed [of k z w] assms by simp
qed

lemma sx_upper:
  assumes "\<And>n. n < 12 \<Longrightarrow> \<not> bit w n"
  shows "sx (uint (signed_take_bit 17 w AND NOT (mask 12) :: u32)) 32 = sx (uint w) 18"
  by (rule bit_eqI) (use assms in \<open>auto simp: bit_sx bit_uint_iff bit_and_iff bit_not_iff bit_mask_iff bit_signed_take_bit_iff min_def\<close>)

section \<open>What the expanded instructions do\<close>

lemma exec32_enc:
  assumes "rd < 32" "rs1 < 32" "rs2 < 32"
  shows
    "unat f3 < 8 \<Longrightarrow> exec32 j now (enc_I 0x03 f3 rd rs1 im) at r = bnd (load_at rd (unat f3) (xr rs1 r + sx (uint (take_bit 12 im)) 12)) (\<lambda>_. ret False) r"
    "unat f3 < 8 \<Longrightarrow> exec32 j now (enc_I 0x07 f3 rd rs1 im) at r = bnd (fload_at rd (unat f3) (xr rs1 r + sx (uint (take_bit 12 im)) 12)) (\<lambda>_. ret False) r"
    "unat f3 < 8 \<Longrightarrow> exec32 j now (enc_I 0x13 f3 rd rs1 im) at r = bnd (opI rd (unat f3) (enc_I 0x13 f3 rd rs1 im) (xr rs1 r)) (\<lambda>_. ret False) r"
    "unat f3 < 8 \<Longrightarrow> exec32 j now (enc_I 0x1b f3 rd rs1 im) at r = bnd (opIW rd (unat f3) (enc_I 0x1b f3 rd rs1 im) (xr rs1 r)) (\<lambda>_. ret False) r"
    "unat f3 < 8 \<Longrightarrow> exec32 j now (enc_S 0x23 f3 rs1 rs2 im) at r = bnd (store_at (unat f3) (xr rs1 r + sx (uint (take_bit 12 im)) 12) (xr rs2 r)) (\<lambda>_. ret False) r"
    "unat f3 < 8 \<Longrightarrow> exec32 j now (enc_S 0x27 f3 rs1 rs2 im) at r = bnd (fstore_at rs2 (unat f3) (xr rs1 r + sx (uint (take_bit 12 im)) 12)) (\<lambda>_. ret False) r"
    "unat f3 < 8 \<Longrightarrow> unat f7 < 128 \<Longrightarrow> exec32 j now (enc_R 0x33 f3 f7 rd rs1 rs2) at r = bnd (opR rd (unat f3) (unat f7) (xr rs1 r) (xr rs2 r)) (\<lambda>_. ret False) r"
    "unat f3 < 8 \<Longrightarrow> unat f7 < 128 \<Longrightarrow> exec32 j now (enc_R 0x3b f3 f7 rd rs1 rs2) at r = bnd (opRW rd (unat f3) (unat f7) (xr rs1 r) (xr rs2 r)) (\<lambda>_. ret False) r"
    "unat f3 < 8 \<Longrightarrow> exec32 j now (enc_B 0x63 f3 rs1 rs2 im) at r =
      bnd (bnd (branch (unat f3) (xr rs1 r) (xr rs2 r)) (\<lambda>t. if t then setpc (ux (at + sx (uint (take_bit 13 im AND NOT 1)) 13)) else ret ())) (\<lambda>_. ret False) r"
    "exec32 j now (enc_U 0x37 rd im) at r = bnd (setx rd (sx (uint (im AND NOT (mask 12))) 32)) (\<lambda>_. ret False) r"
    "exec32 j now (enc_J 0x6f rd im) at r = bnd (bnd (setx rd (at + 4)) (\<lambda>_. setpc (ux (at + sx (uint (take_bit 21 im AND NOT 1)) 21)))) (\<lambda>_. ret False) r"
    "exec32 j now (enc_I 0x67 0 rd rs1 im) at r =
      bnd (bnd (setx rd (at + 4)) (\<lambda>_. setpc (ux (xr rs1 r + sx (uint (take_bit 12 im)) 12) AND NOT 1))) (\<lambda>_. ret False) r"
  using assms by (simp_all add: exec32_def Let_def enc_I_fields enc_S_fields enc_R_fields enc_B_fields enc_U_fields enc_J_fields
      bnd_simple immI_def immS_def, subst enc_B_fields(5), simp_all)

lemmas exec_enc =
  exec32_enc(1-4) [where ?rs2.0 = 0] exec32_enc(12) [where ?rs2.0 = 0] exec32_enc(5,6,9) [where rd = 0] exec32_enc(7,8)
  exec32_enc(10,11) [where ?rs1.0 = 0 and ?rs2.0 = 0]

section \<open>Agreement\<close>

text \<open>Legal encodings that the interpreter refuses: \<open>c.fldsp\<close> into register 0, which is an ordinary register for
  floating point, and the hints \<open>c.lui\<close>, \<open>c.slli\<close>, \<open>c.mv\<close> and \<open>c.add\<close> with the zero register.\<close>

definition rejects :: "u32 \<Rightarrow> bool" where
  "rejects i \<longleftrightarrow> field 7 5 i = 0 \<and>
     (field 0 2 i = 1 \<and> field 13 3 i = 3 \<or> field 0 2 i = 2 \<and> (field 13 3 i < 2 \<or> field 13 3 i = 4 \<and> field 2 5 i \<noteq> 0))"

text \<open>The jumps to a register.\<close>

definition jump_reg :: "u32 \<Rightarrow> bool" where
  "jump_reg i \<longleftrightarrow> field 0 2 i = 2 \<and> field 13 3 i = 4 \<and> field 2 5 i = 0 \<and> field 7 5 i \<noteq> 0"

definition runs_as :: "(rv, unit) kop \<Rightarrow> u32 option \<Rightarrow> bool \<Rightarrow> js \<Rightarrow> int \<Rightarrow> int \<Rightarrow> rv \<Rightarrow> bool" where
  "runs_as m w rej j now at r \<longleftrightarrow>
     bnd m (\<lambda>_. ret False) r =
     (case w of None \<Rightarrow> (Inl ENOEXEC, r) | Some i \<Rightarrow> if rej then (Inl ENOEXEC, r) else exec32 j now i at r)"

lemma ill_bnd: "bnd ill f r = (Inl ENOEXEC, r)"
  by (simp add: ill_def bad_def bnd_def)

lemma low_regs: "8 + field 7 3 i < 32" "8 + field 2 3 i < 32" "field 7 5 i < 32" "field 2 5 i < 32"
  using field_lt [of 7 3 i] field_lt [of 2 3 i] field_lt [of 7 5 i] field_lt [of 2 5 i] by simp_all

lemma field3: "field k 3 i = 0 \<or> field k 3 i = 1 \<or> field k 3 i = 2 \<or> field k 3 i = 3 \<or> field k 3 i = 4 \<or> field k 3 i = 5 \<or>
    field k 3 i = 6 \<or> field k 3 i = 7"
  using field_lt [of k 3 i] by (simp, linarith)

lemma offset12:
  "sx (uint (take_bit 12 (c_addi4spn i))) 12 = uint (c_addi4spn i)" "sx (uint (take_bit 12 (c_d i))) 12 = uint (c_d i)"
  "sx (uint (take_bit 12 (c_w i))) 12 = uint (c_w i)" "sx (uint (take_bit 12 (c_ldsp i))) 12 = uint (c_ldsp i)"
  "sx (uint (take_bit 12 (c_lwsp i))) 12 = uint (c_lwsp i)" "sx (uint (take_bit 12 (c_sdsp i))) 12 = uint (c_sdsp i)"
  "sx (uint (take_bit 12 (c_swsp i))) 12 = uint (c_swsp i)"
  unfolding offsets by (rule sx_unsigned; auto)+

lemma opI_enc:
  assumes "unat f3 < 8" "rd < 32" "rs1 < 32"
  shows "immI (enc_I 0x13 f3 rd rs1 im) = sx (uint (take_bit 12 im)) 12" "immI (enc_I 0x1b f3 rd rs1 im) = sx (uint (take_bit 12 im)) 12"
    "field 20 6 (enc_I 0x13 f3 rd rs1 im) = unat (take_bit 6 im)" "field 26 6 (enc_I 0x13 f3 rd rs1 im) = unat (take_bit 6 (drop_bit 6 im))"
proof -
  note e = enc_I_fields(5) [of _ f3 rd rs1 im]
  show "immI (enc_I 0x13 f3 rd rs1 im) = sx (uint (take_bit 12 im)) 12" "immI (enc_I 0x1b f3 rd rs1 im) = sx (uint (take_bit 12 im)) 12"
    using assms e by (simp_all add: immI_def)
  have "drop_bit 20 (enc_I 0x13 f3 rd rs1 im) AND mask 6 = take_bit 6 im"
    using assms e [of "0x13"] by (simp add: take_bit_eq_mask [symmetric])
  then show "field 20 6 (enc_I 0x13 f3 rd rs1 im) = unat (take_bit 6 im)" by (rule field_word)
  have "drop_bit 26 (enc_I 0x13 f3 rd rs1 im) = drop_bit 6 (drop_bit 20 (enc_I 0x13 f3 rd rs1 im))" by (simp add: drop_bit_drop_bit)
  also have "\<dots> AND mask 6 = take_bit 6 (drop_bit 6 im)"
    using assms e [of "0x13"] by (simp add: take_bit_eq_mask [symmetric] drop_bit_take_bit)
  finally show "field 26 6 (enc_I 0x13 f3 rd rs1 im) = unat (take_bit 6 (drop_bit 6 im))" by (rule field_word)
qed

lemma quadrant0: "runs_as (cstep0 i) (expand0 i) False j now at r"
proof -
  note l = low_regs [of i]
  consider "field 13 3 i = 0" | "field 13 3 i = 1" | "field 13 3 i = 2" | "field 13 3 i = 3" | "field 13 3 i = 4" | "field 13 3 i = 5"
    | "field 13 3 i = 6" | "field 13 3 i = 7" using field3 [of 13 i] by linarith
  then show ?thesis
  proof cases
    case 1
    then show ?thesis using 1 l
      by (simp add: runs_as_def cstep0_def expand0_def Let_def offsets [symmetric] exec_enc ill_bnd bnd_simple bnd_assoc opI_def opI_enc offset12)
  qed (simp_all add: runs_as_def cstep0_def expand0_def Let_def offsets [symmetric] exec_enc ill_bnd bnd_simple bnd_assoc offset12 l)
qed


lemma imm6_lt: "\<not> bit (imm6 i) n" if "6 \<le> n" for n
  using that by (auto simp: imm6_def)

lemma imm6_parts:
  "take_bit 6 (imm6 i) = imm6 i" "take_bit 6 (drop_bit 6 (imm6 i)) = 0" "take_bit 6 (imm6 i OR 0x400) = imm6 i"
  "take_bit 6 (drop_bit 6 (imm6 i OR 0x400)) = 16" "sx (uint (take_bit 12 (signed_take_bit 5 (imm6 i)))) 12 = sx (uint (imm6 i)) 6"
proof -
  show "sx (uint (take_bit 12 (signed_take_bit 5 (imm6 i)))) 12 = sx (uint (imm6 i)) 6"
    using sx_signed [of 6 12 "imm6 i"] by simp
  show "take_bit 6 (imm6 i) = imm6 i" "take_bit 6 (drop_bit 6 (imm6 i)) = 0" "take_bit 6 (imm6 i OR 0x400) = imm6 i"
    "take_bit 6 (drop_bit 6 (imm6 i OR 0x400)) = 16"
    unfolding imm6_def
    by (rule word32_eqI, simp only: bit_take_bit_iff bit_drop_bit_eq comp_apply bit_or_iff bit_scatter_simps, simp)+
qed

lemma arith_runs: "runs_as (c_arith i) (expand_arith i) False j now at r"
proof -
  note l = low_regs [of i]
  have two: "field 10 2 i = 0 \<or> field 10 2 i = 1 \<or> field 10 2 i = 2 \<or> field 10 2 i = 3" "field 12 1 i = 0 \<or> field 12 1 i = 1"
    "field 5 2 i = 0 \<or> field 5 2 i = 1 \<or> field 5 2 i = 2 \<or> field 5 2 i = 3"
    using field_lt [of 10 2 i] field_lt [of 12 1 i] field_lt [of 5 2 i] by (simp_all, linarith+)
  note defs = runs_as_def c_arith_def expand_arith_def Let_def c_imm6_bits exec_enc ill_bnd bnd_simple bnd_assoc opI_def opI_enc
    imm6_parts opR_def opRW_def
  consider "field 10 2 i = 0" | "field 10 2 i = 1" | "field 10 2 i = 2" | "field 10 2 i = 3" using two(1) by linarith
  then show ?thesis
  proof cases
    case 4
    consider "field 5 2 i = 0" | "field 5 2 i = 1" | "field 5 2 i = 2" | "field 5 2 i = 3" using two(3) by linarith
    then show ?thesis
      by cases (use two(2) in \<open>auto simp: defs 4 l\<close>)
  qed (simp_all add: defs l)
qed


lemma sx_zero:
  assumes "0 < k" "\<And>n. k \<le> n \<Longrightarrow> \<not> bit w n"
  shows "sx (uint (w :: u32)) k = 0 \<longleftrightarrow> w = 0"
proof
  assume z: "sx (uint w) k = 0"
  show "w = 0"
  proof (rule bit_word_eqI)
    fix n assume "n < LENGTH(32)"
    show "bit w n = bit 0 n"
    proof (cases "n < k")
      case True
      have "bit (sx (uint w) k) n = bit w n" using True assms(1) by (auto simp: bit_sx bit_uint_iff min_def dest: bit_high)
      then show ?thesis by (simp add: z)
    next
      case False
      then show ?thesis using assms(2) [of n] by simp
    qed
  qed
qed (simp add: sx_def)

lemma extended:
  "sx (uint (c_16sp i)) 10 = 0 \<longleftrightarrow> c_16sp i = 0" "sx (uint (c_lui i)) 18 = 0 \<longleftrightarrow> c_lui i = 0"
  "sx (uint (take_bit 12 (signed_take_bit 9 (c_16sp i)))) 12 = sx (uint (c_16sp i)) 10"
  "sx (uint (signed_take_bit 17 (c_lui i) AND NOT (mask 12))) 32 = sx (uint (c_lui i)) 18"
  "sx (uint (take_bit 13 (signed_take_bit 8 (c_b i)) AND NOT 1)) 13 = sx (uint (c_b i)) 9"
  "sx (uint (take_bit 21 (signed_take_bit 11 (c_j i)) AND NOT 1)) 21 = sx (uint (c_j i)) 12"
proof -
  show "sx (uint (c_16sp i)) 10 = 0 \<longleftrightarrow> c_16sp i = 0" "sx (uint (c_lui i)) 18 = 0 \<longleftrightarrow> c_lui i = 0"
    unfolding offsets by (rule sx_zero; auto)+
  show "sx (uint (take_bit 12 (signed_take_bit 9 (c_16sp i)))) 12 = sx (uint (c_16sp i)) 10"
    using sx_signed [of 10 12 "c_16sp i"] by simp
  show "sx (uint (signed_take_bit 17 (c_lui i) AND NOT (mask 12))) 32 = sx (uint (c_lui i)) 18"
    by (rule sx_upper) (auto simp: offsets)
  have "\<not> bit (c_b i) 0" "\<not> bit (c_j i) 0" unfolding offsets by (simp_all only: bit_scatter_simps) simp_all
  then show "sx (uint (take_bit 13 (signed_take_bit 8 (c_b i)) AND NOT 1)) 13 = sx (uint (c_b i)) 9"
    "sx (uint (take_bit 21 (signed_take_bit 11 (c_j i)) AND NOT 1)) 21 = sx (uint (c_j i)) 12"
    using sx_signed_even [of 9 13 "c_b i"] sx_signed_even [of 12 21 "c_j i"] by simp_all
qed

lemma not_one: "(NOT 1 :: u32) = - 2"
  by simp

lemma setx_zero: "bnd (setx 0 n) f r = f () r"
  by (simp add: setx_def bnd_simple)

lemma quadrant1:
  assumes "xr 0 r = 0"
  shows "runs_as (cstep1 i at) (expand1 i) (field 7 5 i = 0 \<and> field 13 3 i = 3) j now at r"
proof -
  note l = low_regs [of i]
  note defs = runs_as_def cstep1_def expand1_def Let_def exec_enc [unfolded not_one] ill_bnd bnd_simple bnd_assoc opI_def opIW_def opI_enc imm6_parts l
    assms c_imm6_bits c_16sp_bits [symmetric] c_lui_bits [symmetric] c_b_bits [symmetric] c_j_bits [symmetric] cj_def extended [unfolded not_one]
    branch_def setx_zero
  consider "field 13 3 i = 0" | "field 13 3 i = 1" | "field 13 3 i = 2" | "field 13 3 i = 3" | "field 13 3 i = 4" | "field 13 3 i = 5"
    | "field 13 3 i = 6" | "field 13 3 i = 7" using field3 [of 13 i] by linarith
  then show ?thesis
  proof cases
    case 5
    then show ?thesis using arith_runs [of i j now at r] by (simp add: runs_as_def cstep1_def expand1_def Let_def)
  qed (simp_all add: defs del: One_nat_def)
qed

lemma quadrant2:
  assumes "xr 0 r = 0" "\<not> (field 13 3 i = 4 \<and> field 2 5 i = 0 \<and> field 7 5 i \<noteq> 0)"
  shows "runs_as (cstep2 i at) (expand2 i) (field 7 5 i = 0 \<and> (field 13 3 i < 2 \<or> field 13 3 i = 4 \<and> field 2 5 i \<noteq> 0)) j now at r"
proof -
  note l = low_regs [of i]
  have brk: "exec32 j now 0x00100073 at r = (Inl EINTR, r)"
  proof -
    have "field 0 7 0x00100073 = 0x73" by code_simp
    then show ?thesis by (simp add: exec32_def Let_def bnd_simple bad_def)
  qed
  note defs = runs_as_def cstep2_def expand2_def Let_def exec_enc [unfolded not_one] ill_bnd bnd_simple bnd_assoc opI_def opI_enc imm6_parts l opR_def
    assms(1) c_imm6_bits c_ldsp_bits [symmetric] c_lwsp_bits [symmetric] c_sdsp_bits [symmetric] c_swsp_bits [symmetric] offset12
    setx_zero brk
  consider "field 13 3 i = 0" | "field 13 3 i = 1" | "field 13 3 i = 2" | "field 13 3 i = 3" | "field 13 3 i = 4" | "field 13 3 i = 5"
    | "field 13 3 i = 6" | "field 13 3 i = 7" using field3 [of 13 i] by linarith
  then show ?thesis
  proof cases
    case 5
    then show ?thesis using assms(2) by (cases "field 2 5 i = 0") (simp_all add: defs)
  qed (simp_all add: defs del: One_nat_def)
qed

text \<open>C6 What a compressed instruction does is what the manual says, namely what the instruction of 32 bits does for which it
  stands: the tables of the manual, written as bits that move, agree with the interpreter's masks and shifts for every encoding; those
  without a meaning are illegal. Only the encodings \<open>rejects\<close> are refused although they are legal. (Jumps to a register, which
  save another return address, are stated on their own.)\<close>

theorem compressed_as_expanded:
  assumes "xr 0 r = 0" "\<not> jump_reg i"
  shows "bnd (cstep i at) (\<lambda>_. ret False) r =
    (case expand i of None \<Rightarrow> (Inl ENOEXEC, r)
     | Some w \<Rightarrow> if rejects i then (Inl ENOEXEC, r) else exec32 j now w at r)"
proof -
  consider "field 0 2 i = 0" | "field 0 2 i = 1" | "field 0 2 i = 2" | "field 0 2 i = 3" using field_lt [of 0 2 i] by (simp, linarith)
  then have "runs_as (cstep i at) (expand i) (rejects i) j now at r"
  proof cases
    case 1
    then show ?thesis using quadrant0 [of i j now at r] by (simp add: cstep_def expand_def rejects_def Let_def)
  next
    case 2
    then show ?thesis using quadrant1 [OF assms(1), of i at j now] by (simp add: cstep_def expand_def rejects_def Let_def)
  next
    case 3
    then show ?thesis using quadrant2 [OF assms(1), of i at j now] assms(2) by (simp add: cstep_def expand_def rejects_def jump_reg_def Let_def)
  next
    case 4
    then show ?thesis by (simp add: runs_as_def cstep_def expand_def Let_def ill_bnd)
  qed
  then show ?thesis by (simp add: runs_as_def)
qed


theorem compressed_as_expanded_witness:
  "\<forall>j now. bnd (cstep 0x0505 0) (\<lambda>_. ret False) blank_rv = exec32 j now 0x00150513 0 blank_rv"
proof (intro allI)
  fix j now
  have "xr 0 blank_rv = 0" by (simp add: xr_def blank_rv_def)
  moreover have "\<not> jump_reg 0x0505" "\<not> rejects 0x0505" "expand 0x0505 = Some 0x00150513" by code_simp+
  ultimately show "bnd (cstep 0x0505 0) (\<lambda>_. ret False) blank_rv = exec32 j now 0x00150513 0 blank_rv"
    using compressed_as_expanded [of blank_rv "0x0505" 0 j now] by simp
qed

text \<open>A jump to a register goes where the register says, also to an odd address, of which the manual clears the last bit; the
  return address is behind the two bytes of the instruction.\<close>

lemma jump_to_register:
  assumes "jump_reg i"
  shows "cstep i at r = (Inr (), (if field 12 1 i = 0 then r else put_reg 1 (of_int (at + 2)) r)\<lparr>r_pc := ux (xr (field 7 5 i) r)\<rparr>)"
  using assms by (auto simp: jump_reg_def cstep_def cstep2_def Let_def kop_simps setx_def setpc_def put_reg_def)

lemma jump_as_expanded:
  assumes "jump_reg i" "field 12 1 i = 0" "even (xr (field 7 5 i) r)"
  shows "bnd (cstep i at) (\<lambda>_. ret False) r = exec32 j now (the (expand i)) at r"
proof -
  have "sx (uint (take_bit 12 (0 :: u32))) 12 = 0" by (simp add: sx_def)
  moreover have "ux (xr (field 7 5 i) r) AND NOT 1 = ux (xr (field 7 5 i) r)"
  proof (rule bit_eqI)
    fix n
    show "bit (ux (xr (field 7 5 i) r) AND NOT 1) n = bit (ux (xr (field 7 5 i) r)) n"
      using assms(3) by (cases n) (simp_all only: bit_and_iff bit_not_iff bit_1_iff ux_def bit_take_bit_iff bit_0, simp_all add: even_and_iff)
  qed
  moreover have "field 7 5 i < 32" by (rule low_regs)
  ultimately show ?thesis
    using assms by (auto simp: jump_reg_def cstep_def cstep2_def expand_def expand2_def Let_def bnd_simple exec_enc setx_zero bnd_assoc)
qed


end
