(* ===== verification/RvProps.thy ===== *)
theory RvProps
  imports RvComp
begin

text \<open>
  What holds of every step: the zero register stays zero, registers and memory keep their shape, memory changes
  only where the program may write, and instructions come only from where it may execute.
\<close>

section \<open>Safe states\<close>

definition writable :: "rv \<Rightarrow> int \<Rightarrow> bool" where
  "writable r a \<longleftrightarrow>
     (\<exists>s \<in> set (r_seg r). s_at s \<le> a \<and> a < s_end s \<and> CHR ''w'' \<in> set (s_flg s)) \<or> r_floor r \<le> a \<and> a < r_brk r \<or> r_stackAt r \<le> a \<or>
     (\<exists>m \<in> set (r_maps r). e_at m \<le> a \<and> a < e_end m \<and> e_prot m AND 2 \<noteq> 0)"

definition executable :: "rv \<Rightarrow> int \<Rightarrow> int \<Rightarrow> bool" where
  "executable r at en \<longleftrightarrow>
     (\<exists>s \<in> set (r_seg r). CHR ''x'' \<in> set (s_flg s) \<and> s_at s \<le> at \<and> en \<le> s_end s) \<or>
     (\<exists>m \<in> set (r_maps r). e_prot m AND 4 \<noteq> 0 \<and> e_at m \<le> at \<and> en \<le> e_end m)"

text \<open>What \<open>exec\<close> remembers is a segment that may be executed, or nothing.\<close>

definition cache_ok :: "rv \<Rightarrow> bool" where
  "cache_ok r \<longleftrightarrow> r_eend r \<le> r_eat r \<or> (\<exists>s \<in> set (r_seg r). CHR ''x'' \<in> set (s_flg s) \<and> s_at s = r_eat r \<and> s_end s = r_eend r)"

definition rv_ok :: "rv \<Rightarrow> bool" where
  "rv_ok r \<longleftrightarrow> length (r_x r) = 32 \<and> length (r_f r) = 32 \<and> r_x r ! 0 = 0 \<and> mem_ok (r_m r) \<and> cache_ok r"

definition same_map :: "rv \<Rightarrow> rv \<Rightarrow> bool" where
  "same_map r r' \<longleftrightarrow> r_maps r' = r_maps r \<and> r_seg r' = r_seg r \<and> r_floor r' = r_floor r \<and> r_brk r' = r_brk r \<and>
     r_stackAt r' = r_stackAt r \<and> r_mapAt r' = r_mapAt r \<and> m_top (r_m r') = m_top (r_m r) \<and> m_cap (r_m r') = m_cap (r_m r)"

definition safe :: "rv \<Rightarrow> rv \<Rightarrow> bool" where
  "safe r0 r \<longleftrightarrow> rv_ok r \<and> same_map r0 r \<and> (\<forall>a. byte (r_m r) a \<noteq> byte (r_m r0) a \<longrightarrow> writable r0 (int a))"

lemma safe_refl: "rv_ok r \<Longrightarrow> safe r r"
  by (simp add: safe_def same_map_def)

section \<open>What keeps them safe\<close>

named_theorems rv_keeps \<comment> \<open>operations that keep states safe\<close>

lemma keeps_if [rv_keeps]: "(b \<Longrightarrow> keeps P m) \<Longrightarrow> (\<not> b \<Longrightarrow> keeps P n) \<Longrightarrow> keeps P (if b then m else n)"
  by simp

lemma keeps_pair [rv_keeps]: "(\<And>x y. p = (x, y) \<Longrightarrow> keeps P (f x y)) \<Longrightarrow> keeps P (case p of (x, y) \<Rightarrow> f x y)"
  by (cases p) simp

lemma keeps_opt [rv_keeps]: "keeps P m \<Longrightarrow> (\<And>x. v = Some x \<Longrightarrow> keeps P (f x)) \<Longrightarrow> keeps P (case v of None \<Rightarrow> m | Some x \<Rightarrow> f x)"
  by (cases v) simp_all

lemmas [rv_keeps] = keeps_simple

lemma ill_keeps [rv_keeps]: "keeps P ill"
  by (simp add: ill_def)

lemma modify_safe:
  assumes "\<And>r. rv_ok r \<Longrightarrow> rv_ok (g r)" "\<And>r. same_map r (g r)" "\<And>r. r_m (g r) = r_m r"
  shows "keeps (safe r0) (modify g)"
proof (rule keeps_modify)
  fix r assume "safe r0 r"
  then show "safe r0 (g r)" using assms [of r] by (simp add: safe_def same_map_def)
qed

lemma simple_keeps [rv_keeps]:
  "keeps (safe r0) (setx d n)" "keeps (safe r0) (setf d v)" "keeps (safe r0) (setpc p)" "keeps (safe r0) (setres a)"
  "keeps (safe r0) (raise_flag b)"
  unfolding setx_def setf_def setpc_def setres_def raise_flag_def
  by (rule modify_safe; auto simp: rv_ok_def same_map_def cache_ok_def)+

lemma fcsr_keeps: "keeps (safe r0) (modify (\<lambda>r. r\<lparr>r_fcsr := g r\<rparr>))"
  by (rule modify_safe) (auto simp: rv_ok_def same_map_def cache_ok_def)

text \<open>Loads leave the memory alone.\<close>

lemma loads_pure [simp]:
  "snd (mem_read at n m) = m" "snd (mem_u8 at m) = m" "snd (mem_u16 at m) = m" "snd (mem_u32 at m) = m" "snd (mem_u64 at m) = m"
proof -
  show r: "snd (mem_read at n m) = m" for at n by (simp add: mem_read_def chk_bnd kop_simps)
  have b: "snd (bnd (mem_read at n) (\<lambda>b. ret (f b)) m) = m" for n and f :: "u8 list \<Rightarrow> 'a"
    using r [of at n] by (auto simp: bnd_def ret_def split: prod.split sum.split)
  show "snd (mem_u8 at m) = m" by (simp add: mem_u8_def chk_bnd kop_simps)
  show "snd (mem_u16 at m) = m" "snd (mem_u32 at m) = m" "snd (mem_u64 at m) = m"
    by (simp_all add: mem_u16_def mem_u32_def mem_u64_def chk_bnd Let_def b asks_def)
qed

lemma pure_bnd: "snd (g m) = m \<Longrightarrow> snd (bnd g (\<lambda>v. ret (f v)) m) = m"
  by (auto simp: bnd_def ret_def split: prod.split sum.split)

lemma loads_signed_pure [simp]:
  "snd (mem_i8 at m) = m" "snd (mem_i16 at m) = m" "snd (mem_i32 at m) = m" "snd (mem_i64 at m) = m"
  unfolding mem_i8_def mem_i16_def mem_i32_def mem_i64_def by (rule pure_bnd, simp)+

lemma load_keeps: "(\<And>m. snd (g m) = m) \<Longrightarrow> keeps (safe r0) (on_mem g)"
  by (auto simp: keeps_def on_mem_def split: prod.split) (metis rv.surjective rv.update_convs(3) snd_conv)

text \<open>An access that was checked for writing lies where the program may write.\<close>

definition all_writable :: "rv \<Rightarrow> int \<Rightarrow> nat \<Rightarrow> bool" where
  "all_writable r at n \<longleftrightarrow> (\<forall>a. at \<le> a \<and> a < at + int n \<longrightarrow> writable r a)"

lemma seg_of_Some: "seg_of r at en = Some s \<Longrightarrow> s \<in> set (r_seg r) \<and> s_at s \<le> at \<and> en \<le> s_end s"
  by (auto simp: seg_of_def find_Some_iff split: if_splits)

lemma mem_chk_run: "mem_chk at n wr r = (x, r') \<Longrightarrow> r' = r"
  by (auto simp: mem_chk_def Let_def split: if_splits)

lemma mem_chk_writable:
  assumes "mem_chk at n True r = (Inr (), r')"
  shows "all_writable r at n"
proof (cases "n = 0")
  case False
  let ?en = "at + int n"
  have ok: "seg_of r at ?en \<noteq> None \<or> r_floor r \<le> at \<and> ?en \<le> r_brk r \<or> r_stackAt r \<le> at \<or> in_map r at ?en"
    "\<And>s. seg_of r at ?en = Some s \<Longrightarrow> CHR ''w'' \<in> set (s_flg s)"
    "seg_of r at ?en = None \<Longrightarrow> (\<forall>m \<in> set (r_maps r). e_at m \<le> at \<and> ?en \<le> e_end m \<longrightarrow> e_prot m AND 2 \<noteq> 0)"
    using assms False by (auto simp: mem_chk_def Let_def split: if_splits option.splits)
  show ?thesis
  proof (cases "seg_of r at ?en")
    case (Some s)
    then show ?thesis using seg_of_Some [OF Some] ok(2) [OF Some]
      unfolding all_writable_def writable_def by (metis le_less_trans less_le_trans order_trans linorder_not_less)
  next
    case None
    then consider "r_floor r \<le> at" "?en \<le> r_brk r" | "r_stackAt r \<le> at" | m where "m \<in> set (r_maps r)" "e_at m \<le> at" "?en \<le> e_end m"
      using ok(1) by (auto simp: in_map_def)
    then show ?thesis using ok(3) [OF None] by cases (force simp: all_writable_def writable_def)+
  qed
qed (auto simp: all_writable_def)

lemma writable_same: "same_map r0 r \<Longrightarrow> writable r a = writable r0 a"
  by (simp add: writable_def same_map_def)

lemma chk_keeps:
  assumes "(wr \<Longrightarrow> all_writable r0 at n) \<Longrightarrow> keeps (safe r0) (f ())"
  shows "keeps (safe r0) (bnd (mem_chk at n wr) f)"
  unfolding keeps_def
proof (intro allI impI)
  fix r assume s: "safe r0 r"
  obtain x r' where c: "mem_chk at n wr r = (x, r')" by (cases "mem_chk at n wr r")
  then have r': "r' = r" by (rule mem_chk_run)
  show "safe r0 (snd (bnd (mem_chk at n wr) f r))"
  proof (cases x)
    case (Inl e)
    then show ?thesis using c r' s by (simp add: bnd_def)
  next
    case (Inr u)
    have "all_writable r0 at n" if wr
      using mem_chk_writable [of at n r r] c Inr r' that writable_same [of r0 r] s by (simp add: all_writable_def safe_def)
    then show ?thesis using assms s c Inr r' by (simp add: bnd_def keeps_def)
  qed
qed

lemma store_keeps:
  assumes "all_writable r0 at n" "0 \<le> at"
    "\<And>m. mem_ok m \<Longrightarrow> mem_ok (snd (g m)) \<and> m_top (snd (g m)) = m_top m \<and> m_cap (snd (g m)) = m_cap m"
    "\<And>m a. mem_ok m \<Longrightarrow> a < nat at \<or> nat at + n \<le> a \<Longrightarrow> byte (snd (g m)) a = byte m a"
  shows "keeps (safe r0) (on_mem g)"
  unfolding keeps_def
proof (intro allI impI)
  fix r assume s: "safe r0 r"
  let ?m = "snd (g (r_m r))"
  have ok: "mem_ok (r_m r)" using s by (simp add: safe_def rv_ok_def)
  have run: "snd (on_mem g r) = r\<lparr>r_m := ?m\<rparr>" by (simp add: on_mem_def split: prod.split)
  have "writable r0 (int a)" if "byte ?m a \<noteq> byte (r_m r0) a" for a
  proof (cases "a < nat at \<or> nat at + n \<le> a")
    case True
    then have "byte (r_m r) a \<noteq> byte (r_m r0) a" using assms(4) [OF ok True] that by simp
    then show ?thesis using s by (simp add: safe_def)
  next
    case False
    then have "at \<le> int a" "int a < at + int n" using assms(2) by linarith+
    then show ?thesis using assms(1) by (simp add: all_writable_def)
  qed
  then show "safe r0 (snd (on_mem g r))"
    unfolding run using s assms(3) [OF ok] by (auto simp: safe_def rv_ok_def same_map_def cache_ok_def)
qed

lemma ux_pos: "0 \<le> ux a"
  by (simp add: ux_def)

context mem_store begin

lemma frame_snd: "mem_ok m \<Longrightarrow> a < nat at \<or> nat at + length (enc v) \<le> a \<Longrightarrow> byte (snd (st at v m)) a = byte m a"
  using frame [OF _ prod.collapse [symmetric]] .

end

lemma stores_keep [rv_keeps]:
  "all_writable r0 (ux at) 1 \<Longrightarrow> keeps (safe r0) (on_mem (mem_set8 (ux at) n))"
  "all_writable r0 (ux at) 2 \<Longrightarrow> keeps (safe r0) (on_mem (mem_set16 (ux at) n))"
  "all_writable r0 (ux at) 4 \<Longrightarrow> keeps (safe r0) (on_mem (mem_set32 (ux at) n))"
  "all_writable r0 (ux at) 8 \<Longrightarrow> keeps (safe r0) (on_mem (mem_set64 (ux at) n))"
  using w8.frame_snd w16.frame_snd w32.frame_snd w64.frame_snd
  by (auto intro!: store_keeps simp: ux_pos w8.same w16.same w32.same w64.same)

section \<open>Every instruction\<close>

lemma loads_keep [rv_keeps]:
  "keeps (safe r0) (on_mem (mem_i8 at))" "keeps (safe r0) (on_mem (mem_i16 at))" "keeps (safe r0) (on_mem (mem_i32 at))"
  "keeps (safe r0) (on_mem (mem_i64 at))" "keeps (safe r0) (on_mem (mem_u16 at))" "keeps (safe r0) (on_mem (mem_u32 at))"
  "keeps (safe r0) (on_mem (mem_u64 at))"
  "keeps (safe r0) (on_mem (bnd (mem_u8 at) (\<lambda>v. ret (uint v))))" "keeps (safe r0) (on_mem (bnd (mem_u16 at) (\<lambda>v. ret (uint v))))"
  "keeps (safe r0) (on_mem (bnd (mem_u32 at) (\<lambda>v. ret (uint v))))"
  by (intro load_keeps; simp add: pure_bnd)+

lemma accesses_keep [rv_keeps]:
  "keeps (safe r0) (load_at d f at)" "keeps (safe r0) (store_at f at n)" "keeps (safe r0) (fload_at d f at)"
  "keeps (safe r0) (fstore_at s f at)"
  unfolding load_at_def store_at_def fload_at_def fstore_at_def Let_def by (rule chk_keeps keeps_bnd rv_keeps | simp)+

lemma integer_keeps [rv_keeps]:
  "keeps (safe r0) (opI d f i a)" "keeps (safe r0) (opIW d f i a)" "keeps (safe r0) (opR d f h a b)" "keeps (safe r0) (opRW d f h a b)"
  "keeps (safe r0) (branch f a b)"
  unfolding opI_def opIW_def opR_def opRW_def branch_def Let_def by (rule chk_keeps keeps_bnd rv_keeps | simp)+

lemma word_or_double:
  "keeps (safe r0) (on_mem (if b then mem_i32 at else mem_i64 at))"
  "all_writable r0 (ux at) (if b then 4 else 8) \<Longrightarrow> keeps (safe r0) (on_mem (if b then mem_set32 (ux at) n else mem_set64 (ux at) n))"
  by (cases b; simp add: rv_keeps)+

lemma atomic_keeps [rv_keeps]: "keeps (safe r0) (atomic d f i at n)"
  unfolding atomic_def Let_def by (rule word_or_double chk_keeps keeps_bnd rv_keeps | assumption | simp)+

lemma csr_keeps [rv_keeps]: "keeps (safe r0) (csr now d f i a ai)"
  unfolding csr_def Let_def
  by (rule keeps_bnd rv_keeps | rule modify_safe | simp add: rv_ok_def same_map_def cache_ok_def)+

lemma float_keeps [rv_keeps]: "keeps (safe r0) (fma j op d i a b)" "keeps (safe r0) (fop j d f3 h a b)"
  unfolding fma_def fop_def fop1_def fop2_def fdiv_def fsgnj_def fminmax_def fcompare_def fto_int_def fof_int_def fbits_def round_mode_def Let_def
  by (rule chk_keeps keeps_bnd rv_keeps | simp)+

lemma cstep_keeps [rv_keeps]: "keeps (safe r0) (cstep i at)"
  unfolding cstep_def cstep0_def cstep1_def cstep2_def c_arith_def Let_def by (rule chk_keeps keeps_bnd rv_keeps | simp)+

lemma exec32_keeps [rv_keeps]: "keeps (safe r0) (exec32 j now i at)"
  unfolding exec32_def Let_def by (rule chk_keeps keeps_bnd rv_keeps | simp)+


lemma exec_ok_keeps [rv_keeps]: "keeps (safe r0) (exec_ok at n)"
  unfolding keeps_def
proof (intro allI impI)
  fix r assume s: "safe r0 r"
  show "safe r0 (snd (exec_ok at n r))"
  proof (cases "find (\<lambda>s. CHR ''x'' \<in> set (s_flg s) \<and> s_at s \<le> at \<and> at + int n \<le> s_end s) (r_seg r)")
    case None
    then show ?thesis using s by (simp add: exec_ok_def Let_def)
  next
    case (Some q)
    then have "q \<in> set (r_seg r)" "CHR ''x'' \<in> set (s_flg q)" by (auto simp: find_Some_iff)
    then show ?thesis using s Some by (auto simp: exec_ok_def Let_def safe_def rv_ok_def same_map_def cache_ok_def)
  qed
qed

lemma step_keeps: "keeps (safe r0) (rv_step j now)"
  unfolding rv_step_def by (rule keeps_bnd rv_keeps | simp)+

lemma exec_ok_executable:
  assumes "rv_ok r" "exec_ok at n r = (Inr (), r')" "0 < n"
  shows "executable r at (at + int n) \<and> r_seg r' = r_seg r \<and> r_maps r' = r_maps r \<and> rv_ok r'"
proof (cases "r_eat r \<le> at \<and> at + int n \<le> r_eend r")
  case True
  then have "r' = r" using assms(2) by (simp add: exec_ok_def Let_def)
  moreover obtain s where "s \<in> set (r_seg r)" "CHR ''x'' \<in> set (s_flg s)" "s_at s = r_eat r" "s_end s = r_eend r"
    using True assms(1,3) by (force simp: rv_ok_def cache_ok_def)
  ultimately show ?thesis using True assms(1) by (auto simp: executable_def)
next
  case False
  show ?thesis
  proof (cases "find (\<lambda>s. CHR ''x'' \<in> set (s_flg s) \<and> s_at s \<le> at \<and> at + int n \<le> s_end s) (r_seg r)")
    case None
    then show ?thesis using False assms(1,2) by (auto simp: exec_ok_def Let_def executable_def split: if_splits)
  next
    case (Some q)
    then have q: "q \<in> set (r_seg r)" "CHR ''x'' \<in> set (s_flg q)" "s_at q \<le> at" "at + int n \<le> s_end q" by (auto simp: find_Some_iff)
    have r': "r' = r\<lparr>r_eat := s_at q, r_eend := s_end q\<rparr>" using False Some assms(2) by (auto simp: exec_ok_def Let_def)
    have "cache_ok r'" unfolding cache_ok_def r' using q(1,2) by (intro disjI2 bexI [of _ q]) simp_all
    moreover have "executable r at (at + int n)" using q by (auto simp: executable_def)
    ultimately show ?thesis using assms(1) by (simp add: r' rv_ok_def)
  qed
qed

section \<open>Integer instructions\<close>

definition w20 :: "u32 \<Rightarrow> u64" where "w20 i = scast (push_bit 12 (drop_bit 12 i))"

text \<open>The result of an integer instruction, by the reference.\<close>

definition alu :: "u32 \<Rightarrow> int \<Rightarrow> rv \<Rightarrow> u64 option" where
  "alu i at r =
     (let op = field 0 7 i; f = field 12 3 i; a = r_x r ! field 15 5 i; b = r_x r ! field 20 5 i; h = field 25 7 i in
      if op = 0x13 then spec_I f (field 26 6 i) (field 20 6 i) a (w12 i)
      else if op = 0x17 then Some (of_int at + w20 i)
      else if op = 0x1b then map_option scast (spec_IW f h (field 20 5 i) (ucast a) (ucast (w12 i)))
      else if op = 0x33 then spec_R f h a b
      else if op = 0x37 then Some (w20 i)
      else map_option scast (spec_RW f h (ucast a) (ucast b)))"

lemma immU_word: "of_int (immU i) = w20 i"
proof -
  have m: "(0xfffff000 :: u32) = push_bit 12 (mask 20)" by (simp add: mask_eq_exp_minus_1 push_bit_eq_mult)
  have "i AND push_bit 12 (mask 20) = push_bit 12 (drop_bit 12 i)"
    by (rule bit_word_eqI) (auto simp: bit_and_iff bit_push_bit_iff bit_mask_iff bit_drop_bit_eq)
  then show ?thesis by (simp only: immU_def m w20_def sx32 word_of_int_uint)
qed

lemma retire_bnd: "m = retire d v \<Longrightarrow>
    bnd m (\<lambda>_. ret False) r = (case v of Some w \<Rightarrow> (Inr False, put_reg d w r) | None \<Rightarrow> (Inl ENOEXEC, r))"
  by (simp add: bnd_def ret_def retire_def split: option.split)

section \<open>Loads and stores\<close>

lemma chk_in_range: "mem_chk at n wr r = (Inr (), r') \<Longrightarrow> in_range (r_m r) at n"
  by (auto simp: mem_chk_def Let_def in_range_def split: if_splits)

text \<open>The width of an access and what a load makes of its bytes.\<close>

definition width :: "nat \<Rightarrow> nat" where "width f = [1, 2, 4, 8, 1, 2, 4] ! f"

definition ld_extend :: "nat \<Rightarrow> u8 list \<Rightarrow> u64" where
  "ld_extend f bs =
     (if f = 0 then scast (of_bytes bs :: u8) else if f = 1 then scast (of_bytes bs :: u16) else if f = 2 then scast (of_bytes bs :: u32)
      else of_bytes bs)"

lemma chk_run: "mem_chk at n wr r = (case mem_chk at n wr r of (x, _) \<Rightarrow> (x, r))"
  using mem_chk_run [of at n wr r] by (cases "mem_chk at n wr r") auto

lemma bit_of_bytes:
  "bit (of_bytes bs :: 'a::len word) n \<longleftrightarrow> n < LENGTH('a) \<and> n div 8 < length bs \<and> bit (bs ! (n div 8)) (n mod 8)"
proof (induction bs arbitrary: n)
  case (Cons b bs)
  show ?case
  proof (cases "n < 8")
    case True
    then show ?thesis by (auto simp: bit_or_iff bit_ucast_iff bit_push_bit_iff dest: bit_high)
  next
    case False
    then obtain k where k: "n = k + 8" using le_Suc_ex [of 8 n] by (auto simp: add.commute)
    have "(k + 8) div 8 = Suc (k div 8)" "(k + 8) mod 8 = k mod 8" by simp_all
    then show ?thesis using Cons.IH [of k] unfolding k
      by (auto simp: bit_or_iff bit_ucast_iff bit_push_bit_iff dest: bit_high)
  qed
qed simp

lemma of_bytes_wide: "8 * length bs \<le> LENGTH('a) \<Longrightarrow> 8 * length bs \<le> LENGTH('b) \<Longrightarrow>
    uint (of_bytes bs :: 'a::len word) = uint (of_bytes bs :: 'b::len word)"
  by (rule bit_eqI) (auto simp: bit_uint_iff bit_of_bytes)

lemma of_int_casts: "(of_int (sint w) :: 'b::len word) = scast (w :: 'a::len word)" "(of_int (uint w) :: 'b::len word) = ucast w"
  by (rule scast_eq [symmetric], rule ucast_eq [symmetric])

section \<open>Programs of one instruction\<close>

text \<open>The blank machine with a \<open>c.nop\<close> at the start of the text.\<close>

definition nop_page :: "u8 list" where "nop_page = 1 # replicate (PG - 1) 0"

definition nop_rv :: rv where
  "nop_rv = blank_rv\<lparr>r_m := \<lparr>m_page = [(1, nop_page)], m_used = PG, m_top = 1048576, m_cap = 2 * PG\<rparr>\<rparr>"

lemma blank_ok: "rv_ok blank_rv" "xr 0 blank_rv = 0"
  using mem0(2) by (simp_all add: rv_ok_def blank_rv_def cache_ok_def xr_def)

lemma nop_ok: "rv_ok nop_rv"
proof -
  have "length nop_page = PG" by (simp add: nop_page_def PG_def)
  then have "mem_ok (r_m nop_rv)" by (auto simp: nop_rv_def mem_ok_def ents_ok_def ent_get_def ent_sum_def)
  then show ?thesis using blank_ok by (simp add: rv_ok_def nop_rv_def blank_rv_def cache_ok_def)
qed

lemma nop_bytes: "byte (r_m nop_rv) 65536 = 1" "byte (r_m nop_rv) 65537 = 0"
  by (simp_all add: byte_def page_at_def nop_rv_def ent_get_def nop_page_def PG_def nth_Cons')

lemma nop_step: "rv_step j now nop_rv = (Inr False, nop_rv\<lparr>r_eat := 65536, r_eend := 131072, r_pc := 65538\<rparr>)"
proof -
  have m: "mem_ok (r_m nop_rv)" using nop_ok by (simp add: rv_ok_def)
  have "at_bytes (byte (r_m nop_rv)) 65536 2 = [1, 0]" using nop_bytes by (simp add: at_bytes_def upt_rec)
  then have h: "mem_u16 65536 (r_m nop_rv) = (Inr 1, r_m nop_rv)"
    using load_spec(2) [OF m, of 65536] by (simp add: in_range_def nop_rv_def)
  have "field 0 2 1 = 1" "field 13 3 1 = 0" "field 7 5 1 = 0" by code_simp+
  then have c: "cstep 1 at r = (Inr (), r)" for at r
    by (simp add: cstep_def cstep1_def Let_def bnd_simple setx_def modify_def)
  have "exec_ok 65536 2 nop_rv = (Inr (), nop_rv\<lparr>r_eat := 65536, r_eend := 131072\<rparr>)"
    by (simp add: exec_ok_def nop_rv_def blank_rv_def)
  moreover have "r_pc nop_rv = 65536" "ux 65538 = 65538" by (simp_all add: nop_rv_def blank_rv_def ux_def)
  ultimately show ?thesis
    using h c by (simp add: rv_step_def bnd_def asks_def on_mem_def setpc_def modify_def ret_def)
qed

section \<open>Properties\<close>

text \<open>The steps of a program between its calls of the system.\<close>

inductive rv_moves :: "rv \<Rightarrow> rv \<Rightarrow> bool" where
  step: "rv_moves r (snd (rv_step j now r))"

inductive_cases rv_movesE: "rv_moves r r'"

text \<open>C2 However long a program runs between two calls of the system, whatever it executes, also when an instruction is refused:
  the zero register is zero, there are 32 registers of each kind, the memory is well formed, the map of the memory has not changed, and
  a byte of the memory that has changed lies in a segment with the flag for writing, in the heap, in the stack or in a mapping with
  that right.\<close>

theorem memory_protected:
  assumes "rv_ok r0" "rv_moves\<^sup>*\<^sup>* r0 r"
  shows "rv_ok r \<and> xr 0 r = 0 \<and> r_seg r = r_seg r0 \<and> r_maps r = r_maps r0 \<and> r_brk r = r_brk r0 \<and>
    (byte (r_m r) a \<noteq> byte (r_m r0) a \<longrightarrow> writable r0 (int a))"
proof -
  have "safe r0 r"
    using assms(2) by (induction rule: rtranclp_induct) (auto elim!: rv_movesE intro: safe_refl [OF assms(1)] keepsD [OF step_keeps])
  then show ?thesis by (simp add: safe_def same_map_def rv_ok_def xr_def)
qed

theorem memory_protected_witness: "\<forall>j now. byte (r_m (snd (rv_step j now nop_rv))) 65536 = 1"
proof (intro allI)
  fix j now
  have "\<not> writable nop_rv 65536" by (simp add: writable_def nop_rv_def blank_rv_def)
  then show "byte (r_m (snd (rv_step j now nop_rv))) 65536 = 1"
    using memory_protected [OF nop_ok r_into_rtranclp [of rv_moves, OF rv_moves.step [of nop_rv j now]], of 65536] nop_bytes by auto
qed

text \<open>C30 A step is made, or a call of the system, only when the program counter points into a segment or a mapping with
  the right to execute.\<close>

theorem only_executable:
  assumes "rv_ok r" "rv_step j now r = (Inr c, r')"
  shows "executable r (r_pc r) (r_pc r + 2)"
proof -
  have "exec_ok (r_pc r) 2 r = (Inr (), snd (exec_ok (r_pc r) 2 r))"
    using assms(2) by (cases "exec_ok (r_pc r) 2 r"; cases "fst (exec_ok (r_pc r) 2 r)") (auto simp: rv_step_def bnd_def asks_def)
  from exec_ok_executable [OF assms(1) this] show ?thesis by simp
qed


theorem only_executable_witness: "executable nop_rv 65536 65538"
proof -
  have "r_pc nop_rv = 65536" by (simp add: nop_rv_def blank_rv_def)
  then show ?thesis using only_executable [OF nop_ok nop_step] by simp
qed

text \<open>C5 The integer instructions, with immediates, on registers, on 32 bits and those for constants, compute what the manual of the
  instruction set defines on words, division by zero and its overflow included, and write it to their register, unless that is
  register 0; encodings that the manual does not define are refused and change nothing.\<close>

theorem integer_instructions:
  assumes "field 0 7 i \<in> {0x13, 0x17, 0x1b, 0x33, 0x37, 0x3b}"
  shows "exec32 j now i at r =
    (case alu i at r of Some v \<Rightarrow> (Inr False, put_reg (field 7 5 i) v r) | None \<Rightarrow> (Inl ENOEXEC, r))"
proof -
  have f: "field 12 3 i < 8" using field_lt [of 12 3 i] by simp
  have set: "setx d n = retire d (Some (of_int n))" for d n by (rule ext) (simp add: setx_run retire_def)
  note ops = opI_spec [OF f, abs_def] opIW_spec [abs_def] opR_spec [OF f, abs_def] opRW_spec [abs_def]
  consider "field 0 7 i = 0x13" | "field 0 7 i = 0x17" | "field 0 7 i = 0x1b" | "field 0 7 i = 0x33" | "field 0 7 i = 0x37" | "field 0 7 i = 0x3b"
    using assms by auto
  then show ?thesis
    by cases (simp_all add: exec32_def alu_def Let_def bnd_simple xr_def ops set retire_bnd immU_word)
qed

theorem integer_instructions_witness: "\<forall>j now. exec32 j now 0x00150513 0 blank_rv = (Inr False, put_reg 10 1 blank_rv)"
proof (intro allI)
  fix j now
  have f: "field 0 7 0x00150513 = 0x13" "field 7 5 0x00150513 = 10" "field 12 3 0x00150513 = 0" "field 15 5 0x00150513 = 10"
    by code_simp+
  moreover have "w12 0x00150513 = 1" by code_simp
  ultimately have "alu 0x00150513 0 blank_rv = Some 1" by (simp add: alu_def Let_def spec_I_def blank_rv_def)
  then show "exec32 j now 0x00150513 0 blank_rv = (Inr False, put_reg 10 1 blank_rv)"
    using integer_instructions [of "0x00150513" j now 0 blank_rv] f by simp
qed


lemma on_mem_run: "g (r_m r) = (x, m) \<Longrightarrow> on_mem g r = (x, r\<lparr>r_m := m\<rparr>)"
  by (simp add: on_mem_def)

lemma get_result:
  assumes "g (r_m r) = (if in_range (r_m r) at n then (Inr v, r_m r) else (Inl ERANGE, r_m r))"
  shows "bnd (mem_chk at n False) (\<lambda>_. bnd (on_mem g) (setx d)) r =
    (case mem_chk at n False r of (Inl e, _) \<Rightarrow> (Inl e, r) | (Inr _, _) \<Rightarrow> (Inr (), put_reg d (of_int v) r))"
proof (cases "mem_chk at n False r")
  case (Pair x r')
  then have r': "r' = r" by (rule mem_chk_run)
  show ?thesis
  proof (cases x)
    case (Inr u)
    then have "in_range (r_m r) at n" using Pair chk_in_range [of at n False r r'] by simp
    then have "on_mem g r = (Inr v, r)" using assms by (simp add: on_mem_def)
    then show ?thesis using Pair Inr r' by (simp add: bnd_def setx_run)
  qed (use Pair r' in \<open>simp add: bnd_def\<close>)
qed

lemma signed_loads:
  assumes "mem_ok m"
  shows "mem_i8 at m = (if in_range m at 1 then (Inr (sint (byte m (nat at))), m) else (Inl ERANGE, m))"
    "mem_i16 at m = (if in_range m at 2 then (Inr (sint (of_bytes (at_bytes (byte m) (nat at) 2) :: u16)), m) else (Inl ERANGE, m))"
    "mem_i32 at m = (if in_range m at 4 then (Inr (sint (of_bytes (at_bytes (byte m) (nat at) 4) :: u32)), m) else (Inl ERANGE, m))"
    "mem_i64 at m = (if in_range m at 8 then (Inr (sint (of_bytes (at_bytes (byte m) (nat at) 8) :: u64)), m) else (Inl ERANGE, m))"
    "bnd (mem_u8 at) (\<lambda>v. ret (uint v)) m = (if in_range m at 1 then (Inr (uint (byte m (nat at))), m) else (Inl ERANGE, m))"
    "bnd (mem_u16 at) (\<lambda>v. ret (uint v)) m =
      (if in_range m at 2 then (Inr (uint (of_bytes (at_bytes (byte m) (nat at) 2) :: u16)), m) else (Inl ERANGE, m))"
    "bnd (mem_u32 at) (\<lambda>v. ret (uint v)) m =
      (if in_range m at 4 then (Inr (uint (of_bytes (at_bytes (byte m) (nat at) 4) :: u32)), m) else (Inl ERANGE, m))"
  using load_spec [OF assms] by (simp_all add: mem_i8_def mem_i16_def mem_i32_def mem_i64_def bnd_def ret_def)

lemma load_at_run:
  assumes ok: "rv_ok r" and f: "f < 7"
  shows "load_at d f a r =
    (case mem_chk (ux a) (width f) False r of (Inl e, _) \<Rightarrow> (Inl e, r)
     | (Inr _, _) \<Rightarrow> (Inr (), put_reg d (ld_extend f (at_bytes (byte (r_m r)) (nat (ux a)) (width f))) r))"
proof -
  have "mem_ok (r_m r)" using ok by (simp add: rv_ok_def)
  note sl = signed_loads [OF this]
  note l = get_result [where g = "mem_i8 (ux a)", OF sl(1)]
    get_result [where g = "mem_i16 (ux a)", OF sl(2)]
    get_result [where g = "mem_i32 (ux a)", OF sl(3)]
    get_result [where g = "mem_i64 (ux a)", OF sl(4)]
    get_result [where g = "bnd (mem_u8 (ux a)) (\<lambda>v. ret (uint v))", OF sl(5)]
    get_result [where g = "bnd (mem_u16 (ux a)) (\<lambda>v. ret (uint v))", OF sl(6)]
    get_result [where g = "bnd (mem_u32 (ux a)) (\<lambda>v. ret (uint v))", OF sl(7)]
  have one: "of_bytes (at_bytes g b 1) = (ucast (g b) :: 'a::len word)" for g b by (simp add: at_bytes_def)
  have wide: "(ucast (of_bytes (at_bytes g b 2) :: u16) :: u64) = of_bytes (at_bytes g b 2)"
    "(ucast (of_bytes (at_bytes g b 4) :: u32) :: u64) = of_bytes (at_bytes g b 4)" for g b
    using of_bytes_wide [of "at_bytes g b 2", where 'a = 16 and 'b = 64] of_bytes_wide [of "at_bytes g b 4", where 'a = 32 and 'b = 64]
    by (simp_all add: ucast_eq)
  have w: "width 0 = 1" "width 1 = 2" "width 2 = 4" "width 3 = 8" "width 4 = 1" "width 5 = 2" "width 6 = 4" by (simp_all add: width_def)
  consider "f = 0" | "f = 1" | "f = 2" | "f = 3" | "f = 4" | "f = 5" | "f = 6" using f by linarith
  then show ?thesis
    by cases (simp_all add: load_at_def Let_def w del: One_nat_def, simp_all only: l of_int_casts one wide,
        simp_all add: ld_extend_def w one wide split: prod.split sum.split del: One_nat_def)
qed

lemma stack_chk: "mem_chk 851968 8 wr blank_rv = (Inr (), blank_rv)"
  by (simp add: mem_chk_def blank_rv_def mem0_def seg_of_def)

text \<open>A load is refused and changes nothing, or reads the bytes at its address, least significant first, extended as its
  encoding says, into its register; the address is cut to 64 bits.\<close>

theorem loads_read_memory:
  assumes "rv_ok r" "f < 7"
  shows "load_at d f a r =
    (case mem_chk (ux a) (width f) False r of (Inl e, _) \<Rightarrow> (Inl e, r)
     | (Inr _, _) \<Rightarrow> (Inr (), put_reg d (ld_extend f (at_bytes (byte (r_m r)) (nat (ux a)) (width f))) r))"
  using assms by (rule load_at_run)


lemma bnd_ok: "bnd m f r = (Inr v, r') \<Longrightarrow> \<exists>u r1. m r = (Inr u, r1) \<and> f u r1 = (Inr v, r')"
  by (auto simp: bnd_def split: prod.splits sum.splits)

lemma chk_again:
  assumes "mem_chk at n True r = (Inr (), r)" "same_map r r'"
  shows "mem_chk at n False r' = (Inr (), r')"
  using assms by (auto simp: mem_chk_def Let_def same_map_def seg_of_def in_map_def split: if_splits)

theorem loads_read_memory_witness: "load_at 10 3 851968 blank_rv = (Inr (), put_reg 10 0 blank_rv)"
proof -
  have "at_bytes (byte (r_m blank_rv)) 851968 8 = replicate 8 0"
    by (simp add: at_bytes_def byte_def page_at_def blank_rv_def mem0_def ent_get_def map_replicate_const)
  moreover have "of_bytes (replicate n 0) = (0 :: u64)" for n by (induction n) simp_all
  ultimately have "ld_extend 3 (at_bytes (byte (r_m blank_rv)) 851968 8) = 0" by (simp only: ld_extend_def) simp
  moreover have "width 3 = 8" "ux 851968 = 851968" by (simp_all add: width_def ux_def)
  ultimately show ?thesis using loads_read_memory [OF blank_ok(1), of 3 10 851968] stack_chk by simp
qed

text \<open>What a checked store leaves behind, for a store of the memory interface.\<close>

context mem_store begin

lemma checked_store:
  assumes "rv_ok r" "bnd (mem_chk at n True) (\<lambda>_. on_mem (st at v)) r = (Inr (), r')" "n = length (enc v)"
  shows "rv_ok r' \<and> mem_chk at n False r' = (Inr (), r') \<and> at_bytes (byte (r_m r')) (nat at) n = enc v \<and>
    (\<forall>a. a < nat at \<or> nat at + n \<le> a \<longrightarrow> byte (r_m r') a = byte (r_m r) a) \<and> r_x r' = r_x r"
proof -
  obtain r1 where r1: "mem_chk at n True r = (Inr (), r1)" "on_mem (st at v) r1 = (Inr (), r')"
    using bnd_ok [OF assms(2)] by auto
  then have [simp]: "r1 = r" using mem_chk_run by blast
  let ?m = "snd (st at v (r_m r))"
  have ok: "mem_ok (r_m r)" using assms(1) by (simp add: rv_ok_def)
  have m: "st at v (r_m r) = (Inr (), ?m)" and r': "r' = r\<lparr>r_m := ?m\<rparr>"
    using r1(2) by (auto simp: on_mem_def split: prod.splits)
  have s: "same_map r r'" using same [OF ok, of at v] by (simp add: r' same_map_def)
  have "rv_ok r'" using assms(1) same [OF ok, of at v] by (simp add: r' rv_ok_def cache_ok_def)
  moreover have "mem_chk at n False r' = (Inr (), r')" using chk_again [OF _ s] r1(1) by simp
  moreover have "at_bytes (byte (r_m r')) (nat at) n = enc v" using read_back [OF ok m] by (simp add: r' assms(3))
  moreover have "byte (r_m r') a = byte (r_m r) a" if "a < nat at \<or> nat at + n \<le> a" for a
    using frame_snd [OF ok] that by (simp add: r' assms(3))
  ultimately show ?thesis by (simp add: r')
qed

end

lemma store_at_run:
  assumes "rv_ok r" "f < 4" "store_at f a n r = (Inr (), r')"
  shows "rv_ok r' \<and> mem_chk (ux a) (width f) False r' = (Inr (), r') \<and>
    ld_extend f (at_bytes (byte (r_m r')) (nat (ux a)) (width f)) = of_int (sx n (8 * width f)) \<and>
    (\<forall>b. b < nat (ux a) \<or> nat (ux a) + width f \<le> b \<longrightarrow> byte (r_m r') b = byte (r_m r) b)"
proof -
  have sx8: "of_int (sx n 8) = (scast (of_int n :: u8) :: u64)" "of_int (sx n 16) = (scast (of_int n :: u16) :: u64)"
    "of_int (sx n 64) = (of_int n :: u64)"
    by (rule bit_word_eqI; auto simp: bit_word_of_int_iff bit_signed_iff bit_sx min_def)+
  have b: "of_bytes (bytes_le 1 (of_int n :: u8)) = (of_int n :: u8)" by (simp add: bytes_le_def)
  consider "f = 0" | "f = 1" | "f = 2" | "f = 3" using assms(2) by linarith
  then show ?thesis
  proof cases
    case 1
    then show ?thesis using w8.checked_store [OF assms(1), of "ux a" 1 n r'] assms(3) b
      by (simp add: store_at_def Let_def width_def ld_extend_def sx8)
  next
    case 2
    then show ?thesis using w16.checked_store [OF assms(1), of "ux a" 2 n r'] assms(3)
      by (simp add: store_at_def Let_def width_def ld_extend_def sx8)
  next
    case 3
    then show ?thesis using w32.checked_store [OF assms(1), of "ux a" 4 n r'] assms(3)
      by (simp add: store_at_def Let_def width_def ld_extend_def sx32)
  next
    case 4
    then show ?thesis using w64.checked_store [OF assms(1), of "ux a" 8 n r'] assms(3)
      by (simp add: store_at_def Let_def width_def ld_extend_def sx8)
  qed
qed

text \<open>What a store instruction has written, a load of the same width at the same address brings back, cut to the width and
  sign extended; every other byte of the memory is as before.\<close>

theorem load_after_store:
  assumes "rv_ok r" "f < 4" "store_at f a n r = (Inr (), r')"
  shows "load_at d f a r' = (Inr (), put_reg d (of_int (sx n (8 * width f))) r') \<and>
    (b < nat (ux a) \<or> nat (ux a) + width f \<le> b \<longrightarrow> byte (r_m r') b = byte (r_m r) b)"
  using store_at_run [OF assms] load_at_run [of r' f d a] assms(2) by simp

theorem load_after_store_witness:
  "\<exists>r. store_at 3 851968 (- 5) blank_rv = (Inr (), r) \<and> load_at 10 3 851968 r = (Inr (), put_reg 10 (- 5) r)"
proof -
  have u: "ux 851968 = 851968" by (simp add: ux_def)
  obtain m where "mem_set64 851968 (- 5) mem0 = (Inr (), m)"
    using store_fits [of mem0 851968 8 "- 5"] by (auto simp: mem_set64_def in_range_def mem0_def PG_def)
  then have "store_at 3 851968 (- 5) blank_rv = (Inr (), blank_rv\<lparr>r_m := m\<rparr>)"
    using stack_chk by (simp add: store_at_def u Let_def bnd_def on_mem_def) (simp add: blank_rv_def)
  moreover have "sx (- 5) (8 * width 3) = - 5" by (simp add: width_def sx_def)
  ultimately show ?thesis using load_after_store [OF blank_ok(1), of 3 851968 "- 5" _ 10] by auto
qed

end
