(* ===== verification/RvMap.thy ===== *)
theory RvMap
  imports RvProps KernelProps
begin

text \<open>
  The map of a program's memory (\<open>doBrk\<close>, \<open>mmap\<close>, \<open>remap\<close>, \<open>unmap\<close>, \<open>flushShared\<close> of
  \<^verbatim>\<open>src/src/vm/rv64.ts\<close>): the heap, mappings without and with a file, their release and their movement. A call works on
  a host: the interpreter, the kernel, and the process the program runs as; files are read and written through the
  kernel with the rights of that process. The specification sees the mappings as a function from
  addresses.

  Not in this theory: that the host may have no room for the array \<open>flushShared\<close> builds (\<open>RangeError\<close>).
\<close>

section \<open>Hosts\<close>

text \<open>\<open>h_done\<close> and \<open>h_code\<close> are the end of the program, \<open>h_socks\<close> the descriptors of local sockets, \<open>h_ins\<close>
  for a descriptor what is left of the last delivery of its stream, \<open>h_rlim\<close> the limits of resources that were asked for or set. \<open>h_left\<close> says that a call went
  where the model does not; a run ends there.\<close>

record host =
  h_rv :: rv
  h_k :: kern
  h_pid :: int
  h_done :: bool
  h_code :: int
  h_socks :: "int list"
  h_ins :: "(int \<times> u8 list) list"
  h_left :: bool
  h_rlim :: "(nat \<times> int \<times> int) list"

definition on_rv :: "(rv, 'a) kop \<Rightarrow> (host, 'a) kop" where
  "on_rv f h = (case f (h_rv h) of (v, r) \<Rightarrow> (v, h\<lparr>h_rv := r\<rparr>))"

definition on_kern :: "(int \<Rightarrow> (kern, 'a) kop) \<Rightarrow> (host, 'a) kop" where
  "on_kern f h = (case f (h_pid h) (h_k h) of (v, k) \<Rightarrow> (v, h\<lparr>h_k := k\<rparr>))"

definition SAFE :: int where "SAFE = 2 ^ 53 - 1"
definition MB :: int where "MB = 1048576"

text \<open>\<open>nat\<close> of an argument: a number from 0 to a limit.\<close>

definition nat_in :: "int \<Rightarrow> int \<Rightarrow> ('s, nat) kop" where
  "nat_in hi n = bnd (check (\<not> (n < 0 \<or> hi < ux n)) ERANGE) (\<lambda>_. ret (nat (ux n)))"

definition sys_readb :: "int \<Rightarrow> int \<Rightarrow> string \<Rightarrow> (kern, u8 list) kop" where
  "sys_readb now pid path = bnd (asks (\<lambda>k. proc_at k pid)) (\<lambda>p. on_fs (readb now path (p_cwd p) (procFsCred p)))"

section \<open>The heap\<close>

definition doBrk :: "int \<Rightarrow> (rv, int) kop" where
  "doBrk n =
     bnd (asks (\<lambda>r. (r_brk r, r_floor r, r_stackAt r))) (\<lambda>(brk, floor, stk).
     if n = 0 then ret brk
     else if n < floor \<or> stk \<le> n + MB then ret brk
     else
       bnd (if n < brk then bnd (nat_in SAFE (brk - n)) (\<lambda>z. on_mem (mem_drop n z)) else ret ()) (\<lambda>_.
       bnd (modify (\<lambda>r. r\<lparr>r_brk := n\<rparr>)) (\<lambda>_. ret n)))"

section \<open>Shared mappings\<close>

text \<open>\<open>flushShared\<close>: what a shared mapping of a file has in a range goes back to the file.\<close>

definition flush_one :: "int \<Rightarrow> int \<Rightarrow> int \<Rightarrow> map_ent \<Rightarrow> (host, unit) kop" where
  "flush_one now ad en q =
     (case (e_path q, e_off q) of
       (Some path, Some off) \<Rightarrow>
         if \<not> e_shared q \<or> path = [] then ret () else
         let lo = max ad (e_at q); hi = min en (e_end q) in
         if hi \<le> lo then ret () else
         bnd (nat_in SAFE (lo - e_at q)) (\<lambda>rel.
         bnd (nat_in SAFE (hi - lo)) (\<lambda>n.
         bnd (on_kern (\<lambda>pid. sys_readb now pid path)) (\<lambda>cur.
         bnd (on_rv (on_mem (mem_read lo n))) (\<lambda>b.
         on_kern (\<lambda>pid. sys_writeb now pid path (overlay cur (nat off + rel) b) False 0x1b6)))))
     | _ \<Rightarrow> ret ())"

definition flushShared :: "int \<Rightarrow> int \<Rightarrow> int \<Rightarrow> (host, unit) kop" where
  "flushShared now at0 len =
     (if len \<le> 0 then ret ()
      else bnd (asks (\<lambda>h. r_maps (h_rv h))) (\<lambda>ms.
           bnd (mapk (flush_one now (at0 AND - PAGE) (al (at0 + len))) ms) (\<lambda>_. ret ())))"

definition flushAllShared :: "int \<Rightarrow> (host, unit) kop" where
  "flushAllShared now =
     bnd (asks (\<lambda>h. r_maps (h_rv h))) (\<lambda>ms.
     bnd (mapk (\<lambda>q. bnd (nat_in SAFE (e_end q - e_at q)) (\<lambda>n. flushShared now (e_at q) (int n))) ms) (\<lambda>_. ret ()))"

section \<open>Release\<close>

text \<open>\<open>unmap\<close>: one mapping of the list; the place of its file moves with its start.\<close>

definition moved_off :: "int \<Rightarrow> map_ent \<Rightarrow> (rv, int option) kop" where
  "moved_off en q = (case e_off q of
     None \<Rightarrow> ret None
   | Some f \<Rightarrow> bnd (nat_in SAFE (en - e_at q)) (\<lambda>d. ret (Some (f + int d))))"

definition set_map :: "nat \<Rightarrow> map_ent \<Rightarrow> (rv, unit) kop" where
  "set_map i q = modify (\<lambda>r. r\<lparr>r_maps := (r_maps r)[i := q]\<rparr>)"

definition unmap_one :: "int \<Rightarrow> int \<Rightarrow> nat \<Rightarrow> (rv, unit) kop" where
  "unmap_one ad en i =
     bnd (asks (\<lambda>r. r_maps r ! i)) (\<lambda>q.
     let lo = max ad (e_at q); hi = min en (e_end q) in
     bnd (if lo < hi then bnd (nat_in SAFE (hi - lo)) (\<lambda>n. on_mem (mem_drop lo n)) else ret ()) (\<lambda>_.
     if ad \<le> e_at q \<and> e_end q \<le> en then
       modify (\<lambda>r. r\<lparr>r_maps := take i (r_maps r) @ drop (Suc i) (r_maps r)\<rparr>)
     else if e_at q < ad \<and> en < e_end q then
       bnd (moved_off en q) (\<lambda>off.
       bnd (set_map i (q\<lparr>e_end := ad\<rparr>)) (\<lambda>_.
       modify (\<lambda>r. r\<lparr>r_maps := r_maps r @ [q\<lparr>e_at := en, e_off := off\<rparr>]\<rparr>)))
     else if ad \<le> e_at q \<and> e_at q < en then
       bnd (set_map i (q\<lparr>e_at := en\<rparr>)) (\<lambda>_.
       bnd (moved_off en q) (\<lambda>off. set_map i (q\<lparr>e_at := en, e_off := off\<rparr>)))
     else if ad < e_end q \<and> e_end q \<le> en then set_map i (q\<lparr>e_end := ad\<rparr>)
     else ret ()))"

fun unmap_down :: "int \<Rightarrow> int \<Rightarrow> nat \<Rightarrow> (rv, unit) kop" where
  "unmap_down ad en 0 = ret ()"
| "unmap_down ad en (Suc i) = bnd (unmap_one ad en i) (\<lambda>_. unmap_down ad en i)"

definition unmap :: "int \<Rightarrow> int \<Rightarrow> int \<Rightarrow> (host, unit) kop" where
  "unmap now at0 len =
     (let ad = at0 AND - PAGE; en = al (at0 + len) in
      bnd (nat_in SAFE (en - ad)) (\<lambda>z.
      bnd (flushShared now ad (int z)) (\<lambda>_.
      bnd (asks (\<lambda>h. length (r_maps (h_rv h)))) (\<lambda>n.
      on_rv (unmap_down ad en n)))))"

section \<open>Mappings\<close>

definition hits :: "map_ent list \<Rightarrow> int \<Rightarrow> int \<Rightarrow> bool" where
  "hits ms ad z \<longleftrightarrow> (\<exists>q \<in> set ms. ad < e_end q \<and> e_at q < ad + z)"

text \<open>A step of the search ends nearer to the end of the last mapping.\<close>

definition last_end :: "map_ent list \<Rightarrow> int" where "last_end ms = fold (\<lambda>q. max (e_end q)) ms 0"

lemma al_div: "al n = (n + 4095) div 4096 * 4096"
proof -
  have "- PAGE = NOT (mask 12)" by (simp add: PAGE_def mask_eq_exp_minus_1 not_int_def)
  moreover have "x AND NOT (mask 12) = x div 4096 * 4096" for x :: int
  proof -
    have "x AND NOT (mask 12) = push_bit 12 (drop_bit 12 x)"
      by (rule bit_eqI) (auto simp: bit_and_iff bit_not_iff bit_mask_iff bit_push_bit_iff bit_drop_bit_eq)
    then show ?thesis by (simp add: push_bit_eq_mult drop_bit_eq_div)
  qed
  ultimately show ?thesis by (simp add: al_def PAGE_def)
qed

lemma al_bounds: "n \<le> al n" "al n < n + 4096" "al n mod 4096 = 0"
proof -
  have "al n = n + 4095 - (n + 4095) mod 4096" by (simp add: al_div minus_mod_eq_div_mult)
  then show "n \<le> al n" "al n < n + 4096"
    using pos_mod_bound [of 4096 "n + 4095"] pos_mod_sign [of 4096 "n + 4095"] by linarith+
  show "al n mod 4096 = 0" by (simp add: al_div)
qed

lemma last_end_le: "q \<in> set ms \<Longrightarrow> e_end q \<le> last_end ms"
proof -
  have "a \<le> fold (\<lambda>q. max (e_end q)) ms a \<and> (\<forall>q \<in> set ms. e_end q \<le> fold (\<lambda>q. max (e_end q)) ms a)" for a
  proof (induction ms arbitrary: a)
    case (Cons m ms)
    have "max (e_end m) a \<le> fold (\<lambda>q. max (e_end q)) ms (max (e_end m) a)" using Cons.IH by blast
    then show ?case using Cons.IH [of "max (e_end m) a"] by simp
  qed simp
  then show "q \<in> set ms \<Longrightarrow> e_end q \<le> last_end ms" by (simp add: last_end_def)
qed

function find_gap :: "map_ent list \<Rightarrow> int \<Rightarrow> int \<Rightarrow> int" where
  "find_gap ms ad z = (if hits ms ad z then find_gap ms (al (ad + 16 * MB)) z else ad)"
  by auto
termination
proof (relation "measure (\<lambda>(ms, ad, z). nat (last_end ms - ad))")
  fix ms ad z assume "hits ms ad z"
  then obtain q where "q \<in> set ms" "ad < e_end q" by (auto simp: hits_def)
  then have "ad < last_end ms" using last_end_le by fastforce
  moreover have "ad < al (ad + 16 * MB)" using al_bounds(1) [of "ad + 16 * MB"] by (simp add: MB_def)
  ultimately show "((ms, al (ad + 16 * MB), z), ms, ad, z) \<in> measure (\<lambda>(ms, ad, z). nat (last_end ms - ad))" by simp
qed simp

declare find_gap.simps [simp del]

text \<open>The address of a new mapping: the one asked for, or a gap.\<close>

definition place :: "rv \<Rightarrow> int \<Rightarrow> int \<Rightarrow> nat \<Rightarrow> errno + int" where
  "place r addr z flags =
     (let fixed = flags AND 0x10 \<noteq> 0;
          ad = (if fixed then ux addr else if addr \<noteq> 0 then al (ux addr) else r_mapAt r)
      in if ad < al (r_floor r) \<or> r_stackAt r \<le> ad + z + MB \<or> hits (r_maps r) ad z then
           (if fixed then Inl ENOMEM
            else let ad = find_gap (r_maps r) (r_mapAt r) z in
              if r_stackAt r \<le> ad + z + MB then Inl ENOMEM else Inr ad)
         else Inr ad)"

definition map_file :: "int \<Rightarrow> int \<Rightarrow> nat \<Rightarrow> int \<Rightarrow> int \<Rightarrow> (host, string option \<times> int option) kop" where
  "map_file now ad z0 fd0 off0 =
     bnd (nat_in 0x7fffffff fd0) (\<lambda>fd.
     bnd (on_kern (\<lambda>pid. file_fd pid (int fd))) (\<lambda>(_, path).
     bnd (nat_in SAFE off0) (\<lambda>off.
     bnd (on_kern (\<lambda>pid. sys_readb now pid path)) (\<lambda>b.
     bnd (on_rv (on_mem (mem_write ad (take z0 (drop off b))))) (\<lambda>_.
     ret (Some path, Some (int off)))))))"

definition push_map :: "map_ent \<Rightarrow> rv \<Rightarrow> rv" where
  "push_map q r = r\<lparr>r_maps := r_maps r @ [q], r_mapAt := (if r_mapAt r < e_end q then al (e_end q) else r_mapAt r)\<rparr>"

definition mmap :: "int \<Rightarrow> int \<Rightarrow> int \<Rightarrow> int \<Rightarrow> int \<Rightarrow> int \<Rightarrow> int \<Rightarrow> (host, int) kop" where
  "mmap now addr len0 prot0 flags0 fd0 off0 =
     bnd (nat_in SAFE len0) (\<lambda>z0. let z = al (int z0) in
     bnd (check (z \<noteq> 0) EINVAL) (\<lambda>_.
     bnd (nat_in 7 prot0) (\<lambda>prot.
     bnd (nat_in 0x7fffffff flags0) (\<lambda>flags.
     bnd (asks (\<lambda>h. place (h_rv h) addr z flags)) (\<lambda>p.
     bnd (of_result p) (\<lambda>ad.
     bnd (if flags AND 0x20 = 0 \<and> 0 \<le> fd0 then map_file now ad z0 fd0 off0 else ret (None, None)) (\<lambda>(path, off).
     bnd (on_rv (modify (push_map
            \<lparr>e_at = ad, e_end = ad + z, e_prot = prot, e_shared = flags AND 1 \<noteq> 0, e_path = path, e_off = off\<rparr>))) (\<lambda>_.
     ret ad))))))))"

text \<open>\<open>mremap\<close>: only whole mappings; they shrink, grow in place, or move.\<close>

definition copy_mem :: "int \<Rightarrow> int \<Rightarrow> nat \<Rightarrow> (rv, unit) kop" where
  "copy_mem old to n =
     bnd (mapk (\<lambda>i. let k = 65536 * i; z = min 65536 (n - k) in
            bnd (on_mem (mem_read (old + int k) z)) (\<lambda>b. on_mem (mem_write (to + int k) b)))
          [0..<(n + 65535) div 65536]) (\<lambda>_. ret ())"

definition set_end :: "nat \<Rightarrow> int \<Rightarrow> rv \<Rightarrow> rv" where
  "set_end i en r = r\<lparr>r_maps := (r_maps r)[i := (r_maps r ! i)\<lparr>e_end := en\<rparr>]\<rparr>"

definition grows_into :: "map_ent list \<Rightarrow> nat \<Rightarrow> int \<Rightarrow> int \<Rightarrow> bool" where
  "grows_into ms i old en \<longleftrightarrow> (\<exists>j < length ms. j \<noteq> i \<and> old < e_end (ms ! j) \<and> e_at (ms ! j) < en)"

definition map_index :: "map_ent list \<Rightarrow> int \<Rightarrow> int \<Rightarrow> nat option" where
  "map_index ms ad en = find (\<lambda>i. e_at (ms ! i) = ad \<and> e_end (ms ! i) = en) [0..<length ms]"

definition move_map :: "int \<Rightarrow> int \<Rightarrow> nat \<Rightarrow> nat \<Rightarrow> int \<Rightarrow> nat \<Rightarrow> (host, int) kop" where
  "move_map now old on nn nz i =
     bnd (asks (\<lambda>h. e_prot (r_maps (h_rv h) ! i))) (\<lambda>prot.
     bnd (mmap now 0 nz (int prot) 0x22 (- 1) 0) (\<lambda>to.
     bnd (catch (on_rv (copy_mem old to (min on nn))) (\<lambda>e. bnd (unmap now to (int nn)) (\<lambda>_. bad e))) (\<lambda>_.
     bnd (unmap now old (int on)) (\<lambda>_. ret to))))"

definition remap :: "int \<Rightarrow> int \<Rightarrow> int \<Rightarrow> int \<Rightarrow> int \<Rightarrow> int \<Rightarrow> (host, int) kop" where
  "remap now old0 oz0 nz0 fl0 fixed0 =
     (let old = ux old0 in
      bnd (nat_in SAFE oz0) (\<lambda>on.
      bnd (nat_in SAFE nz0) (\<lambda>nn. let oz = al (int on); nz = al (int nn) in
      bnd (nat_in 3 fl0) (\<lambda>fl.
      bnd (check (on \<noteq> 0 \<and> nn \<noteq> 0 \<and> old AND (PAGE - 1) = 0 \<and> fl AND 2 = 0) EINVAL) (\<lambda>_.
      bnd (check (fixed0 = 0) EINVAL) (\<lambda>_.
      bnd (asks (\<lambda>h. map_index (r_maps (h_rv h)) old (old + oz))) (\<lambda>x.
      bnd (of_option EINVAL x) (\<lambda>i.
      if nz = oz then ret old
      else if nz < oz then
        bnd (nat_in SAFE (oz - nz)) (\<lambda>d.
        bnd (flushShared now (old + nz) (int d)) (\<lambda>_.
        bnd (on_rv (on_mem (mem_drop (old + nz) d))) (\<lambda>_.
        bnd (on_rv (modify (set_end i (old + nz)))) (\<lambda>_. ret old))))
      else
        bnd (asks (\<lambda>h. \<not> grows_into (r_maps (h_rv h)) i old (old + nz) \<and> old + nz + MB < r_stackAt (h_rv h))) (\<lambda>fits.
        if fits then
          bnd (on_rv (modify (\<lambda>r. (set_end i (old + nz) r)
                 \<lparr>r_mapAt := (if r_mapAt r < old + nz then al (old + nz) else r_mapAt r)\<rparr>))) (\<lambda>_. ret old)
        else bnd (check (fl AND 1 \<noteq> 0) ENOMEM) (\<lambda>_. move_map now old on nn nz i))))))))))"

end
