(* ===== verification/RvSys.thy ===== *)
theory RvSys
  imports RvMap
begin

text \<open>
  The calls of the system that a guest program makes (\<open>sys\<close> and \<open>call\<close> of \<^verbatim>\<open>src/src/vm/rv64.ts\<close>, with the methods of
  \<open>Sys\<close> in \<^verbatim>\<open>src/src/core/sys.ts\<close> that they use): arguments from registers and memory, the operation on the kernel,
  results to memory and register 10, errors as negative numbers.

  Strings are those of the file system's model: the characters up to 255. \<open>decode\<close> decodes UTF-8 for them; what
  \<open>TextDecoder\<close> makes of other bytes is the parameter \<open>w_dec\<close>. The time, the contents that the source of a
  lazy file delivers, the order of names, the clocks, the random bytes, the limits and names of the system, and whether a signal arrives while the
  program sleeps are parameters too.

  A call is one step. The model leaves open (\<open>leave\<close>) what happens when a call waits for others, at a pipe that is empty and not shut or
  for a child that has not ended; at streams that are not pipes, terminals among them; at a file whose source delivers another number of bytes than it
  promised; at a time outside the range of exact numbers; at \<open>pwrite\<close> before the start of a file; and in \<open>clone\<close> and
  \<open>execve\<close>. Then \<open>sys\<close> has no result. (The first call of \<open>clone\<close> being left open, the branch
  \<open>vfExit\<close> of \<open>exit\<close>, which ends the child that it makes, is not reached.) The log of unknown calls is not kept. Places in files are exact
  integers (the code's are exact up to 2^53), times to wait are exact (the code's are doubles), and the host has room for every array.
\<close>

section \<open>Arguments\<close>

record world =
  w_now :: int
  w_dec :: "u8 list \<Rightarrow> string"
  w_load :: "reg \<Rightarrow> u8 list"
  w_up :: int
  w_ms :: int
  w_rand :: "nat \<Rightarrow> u8"
  w_le :: "string \<Rightarrow> string \<Rightarrow> bool"
  w_mem :: int
  w_stack :: int
  w_name :: string
  w_host :: string
  w_rel :: string
  w_intr :: bool
  w_age :: "int \<Rightarrow> int"

definition leave :: "(host, 'a) kop" where
  "leave = bnd (modify (\<lambda>h. h\<lparr>h_left := True\<rparr>)) (\<lambda>_. bad EIO)"

definition arg :: "nat \<Rightarrow> (host, int) kop" where "arg n = asks (\<lambda>h. xr n (h_rv h))"

definition MAX_IO :: int where "MAX_IO = 67108864"

definition num_in :: "int \<Rightarrow> ('s, int) kop" where
  "num_in n = bnd (check (\<not> (n < - SAFE \<or> SAFE < n)) ERANGE) (\<lambda>_. ret n)"

definition fd_in_arg :: "int \<Rightarrow> (host, int) kop" where
  "fd_in_arg n = bnd (nat_in 0x7fffffff n) (\<lambda>k. ret (int k))"

definition owner :: "int \<Rightarrow> ('s, int) kop" where
  "owner n = (let q = ux n in
     if q = 0xffffffff then bad EINVAL else if q > 0xffffffff then bad ERANGE else ret q)"

definition idOrKeep :: "int \<Rightarrow> ('s, int option) kop" where
  "idOrKeep n = (let v = ux n in
     if v = 0xffffffff \<or> v = 2 ^ 64 - 1 then ret None else bnd (owner n) (\<lambda>q. ret (Some q)))"

definition addrPtr :: "int \<Rightarrow> ('s, int) kop" where
  "addrPtr n = bnd (check (n \<noteq> 0) EFAULT) (\<lambda>_. ret (ux n))"

text \<open>Strings.\<close>

fun latin :: "u8 list \<Rightarrow> string option" where
  "latin [] = Some []"
| "latin (b # bs) =
     (if b < 0x80 then map_option ((#) (char_of (unat b))) (latin bs)
      else case bs of
        c # cs \<Rightarrow> if (b = 0xc2 \<or> b = 0xc3) \<and> 0x80 \<le> c \<and> c < 0xc0
                   then map_option ((#) (char_of (unat ((b AND 3) * 64 + (c AND 63))))) (latin cs)
                   else None
      | [] \<Rightarrow> None)"

definition enc_char :: "char \<Rightarrow> u8 list" where
  "enc_char c = (let n = (of_char c :: nat) in
     if n < 128 then [of_nat n] else [0xc0 + of_nat (n div 64), 0x80 + of_nat (n mod 64)])"

definition enc :: "string \<Rightarrow> u8 list" where "enc s = concat (map enc_char s)"

definition decode :: "world \<Rightarrow> u8 list \<Rightarrow> string" where
  "decode w bs = (case latin bs of Some s \<Rightarrow> s | None \<Rightarrow> w_dec w bs)"

fun str_from :: "nat \<Rightarrow> int \<Rightarrow> (rv, u8 list) kop" where
  "str_from 0 ad = bad ENAMETOOLONG"
| "str_from (Suc n) ad =
     bnd (mem_chk ad 1 False) (\<lambda>_.
     bnd (on_mem (mem_u8 ad)) (\<lambda>x.
     if x = 0 then ret [] else bnd (str_from n (ad + 1)) (\<lambda>bs. ret (x # bs))))"

definition str :: "world \<Rightarrow> int \<Rightarrow> (host, string) kop" where
  "str w n = bnd (on_rv (str_from 65536 (ux n))) (\<lambda>bs. ret (decode w bs))"

text \<open>Bytes to the program's memory.\<close>

definition guest_put :: "int \<Rightarrow> u8 list \<Rightarrow> (host, unit) kop" where
  "guest_put ad b = bnd (on_rv (mem_chk ad (length b) True)) (\<lambda>_. on_rv (on_mem (mem_write ad b)))"

definition copy_out :: "u8 list \<Rightarrow> int \<Rightarrow> nat \<Rightarrow> bool \<Rightarrow> (host, int) kop" where
  "copy_out b ad n cut0 =
     (let q = (if cut0 then take n b else b) in
      bnd (check (\<not> n < length q) ERANGE) (\<lambda>_.
      bnd (guest_put ad q) (\<lambda>_. ret (int (length q)))))"

section \<open>The process\<close>

definition me :: "(proc \<Rightarrow> 'a) \<Rightarrow> (host, 'a) kop" where
  "me f = asks (\<lambda>h. f (proc_at (h_k h) (h_pid h)))"

definition my_proc :: "(proc, 'a) kop \<Rightarrow> (host, 'a) kop" where
  "my_proc m = on_kern (\<lambda>pid. on_proc pid m)"

text \<open>A call of the file system with the directory and the rights of the process.\<close>

definition my_fs :: "(string \<Rightarrow> cred \<Rightarrow> (vfs, 'a) kop) \<Rightarrow> (host, 'a) kop" where
  "my_fs f = on_kern (\<lambda>pid. bnd (asks (\<lambda>k. proc_at k pid)) (\<lambda>p. on_fs (f (p_cwd p) (procFsCred p))))"

definition my_mask :: "u32 \<Rightarrow> (host, u32) kop" where "my_mask mode = me (\<lambda>p. masked p mode)"

definition fd_of :: "int \<Rightarrow> (host, fd) kop" where "fd_of n = on_kern (\<lambda>pid. get_fd pid n)"

definition fd_path_of :: "int \<Rightarrow> (host, string) kop" where
  "fd_path_of n = bnd (on_kern (\<lambda>pid. file_fd pid n)) (\<lambda>(_, p). ret p)"

definition set_clo :: "int \<Rightarrow> bool \<Rightarrow> (host, unit) kop" where
  "set_clo n b = on_kern (\<lambda>pid. bnd (get_fd pid n) (\<lambda>f. modify (set_fd pid n (f\<lparr>fd_clo := b\<rparr>))))"

text \<open>\<open>path\<close>: a name relative to a descriptor, or to the current directory.\<close>

definition path_arg :: "world \<Rightarrow> int \<Rightarrow> string \<Rightarrow> (host, string) kop" where
  "path_arg w fd0 p =
     (if absolute p then ret (norm p ''/'')
      else bnd (num_in fd0) (\<lambda>fd.
        if fd = -100 then bnd (me p_cwd) (\<lambda>cwd. ret (norm p cwd))
        else bnd (fd_path_of fd) (\<lambda>base.
          bnd (my_fs (\<lambda>cwd c. stat (w_now w) base cwd c True)) (\<lambda>s.
          bnd (check (st_kind s = Dir_kind) ENOTDIR) (\<lambda>_.
          ret (norm p base))))))"

text \<open>Register \<open>i\<close> is the directory, register \<open>Suc i\<close> the name.\<close>

definition path_at :: "world \<Rightarrow> nat \<Rightarrow> (host, string) kop" where
  "path_at w i =
     bnd (arg i) (\<lambda>fd.
     bnd (arg (Suc i)) (\<lambda>a.
     bnd (str w a) (path_arg w fd)))"

definition nat_reg :: "nat \<Rightarrow> int \<Rightarrow> (host, nat) kop" where
  "nat_reg i hi = bnd (arg i) (nat_in hi)"

definition fd_reg :: "nat \<Rightarrow> (host, int) kop" where
  "fd_reg i = bnd (arg i) fd_in_arg"

definition str_reg :: "world \<Rightarrow> nat \<Rightarrow> (host, string) kop" where
  "str_reg w i = bnd (arg i) (str w)"

definition addr_reg :: "nat \<Rightarrow> (host, int) kop" where
  "addr_reg i = bnd (arg i) (\<lambda>a. ret (ux a))"

section \<open>Names\<close>

definition sys_stat :: "world \<Rightarrow> string \<Rightarrow> bool \<Rightarrow> (host, st) kop" where
  "sys_stat w p follow = my_fs (\<lambda>cwd c. stat (w_now w) p cwd c follow)"

definition call_mkdirat :: "world \<Rightarrow> (host, int) kop" where
  "call_mkdirat w =
     bnd (path_at w 10) (\<lambda>p.
     bnd (nat_reg 12 0xffff) (\<lambda>mode.
     bnd (my_mask (of_nat mode)) (\<lambda>m.
     bnd (my_fs (\<lambda>cwd c. mkdir (w_now w) p cwd c m)) (\<lambda>_. ret 0))))"

definition call_unlinkat :: "world \<Rightarrow> (host, int) kop" where
  "call_unlinkat w =
     bnd (path_at w 10) (\<lambda>p.
     bnd (nat_reg 12 0xffff) (\<lambda>fl.
     bnd (my_fs (\<lambda>cwd c. Vfs.rm (w_now w) p cwd c (fl AND 0x200 \<noteq> 0))) (\<lambda>_. ret 0)))"

definition call_symlinkat :: "world \<Rightarrow> (host, int) kop" where
  "call_symlinkat w =
     bnd (str_reg w 10) (\<lambda>to.
     bnd (path_at w 11) (\<lambda>p.
     bnd (my_fs (\<lambda>cwd c. symlink (w_now w) to p cwd c)) (\<lambda>_. ret 0)))"

definition call_linkat :: "world \<Rightarrow> (host, int) kop" where
  "call_linkat w =
     bnd (path_at w 10) (\<lambda>a.
     bnd (path_at w 12) (\<lambda>b.
     bnd (my_fs (\<lambda>cwd c. link (w_now w) a b cwd c)) (\<lambda>_. ret 0)))"

definition call_renameat :: "world \<Rightarrow> (host, int) kop" where
  "call_renameat w =
     bnd (path_at w 10) (\<lambda>a.
     bnd (path_at w 12) (\<lambda>b.
     bnd (my_fs (\<lambda>cwd c. rename (w_now w) a b cwd c)) (\<lambda>_. ret 0)))"

definition call_renameat2 :: "world \<Rightarrow> (host, int) kop" where
  "call_renameat2 w =
     bnd (nat_reg 14 0xffffffff) (\<lambda>fl.
     bnd (check (fl \<le> 1) EINVAL) (\<lambda>_.
     bnd (path_at w 10) (\<lambda>a.
     bnd (path_at w 12) (\<lambda>b.
     bnd (if fl = 1
          then bnd (catch (bnd (sys_stat w b False) (\<lambda>_. ret True)) (\<lambda>e. if e = ENOENT then ret False else bad e))
                 (\<lambda>ex. check (\<not> ex) EEXIST)
          else ret ()) (\<lambda>_.
     bnd (my_fs (\<lambda>cwd c. rename (w_now w) a b cwd c)) (\<lambda>_. ret 0))))))"

definition call_faccessat :: "world \<Rightarrow> (host, int) kop" where
  "call_faccessat w = bnd (path_at w 10) (\<lambda>p. bnd (sys_stat w p True) (\<lambda>_. ret 0))"

text \<open>\<open>cd\<close>: the directory and the variables that name it.\<close>

definition env_set :: "string \<Rightarrow> string \<Rightarrow> (string \<times> string) list \<Rightarrow> (string \<times> string) list" where
  "env_set k v e = ent_set k v e"

definition sys_cd :: "world \<Rightarrow> string \<Rightarrow> (host, unit) kop" where
  "sys_cd w p =
     bnd (on_kern (\<lambda>pid. file_at (w_now w) pid p)) (\<lambda>(i, path).
     bnd (asks (\<lambda>h. is_dir (k_fs (h_k h)) i)) (\<lambda>d.
     bnd (check d ENOTDIR) (\<lambda>_.
     bnd (on_kern (\<lambda>pid. fs_need pid i 1)) (\<lambda>_.
     my_proc (modify (\<lambda>q. q\<lparr>p_env := env_set ''PWD'' path (env_set ''OLDPWD'' (p_cwd q) (p_env q)), p_cwd := path\<rparr>))))))"

definition call_chdir :: "world \<Rightarrow> (host, int) kop" where
  "call_chdir w = bnd (str_reg w 10) (\<lambda>p. bnd (sys_cd w p) (\<lambda>_. ret 0))"

definition call_fchdir :: "world \<Rightarrow> (host, int) kop" where
  "call_fchdir w = bnd (fd_reg 10) (\<lambda>n. bnd (fd_path_of n) (\<lambda>p. bnd (sys_cd w p) (\<lambda>_. ret 0)))"

definition call_fchmod :: "world \<Rightarrow> (host, int) kop" where
  "call_fchmod w =
     bnd (fd_reg 10) (\<lambda>n.
     bnd (fd_path_of n) (\<lambda>p.
     bnd (nat_reg 11 0xffff) (\<lambda>mode.
     bnd (my_fs (\<lambda>cwd c. chmod (w_now w) p (of_nat mode) cwd c)) (\<lambda>_. ret 0))))"

definition call_fchmodat :: "world \<Rightarrow> (host, int) kop" where
  "call_fchmodat w =
     bnd (path_at w 10) (\<lambda>p.
     bnd (nat_reg 12 0xffff) (\<lambda>mode.
     bnd (my_fs (\<lambda>cwd c. chmod (w_now w) p (of_nat mode) cwd c)) (\<lambda>_. ret 0)))"

definition owner_reg :: "nat \<Rightarrow> (host, int) kop" where
  "owner_reg i = bnd (arg i) owner"

definition call_fchownat :: "world \<Rightarrow> (host, int) kop" where
  "call_fchownat w =
     bnd (path_at w 10) (\<lambda>p.
     bnd (owner_reg 12) (\<lambda>u.
     bnd (owner_reg 13) (\<lambda>g.
     bnd (my_fs (\<lambda>cwd c. chown (w_now w) p u g cwd c)) (\<lambda>_. ret 0))))"

definition call_fchown :: "world \<Rightarrow> (host, int) kop" where
  "call_fchown w =
     bnd (fd_reg 10) (\<lambda>n.
     bnd (fd_path_of n) (\<lambda>p.
     bnd (owner_reg 11) (\<lambda>u.
     bnd (owner_reg 12) (\<lambda>g.
     bnd (my_fs (\<lambda>cwd c. chown (w_now w) p u g cwd c)) (\<lambda>_. ret 0)))))"

definition call_getcwd :: "(host, int) kop" where
  "call_getcwd =
     bnd (me p_cwd) (\<lambda>cwd.
     bnd (addr_reg 10) (\<lambda>a.
     bnd (nat_reg 11 MAX_IO) (\<lambda>n.
     copy_out (enc cwd @ [0]) a n False)))"

definition call_readlinkat :: "world \<Rightarrow> (host, int) kop" where
  "call_readlinkat w =
     bnd (path_at w 10) (\<lambda>p.
     bnd (my_fs (\<lambda>cwd c. readlink (w_now w) p cwd c)) (\<lambda>to.
     bnd (addr_reg 12) (\<lambda>a.
     bnd (nat_reg 13 MAX_IO) (\<lambda>n.
     copy_out (enc to) a n True))))"

section \<open>Descriptors\<close>

definition sys_trunc :: "world \<Rightarrow> string \<Rightarrow> nat \<Rightarrow> (host, unit) kop" where
  "sys_trunc w p z =
     bnd (on_kern (\<lambda>pid. sys_readb (w_now w) pid p)) (\<lambda>b.
     on_kern (\<lambda>pid. sys_writeb (w_now w) pid p (take z b @ replicate (z - length b) 0) False 0x1b6))"

definition len_reg :: "nat \<Rightarrow> (host, nat) kop" where
  "len_reg i = bnd (asks (\<lambda>h. vcap (k_fs (h_k h)))) (\<lambda>cap. nat_reg i (int cap))"

definition call_truncate :: "world \<Rightarrow> (host, int) kop" where
  "call_truncate w = bnd (str_reg w 10) (\<lambda>p. bnd (len_reg 11) (\<lambda>z. bnd (sys_trunc w p z) (\<lambda>_. ret 0)))"

definition call_ftruncate :: "world \<Rightarrow> (host, int) kop" where
  "call_ftruncate w =
     bnd (fd_reg 10) (\<lambda>n.
     bnd (fd_path_of n) (\<lambda>p.
     bnd (len_reg 11) (\<lambda>z.
     bnd (sys_trunc w p z) (\<lambda>_. ret 0))))"

text \<open>\<open>openat\<close>: the attempt on a name that exists gives the descriptor of a directory, or nothing when a file is
  to be opened. A lazy file is loaded; delivery of a wrong number of bytes is an exception of another kind.\<close>

definition sys_materialise :: "world \<Rightarrow> string \<Rightarrow> (host, unit) kop" where
  "sys_materialise w p =
     bnd (on_kern (\<lambda>pid. file_at (w_now w) pid p)) (\<lambda>(i, _).
     bnd (on_kern (\<lambda>pid. fs_need pid i 4)) (\<lambda>_.
     bnd (asks (\<lambda>h. n_body (node (k_fs (h_k h)) i))) (\<lambda>b.
     case b of
       Reg r \<Rightarrow> (case materialise (w_load w r) r of
           Some q \<Rightarrow> on_kern (\<lambda>_. on_fs (set_reg i q))
         | None \<Rightarrow> leave)
     | _ \<Rightarrow> bad EISDIR)))"

definition has_flag :: "u32 \<Rightarrow> u32 \<Rightarrow> bool" where "has_flag fl b \<longleftrightarrow> fl AND b \<noteq> 0"

definition open_try :: "world \<Rightarrow> string \<Rightarrow> u32 \<Rightarrow> (host, int option) kop" where
  "open_try w path fl =
     bnd (sys_stat w path True) (\<lambda>s.
     if st_kind s = Dir_kind then
       bnd (check (\<not> (fl AND 3 \<noteq> 0 \<or> has_flag fl 0x240)) EISDIR) (\<lambda>_.
       bnd (on_kern (\<lambda>pid. sys_openDir (w_now w) pid path)) (\<lambda>n.
       bnd (set_clo n (has_flag fl 0x80000)) (\<lambda>_. ret (Some n))))
     else
       bnd (check (\<not> has_flag fl 0x10000) ENOTDIR) (\<lambda>_.
       bnd (check (\<not> (has_flag fl 0x40 \<and> has_flag fl 0x80)) EEXIST) (\<lambda>_.
       bnd (sys_materialise w path) (\<lambda>_. ret None))))"

definition open_kind :: "u32 \<Rightarrow> string" where
  "open_kind fl =
     (let plus = (fl AND 3 = 2); wr = (fl AND 3 = 1 \<or> plus) in
      if has_flag fl 0x400 then (if plus then ''a+'' else ''a'')
      else if plus then (if has_flag fl 0x200 then ''w+'' else ''r+'')
      else if wr then (if has_flag fl 0x200 then ''w'' else ''ow'')
      else ''r'')"

definition openat :: "world \<Rightarrow> int \<Rightarrow> string \<Rightarrow> u32 \<Rightarrow> u32 \<Rightarrow> (host, int) kop" where
  "openat w fd0 p fl mode =
     bnd (path_arg w fd0 p) (\<lambda>path.
     bnd (check (fl AND 3 \<noteq> 3) EINVAL) (\<lambda>_.
     let m = (if mode = 0 then 0x1b6 else mode) in
     bnd (catch (bnd (open_try w path fl) (\<lambda>d. ret (d, False)))
            (\<lambda>e. if e \<noteq> ENOENT \<or> \<not> has_flag fl 0x40 \<or> has_flag fl 0x10000 then bad e
                 else bnd (on_kern (\<lambda>pid. sys_mkfile (w_now w) pid path [] m)) (\<lambda>_. ret (None, True)))) (\<lambda>(d, made).
     case d of Some n \<Rightarrow> ret n | None \<Rightarrow>
     bnd (if \<not> made \<and> has_flag fl 0x200 \<and> (fl AND 3 = 1 \<or> fl AND 3 = 2)
          then on_kern (\<lambda>pid. sys_writeb (w_now w) pid path [] False 0x1b6) else ret ()) (\<lambda>_.
     bnd (on_kern (\<lambda>pid. sys_open (w_now w) pid path (open_kind fl) m)) (\<lambda>n.
     bnd (set_clo n (has_flag fl 0x80000)) (\<lambda>_. ret n))))))"

definition call_openat :: "world \<Rightarrow> (host, int) kop" where
  "call_openat w =
     bnd (arg 10) (\<lambda>fd.
     bnd (str_reg w 11) (\<lambda>p.
     bnd (nat_reg 12 0xffffffff) (\<lambda>fl.
     bnd (nat_reg 13 0xffff) (\<lambda>mode.
     openat w fd p (of_nat fl) (of_nat mode)))))"

definition call_close :: "(host, int) kop" where
  "call_close =
     bnd (fd_reg 10) (\<lambda>n.
     bnd (modify (\<lambda>h. h\<lparr>h_socks := filter (\<lambda>q. q \<noteq> n) (h_socks h)\<rparr>)) (\<lambda>_.
     bnd (on_kern (\<lambda>pid. sys_close pid n)) (\<lambda>_. ret 0)))"

text \<open>Numbers in memory: places from an address, with their widths in bytes and their values.\<close>

definition put_fields :: "int \<Rightarrow> (int \<times> nat \<times> int) list \<Rightarrow> (host, unit) kop" where
  "put_fields ad fs = bnd (mapk (\<lambda>(o1, z, v). on_rv (on_mem (mem_setN (ad + o1) v z))) fs) (\<lambda>_. ret ())"

definition guest_chk :: "int \<Rightarrow> nat \<Rightarrow> bool \<Rightarrow> (host, unit) kop" where
  "guest_chk ad n wr = on_rv (mem_chk ad n wr)"

definition call_pipe2 :: "(host, int) kop" where
  "call_pipe2 =
     bnd (addr_reg 10) (\<lambda>a.
     bnd (nat_reg 11 0xffffffff) (\<lambda>fl.
     bnd (guest_chk a 8 True) (\<lambda>_.
     bnd (check ((of_nat fl :: u32) AND NOT 0x80800 = 0) EINVAL) (\<lambda>_.
     bnd (on_kern sys_pipe) (\<lambda>(rd, wr).
     bnd (if has_flag (of_nat fl) 0x80000 then bnd (set_clo rd True) (\<lambda>_. set_clo wr True) else ret ()) (\<lambda>_.
     bnd (put_fields a [(0, 4, rd), (4, 4, wr)]) (\<lambda>_. ret 0)))))))"

text \<open>\<open>dup\<close>, \<open>dup3\<close>, \<open>fcntl\<close>; a copy of a socket is one.\<close>

definition sock_copy :: "int \<Rightarrow> int \<Rightarrow> (host, unit) kop" where
  "sock_copy old n = modify (\<lambda>h. if old \<in> set (h_socks h) then h\<lparr>h_socks := List.insert n (h_socks h)\<rparr> else h)"

definition call_dup :: "(host, int) kop" where
  "call_dup = bnd (fd_reg 10) (\<lambda>n. on_kern (\<lambda>pid. clone_fd pid n None))"

definition call_dup3 :: "(host, int) kop" where
  "call_dup3 =
     bnd (fd_reg 10) (\<lambda>old.
     bnd (fd_reg 11) (\<lambda>nu.
     bnd (nat_reg 12 0xffffffff) (\<lambda>fl.
     bnd (check (\<not> (old = nu \<or> (of_nat fl :: u32) AND NOT 0x80000 \<noteq> 0)) EINVAL) (\<lambda>_.
     bnd (on_kern (\<lambda>pid. clone_fd pid old (Some nu))) (\<lambda>n.
     bnd (set_clo n (has_flag (of_nat fl) 0x80000)) (\<lambda>_.
     bnd (sock_copy old n) (\<lambda>_. ret n)))))))"

definition call_fcntl :: "(host, int) kop" where
  "call_fcntl =
     bnd (fd_reg 10) (\<lambda>n.
     bnd (nat_reg 11 0x7fffffff) (\<lambda>cmd.
     bnd (arg 12) (\<lambda>a.
     bnd (on_kern (\<lambda>pid. sys_fcntl pid n (int cmd) a)) (\<lambda>q.
     bnd (if cmd = 0 \<or> cmd = 1030 then sock_copy n q else ret ()) (\<lambda>_. ret q)))))"

section \<open>Contents\<close>

text \<open>\<open>getdents\<close>: as many entries as the buffer takes, each padded to eight bytes; the place of the descriptor is the number
  of the next entry.\<close>

fun kind_byte :: "kind \<Rightarrow> u8" where
  "kind_byte Dir_kind = 4"
| "kind_byte File_kind = 8"
| "kind_byte Link_kind = 10"
| "kind_byte Char_kind = 2"

definition dirent :: "nat \<Rightarrow> nat \<Rightarrow> kind \<Rightarrow> string \<Rightarrow> u8 list" where
  "dirent inr k kd name =
     (let b = enc name @ [0]; z = (19 + length b + 7) div 8 * 8 in
      int_bytes 8 (int inr) @ int_bytes 8 (int k + 1) @ int_bytes 2 (int z) @ [kind_byte kd] @ b @ replicate (z - 19 - length b) 0)"

fun dents :: "vfs \<Rightarrow> nat \<Rightarrow> nat \<Rightarrow> (string \<times> ino) list \<Rightarrow> u8 list \<times> nat" where
  "dents fs room k [] = ([], 0)"
| "dents fs room k ((name, i) # es) =
     (let e = dirent (i + 1) k (body_kind (n_body (node fs i))) name in
      if room < length e then ([], 0)
      else case dents fs (room - length e) (Suc k) es of (b, c) \<Rightarrow> (e @ b, Suc c))"

definition call_getdents :: "world \<Rightarrow> (host, int) kop" where
  "call_getdents w =
     bnd (fd_reg 10) (\<lambda>n.
     bnd (addr_reg 11) (\<lambda>a.
     bnd (nat_reg 12 MAX_IO) (\<lambda>z.
     bnd (on_kern (\<lambda>pid. file_fd pid n)) (\<lambda>(f, p).
     bnd (my_fs (\<lambda>cwd c. listdir (w_le w) (w_now w) p cwd c)) (\<lambda>es.
     bnd (asks (\<lambda>h. k_fs (h_k h))) (\<lambda>fs.
     let rest = drop (nat (fd_pos f)) es; (b, c) = dents fs z (nat (fd_pos f)) rest in
     bnd (check (rest = [] \<or> c \<noteq> 0) EINVAL) (\<lambda>_.
     bnd (on_kern (\<lambda>pid. set_pos pid n f (fd_pos f + int c))) (\<lambda>_.
     bnd (guest_put a b) (\<lambda>_. ret (int (length b)))))))))))"

definition call_lseek :: "world \<Rightarrow> (host, int) kop" where
  "call_lseek w =
     bnd (fd_reg 10) (\<lambda>n.
     bnd (arg 11) (\<lambda>a.
     bnd (num_in a) (\<lambda>off.
     bnd (nat_reg 12 2) (\<lambda>wh.
     on_kern (\<lambda>pid. sys_seek (w_now w) pid n off wh)))))"

text \<open>Reading a descriptor: a file, or what is left of the last delivery of its stream, or the next delivery. An empty
  pipe that is open makes the program wait.\<close>

definition pipe_next :: "int \<Rightarrow> nat \<Rightarrow> (host, u8 list) kop" where
  "pipe_next n i =
     bnd (asks (\<lambda>h. k_pipes (h_k h) ! i)) (\<lambda>p.
     if pi_q p = [] \<and> \<not> pi_shut p then leave
     else bnd (on_kern (\<lambda>pid. fd_read_pipe pid n 0)) (\<lambda>ds. ret (concat (map snd ds))))"

definition fd_read :: "world \<Rightarrow> int \<Rightarrow> nat \<Rightarrow> (host, u8 list) kop" where
  "fd_read w n z =
     bnd (fd_of n) (\<lambda>f.
     case fd_in f of
       None \<Rightarrow> on_kern (\<lambda>pid. sys_fdr (w_now w) pid n z)
     | Some (Other j) \<Rightarrow> leave
     | Some (Pip i) \<Rightarrow>
         bnd (asks (\<lambda>h. nullish (ent_get (h_ins h) n) [])) (\<lambda>q.
         bnd (if q = [] then pipe_next n i else ret q) (\<lambda>b.
         bnd (modify (\<lambda>h. h\<lparr>h_ins := ent_set n (drop z b) (h_ins h)\<rparr>)) (\<lambda>_. ret (take z b)))))"

definition fd_write :: "world \<Rightarrow> int \<Rightarrow> u8 list \<Rightarrow> (host, nat) kop" where
  "fd_write w n b =
     bnd (fd_of n) (\<lambda>f.
     case fd_out f of
       None \<Rightarrow> on_kern (\<lambda>pid. sys_fdw (w_now w) pid n b)
     | Some (Other j) \<Rightarrow> leave
     | Some (Pip i) \<Rightarrow>
         on_kern (\<lambda>pid. bnd (fd_write_pipe pid n b) (\<lambda>(k, ds).
           bnd (modify (\<lambda>q. q\<lparr>k_woken := k_woken q @ ds\<rparr>)) (\<lambda>_. ret k))))"

definition guest_read :: "int \<Rightarrow> nat \<Rightarrow> (host, u8 list) kop" where
  "guest_read a n = on_rv (on_mem (mem_read a n))"

definition read_to :: "world \<Rightarrow> int \<Rightarrow> int \<Rightarrow> nat \<Rightarrow> (host, nat) kop" where
  "read_to w n a z =
     bnd (guest_chk a z True) (\<lambda>_.
     bnd (fd_read w n z) (\<lambda>b.
     bnd (on_rv (on_mem (mem_write a b))) (\<lambda>_. ret (length b))))"

definition write_from :: "world \<Rightarrow> int \<Rightarrow> int \<Rightarrow> nat \<Rightarrow> (host, nat) kop" where
  "write_from w n a z =
     bnd (guest_chk a z False) (\<lambda>_.
     bnd (guest_read a z) (fd_write w n))"

definition io_call :: "(int \<Rightarrow> int \<Rightarrow> nat \<Rightarrow> (host, nat) kop) \<Rightarrow> int \<Rightarrow> (host, int) kop" where
  "io_call f hi =
     bnd (fd_reg 10) (\<lambda>n.
     bnd (addr_reg 11) (\<lambda>a.
     bnd (nat_reg 12 hi) (\<lambda>z.
     bnd (f n a z) (\<lambda>k. ret (int k)))))"

definition call_read :: "world \<Rightarrow> (host, int) kop" where "call_read w = io_call (read_to w) MAX_IO"
definition call_write :: "world \<Rightarrow> (host, int) kop" where "call_write w = io_call (write_from w) MAX_IO"

text \<open>\<open>readv\<close> and \<open>writev\<close>: a vector of places and lengths, to the first that is not done in full.\<close>

fun vec_io :: "(int \<Rightarrow> nat \<Rightarrow> (host, nat) kop) \<Rightarrow> int \<Rightarrow> nat \<Rightarrow> nat \<Rightarrow> (host, nat) kop" where
  "vec_io f a tot 0 = ret tot"
| "vec_io f a tot (Suc k) =
     bnd (on_rv (on_mem (mem_u64 a))) (\<lambda>p.
     bnd (on_rv (on_mem (mem_i64 (a + 8)))) (\<lambda>zi.
     bnd (nat_in (MAX_IO - int tot) zi) (\<lambda>z.
     bnd (f (uint p) z) (\<lambda>q.
     if q < z then ret (tot + q) else vec_io f (a + 16) (tot + q) k))))"

definition vec_of :: "(int \<Rightarrow> int \<Rightarrow> nat \<Rightarrow> (host, nat) kop) \<Rightarrow> int \<Rightarrow> int \<Rightarrow> nat \<Rightarrow> (host, nat) kop" where
  "vec_of f n a k = bnd (guest_chk a (k * 16) False) (\<lambda>_. vec_io (f n) a 0 k)"

definition call_readv :: "world \<Rightarrow> (host, int) kop" where "call_readv w = io_call (vec_of (read_to w)) 1024"
definition call_writev :: "world \<Rightarrow> (host, int) kop" where "call_writev w = io_call (vec_of (write_from w)) 1024"

text \<open>\<open>pread\<close> and \<open>pwrite\<close>: at another place of the file, which is put back whatever happens. Not modelled: \<open>pwrite\<close> with
  a negative place, which raises an exception of another kind.\<close>

definition finally_pos :: "int \<Rightarrow> int \<Rightarrow> (host, 'a) kop \<Rightarrow> (host, 'a) kop" where
  "finally_pos n old m h = (case m h of
     (v, h1) \<Rightarrow> (v, snd (on_kern (\<lambda>pid. bnd (get_fd pid n) (\<lambda>f. set_pos pid n f old)) h1)))"

definition at_pos :: "int \<Rightarrow> int \<Rightarrow> (host, 'a) kop \<Rightarrow> (host, 'a) kop" where
  "at_pos n off m =
     bnd (fd_of n) (\<lambda>f.
     bnd (on_kern (\<lambda>pid. set_pos pid n f off)) (\<lambda>_. finally_pos n (fd_pos f) m))"

definition pread_to :: "world \<Rightarrow> int \<Rightarrow> int \<Rightarrow> int \<Rightarrow> nat \<Rightarrow> (host, nat) kop" where
  "pread_to w off n a z =
     at_pos n off
       (bnd (on_kern (\<lambda>pid. sys_fdr (w_now w) pid n z)) (\<lambda>b. bnd (guest_put a b) (\<lambda>_. ret (length b))))"

definition pwrite_from :: "world \<Rightarrow> int \<Rightarrow> int \<Rightarrow> int \<Rightarrow> nat \<Rightarrow> (host, nat) kop" where
  "pwrite_from w off n a z =
     (if off < 0 then leave else
      at_pos n off
        (bnd (guest_chk a z False) (\<lambda>_.
         bnd (guest_read a z) (\<lambda>b. on_kern (\<lambda>pid. sys_fdw (w_now w) pid n b)))))"

definition pos_call :: "(int \<Rightarrow> int \<Rightarrow> int \<Rightarrow> nat \<Rightarrow> (host, nat) kop) \<Rightarrow> (host, int) kop" where
  "pos_call f = io_call (\<lambda>n a z. bnd (bnd (arg 13) num_in) (\<lambda>off. f off n a z)) MAX_IO"

definition call_pread :: "world \<Rightarrow> (host, int) kop" where "call_pread w = pos_call (pread_to w)"
definition call_pwrite :: "world \<Rightarrow> (host, int) kop" where "call_pwrite w = pos_call (pwrite_from w)"

text \<open>\<open>ppoll\<close> reports only descriptors that are not open.\<close>

definition poll_one :: "int \<Rightarrow> (host, nat) kop" where
  "poll_one a =
     bnd (on_rv (on_mem (mem_i32 a))) (\<lambda>n.
     bnd (me p_fds) (\<lambda>fds.
     let gone = (0 \<le> n \<and> ent_get fds n = None) in
     bnd (put_fields a [(6, 2, if gone then 0x20 else 0)]) (\<lambda>_.
     ret (if gone then 1 else 0))))"

definition call_ppoll :: "(host, int) kop" where
  "call_ppoll =
     bnd (addr_reg 10) (\<lambda>a.
     bnd (nat_reg 11 1024) (\<lambda>k.
     if k = 0 then ret 0 else
     bnd (guest_chk a (k * 8) True) (\<lambda>_.
     bnd (mapk (\<lambda>i. poll_one (a + 8 * int i)) [0..<k]) (\<lambda>hs. ret (int (sum_list hs))))))"

section \<open>Attributes of files\<close>

text \<open>\<open>putTs\<close>: seconds are rounded down, the rest keeps the sign of the time.\<close>

definition js_mod :: "int \<Rightarrow> int \<Rightarrow> int" where
  "js_mod a b = (if a < 0 then - ((- a) mod b) else a mod b)"

definition ts_fields :: "int \<Rightarrow> int \<Rightarrow> (int \<times> nat \<times> int) list" where
  "ts_fields o1 ms = [(o1, 8, ms div 1000), (o1 + 8, 8, js_mod ms 1000 * 1000000)]"

fun type_bits :: "kind \<Rightarrow> u32" where
  "type_bits File_kind = 0x8000"
| "type_bits Dir_kind = 0x4000"
| "type_bits Link_kind = 0xa000"
| "type_bits Char_kind = 0x2000"

definition stat_fields :: "st \<Rightarrow> (int \<times> nat \<times> int) list" where
  "stat_fields q =
     [(0, 8, 1), (8, 8, int (st_ino q)), (16, 4, uint (type_bits (st_kind q) OR st_mode q)), (20, 4, st_nlink q),
      (24, 4, st_uid q), (28, 4, st_gid q), (32, 8, if st_kind q = Char_kind then 1 else 0), (40, 8, 0),
      (48, 8, int (st_size q)), (56, 4, 4096), (60, 4, 0), (64, 8, (int (st_size q) + 511) div 512)] @
     ts_fields 72 (st_at q) @ ts_fields 88 (st_mt q) @ ts_fields 104 (st_ct q) @ [(120, 8, 0)]"

definition putStat :: "st \<Rightarrow> int \<Rightarrow> (host, unit) kop" where
  "putStat q a = bnd (guest_chk a 128 True) (\<lambda>_. put_fields a (stat_fields q))"

definition call_fstatat :: "world \<Rightarrow> (host, int) kop" where
  "call_fstatat w =
     bnd (str_reg w 11) (\<lambda>p.
     bnd (nat_reg 13 0xffff) (\<lambda>fl.
     bnd (arg 10) (\<lambda>fd.
     bnd (path_arg w fd p) (\<lambda>path.
     bnd (addr_reg 12) (\<lambda>a.
     bnd (sys_stat w path (fl AND 0x100 = 0)) (\<lambda>q.
     bnd (putStat q a) (\<lambda>_. ret 0)))))))"

definition std_stat :: "world \<Rightarrow> int \<Rightarrow> proc \<Rightarrow> st" where
  "std_stat w n p =
     \<lparr>st_ino = nat n + 1, st_kind = Char_kind, st_mode = 0x190, st_uid = s_ruid p, st_gid = s_rgid p, st_nlink = 1, st_size = 0,
      st_at = w_now w, st_mt = w_now w, st_ct = w_now w\<rparr>"

definition call_fstat :: "world \<Rightarrow> (host, int) kop" where
  "call_fstat w =
     bnd (fd_reg 10) (\<lambda>n.
     bnd (addr_reg 11) (\<lambda>a.
     bnd (fd_of n) (\<lambda>f.
     bnd (if n < 3 then me (std_stat w n)
          else bnd (of_option EBADF (fd_path f)) (\<lambda>p. sys_stat w p True)) (\<lambda>q.
     bnd (putStat q a) (\<lambda>_. ret 0)))))"

text \<open>\<open>statfs\<close>.\<close>

definition fs_fields :: "vfs \<Rightarrow> (int \<times> nat \<times> int) list" where
  "fs_fields fs =
     (let cap = int (vcap fs); blocks = cap div 4096; hit = (int (used fs) + 4095) div 4096; files = max 1024 (blocks * 4) in
      [(0, 8, 0x54484953), (8, 8, 4096), (16, 8, blocks), (24, 8, max 0 (blocks - hit)), (32, 8, max 0 (blocks - hit)),
       (40, 8, files), (48, 8, max 0 (files - int (length (ents fs 0)))), (56, 4, 0x5448), (60, 4, 0x4953), (64, 8, 255),
       (72, 8, 4096), (80, 8, 0)])"

definition zero_out :: "int \<Rightarrow> nat \<Rightarrow> (host, unit) kop" where
  "zero_out a n = bnd (guest_chk a n True) (\<lambda>_. on_rv (on_mem (mem_write a (replicate n 0))))"

definition statfs :: "int \<Rightarrow> (host, int) kop" where
  "statfs a =
     bnd (asks (\<lambda>h. k_fs (h_k h))) (\<lambda>fs.
     bnd (zero_out a 120) (\<lambda>_.
     bnd (put_fields a (fs_fields fs)) (\<lambda>_. ret 0)))"

definition call_statfs :: "world \<Rightarrow> (host, int) kop" where
  "call_statfs w = bnd (str_reg w 10) (\<lambda>p. bnd (sys_stat w p True) (\<lambda>_. bnd (addr_reg 11) statfs))"

definition call_fstatfs :: "world \<Rightarrow> (host, int) kop" where
  "call_fstatfs w =
     bnd (fd_reg 10) (\<lambda>n.
     bnd (fd_of n) (\<lambda>f.
     bnd (if 3 \<le> n then bnd (of_option EBADF (fd_path f)) (\<lambda>p. bnd (sys_stat w p True) (\<lambda>_. ret ())) else ret ()) (\<lambda>_.
     bnd (addr_reg 11) statfs)))"

text \<open>\<open>utimensat\<close>. A time outside the range of exact numbers is not modelled.\<close>

definition ms_of :: "int \<Rightarrow> int \<Rightarrow> (host, int) kop" where
  "ms_of sec ns =
     bnd (num_in sec) (\<lambda>s. let ms = s * 1000 + ns div 1000000 in
     if \<bar>s * 1000\<bar> \<le> SAFE \<and> \<bar>ms\<bar> \<le> SAFE then ret ms else leave)"

definition fileTs :: "int \<Rightarrow> int \<Rightarrow> int \<Rightarrow> (host, int) kop" where
  "fileTs a old now =
     bnd (on_rv (on_mem (mem_i64 (a + 8)))) (\<lambda>ns.
     if ns = 0x3ffffffe then ret old
     else if ns = 0x3fffffff then ret now
     else bnd (check (\<not> (ns < 0 \<or> 1000000000 \<le> ns)) EINVAL) (\<lambda>_.
          bnd (on_rv (on_mem (mem_i64 a))) (\<lambda>sec. ms_of sec ns)))"

definition utime_path :: "world \<Rightarrow> int \<Rightarrow> int \<Rightarrow> nat \<Rightarrow> (host, string) kop" where
  "utime_path w fd0 p0 fl =
     (if p0 = 0 then bnd (fd_in_arg fd0) fd_path_of
      else bnd (str w p0) (\<lambda>raw.
        if raw = [] \<and> fl AND 0x1000 \<noteq> 0 then bnd (fd_in_arg fd0) fd_path_of
        else if raw = [] then bad ENOENT
        else path_arg w fd0 raw))"

definition utimens :: "world \<Rightarrow> int \<Rightarrow> int \<Rightarrow> int \<Rightarrow> nat \<Rightarrow> (host, int) kop" where
  "utimens w fd0 p0 ts0 fl =
     bnd (check ((of_nat fl :: u32) AND NOT 0x1100 = 0) EINVAL) (\<lambda>_.
     bnd (utime_path w fd0 p0 fl) (\<lambda>p. let follow = (fl AND 0x100 = 0); now = w_now w in
     bnd (sys_stat w p follow) (\<lambda>q.
     bnd (if ts0 = 0 then ret (now, now)
          else bnd (guest_chk (ux ts0) 32 False) (\<lambda>_.
               bnd (fileTs (ux ts0) (st_at q) now) (\<lambda>ta.
               bnd (fileTs (ux ts0 + 16) (st_mt q) now) (\<lambda>tm. ret (ta, tm))))) (\<lambda>(ta, tm).
     bnd (my_fs (\<lambda>cwd c. utime now p ta tm cwd c follow)) (\<lambda>_. ret 0)))))"

definition call_utimensat :: "world \<Rightarrow> (host, int) kop" where
  "call_utimensat w =
     bnd (nat_reg 13 0x7fffffff) (\<lambda>fl.
     bnd (arg 10) (\<lambda>fd0. bnd (arg 11) (\<lambda>p0. bnd (arg 12) (\<lambda>ts0. utimens w fd0 p0 ts0 fl))))"

section \<open>Identity\<close>

definition keep_reg :: "nat \<Rightarrow> (host, int option) kop" where "keep_reg i = bnd (arg i) idOrKeep"

definition ok0 :: "(host, 'a) kop \<Rightarrow> (host, int) kop" where "ok0 m = bnd m (\<lambda>_. ret 0)"

definition call_setregid :: "(host, int) kop" where
  "call_setregid = bnd (keep_reg 10) (\<lambda>a. bnd (keep_reg 11) (\<lambda>b. ok0 (my_proc (setRegid a b))))"

definition call_setreuid :: "(host, int) kop" where
  "call_setreuid = bnd (keep_reg 10) (\<lambda>a. bnd (keep_reg 11) (\<lambda>b. ok0 (my_proc (setReuid a b))))"

definition call_setresuid :: "(host, int) kop" where
  "call_setresuid =
     bnd (keep_reg 10) (\<lambda>a. bnd (keep_reg 11) (\<lambda>b. bnd (keep_reg 12) (\<lambda>c. ok0 (my_proc (setResuid a b c)))))"

definition call_setresgid :: "(host, int) kop" where
  "call_setresgid =
     bnd (keep_reg 10) (\<lambda>a. bnd (keep_reg 11) (\<lambda>b. bnd (keep_reg 12) (\<lambda>c. ok0 (my_proc (setResgid a b c)))))"

definition call_setgid :: "(host, int) kop" where "call_setgid = bnd (owner_reg 10) (\<lambda>g. ok0 (my_proc (setGid g)))"
definition call_setuid :: "(host, int) kop" where "call_setuid = bnd (owner_reg 10) (\<lambda>u. ok0 (my_proc (setUid u)))"
definition call_setfsuid :: "(host, int) kop" where "call_setfsuid = bnd (owner_reg 10) (\<lambda>u. my_proc (setFsuid u))"
definition call_setfsgid :: "(host, int) kop" where "call_setfsgid = bnd (owner_reg 10) (\<lambda>g. my_proc (setFsgid g))"

definition ptr_reg :: "nat \<Rightarrow> (host, int) kop" where "ptr_reg i = bnd (arg i) addrPtr"

definition getres :: "bool \<Rightarrow> (host, int) kop" where
  "getres grp =
     bnd (ptr_reg 10) (\<lambda>a. bnd (ptr_reg 11) (\<lambda>b. bnd (ptr_reg 12) (\<lambda>c.
     bnd (guest_chk a 4 True) (\<lambda>_. bnd (guest_chk b 4 True) (\<lambda>_. bnd (guest_chk c 4 True) (\<lambda>_.
     bnd (me (\<lambda>p. if grp then (s_rgid p, s_egid p, s_sgid p) else (s_ruid p, s_euid p, s_suid p))) (\<lambda>(x, y, z).
     ok0 (put_fields 0 [(a, 4, x), (b, 4, y), (c, 4, z)]))))))))"

definition num_fields :: "int list \<Rightarrow> (int \<times> nat \<times> int) list" where
  "num_fields xs = map (\<lambda>(i, x). (4 * int i, 4, x)) (zip [0..<length xs] xs)"

definition call_getgroups :: "(host, int) kop" where
  "call_getgroups =
     bnd (nat_reg 10 65536) (\<lambda>n.
     bnd (me (\<lambda>p. c_groups (p_cred p))) (\<lambda>gs.
     if n = 0 then ret (int (length gs)) else
     bnd (check (\<not> n < length gs) EINVAL) (\<lambda>_.
     bnd (ptr_reg 11) (\<lambda>a.
     bnd (guest_chk a (length gs * 4) True) (\<lambda>_.
     bnd (put_fields a (num_fields gs)) (\<lambda>_. ret (int (length gs))))))))"

definition call_setgroups :: "(host, int) kop" where
  "call_setgroups =
     bnd (nat_reg 10 65536) (\<lambda>n.
     bnd (if n = 0 then ret 0 else ptr_reg 11) (\<lambda>a.
     bnd (if n = 0 then ret () else guest_chk a (n * 4) False) (\<lambda>_.
     bnd (mapk (\<lambda>i. on_rv (on_mem (mem_u32 (a + 4 * int i)))) [0..<n]) (\<lambda>gs.
     ok0 (my_proc (setGroups (map uint gs)))))))"

definition call_umask :: "(host, int) kop" where
  "call_umask =
     bnd (me p_mask) (\<lambda>old.
     bnd (nat_reg 10 0x1ff) (\<lambda>n.
     bnd (my_proc (modify (set_umask (of_nat n)))) (\<lambda>_. ret (uint old))))"

text \<open>\<open>kill\<close> takes the process and the signal from registers 10 and 11, \<open>tkill\<close> and \<open>tgkill\<close> both from 11 and 12.\<close>

definition call_kill :: "nat \<Rightarrow> (host, int) kop" where
  "call_kill i =
     bnd (arg i) (\<lambda>a.
     bnd (num_in a) (\<lambda>target.
     bnd (nat_reg (Suc i) 64) (\<lambda>sig.
     on_kern (\<lambda>pid. kern_kill target sig pid))))"

section \<open>Sockets\<close>

text \<open>Local stream sockets can be made and tried; nothing listens.\<close>

definition call_socket :: "(host, int) kop" where
  "call_socket =
     bnd (nat_reg 10 0x7fffffff) (\<lambda>dom.
     bnd (nat_reg 11 0xffffffff) (\<lambda>ty.
     bnd (nat_reg 12 0x7fffffff) (\<lambda>pr.
     let t = (of_nat ty :: u32); fl = t AND NOT 0xf in
     if dom \<noteq> 1 then ret (- 97)
     else if pr \<noteq> 0 then ret (- 93)
     else if t AND 0xf \<noteq> 1 then ret (- 94)
     else if fl AND NOT 0x80000 \<noteq> 0 then ret (- 22)
     else
       bnd (on_kern (\<lambda>pid. bnd (kern_fd pid) (\<lambda>n.
              bnd (modify (set_fd pid n ((new_fd None None None True True False)\<lparr>fd_clo := has_flag fl 0x80000\<rparr>))) (\<lambda>_. ret n)))) (\<lambda>n.
       bnd (modify (\<lambda>h. h\<lparr>h_socks := List.insert n (h_socks h)\<rparr>)) (\<lambda>_. ret n)))))"

definition call_connect :: "(host, int) kop" where
  "call_connect =
     bnd (fd_reg 10) (\<lambda>n.
     bnd (addr_reg 11) (\<lambda>a.
     bnd (nat_reg 12 4096) (\<lambda>z.
     bnd (me (\<lambda>p. ent_get (p_fds p) n)) (\<lambda>f.
     bnd (asks (\<lambda>h. n \<in> set (h_socks h))) (\<lambda>sk.
     if f = None then ret (- 9)
     else if \<not> sk then ret (- 88)
     else if z < 2 then ret (- 22)
     else if a = 0 then ret (- 14)
     else
       bnd (guest_chk a z False) (\<lambda>_.
       bnd (on_rv (on_mem (mem_u16 a))) (\<lambda>fam.
       if fam \<noteq> 1 then ret (- 97)
       else bnd (guest_read (a + 2) (z - 2)) (\<lambda>name.
         ret (if name = [] \<or> hd name = 0 then - 111 else - 2)))))))))"

section \<open>Time and the processor\<close>

definition clock_ms :: "world \<Rightarrow> int \<Rightarrow> (host, int) kop" where
  "clock_ms w n =
     (if n \<in> {0, 5, 11} then ret (w_now w)
      else if n \<in> {1, 4, 6, 7} then ret (w_up w)
      else if n \<in> {2, 3} then ret (w_ms w)
      else bad EINVAL)"

definition num_reg :: "nat \<Rightarrow> (host, int) kop" where "num_reg i = bnd (arg i) num_in"

definition call_clock_gettime :: "world \<Rightarrow> (host, int) kop" where
  "call_clock_gettime w =
     bnd (num_reg 10) (\<lambda>n.
     bnd (addr_reg 11) (\<lambda>a.
     bnd (guest_chk a 16 True) (\<lambda>_.
     bnd (clock_ms w n) (\<lambda>ms. ok0 (put_fields a (ts_fields 0 ms))))))"

definition call_clock_getres :: "world \<Rightarrow> (host, int) kop" where
  "call_clock_getres w =
     bnd (num_reg 10) (\<lambda>n.
     bnd (addr_reg 11) (\<lambda>a.
     bnd (clock_ms w n) (\<lambda>_.
     if a = 0 then ret 0 else bnd (guest_chk a 16 True) (\<lambda>_. ok0 (put_fields a [(0, 8, 0), (8, 8, 1000000)])))))"

definition call_gettimeofday :: "world \<Rightarrow> (host, int) kop" where
  "call_gettimeofday w =
     bnd (addr_reg 10) (\<lambda>a.
     if a = 0 then ret 0 else
     bnd (guest_chk a 16 True) (\<lambda>_. ok0 (put_fields a [(0, 8, w_now w div 1000), (8, 8, js_mod (w_now w) 1000 * 1000)])))"

definition call_times :: "world \<Rightarrow> (host, int) kop" where
  "call_times w =
     bnd (addr_reg 10) (\<lambda>a.
     bnd (if a = 0 then ret () else bnd (zero_out a 32) (\<lambda>_. put_fields a [(0, 8, w_ms w * 100 div 1000)])) (\<lambda>_.
     ret (w_up w * 100 div 1000)))"

definition mem_used :: "(host, int) kop" where "mem_used = asks (\<lambda>h. int (m_used (r_m (h_rv h))))"

definition put_usage :: "int \<Rightarrow> int \<Rightarrow> (host, unit) kop" where
  "put_usage a ms =
     bnd (zero_out a 144) (\<lambda>_.
     bnd (put_fields a [(0, 8, ms div 1000), (8, 8, js_mod ms 1000 * 1000)]) (\<lambda>_.
     bnd mem_used (\<lambda>u.
     bnd (put_fields a [(32, 8, (u + 1023) div 1024)]) (\<lambda>_.
     bnd mem_used (\<lambda>v. put_fields a [(64, 8, v div 65536)])))))"

text \<open>\<open>sysinfo\<close> and \<open>uname\<close>.\<close>

definition info_fields :: "int \<Rightarrow> int \<Rightarrow> int \<Rightarrow> int \<Rightarrow> int \<Rightarrow> (int \<times> nat \<times> int) list" where
  "info_fields up run mem us n =
     [(0, 8, up div 1000), (8, 8, run * 65536), (16, 8, run * 32768), (24, 8, run * 16384), (32, 8, mem), (40, 8, max 0 (mem - us)),
      (80, 2, min 0xffff n), (104, 4, 1)]"

definition call_sysinfo :: "world \<Rightarrow> (host, int) kop" where
  "call_sysinfo w =
     bnd (addr_reg 10) (\<lambda>a.
     bnd mem_used (\<lambda>us.
     bnd (asks (\<lambda>h. int (length (filter (\<lambda>q. p_state (proc_at (h_k h) q) = Run) (k_procs (h_k h)))))) (\<lambda>run.
     bnd (asks (\<lambda>h. int (length (k_procs (h_k h))))) (\<lambda>n.
     bnd (zero_out a 112) (\<lambda>_. ok0 (put_fields a (info_fields (w_up w) run (w_mem w) us n)))))))"

definition call_uname :: "world \<Rightarrow> (host, int) kop" where
  "call_uname w =
     bnd (addr_reg 10) (\<lambda>a.
     bnd (guest_chk a 390 True) (\<lambda>_.
     ok0 (mapk (\<lambda>(i, x). on_rv (on_mem (mem_write (a + 65 * int i) (take 65 (enc x @ [0])))))
       (enumerate 0 [w_name w, w_host w, w_rel w, ''Thistle64 RV64GC'', ''riscv64'', ''localdomain'']))))"

text \<open>\<open>getrlimit\<close>, \<open>setrlimit\<close>, \<open>prlimit\<close>: a limit has its first value when it is first asked for.\<close>

definition MASK :: int where "MASK = 2 ^ 64 - 1"

definition first_limit :: "world \<Rightarrow> int \<Rightarrow> nat \<Rightarrow> int \<times> int" where
  "first_limit w cap rs =
     (if rs = 1 then (cap, cap)
      else if rs \<in> {2, 5, 8, 9, 12} then (w_mem w, w_mem w)
      else if rs = 3 then (w_stack w, w_mem w)
      else if rs \<in> {4, 13, 14} then (0, 0)
      else if rs = 6 then (1024, 1024)
      else if rs \<in> {7, 11} then (256, 256)
      else (MASK, MASK))"

definition getLimit :: "world \<Rightarrow> nat \<Rightarrow> (host, int \<times> int) kop" where
  "getLimit w rs =
     bnd (asks (\<lambda>h. nullish (ent_get (h_rlim h) rs) (first_limit w (int (vcap (k_fs (h_k h)))) rs))) (\<lambda>q.
     bnd (modify (\<lambda>h. h\<lparr>h_rlim := ent_set rs q (h_rlim h)\<rparr>)) (\<lambda>_. ret q))"

definition set_limit :: "nat \<Rightarrow> int \<times> int \<Rightarrow> int \<Rightarrow> (host, unit) kop" where
  "set_limit rs old a =
     bnd (guest_chk a 16 False) (\<lambda>_.
     bnd (on_rv (on_mem (mem_u64 a))) (\<lambda>c. let cur = uint c in
     bnd (on_rv (on_mem (mem_u64 (a + 8)))) (\<lambda>m. let hi = uint m in
     bnd (check (\<not> (hi \<noteq> MASK \<and> hi < cur)) EINVAL) (\<lambda>_.
     bnd (me s_ruid) (\<lambda>u.
     bnd (check (\<not> (u \<noteq> 0 \<and> snd old \<noteq> MASK \<and> (hi = MASK \<or> snd old < hi))) EPERM) (\<lambda>_.
     modify (\<lambda>h. h\<lparr>h_rlim := ent_set rs (cur, hi) (h_rlim h)\<rparr>)))))))"

definition limit :: "world \<Rightarrow> int \<Rightarrow> int \<Rightarrow> int \<Rightarrow> int \<Rightarrow> (host, int) kop" where
  "limit w pid0 res0 nu0 old0 =
     bnd (num_in pid0) (\<lambda>p.
     bnd (nat_in 15 res0) (\<lambda>rs.
     bnd (asks h_pid) (\<lambda>pid.
     bnd (check (p = 0 \<or> p = pid) ESRCH) (\<lambda>_.
     bnd (getLimit w rs) (\<lambda>old.
     bnd (if old0 = 0 then ret () else bnd (guest_chk (ux old0) 16 True) (\<lambda>_. put_fields (ux old0) [(0, 8, fst old), (8, 8, snd old)])) (\<lambda>_.
     ok0 (if nu0 = 0 then ret () else set_limit rs old (ux nu0))))))))"

definition call_getrlimit :: "world \<Rightarrow> (host, int) kop" where
  "call_getrlimit w = bnd (arg 10) (\<lambda>rs. bnd (arg 11) (\<lambda>old. limit w 0 rs 0 old))"

definition call_setrlimit :: "world \<Rightarrow> (host, int) kop" where
  "call_setrlimit w = bnd (arg 10) (\<lambda>rs. bnd (arg 11) (\<lambda>nu. limit w 0 rs nu 0))"

definition call_prlimit :: "world \<Rightarrow> (host, int) kop" where
  "call_prlimit w = bnd (arg 10) (\<lambda>p. bnd (arg 11) (\<lambda>rs. bnd (arg 12) (\<lambda>nu. bnd (arg 13) (\<lambda>old. limit w p rs nu old))))"

text \<open>Sleeping and letting others go first: what the others do is before or after the step. \<open>w_intr\<close> says that a signal ends the sleep.\<close>

definition sys_yield :: "(host, unit) kop" where
  "sys_yield = my_proc (modify (\<lambda>p. p\<lparr>p_state := if p_code p = None then Run else Ready\<rparr>))"

definition sys_sleep :: "world \<Rightarrow> (host, unit) kop" where
  "sys_sleep w =
     bnd (my_proc (modify (\<lambda>p. p\<lparr>p_state := if p_code p = None then Run else Sleep\<rparr>))) (\<lambda>_. check (\<not> w_intr w) EINTR)"

text \<open>\<open>readTs\<close>, in nanoseconds.\<close>

definition readTs :: "int \<Rightarrow> (host, int) kop" where
  "readTs a =
     bnd (guest_chk a 16 False) (\<lambda>_.
     bnd (on_rv (on_mem (mem_i64 a))) (\<lambda>s0.
     bnd (num_in s0) (\<lambda>s.
     bnd (on_rv (on_mem (mem_i64 (a + 8)))) (\<lambda>ns.
     bnd (check (\<not> (s < 0 \<or> ns < 0 \<or> 1000000000 \<le> ns)) EINVAL) (\<lambda>_.
     if s * 1000 + 1000 \<le> SAFE then ret (s * 1000000000 + ns)
     else if SAFE < s * 1000 then bad ERANGE
     else leave)))))"

definition call_nanosleep :: "world \<Rightarrow> (host, int) kop" where
  "call_nanosleep w = bnd (addr_reg 10) (\<lambda>a. bnd (readTs a) (\<lambda>t. ok0 (if t \<noteq> 0 then sys_sleep w else ret ())))"

text \<open>Waiting for a time from now, or for a time on a clock.\<close>

definition sleep_to :: "world \<Rightarrow> int option \<Rightarrow> int \<Rightarrow> (host, unit) kop" where
  "sleep_to w ck a =
     bnd (readTs a) (\<lambda>t.
     bnd (case ck of Some n \<Rightarrow> clock_ms w n | None \<Rightarrow> ret 0) (\<lambda>ms.
     if 0 < t - ms * 1000000 then sys_sleep w else ret ()))"

definition call_clock_nanosleep :: "world \<Rightarrow> (host, int) kop" where
  "call_clock_nanosleep w =
     bnd (num_reg 10) (\<lambda>n.
     bnd (nat_reg 11 1) (\<lambda>fl.
     bnd (addr_reg 12) (\<lambda>a. ok0 (sleep_to w (if fl \<noteq> 0 then Some n else None) a))))"

text \<open>\<open>wait4\<close> for a process, or for the first of the children that is left; \<open>w_age\<close> is how long a process has run.\<close>

definition wait_for :: "int \<Rightarrow> int \<Rightarrow> kern \<Rightarrow> int option" where
  "wait_for p pid k =
     (if 0 < p then if p \<in> set (k_procs k) then Some p else None
      else List.find (\<lambda>c. c \<in> set (k_procs k)) (p_kids (proc_at k pid)))"

definition wait_status :: "proc \<Rightarrow> int \<Rightarrow> int" where
  "wait_status p n = (case p_sig p of
     Some s \<Rightarrow> if s \<noteq> 0 then int s AND 0x7f else (n AND 255) * 256
   | None \<Rightarrow> (n AND 255) * 256)"

definition call_wait4 :: "world \<Rightarrow> (host, int) kop" where
  "call_wait4 w =
     bnd (addr_reg 11) (\<lambda>sa.
     bnd (addr_reg 13) (\<lambda>ru.
     bnd (num_reg 10) (\<lambda>p.
     bnd (nat_reg 12 0x7fffffff) (\<lambda>fl.
     bnd (asks (\<lambda>h. wait_for p (h_pid h) (h_k h))) (\<lambda>c0.
     bnd (of_option ECHILD c0) (\<lambda>c.
     bnd (asks (\<lambda>h. (proc_at (h_k h) c, h_pid h))) (\<lambda>(q, pid).
     bnd (check (p_ppid q = pid) ECHILD) (\<lambda>_.
     case p_code q of
       None \<Rightarrow> if fl AND 1 \<noteq> 0 then ret 0 else leave
     | Some n \<Rightarrow>
         bnd (if sa = 0 then ret () else bnd (guest_chk sa 4 True) (\<lambda>_. put_fields sa [(0, 4, wait_status q n)])) (\<lambda>_.
         bnd (if ru = 0 then ret () else put_usage ru (w_age w c)) (\<lambda>_.
         bnd (on_kern (\<lambda>pid. modify (reap c (Some pid)))) (\<lambda>_. ret c)))))))))))"

text \<open>\<open>ioctl\<close> is for terminals; a descriptor of a file, a pipe or a socket is none.\<close>

fun maybe_tty :: "stream option \<Rightarrow> bool" where
  "maybe_tty (Some (Other j)) = True"
| "maybe_tty (Some (Pip i)) = False"
| "maybe_tty None = False"

definition call_ioctl :: "(host, int) kop" where
  "call_ioctl =
     bnd (fd_reg 10) (\<lambda>n.
     bnd (nat_reg 11 0xffffffff) (\<lambda>rq.
     bnd (addr_reg 12) (\<lambda>a.
     bnd (fd_of n) (\<lambda>f. if maybe_tty (fd_in f) \<or> maybe_tty (fd_out f) then leave else ret (- 25)))))"

definition call_getrusage :: "world \<Rightarrow> (host, int) kop" where
  "call_getrusage w =
     bnd (arg 10) (\<lambda>who0.
     bnd (addr_reg 11) (\<lambda>a.
     bnd (num_in who0) (\<lambda>who.
     bnd (check (who \<in> {- 1, 0, 1}) EINVAL) (\<lambda>_. ok0 (put_usage a (if who = - 1 then 0 else w_ms w))))))"

definition call_getcpu :: "(host, int) kop" where
  "call_getcpu =
     bnd (arg 10) (\<lambda>c. bnd (arg 11) (\<lambda>n.
     bnd (if c = 0 then ret () else bnd (guest_chk (ux c) 4 True) (\<lambda>_. put_fields (ux c) [(0, 4, 0)])) (\<lambda>_.
     bnd (if n = 0 then ret () else bnd (guest_chk (ux n) 4 True) (\<lambda>_. put_fields (ux n) [(0, 4, 0)])) (\<lambda>_. ret 0))))"

definition affinity_args :: "(nat \<times> int \<Rightarrow> (host, int) kop) \<Rightarrow> (host, int) kop" where
  "affinity_args f =
     bnd (num_reg 10) (\<lambda>p.
     bnd (nat_reg 11 MAX_IO) (\<lambda>z.
     bnd (addr_reg 12) (\<lambda>a.
     bnd (asks h_pid) (\<lambda>pid.
     bnd (check (p = 0 \<or> p = pid) ESRCH) (\<lambda>_. f (z, a))))))"

definition call_setaffinity :: "(host, int) kop" where
  "call_setaffinity = affinity_args (\<lambda>(z, a).
     bnd (check (z \<noteq> 0) EINVAL) (\<lambda>_.
     bnd (guest_chk a z False) (\<lambda>_.
     bnd (on_rv (on_mem (mem_u8 a))) (\<lambda>b.
     bnd (check (b AND 1 \<noteq> 0) EINVAL) (\<lambda>_. ret 0)))))"

definition call_getaffinity :: "(host, int) kop" where
  "call_getaffinity = affinity_args (\<lambda>(z, a).
     bnd (check (8 \<le> z) EINVAL) (\<lambda>_.
     bnd (zero_out a z) (\<lambda>_.
     bnd (on_rv (on_mem (mem_set8 a 1))) (\<lambda>_. ret 8))))"

text \<open>\<open>futex\<close>: waking is nothing to do; a program that waits lets others go first, or sleeps until its time is over.\<close>

definition call_futex :: "world \<Rightarrow> (host, int) kop" where
  "call_futex w =
     bnd (addr_reg 10) (\<lambda>a.
     bnd (nat_reg 11 0x7fffffff) (\<lambda>op0. let op = op0 AND 0x7f in
     bnd (guest_chk a 4 (op = 1 \<or> op = 10)) (\<lambda>_.
     if op \<in> {1, 10, 3, 4} then ret 0
     else if op \<noteq> 0 \<and> op \<noteq> 9 then ret (- 38)
     else
       bnd (arg 15) (\<lambda>bits.
       bnd (check (\<not> (op = 9 \<and> ux bits = 0)) EINVAL) (\<lambda>_.
       bnd (arg 12) (\<lambda>v.
       bnd (on_rv (on_mem (mem_u32 a))) (\<lambda>x.
       if uint x \<noteq> take_bit 32 v then ret (- 11) else
       bnd (arg 13) (\<lambda>to.
       if to = 0 then ok0 sys_yield else
       bnd (sleep_to w (if op = 9 then Some (if op0 AND 0x100 \<noteq> 0 then 0 else 1) else None) (ux to)) (\<lambda>_. ret (- 110))))))))))"

text \<open>\<open>getrandom\<close>, in pieces of 65536 bytes.\<close>

definition call_getrandom :: "world \<Rightarrow> (host, int) kop" where
  "call_getrandom w =
     bnd (addr_reg 10) (\<lambda>a.
     bnd (nat_reg 11 MAX_IO) (\<lambda>n.
     bnd (guest_chk a n True) (\<lambda>_.
     bnd (mapk (\<lambda>i. let k = 65536 * i; z = min 65536 (n - k) in
            on_rv (on_mem (mem_write (a + int k) (map (w_rand w) [k..<k + z])))) [0..<(n + 65535) div 65536]) (\<lambda>_.
     ret (int n)))))"

section \<open>Memory and the end\<close>

definition call_brk :: "(host, int) kop" where "call_brk = bnd (addr_reg 10) (\<lambda>n. on_rv (doBrk n))"

definition call_munmap :: "world \<Rightarrow> (host, int) kop" where
  "call_munmap w = bnd (addr_reg 10) (\<lambda>a. bnd (nat_reg 11 SAFE) (\<lambda>n. ok0 (unmap (w_now w) a (int n))))"

definition call_mremap :: "world \<Rightarrow> (host, int) kop" where
  "call_mremap w =
     bnd (arg 10) (\<lambda>a. bnd (arg 11) (\<lambda>b. bnd (arg 12) (\<lambda>c. bnd (arg 13) (\<lambda>d. bnd (arg 14) (\<lambda>e.
     remap (w_now w) a b c d e)))))"

definition call_mmap :: "world \<Rightarrow> (host, int) kop" where
  "call_mmap w =
     bnd (arg 10) (\<lambda>a. bnd (arg 11) (\<lambda>b. bnd (arg 12) (\<lambda>c. bnd (arg 13) (\<lambda>d. bnd (arg 14) (\<lambda>e. bnd (arg 15) (\<lambda>f.
     mmap (w_now w) a b c d e f))))))"

definition call_msync :: "world \<Rightarrow> (host, int) kop" where
  "call_msync w = bnd (addr_reg 10) (\<lambda>a. bnd (nat_reg 11 SAFE) (\<lambda>n. ok0 (flushShared (w_now w) a (int n))))"

definition call_exit :: "world \<Rightarrow> (host, int) kop" where
  "call_exit w =
     bnd (arg 10) (\<lambda>n.
     bnd (flushAllShared (w_now w)) (\<lambda>_.
     bnd (modify (\<lambda>h. h\<lparr>h_code := take_bit 32 n, h_done := True\<rparr>)) (\<lambda>_. ret 0)))"

section \<open>Dispatch\<close>

definition calls :: "world \<Rightarrow> (nat \<times> (host, int) kop) list" where
  "calls w =
     [(17, call_getcwd), (23, call_dup), (24, call_dup3), (25, call_fcntl), (29, call_ioctl), (34, call_mkdirat w), (35, call_unlinkat w),
      (36, call_symlinkat w), (37, call_linkat w), (38, call_renameat w), (276, call_renameat2 w), (43, call_statfs w),
      (44, call_fstatfs w), (45, call_truncate w), (46, call_ftruncate w), (48, call_faccessat w), (49, call_chdir w),
      (50, call_fchdir w), (52, call_fchmod w), (53, call_fchmodat w), (54, call_fchownat w), (55, call_fchown w),
      (56, call_openat w), (57, call_close), (59, call_pipe2), (61, call_getdents w), (62, call_lseek w), (63, call_read w),
      (64, call_write w), (65, call_readv w), (66, call_writev w), (67, call_pread w), (68, call_pwrite w), (73, call_ppoll),
      (78, call_readlinkat w), (79, call_fstatat w), (80, call_fstat w), (81, ret 0), (82, ret 0), (83, ret 0),
      (88, call_utimensat w), (93, call_exit w), (94, call_exit w), (96, asks h_pid), (98, call_futex w), (99, ret 0),
      (101, call_nanosleep w), (115, call_clock_nanosleep w), (124, ok0 sys_yield), (160, call_uname w), (163, call_getrlimit w),
      (164, call_setrlimit w), (179, call_sysinfo w), (260, call_wait4 w), (261, call_prlimit w),
      (113, call_clock_gettime w), (114, call_clock_getres w), (122, call_setaffinity), (123, call_getaffinity),
      (129, call_kill 10), (130, call_kill 11), (131, call_kill 11), (132, ret 0), (134, ret 0), (135, ret 0),
      (153, call_times w), (165, call_getrusage w), (166, call_umask), (168, call_getcpu), (169, call_gettimeofday w),
      (143, call_setregid), (144, call_setgid), (145, call_setreuid), (146, call_setuid), (147, call_setresuid),
      (148, getres False), (149, call_setresgid), (150, getres True), (151, call_setfsuid), (152, call_setfsgid),
      (158, call_getgroups), (159, call_setgroups), (172, asks h_pid), (173, me p_ppid), (174, me s_ruid), (175, me s_euid),
      (176, me s_rgid), (177, me s_egid), (178, asks h_pid), (198, call_socket), (203, call_connect), (214, call_brk),
      (215, call_munmap w), (216, call_mremap w), (222, call_mmap w), (226, ret 0), (227, call_msync w), (233, ret 0),
      (278, call_getrandom w), (220, leave), (221, leave)]"

definition call :: "world \<Rightarrow> int \<Rightarrow> (host, int) kop" where
  "call w n = (case map_of (calls w) (nat n) of Some f \<Rightarrow> f | None \<Rightarrow> ret (- 38))"

text \<open>\<open>sys\<close>: the result, or the number of the error negated, goes to register 10. A call that the model leaves open has no result.\<close>

definition sys :: "world \<Rightarrow> (host, unit) kop" where
  "sys w =
     bnd (arg 17) (\<lambda>n.
     bnd (catch (call w (ux n)) (\<lambda>e. bnd (asks h_left) (\<lambda>l. if l then bad EIO else ret (- int (eno e))))) (\<lambda>v.
     on_rv (setx 10 v)))"

text \<open>One turn of the loop of \<open>run\<close>: an instruction, and the call that it asks for.\<close>

definition host_step :: "js \<Rightarrow> world \<Rightarrow> (host, unit) kop" where
  "host_step j w = bnd (on_rv (rv_step j (w_now w))) (\<lambda>ecall. if ecall then sys w else ret ())"

end
