(* ===== verification/MapProps.thy ===== *)
theory MapProps
  imports RvMap "HOL-Library.Multiset"
begin

text \<open>
  What holds of the map of the memory. Mappings are seen as a function from addresses: \<open>view\<close> gives for every
  address the rights, the sharing and the place in a file of the mappings there. Every call acts on this function on
  the range it is given and nowhere else, and no address ever has two mappings.
\<close>

section \<open>The view\<close>

type_synonym attr = "nat \<times> bool \<times> string option \<times> int option"

definition attr_at :: "map_ent \<Rightarrow> int \<Rightarrow> attr" where
  "attr_at q a = (e_prot q, e_shared q, e_path q, map_option (\<lambda>f. f + (a - e_at q)) (e_off q))"

definition seen :: "map_ent \<Rightarrow> int \<Rightarrow> attr multiset" where
  "seen q a = (if e_at q \<le> a \<and> a < e_end q then {#attr_at q a#} else {#})"

fun view :: "map_ent list \<Rightarrow> int \<Rightarrow> attr multiset" where
  "view [] a = {#}"
| "view (q # ms) a = seen q a + view ms a"

lemma view_append [simp]: "view (xs @ ys) a = view xs a + view ys a"
  by (induction xs) (simp_all add: add.assoc)

lemma view_split: "i < length ms \<Longrightarrow> view ms a = view (take i ms) a + seen (ms ! i) a + view (drop (Suc i) ms) a"
  using id_take_nth_drop [of i ms] view_append [of "take i ms" "ms ! i # drop (Suc i) ms" a] by (simp add: add.assoc)

lemma view_update: "i < length ms \<Longrightarrow> view (ms[i := q]) a = view (take i ms) a + seen q a + view (drop (Suc i) ms) a"
  by (simp add: upd_conv_take_nth_drop add.assoc)

lemma seen_in_view: "q \<in> set ms \<Longrightarrow> e_at q \<le> a \<Longrightarrow> a < e_end q \<Longrightarrow> view ms a \<noteq> {#}"
  by (induction ms) (auto simp: seen_def)

lemma view_none: "(\<And>q. q \<in> set ms \<Longrightarrow> a < e_at q \<or> e_end q \<le> a) \<Longrightarrow> view ms a = {#}"
proof (induction ms)
  case (Cons q ms)
  then have "seen q a = {#}" unfolding seen_def by (meson linorder_not_less list.set_intros(1))
  then show ?case using Cons by simp
qed simp

lemma no_hits: "\<not> hits ms ad z \<Longrightarrow> ad \<le> a \<Longrightarrow> a < ad + z \<Longrightarrow> view ms a = {#}"
  by (rule view_none) (force simp: hits_def)

lemma view_member: "view ms a \<noteq> {#} \<Longrightarrow> \<exists>q \<in> set ms. e_at q \<le> a \<and> a < e_end q"
  using view_none [of ms a] by force

section \<open>Well-formed maps\<close>

definition ent_ok :: "rv \<Rightarrow> map_ent \<Rightarrow> bool" where
  "ent_ok r q \<longleftrightarrow> 0 \<le> e_at q \<and> e_at q < e_end q \<and> e_end q \<le> r_stackAt r \<and> e_prot q \<le> 7 \<and> (\<forall>f. e_off q = Some f \<longrightarrow> 0 \<le> f)"

definition maps_ok :: "rv \<Rightarrow> bool" where
  "maps_ok r \<longleftrightarrow> mem_ok (r_m r) \<and> 0 \<le> r_floor r \<and> r_floor r \<le> r_brk r \<and> 0 \<le> r_mapAt r \<and> r_mapAt r mod 4096 = 0 \<and> r_brk r \<le> r_stackAt r \<and>
     r_stackAt r \<le> m_top (r_m r) \<and> m_top (r_m r) \<le> SAFE \<and>
     (\<forall>q \<in> set (r_maps r). ent_ok r q) \<and> (\<forall>a. size (view (r_maps r) a) \<le> 1)"

lemma maps_ent: "maps_ok r \<Longrightarrow> i < length (r_maps r) \<Longrightarrow> ent_ok r (r_maps r ! i)"
  by (simp add: maps_ok_def)

lemma nat_in_ok: "0 \<le> n \<Longrightarrow> n \<le> hi \<Longrightarrow> hi < 2 ^ 64 \<Longrightarrow> nat_in hi n = ret (nat n)"
proof -
  assume n: "0 \<le> n" "n \<le> hi" "hi < 2 ^ 64"
  then have "ux n = n" by (simp add: ux_def take_bit_int_eq_self)
  then show "nat_in hi n = ret (nat n)" using n by (intro ext) (simp add: nat_in_def kop_simps)
qed

lemma nat_safe: "0 \<le> n \<Longrightarrow> n \<le> SAFE \<Longrightarrow> nat_in SAFE n = ret (nat n)"
  by (rule nat_in_ok) (simp_all add: SAFE_def)

lemma nat_in_run: "nat_in hi n s = (if n < 0 \<or> hi < ux n then (Inl ERANGE, s) else (Inr (nat (ux n)), s))"
  by (simp add: nat_in_def kop_simps)

lemma nat_in_bound: "nat_in hi n s = (Inr v, s') \<Longrightarrow> int v \<le> hi \<and> s' = s \<and> int v = ux n \<and> 0 \<le> n"
  using ux_pos [of n] by (auto simp: nat_in_run split: if_splits)

section \<open>Memory that is dropped\<close>

definition zeroed :: "(int \<Rightarrow> bool) \<Rightarrow> mem \<Rightarrow> mem \<Rightarrow> bool" where
  "zeroed P m m' \<longleftrightarrow> mem_ok m' \<and> m_top m' = m_top m \<and> m_cap m' = m_cap m \<and> m_used m' \<le> m_used m \<and>
     (\<forall>a. byte m' a = (if P (int a) then 0 else byte m a))"

lemma zeroed_refl: "mem_ok m \<Longrightarrow> (\<And>a. \<not> P (int a)) \<Longrightarrow> zeroed P m m"
  by (simp add: zeroed_def)

lemma zeroed_trans: "zeroed P m m1 \<Longrightarrow> zeroed Q m1 m2 \<Longrightarrow> zeroed (\<lambda>a. P a \<or> Q a) m m2"
  by (auto simp: zeroed_def)

lemma zeroed_cong: "zeroed P m m' \<Longrightarrow> (\<And>a. P (int a) = Q (int a)) \<Longrightarrow> zeroed Q m m'"
  by (simp add: zeroed_def)

lemma flat_zero: "flat_write b (replicate n 0) f a = (if b \<le> a \<and> a < b + n then 0 else f a)"
  by (auto simp: flat_write_def)

lemma drop_range:
  assumes "mem_ok (r_m r)" "0 \<le> lo" "lo \<le> hi" "hi \<le> m_top (r_m r)"
  shows "\<exists>m'. on_mem (mem_drop lo (nat (hi - lo))) r = (Inr (), r\<lparr>r_m := m'\<rparr>) \<and> zeroed (\<lambda>a. lo \<le> a \<and> a < hi) (r_m r) m'"
proof -
  have "in_range (r_m r) lo (nat (hi - lo))" using assms by (simp add: in_range_def)
  from drop_spec [OF assms(1) this] obtain m' where m': "mem_drop lo (nat (hi - lo)) (r_m r) = (Inr (), m')" "mem_ok m'"
    "byte m' = flat_write (nat lo) (replicate (nat (hi - lo)) 0) (byte (r_m r))" "m_top m' = m_top (r_m r)" "m_cap m' = m_cap (r_m r)"
    "m_used m' \<le> m_used (r_m r)" by blast
  have "nat lo \<le> a \<and> a < nat lo + nat (hi - lo) \<longleftrightarrow> lo \<le> int a \<and> int a < hi" for a using assms(2,3) by linarith
  then have "zeroed (\<lambda>a. lo \<le> a \<and> a < hi) (r_m r) m'" using m' by (simp add: zeroed_def flat_zero)
  then show ?thesis using m'(1) by (auto simp: on_mem_def)
qed

section \<open>Release\<close>

text \<open>What becomes of one mapping.\<close>

definition cut :: "int \<Rightarrow> int \<Rightarrow> map_ent \<Rightarrow> map_ent option \<times> map_ent list" where
  "cut ad en q =
     (let rest = q\<lparr>e_at := en, e_off := map_option (\<lambda>f. f + (en - e_at q)) (e_off q)\<rparr> in
      if ad \<le> e_at q \<and> e_end q \<le> en then (None, [])
      else if e_at q < ad \<and> en < e_end q then (Some (q\<lparr>e_end := ad\<rparr>), [rest])
      else if ad \<le> e_at q \<and> e_at q < en then (Some rest, [])
      else if ad < e_end q \<and> e_end q \<le> en then (Some (q\<lparr>e_end := ad\<rparr>), [])
      else (Some q, []))"

definition cut_ents :: "int \<Rightarrow> int \<Rightarrow> nat \<Rightarrow> map_ent list \<Rightarrow> map_ent list" where
  "cut_ents ad en i ms =
     (case cut ad en (ms ! i) of (x, ps) \<Rightarrow>
        take i ms @ (case x of Some p \<Rightarrow> [p] | None \<Rightarrow> []) @ drop (Suc i) ms @ ps)"

lemma cut_view:
  assumes "e_at q < e_end q" "ad \<le> en" "cut ad en q = (x, ps)"
  shows "view ((case x of Some p \<Rightarrow> [p] | None \<Rightarrow> []) @ ps) a = (if ad \<le> a \<and> a < en then {#} else seen q a)"
  using assms by (auto simp: cut_def Let_def seen_def attr_at_def option.map_comp comp_def split: if_splits)

lemma cut_ents_view:
  assumes "i < length ms" "e_at (ms ! i) < e_end (ms ! i)" "ad \<le> en"
  shows "\<exists>tl. cut_ents ad en i ms = take i ms @ tl \<and>
    (\<forall>a. view tl a = (if ad \<le> a \<and> a < en then {#} else seen (ms ! i) a) + view (drop (Suc i) ms) a)"
proof -
  obtain x ps where x: "cut ad en (ms ! i) = (x, ps)" by (cases "cut ad en (ms ! i)")
  let ?t = "(case x of Some p \<Rightarrow> [p] | None \<Rightarrow> []) @ drop (Suc i) ms @ ps"
  have "view ?t a = (if ad \<le> a \<and> a < en then {#} else seen (ms ! i) a) + view (drop (Suc i) ms) a" for a
    using cut_view [OF assms(2,3) x, of a] by (simp add: ac_simps)
  then show ?thesis unfolding cut_ents_def x by (intro exI [of _ ?t]) simp
qed

lemma cut_ents_ok:
  assumes "i < length ms" "\<forall>q \<in> set ms. ent_ok r q" "0 \<le> ad" "ad \<le> en"
  shows "\<forall>q \<in> set (cut_ents ad en i ms). ent_ok r q"
proof -
  obtain x ps where x: "cut ad en (ms ! i) = (x, ps)" by (cases "cut ad en (ms ! i)")
  have q: "ent_ok r (ms ! i)" using assms(1,2) by simp
  have "\<forall>p \<in> set ((case x of Some p \<Rightarrow> [p] | None \<Rightarrow> []) @ ps). ent_ok r p"
    using x q assms(3,4) unfolding ent_ok_def cut_def Let_def by (auto split: if_splits)
  then show ?thesis using assms(2) unfolding cut_ents_def x by (auto dest: in_set_takeD in_set_dropD)
qed

lemma moved_off_run:
  assumes "ent_ok r q" "r_stackAt r \<le> SAFE" "e_at q \<le> en" "en \<le> e_end q"
  shows "moved_off en q = ret (map_option (\<lambda>f. f + (en - e_at q)) (e_off q))"
proof (cases "e_off q")
  case (Some f)
  have "nat_in SAFE (en - e_at q) = (ret (nat (en - e_at q)) :: (rv, nat) kop)"
    using assms by (intro nat_safe) (auto simp: ent_ok_def)
  then show ?thesis using Some assms(3) by (intro ext) (simp add: moved_off_def kop_simps)
qed (simp add: moved_off_def)

lemma unmap_one_run:
  assumes ok: "maps_ok r" and i: "i < length (r_maps r)" and ad: "0 \<le> ad" "ad \<le> en"
  shows "\<exists>m'. unmap_one ad en i r = (Inr (), r\<lparr>r_m := m', r_maps := cut_ents ad en i (r_maps r)\<rparr>) \<and>
    zeroed (\<lambda>a. ad \<le> a \<and> a < en \<and> seen (r_maps r ! i) a \<noteq> {#}) (r_m r) m'"
proof -
  define q where "q = r_maps r ! i"
  have q: "ent_ok r q" using maps_ent [OF ok i] by (simp add: q_def)
  have top: "r_stackAt r \<le> m_top (r_m r)" "r_stackAt r \<le> SAFE" "mem_ok (r_m r)" using ok by (auto simp: maps_ok_def)
  define lo where "lo = max ad (e_at q)"
  define hi where "hi = min en (e_end q)"
  have P: "ad \<le> a \<and> a < en \<and> seen q a \<noteq> {#} \<longleftrightarrow> lo \<le> a \<and> a < hi" for a
    by (auto simp: lo_def hi_def seen_def)
  have "\<exists>m'. (if lo < hi then bnd (nat_in SAFE (hi - lo)) (\<lambda>n. on_mem (mem_drop lo n)) else ret ()) r = (Inr (), r\<lparr>r_m := m'\<rparr>) \<and>
      zeroed (\<lambda>a. lo \<le> a \<and> a < hi) (r_m r) m'"
  proof (cases "lo < hi")
    case True
    have "nat_in SAFE (hi - lo) = (ret (nat (hi - lo)) :: (rv, nat) kop)"
      using True q ad top(2) by (intro nat_safe) (auto simp: lo_def hi_def ent_ok_def)
    moreover have "0 \<le> lo" "hi \<le> m_top (r_m r)" using q ad top by (auto simp: lo_def hi_def ent_ok_def)
    ultimately show ?thesis using True drop_range [OF top(3), of lo hi] by (simp add: kop_simps)
  next
    case False
    have "zeroed (\<lambda>a. lo \<le> a \<and> a < hi) (r_m r) (r_m r)" by (rule zeroed_refl [OF top(3)]) (use False in auto)
    then show ?thesis using False by (intro exI [of _ "r_m r"]) (simp add: kop_simps)
  qed
  then obtain m' where m': "(if lo < hi then bnd (nat_in SAFE (hi - lo)) (\<lambda>n. on_mem (mem_drop lo n)) else ret ()) r = (Inr (), r\<lparr>r_m := m'\<rparr>)"
      "zeroed (\<lambda>a. lo \<le> a \<and> a < hi) (r_m r) m'" by blast
  have run: "unmap_one ad en i r = (
     if ad \<le> e_at q \<and> e_end q \<le> en then
       modify (\<lambda>r. r\<lparr>r_maps := take i (r_maps r) @ drop (Suc i) (r_maps r)\<rparr>)
     else if e_at q < ad \<and> en < e_end q then
       bnd (moved_off en q) (\<lambda>off.
       bnd (set_map i (q\<lparr>e_end := ad\<rparr>)) (\<lambda>_.
       modify (\<lambda>r. r\<lparr>r_maps := r_maps r @ [q\<lparr>e_at := en, e_off := off\<rparr>]\<rparr>)))
     else if ad \<le> e_at q \<and> e_at q < en then
       bnd (set_map i (q\<lparr>e_at := en\<rparr>)) (\<lambda>_.
       bnd (moved_off en q) (\<lambda>off. set_map i (q\<lparr>e_at := en, e_off := off\<rparr>)))
     else if ad < e_end q \<and> e_end q \<le> en then set_map i (q\<lparr>e_end := ad\<rparr>)
     else ret ()) (r\<lparr>r_m := m'\<rparr>)"
    using m'(1) unfolding unmap_one_def Let_def lo_def hi_def q_def by (simp add: bnd_simple bnd_run(2) del: bnd_if)
  have up: "(r_maps r)[i := p] = take i (r_maps r) @ p # drop (Suc i) (r_maps r)" for p by (rule upd_conv_take_nth_drop [OF i])
  have id: "take i (r_maps r) @ q # drop (Suc i) (r_maps r) = r_maps r" unfolding q_def by (rule id_take_nth_drop [OF i, symmetric])
  have off: "e_at q < en \<Longrightarrow> en < e_end q \<Longrightarrow> moved_off en q = ret (map_option (\<lambda>f. f + (en - e_at q)) (e_off q))"
    by (rule moved_off_run [OF q top(2)]) simp_all
  have "unmap_one ad en i r = (Inr (), r\<lparr>r_m := m', r_maps := cut_ents ad en i (r_maps r)\<rparr>)"
  proof -
    consider "ad \<le> e_at q" "e_end q \<le> en" | "e_at q < ad" "en < e_end q" | "ad \<le> e_at q" "e_at q < en" "en < e_end q"
      | "e_at q < ad" "ad < e_end q" "e_end q \<le> en" | "en \<le> e_at q" "en < e_end q" "ad \<le> e_at q" | "e_end q \<le> ad" "e_end q \<le> en" "e_at q < ad"
      using ad q unfolding ent_ok_def by linarith
    then show ?thesis
    proof cases
      case 2
      then show ?thesis using ad off by (simp add: run cut_ents_def cut_def Let_def kop_simps q_def [symmetric] set_map_def up)
    next
      case 3
      then show ?thesis using ad off by (simp add: run cut_ents_def cut_def Let_def kop_simps q_def [symmetric] set_map_def up [symmetric])
    next
      case 1
      then show ?thesis by (simp add: run cut_ents_def cut_def Let_def bnd_simple q_def [symmetric]) (simp add: modify_def)
    next
      case 4
      then show ?thesis by (simp add: run cut_ents_def cut_def Let_def q_def [symmetric] set_map_def up) (simp add: modify_def up)
    next
      case 5
      then show ?thesis by (simp add: run cut_ents_def cut_def Let_def q_def [symmetric] id ret_def)
    next
      case 6
      then have "\<not> ad \<le> e_at q" "\<not> en < e_end q" "\<not> ad < e_end q" by simp_all
      then show ?thesis by (simp add: run cut_ents_def cut_def Let_def q_def [symmetric] id ret_def)
    qed
  qed
  moreover have "zeroed (\<lambda>a. ad \<le> a \<and> a < en \<and> seen q a \<noteq> {#}) (r_m r) m'"
    by (rule zeroed_cong [OF m'(2)]) (simp only: P)
  ultimately show ?thesis unfolding q_def by (intro exI conjI)
qed


text \<open>A loop over the mappings from the last to the first.\<close>

lemma unmap_down_run:
  assumes "maps_ok r" "n \<le> length (r_maps r)" "0 \<le> ad" "ad \<le> en"
    "\<And>a. ad \<le> a \<Longrightarrow> a < en \<Longrightarrow> view (drop n (r_maps r)) a = {#}"
  shows "\<exists>m' ms. unmap_down ad en n r = (Inr (), r\<lparr>r_m := m', r_maps := ms\<rparr>) \<and> maps_ok (r\<lparr>r_m := m', r_maps := ms\<rparr>) \<and>
    (\<forall>a. view ms a = (if ad \<le> a \<and> a < en then {#} else view (r_maps r) a)) \<and>
    zeroed (\<lambda>a. ad \<le> a \<and> a < en \<and> view (r_maps r) a \<noteq> {#}) (r_m r) m'"
  using assms
proof (induction n arbitrary: r)
  case 0
  have "zeroed (\<lambda>a. ad \<le> a \<and> a < en \<and> view (r_maps r) a \<noteq> {#}) (r_m r) (r_m r)"
    using 0 by (intro zeroed_refl) (auto simp: maps_ok_def)
  then show ?case using 0 by (intro exI [of _ "r_m r"] exI [of _ "r_maps r"]) (simp add: ret_def)
next
  case (Suc i)
  let ?ms = "r_maps r" and ?q = "r_maps r ! i"
  have i: "i < length ?ms" using Suc.prems(2) by simp
  obtain m1 where m1: "unmap_one ad en i r = (Inr (), r\<lparr>r_m := m1, r_maps := cut_ents ad en i ?ms\<rparr>)"
    "zeroed (\<lambda>a. ad \<le> a \<and> a < en \<and> seen ?q a \<noteq> {#}) (r_m r) m1"
    using unmap_one_run [OF Suc.prems(1) i Suc.prems(3,4)] by blast
  let ?r1 = "r\<lparr>r_m := m1, r_maps := cut_ents ad en i ?ms\<rparr>"
  have ne: "e_at ?q < e_end ?q" using maps_ent [OF Suc.prems(1) i] by (simp add: ent_ok_def)
  obtain tl where tl: "cut_ents ad en i ?ms = take i ?ms @ tl"
    "\<And>a. view tl a = (if ad \<le> a \<and> a < en then {#} else seen ?q a) + view (drop (Suc i) ?ms) a"
    using cut_ents_view [OF i ne Suc.prems(4)] by blast
  have v: "view ?ms a = view (take i ?ms) a + seen ?q a + view (drop (Suc i) ?ms) a" for a by (rule view_split [OF i])
  have v1: "view (cut_ents ad en i ?ms) a = (if ad \<le> a \<and> a < en then view (take i ?ms) a else view ?ms a)" for a
    using Suc.prems(5) [of a] by (simp add: tl v add.assoc)
  have len: "length (take i ?ms) = i" using i by simp
  have "maps_ok ?r1"
  proof -
    have "\<forall>q \<in> set (cut_ents ad en i ?ms). ent_ok r q"
      using Suc.prems(1,3,4) by (intro cut_ents_ok [OF i]) (auto simp: maps_ok_def)
    moreover have "size (view (cut_ents ad en i ?ms) a) \<le> 1" for a
    proof -
      have "size (view ?ms a) \<le> 1" using Suc.prems(1) by (simp add: maps_ok_def)
      then show ?thesis using v [of a] by (simp add: v1)
    qed
    ultimately show ?thesis using Suc.prems(1) m1(2) by (simp add: maps_ok_def zeroed_def ent_ok_def)
  qed
  moreover have "i \<le> length (r_maps ?r1)" using len by (simp add: tl(1))
  moreover have "view (drop i (r_maps ?r1)) a = {#}" if "ad \<le> a" "a < en" for a
    using tl Suc.prems(5) [of a] that len by simp
  ultimately obtain m2 ms where r: "unmap_down ad en i ?r1 = (Inr (), ?r1\<lparr>r_m := m2, r_maps := ms\<rparr>)"
    "maps_ok (?r1\<lparr>r_m := m2, r_maps := ms\<rparr>)"
    "\<And>a. view ms a = (if ad \<le> a \<and> a < en then {#} else view (r_maps ?r1) a)"
    "zeroed (\<lambda>a. ad \<le> a \<and> a < en \<and> view (r_maps ?r1) a \<noteq> {#}) (r_m ?r1) m2"
    using Suc.IH [of ?r1] Suc.prems(3,4) by blast
  have "zeroed (\<lambda>a. ad \<le> a \<and> a < en \<and> view ?ms a \<noteq> {#}) (r_m r) m2"
  proof (rule zeroed_cong [OF zeroed_trans [OF m1(2)]])
    show "zeroed (\<lambda>a. ad \<le> a \<and> a < en \<and> view (r_maps ?r1) a \<noteq> {#}) m1 m2" using r(4) by simp
    show "(ad \<le> int a \<and> int a < en \<and> seen ?q (int a) \<noteq> {#} \<or> ad \<le> int a \<and> int a < en \<and> view (r_maps ?r1) (int a) \<noteq> {#}) =
        (ad \<le> int a \<and> int a < en \<and> view ?ms (int a) \<noteq> {#})" for a
      using Suc.prems(5) [of "int a"] by (auto simp: v1 v)
  qed
  then show ?case using r m1(1) v1 by (intro exI [of _ m2] exI [of _ ms]) (simp add: bnd_def)
qed


section \<open>Hosts\<close>

lemma on_rv_run: "on_rv f h = (fst (f (h_rv h)), h\<lparr>h_rv := snd (f (h_rv h))\<rparr>)"
  by (simp add: on_rv_def split: prod.split)

lemma on_kern_run: "on_kern f h = (fst (f (h_pid h) (h_k h)), h\<lparr>h_k := snd (f (h_pid h) (h_k h))\<rparr>)"
  by (simp add: on_kern_def split: prod.split)

text \<open>Calls that leave the interpreter alone.\<close>

definition still :: "host \<Rightarrow> host \<Rightarrow> bool" where
  "still h0 h \<longleftrightarrow> (\<exists>k. h = h0\<lparr>h_k := k\<rparr>)"

lemma still_refl: "still h h" unfolding still_def by (rule exI [of _ "h_k h"]) simp

lemma still_kern: "keeps (still h0) (on_kern f)"
  by (auto simp: keeps_def on_kern_run still_def)

lemma still_read: "keeps (still h0) (on_rv (on_mem (mem_read ad n)))"
proof -
  have "snd (on_mem (mem_read ad n) r) = r" for r
    by (simp add: on_mem_def split: prod.split) (metis loads_pure(1) rv.surjective rv.update_convs(3) snd_conv)
  then show ?thesis by (auto simp: keeps_def on_rv_run still_def)
qed

lemma still_nat: "keeps P (nat_in hi n)"
  unfolding nat_in_def by (intro keeps_bnd keeps_simple)

lemma flush_one_still: "keeps (still h0) (flush_one now ad en q)"
  unfolding flush_one_def Let_def
  by (auto split: option.split intro!: keeps_bnd still_kern still_read still_nat)

lemma flush_still: "keeps (still h0) (flushShared now ad len)"
  unfolding flushShared_def by (auto intro!: keeps_bnd keeps_mapk flush_one_still)

text \<open>What \<open>unmap\<close> does to the interpreter.\<close>

definition unmapped :: "int \<Rightarrow> int \<Rightarrow> rv \<Rightarrow> rv \<Rightarrow> bool" where
  "unmapped lo hi r r' \<longleftrightarrow> (\<exists>m ms. r' = r\<lparr>r_m := m, r_maps := ms\<rparr>) \<and>
     (\<forall>a. view (r_maps r') a = (if lo \<le> a \<and> a < hi then {#} else view (r_maps r) a)) \<and>
     zeroed (\<lambda>a. lo \<le> a \<and> a < hi \<and> view (r_maps r) a \<noteq> {#}) (r_m r) (r_m r')"

lemma page_floor: "ad AND - PAGE = ad - ad mod 4096"
proof -
  have "ad AND - PAGE = al (ad - 4095)" by (simp add: al_def PAGE_def)
  also have "\<dots> = ad - ad mod 4096" by (simp add: al_div minus_mod_eq_div_mult)
  finally show ?thesis .
qed

lemma unmap_run:
  assumes ok: "maps_ok (h_rv h)" and run: "unmap now ad len h = (x, h')" and pos: "0 \<le> ad" "0 \<le> len"
  shows "h_pid h' = h_pid h \<and> maps_ok (h_rv h') \<and>
    (case x of Inl e \<Rightarrow> h_rv h' = h_rv h | Inr _ \<Rightarrow> unmapped (ad - ad mod 4096) (al (ad + len)) (h_rv h) (h_rv h'))"
proof -
  let ?lo = "ad - ad mod 4096" and ?hi = "al (ad + len)"
  have lo: "0 \<le> ?lo" "?lo \<le> ?hi"
    using pos al_bounds(1) [of "ad + len"] pos_mod_sign [of 4096 ad] zmod_le_nonneg_dividend [OF pos(1), of 4096] by linarith+
  show ?thesis
  proof (cases "nat_in SAFE (?hi - ?lo) h")
    case (Pair y h0)
    then have h0: "h0 = h" by (auto simp: nat_in_run split: if_splits)
    show ?thesis
    proof (cases y)
      case (Inl e)
      then show ?thesis using run Pair h0 ok by (auto simp: unmap_def Let_def page_floor bnd_def)
    next
      case (Inr z)
      obtain w h1 where f: "flushShared now ?lo (int z) h = (w, h1)" by (cases "flushShared now ?lo (int z) h")
      have s: "h_rv h1 = h_rv h" "h_pid h1 = h_pid h"
        using keepsD [OF flush_still [of h now ?lo "int z"] still_refl] f by (auto simp: still_def)
      show ?thesis
      proof (cases w)
        case (Inl e)
        then show ?thesis using run Pair h0 Inr f s ok by (auto simp: unmap_def Let_def page_floor bnd_def)
      next
        case u: (Inr u)
        have "\<exists>m' ms. unmap_down ?lo ?hi (length (r_maps (h_rv h))) (h_rv h) = (Inr (), (h_rv h)\<lparr>r_m := m', r_maps := ms\<rparr>) \<and>
            maps_ok ((h_rv h)\<lparr>r_m := m', r_maps := ms\<rparr>) \<and>
            (\<forall>a. view ms a = (if ?lo \<le> a \<and> a < ?hi then {#} else view (r_maps (h_rv h)) a)) \<and>
            zeroed (\<lambda>a. ?lo \<le> a \<and> a < ?hi \<and> view (r_maps (h_rv h)) a \<noteq> {#}) (r_m (h_rv h)) m'"
          by (rule unmap_down_run [OF ok _ lo]) simp_all
        then obtain m' ms where d: "unmap_down ?lo ?hi (length (r_maps (h_rv h))) (h_rv h) = (Inr (), (h_rv h)\<lparr>r_m := m', r_maps := ms\<rparr>)"
          "maps_ok ((h_rv h)\<lparr>r_m := m', r_maps := ms\<rparr>)"
          "\<forall>a. view ms a = (if ?lo \<le> a \<and> a < ?hi then {#} else view (r_maps (h_rv h)) a)"
          "zeroed (\<lambda>a. ?lo \<le> a \<and> a < ?hi \<and> view (r_maps (h_rv h)) a \<noteq> {#}) (r_m (h_rv h)) m'" by blast
        have "x = Inr ()" "h' = h1\<lparr>h_rv := (h_rv h)\<lparr>r_m := m', r_maps := ms\<rparr>\<rparr>"
          using run Pair h0 Inr f u d(1) s by (simp_all add: unmap_def Let_def page_floor bnd_def asks_def on_rv_def)
        then show ?thesis using d s by (auto simp: unmapped_def)
      qed
    qed
  qed
qed


section \<open>The heap\<close>

definition brk_moves :: "rv \<Rightarrow> int \<Rightarrow> bool" where
  "brk_moves r n \<longleftrightarrow> n \<noteq> 0 \<and> r_floor r \<le> n \<and> n + MB < r_stackAt r"

lemma doBrk_run:
  assumes ok: "maps_ok r" and that: "brk_moves r n"
  shows "\<exists>m'. doBrk n r = (Inr n, r\<lparr>r_m := m', r_brk := n\<rparr>) \<and> zeroed (\<lambda>a. n \<le> a \<and> a < r_brk r) (r_m r) m'"
proof -
  have b: "0 \<le> n" "r_brk r \<le> m_top (r_m r)" "m_top (r_m r) \<le> SAFE" "mem_ok (r_m r)"
    using ok that by (auto simp: maps_ok_def brk_moves_def)
  have g: "\<not> (n < r_floor r \<or> r_stackAt r \<le> n + MB)" "n \<noteq> 0" using that by (auto simp: brk_moves_def)
  show ?thesis
  proof (cases "n < r_brk r")
    case True
    obtain m' where m': "on_mem (mem_drop n (nat (r_brk r - n))) r = (Inr (), r\<lparr>r_m := m'\<rparr>)" "zeroed (\<lambda>a. n \<le> a \<and> a < r_brk r) (r_m r) m'"
      using drop_range [OF b(4,1) _ b(2)] True by fastforce
    have "nat_in SAFE (r_brk r - n) = (ret (nat (r_brk r - n)) :: (rv, nat) kop)" using True b by (intro nat_safe) simp_all
    then have "doBrk n r = (Inr n, r\<lparr>r_m := m', r_brk := n\<rparr>)"
      using g True m'(1) that by (simp add: doBrk_def bnd_simple bnd_run(2)) (simp add: kop_run)
    then show ?thesis using m'(2) that by auto
  next
    case False
    have "doBrk n r = (Inr n, r\<lparr>r_m := r_m r, r_brk := n\<rparr>)"
      using g False by (simp add: doBrk_def bnd_simple kop_run)
    moreover have "zeroed (\<lambda>a. n \<le> a \<and> a < r_brk r) (r_m r) (r_m r)" by (rule zeroed_refl [OF b(4)]) (use False in simp)
    ultimately show ?thesis by (intro exI [of _ "r_m r"]) simp
  qed
qed

lemma doBrk_stays: "\<not> brk_moves r n \<Longrightarrow> doBrk n r = (Inr (r_brk r), r)"
  by (auto simp: doBrk_def brk_moves_def kop_simps)

lemma doBrk_ok: "maps_ok r \<Longrightarrow> maps_ok (snd (doBrk n r))"
proof (cases "brk_moves r n")
  case True
  assume ok: "maps_ok r"
  from doBrk_run [OF ok True] obtain m' where "snd (doBrk n r) = r\<lparr>r_m := m', r_brk := n\<rparr>" "zeroed (\<lambda>a. n \<le> a \<and> a < r_brk r) (r_m r) m'"
    using True by auto
  then show ?thesis using ok True by (auto simp: maps_ok_def zeroed_def brk_moves_def ent_ok_def MB_def)
qed (simp add: doBrk_stays)

section \<open>New mappings\<close>

lemma find_gap_free: "\<not> hits ms (find_gap ms ad z) z \<and> ad \<le> find_gap ms ad z"
proof (induction ms ad z rule: find_gap.induct)
  case (1 ms ad z)
  show ?case
  proof (cases "hits ms ad z")
    case True
    then have "find_gap ms ad z = find_gap ms (al (ad + 16 * MB)) z" by (simp add: find_gap.simps [of ms ad z])
    moreover have "ad \<le> al (ad + 16 * MB)" using al_bounds(1) [of "ad + 16 * MB"] by (simp add: MB_def)
    ultimately show ?thesis using 1 [OF True] by simp
  next
    case False
    then have "find_gap ms ad z = ad" by (subst find_gap.simps) simp
    then show ?thesis using False by simp
  qed
qed

lemma find_gap_page: "ad mod 4096 = 0 \<Longrightarrow> find_gap ms ad z mod 4096 = 0"
proof (induction ms ad z rule: find_gap.induct)
  case (1 ms ad z)
  then show ?case using al_bounds(3) [of "ad + 16 * MB"] by (subst find_gap.simps) simp
qed

lemma place_spec:
  assumes "maps_ok r" "place r addr z flags = Inr ad"
  shows "0 \<le> ad" "\<not> hits (r_maps r) ad z" "ad + z + MB < r_stackAt r" "flags AND 0x10 \<noteq> 0 \<Longrightarrow> ad = ux addr"
    "flags AND 0x10 = 0 \<Longrightarrow> ad mod 4096 = 0"
proof -
  note gap = find_gap_free [of "r_maps r" "r_mapAt r" z] find_gap_page [of "r_mapAt r" "r_maps r" z]
  have b: "0 \<le> al (ux addr)" "al (ux addr) mod 4096 = 0" "0 \<le> r_mapAt r" "r_mapAt r mod 4096 = 0"
    using assms(1) al_bounds [of "ux addr"] ux_pos [of addr] by (auto simp: maps_ok_def)
  show "0 \<le> ad" "\<not> hits (r_maps r) ad z" "ad + z + MB < r_stackAt r" "flags AND 0x10 \<noteq> 0 \<Longrightarrow> ad = ux addr"
      "flags AND 0x10 = 0 \<Longrightarrow> ad mod 4096 = 0"
    using assms(2) gap b ux_pos [of addr] unfolding place_def Let_def by (auto split: if_splits)
qed

lemma push_ok:
  assumes ok: "maps_ok r" and q: "e_at q = ad" "e_end q = ad + z" "e_prot q \<le> 7" "\<forall>f. e_off q = Some f \<longrightarrow> 0 \<le> f"
    and p: "\<not> hits (r_maps r) ad z" "0 \<le> ad" "0 < z" "ad + z + MB < r_stackAt r"
  shows "maps_ok (push_map q r)"
proof -
  have "size (view (r_maps r @ [q]) a) \<le> 1" for a
  proof (cases "ad \<le> a \<and> a < ad + z")
    case True
    then show ?thesis using no_hits [OF p(1)] by (simp add: seen_def)
  next
    case False
    then have "seen q a = {#}" by (auto simp: seen_def q)
    then show ?thesis using ok by (simp add: maps_ok_def)
  qed
  moreover have "ent_ok r q" using p q by (auto simp: ent_ok_def MB_def)
  moreover have "0 \<le> al (ad + z)" "al (ad + z) mod 4096 = 0" using al_bounds [of "ad + z"] p by auto
  ultimately show ?thesis using ok by (auto simp: maps_ok_def push_map_def ent_ok_def q)
qed


lemma bnd_nat_in: "bnd (nat_in hi n) f s = (if n < 0 \<or> hi < ux n then (Inl ERANGE, s) else f (nat (ux n)) s)"
  by (simp add: bnd_def nat_in_run)

lemma bnd_on_kern: "bnd (on_kern g) f h =
    (case g (h_pid h) (h_k h) of (Inl e, k) \<Rightarrow> (Inl e, h\<lparr>h_k := k\<rparr>) | (Inr v, k) \<Rightarrow> f v (h\<lparr>h_k := k\<rparr>))"
  by (simp add: bnd_def on_kern_def split: prod.split sum.split)

lemma bnd_on_rv: "bnd (on_rv g) f h =
    (case g (h_rv h) of (Inl e, r) \<Rightarrow> (Inl e, h\<lparr>h_rv := r\<rparr>) | (Inr v, r) \<Rightarrow> f v (h\<lparr>h_rv := r\<rparr>))"
  by (simp add: bnd_def on_rv_def split: prod.split sum.split)

lemma file_fd_run: "file_fd pid n k = (case ent_get (p_fds (proc_at k pid)) n of
    None \<Rightarrow> Inl EBADF | Some f \<Rightarrow> (case fd_path f of None \<Rightarrow> Inl EBADF | Some p \<Rightarrow> Inr (f, p)), k)"
  by (simp add: file_fd_def kop_simps of_option_def split: option.split)

text \<open>What a mapping of a file leaves in the memory.\<close>

definition filled :: "int \<Rightarrow> u8 list \<Rightarrow> rv \<Rightarrow> rv \<Rightarrow> bool" where
  "filled ad b r r' \<longleftrightarrow> (\<exists>m. r' = r\<lparr>r_m := m\<rparr> \<and> mem_ok m \<and> m_top m = m_top (r_m r) \<and> m_cap m = m_cap (r_m r) \<and>
     byte m = flat_write (nat ad) b (byte (r_m r)))"

lemma filled_nil: "mem_ok (r_m r) \<Longrightarrow> filled ad [] r r"
  unfolding filled_def by (intro exI [of _ "r_m r"]) (simp add: flat_write_def fun_eq_iff)

lemma write_filled:
  assumes "mem_ok (r_m r)" "in_range (r_m r) ad (length b)"
  shows "case on_mem (mem_write ad b) r of (Inr _, r') \<Rightarrow> filled ad b r r' | (Inl e, r') \<Rightarrow> e = ENOMEM \<and> (\<exists>k < length b. filled ad (take k b) r r')"
proof -
  obtain x m where m: "mem_write ad b (r_m r) = (x, m)" by (cases "mem_write ad b (r_m r)")
  have run: "on_mem (mem_write ad b) r = (x, r\<lparr>r_m := m\<rparr>)" by (simp add: on_mem_def m)
  show ?thesis using write_spec [OF assms] m unfolding run filled_def
    by (cases x) auto
qed

definition map_bytes :: "int \<Rightarrow> int \<Rightarrow> nat \<Rightarrow> int \<Rightarrow> int \<Rightarrow> host \<Rightarrow> u8 list option" where
  "map_bytes now ad z0 fd0 off0 h =
     (case ent_get (p_fds (proc_at (h_k h) (h_pid h))) (ux fd0) of
        Some f \<Rightarrow> (case fd_path f of
            Some p \<Rightarrow> (case fst (sys_readb now (h_pid h) p (h_k h)) of
                Inr b \<Rightarrow> Some (take z0 (drop (nat (ux off0)) b)) | Inl e \<Rightarrow> None)
          | None \<Rightarrow> None)
      | None \<Rightarrow> None)"

lemma map_file_eq: "map_file now ad z0 fd0 off0 h =
    (if fd0 < 0 \<or> 0x7fffffff < ux fd0 then (Inl ERANGE, h)
     else case ent_get (p_fds (proc_at (h_k h) (h_pid h))) (ux fd0) of
       None \<Rightarrow> (Inl EBADF, h)
     | Some f \<Rightarrow> (case fd_path f of
         None \<Rightarrow> (Inl EBADF, h)
       | Some p \<Rightarrow>
           if off0 < 0 \<or> SAFE < ux off0 then (Inl ERANGE, h)
           else case sys_readb now (h_pid h) p (h_k h) of
             (Inl e, k) \<Rightarrow> (Inl e, h\<lparr>h_k := k\<rparr>)
           | (Inr b, k) \<Rightarrow> (case on_mem (mem_write ad (take z0 (drop (nat (ux off0)) b))) (h_rv h) of
               (Inl e, r) \<Rightarrow> (Inl e, h\<lparr>h_k := k, h_rv := r\<rparr>)
             | (Inr _, r) \<Rightarrow> (Inr (Some p, Some (ux off0)), h\<lparr>h_k := k, h_rv := r\<rparr>))))"
proof (cases "fd0 < 0 \<or> 0x7fffffff < ux fd0")
  case False
  show ?thesis using False
    by (simp add: map_file_def bnd_nat_in bnd_on_kern file_fd_run bnd_on_rv ux_pos ret_def split: option.split prod.split sum.split)
qed (simp add: map_file_def bnd_nat_in)

lemma map_file_run:
  assumes ok: "mem_ok (r_m (h_rv h))" and r: "in_range (r_m (h_rv h)) ad z0" and run: "map_file now ad z0 fd0 off0 h = (x, h')"
  shows "h_pid h' = h_pid h \<and>
    (case x of
       Inl e \<Rightarrow> (\<exists>b. length b \<le> z0 \<and> filled ad b (h_rv h) (h_rv h')) \<and> (e \<noteq> ENOMEM \<longrightarrow> h_rv h' = h_rv h)
     | Inr (path, off) \<Rightarrow> (\<exists>b. map_bytes now ad z0 fd0 off0 h = Some b \<and> filled ad b (h_rv h) (h_rv h')) \<and>
         off = Some (ux off0) \<and> path \<noteq> None)"
proof -
  have early: ?thesis if "x = Inl e" "h_rv h' = h_rv h" "h_pid h' = h_pid h" for e
    using that filled_nil [OF ok] by (auto intro: exI [of _ "[]"])
  show ?thesis
  proof (cases "\<exists>f p b k. \<not> (fd0 < 0 \<or> 0x7fffffff < ux fd0) \<and> ent_get (p_fds (proc_at (h_k h) (h_pid h))) (ux fd0) = Some f \<and>
      fd_path f = Some p \<and> \<not> (off0 < 0 \<or> SAFE < ux off0) \<and> sys_readb now (h_pid h) p (h_k h) = (Inr b, k)")
    case False
    then have "\<exists>e k. x = Inl e \<and> h' = h\<lparr>h_k := k\<rparr> \<or> x = Inl e \<and> h' = h"
      using run unfolding map_file_eq by (auto split: if_splits option.splits prod.splits sum.splits)
    then show ?thesis using early by auto
  next
    case True
    then obtain f p all k where c: "\<not> (fd0 < 0 \<or> 0x7fffffff < ux fd0)" "ent_get (p_fds (proc_at (h_k h) (h_pid h))) (ux fd0) = Some f"
      "fd_path f = Some p" "\<not> (off0 < 0 \<or> SAFE < ux off0)" "sys_readb now (h_pid h) p (h_k h) = (Inr all, k)" by blast
    let ?b = "take z0 (drop (nat (ux off0)) all)"
    have len: "length ?b \<le> z0" by simp
    have rng: "in_range (r_m (h_rv h)) ad (length ?b)" using r len unfolding in_range_def by linarith
    obtain w r1 where w: "on_mem (mem_write ad ?b) (h_rv h) = (w, r1)" by (cases "on_mem (mem_write ad ?b) (h_rv h)")
    have mb: "map_bytes now ad z0 fd0 off0 h = Some ?b" using c by (simp add: map_bytes_def)
    show ?thesis
    proof (cases w)
      case (Inl e)
      then obtain j where j: "filled ad (take j ?b) (h_rv h) r1" "e = ENOMEM" using write_filled [OF ok rng] w by auto
      define b where "b = take j ?b"
      have "length b \<le> z0" "filled ad b (h_rv h) r1" using j by (simp_all add: b_def)
      then show ?thesis using run c w Inl j(2) unfolding map_file_eq by auto
    next
      case (Inr u)
      then have "filled ad ?b (h_rv h) r1" using write_filled [OF ok rng] w by auto
      then show ?thesis using run c w Inr mb unfolding map_file_eq by auto
    qed
  qed
qed


definition anonymous :: "int \<Rightarrow> int \<Rightarrow> bool" where
  "anonymous flags fd \<longleftrightarrow> nat (ux flags) AND 0x20 \<noteq> 0 \<or> fd < 0"

lemma anonymous_iff: "(nat (ux flags) AND 0x20 = 0 \<and> 0 \<le> fd) = (\<not> anonymous flags fd)"
  by (auto simp: anonymous_def)

lemma mmap_eq: "mmap now addr len prot flags fd off h =
    (if len < 0 \<or> SAFE < ux len then (Inl ERANGE, h)
     else if al (ux len) = 0 then (Inl EINVAL, h)
     else if prot < 0 \<or> 7 < ux prot then (Inl ERANGE, h)
     else if flags < 0 \<or> 0x7fffffff < ux flags then (Inl ERANGE, h)
     else case place (h_rv h) addr (al (ux len)) (nat (ux flags)) of
       Inl e \<Rightarrow> (Inl e, h)
     | Inr ad \<Rightarrow> bnd (if anonymous flags fd then ret (None, None) else map_file now ad (nat (ux len)) fd off) (\<lambda>(path, off).
         bnd (on_rv (modify (push_map
            \<lparr>e_at = ad, e_end = ad + al (ux len), e_prot = nat (ux prot), e_shared = nat (ux flags) AND 1 \<noteq> 0, e_path = path, e_off = off\<rparr>))) (\<lambda>_.
         ret ad)) h)"
  unfolding mmap_def Let_def
  by (simp only: bnd_nat_in bnd_simple of_result_def anonymous_iff if_not_P) (simp add: ux_pos bnd_simple anonymous_iff split: sum.split)

text \<open>The new mapping in front of what there was.\<close>

lemma push_view: "view (r_maps (push_map q r)) a = view (r_maps r) a + seen q a"
  by (simp add: push_map_def)

definition mapped_new :: "int \<Rightarrow> int \<Rightarrow> int \<Rightarrow> int \<Rightarrow> int \<Rightarrow> int \<Rightarrow> host \<Rightarrow> int \<Rightarrow> rv \<Rightarrow> bool" where
  "mapped_new now len prot flags fd off h ad r' \<longleftrightarrow>
     (\<exists>q r1. e_at q = ad \<and> e_end q = ad + al (ux len) \<and> e_prot q = nat (ux prot) \<and> (e_shared q \<longleftrightarrow> nat (ux flags) AND 1 \<noteq> 0) \<and>
        r' = push_map q r1 \<and>
        (if anonymous flags fd then e_path q = None \<and> e_off q = None \<and> r1 = h_rv h
         else e_off q = Some (ux off) \<and> e_path q \<noteq> None \<and>
           (\<exists>b. map_bytes now ad (nat (ux len)) fd off h = Some b \<and> filled ad b (h_rv h) r1)))"

lemma filled_same: "filled ad b r r' \<Longrightarrow> maps_ok r \<Longrightarrow> maps_ok r' \<and> r_maps r' = r_maps r \<and> r_stackAt r' = r_stackAt r"
  by (auto simp: filled_def maps_ok_def ent_ok_def)

lemma mmap_run:
  assumes ok: "maps_ok (h_rv h)" and run: "mmap now addr len prot flags fd off h = (x, h')"
  shows "h_pid h' = h_pid h \<and> maps_ok (h_rv h') \<and>
    (case x of
       Inl e \<Rightarrow> (\<exists>ad b. (anonymous flags fd \<or> e \<noteq> ENOMEM \<longrightarrow> h_rv h' = h_rv h) \<and> 0 \<le> ad \<and> filled ad b (h_rv h) (h_rv h'))
     | Inr ad \<Rightarrow> 0 \<le> len \<and> ux len \<le> SAFE \<and> 0 < al (ux len) \<and> place (h_rv h) addr (al (ux len)) (nat (ux flags)) = Inr ad \<and>
         mapped_new now len prot flags fd off h ad (h_rv h'))"
proof -
  have mok: "mem_ok (r_m (h_rv h))" using ok by (simp add: maps_ok_def)
  have early: ?thesis if "x = Inl e" "h' = h" for e
    using that ok filled_nil [OF mok, of 0] by auto
  show ?thesis
  proof (cases "\<exists>ad. \<not> (len < 0 \<or> SAFE < ux len) \<and> al (ux len) \<noteq> 0 \<and> \<not> (prot < 0 \<or> 7 < ux prot) \<and> \<not> (flags < 0 \<or> 0x7fffffff < ux flags) \<and>
      place (h_rv h) addr (al (ux len)) (nat (ux flags)) = Inr ad")
    case False
    have "\<exists>e. x = Inl e \<and> h' = h"
    proof (cases "place (h_rv h) addr (al (ux len)) (nat (ux flags))")
      case (Inl e)
      show ?thesis using run unfolding mmap_eq Inl by (simp split: if_splits) blast+
    next
      case (Inr ad)
      then show ?thesis using run False unfolding mmap_eq by (auto split: if_splits)
    qed
    then show ?thesis using early by blast
  next
    case True
    then obtain ad where c: "\<not> (len < 0 \<or> SAFE < ux len)" "al (ux len) \<noteq> 0" "\<not> (prot < 0 \<or> 7 < ux prot)"
      "\<not> (flags < 0 \<or> 0x7fffffff < ux flags)" "place (h_rv h) addr (al (ux len)) (nat (ux flags)) = Inr ad" by blast
    note pl = place_spec [OF ok c(5)]
    have z: "0 < al (ux len)" "ux len \<le> al (ux len)" using c(2) al_bounds(1) [of "ux len"] ux_pos [of len] by linarith+
    let ?q = "\<lambda>p f. \<lparr>e_at = ad, e_end = ad + al (ux len), e_prot = nat (ux prot), e_shared = nat (ux flags) AND 1 \<noteq> 0, e_path = p, e_off = f\<rparr>"
    have new: "?thesis" if "x = Inr ad" "h_rv h' = push_map (?q p f) r1" "h_pid h' = h_pid h" "\<forall>v. f = Some v \<longrightarrow> 0 \<le> v"
        "maps_ok r1 \<and> r_maps r1 = r_maps (h_rv h) \<and> r_stackAt r1 = r_stackAt (h_rv h)"
        "if anonymous flags fd then p = None \<and> f = None \<and> r1 = h_rv h
         else f = Some (ux off) \<and> p \<noteq> None \<and> (\<exists>b. map_bytes now ad (nat (ux len)) fd off h = Some b \<and> filled ad b (h_rv h) r1)" for p f r1
    proof -
      have "nat (ux prot) \<le> 7" using c(3) by linarith
      then have "maps_ok (push_map (?q p f) r1)" using that pl z by (intro push_ok [of _ _ ad "al (ux len)"]) simp_all
      moreover have "mapped_new now len prot flags fd off h ad (push_map (?q p f) r1)"
        unfolding mapped_new_def by (intro exI [of _ "?q p f"] exI [of _ r1]) (use that(6) in simp)
      ultimately show ?thesis using that(1-3) c z by simp
    qed
    show ?thesis
    proof (cases "anonymous flags fd")
      case True
      then have "x = Inr ad" "h' = h\<lparr>h_rv := push_map (?q None None) (h_rv h)\<rparr>"
        using run c by (simp_all add: mmap_eq bnd_simple bnd_on_rv ret_def modify_def)
      then show ?thesis using new [of None None "h_rv h"] True ok by simp
    next
      case False
      then have a: "\<not> anonymous flags fd" .
      obtain y h1 where y: "map_file now ad (nat (ux len)) fd off h = (y, h1)" by (cases "map_file now ad (nat (ux len)) fd off h")
      have "m_top (r_m (h_rv h)) \<ge> r_stackAt (h_rv h)" using ok by (simp add: maps_ok_def)
      then have rng: "in_range (r_m (h_rv h)) ad (nat (ux len))" using pl z ux_pos [of len] by (simp add: in_range_def MB_def)
      note f = map_file_run [OF mok rng y]
      show ?thesis
      proof (cases y)
        case (Inl e)
        then obtain b where b: "filled ad b (h_rv h) (h_rv h1)" and e: "e \<noteq> ENOMEM \<longrightarrow> h_rv h1 = h_rv h" using f by auto
        have "x = Inl e" "h' = h1" using run c a y Inl by (simp_all add: mmap_eq bnd_def)
        then show ?thesis using False b e f filled_same [OF b ok] pl(1) by auto
      next
        case (Inr v)
        then obtain p g where v: "y = Inr (p, g)" by (cases v) simp
        then obtain b where b: "map_bytes now ad (nat (ux len)) fd off h = Some b" "filled ad b (h_rv h) (h_rv h1)"
          "g = Some (ux off)" "p \<noteq> None" "h_pid h1 = h_pid h" using f by auto
        have "x = Inr ad" "h' = h1\<lparr>h_rv := push_map (?q p g) (h_rv h1)\<rparr>"
          using run c a y v by (simp_all add: mmap_eq bnd_def [of "map_file now ad z0 fd off" for ad z0] bnd_on_rv ret_def modify_def)
        then show ?thesis using new [of p g "h_rv h1"] b False filled_same [OF b(2) ok] ux_pos [of off] by simp
      qed
    qed
  qed
qed


section \<open>Fresh memory\<close>

text \<open>The bytes that are not zero lie where the program has memory: what it gets later is zero.\<close>

definition covered :: "rv \<Rightarrow> int \<Rightarrow> bool" where
  "covered r a \<longleftrightarrow> (\<exists>s \<in> set (r_seg r). s_at s \<le> a \<and> a < s_end s) \<or> r_floor r \<le> a \<and> a < r_brk r \<or> r_stackAt r \<le> a \<or>
     view (r_maps r) a \<noteq> {#}"

definition tidy :: "rv \<Rightarrow> bool" where
  "tidy r \<longleftrightarrow> (\<forall>a. byte (r_m r) a \<noteq> 0 \<longrightarrow> covered r (int a))"

lemma writable_covered: "writable r a \<Longrightarrow> covered r a"
  using seen_in_view by (auto simp: writable_def covered_def)

lemma tidy_safe:
  assumes "safe r0 r" "tidy r0"
  shows "tidy r"
  unfolding tidy_def
proof (intro allI impI)
  fix a assume a: "byte (r_m r) a \<noteq> 0"
  have "covered r0 (int a)"
  proof (cases "byte (r_m r) a = byte (r_m r0) a")
    case True
    then show ?thesis using a assms(2) by (simp add: tidy_def)
  next
    case False
    then show ?thesis using assms(1) writable_covered by (simp add: safe_def)
  qed
  then show "covered r (int a)" using assms(1) by (simp add: safe_def same_map_def covered_def)
qed

lemma tidy_step: "rv_ok r \<Longrightarrow> tidy r \<Longrightarrow> tidy (snd (rv_step j now r))"
  using tidy_safe keepsD [OF step_keeps safe_refl] by blast

lemma tidy_unmapped: "unmapped lo hi r r' \<Longrightarrow> tidy r \<Longrightarrow> tidy r'"
  unfolding unmapped_def by (auto simp: tidy_def zeroed_def covered_def split: if_splits)

lemma tidy_brk:
  assumes "tidy r" "zeroed (\<lambda>a. n \<le> a \<and> a < r_brk r) (r_m r) m" "r_floor r \<le> n"
  shows "tidy (r\<lparr>r_m := m, r_brk := n\<rparr>)"
  using assms by (auto simp: tidy_def zeroed_def covered_def)

lemma tidy_push: "tidy r \<Longrightarrow> tidy (push_map q r)"
  by (auto simp: tidy_def covered_def push_map_def)

lemma tidy_filled:
  assumes "tidy r" "filled ad b r r'" "0 \<le> ad" "\<And>a. ad \<le> a \<Longrightarrow> a < ad + int (length b) \<Longrightarrow> covered r a"
  shows "tidy r'"
  unfolding tidy_def
proof (intro allI impI)
  fix a assume a: "byte (r_m r') a \<noteq> 0"
  have c: "covered r' = covered r" using assms(2) by (auto simp: filled_def covered_def fun_eq_iff)
  show "covered r' (int a)"
  proof (cases "nat ad \<le> a \<and> a < nat ad + length b")
    case True
    then show ?thesis using assms(3,4) c by auto
  next
    case False
    then have "byte (r_m r) a \<noteq> 0" using a assms(2) flat_out [of "nat ad" a b] by (auto simp: filled_def)
    then show ?thesis using assms(1) c by (simp add: tidy_def)
  qed
qed

lemma doBrk_tidy: "maps_ok r \<Longrightarrow> tidy r \<Longrightarrow> tidy (snd (doBrk n r))"
proof (cases "brk_moves r n")
  case True
  assume ok: "maps_ok r" "tidy r"
  from doBrk_run [OF ok(1) True] obtain m' where "snd (doBrk n r) = r\<lparr>r_m := m', r_brk := n\<rparr>" "zeroed (\<lambda>a. n \<le> a \<and> a < r_brk r) (r_m r) m'"
    by auto
  then show ?thesis using tidy_brk [OF ok(2)] True by (simp add: brk_moves_def)
qed (simp add: doBrk_stays)

lemma push_covers: "e_at q \<le> a \<Longrightarrow> a < e_end q \<Longrightarrow> covered (push_map q r) a"
  by (simp add: covered_def push_view seen_def)

lemma mmap_tidy:
  assumes ok: "maps_ok (h_rv h)" "tidy (h_rv h)" and run: "mmap now addr len prot flags fd off h = (x, h')" and "anonymous flags fd \<or> x \<noteq> Inl ENOMEM \<or> h_rv h' = h_rv h"
  shows "tidy (h_rv h')"
proof (cases x)
  case (Inl e)
  then show ?thesis using mmap_run [OF ok(1) run] assms(2,4) by auto
next
  case (Inr ad)
  note r = mmap_run [OF ok(1) run]
  obtain q r1 where q: "e_at q = ad" "e_end q = ad + al (ux len)" "h_rv h' = push_map q r1" and
    c: "if anonymous flags fd then e_path q = None \<and> e_off q = None \<and> r1 = h_rv h
         else e_off q = Some (ux off) \<and> e_path q \<noteq> None \<and>
           (\<exists>b. map_bytes now ad (nat (ux len)) fd off h = Some b \<and> filled ad b (h_rv h) r1)"
    using r Inr by (auto simp: mapped_new_def)
  have ad: "0 \<le> ad" using r Inr place_spec(1) [OF ok(1)] by auto
  show ?thesis
  proof (cases "anonymous flags fd")
    case True
    then show ?thesis using c q tidy_push [OF ok(2)] by simp
  next
    case False
    then obtain b where b: "map_bytes now ad (nat (ux len)) fd off h = Some b" "filled ad b (h_rv h) r1" using c by auto
    have "length b \<le> nat (ux len)" using b(1) by (auto simp: map_bytes_def split: option.splits sum.splits)
    then have len: "int (length b) \<le> al (ux len)" using al_bounds(1) [of "ux len"] ux_pos [of len] by linarith
    obtain m where m: "r1 = (h_rv h)\<lparr>r_m := m\<rparr>" "mem_ok m" "m_top m = m_top (r_m (h_rv h))" "m_cap m = m_cap (r_m (h_rv h))"
      "byte m = flat_write (nat ad) b (byte (r_m (h_rv h)))" using b(2) by (auto simp: filled_def)
    have "push_map q r1 = (push_map q (h_rv h))\<lparr>r_m := m\<rparr>" "r_m (push_map q (h_rv h)) = r_m (h_rv h)" by (simp_all add: m(1) push_map_def)
    then have "filled ad b (push_map q (h_rv h)) (push_map q r1)" unfolding filled_def using m by (intro exI [of _ m]) simp
    then show ?thesis unfolding q(3)
      by (rule tidy_filled [OF tidy_push [OF ok(2)] _ ad]) (use len q in \<open>auto intro: push_covers\<close>)
  qed
qed

section \<open>Moving\<close>

lemma filled_append:
  assumes "filled ad b r r1" "filled (ad + int (length b)) c r1 r2" "0 \<le> ad"
  shows "filled ad (b @ c) r r2"
proof -
  have "nat (ad + int (length b)) = nat ad + length b" using assms(3) by linarith
  then show ?thesis using assms(1,2) by (auto simp: filled_def flat_write_append)
qed

lemma filled_ok: "filled ad b r r' \<Longrightarrow> mem_ok (r_m r') \<and> m_top (r_m r') = m_top (r_m r)"
  by (auto simp: filled_def)

lemma at_bytes_take: "z \<le> n \<Longrightarrow> take z (at_bytes f a n) = at_bytes f a z"
  by (rule nth_equalityI) simp_all

lemma at_bytes_append: "at_bytes f a z @ at_bytes f (a + z) k = at_bytes f a (z + k)"
  by (rule nth_equalityI) (auto simp: nth_append)

lemma copy_chunk:
  assumes ok: "mem_ok (r_m r)" and pos: "0 \<le> old" "0 \<le> to" and rng: "in_range (r_m r) old n" "in_range (r_m r) to n"
    and apart: "old + int n \<le> to \<or> to + int n \<le> old" and kz: "k + z \<le> n"
    and f: "filled to (at_bytes (byte (r_m r)) (nat old) k) r r1"
  shows "case bnd (on_mem (mem_read (old + int k) z)) (\<lambda>b. on_mem (mem_write (to + int k) b)) r1 of
      (Inr _, r2) \<Rightarrow> filled to (at_bytes (byte (r_m r)) (nat old) (k + z)) r r2
    | (Inl e, r2) \<Rightarrow> e = ENOMEM \<and> (\<exists>b. length b \<le> n \<and> filled to b r r2)"
proof -
  let ?bs = "at_bytes (byte (r_m r)) (nat old)"
  note f1 = filled_ok [OF f]
  have r1: "in_range (r_m r1) (old + int k) z" "in_range (r_m r1) (to + int k) z" using rng kz f1 pos by (simp_all add: in_range_def)
  have same: "byte (r_m r1) (nat old + k + i) = byte (r_m r) (nat old + k + i)" if "i < z" for i
  proof -
    have "\<not> (nat to \<le> nat old + k + i \<and> nat old + k + i < nat to + length (?bs k))" using apart that kz pos by (auto; linarith)
    then show ?thesis using f flat_out [of "nat to" "nat old + k + i" "?bs k" "byte (r_m r)"] by (auto simp: filled_def)
  qed
  have "nat (old + int k) = nat old + k" using pos by linarith
  then have rd: "mem_read (old + int k) z (r_m r1) = (Inr (at_bytes (byte (r_m r)) (nat old + k) z), r_m r1)"
    using r1 same f1 by (simp add: read_spec at_bytes_def)
  let ?c = "at_bytes (byte (r_m r)) (nat old + k) z"
  have w: "case on_mem (mem_write (to + int k) ?c) r1 of
      (Inr _, r2) \<Rightarrow> filled (to + int k) ?c r1 r2 | (Inl e, r2) \<Rightarrow> e = ENOMEM \<and> (\<exists>j < length ?c. filled (to + int k) (take j ?c) r1 r2)"
    by (rule write_filled) (use f1 r1 in simp_all)
  have app: "filled to (?bs k @ x) r r2" if "filled (to + int k) x r1 r2" for x r2
    using filled_append [OF f _ pos(2)] that by simp
  have run: "bnd (on_mem (mem_read (old + int k) z)) (\<lambda>b. on_mem (mem_write (to + int k) b)) r1 = on_mem (mem_write (to + int k) ?c) r1"
    using rd by (simp add: bnd_def on_mem_def)
  show ?thesis
  proof (cases "on_mem (mem_write (to + int k) ?c) r1")
    case (Pair x r2)
    show ?thesis
    proof (cases x)
      case (Inl e)
      then obtain j where j: "e = ENOMEM" "filled (to + int k) (take j ?c) r1 r2" using w Pair by auto
      have "length (?bs k @ take j ?c) \<le> n" using kz by simp
      then have "\<exists>b. length b \<le> n \<and> filled to b r r2" using app [OF j(2)] by blast
      then show ?thesis using j(1) run Pair Inl by simp
    next
      case (Inr u)
      then show ?thesis using w app [of ?c r2] run Pair by (simp add: at_bytes_append)
    qed
  qed
qed

lemma copy_run:
  assumes ok: "mem_ok (r_m r)" and pos: "0 \<le> old" "0 \<le> to" and rng: "in_range (r_m r) old n" "in_range (r_m r) to n"
    and apart: "old + int n \<le> to \<or> to + int n \<le> old"
  shows "case copy_mem old to n r of
      (Inr _, r2) \<Rightarrow> filled to (at_bytes (byte (r_m r)) (nat old) n) r r2
    | (Inl e, r2) \<Rightarrow> e = ENOMEM \<and> (\<exists>b. length b \<le> n \<and> filled to b r r2)"
proof -
  let ?bs = "at_bytes (byte (r_m r)) (nat old)"
  let ?f = "\<lambda>i. let k = 65536 * i; z = min 65536 (n - k) in
     bnd (on_mem (mem_read (old + int k) z)) (\<lambda>b. on_mem (mem_write (to + int k) b))"
  let ?e = "(n + 65535) div 65536"
  have chunks: "case mapk ?f [j..<?e] r1 of
      (Inr _, r2) \<Rightarrow> filled to (?bs n) r r2 | (Inl e, r2) \<Rightarrow> e = ENOMEM \<and> (\<exists>b. length b \<le> n \<and> filled to b r r2)"
    if "j \<le> ?e" "filled to (?bs (min (65536 * j) n)) r r1" for j r1
    using that
  proof (induction "?e - j" arbitrary: j r1)
    case 0
    then have "j = ?e" by simp
    moreover have "n \<le> 65536 * ?e" using mod_less_divisor [of 65536 "n + 65535"] mult_div_mod_eq [of 65536 "n + 65535"] by linarith
    ultimately have "min (65536 * j) n = n" by simp
    then show ?case using 0 \<open>j = ?e\<close> by (simp only:) (simp add: ret_def)
  next
    case (Suc d)
    then have j: "j < ?e" by simp
    then have lt: "65536 * j < n" by linarith
    let ?k = "65536 * j"
    let ?z = "min 65536 (n - ?k)"
    have kz: "?k + ?z \<le> n" "min (65536 * Suc j) n = ?k + ?z" using lt by simp_all
    have f: "filled to (?bs ?k) r r1" using Suc.prems(2) lt by (simp add: min_def)
    note step = copy_chunk [OF ok pos rng apart kz(1) f]
    have run: "mapk ?f [j..<?e] r1 = bnd (?f j) (\<lambda>y. bnd (mapk ?f [Suc j..<?e]) (\<lambda>ys. ret (y # ys))) r1"
      by (simp only: upt_conv_Cons [OF j] mapk.simps)
    obtain x r2 where x: "?f j r1 = (x, r2)" by (cases "?f j r1")
    show ?case
    proof (cases x)
      case (Inl e)
      then show ?thesis using step x unfolding run by (simp add: bnd_def Let_def)
    next
      case (Inr u)
      then have "filled to (?bs (min (65536 * Suc j) n)) r r2" using step x unfolding kz(2) by (simp add: Let_def)
      with Suc.hyps(1) [of "Suc j" r2] Suc.hyps(2) j have IH: "case mapk ?f [Suc j..<?e] r2 of
          (Inr _, r3) \<Rightarrow> filled to (?bs n) r r3 | (Inl e, r3) \<Rightarrow> e = ENOMEM \<and> (\<exists>b. length b \<le> n \<and> filled to b r r3)" by simp
      have "mapk ?f [j..<?e] r1 = bnd (mapk ?f [Suc j..<?e]) (\<lambda>ys. ret (u # ys)) r2"
        unfolding run using x Inr by (simp add: bnd_def Let_def)
      then show ?thesis using IH by (cases "mapk ?f [Suc j..<?e] r2"; cases "fst (mapk ?f [Suc j..<?e] r2)") (simp_all add: bnd_def ret_def)
    qed
  qed
  have "filled to (?bs (min (65536 * 0) n)) r r" using filled_nil [OF ok] by (simp add: at_bytes_def)
  from chunks [OF _ this] show ?thesis
    unfolding copy_mem_def
    by (cases "mapk ?f [0..<?e] r"; cases "fst (mapk ?f [0..<?e] r)") (simp_all add: bnd_def ret_def)
qed


lemma map_index_Some:
  assumes "map_index ms ad en = Some i"
  shows "i < length ms" "e_at (ms ! i) = ad" "e_end (ms ! i) = en"
  using assms by (auto simp: map_index_def find_Some_iff)

lemma al_add: "ad mod 4096 = 0 \<Longrightarrow> al (ad + n) = ad + al n"
proof -
  assume "ad mod 4096 = 0"
  then obtain k where k: "ad = k * 4096" by auto
  have "(k * 4096 + (n + 4095)) div 4096 = k + (n + 4095) div 4096" by (rule div_mult_self3) simp
  then show "al (ad + n) = ad + al n" unfolding al_div k by (simp add: add.assoc distrib_right)
qed

lemma page_mod: "ad AND (PAGE - 1) = 0 \<longleftrightarrow> ad mod 4096 = 0"
proof -
  have "PAGE - 1 = mask 12" by (simp add: PAGE_def mask_eq_exp_minus_1)
  then show ?thesis by (simp only: take_bit_eq_mask [symmetric]) (simp add: take_bit_eq_mod)
qed

lemma set_end_view:
  assumes "i < length (r_maps r)"
  shows "view (r_maps (set_end i en r)) a + seen (r_maps r ! i) a = view (r_maps r) a + seen ((r_maps r ! i)\<lparr>e_end := en\<rparr>) a"
  using view_split [OF assms, of a] view_update [OF assms, of "(r_maps r ! i)\<lparr>e_end := en\<rparr>" a]
  by (simp add: set_end_def ac_simps)

lemma seen_end: "seen (q\<lparr>e_end := en\<rparr>) a = (if e_at q \<le> a \<and> a < en then {#attr_at q a#} else {#})"
  by (simp add: seen_def attr_at_def)

lemma set_end_ok:
  assumes ok: "maps_ok r" and i: "i < length (r_maps r)" and en: "e_at (r_maps r ! i) < en" "en \<le> r_stackAt r"
    and free: "\<And>a. e_end (r_maps r ! i) \<le> a \<Longrightarrow> a < en \<Longrightarrow> view (r_maps r) a = {#}"
  shows "maps_ok (set_end i en r)"
proof -
  let ?q = "r_maps r ! i"
  have q: "ent_ok r ?q" by (rule maps_ent [OF ok i])
  have "size (view (r_maps (set_end i en r)) a) \<le> 1" for a
  proof -
    have s: "size (view (r_maps r) a) \<le> 1" using ok by (simp add: maps_ok_def)
    have e: "size (view (r_maps (set_end i en r)) a) + size (seen ?q a) = size (view (r_maps r) a) + size (seen (?q\<lparr>e_end := en\<rparr>) a)"
      using set_end_view [OF i, of en a] by (metis size_union)
    show ?thesis
    proof (cases "e_end ?q \<le> a \<and> a < en")
      case True
      then show ?thesis using e free [of a] by (auto simp: seen_end seen_def split: if_splits)
    next
      case False
      then have "size (seen (?q\<lparr>e_end := en\<rparr>) a) \<le> size (seen ?q a)" using q by (auto simp: seen_end seen_def attr_at_def)
      then show ?thesis using e s by linarith
    qed
  qed
  moreover have "\<forall>p \<in> set ((r_maps r)[i := ?q\<lparr>e_end := en\<rparr>]). ent_ok r p"
    using ok q en i set_update_subset_insert [of "r_maps r" i "?q\<lparr>e_end := en\<rparr>"]
    by (auto simp: maps_ok_def ent_ok_def dest!: subsetD)
  ultimately show ?thesis using ok by (simp add: maps_ok_def set_end_def ent_ok_def)
qed

lemma not_grows:
  assumes "\<not> grows_into (r_maps r) i old en" "i < length (r_maps r)" "e_at (r_maps r ! i) = old" "e_end (r_maps r ! i) \<le> a" "a < en" "old \<le> a"
  shows "view (r_maps r) a = {#}"
proof (rule view_none)
  fix q assume "q \<in> set (r_maps r)"
  then obtain j where j: "j < length (r_maps r)" "q = r_maps r ! j" by (auto simp: in_set_conv_nth)
  show "a < e_at q \<or> e_end q \<le> a"
  proof (cases "j = i")
    case False
    then have "\<not> (old < e_end q \<and> e_at q < en)" using assms(1) j by (auto simp: grows_into_def)
    then show ?thesis using assms(5,6) by linarith
  qed (use assms(4) j in simp)
qed


lemma bnd_still: "(\<And>h0. keeps (still h0) g) \<Longrightarrow> bnd g f h =
    (case g h of (Inl e, h1) \<Rightarrow> (Inl e, h\<lparr>h_k := h_k h1\<rparr>) | (Inr v, h1) \<Rightarrow> f v (h\<lparr>h_k := h_k h1\<rparr>))"
proof -
  assume "\<And>h0. keeps (still h0) g"
  then have "still h (snd (g h))" using still_refl by (rule keepsD)
  then have "snd (g h) = h\<lparr>h_k := h_k (snd (g h))\<rparr>" by (auto simp: still_def)
  then show ?thesis by (cases "g h") (auto simp: bnd_def split: sum.split)
qed

lemmas bnd_first = bnd_def [of "mmap a b c d e f g" for a b c d e f g] bnd_def [of "unmap a b c" for a b c]

definition reframed :: "rv \<Rightarrow> rv \<Rightarrow> bool" where
  "reframed r r' \<longleftrightarrow> (\<exists>m ms k. r' = r\<lparr>r_m := m, r_maps := ms, r_mapAt := k\<rparr>)"

lemma reframedI: "reframed r (r\<lparr>r_m := m, r_maps := ms, r_mapAt := k\<rparr>)"
  by (auto simp: reframed_def)

text \<open>A mapping after its movement: the bytes, the rights, and what is no longer mapped.\<close>

definition remapped :: "int \<Rightarrow> int \<Rightarrow> int \<Rightarrow> int \<Rightarrow> nat \<Rightarrow> rv \<Rightarrow> rv \<Rightarrow> bool" where
  "remapped old oz to nz n r r' \<longleftrightarrow>
     reframed r r' \<and>
     (\<forall>a. byte (r_m r') a =
        (if to \<le> int a \<and> int a < to + int n then byte (r_m r) (nat (old + (int a - to)))
         else if old \<le> int a \<and> int a < old + oz \<and> \<not> (to \<le> int a \<and> int a < to + nz) then 0 else byte (r_m r) a)) \<and>
     (\<forall>a. image_mset fst (view (r_maps r') a) =
        (if to \<le> a \<and> a < to + nz then image_mset fst (view (r_maps r) old)
         else if old \<le> a \<and> a < old + oz then {#} else image_mset fst (view (r_maps r) a)))"

lemma view_one:
  assumes "maps_ok r" "i < length (r_maps r)" "e_at (r_maps r ! i) \<le> a" "a < e_end (r_maps r ! i)"
  shows "view (r_maps r) a = {#attr_at (r_maps r ! i) a#}"
proof -
  have "seen (r_maps r ! i) a = {#attr_at (r_maps r ! i) a#}" using assms(3,4) by (simp add: seen_def)
  moreover have "size (view (r_maps r) a) \<le> 1" using assms(1) by (simp add: maps_ok_def)
  ultimately show ?thesis using view_split [OF assms(2), of a] by (auto simp: size_Suc_Diff1)
qed

lemma set_end_mem [simp]: "r_m (set_end i en r) = r_m r"
  by (simp add: set_end_def)

lemma frame_end: "reframed r (set_end i en (r\<lparr>r_m := m\<rparr>))" "reframed r (set_end i en r)"
  using reframedI [where r = r and m = m and ms = "r_maps (set_end i en r)" and k = "r_mapAt r"]
    reframedI [where r = r and m = "r_m r" and ms = "r_maps (set_end i en r)" and k = "r_mapAt r"]
  by (simp_all add: set_end_def)

lemma fst_attr [simp]: "fst (attr_at q a) = e_prot q"
  by (simp add: attr_at_def)

lemma set_end_view_at:
  assumes ok: "maps_ok r" and i: "i < length (r_maps r)" and q: "q = r_maps r ! i"
    and free: "\<And>a. e_end q \<le> a \<Longrightarrow> a < en \<Longrightarrow> view (r_maps r) a = {#}"
  shows "view (r_maps (set_end i en r)) a = (if e_at q \<le> a \<and> a < en then {#attr_at q a#} else if e_at q \<le> a \<and> a < e_end q then {#} else view (r_maps r) a)"
proof -
  have one: "e_at q \<le> a \<Longrightarrow> a < e_end q \<Longrightarrow> view (r_maps r) a = {#attr_at q a#}"
    using view_one [OF ok i] q by simp
  have "view (r_maps (set_end i en r)) a + seen q a = view (r_maps r) a + (if e_at q \<le> a \<and> a < en then {#attr_at q a#} else {#})"
    using set_end_view [OF i, of en a] unfolding q [symmetric] by (simp add: seen_end)
  then show ?thesis using one free [of a] by (cases "e_at q \<le> a \<and> a < en"; cases "a < e_end q") (auto simp: seen_def)
qed

lemma end_covers: "covered (set_end i en r) a = (covered r a \<and> view (r_maps r) a = {#} \<or> view (r_maps (set_end i en r)) a \<noteq> {#} \<or>
    view (r_maps r) a \<noteq> {#} \<and> covered (r\<lparr>r_maps := []\<rparr>) a)"
  by (auto simp: covered_def set_end_def)

lemma remap_in_place:
  assumes ok: "maps_ok r" and i: "i < length (r_maps r)" and q: "q = r_maps r ! i" "e_at q = old" "e_end q = old + oz"
    and nz: "0 < nz" "old + nz \<le> r_stackAt r" "oz \<le> nz" "\<not> grows_into (r_maps r) i old (old + nz)" and n: "int n \<le> oz"
  shows "maps_ok (set_end i (old + nz) r) \<and> (tidy r \<longrightarrow> tidy (set_end i (old + nz) r)) \<and>
    remapped old oz old nz n r (set_end i (old + nz) r)"
proof -
  have free: "view (r_maps r) a = {#}" if "e_end q \<le> a" "a < old + nz" for a
    using not_grows [OF nz(4) i, of a] that q maps_ent [OF ok i] by (simp add: ent_ok_def)
  have "old < old + oz" using maps_ent [OF ok i] q by (simp add: ent_ok_def)
  then have "view (r_maps r) old = {#attr_at q old#}" using view_one [OF ok i, of old] q by simp
  moreover have "maps_ok (set_end i (old + nz) r)" using free nz q by (intro set_end_ok [OF ok i]) auto
  moreover have "tidy r \<longrightarrow> tidy (set_end i (old + nz) r)"
    using set_end_view_at [OF ok i q(1), of "old + nz"] free q nz end_covers [of i "old + nz" r] by (auto simp: tidy_def)
  ultimately show ?thesis
    using set_end_view_at [OF ok i q(1), of "old + nz"] free q nz maps_ent [OF ok i]
    by (auto simp: remapped_def frame_end)
qed

lemma remap_shrink:
  assumes ok: "maps_ok r" and i: "i < length (r_maps r)" and q: "q = r_maps r ! i" "e_at q = old" "e_end q = old + oz"
    and nz: "0 < nz" "nz < oz" and n: "int n \<le> nz" and m: "zeroed (\<lambda>a. old + nz \<le> a \<and> a < old + oz) (r_m r) m"
  shows "maps_ok (set_end i (old + nz) (r\<lparr>r_m := m\<rparr>)) \<and> (tidy r \<longrightarrow> tidy (set_end i (old + nz) (r\<lparr>r_m := m\<rparr>))) \<and> remapped old oz old nz n r (set_end i (old + nz) (r\<lparr>r_m := m\<rparr>))"
proof -
  let ?r = "r\<lparr>r_m := m\<rparr>"
  have e: "0 \<le> old" "old + oz \<le> r_stackAt r" using maps_ent [OF ok i] q by (auto simp: ent_ok_def)
  have ok1: "maps_ok ?r" using ok m by (auto simp: maps_ok_def zeroed_def ent_ok_def)
  have i1: "i < length (r_maps ?r)" "q = r_maps ?r ! i" using i q by simp_all
  have free: "\<And>a. e_end q \<le> a \<Longrightarrow> a < old + nz \<Longrightarrow> view (r_maps ?r) a = {#}" using q nz by simp
  have "view (r_maps r) old = {#attr_at q old#}" using view_one [OF ok i, of old] q nz by simp
  moreover have "maps_ok (set_end i (old + nz) ?r)" using q nz e by (intro set_end_ok [OF ok1 i1(1)]) auto
  moreover have "byte m a = (if old \<le> int a \<and> int a < old + int n then byte (r_m r) (nat (old + (int a - old)))
         else if old \<le> int a \<and> int a < old + oz \<and> \<not> (old \<le> int a \<and> int a < old + nz) then 0 else byte (r_m r) a)" for a
    using m n e by (auto simp: zeroed_def)
  moreover have "tidy r \<longrightarrow> tidy (set_end i (old + nz) ?r)"
    using set_end_view_at [OF ok1 i1 free] q nz end_covers [of i "old + nz" ?r] m
    by (auto simp: tidy_def zeroed_def covered_def split: if_splits)
  ultimately show ?thesis
    using set_end_view_at [OF ok1 i1 free] q nz
    by (auto simp: remapped_def frame_end)
qed


lemma move_run:
  assumes ok: "maps_ok (h_rv h)" and i: "i < length (r_maps (h_rv h))" and q: "q = r_maps (h_rv h) ! i" "e_at q = old" "e_end q = old + al (int on)"
    and nz: "nz = al (int nn)" "old mod 4096 = 0" "int nn \<le> SAFE" and run: "move_map now old on nn nz i h = (x, h')"
  shows "maps_ok (h_rv h') \<and> (tidy (h_rv h) \<longrightarrow> tidy (h_rv h')) \<and>
    (case x of Inl _ \<Rightarrow> True | Inr to \<Rightarrow> remapped old (al (int on)) to nz (min on nn) (h_rv h) (h_rv h'))"
proof -
  let ?r = "h_rv h" and ?n = "min on nn"
  have ent: "0 \<le> old" "old + al (int on) \<le> r_stackAt ?r" "old < old + al (int on)" using maps_ent [OF ok i] q by (auto simp: ent_ok_def)
  have top: "r_stackAt ?r \<le> m_top (r_m ?r)" "mem_ok (r_m ?r)" using ok by (auto simp: maps_ok_def)
  have al1: "0 \<le> al (int k)" "int k \<le> al (int k)" "al (int k) mod 4096 = 0" for k using al_bounds [of "int k"] by auto
  have al2: "al (al (int k)) = al (int k)" for k using al_add [of "al (int k)" 0] al1(3) [of k] by (simp add: al_div)
  have u: "ux nz = nz" using nz(1,3) al1 [of nn] al_bounds(2) [of "int nn"]
    by (simp add: ux_def take_bit_int_eq_self SAFE_def)
  obtain y h1 where y: "mmap now 0 nz (int (e_prot q)) 0x22 (- 1) 0 h = (y, h1)" by (cases "mmap now 0 nz (int (e_prot q)) 0x22 (- 1) 0 h")
  note new = mmap_run [OF ok y]
  have run1: "bnd (mmap now 0 nz (int (e_prot q)) 0x22 (- 1) 0) (\<lambda>to.
     bnd (catch (on_rv (copy_mem old to ?n)) (\<lambda>e. bnd (unmap now to (int nn)) (\<lambda>_. bad e))) (\<lambda>_.
     bnd (unmap now old (int on)) (\<lambda>_. ret to))) h = (x, h')"
    using run q(1) by (simp add: move_map_def bnd_simple)
  show ?thesis
  proof (cases y)
    case (Inl e)
    then have "x = Inl e" "h' = h1" using run1 y by (simp_all add: bnd_first)
    then show ?thesis using new Inl by (auto simp: anonymous_def)
  next
    case (Inr to)
    have u22: "ux 0x22 = 0x22" by (simp add: ux_def)
    then have an: "anonymous 0x22 (- 1)" "nat (ux 0x22) AND 0x10 = 0" by (simp_all add: anonymous_def u22)
    have n1: "place ?r 0 nz (nat (ux 0x22)) = Inr to" "0 < nz" "mapped_new now nz (int (e_prot q)) 0x22 (- 1) 0 h to (h_rv h1)" "maps_ok (h_rv h1)"
      using new Inr u al2 [of nn] nz(1) by simp_all
    note pl = place_spec [OF ok n1(1)]
    obtain p where p: "e_at p = to" "e_end p = to + nz" "e_prot p = nat (ux (int (e_prot q)))" "h_rv h1 = push_map p ?r"
      using n1(3) an(1) u al2 [of nn] nz(1) by (auto simp: mapped_new_def)
    have ep: "nat (ux (int (e_prot q))) = e_prot q"
      using maps_ent [OF ok i] q(1) by (simp add: ent_ok_def ux_def take_bit_int_eq_self)
    have qin: "q \<in> set (r_maps ?r)" using i q(1) by simp
    have apart: "old + al (int on) \<le> to \<or> to + nz \<le> old" using pl(2) qin q n1(2) ent unfolding hits_def by (metis linorder_not_less)
    have m1: "r_m (h_rv h1) = r_m ?r" "r_maps (h_rv h1) = r_maps ?r @ [p]" by (simp_all add: p push_map_def)
    have cf: "tidy r'" if "tidy ?r" "filled to b (h_rv h1) r'" "length b \<le> ?n" for b r'
    proof (rule tidy_filled [OF _ that(2) pl(1)])
      show "tidy (h_rv h1)" using tidy_push [OF that(1)] by (simp add: p(4))
      show "covered (h_rv h1) a" if "to \<le> a" "a < to + int (length b)" for a
        using that \<open>length b \<le> ?n\<close> al1(2) [of nn] nz(1) p unfolding p(4) by (intro push_covers) simp_all
    qed
    obtain w r2 where w: "copy_mem old to ?n (h_rv h1) = (w, r2)" by (cases "copy_mem old to ?n (h_rv h1)")
    have copied: "case copy_mem old to ?n (h_rv h1) of
        (Inr _, r2) \<Rightarrow> filled to (at_bytes (byte (r_m (h_rv h1))) (nat old) ?n) (h_rv h1) r2
      | (Inl e, r2) \<Rightarrow> e = ENOMEM \<and> (\<exists>b. length b \<le> ?n \<and> filled to b (h_rv h1) r2)"
      using top ent pl(1,3) al1(2) [of on] al1(2) [of nn] nz(1) apart
      by (intro copy_run) (auto simp: m1 in_range_def MB_def)
    define h2 where "h2 = h1\<lparr>h_rv := r2\<rparr>"
    have run2: "bnd (catch (on_rv (copy_mem old to ?n)) (\<lambda>e. bnd (unmap now to (int nn)) (\<lambda>_. bad e))) (\<lambda>_.
       bnd (unmap now old (int on)) (\<lambda>_. ret to)) h1 = (x, h')"
      using run1 y Inr by (simp add: bnd_first)
    have c: "on_rv (copy_mem old to ?n) h1 = (w, h2)" using w by (simp add: on_rv_def h2_def)
    show ?thesis
    proof (cases w)
      case (Inl e)
      then obtain b where b: "filled to b (h_rv h1) r2" "length b \<le> ?n" using copied w by auto
      have ok2: "maps_ok (h_rv h2)" using filled_same [OF b(1) n1(4)] by (simp add: h2_def)
      obtain v h3 where v: "unmap now to (int nn) h2 = (v, h3)" by (cases "unmap now to (int nn) h2")
      have u3: "case v of Inl _ \<Rightarrow> h_rv h3 = r2 | Inr _ \<Rightarrow> unmapped (to - to mod 4096) (al (to + int nn)) r2 (h_rv h3)"
        using unmap_run [OF ok2 v pl(1)] by (cases v) (simp_all add: h2_def)
      have "maps_ok (h_rv h3)" using unmap_run [OF ok2 v pl(1)] by simp
      moreover have "tidy ?r \<longrightarrow> tidy (h_rv h3)" using cf [OF _ b] u3 tidy_unmapped by (cases v) auto
      moreover have "\<exists>e'. catch (on_rv (copy_mem old to ?n)) (\<lambda>e. bnd (unmap now to (int nn)) (\<lambda>_. bad e)) h1 = (Inl e', h3)"
        using c Inl v by (cases v) (simp_all add: catch_def bnd_first bad_def)
      then obtain e' where "x = Inl e'" "h' = h3" using run2 by (auto simp: bnd_def [of "catch a b" for a b])
      ultimately show ?thesis by simp
    next
      case okc: (Inr z)
      then have f: "filled to (at_bytes (byte (r_m ?r)) (nat old) ?n) (h_rv h1) r2" using copied w m1 by simp
      have ok2: "maps_ok (h_rv h2)" and m2: "r_maps r2 = r_maps ?r @ [p]" using filled_same [OF f n1(4)] m1 by (simp_all add: h2_def)
      obtain v h3 where v: "unmap now old (int on) h2 = (v, h3)" by (cases "unmap now old (int on) h2")
      have "int on \<ge> 0" by simp
      note un = unmap_run [OF ok2 v ent(1) this]
      have cl: "tidy ?r \<longrightarrow> tidy r2" using cf [OF _ f] by simp
      have run3: "bnd (unmap now old (int on)) (\<lambda>_. ret to) h2 = (x, h')" using run2 c okc by (simp add: bnd_def [of "catch a b" for a b] catch_def)
      show ?thesis
      proof (cases v)
        case (Inl e)
        then have "x = Inl e" "h' = h3" using run3 v by (simp_all add: bnd_first)
        then show ?thesis using un Inl cl by (auto simp: h2_def)
      next
        case (Inr g)
        then have x: "x = Inr to" "h' = h3" using run3 v by (simp_all add: bnd_first ret_def)
        have "unmapped old (old + al (int on)) r2 (h_rv h3)"
          using un Inr nz(2) al_add [OF nz(2)] by (simp add: h2_def)
        then have d: "view (r_maps (h_rv h3)) a = (if old \<le> a \<and> a < old + al (int on) then {#} else view (r_maps ?r) a + seen p a)"
          "byte (r_m (h_rv h3)) b = (if old \<le> int b \<and> int b < old + al (int on) \<and> view (r_maps r2) (int b) \<noteq> {#} then 0 else byte (r_m r2) b)" for a b
          by (auto simp: unmapped_def zeroed_def m2)
        have cov: "view (r_maps r2) a \<noteq> {#}" if "old \<le> a" "a < old + al (int on)" for a
          using view_one [OF ok i, of a] that q(1) q(2) q(3) by (simp add: m2)
        have n: "int ?n \<le> nz" using al1(2) [of nn] nz(1) by simp
        have "byte (r_m (h_rv h3)) a =
            (if to \<le> int a \<and> int a < to + int ?n then byte (r_m ?r) (nat (old + (int a - to)))
             else if old \<le> int a \<and> int a < old + al (int on) \<and> \<not> (to \<le> int a \<and> int a < to + nz) then 0 else byte (r_m ?r) a)" for a
        proof -
          have b2: "byte (r_m r2) a = (if nat to \<le> a \<and> a < nat to + ?n then byte (r_m ?r) (nat old + (a - nat to)) else byte (r_m ?r) a)"
          proof (cases "nat to \<le> a \<and> a < nat to + ?n")
            case True
            then have "a - nat to < ?n" by linarith
            then have "at_bytes (byte (r_m ?r)) (nat old) ?n ! (a - nat to) = byte (r_m ?r) (nat old + (a - nat to))" by (rule at_bytes_simps(2))
            then show ?thesis using f True unfolding filled_def by (auto simp: flat_write_def m1)
          next
            case False
            then show ?thesis using f unfolding filled_def by (auto simp: flat_write_def m1)
          qed
          have "nat to \<le> a \<and> a < nat to + ?n \<longleftrightarrow> to \<le> int a \<and> int a < to + int ?n" using pl(1) by linarith
          then have b3: "byte (r_m r2) a = (if to \<le> int a \<and> int a < to + int ?n then byte (r_m ?r) (nat old + (a - nat to)) else byte (r_m ?r) a)"
            unfolding b2 by (simp only:)
          show ?thesis
          proof (cases "to \<le> int a \<and> int a < to + nz")
            case True
            then have "\<not> (old \<le> int a \<and> int a < old + al (int on))" "nat old + (a - nat to) = nat (old + (int a - to))"
              using apart pl(1) ent(1) by linarith+
            moreover from this(1) have "\<not> (old \<le> int a \<and> int a < old + al (int on) \<and> view (r_maps r2) (int a) \<noteq> {#})" by blast
            ultimately show ?thesis using True unfolding d(2) b3 by (simp only: if_False simp_thms)
          next
            case False
            then have "(to \<le> int a \<and> int a < to + int ?n) = False" using n by auto
            moreover have "(old \<le> int a \<and> int a < old + al (int on) \<and> view (r_maps r2) (int a) \<noteq> {#}) =
                (old \<le> int a \<and> int a < old + al (int on))" using cov [of "int a"] by blast
            ultimately show ?thesis using False unfolding d(2) b3 by (simp only: if_False simp_thms)
          qed
        qed
        moreover have "image_mset fst (view (r_maps (h_rv h3)) a) =
          (if to \<le> a \<and> a < to + nz then image_mset fst (view (r_maps ?r) old)
           else if old \<le> a \<and> a < old + al (int on) then {#} else image_mset fst (view (r_maps ?r) a))" for a
        proof -
          have "view (r_maps ?r) old = {#attr_at q old#}" using view_one [OF ok i, of old] q ent by simp
          moreover have "to \<le> a \<Longrightarrow> a < to + nz \<Longrightarrow> view (r_maps ?r) a = {#}" using no_hits [OF pl(2)] by simp
          ultimately show ?thesis using apart p ep by (auto simp: d(1) seen_def)
        qed
        moreover have "reframed ?r (h_rv h3)"
        proof -
          obtain m where "r2 = (h_rv h1)\<lparr>r_m := m\<rparr>" using f by (auto simp: filled_def)
          moreover obtain m' ms where "h_rv h3 = r2\<lparr>r_m := m', r_maps := ms\<rparr>" using un Inr by (auto simp: unmapped_def h2_def)
          ultimately show ?thesis unfolding reframed_def
            by (intro exI [of _ m'] exI [of _ ms] exI [of _ "r_mapAt (h_rv h1)"]) (simp add: p(4) push_map_def)
        qed
        ultimately have "remapped old (al (int on)) to nz ?n ?r (h_rv h3)" by (simp add: remapped_def)
        moreover have "tidy ?r \<longrightarrow> tidy (h_rv h3)" using cl un Inr tidy_unmapped by (auto simp: h2_def)
        ultimately show ?thesis using un x by simp
      qed
    qed
  qed
qed


lemma remap_same:
  assumes ok: "maps_ok r" and i: "i < length (r_maps r)" and q: "q = r_maps r ! i" "e_at q = old" "e_end q = old + oz"
  shows "remapped old oz old oz n r r"
proof -
  have "old < old + oz" using maps_ent [OF ok i] q by (simp add: ent_ok_def)
  moreover have "reframed r r" using reframedI [where r = r and m = "r_m r" and ms = "r_maps r" and k = "r_mapAt r"] by simp
  ultimately show ?thesis using view_one [OF ok i] q unfolding remapped_def by auto
qed

lemma remapped_raise: "remapped old oz to nz n r r' \<Longrightarrow> remapped old oz to nz n r (r'\<lparr>r_mapAt := v\<rparr>)"
proof -
  have "reframed r r' \<Longrightarrow> reframed r (r'\<lparr>r_mapAt := v\<rparr>)"
  proof -
    assume "reframed r r'"
    then obtain m ms k where "r' = r\<lparr>r_m := m, r_maps := ms, r_mapAt := k\<rparr>" unfolding reframed_def by blast
    then show ?thesis using reframedI [where r = r and m = m and ms = ms and k = v] by simp
  qed
  then show "remapped old oz to nz n r r' \<Longrightarrow> ?thesis" by (simp add: remapped_def)
qed

definition remap_fits :: "int \<Rightarrow> nat \<Rightarrow> int \<Rightarrow> host \<Rightarrow> bool" where
  "remap_fits old i nz h \<longleftrightarrow> \<not> grows_into (r_maps (h_rv h)) i old (old + nz) \<and> old + nz + MB < r_stackAt (h_rv h)"

lemma remap_eq: "remap now old0 oz0 nz0 fl0 fx h =
    (let old = ux old0; on = nat (ux oz0); nn = nat (ux nz0); oz = al (ux oz0); nz = al (ux nz0) in
     if oz0 < 0 \<or> SAFE < ux oz0 \<or> nz0 < 0 \<or> SAFE < ux nz0 \<or> fl0 < 0 \<or> 3 < ux fl0 then (Inl ERANGE, h)
     else if \<not> (on \<noteq> 0 \<and> nn \<noteq> 0 \<and> old AND (PAGE - 1) = 0 \<and> nat (ux fl0) AND 2 = 0) \<or> fx \<noteq> 0 then (Inl EINVAL, h)
     else case map_index (r_maps (h_rv h)) old (old + oz) of
       None \<Rightarrow> (Inl EINVAL, h)
     | Some i \<Rightarrow>
         if nz = oz then (Inr old, h)
         else if nz < oz then
           bnd (nat_in SAFE (oz - nz)) (\<lambda>d.
           bnd (flushShared now (old + nz) (int d)) (\<lambda>_.
           bnd (on_rv (on_mem (mem_drop (old + nz) d))) (\<lambda>_.
           bnd (on_rv (modify (set_end i (old + nz)))) (\<lambda>_. ret old)))) h
         else if remap_fits old i nz h then
           (Inr old, h\<lparr>h_rv := (set_end i (old + nz) (h_rv h))
              \<lparr>r_mapAt := (if r_mapAt (h_rv h) < old + nz then al (old + nz) else r_mapAt (h_rv h))\<rparr>\<rparr>)
         else if nat (ux fl0) AND 1 = 0 then (Inl ENOMEM, h)
         else move_map now old on nn nz i h)"
proof (cases "oz0 < 0 \<or> SAFE < ux oz0 \<or> nz0 < 0 \<or> SAFE < ux nz0 \<or> fl0 < 0 \<or> 3 < ux fl0")
  case True
  then show ?thesis by (auto simp: remap_def Let_def bnd_nat_in)
next
  case False
  show ?thesis
  proof (cases "\<not> (nat (ux oz0) \<noteq> 0 \<and> nat (ux nz0) \<noteq> 0 \<and> ux old0 AND (PAGE - 1) = 0 \<and> nat (ux fl0) AND 2 = 0) \<or> fx \<noteq> 0")
    case True
    then show ?thesis using False by (auto simp: remap_def Let_def bnd_nat_in bnd_simple)
  next
    case c: False
    then have c: "nat (ux oz0) \<noteq> 0 \<and> nat (ux nz0) \<noteq> 0 \<and> ux old0 AND (PAGE - 1) = 0 \<and> nat (ux fl0) AND 2 = 0" "fx = 0" by simp_all
    have k: "bnd (check True e) f s = f () s" for e and f :: "unit \<Rightarrow> (host, int) kop" and s by (simp add: bnd_simple)
    show ?thesis using False c unfolding remap_def Let_def
      by (cases "map_index (r_maps (h_rv h)) (ux old0) (ux old0 + al (ux oz0))")
        (simp_all add: bnd_nat_in bnd_simple ux_pos of_option_def remap_fits_def [symmetric] bnd_on_rv modify_def ret_def bad_def set_end_def del: One_nat_def)
  qed
qed


lemma raise_mapAt: "maps_ok r \<Longrightarrow> 0 \<le> en \<Longrightarrow> maps_ok (r\<lparr>r_mapAt := (if c then al en else r_mapAt r)\<rparr>)"
  using al_bounds [of en] by (auto simp: maps_ok_def ent_ok_def)

lemma remap_run:
  assumes ok: "maps_ok (h_rv h)" and run: "remap now old0 oz0 nz0 fl0 fx h = (x, h')"
  shows "maps_ok (h_rv h') \<and> (tidy (h_rv h) \<longrightarrow> tidy (h_rv h')) \<and>
    (case x of Inl _ \<Rightarrow> True
     | Inr to \<Rightarrow> remapped (ux old0) (al (ux oz0)) to (al (ux nz0)) (min (nat (ux oz0)) (nat (ux nz0))) (h_rv h) (h_rv h'))"
proof -
  define old on nn oz nz where d: "old = ux old0" "on = nat (ux oz0)" "nn = nat (ux nz0)" "oz = al (ux oz0)" "nz = al (ux nz0)"
  let ?r = "h_rv h" and ?C = "oz0 < 0 \<or> SAFE < ux oz0 \<or> nz0 < 0 \<or> SAFE < ux nz0 \<or> fl0 < 0 \<or> 3 < ux fl0"
  let ?D = "\<not> (on \<noteq> 0 \<and> nn \<noteq> 0 \<and> old AND (PAGE - 1) = 0 \<and> nat (ux fl0) AND 2 = 0) \<or> fx \<noteq> 0"
  show ?thesis
  proof (cases "?C \<or> ?D \<or> map_index (r_maps ?r) old (old + oz) = None")
    case True
    then have "\<exists>e. x = Inl e \<and> h' = h" using run unfolding remap_eq Let_def d by (auto split: if_splits)
    then show ?thesis using ok by auto
  next
    case False
    then obtain i where i: "map_index (r_maps ?r) old (old + oz) = Some i" by auto
    note q = map_index_Some [OF i]
    have C: "\<not> ?C" "\<not> ?D" using False by simp_all
    have u: "int on = ux oz0" "int nn = ux nz0" using ux_pos by (simp_all add: d)
    have b: "0 < on" "0 < nn" "old mod 4096 = 0" "int nn \<le> SAFE" "int on \<le> oz" "int nn \<le> nz" "0 < nz"
      using C u page_mod [of old] al_bounds(1) [of "ux oz0"] al_bounds(1) [of "ux nz0"] by (auto simp: d)
    have ent: "0 \<le> old" "old + oz \<le> r_stackAt ?r" using maps_ent [OF ok q(1)] q by (auto simp: ent_ok_def)
    have top: "r_stackAt ?r \<le> m_top (r_m ?r)" "m_top (r_m ?r) \<le> SAFE" "mem_ok (r_m ?r)" using ok by (auto simp: maps_ok_def)
    have rem: "(if nz = oz then (Inr old, h)
         else if nz < oz then
           bnd (nat_in SAFE (oz - nz)) (\<lambda>d.
           bnd (flushShared now (old + nz) (int d)) (\<lambda>_.
           bnd (on_rv (on_mem (mem_drop (old + nz) d))) (\<lambda>_.
           bnd (on_rv (modify (set_end i (old + nz)))) (\<lambda>_. ret old)))) h
         else if remap_fits old i nz h then
           (Inr old, h\<lparr>h_rv := (set_end i (old + nz) ?r)
              \<lparr>r_mapAt := (if r_mapAt ?r < old + nz then al (old + nz) else r_mapAt ?r)\<rparr>\<rparr>)
         else if nat (ux fl0) AND 1 = 0 then (Inl ENOMEM, h)
         else move_map now old on nn nz i h) = (x, h')"
      using run C i unfolding remap_eq Let_def d by simp
    consider "nz = oz" | "nz < oz" | "oz < nz" "remap_fits old i nz h" | "oz < nz" "\<not> remap_fits old i nz h" by linarith
    then have "maps_ok (h_rv h') \<and> (tidy ?r \<longrightarrow> tidy (h_rv h')) \<and> (case x of Inl _ \<Rightarrow> True | Inr to \<Rightarrow> remapped old oz to nz (min on nn) ?r (h_rv h'))"
    proof cases
      case 1
      then show ?thesis using rem ok remap_same [OF ok q(1) refl q(2,3), of "min on nn"] by auto
    next
      case 2
      then have n: "nat_in SAFE (oz - nz) = (ret (nat (oz - nz)) :: (host, nat) kop)"
        using ent top b by (intro nat_safe) simp_all
      obtain v h1 where v: "flushShared now (old + nz) (int (nat (oz - nz))) h = (v, h1)" by (cases "flushShared now (old + nz) (int (nat (oz - nz))) h")
      have s: "h_rv h1 = ?r" using keepsD [OF flush_still still_refl, of h now "old + nz" "int (nat (oz - nz))"] v by (auto simp: still_def)
      have nn: "int (min on nn) \<le> nz" using b by simp
      have od: "old + oz - (old + nz) = oz - nz" by simp
      obtain m where m: "on_mem (mem_drop (old + nz) (nat (oz - nz))) ?r = (Inr (), ?r\<lparr>r_m := m\<rparr>)" "zeroed (\<lambda>a. old + nz \<le> a \<and> a < old + oz) (r_m ?r) m"
        using drop_range [OF top(3), of "old + nz" "old + oz"] ent top 2 b unfolding od by auto
      show ?thesis
      proof (cases v)
        case (Inl e)
        then have "x = Inl e" "h' = h1" using rem 2 n v by (simp_all add: bnd_simple bnd_def [of "flushShared a b c" for a b c])
        then show ?thesis using s ok by simp
      next
        case (Inr g)
        then have "x = Inr old" "h_rv h' = set_end i (old + nz) (?r\<lparr>r_m := m\<rparr>)"
          using rem 2 n v s m(1) by (auto simp: bnd_simple bnd_def [of "flushShared a b c" for a b c] bnd_on_rv modify_def ret_def)
        then show ?thesis using remap_shrink [OF ok q(1) refl q(2,3) b(7) 2 nn m(2)] by simp
      qed
    next
      case 3
      then have g: "\<not> grows_into (r_maps ?r) i old (old + nz)" "old + nz + MB < r_stackAt ?r" by (simp_all add: remap_fits_def)
      have nn: "int (min on nn) \<le> oz" using b by simp
      have "old + nz \<le> r_stackAt ?r" "oz \<le> nz" using g(2) 3 by (simp_all add: MB_def)
      note p = remap_in_place [OF ok q(1) refl q(2,3) b(7) this g(1) nn]
      have x: "x = Inr old" "h_rv h' = (set_end i (old + nz) ?r)\<lparr>r_mapAt := (if r_mapAt ?r < old + nz then al (old + nz) else r_mapAt ?r)\<rparr>"
        using rem 3 by auto
      have sm: "r_mapAt ?r = r_mapAt (set_end i (old + nz) ?r)" by (simp add: set_end_def)
      have "0 \<le> old + nz" using ent b by simp
      then have "maps_ok (h_rv h')" unfolding x sm by (rule raise_mapAt [OF conjunct1 [OF p]])
      then show ?thesis using remapped_raise [OF conjunct2 [OF conjunct2 [OF p]]] p x by (auto simp: tidy_def covered_def)
    next
      case 4
      show ?thesis
      proof (cases "nat (ux fl0) AND 1 = 0")
        case True
        then show ?thesis using rem 4 ok by auto
      next
        case False
        then have "move_map now old on nn nz i h = (x, h')" using rem 4 by simp
        have oz: "al (int on) = oz" "nz = al (int nn)" unfolding u by (simp_all add: d)
        have "e_end (r_maps ?r ! i) = old + al (int on)" using q(3) by (simp only: oz)
        from move_run [OF ok q(1) refl q(2) this oz(2) b(3,4) \<open>move_map now old on nn nz i h = (x, h')\<close>] show ?thesis unfolding oz(1) .
      qed
    qed
    then show ?thesis unfolding d .
  qed
qed

end
