(* ===== verification/HostInv.thy ===== *)
theory HostInv
  imports RvSys MapProps
begin

text \<open>
  What the calls of a guest program do to the kernel: they keep its invariant, and who the program runs as changes
  only as the calls on identities allow.
\<close>

section \<open>Operations of the kernel\<close>

text \<open>\<open>Q\<close> is what is asked of the identity of a process.\<close>

locale identity =
  fixes Q :: "proc \<Rightarrow> bool"
  assumes frame: "p_cred p' = p_cred p \<Longrightarrow> p_fsuid p' = p_fsuid p \<Longrightarrow> p_fsgid p' = p_fsgid p \<Longrightarrow> Q p \<Longrightarrow> Q p'"
    and step: "cred_step p p' \<Longrightarrow> Q p \<Longrightarrow> Q p'"

definition stays :: "(proc \<Rightarrow> bool) \<Rightarrow> int \<Rightarrow> kern \<Rightarrow> bool" where
  "stays Q pid k \<longleftrightarrow> live k pid \<and> Q (proc_at k pid)"

definition fit :: "(proc \<Rightarrow> bool) \<Rightarrow> int \<Rightarrow> kern \<Rightarrow> bool" where
  "fit Q pid k \<longleftrightarrow> kern_ok k \<and> stays Q pid k"

lemma fitI: "keeps (stays Q pid) m \<Longrightarrow> (\<And>k. kern_ok k \<Longrightarrow> live k pid \<Longrightarrow> kern_ok (snd (m k))) \<Longrightarrow> keeps (fit Q pid) m"
  by (simp add: keeps_def fit_def stays_def)

lemma stays_same: "k_objs k' = k_objs k \<Longrightarrow> stays Q pid k \<Longrightarrow> stays Q pid k'"
  by (simp add: stays_def live_def proc_at_def)

named_theorems staying \<comment> \<open>operations of the kernel that leave identities alone\<close>

lemma stays_fs [staying]: "keeps (stays Q pid) (on_fs m)"
  unfolding keeps_def on_fs_def by (auto intro: stays_same split: prod.split)

lemmas [staying] = keeps_simple keeps_split keeps_catch keeps_nat_arg

lemma stays_body [staying]: "(\<And>r. keeps P (f r)) \<Longrightarrow> keeps P g \<Longrightarrow>
   keeps P (case bd of Reg r \<Rightarrow> f r | Dir e \<Rightarrow> g | Sym to \<Rightarrow> g | Chr rfn wfn rep \<Rightarrow> g)"
  by (auto split: body.split)

lemma signal_ids [simp]: "p_cred (snd (signal s p)) = p_cred p" "p_fsuid (snd (signal s p)) = p_fsuid p" "p_fsgid (snd (signal s p)) = p_fsgid p"
  "p_cred (proc_end c p) = p_cred p" "p_fsuid (proc_end c p) = p_fsuid p" "p_fsgid (proc_end c p) = p_fsgid p"
  by (simp_all add: signal_def proc_end_def)

context identity begin

lemma stays_set: "stays Q pid k \<Longrightarrow> stays Q pid (set_fd pid n g k)" "stays Q pid k \<Longrightarrow> stays Q pid (del_fd pid n k)"
  by (auto simp: stays_def intro: frame)

lemma set_keeps: "keeps (stays Q pid) (modify (set_fd pid n g))" "keeps (stays Q pid) (modify (del_fd pid n))"
  by (auto intro!: keeps_modify stays_set)

lemma stream_keeps: "keeps (stays Q pid) (modify (hold_fd f))" "keeps (stays Q pid) (modify (release_fd f))"
  "keeps (stays Q pid) (modify (hold_in s))" "keeps (stays Q pid) (modify (hold_out s))"
  "keeps (stays Q pid) (modify (\<lambda>k. k\<lparr>k_pipes := g k\<rparr>))" "keeps (stays Q pid) (modify (\<lambda>k. k\<lparr>k_woken := w k\<rparr>))"
  by (rule keeps_modify, erule stays_same [rotated], simp)+

lemmas basics = staying set_keeps stream_keeps

lemma stays_get: "keeps (stays Q pid) (get_fd p n)" "keeps (stays Q pid) (kern_fd p)" "keeps (stays Q pid) (file_fd p n)"
  unfolding get_fd_def kern_fd_def file_fd_def by (intro keeps_bnd basics)+

lemma stays_file: "keeps (stays Q pid) (file_at now p path)" "keeps (stays Q pid) (fs_need p i b)"
  "keeps (stays Q pid) (sys_readb now p path)" "keeps (stays Q pid) (sys_writeb now p path x add mode)"
  "keeps (stays Q pid) (sys_mkfile now p path x mode)" "keeps (stays Q pid) (sys_stat_size now p path)"
  unfolding file_at_def fs_need_def sys_readb_def sys_writeb_def sys_mkfile_def sys_stat_size_def
  by (intro keeps_bnd basics)+

lemmas more_basics = basics stays_get stays_file

lemma stays_calls: "keeps (stays Q pid) (sys_pipe pid)" "keeps (stays Q pid) (sys_close pid n)"
  "keeps (stays Q pid) (sys_open now pid path flags mode)" "keeps (stays Q pid) (sys_openDir now pid path)"
  "keeps (stays Q pid) (sys_fdr now pid n len)" "keeps (stays Q pid) (sys_fdw now pid n b)" "keeps (stays Q pid) (sys_seek now pid n off wh)"
  "keeps (stays Q pid) (set_pos pid n f p)"
  unfolding sys_pipe_def sys_close_def sys_open_def open_existing_def sys_openDir_def sys_fdr_def sys_fdw_def sys_seek_def set_pos_def Let_def
  by (intro keeps_bnd more_basics)+

lemma stays_clone: "keeps (stays Q pid) (clone_fd pid n m)"
  unfolding clone_fd_def
  by (intro keeps_bnd more_basics) (auto split: option.split intro!: stream_keeps keeps_modify keeps_simple stays_get)

lemma stays_fcntl: "keeps (stays Q pid) (sys_fcntl pid n cmd a)"
  unfolding sys_fcntl_def fcntl_dup_def by (intro keeps_bnd more_basics stays_clone)

lemma stays_pipes: "keeps (stays Q pid) (fd_read_pipe pid n r)" "keeps (stays Q pid) (fd_write_pipe pid n b)"
  by (auto simp: keeps_def pipe_state intro: stays_same split: option.split stream.split)

lemma stays_upd:
  assumes "stays Q pid k" "known k p" "p_cred (g (proc_at k p)) = p_cred (proc_at k p)" "p_fsuid (g (proc_at k p)) = p_fsuid (proc_at k p)"
    "p_fsgid (g (proc_at k p)) = p_fsgid (proc_at k p)" "p_done (g (proc_at k p)) = p_done (proc_at k p)"
  shows "stays Q pid (upd_proc p g k)"
proof -
  have "live (upd_proc p g k) pid"
    using assms(1,6) by (auto simp: stays_def live_def upd_proc_def get_set proc_at_def split: option.splits)
  moreover have "Q (proc_at (upd_proc p g k) pid)"
    using assms frame [OF assms(3-5)] by (cases "p = pid") (auto simp: stays_def)
  ultimately show ?thesis by (simp add: stays_def)
qed

lemma kill_stays:
  assumes "p \<in> qs"
  shows "keeps (\<lambda>k. (kern_ok k \<and> (\<forall>q \<in> qs. known k q)) \<and> stays Q pid k) (kill_one sig by p)"
  unfolding keeps_def
proof (intro allI impI)
  fix k assume k: "(kern_ok k \<and> (\<forall>q \<in> qs. known k q)) \<and> stays Q pid k"
  have "stays Q pid (snd (kill_one sig by p k))"
    using k assms by (auto simp: kill_one_def kop_simps Let_def intro!: stays_upd split: if_splits)
  then show "(kern_ok (snd (kill_one sig by p k)) \<and> (\<forall>q \<in> qs. known (snd (kill_one sig by p k)) q)) \<and> stays Q pid (snd (kill_one sig by p k))"
    using keepsD [OF kill_one_keeps [OF assms]] k by blast
qed

lemma fit_kill: "keeps (fit Q pid) (kern_kill target sig pid)"
  unfolding keeps_def
proof (intro allI impI)
  fix k assume f: "fit Q pid k"
  let ?q = "filter (\<lambda>q. if target < 0 then p_pgid (proc_at k q) = - target else q = target) (k_procs k)"
  have "keeps (\<lambda>k. (kern_ok k \<and> (\<forall>q \<in> set ?q. known k q)) \<and> stays Q pid k) (bnd (mapk (kill_one sig pid) ?q) (\<lambda>ns. ret (sum_list ns)))"
    by (intro keeps_bnd mapk_keeps kill_stays keeps_simple)
  from keepsD [OF this, of k] have "stays Q pid (snd (bnd (mapk (kill_one sig pid) ?q) (\<lambda>ns. ret (sum_list ns)) k))"
    using f known_proc by (simp add: fit_def)
  then show "fit Q pid (snd (kern_kill target sig pid k))"
    using f kill_ok by (simp add: fit_def) (simp add: kern_kill_def kop_simps)
qed

text \<open>All of them.\<close>

lemma fit_fs: "keeps vfs_ok m \<Longrightarrow> keeps (fit Q pid) (on_fs m)"
  using keeps_on_fs [of m] by (intro fitI stays_fs) (auto intro: settles_now settles_keeps)

lemma fit_inv: "(\<And>k0. keeps (inv k0) m) \<Longrightarrow> keeps (stays Q pid) m \<Longrightarrow> keeps (fit Q pid) m"
  by (rule fitI) (auto intro: settles_now settles_keeps)

lemma fit_files: "keeps (fit Q pid) (file_at now p path)" "keeps (fit Q pid) (fs_need p i b)"
  "keeps (fit Q pid) (sys_readb now p path)" "keeps (fit Q pid) (sys_writeb now p path x add mode)"
  "keeps (fit Q pid) (sys_mkfile now p path x mode)"
proof -
  show "keeps (fit Q pid) (sys_readb now p path)"
    unfolding sys_readb_def by (intro keeps_bnd keeps_simple fit_fs operation_keeps)
qed (rule fit_inv; rule file_keeps stays_file)+

lemma fit_calls: "keeps (fit Q pid) (sys_pipe pid)" "keeps (fit Q pid) (sys_close pid n)" "keeps (fit Q pid) (clone_fd pid n m)"
  "keeps (fit Q pid) (sys_fcntl pid n cmd a)" "path \<noteq> ''/dev/tty'' \<Longrightarrow> keeps (fit Q pid) (sys_open now pid path flags mode)"
  "keeps (fit Q pid) (sys_openDir now pid path)" "keeps (fit Q pid) (sys_fdr now pid n len)" "keeps (fit Q pid) (sys_fdw now pid n b)"
  "keeps (fit Q pid) (sys_seek now pid n off wh)" "keeps (fit Q pid) (fd_read_pipe pid n r)" "keeps (fit Q pid) (fd_write_pipe pid n b)"
  by (rule fitI; rule stays_calls stays_clone stays_fcntl stays_pipes sys_pipe_ok close_ok clone_ok fcntl_ok read_pipe_ok write_pipe_ok
      settles_now [OF open_ok] settles_now [OF openDir_ok] settles_now [OF fdr_ok] settles_now [OF fdw_ok] settles_now [OF seek_ok]; assumption)+

lemma fit_get: "keeps (fit Q pid) (get_fd p n)" "keeps (fit Q pid) (kern_fd p)" "keeps (fit Q pid) (file_fd p n)"
  unfolding get_fd_def kern_fd_def file_fd_def by (intro keeps_bnd keeps_simple)+

lemma fit_mark:
  assumes "\<And>g. fd_in (h g) = fd_in g \<and> fd_out (h g) = fd_out g"
  shows "keeps (fit Q pid) (bnd (get_fd pid n) (\<lambda>g. modify (set_fd pid n (h g))))"
proof (rule fitI)
  show "keeps (stays Q pid) (bnd (get_fd pid n) (\<lambda>g. modify (set_fd pid n (h g))))" by (intro keeps_bnd stays_get set_keeps)
next
  fix k assume "kern_ok k" "live k pid"
  then show "kern_ok (snd (bnd (get_fd pid n) (\<lambda>g. modify (set_fd pid n (h g))) k))"
    using assms by (auto simp: kop_simps split: option.split intro!: ok_set_same)
qed

lemma fit_upd:
  assumes "fit Q pid k" "p_fds p = p_fds (proc_at k pid)" "p_done p = p_done (proc_at k pid)" "Q p"
  shows "fit Q pid (upd_proc pid (\<lambda>_. p) k)"
proof -
  have l: "live k pid" using assms(1) by (simp add: fit_def stays_def)
  then have "live (upd_proc pid (\<lambda>_. p) k) pid"
    using assms(3) live_get [OF l] by (auto simp: live_def get_set split: option.splits)
  moreover have "kern_ok (upd_proc pid (\<lambda>_. p) k)" using assms l by (intro ok_upd) (simp_all add: fit_def live_known)
  ultimately show ?thesis using assms(4) by (simp add: fit_def stays_def)
qed

lemma fit_cred: "(\<And>p. cred_step p (snd (m p))) \<Longrightarrow> keeps (fit Q pid) (on_proc pid m)"
  unfolding keeps_def
proof (intro allI impI)
  fix k assume m: "\<And>p. cred_step p (snd (m p))" and f: "fit Q pid k"
  have "snd (on_proc pid m k) = upd_proc pid (\<lambda>_. snd (m (proc_at k pid))) k" by (simp add: on_proc_def split: prod.split)
  then show "fit Q pid (snd (on_proc pid m k))"
    using fit_upd [OF f] cred_step_frame [OF m] step [OF m] f by (simp add: fit_def stays_def)
qed

lemma fit_proc:
  assumes "\<And>p. p_fds (g p) = p_fds p \<and> p_done (g p) = p_done p \<and> p_cred (g p) = p_cred p \<and> p_fsuid (g p) = p_fsuid p \<and> p_fsgid (g p) = p_fsgid p"
  shows "keeps (fit Q pid) (on_proc pid (modify g))"
  unfolding keeps_def
proof (intro allI impI)
  fix k assume f: "fit Q pid k"
  have "Q (g (proc_at k pid))" using frame [of "g (proc_at k pid)" "proc_at k pid"] assms [of "proc_at k pid"] f by (simp add: fit_def stays_def)
  moreover have "snd (on_proc pid (modify g) k) = upd_proc pid (\<lambda>_. g (proc_at k pid)) k" by (simp add: on_proc_def kop_simps)
  ultimately show "fit Q pid (snd (on_proc pid (modify g) k))" using fit_upd [OF f] assms by simp
qed

end

section \<open>Hosts\<close>

definition hfit :: "(proc \<Rightarrow> bool) \<Rightarrow> int \<Rightarrow> host \<Rightarrow> bool" where
  "hfit Q pid h \<longleftrightarrow> h_pid h = pid \<and> fit Q pid (h_k h)"

named_theorems hosting \<comment> \<open>operations of a host that keep its kernel fit\<close>

lemma hfit_rv [hosting]: "keeps (hfit Q pid) (on_rv m)"
  by (simp add: keeps_def on_rv_run hfit_def)

lemma hfit_kern: "keeps (fit Q pid) (f pid) \<Longrightarrow> keeps (hfit Q pid) (on_kern f)"
  by (simp add: keeps_def on_kern_run hfit_def)

lemma hfit_own [hosting]: "keeps (hfit Q pid) (modify (\<lambda>h. h\<lparr>h_left := a h\<rparr>))" "keeps (hfit Q pid) (modify (\<lambda>h. h\<lparr>h_socks := b h\<rparr>))"
  "keeps (hfit Q pid) (modify (\<lambda>h. h\<lparr>h_ins := c h\<rparr>))" "keeps (hfit Q pid) (modify (\<lambda>h. h\<lparr>h_rlim := g h\<rparr>))" "keeps (hfit Q pid) (modify (\<lambda>h. h\<lparr>h_code := d h, h_done := e h\<rparr>))"
  by (rule keeps_modify, simp add: hfit_def)+

lemma hfit_sock [hosting]: "keeps (hfit Q pid) (sock_copy a b)"
  unfolding sock_copy_def by (rule keeps_modify) (simp add: hfit_def)

lemma nat_in_keeps: "keeps P (nat_in hi n)"
  unfolding nat_in_def by (intro keeps_bnd keeps_simple)

lemma opt_keeps: "(\<And>x. keeps P (f x)) \<Longrightarrow> keeps P g \<Longrightarrow> keeps P (case v of None \<Rightarrow> g | Some x \<Rightarrow> f x)"
  by (cases v) simp_all

lemma let_keeps: "keeps P (f x) \<Longrightarrow> keeps P (let y = x in f y)"
  by simp

lemmas [hosting] = keeps_bnd keeps_simple keeps_split keeps_catch keeps_mapk nat_in_keeps stays_body opt_keeps

text \<open>Arguments change nothing in the kernel.\<close>

lemma arg_keeps [hosting]: "keeps P (arg i)" "keeps P (nat_reg i hi)" "keeps P (fd_reg i)" "keeps P (addr_reg i)" "keeps P (owner_reg i)"
  "keeps P (keep_reg i)" "keeps P (ptr_reg i)" "keeps P (num_reg i)" "keeps P (num_in n)" "keeps P (fd_in_arg n)" "keeps P (me g)"
  "keeps P (len_reg i)" "keeps P (my_mask m)" "keeps P mem_used"
  unfolding arg_def nat_reg_def fd_reg_def addr_reg_def owner_reg_def keep_reg_def ptr_reg_def num_reg_def num_in_def fd_in_arg_def
    idOrKeep_def owner_def addrPtr_def me_def len_reg_def my_mask_def mem_used_def Let_def
  by (intro keeps_bnd keeps_simple keeps_split nat_in_keeps)+

lemma mem_keeps [hosting]: "keeps (hfit Q pid) (str w m)" "keeps (hfit Q pid) (str_reg w i)" "keeps (hfit Q pid) (guest_chk a n wr)"
  "keeps (hfit Q pid) (guest_read a n)" "keeps (hfit Q pid) (guest_put a b)" "keeps (hfit Q pid) (put_fields a fs)"
  "keeps (hfit Q pid) (copy_out b a n c)" "keeps (hfit Q pid) (zero_out a n)" "keeps (hfit Q pid) leave"
  unfolding str_def str_reg_def guest_chk_def guest_read_def guest_put_def put_fields_def copy_out_def zero_out_def leave_def Let_def
  by (intro hosting | simp)+

context identity begin

lemma hfit_fs: "(\<And>cwd c. keeps vfs_ok (f cwd c)) \<Longrightarrow> keeps (hfit Q pid) (my_fs f)"
  unfolding my_fs_def by (intro hfit_kern keeps_bnd keeps_simple fit_fs)

lemma hfit_calls: "keeps (hfit Q pid) (fd_of n)" "keeps (hfit Q pid) (fd_path_of n)" "keeps (hfit Q pid) (set_clo n b)"
  "keeps (hfit Q pid) (sys_stat w p fl)" "keeps (hfit Q pid) (path_arg w fd p)" "keeps (hfit Q pid) (path_at w i)"
proof -
  show g: "keeps (hfit Q pid) (fd_of n)" "keeps (hfit Q pid) (fd_path_of n)" for n
    unfolding fd_of_def fd_path_of_def by (intro hosting hfit_kern fit_get)+
  show "keeps (hfit Q pid) (set_clo n b)"
    unfolding set_clo_def by (intro hfit_kern fit_mark) simp
  show s: "keeps (hfit Q pid) (sys_stat w p fl)" for p fl
    unfolding sys_stat_def by (intro hfit_fs operation_keeps)
  show a: "keeps (hfit Q pid) (path_arg w fd p)" for fd p
    unfolding path_arg_def by (intro hosting g hfit_fs operation_keeps)
  show "keeps (hfit Q pid) (path_at w i)" unfolding path_at_def by (intro hosting a)
qed

lemmas host_rules = hosting hfit_calls hfit_kern fit_files fit_calls fit_get hfit_fs operation_keeps

lemma names_keep: "keeps (hfit Q pid) call_getcwd" "keeps (hfit Q pid) (call_mkdirat w)" "keeps (hfit Q pid) (call_unlinkat w)"
  "keeps (hfit Q pid) (call_symlinkat w)" "keeps (hfit Q pid) (call_linkat w)" "keeps (hfit Q pid) (call_renameat w)"
  "keeps (hfit Q pid) (call_renameat2 w)" "keeps (hfit Q pid) (call_faccessat w)" "keeps (hfit Q pid) (call_fchmod w)"
  "keeps (hfit Q pid) (call_fchmodat w)" "keeps (hfit Q pid) (call_fchownat w)" "keeps (hfit Q pid) (call_fchown w)"
  "keeps (hfit Q pid) (call_readlinkat w)" "keeps (hfit Q pid) (call_truncate w)" "keeps (hfit Q pid) (call_ftruncate w)"
  unfolding call_getcwd_def call_mkdirat_def call_unlinkat_def call_symlinkat_def call_linkat_def call_renameat_def call_renameat2_def
    call_faccessat_def call_fchmod_def call_fchmodat_def call_fchownat_def call_fchown_def call_readlinkat_def call_truncate_def
    call_ftruncate_def sys_trunc_def
  by (intro host_rules)+

lemma cd_keeps: "keeps (hfit Q pid) (sys_cd w p)"
  unfolding sys_cd_def my_proc_def by (intro host_rules fit_proc) simp

lemma files_keep: "keeps (hfit Q pid) (call_chdir w)" "keeps (hfit Q pid) (call_fchdir w)" "keeps (hfit Q pid) call_close"
  "keeps (hfit Q pid) call_pipe2" "keeps (hfit Q pid) call_dup" "keeps (hfit Q pid) call_dup3" "keeps (hfit Q pid) call_fcntl"
  "keeps (hfit Q pid) (call_lseek w)" "keeps (hfit Q pid) (call_fstatat w)" "keeps (hfit Q pid) (call_fstat w)"
  "keeps (hfit Q pid) (call_statfs w)" "keeps (hfit Q pid) (call_fstatfs w)"
  unfolding call_chdir_def call_fchdir_def call_close_def call_pipe2_def call_dup_def call_dup3_def call_fcntl_def call_lseek_def
    call_fstatat_def call_fstat_def putStat_def call_statfs_def call_fstatfs_def statfs_def
  by (intro host_rules cd_keeps)+

lemma times_keep: "keeps (hfit Q pid) (fileTs a old now)" "keeps (hfit Q pid) (call_utimensat w)"
proof -
  show t: "keeps (hfit Q pid) (fileTs a old now)" for a old now
    unfolding fileTs_def ms_of_def Let_def by (intro host_rules)
  show "keeps (hfit Q pid) (call_utimensat w)"
    unfolding call_utimensat_def utimens_def utime_path_def Let_def by (intro host_rules t)
qed

text \<open>\<open>openat\<close>.\<close>

lemma loaded_fit:
  assumes "hfit Q pid h" "n_body (node (k_fs (h_k h)) i) = Reg r"
  shows "hfit Q pid (snd (on_kern (\<lambda>_. on_fs (set_reg i q)) h))"
proof -
  let ?fs = "set_node i (\<lambda>n. n\<lparr>n_body := Reg q\<rparr>) (k_fs (h_k h))"
  have "vfs_ok ?fs" using assms ok_parts(5) ok_quiet quiet_reg by (auto simp: hfit_def fit_def)
  then have "fit Q pid ((h_k h)\<lparr>k_fs := ?fs\<rparr>)"
    using assms(1) by (auto simp: hfit_def fit_def ok_fs intro: stays_same)
  moreover have "snd (on_kern (\<lambda>_. on_fs (set_reg i q)) h) = h\<lparr>h_k := (h_k h)\<lparr>k_fs := ?fs\<rparr>\<rparr>"
    by (simp add: on_kern_run on_fs_def set_reg_def modify_def)
  ultimately show ?thesis using assms(1) by (simp add: hfit_def)
qed

lemma load_file_keeps: "keeps (hfit Q pid) (bnd (asks (\<lambda>h. n_body (node (k_fs (h_k h)) i))) (\<lambda>b. case b of
    Reg r \<Rightarrow> (case materialise (w_load w r) r of Some q \<Rightarrow> on_kern (\<lambda>_. on_fs (set_reg i q)) | None \<Rightarrow> leave)
  | _ \<Rightarrow> bad EISDIR))"
  unfolding keeps_def
proof (intro allI impI)
  fix h assume h: "hfit Q pid h"
  show "hfit Q pid (snd (bnd (asks (\<lambda>h. n_body (node (k_fs (h_k h)) i))) (\<lambda>b. case b of
      Reg r \<Rightarrow> (case materialise (w_load w r) r of Some q \<Rightarrow> on_kern (\<lambda>_. on_fs (set_reg i q)) | None \<Rightarrow> leave)
    | _ \<Rightarrow> bad EISDIR) h))"
  proof (cases "n_body (node (k_fs (h_k h)) i)")
    case (Reg r)
    then show ?thesis using h loaded_fit [OF h Reg] keepsD [OF mem_keeps(9) h]
      by (cases "materialise (w_load w r) r") (simp_all add: kop_simps)
  qed (use h in \<open>simp_all add: kop_simps\<close>)
qed

lemma materialise_keeps: "keeps (hfit Q pid) (sys_materialise w p)"
  unfolding sys_materialise_def
  by (rule keeps_bnd, intro hfit_kern fit_files, rule keeps_split(1), rule keeps_bnd, intro hfit_kern fit_files, rule load_file_keeps)

lemma openat_keeps:
  assumes h: "hfit Q pid h" and p: "fst (path_arg w fd p h) \<noteq> Inr ''/dev/tty''"
  shows "hfit Q pid (snd (openat w fd p fl mode h))"
proof (cases "path_arg w fd p h")
  case (Pair v h1)
  then have h1: "hfit Q pid h1" using keepsD [OF hfit_calls(5) h, of w fd p] by simp
  show ?thesis
  proof (cases v)
    case (Inr path)
    have t: "keeps (hfit Q pid) (open_try w path fl)"
      unfolding open_try_def by (intro host_rules materialise_keeps)
    have "path \<noteq> ''/dev/tty''" using p Pair Inr by simp
    then have o: "keeps (hfit Q pid) (on_kern (\<lambda>pid. sys_open (w_now w) pid path k m))" for k m
      by (intro hfit_kern fit_calls)
    show ?thesis unfolding openat_def bnd_def [of "path_arg w fd p"] Pair Inr prod.case sum.case
      by (rule keepsD [where P = "hfit Q pid", OF _ h1]) (unfold Let_def, intro host_rules t o)
  qed (use Pair h1 in \<open>simp add: openat_def bnd_def\<close>)
qed

text \<open>Places in files.\<close>

lemma set_pos_fit:
  assumes f: "fit Q pid k" and s: "ent_get (p_fds (proc_at k pid)) n = Some g" "fd_in f = fd_in g" "fd_out f = fd_out g"
  shows "fit Q pid (snd (set_pos pid n f p k))"
proof -
  have "kern_ok (set_fd pid n (f\<lparr>fd_pos := p\<rparr>) k)"
    by (rule ok_set_same [of _ _ _ g]) (use f s in \<open>simp_all add: fit_def stays_def\<close>)
  then show ?thesis using f stays_set(1) by (simp add: set_pos_def modify_def fit_def)
qed

lemma pos_keeps: "keeps (fit Q pid) (bnd (get_fd pid n) (\<lambda>f. set_pos pid n f p))"
  unfolding set_pos_def by (rule fit_mark) simp

lemma at_pos_keeps:
  assumes "keeps (hfit Q pid) m"
  shows "keeps (hfit Q pid) (at_pos n off m)"
  unfolding keeps_def
proof (intro allI impI)
  fix h assume h: "hfit Q pid h"
  have fin: "hfit Q pid (snd (finally_pos n old m h1))" if "hfit Q pid h1" for old h1
  proof -
    have "keeps (hfit Q pid) (on_kern (\<lambda>pid. bnd (get_fd pid n) (\<lambda>f. set_pos pid n f old)))" by (intro hfit_kern pos_keeps)
    then show ?thesis using keepsD [OF assms that] by (auto simp: finally_pos_def keeps_def split: prod.split)
  qed
  show "hfit Q pid (snd (at_pos n off m h))"
  proof (cases "ent_get (p_fds (proc_at (h_k h) (h_pid h))) n")
    case None
    then show ?thesis using h by (simp add: at_pos_def fd_of_def bnd_on_kern get_fd_run)
  next
    case (Some f)
    let ?k = "snd (set_pos pid n f off (h_k h))"
    have "fit Q pid ?k" using h Some by (intro set_pos_fit [where g = f]) (simp_all add: hfit_def)
    then have "hfit Q pid (h\<lparr>h_k := ?k\<rparr>)" using h by (simp add: hfit_def)
    from fin [OF this] show ?thesis using h Some
      by (auto simp: at_pos_def fd_of_def bnd_on_kern get_fd_run hfit_def set_pos_def modify_def)
  qed
qed

lemma listing_keeps:
  "keeps (\<lambda>h. hfit Q pid h \<and> ent_get (p_fds (proc_at (h_k h) pid)) n = Some f) (my_fs (\<lambda>cwd c. listdir le now p cwd c))"
proof -
  have "keeps (hfit Q pid) (my_fs (\<lambda>cwd c. listdir le now p cwd c))" by (intro host_rules)
  then show ?thesis
    by (auto simp: keeps_def my_fs_def on_kern_run bnd_def asks_def on_fs_def proc_at_def split: prod.splits sum.splits)
qed

lemma placed_fit:
  assumes "hfit Q pid h" "ent_get (p_fds (proc_at (h_k h) pid)) n = Some f"
  shows "hfit Q pid (snd (bnd (on_kern (\<lambda>pid. set_pos pid n f q)) (\<lambda>_. bnd (guest_put a b) (\<lambda>_. ret x)) h))"
proof -
  have "hfit Q pid (snd (on_kern (\<lambda>pid. set_pos pid n f q) h))"
    using assms set_pos_fit [where k = "h_k h" and n = n and f = f and g = f] by (simp add: hfit_def on_kern_run)
  moreover have "keeps (hfit Q pid) (bnd (guest_put a b) (\<lambda>_. ret x))" by (intro hosting)
  ultimately show ?thesis by (auto simp: keeps_def bnd_def [of "on_kern g" for g] split: prod.split sum.split)
qed

lemma dents_keeps: "keeps (hfit Q pid) (call_getdents w)"
  unfolding call_getdents_def
proof (rule keeps_bnd, rule arg_keeps, rule keeps_bnd, rule arg_keeps, rule keeps_bnd, rule arg_keeps)
  fix n a z
  let ?list = "\<lambda>p. my_fs (\<lambda>cwd c. listdir (w_le w) (w_now w) p cwd c)"
  let ?rest = "\<lambda>f p. bnd (?list p) (\<lambda>es.
     bnd (asks (\<lambda>h. k_fs (h_k h))) (\<lambda>fs.
     let rest = drop (nat (fd_pos f)) es; (b, c) = dents fs z (nat (fd_pos f)) rest in
     bnd (check (rest = [] \<or> c \<noteq> 0) EINVAL) (\<lambda>_.
     bnd (on_kern (\<lambda>pid. set_pos pid n f (fd_pos f + int c))) (\<lambda>_.
     bnd (guest_put a b) (\<lambda>_. ret (int (length b)))))))"
  show "keeps (hfit Q pid) (bnd (on_kern (\<lambda>pid. file_fd pid n)) (\<lambda>(f, p). ?rest f p))"
    unfolding keeps_def
  proof (intro allI impI)
    fix h assume h: "hfit Q pid h"
    have rest: "hfit Q pid (snd (?rest f p h))" if f: "ent_get (p_fds (proc_at (h_k h) pid)) n = Some f" for f p
    proof (cases "?list p h")
      case (Pair v h1)
      then have h1: "hfit Q pid h1" "ent_get (p_fds (proc_at (h_k h1) pid)) n = Some f"
        using keepsD [OF listing_keeps, of pid h n f "w_le w" "w_now w" p] h f by simp_all
      then show ?thesis using placed_fit [OF h1] Pair
        by (cases v) (auto simp: bnd_def [of "my_fs g" for g] kop_simps Let_def split: prod.split)
    qed
    show "hfit Q pid (snd (bnd (on_kern (\<lambda>pid. file_fd pid n)) (\<lambda>(f, p). ?rest f p) h))"
      using h rest by (auto simp: bnd_on_kern file_fd_run hfit_def split: option.split)
  qed
qed

text \<open>Contents.\<close>

lemma pipe_io_keeps: "keeps (hfit Q pid) (pipe_next n i)"
  "keeps (hfit Q pid) (on_kern (\<lambda>pid. bnd (fd_write_pipe pid n b) (\<lambda>(k, ds).
     bnd (modify (\<lambda>q. q\<lparr>k_woken := k_woken q @ ds\<rparr>)) (\<lambda>_. ret k))))"
proof -
  show "keeps (hfit Q pid) (pipe_next n i)" unfolding pipe_next_def by (intro host_rules)
  have "keeps (fit Q pid) (modify (\<lambda>q. q\<lparr>k_woken := k_woken q @ ds\<rparr>))" for ds
    by (rule fitI, rule stream_keeps)
      (simp add: modify_def kern_ok_def wr.exact_cong [of "k\<lparr>k_woken := x\<rparr>" k for k x] rd.exact_cong [of "k\<lparr>k_woken := x\<rparr>" k for k x]
        tables_cong [of "k\<lparr>k_woken := x\<rparr>" k for k x])
  then show "keeps (hfit Q pid) (on_kern (\<lambda>pid. bnd (fd_write_pipe pid n b) (\<lambda>(k, ds).
     bnd (modify (\<lambda>q. q\<lparr>k_woken := k_woken q @ ds\<rparr>)) (\<lambda>_. ret k))))"
    by (intro hfit_kern keeps_bnd fit_calls keeps_split keeps_simple)
qed

lemma io_keeps: "keeps (hfit Q pid) (fd_read w n z)" "keeps (hfit Q pid) (fd_write w n b)"
  unfolding fd_read_def fd_write_def
  by (intro host_rules; auto split: option.split stream.split intro!: host_rules pipe_io_keeps)+

lemma xfer_keeps: "keeps (hfit Q pid) (read_to w n a z)" "keeps (hfit Q pid) (write_from w n a z)"
  "keeps (hfit Q pid) (pread_to w off n a z)" "keeps (hfit Q pid) (pwrite_from w off n a z)"
  unfolding read_to_def write_from_def pread_to_def pwrite_from_def by (intro host_rules io_keeps at_pos_keeps)+

lemma vec_keeps: "(\<And>a z. keeps (hfit Q pid) (f a z)) \<Longrightarrow> keeps (hfit Q pid) (vec_io f a tot k)"
  by (induction k arbitrary: a tot) (auto intro!: hosting)

lemma io_call_keeps: "(\<And>n a z. keeps (hfit Q pid) (f n a z)) \<Longrightarrow> keeps (hfit Q pid) (io_call f hi)"
  unfolding io_call_def by (intro hosting)

lemma contents_keep: "keeps (hfit Q pid) (call_read w)" "keeps (hfit Q pid) (call_write w)" "keeps (hfit Q pid) (call_readv w)"
  "keeps (hfit Q pid) (call_writev w)" "keeps (hfit Q pid) (call_pread w)" "keeps (hfit Q pid) (call_pwrite w)" "keeps (hfit Q pid) call_ppoll"
  unfolding call_read_def call_write_def call_readv_def call_writev_def call_pread_def call_pwrite_def pos_call_def vec_of_def call_ppoll_def
    poll_one_def Let_def
  by (intro io_call_keeps host_rules xfer_keeps vec_keeps)+

text \<open>Identity and the rest.\<close>

lemma cred_keeps: "(\<And>p. cred_step p (snd (m p))) \<Longrightarrow> keeps (hfit Q pid) (my_proc m)"
  unfolding my_proc_def by (intro hfit_kern fit_cred)

lemma identity_keep: "keeps (hfit Q pid) call_setregid" "keeps (hfit Q pid) call_setreuid" "keeps (hfit Q pid) call_setresuid"
  "keeps (hfit Q pid) call_setresgid" "keeps (hfit Q pid) call_setgid" "keeps (hfit Q pid) call_setuid" "keeps (hfit Q pid) call_setfsuid"
  "keeps (hfit Q pid) call_setfsgid" "keeps (hfit Q pid) call_setgroups"
  unfolding call_setregid_def call_setreuid_def call_setresuid_def call_setresgid_def call_setgid_def call_setuid_def call_setfsuid_def
    call_setfsgid_def call_setgroups_def ok0_def
  by (intro hosting cred_keeps cred_step.intros)+

lemma own_keep: "keeps (hfit Q pid) (getres grp)" "keeps (hfit Q pid) call_getgroups" "keeps (hfit Q pid) call_umask"
  "keeps (hfit Q pid) (call_kill i)" "keeps (hfit Q pid) call_connect"
proof -
  show "keeps (hfit Q pid) (getres grp)" "keeps (hfit Q pid) call_getgroups" "keeps (hfit Q pid) call_connect"
    unfolding getres_def call_getgroups_def call_connect_def ok0_def by (intro hosting)+
  show "keeps (hfit Q pid) call_umask"
    unfolding call_umask_def my_proc_def by (intro hosting hfit_kern fit_proc) (simp add: set_umask_def)
  show "keeps (hfit Q pid) (call_kill i)" unfolding call_kill_def by (intro hosting hfit_kern fit_kill)
qed

lemma socket_keeps: "keeps (hfit Q pid) call_socket"
proof -
  have s: "keeps (fit Q pid) (bnd (kern_fd pid) (\<lambda>n. bnd (modify (set_fd pid n ((new_fd None None None True True False)\<lparr>fd_clo := c\<rparr>))) (\<lambda>_. ret n)))" for c
  proof (rule fitI)
    fix k assume "kern_ok k" "live k pid"
    then show "kern_ok (snd (bnd (kern_fd pid) (\<lambda>n. bnd (modify (set_fd pid n ((new_fd None None None True True False)\<lparr>fd_clo := c\<rparr>))) (\<lambda>_. ret n)) k))"
      by (intro settles_now settles_kern_fd settles_set_plain) (simp_all add: new_fd_def)
  qed (intro keeps_bnd stays_get set_keeps keeps_simple)
  have k: "keeps (hfit Q pid) (on_kern (\<lambda>pid. bnd (kern_fd pid) (\<lambda>n.
      bnd (modify (set_fd pid n ((new_fd None None None True True False)\<lparr>fd_clo := c\<rparr>))) (\<lambda>_. ret n))))" for c
    by (rule hfit_kern) (rule s)
  show ?thesis unfolding call_socket_def Let_def by (rule k hosting)+
qed

lemma clocks_keep: "keeps (hfit Q pid) (call_clock_gettime w)" "keeps (hfit Q pid) (call_clock_getres w)" "keeps (hfit Q pid) (call_gettimeofday w)"
  "keeps (hfit Q pid) (call_times w)" "keeps (hfit Q pid) (call_getrusage w)" "keeps (hfit Q pid) call_getcpu"
  "keeps (hfit Q pid) call_setaffinity" "keeps (hfit Q pid) call_getaffinity" "keeps (hfit Q pid) (call_getrandom w)"
  "keeps (hfit Q pid) (call_sysinfo w)" "keeps (hfit Q pid) (call_uname w)" "keeps (hfit Q pid) call_ioctl"
  unfolding call_clock_gettime_def clock_ms_def call_clock_getres_def call_gettimeofday_def call_times_def call_getrusage_def put_usage_def
    call_getcpu_def call_setaffinity_def call_getaffinity_def affinity_args_def call_getrandom_def call_sysinfo_def call_uname_def
    call_ioctl_def ok0_def Let_def
  by (intro hosting mem_keeps host_rules)+

lemma limits_keep: "keeps (hfit Q pid) (limit w a b c d)" "keeps (hfit Q pid) (call_getrlimit w)" "keeps (hfit Q pid) (call_setrlimit w)"
  "keeps (hfit Q pid) (call_prlimit w)"
proof -
  show l: "keeps (hfit Q pid) (limit w a b c d)" for a b c d
    unfolding limit_def getLimit_def set_limit_def ok0_def Let_def by (intro hosting mem_keeps)
  show "keeps (hfit Q pid) (call_getrlimit w)" "keeps (hfit Q pid) (call_setrlimit w)" "keeps (hfit Q pid) (call_prlimit w)"
    unfolding call_getrlimit_def call_setrlimit_def call_prlimit_def by (intro hosting l)+
qed

text \<open>Sleeping and waiting.\<close>

lemma sleep_keeps: "keeps (hfit Q pid) sys_yield" "keeps (hfit Q pid) (sys_sleep w)" "keeps (hfit Q pid) (readTs a)"
  "keeps (hfit Q pid) (sleep_to w ck a)"
proof -
  have s: "keeps (hfit Q pid) (my_proc (modify (\<lambda>p. p\<lparr>p_state := g p\<rparr>)))" for g
    unfolding my_proc_def by (intro hfit_kern fit_proc) simp
  show "keeps (hfit Q pid) sys_yield" unfolding sys_yield_def by (rule s)
  show sl: "keeps (hfit Q pid) (sys_sleep w)" unfolding sys_sleep_def by (intro hosting s)
  show ts: "keeps (hfit Q pid) (readTs a)" for a unfolding readTs_def by (intro hosting mem_keeps)
  show "keeps (hfit Q pid) (sleep_to w ck a)" unfolding sleep_to_def clock_ms_def by (intro hosting ts sl)
qed

lemma sleeping_keep: "keeps (hfit Q pid) (ok0 sys_yield)" "keeps (hfit Q pid) (call_nanosleep w)" "keeps (hfit Q pid) (call_clock_nanosleep w)"
  "keeps (hfit Q pid) (call_futex w)"
  unfolding call_nanosleep_def call_clock_nanosleep_def call_futex_def ok0_def Let_def by (intro hosting mem_keeps sleep_keeps)+

lemma fit_reap: "keeps (fit Q pid) (modify (reap c (Some pid)))"
proof (rule fitI)
  show "keeps (stays Q pid) (modify (reap c (Some pid)))"
  proof (rule keeps_modify)
    fix k assume s: "stays Q pid k"
    then have l: "live k pid" by (simp add: stays_def)
    let ?k = "k\<lparr>k_procs := filter (\<lambda>q. q \<noteq> c) (k_procs k)\<rparr>"
    have "stays Q pid (upd_proc pid (\<lambda>p. p\<lparr>p_kids := filter (\<lambda>q. q \<noteq> c) (p_kids p)\<rparr>) ?k)"
      by (rule stays_upd) (use live_known [OF l] stays_same [OF _ s, of ?k] in \<open>simp_all add: known_def\<close>)
    then show "stays Q pid (reap c (Some pid) k)" using s by (simp add: reap_def Let_def)
  qed
  show "kern_ok (snd (modify (reap c (Some pid)) k))" if "kern_ok k" "live k pid" for k
    using reap_ok [OF that(1), of "Some pid" c] live_known [OF that(2)] by (simp add: modify_def)
qed

lemma wait_keeps: "keeps (hfit Q pid) (call_wait4 w)"
  unfolding call_wait4_def put_usage_def
  by (intro hosting mem_keeps host_rules hfit_kern fit_reap opt_keeps)

lemma flush_keeps: "keeps (hfit Q pid) (flushShared now a n)" "keeps (hfit Q pid) (flushAllShared now)"
  unfolding flushShared_def flushAllShared_def flush_one_def Let_def
  by (intro hosting let_keeps; auto split: option.split intro!: host_rules)+

lemma unmap_keeps: "keeps (hfit Q pid) (unmap now a n)"
  unfolding unmap_def Let_def by (intro hosting flush_keeps)

lemma mmap_keeps: "keeps (hfit Q pid) (mmap now a b c d e f)"
  unfolding mmap_def map_file_def Let_def by (intro host_rules)

lemma space_keep: "keeps (hfit Q pid) call_brk" "keeps (hfit Q pid) (call_munmap w)" "keeps (hfit Q pid) (call_mremap w)"
  "keeps (hfit Q pid) (call_mmap w)" "keeps (hfit Q pid) (call_msync w)" "keeps (hfit Q pid) (call_exit w)"
  unfolding call_brk_def call_munmap_def call_mremap_def call_mmap_def call_msync_def call_exit_def remap_def move_map_def ok0_def Let_def
  by (intro hosting flush_keeps unmap_keeps mmap_keeps)+

text \<open>Every call but \<open>openat\<close>.\<close>

lemma call_fit:
  assumes "n \<noteq> 56"
  shows "keeps (hfit Q pid) (call w n)"
proof -
  note all = names_keep files_keep times_keep dents_keeps contents_keep identity_keep own_keep socket_keeps clocks_keep space_keep
    limits_keep sleeping_keep wait_keeps mem_keeps(9)
  have e: "\<forall>(i, f) \<in> set (calls w). i \<noteq> 56 \<longrightarrow> keeps (hfit Q pid) f"
    unfolding calls_def by (simp add: all arg_keeps)
  show ?thesis
  proof (cases "map_of (calls w) (nat n)")
    case (Some f)
    then have "(nat n, f) \<in> set (calls w)" by (rule map_of_SomeD)
    then show ?thesis using e assms Some by (auto simp: call_def)
  qed (simp add: call_def)
qed

end

end
