(* ===== verification/HostMem.thy ===== *)
theory HostMem
  imports HostInv
begin

text \<open>
  What the calls of a guest program do to its own state: but for the calls that change the map of the memory, they store only where
  the program may write itself; no call breaks the shape of registers, memory and mappings.
\<close>

section \<open>Stores of a call\<close>

definition hsafe :: "rv \<Rightarrow> host \<Rightarrow> bool" where "hsafe r0 h \<longleftrightarrow> safe r0 (h_rv h)"

named_theorems storing \<comment> \<open>operations of a host that store only where the program may\<close>

lemma hsafe_kern [storing]: "keeps (hsafe r0) (on_kern f)"
  by (simp add: keeps_def on_kern_run hsafe_def)

lemma hsafe_rv: "keeps (safe r0) m \<Longrightarrow> keeps (hsafe r0) (on_rv m)"
  by (simp add: keeps_def on_rv_run hsafe_def)

lemma hsafe_own [storing]: "keeps (hsafe r0) (modify (\<lambda>h. h\<lparr>h_left := a h\<rparr>))" "keeps (hsafe r0) (modify (\<lambda>h. h\<lparr>h_socks := b h\<rparr>))"
  "keeps (hsafe r0) (modify (\<lambda>h. h\<lparr>h_ins := c h\<rparr>))" "keeps (hsafe r0) (modify (\<lambda>h. h\<lparr>h_code := d h, h_done := e h\<rparr>))"
  "keeps (hsafe r0) (sock_copy x y)" "keeps (hsafe r0) (modify (\<lambda>h. h\<lparr>h_rlim := g h\<rparr>))"
  unfolding sock_copy_def by (rule keeps_modify, simp add: hsafe_def)+

lemmas [storing] = keeps_simple keeps_split keeps_catch keeps_mapk nat_in_keeps stays_body opt_keeps arg_keeps

lemma pure_keeps: "(\<And>m. snd (g m) = m) \<Longrightarrow> keeps (hsafe r0) (on_rv (on_mem g))"
  by (intro hsafe_rv load_keeps)

lemma hsafe_loads [storing]: "keeps (hsafe r0) (on_rv (on_mem (mem_read a n)))" "keeps (hsafe r0) (on_rv (on_mem (mem_u8 a)))"
  "keeps (hsafe r0) (on_rv (on_mem (mem_u16 a)))" "keeps (hsafe r0) (on_rv (on_mem (mem_u32 a)))" "keeps (hsafe r0) (on_rv (on_mem (mem_u64 a)))"
  "keeps (hsafe r0) (on_rv (on_mem (mem_i32 a)))" "keeps (hsafe r0) (on_rv (on_mem (mem_i64 a)))" "keeps (hsafe r0) (guest_read a n)"
  "keeps (hsafe r0) leave"
  unfolding guest_read_def leave_def by (intro pure_keeps; simp)+ (intro keeps_bnd storing)

definition may_store :: "rv \<Rightarrow> int \<Rightarrow> nat \<Rightarrow> bool" where
  "may_store r a n \<longleftrightarrow> 0 \<le> a \<and> all_writable r a n"

lemma may_sub: "may_store r a n \<Longrightarrow> 0 \<le> o1 \<Longrightarrow> o1 + int z \<le> int n \<Longrightarrow> may_store r (a + o1) z"
  by (auto simp: may_store_def all_writable_def)

lemma chk_guard:
  assumes "may_store r0 a n \<Longrightarrow> keeps (hsafe r0) (f ())"
  shows "keeps (hsafe r0) (bnd (guest_chk a n True) f)"
  unfolding keeps_def
proof (intro allI impI)
  fix h assume s: "hsafe r0 h"
  obtain x r' where c: "mem_chk a n True (h_rv h) = (x, r')" by (cases "mem_chk a n True (h_rv h)")
  then have r': "r' = h_rv h" by (rule mem_chk_run)
  have run: "guest_chk a n True h = (x, h)" by (simp add: guest_chk_def on_rv_run c r')
  show "hsafe r0 (snd (bnd (guest_chk a n True) f h))"
  proof (cases x)
    case (Inr u)
    have "all_writable r0 a n"
      using mem_chk_writable [of a n "h_rv h" "h_rv h"] c Inr r' writable_same [of r0 "h_rv h"] s
      by (simp add: all_writable_def safe_def hsafe_def)
    moreover have "0 \<le> a" using chk_in_range [of a n True "h_rv h" r'] c Inr by (simp add: in_range_def)
    ultimately have "keeps (hsafe r0) (f ())" using assms by (simp add: may_store_def)
    then show ?thesis using s by (simp add: bnd_def run Inr keeps_def)
  qed (simp add: bnd_def run s)
qed

lemma chk_plain [storing]: "keeps (hsafe r0) (guest_chk a n wr)"
proof -
  have "keeps (safe r0) (bnd (mem_chk a n wr) ret)" by (rule chk_keeps) simp
  moreover have "bnd (mem_chk a n wr) ret = mem_chk a n wr" by (rule ext) (simp add: bnd_def ret_def split: prod.split sum.split)
  ultimately show ?thesis unfolding guest_chk_def by (intro hsafe_rv) simp
qed

lemma write_keeps:
  assumes "may_store r0 a n" "length b \<le> n"
  shows "keeps (hsafe r0) (on_rv (on_mem (mem_write a b)))"
proof (rule hsafe_rv, rule store_keeps [of r0 a n])
  fix m and x :: nat assume m: "mem_ok m" "x < nat a \<or> nat a + n \<le> x"
  then show "byte (snd (mem_write a b m)) x = byte m x" using wr.frame_snd [OF m(1), of x a b] assms(2) by auto
qed (use assms Mem64.wr.same in \<open>auto simp: may_store_def\<close>)

lemma setN_keeps:
  assumes "may_store r0 a z" "z \<in> {2, 4, 8}"
  shows "keeps (hsafe r0) (on_rv (on_mem (mem_setN a v z)))"
proof -
  have "keeps (hsafe r0) (on_rv (on_mem (mem_set16 a v)))" if "may_store r0 a 2"
    using that by (intro hsafe_rv store_keeps [of r0 a 2]) (use w16.frame_snd w16.same in \<open>auto simp: may_store_def\<close>)
  moreover have "keeps (hsafe r0) (on_rv (on_mem (mem_set32 a v)))" if "may_store r0 a 4"
    using that by (intro hsafe_rv store_keeps [of r0 a 4]) (use w32.frame_snd w32.same in \<open>auto simp: may_store_def\<close>)
  moreover have "keeps (hsafe r0) (on_rv (on_mem (mem_set64 a v)))" if "may_store r0 a 8"
    using that by (intro hsafe_rv store_keeps [of r0 a 8]) (use w64.frame_snd w64.same in \<open>auto simp: may_store_def\<close>)
  ultimately show ?thesis using assms by (auto simp: mem_set16_def mem_set32_def mem_set64_def)
qed

text \<open>Numbers in a place that was checked.\<close>

definition fields_in :: "nat \<Rightarrow> (int \<times> nat \<times> int) list \<Rightarrow> bool" where
  "fields_in n fs \<longleftrightarrow> (\<forall>(o1, z, v) \<in> set fs. 0 \<le> o1 \<and> z \<in> {2, 4, 8} \<and> o1 + int z \<le> int n)"

lemma fields_at_keep:
  assumes "\<And>o1 z v. (o1, z, v) \<in> set fs \<Longrightarrow> may_store r0 (a + o1) z \<and> z \<in> {2, 4, 8}"
  shows "keeps (hsafe r0) (put_fields a fs)"
proof -
  have "keeps (hsafe r0) (mapk (\<lambda>(o1, z, v). on_rv (on_mem (mem_setN (a + o1) v z))) fs)"
    using assms by (intro mapk_keeps) (auto intro!: setN_keeps split: prod.split)
  then show ?thesis unfolding put_fields_def by (intro keeps_bnd keeps_simple)
qed

lemma fields_keep: "may_store r0 a n \<Longrightarrow> fields_in n fs \<Longrightarrow> keeps (hsafe r0) (put_fields a fs)"
  using may_sub [of r0 a n] by (intro fields_at_keep) (fastforce simp: fields_in_def)

lemma hsafe_out [storing]: "keeps (hsafe r0) (guest_put a b)"
  "keeps (hsafe r0) (copy_out b a n c)"
proof -
  have "guest_put a b = bnd (guest_chk a (length b) True) (\<lambda>_. on_rv (on_mem (mem_write a b)))" for b
    by (simp add: guest_put_def guest_chk_def)
  then show p: "keeps (hsafe r0) (guest_put a b)" for b
    using write_keeps [of r0 a "length b" b] by (auto intro!: chk_guard)
  show "keeps (hsafe r0) (copy_out b a n c)" unfolding copy_out_def Let_def by (intro keeps_bnd storing p)
qed

text \<open>Zeros first, then numbers.\<close>

lemma zero_guard:
  assumes "may_store r0 a n \<Longrightarrow> keeps (hsafe r0) (f ())"
  shows "keeps (hsafe r0) (bnd (zero_out a n) f)"
  unfolding zero_out_def bnd_assoc
  using assms by (intro chk_guard keeps_bnd) (auto intro: write_keeps)

lemma me_safe: "keeps (hsafe r0) (my_fs f)" "keeps (hsafe r0) (my_proc m)" "keeps (hsafe r0) (fd_of n)" "keeps (hsafe r0) (fd_path_of n)"
  "keeps (hsafe r0) (set_clo n b)" "keeps (hsafe r0) (sys_stat w p fl)"
  unfolding my_fs_def my_proc_def fd_of_def fd_path_of_def set_clo_def sys_stat_def by (intro storing keeps_bnd)+

lemma str_safe: "keeps (hsafe r0) (str w n)" "keeps (hsafe r0) (str_reg w i)"
proof -
  have "keeps (safe r0) (str_from k ad)" for k ad
    by (induction k arbitrary: ad) (auto intro!: chk_keeps keeps_bnd rv_keeps load_keeps)
  then show s: "keeps (hsafe r0) (str w n)" for n unfolding str_def by (intro keeps_bnd hsafe_rv keeps_simple)
  show "keeps (hsafe r0) (str_reg w i)" unfolding str_reg_def by (intro keeps_bnd storing s)
qed

lemma path_safe: "keeps (hsafe r0) (path_arg w fd p)" "keeps (hsafe r0) (path_at w i)"
proof -
  show p: "keeps (hsafe r0) (path_arg w fd p)" for fd p unfolding path_arg_def by (intro keeps_bnd storing me_safe)
  show "keeps (hsafe r0) (path_at w i)" unfolding path_at_def by (intro keeps_bnd storing str_safe p)
qed

lemmas safe_rules = keeps_bnd storing me_safe str_safe path_safe

lemma names_safe: "keeps (hsafe r0) call_getcwd" "keeps (hsafe r0) (call_mkdirat w)" "keeps (hsafe r0) (call_unlinkat w)"
  "keeps (hsafe r0) (call_symlinkat w)" "keeps (hsafe r0) (call_linkat w)" "keeps (hsafe r0) (call_renameat w)"
  "keeps (hsafe r0) (call_renameat2 w)" "keeps (hsafe r0) (call_faccessat w)" "keeps (hsafe r0) (call_fchmod w)"
  "keeps (hsafe r0) (call_fchmodat w)" "keeps (hsafe r0) (call_fchownat w)" "keeps (hsafe r0) (call_fchown w)"
  "keeps (hsafe r0) (call_readlinkat w)" "keeps (hsafe r0) (call_truncate w)" "keeps (hsafe r0) (call_ftruncate w)"
  "keeps (hsafe r0) (call_chdir w)" "keeps (hsafe r0) (call_fchdir w)" "keeps (hsafe r0) call_close" "keeps (hsafe r0) call_dup"
  "keeps (hsafe r0) call_dup3" "keeps (hsafe r0) call_fcntl" "keeps (hsafe r0) (call_lseek w)"
  unfolding call_getcwd_def call_mkdirat_def call_unlinkat_def call_symlinkat_def call_linkat_def call_renameat_def call_renameat2_def
    call_faccessat_def call_fchmod_def call_fchmodat_def call_fchownat_def call_fchown_def call_readlinkat_def call_truncate_def
    call_ftruncate_def sys_trunc_def call_chdir_def call_fchdir_def sys_cd_def call_close_def call_dup_def call_dup3_def call_fcntl_def
    call_lseek_def
  by (intro safe_rules)+

lemma openat_safe: "keeps (hsafe r0) (call_openat w)"
  unfolding call_openat_def openat_def open_try_def sys_materialise_def Let_def by (intro safe_rules)

text \<open>Numbers that calls report.\<close>

lemma reports_fit: "fields_in 128 (stat_fields q)" "fields_in 120 (fs_fields fs)" "fields_in 16 (ts_fields 0 ms)" "fields_in 8 [(0, 4, x), (4, 4, y)]"
  "fields_in (length gs * 4) (num_fields gs)" "fields_in 4 [(0, 4, x)]" "fields_in 32 [(0, 8, x)]"
  "fields_in 16 [(0, 8, x), (8, 8, y)]" "fields_in 112 (info_fields up run mm us k)"
  by (auto simp: fields_in_def stat_fields_def fs_fields_def ts_fields_def num_fields_def info_fields_def Let_def dest!: set_zip_leftD)

lemma reports_safe: "keeps (hsafe r0) call_pipe2" "keeps (hsafe r0) (call_fstatat w)" "keeps (hsafe r0) (call_fstat w)"
  "keeps (hsafe r0) (call_statfs w)" "keeps (hsafe r0) (call_fstatfs w)"
  "keeps (hsafe r0) call_getgroups" "keeps (hsafe r0) (call_clock_gettime w)" "keeps (hsafe r0) (call_clock_getres w)"
  "keeps (hsafe r0) (call_gettimeofday w)" "keeps (hsafe r0) (call_times w)" "keeps (hsafe r0) call_getcpu"
  "keeps (hsafe r0) (call_sysinfo w)"
  unfolding call_pipe2_def call_fstatat_def call_fstat_def call_statfs_def call_fstatfs_def statfs_def putStat_def call_getgroups_def
    call_clock_gettime_def call_clock_getres_def clock_ms_def call_gettimeofday_def call_times_def call_getcpu_def call_sysinfo_def ok0_def
  by (rule chk_guard zero_guard safe_rules | erule fields_keep | rule reports_fit)+

lemma set8_keeps: "may_store r0 a n \<Longrightarrow> 0 < n \<Longrightarrow> keeps (hsafe r0) (on_rv (on_mem (mem_set8 a v)))"
  by (rule hsafe_rv, rule store_keeps [of r0 a 1]) (use w8.frame_snd w8.same in \<open>auto simp: may_store_def all_writable_def\<close>)

lemma check_guard: "(b \<Longrightarrow> keeps P (f ())) \<Longrightarrow> keeps P (bnd (check b e) f)"
  by (cases b) (simp_all add: keeps_def bnd_simple)

lemma affinity_safe: "keeps (hsafe r0) call_setaffinity" "keeps (hsafe r0) call_getaffinity"
  unfolding call_setaffinity_def call_getaffinity_def affinity_args_def prod.case
  by (rule check_guard zero_guard safe_rules | erule set8_keeps | simp)+

lemma usage_safe: "keeps (hsafe r0) (put_usage a ms)"
  unfolding put_usage_def
  by (rule zero_guard) (rule safe_rules | erule fields_keep | simp add: fields_in_def)+

lemma rest_safe: "keeps (hsafe r0) (call_getrusage w)" "keeps (hsafe r0) call_ioctl" "keeps (hsafe r0) call_connect" "keeps (hsafe r0) call_socket" "keeps (hsafe r0) (call_utimensat w)"
  "keeps (hsafe r0) call_setregid" "keeps (hsafe r0) call_setreuid" "keeps (hsafe r0) call_setresuid"
  "keeps (hsafe r0) call_setresgid" "keeps (hsafe r0) call_setgid" "keeps (hsafe r0) call_setuid" "keeps (hsafe r0) call_setfsuid"
  "keeps (hsafe r0) call_setfsgid" "keeps (hsafe r0) call_setgroups" "keeps (hsafe r0) call_umask" "keeps (hsafe r0) (call_kill i)"
  unfolding call_getrusage_def call_ioctl_def call_connect_def call_socket_def
    call_utimensat_def utimens_def utime_path_def fileTs_def ms_of_def call_setregid_def call_setreuid_def call_setresuid_def
    call_setresgid_def call_setgid_def call_setuid_def call_setfsuid_def call_setfsgid_def call_setgroups_def call_umask_def call_kill_def
    ok0_def Let_def
  by (rule safe_rules usage_safe | simp)+

lemma uname_safe: "keeps (hsafe r0) (call_uname w)"
proof -
  have m: "keeps (hsafe r0) (mapk (\<lambda>(i, x). on_rv (on_mem (mem_write (a + 65 * int i) (take 65 (enc x @ [0]))))) (enumerate 0 xs))"
    if s: "may_store r0 a 390" "length xs = 6" for a xs
  proof (rule mapk_keeps)
    fix q assume "q \<in> set (enumerate 0 xs)"
    then have "fst q < 6" using s(2) by (simp add: in_set_enumerate_eq [of q 0 xs])
    then have "may_store r0 (a + 65 * int (fst q)) 65" by (intro may_sub [OF s(1)]) simp_all
    then have "keeps (hsafe r0) (on_rv (on_mem (mem_write (a + 65 * int (fst q)) (take 65 b))))" for b by (rule write_keeps) simp
    then show "keeps (hsafe r0) (case q of (i, x) \<Rightarrow> on_rv (on_mem (mem_write (a + 65 * int i) (take 65 (enc x @ [0])))))"
      by (cases q) (simp del: take_append)
  qed
  show ?thesis unfolding call_uname_def ok0_def
    by (rule chk_guard keeps_bnd arg_keeps keeps_simple m | assumption)+ (simp_all add: keeps_simple)
qed

lemma limits_safe: "keeps (hsafe r0) (call_getrlimit w)" "keeps (hsafe r0) (call_setrlimit w)" "keeps (hsafe r0) (call_prlimit w)"
proof -
  have l: "keeps (hsafe r0) (limit w a b c d)" for a b c d
    unfolding limit_def getLimit_def set_limit_def ok0_def Let_def
    by (rule chk_guard safe_rules | erule fields_keep | rule reports_fit)+
  show "keeps (hsafe r0) (call_getrlimit w)" "keeps (hsafe r0) (call_setrlimit w)" "keeps (hsafe r0) (call_prlimit w)"
    unfolding call_getrlimit_def call_setrlimit_def call_prlimit_def by (intro keeps_bnd arg_keeps l)+
qed

lemma sleep_safe: "keeps (hsafe r0) (ok0 sys_yield)" "keeps (hsafe r0) (call_nanosleep w)" "keeps (hsafe r0) (call_clock_nanosleep w)"
  "keeps (hsafe r0) (call_futex w)"
  unfolding ok0_def call_nanosleep_def call_clock_nanosleep_def call_futex_def sleep_to_def readTs_def sys_yield_def sys_sleep_def
    clock_ms_def Let_def
  by (intro safe_rules)+

lemma wait_safe: "keeps (hsafe r0) (call_wait4 w)"
  unfolding call_wait4_def
  by (rule chk_guard safe_rules usage_safe | erule fields_keep | rule reports_fit)+

lemma getres_safe: "keeps (hsafe r0) (getres grp)"
proof -
  have p: "keeps (hsafe r0) (put_fields 0 [(a, 4, x), (b, 4, y), (c, 4, z)])" if "may_store r0 a 4" "may_store r0 b 4" "may_store r0 c 4" for a b c x y z
    using that by (intro fields_at_keep) auto
  show ?thesis
    unfolding getres_def ok0_def by (rule p chk_guard keeps_bnd arg_keeps keeps_split keeps_simple | assumption)+
qed

text \<open>What is read is not longer than what was asked for.\<close>

definition gives :: "('a \<Rightarrow> bool) \<Rightarrow> ('s, 'a) kop \<Rightarrow> bool" where
  "gives P m \<longleftrightarrow> (\<forall>s v s'. m s = (Inr v, s') \<longrightarrow> P v)"

lemma gives_bnd: "(\<And>x. gives P (f x)) \<Longrightarrow> gives P (bnd m f)"
  unfolding gives_def bnd_def by (auto split: prod.splits sum.splits)

lemma gives_simple: "P x \<Longrightarrow> gives P (ret x)" "gives P (bad e)" "gives P leave"
  by (auto simp: gives_def ret_def bad_def leave_def kop_simps)

lemma gives_split: "(\<And>a b. gives P (f a b)) \<Longrightarrow> gives P (case x of (a, b) \<Rightarrow> f a b)"
  "(\<And>r. gives P (g r)) \<Longrightarrow> gives P k \<Longrightarrow> gives P (case bd of Reg r \<Rightarrow> g r | Dir e \<Rightarrow> k | Sym to \<Rightarrow> k | Chr rfn wfn rep \<Rightarrow> k)"
  "gives P k \<Longrightarrow> gives P l \<Longrightarrow> gives P (if c then k else l)"
  by (auto split: prod.split body.split)

lemma gives_kern: "(\<And>pid. gives P (f pid)) \<Longrightarrow> gives P (on_kern f)"
  unfolding gives_def on_kern_def by (auto split: prod.splits)

lemma js_span: "js_index b (p + int n) - js_index b p \<le> n"
  unfolding js_index_def by (auto simp: min_def max_def)

lemma gives_fdr: "gives (\<lambda>b. length b \<le> n) (sys_fdr now pid k n)"
  unfolding sys_fdr_def Let_def by (intro gives_bnd gives_split gives_simple; simp add: slice_def Let_def js_span min.coboundedI2)

lemma gives_read: "gives (\<lambda>b. length b \<le> z) (fd_read w n z)"
  unfolding fd_read_def
  by (intro gives_bnd) (auto split: option.split stream.split intro!: gives_kern gives_fdr gives_bnd gives_simple)

lemma given_keeps:
  assumes "gives P m" "keeps I m" "\<And>x. P x \<Longrightarrow> keeps I (f x)"
  shows "keeps I (bnd m f)"
  unfolding keeps_def
proof (intro allI impI)
  fix s assume "I s"
  then have "I (snd (m s))" using assms(2) by (simp add: keeps_def)
  then show "I (snd (bnd m f s))"
    using assms(1,3) by (cases "m s") (auto simp: bnd_def gives_def keeps_def split: sum.split)
qed

lemma io_safe: "keeps (hsafe r0) (fd_read w n z)" "keeps (hsafe r0) (fd_write w n b)"
  unfolding fd_read_def fd_write_def pipe_next_def
  by (intro safe_rules; auto split: option.split stream.split intro!: safe_rules)+

lemma at_pos_safe: "keeps (hsafe r0) m \<Longrightarrow> keeps (hsafe r0) (at_pos n off m)"
proof -
  assume m: "keeps (hsafe r0) m"
  have "keeps (hsafe r0) (finally_pos n old m)" for old
    unfolding keeps_def
  proof (intro allI impI)
    fix h assume "hsafe r0 h"
    then have "hsafe r0 (snd (m h))" by (rule keepsD [OF m])
    then show "hsafe r0 (snd (finally_pos n old m h))"
      using keepsD [OF hsafe_kern [of r0 "\<lambda>pid. bnd (get_fd pid n) (\<lambda>f. set_pos pid n f old)"]] by (simp add: finally_pos_def split_beta)
  qed
  then show "keeps (hsafe r0) (at_pos n off m)" unfolding at_pos_def by (intro safe_rules)
qed

lemma xfer_safe: "keeps (hsafe r0) (read_to w n a z)" "keeps (hsafe r0) (write_from w n a z)"
  "keeps (hsafe r0) (pread_to w off n a z)" "keeps (hsafe r0) (pwrite_from w off n a z)"
proof -
  show "keeps (hsafe r0) (read_to w n a z)"
    unfolding read_to_def by (rule chk_guard, rule given_keeps [OF gives_read io_safe(1)], intro keeps_bnd keeps_simple write_keeps)
  show "keeps (hsafe r0) (write_from w n a z)" "keeps (hsafe r0) (pread_to w off n a z)" "keeps (hsafe r0) (pwrite_from w off n a z)"
    unfolding write_from_def pread_to_def pwrite_from_def by (intro safe_rules at_pos_safe io_safe)+
qed

lemma vec_safe: "(\<And>a z. keeps (hsafe r0) (f a z)) \<Longrightarrow> keeps (hsafe r0) (vec_io f a tot k)"
  by (induction k arbitrary: a tot) (auto intro!: safe_rules)

lemma io_call_safe: "(\<And>n a z. keeps (hsafe r0) (f n a z)) \<Longrightarrow> keeps (hsafe r0) (io_call f hi)"
  unfolding io_call_def by (intro safe_rules)

lemma contents_safe: "keeps (hsafe r0) (call_read w)" "keeps (hsafe r0) (call_write w)" "keeps (hsafe r0) (call_readv w)"
  "keeps (hsafe r0) (call_writev w)" "keeps (hsafe r0) (call_pread w)" "keeps (hsafe r0) (call_pwrite w)" "keeps (hsafe r0) (call_getdents w)"
proof -
  show "keeps (hsafe r0) (call_read w)" "keeps (hsafe r0) (call_write w)" "keeps (hsafe r0) (call_readv w)"
    "keeps (hsafe r0) (call_writev w)" "keeps (hsafe r0) (call_pread w)" "keeps (hsafe r0) (call_pwrite w)"
    unfolding call_read_def call_write_def call_readv_def call_writev_def call_pread_def call_pwrite_def pos_call_def vec_of_def
    by (intro io_call_safe safe_rules xfer_safe vec_safe)+
  show "keeps (hsafe r0) (call_getdents w)" unfolding call_getdents_def Let_def by (intro safe_rules)
qed

lemma poll_safe: "keeps (hsafe r0) call_ppoll"
proof -
  have "keeps (hsafe r0) (mapk (\<lambda>i. poll_one (a + 8 * int i)) [0..<k])" if s: "may_store r0 a (k * 8)" for a k
  proof (rule mapk_keeps)
    fix i assume i: "i \<in> set [0..<k]"
    have "may_store r0 (a + 8 * int i) 8" using i by (intro may_sub [OF s]) simp_all
    then have "keeps (hsafe r0) (put_fields (a + 8 * int i) [(6, 2, v)])" for v
      by (rule fields_keep) (simp add: fields_in_def)
    then show "keeps (hsafe r0) (poll_one (a + 8 * int i))" unfolding poll_one_def Let_def by (intro safe_rules)
  qed
  then show ?thesis unfolding call_ppoll_def by (intro keeps_bnd arg_keeps keeps_split keeps_simple chk_guard)
qed

lemma random_safe: "keeps (hsafe r0) (call_getrandom w)"
proof -
  have "keeps (hsafe r0) (on_rv (on_mem (mem_write (a + int (65536 * i)) (map g [65536 * i..<65536 * i + min 65536 (n - 65536 * i)]))))"
    if s: "may_store r0 a n" "i < (n + 65535) div 65536" for a n i g
  proof -
    have "65536 * i \<le> n" using that(2) by linarith
    then have "may_store r0 (a + int (65536 * i)) (min 65536 (n - 65536 * i))" by (intro may_sub [OF s(1)]) simp_all
    then show ?thesis by (rule write_keeps) simp
  qed
  then show ?thesis
    unfolding call_getrandom_def Let_def by (intro keeps_bnd arg_keeps chk_guard keeps_simple mapk_keeps) auto
qed

lemma flush_safe: "keeps (hsafe r0) (flushShared now a n)" "keeps (hsafe r0) (flushAllShared now)"
  unfolding flushShared_def flushAllShared_def flush_one_def Let_def
  by (intro safe_rules; auto split: option.split intro!: safe_rules)+

lemma end_safe: "keeps (hsafe r0) (call_msync w)" "keeps (hsafe r0) (call_exit w)"
  unfolding call_msync_def call_exit_def ok0_def by (intro safe_rules flush_safe)+

section \<open>Every call that leaves the map alone\<close>

definition map_calls :: "nat set" where "map_calls = {214, 215, 216, 222}"

lemma call_safe:
  assumes "nat n \<notin> map_calls"
  shows "keeps (hsafe r0) (call w n)"
proof -
  note all = names_safe openat_safe reports_safe affinity_safe rest_safe getres_safe contents_safe poll_safe random_safe end_safe uname_safe
    limits_safe sleep_safe wait_safe hsafe_loads(9)
  have e: "\<forall>(i, f) \<in> set (calls w). i \<notin> map_calls \<longrightarrow> keeps (hsafe r0) f"
    unfolding calls_def map_calls_def by (simp add: all arg_keeps)
  show ?thesis
  proof (cases "map_of (calls w) (nat n)")
    case (Some f)
    then have "(nat n, f) \<in> set (calls w)" by (rule map_of_SomeD)
    then show ?thesis using e assms Some by (auto simp: call_def)
  qed (simp add: call_def)
qed

end
