(* ===== verification/MapClaims.thy ===== *)
theory MapClaims
  imports MapProps
begin

text \<open>
  What a program can rely on when it changes its memory map, on the view of \<open>MapProps\<close>.
\<close>

section \<open>An example\<close>

text \<open>A host with a heap of a page and one mapping of two pages.\<close>

definition map_rv :: rv where
  "map_rv = blank_rv\<lparr>r_m := mem0\<lparr>m_top := 549755813888\<rparr>, r_stackAt := 549747425280,
     r_maps := [\<lparr>e_at = 274877906944, e_end = 274877915136, e_prot = 3, e_shared = False, e_path = None, e_off = None\<rparr>],
     r_mapAt := 274877915136\<rparr>"

definition map_host :: host where
  "map_host = \<lparr>h_rv = map_rv, h_k = sys0, h_pid = 1, h_done = False, h_code = 0, h_socks = [], h_ins = [], h_left = False, h_rlim = []\<rparr>"

lemma map_fields: "r_floor map_rv = 196608" "r_brk map_rv = 200704" "r_stackAt map_rv = 549747425280" "r_mapAt map_rv = 274877915136"
  "m_top (r_m map_rv) = 549755813888"
  "r_maps map_rv = [\<lparr>e_at = 274877906944, e_end = 274877915136, e_prot = 3, e_shared = False, e_path = None, e_off = None\<rparr>]"
  by (simp_all add: map_rv_def blank_rv_def)

lemma map_ok: "maps_ok map_rv"
proof -
  have "mem_ok (r_m map_rv)" using mem0(2) by (simp add: map_rv_def mem_ok_def)
  then show ?thesis by (simp add: maps_ok_def map_fields ent_ok_def SAFE_def seen_def)
qed

lemma flush_private:
  assumes "\<And>q. q \<in> set (r_maps (h_rv h)) \<Longrightarrow> e_path q = None"
  shows "flushShared now ad len h = (Inr (), h)"
proof -
  have "mapk (flush_one now a e) ms h = (Inr (map (\<lambda>_. ()) ms), h)" if "set ms \<subseteq> set (r_maps (h_rv h))" for a e ms
    using that assms by (induction ms) (auto simp: ret_def bnd_def flush_one_def)
  then show ?thesis by (simp add: flushShared_def bnd_simple bnd_def [of "mapk f xs" for f xs] ret_def)
qed

section \<open>Release\<close>

text \<open>C12 \<open>munmap\<close> releases exactly the pages of its range, in whatever way mappings lie across it: in the range no address is
  mapped any more and the bytes that were mapped are zero; at every other address the rights, the sharing, the place
  in the file and the byte are as they were, and no address has two mappings. When a shared mapping in the range cannot be written
  back to its file, nothing is released.\<close>

theorem unmap_exact:
  assumes "maps_ok (h_rv h)" "0 \<le> ad" "0 \<le> len" "unmap now ad len h = (x, h')"
  shows "maps_ok (h_rv h') \<and>
    (case x of
       Inl _ \<Rightarrow> h_rv h' = h_rv h
     | Inr _ \<Rightarrow> (let lo = ad - ad mod 4096; hi = al (ad + len); r = h_rv h; r' = h_rv h' in
         (\<forall>a. view (r_maps r') a = (if lo \<le> a \<and> a < hi then {#} else view (r_maps r) a)) \<and>
         (\<forall>a. byte (r_m r') a = (if lo \<le> int a \<and> int a < hi \<and> view (r_maps r) (int a) \<noteq> {#} then 0 else byte (r_m r) a)) \<and>
         r' = r\<lparr>r_m := r_m r', r_maps := r_maps r'\<rparr>))"
  using unmap_run [OF assms(1,4,2,3)] by (cases x) (auto simp: unmapped_def zeroed_def Let_def)

lemma unmap_page: "\<exists>h'. unmap 0 274877911040 4096 map_host = (Inr (), h')"
proof -
  have hi: "al 274877915136 - 274877911040 = 4096" by (simp add: al_div)
  have "nat_in SAFE (4096 :: int) = (ret 4096 :: (host, nat) kop)" using nat_safe [of 4096] by (simp add: SAFE_def)
  moreover have "flushShared 0 274877911040 4096 map_host = (Inr (), map_host)"
    by (rule flush_private) (simp add: map_host_def map_fields)
  moreover have "\<exists>m' ms. unmap_down 274877911040 (al 274877915136) (Suc 0) map_rv = (Inr (), map_rv\<lparr>r_m := m', r_maps := ms\<rparr>)"
    using unmap_down_run [OF map_ok, of "Suc 0" 274877911040 "al 274877915136"] al_bounds(1) [of 274877915136] by (simp add: map_fields) blast
  moreover have "length (r_maps (h_rv map_host)) = Suc 0" "h_rv map_host = map_rv" by (simp_all add: map_host_def map_fields)
  ultimately show ?thesis
    by (auto simp: unmap_def Let_def page_floor hi bnd_simple bnd_def [of "flushShared a b c" for a b c] on_rv_run)
qed

theorem unmap_exact_witness:
  "\<exists>h'. unmap 0 274877911040 4096 map_host = (Inr (), h') \<and>
    view (r_maps (h_rv h')) 274877911040 = {#} \<and> view (r_maps (h_rv h')) 274877911039 = {#(3, False, None, None)#}"
proof -
  obtain h' where h': "unmap 0 274877911040 4096 map_host = (Inr (), h')" using unmap_page by blast
  have "maps_ok (h_rv map_host)" "h_rv map_host = map_rv" using map_ok by (simp_all add: map_host_def)
  then show ?thesis using unmap_exact [OF _ _ _ h'] h' al_bounds(1) [of 274877915136]
    by (simp add: Let_def map_fields seen_def attr_at_def)
qed

section \<open>New mappings\<close>

text \<open>C13 A new mapping lies where nothing was mapped, a megabyte or more below the stack, at the address asked for if that is fixed; it is
  one more mapping in front of the same others, with the rights and the sharing asked for. Without a file no byte of the
  memory changes; with a file exactly the bytes the process reads of it at the offset are put there. A call that fails leaves the map
  as it is.\<close>

theorem new_mapping:
  assumes "maps_ok (h_rv h)" "mmap now addr len prot flags fd off h = (x, h')"
  shows "maps_ok (h_rv h') \<and>
    (case x of
       Inl _ \<Rightarrow> r_maps (h_rv h') = r_maps (h_rv h) \<and> (anonymous flags fd \<longrightarrow> h_rv h' = h_rv h)
     | Inr ad \<Rightarrow> (let z = al (ux len); r = h_rv h; r' = h_rv h' in
         0 \<le> ad \<and> 0 < z \<and> ux len \<le> z \<and> ad + z + MB < r_stackAt r \<and> (nat (ux flags) AND 0x10 \<noteq> 0 \<longrightarrow> ad = ux addr) \<and>
         (\<forall>a. ad \<le> a \<and> a < ad + z \<longrightarrow> view (r_maps r) a = {#}) \<and>
         (\<exists>path off'. \<forall>a. view (r_maps r') a = view (r_maps r) a +
            (if ad \<le> a \<and> a < ad + z then {#(nat (ux prot), nat (ux flags) AND 1 \<noteq> 0, path, map_option (\<lambda>f. f + (a - ad)) off')#} else {#})) \<and>
         (if anonymous flags fd then r_m r' = r_m r
          else \<exists>b. map_bytes now ad (nat (ux len)) fd off h = Some b \<and> byte (r_m r') = flat_write (nat ad) b (byte (r_m r)))))"
proof (cases x)
  case (Inl e)
  then obtain ad b where b: "anonymous flags fd \<longrightarrow> h_rv h' = h_rv h" "filled ad b (h_rv h) (h_rv h')" "maps_ok (h_rv h')"
    using mmap_run [OF assms] by auto
  then show ?thesis using filled_same [OF b(2) assms(1)] Inl by simp
next
  case (Inr ad)
  note m = mmap_run [OF assms]
  have pl: "place (h_rv h) addr (al (ux len)) (nat (ux flags)) = Inr ad" "0 < al (ux len)" "maps_ok (h_rv h')" using m Inr by simp_all
  note p = place_spec [OF assms(1) pl(1)]
  obtain q r1 where q: "e_at q = ad" "e_end q = ad + al (ux len)" "e_prot q = nat (ux prot)" "e_shared q \<longleftrightarrow> nat (ux flags) AND 1 \<noteq> 0"
      "h_rv h' = push_map q r1"
    and c: "if anonymous flags fd then e_path q = None \<and> e_off q = None \<and> r1 = h_rv h
         else e_off q = Some (ux off) \<and> e_path q \<noteq> None \<and>
           (\<exists>b. map_bytes now ad (nat (ux len)) fd off h = Some b \<and> filled ad b (h_rv h) r1)"
    using m Inr by (auto simp: mapped_new_def)
  have r1: "r_maps r1 = r_maps (h_rv h)" using c filled_same [OF _ assms(1)] by (auto split: if_splits)
  have s: "seen q a = (if ad \<le> a \<and> a < ad + al (ux len)
      then {#(nat (ux prot), nat (ux flags) AND 1 \<noteq> 0, e_path q, map_option (\<lambda>f. f + (a - ad)) (e_off q))#} else {#})" for a
    unfolding seen_def attr_at_def q(1-4) by (rule refl)
  have v: "\<exists>path off'. \<forall>a. view (r_maps (h_rv h')) a = view (r_maps (h_rv h)) a +
      (if ad \<le> a \<and> a < ad + al (ux len) then {#(nat (ux prot), nat (ux flags) AND 1 \<noteq> 0, path, map_option (\<lambda>f. f + (a - ad)) off')#} else {#})"
    unfolding q(5) push_view r1 s by blast
  have b: "if anonymous flags fd then r_m (h_rv h') = r_m (h_rv h)
      else \<exists>b. map_bytes now ad (nat (ux len)) fd off h = Some b \<and> byte (r_m (h_rv h')) = flat_write (nat ad) b (byte (r_m (h_rv h)))"
    using c unfolding q(5) push_map_def by (auto simp: filled_def)
  have "\<forall>a. ad \<le> a \<and> a < ad + al (ux len) \<longrightarrow> view (r_maps (h_rv h)) a = {#}" using no_hits [OF p(2)] by blast
  then show ?thesis using p pl v b al_bounds(1) [of "ux len"] unfolding Inr Let_def sum.case by (intro conjI) simp_all
qed


lemma place_example:
  "place map_rv 0 8192 0x22 = Inr 274877915136" "place map_rv 196608 4096 0x32 = Inr 196608"
  by (simp_all add: place_def Let_def map_fields hits_def MB_def al_div ux_def take_bit_eq_mod)

lemma mmap_example:
  "mmap 0 0 8192 3 0x22 (- 1) 0 map_host = (Inr 274877915136, map_host\<lparr>h_rv := push_map
     \<lparr>e_at = 274877915136, e_end = 274877923328, e_prot = 3, e_shared = False, e_path = None, e_off = None\<rparr> map_rv\<rparr>)"
  "mmap 0 196608 4096 3 0x32 (- 1) 0 map_host = (Inr 196608, map_host\<lparr>h_rv := push_map
     \<lparr>e_at = 196608, e_end = 200704, e_prot = 3, e_shared = False, e_path = None, e_off = None\<rparr> map_rv\<rparr>)"
proof -
  have u: "ux 8192 = 8192" "ux 4096 = 4096" "ux 3 = 3" "ux 0x22 = 0x22" "ux 0x32 = 0x32" "al 8192 = 8192" "al 4096 = 4096"
    by (simp_all add: ux_def al_div)
  have an: "anonymous f (- 1)" for f by (simp add: anonymous_def)
  have "h_rv map_host = map_rv" by (simp add: map_host_def)
  then show "mmap 0 0 8192 3 0x22 (- 1) 0 map_host = (Inr 274877915136, map_host\<lparr>h_rv := push_map
       \<lparr>e_at = 274877915136, e_end = 274877923328, e_prot = 3, e_shared = False, e_path = None, e_off = None\<rparr> map_rv\<rparr>)"
    "mmap 0 196608 4096 3 0x32 (- 1) 0 map_host = (Inr 196608, map_host\<lparr>h_rv := push_map
       \<lparr>e_at = 196608, e_end = 200704, e_prot = 3, e_shared = False, e_path = None, e_off = None\<rparr> map_rv\<rparr>)"
    by (simp_all add: mmap_eq u an place_example SAFE_def bnd_simple bnd_on_rv modify_def ret_def)
qed

theorem new_mapping_witness:
  "\<exists>h'. mmap 0 0 8192 3 0x22 (- 1) 0 map_host = (Inr 274877915136, h') \<and> maps_ok (h_rv h') \<and> r_m (h_rv h') = r_m map_rv"
proof -
  have "maps_ok (h_rv map_host)" "h_rv map_host = map_rv" using map_ok by (simp_all add: map_host_def)
  from new_mapping [OF this(1) mmap_example(1)] this(2) show ?thesis by (simp add: mmap_example anonymous_def Let_def)
qed

text \<open>The heap is not protected: a mapping at a fixed address, or with a hint, is checked against the end of the program but not
  against the end of the heap, and may lie in it.\<close>

lemma mapping_over_heap:
  "fst (mmap 0 196608 4096 3 0x32 (- 1) 0 map_host) = Inr 196608 \<and> r_floor map_rv \<le> 196608 \<and> 196608 < r_brk map_rv"
  by (simp add: mmap_example map_fields)

section \<open>Movement\<close>

text \<open>C14 \<open>mremap\<close> keeps what a mapping holds. When it returns an address, the bytes from there on are those of the old
  place, up to the shorter of the two lengths; the pages of the new place have the rights of the old ones; the pages of the
  old place that are not in the new one are released and zero; all other bytes and rights, the registers, the heap and the stack
  are as they were. Also when it fails, no address has two mappings.\<close>

theorem moved_keeps_contents:
  assumes "maps_ok (h_rv h)" "remap now old oz nz fl fixed h = (x, h')"
  shows "maps_ok (h_rv h') \<and>
    (case x of
       Inl _ \<Rightarrow> True
     | Inr to \<Rightarrow> (let a0 = ux old; zo = al (ux oz); zn = al (ux nz); n = min (ux oz) (ux nz); r = h_rv h; r' = h_rv h' in
         (\<forall>a. byte (r_m r') a =
            (if to \<le> int a \<and> int a < to + n then byte (r_m r) (nat (a0 + (int a - to)))
             else if a0 \<le> int a \<and> int a < a0 + zo \<and> \<not> (to \<le> int a \<and> int a < to + zn) then 0 else byte (r_m r) a)) \<and>
         (\<forall>a. image_mset fst (view (r_maps r') a) =
            (if to \<le> a \<and> a < to + zn then image_mset fst (view (r_maps r) a0)
             else if a0 \<le> a \<and> a < a0 + zo then {#} else image_mset fst (view (r_maps r) a))) \<and>
         r' = r\<lparr>r_m := r_m r', r_maps := r_maps r', r_mapAt := r_mapAt r'\<rparr>))"
proof -
  have n: "int (min (nat (ux oz)) (nat (ux nz))) = min (ux oz) (ux nz)" using ux_pos [of oz] ux_pos [of nz] by simp
  note r = remap_run [OF assms]
  show ?thesis
  proof (cases x)
    case (Inr to)
    then have m: "remapped (ux old) (al (ux oz)) to (al (ux nz)) (min (nat (ux oz)) (nat (ux nz))) (h_rv h) (h_rv h')" using r by simp
    then obtain m' ms k where "h_rv h' = (h_rv h)\<lparr>r_m := m', r_maps := ms, r_mapAt := k\<rparr>" by (auto simp: remapped_def reframed_def)
    then have "h_rv h' = (h_rv h)\<lparr>r_m := r_m (h_rv h'), r_maps := r_maps (h_rv h'), r_mapAt := r_mapAt (h_rv h')\<rparr>" by simp
    then show ?thesis using r m unfolding Inr Let_def sum.case remapped_def n by blast
  qed (use r in simp)
qed

theorem moved_keeps_contents_witness:
  "\<exists>h'. remap 0 274877906944 8192 4096 1 0 map_host = (Inr 274877906944, h') \<and> view (r_maps (h_rv h')) 274877911040 = {#}"
proof -
  have u: "ux 8192 = 8192" "ux 4096 = 4096" "ux 1 = 1" "al 8192 = 8192" "al 4096 = 4096" "ux 274877906944 = 274877906944"
    by (simp_all add: ux_def al_div)
  have r: "h_rv map_host = map_rv" "maps_ok (h_rv map_host)" using map_ok by (simp_all add: map_host_def)
  have "nat_in SAFE (4096 :: int) = (ret 4096 :: (host, nat) kop)" using nat_safe [of 4096] by (simp add: SAFE_def)
  moreover have "flushShared 0 274877911040 4096 map_host = (Inr (), map_host)"
    by (rule flush_private) (simp add: map_host_def map_fields)
  moreover have "\<exists>m. on_mem (mem_drop 274877911040 4096) map_rv = (Inr (), map_rv\<lparr>r_m := m\<rparr>)"
    using drop_range [of map_rv 274877911040 274877915136] map_ok by (auto simp: maps_ok_def map_fields)
  moreover have "map_index (r_maps map_rv) 274877906944 274877915136 = Some 0"
    by (simp add: map_index_def map_fields upt_rec)
  moreover have "(274877906944 :: int) AND (PAGE - 1) = 0" by (simp add: page_mod)
  ultimately have "\<exists>h'. remap 0 274877906944 8192 4096 1 0 map_host = (Inr 274877906944, h')"
    by (auto simp: remap_eq Let_def u SAFE_def r bnd_simple bnd_def [of "flushShared a b c" for a b c] bnd_on_rv modify_def ret_def)
  then obtain h' where h': "remap 0 274877906944 8192 4096 1 0 map_host = (Inr 274877906944, h')" by blast
  from moved_keeps_contents [OF r(2) h'] have "image_mset fst (view (r_maps (h_rv h')) 274877911040) = {#}"
    by (simp add: Let_def u)
  then show ?thesis using h' by auto
qed

end
