(* ===== verification/HostRun.thy ===== *)
theory HostRun
  imports HostMem MapClaims
begin

text \<open>
  A guest program as a whole: its instructions and its calls, with other processes at work in between. What
  holds in every state it reaches.
\<close>

section \<open>The shape of a guest\<close>

definition shape :: "host \<Rightarrow> bool" where "shape h \<longleftrightarrow> rv_ok (h_rv h) \<and> maps_ok (h_rv h)"

lemma maps_ok_safe: "safe r0 r \<Longrightarrow> maps_ok r0 \<Longrightarrow> maps_ok r"
  by (simp add: maps_ok_def safe_def same_map_def rv_ok_def ent_ok_def)

lemma shape_safe: "safe (h_rv h) (h_rv h') \<Longrightarrow> shape h \<Longrightarrow> shape h'"
  using maps_ok_safe by (auto simp: shape_def safe_def)

text \<open>The calls on the map leave the registers and the program alone.\<close>

definition same_regs :: "rv \<Rightarrow> rv \<Rightarrow> bool" where
  "same_regs r0 r \<longleftrightarrow> r_x r = r_x r0 \<and> r_f r = r_f r0 \<and> r_seg r = r_seg r0 \<and> r_eat r = r_eat r0 \<and> r_eend r = r_eend r0"

definition hregs :: "rv \<Rightarrow> host \<Rightarrow> bool" where "hregs r0 h \<longleftrightarrow> same_regs r0 (h_rv h)"

named_theorems mapping \<comment> \<open>operations that leave the registers alone\<close>

lemma regs_mem [mapping]: "keeps (same_regs r0) (on_mem f)"
  by (simp add: keeps_def on_mem_def same_regs_def split: prod.split)

lemma regs_modify [mapping]: "keeps (same_regs r0) (modify (\<lambda>r. r\<lparr>r_maps := f r\<rparr>))" "keeps (same_regs r0) (modify (\<lambda>r. r\<lparr>r_brk := b r\<rparr>))"
  "keeps (same_regs r0) (modify (push_map q))" "keeps (same_regs r0) (modify (set_end i en))"
  "keeps (same_regs r0) (modify (\<lambda>r. (set_end i en r)\<lparr>r_mapAt := g r\<rparr>))" "keeps (same_regs r0) (set_map i q)"
  unfolding set_map_def by (rule keeps_modify, simp add: same_regs_def push_map_def set_end_def)+

lemma regs_own [mapping]: "keeps (hregs r0) (on_kern f)" "keeps (same_regs r0) m \<Longrightarrow> keeps (hregs r0) (on_rv m)"
  by (simp_all add: keeps_def on_kern_run on_rv_run hregs_def)

lemmas [mapping] = keeps_bnd keeps_simple keeps_split keeps_catch keeps_mapk nat_in_keeps opt_keeps arg_keeps let_keeps

lemma regs_unmap_down [mapping]: "keeps (same_regs r0) (unmap_down a e n)"
proof -
  have "keeps (same_regs r0) (unmap_one a e i)" for i
    unfolding unmap_one_def moved_off_def Let_def by (intro mapping)
  then show ?thesis by (induction n) (auto intro!: mapping)
qed

lemma regs_flush [mapping]: "keeps (hregs r0) (flushShared now a n)"
  unfolding flushShared_def flush_one_def Let_def
  by (intro mapping; auto split: option.split intro!: mapping)

lemma regs_unmap [mapping]: "keeps (hregs r0) (unmap now a n)"
  unfolding unmap_def Let_def by (intro mapping)

lemma regs_mmap [mapping]: "keeps (hregs r0) (mmap now a b c d e f)"
  unfolding mmap_def map_file_def Let_def by (intro mapping)

lemma regs_copy [mapping]: "keeps (same_regs r0) (copy_mem a b n)"
  unfolding copy_mem_def Let_def by (intro mapping)

lemma regs_calls: "keeps (hregs r0) call_brk" "keeps (hregs r0) (call_munmap w)" "keeps (hregs r0) (call_mremap w)" "keeps (hregs r0) (call_mmap w)"
  unfolding call_brk_def call_munmap_def call_mremap_def call_mmap_def doBrk_def remap_def move_map_def ok0_def Let_def
  by (intro mapping)+

lemma shape_regs: "hregs (h_rv h) h' \<Longrightarrow> rv_ok (h_rv h) \<Longrightarrow> maps_ok (h_rv h') \<Longrightarrow> shape h'"
  by (auto simp: shape_def hregs_def same_regs_def rv_ok_def maps_ok_def cache_ok_def)

section \<open>A call\<close>

lemma bnd_arg: "bnd (arg i) f h = f (xr i (h_rv h)) h" "bnd (addr_reg i) g h = g (ux (xr i (h_rv h))) h"
  by (simp_all add: arg_def addr_reg_def bnd_simple bnd_assoc)

lemma bnd_nat_reg: "bnd (nat_reg i hi) f h =
    (if xr i (h_rv h) < 0 \<or> hi < ux (xr i (h_rv h)) then (Inl ERANGE, h) else f (nat (ux (xr i (h_rv h)))) h)"
  by (simp add: nat_reg_def bnd_assoc bnd_arg bnd_nat_in)

lemma map_call: "nat n = 214 \<Longrightarrow> call w n = call_brk" "nat n = 215 \<Longrightarrow> call w n = call_munmap w"
  "nat n = 216 \<Longrightarrow> call w n = call_mremap w" "nat n = 222 \<Longrightarrow> call w n = call_mmap w"
  by (simp_all add: call_def calls_def)

text \<open>The arguments of a mapping that the program asks for.\<close>

definition mmap_of :: "world \<Rightarrow> (host, int) kop" where
  "mmap_of w h = (let x = \<lambda>i. xr i (h_rv h) in mmap (w_now w) (x 10) (x 11) (x 12) (x 13) (x 14) (x 15) h)"

definition remap_of :: "world \<Rightarrow> (host, int) kop" where
  "remap_of w h = (let x = \<lambda>i. xr i (h_rv h) in remap (w_now w) (x 10) (x 11) (x 12) (x 13) (x 14) h)"

lemma map_runs: "call_brk h = on_rv (doBrk (ux (xr 10 (h_rv h)))) h" "call_mmap w h = mmap_of w h" "call_mremap w h = remap_of w h"
  "call_munmap w h = (if xr 11 (h_rv h) < 0 \<or> SAFE < ux (xr 11 (h_rv h)) then (Inl ERANGE, h)
     else ok0 (unmap (w_now w) (ux (xr 10 (h_rv h))) (int (nat (ux (xr 11 (h_rv h)))))) h)"
  by (simp_all add: call_brk_def call_mmap_def call_mremap_def call_munmap_def mmap_of_def remap_of_def Let_def bnd_arg bnd_nat_reg)

lemma ok0_snd: "snd (ok0 m h) = snd (m h)"
  by (simp add: ok0_def bnd_def ret_def split: prod.split sum.split)

text \<open>A mapping of a file that fails with \<open>ENOMEM\<close> half-way leaves bytes of the file where nothing is mapped.\<close>

definition map_fails :: "world \<Rightarrow> host \<Rightarrow> bool" where
  "map_fails w h \<longleftrightarrow> nat (ux (xr 17 (h_rv h))) = 222 \<and> \<not> anonymous (xr 13 (h_rv h)) (xr 14 (h_rv h)) \<and>
     fst (mmap_of w h) = Inl ENOMEM \<and> h_rv (snd (mmap_of w h)) \<noteq> h_rv h"

lemma unmap_tidy:
  assumes "maps_ok (h_rv h)" "0 \<le> a" "0 \<le> n"
  shows "maps_ok (h_rv (snd (unmap now a n h))) \<and> (tidy (h_rv h) \<longrightarrow> tidy (h_rv (snd (unmap now a n h))))"
proof -
  obtain x h' where u: "unmap now a n h = (x, h')" by (cases "unmap now a n h")
  show ?thesis using unmap_run [OF assms(1) u assms(2,3)] u tidy_unmapped by (cases x) auto
qed

lemma call_maps:
  assumes ok: "maps_ok (h_rv h)" and n: "nat n \<in> map_calls"
  shows "maps_ok (h_rv (snd (call w n h))) \<and>
    (tidy (h_rv h) \<and> \<not> (nat n = 222 \<and> \<not> anonymous (xr 13 (h_rv h)) (xr 14 (h_rv h)) \<and> fst (mmap_of w h) = Inl ENOMEM \<and>
      h_rv (snd (mmap_of w h)) \<noteq> h_rv h) \<longrightarrow>
      tidy (h_rv (snd (call w n h))))"
proof -
  consider "nat n = 214" | "nat n = 215" | "nat n = 216" | "nat n = 222" using n by (auto simp: map_calls_def)
  then show ?thesis
  proof cases
    case 1
    then show ?thesis using doBrk_ok [OF ok] doBrk_tidy [OF ok] by (simp add: map_call map_runs on_rv_run)
  next
    case 2
    then show ?thesis
      using unmap_tidy [OF ok, of "ux (xr 10 (h_rv h))" "ux (xr 11 (h_rv h))"] ok by (simp add: map_call map_runs ok0_snd ux_pos)
  next
    case 3
    obtain x h' where r: "remap_of w h = (x, h')" by (cases "remap_of w h")
    then have "maps_ok (h_rv h') \<and> (tidy (h_rv h) \<longrightarrow> tidy (h_rv h'))"
      using remap_run [OF ok] unfolding remap_of_def Let_def by blast
    then show ?thesis using 3 r by (simp add: map_call map_runs)
  next
    case 4
    obtain x h' where r: "mmap_of w h = (x, h')" by (cases "mmap_of w h")
    let ?x = "\<lambda>i. xr i (h_rv h)"
    have m: "mmap (w_now w) (?x 10) (?x 11) (?x 12) (?x 13) (?x 14) (?x 15) h = (x, h')" using r by (simp add: mmap_of_def Let_def)
    have "maps_ok (h_rv h')" using mmap_run [OF ok m] by blast
    moreover have "tidy (h_rv h')" if "tidy (h_rv h)" "anonymous (?x 13) (?x 14) \<or> x \<noteq> Inl ENOMEM \<or> h_rv h' = h_rv h"
      by (rule mmap_tidy [OF ok that(1) m that(2)])
    ultimately show ?thesis using 4 r by (auto simp: map_call map_runs)
  qed
qed

lemma call_shape:
  assumes "shape h"
  shows "shape (snd (call w n h))"
proof (cases "nat n \<in> map_calls")
  case True
  then have "keeps (hregs (h_rv h)) (call w n)" using regs_calls by (auto simp: map_calls_def map_call)
  moreover have "hregs (h_rv h) h" by (simp add: hregs_def same_regs_def)
  ultimately have "hregs (h_rv h) (snd (call w n h))" by (simp add: keeps_def)
  then show ?thesis by (rule shape_regs) (use call_maps [OF _ True] assms in \<open>auto simp: shape_def\<close>)
next
  case False
  have "hsafe (h_rv h) h" using assms by (simp add: hsafe_def shape_def safe_refl)
  then have "safe (h_rv h) (h_rv (snd (call w n h)))" using keepsD [OF call_safe [OF False]] by (simp add: hsafe_def)
  then show ?thesis using shape_safe assms by blast
qed

lemma call_tidy:
  assumes "shape h" "tidy (h_rv h)" "nat n = nat (ux (xr 17 (h_rv h)))" "\<not> map_fails w h"
  shows "tidy (h_rv (snd (call w n h)))"
proof (cases "nat n \<in> map_calls")
  case True
  then show ?thesis using call_maps [OF _ True] assms unfolding shape_def map_fails_def by metis
next
  case False
  have "hsafe (h_rv h) h" using assms by (simp add: hsafe_def shape_def safe_refl)
  then have "safe (h_rv h) (h_rv (snd (call w n h)))" using keepsD [OF call_safe [OF False]] by (simp add: hsafe_def)
  then show ?thesis using tidy_safe assms(2) by blast
qed

section \<open>A run\<close>

lemma sys_run: "sys w h = (case call w (ux (xr 17 (h_rv h))) h of
    (Inr v, h1) \<Rightarrow> on_rv (setx 10 v) h1
  | (Inl e, h1) \<Rightarrow> if h_left h1 then (Inl EIO, h1) else on_rv (setx 10 (- int (eno e))) h1)"
proof -
  obtain x h1 where c: "call w (ux (xr 17 (h_rv h))) h = (x, h1)" by (cases "call w (ux (xr 17 (h_rv h))) h")
  have "sys w h = bnd (catch (call w (ux (xr 17 (h_rv h)))) (\<lambda>e. bnd (asks h_left) (\<lambda>l. if l then bad EIO else ret (- int (eno e)))))
      (\<lambda>v. on_rv (setx 10 v)) h" by (simp add: sys_def bnd_arg)
  then show ?thesis by (cases x) (simp_all add: bnd_def catch_def asks_def bad_def ret_def c)
qed

text \<open>A call has a result unless it is left open.\<close>

lemma sys_result: "\<not> h_left (snd (call w (ux (xr 17 (h_rv h))) h)) \<Longrightarrow> sys w h = (Inr (), snd (sys w h))"
  by (auto simp: sys_run on_rv_run setx_def modify_def ret_def split: prod.split sum.split)

text \<open>What every call keeps, \<open>sys\<close> keeps when registers do not matter.\<close>

lemma sys_after:
  assumes "P (snd (call w (ux (xr 17 (h_rv h))) h))" "\<And>h v. P h \<Longrightarrow> P (h\<lparr>h_rv := snd (setx 10 v (h_rv h))\<rparr>)"
  shows "P (snd (sys w h))"
  using assms by (auto simp: sys_run on_rv_run split: prod.split sum.split)

definition opens_tty :: "world \<Rightarrow> host \<Rightarrow> bool" where
  "opens_tty w h \<longleftrightarrow> nat (ux (xr 17 (h_rv h))) = 56 \<and>
     fst (bnd (arg 10) (\<lambda>fd. bnd (str_reg w 11) (path_arg w fd)) h) = Inr ''/dev/tty''"

text \<open>A step is an instruction, a call that has a result, or something that other processes do to the kernel without ending this one or
  changing who it is. \<open>B\<close> excludes calls. A run ends at a call that the model leaves open; the end of the program
  itself (\<open>h_done\<close>) is not asked for, so what holds along a run holds until then.\<close>

inductive guest :: "(world \<Rightarrow> host \<Rightarrow> bool) \<Rightarrow> js \<Rightarrow> host \<Rightarrow> host \<Rightarrow> bool" for B j where
  guest_instr: "on_rv (rv_step j now) h = (Inr False, h') \<Longrightarrow> guest B j h h'"
| guest_call: "on_rv (rv_step j (w_now w)) h = (Inr True, h1) \<Longrightarrow> \<not> B w h1 \<Longrightarrow> sys w h1 = (Inr (), h') \<Longrightarrow> guest B j h h'"
| guest_other: "kern_step (h_k h) k \<Longrightarrow> live k (h_pid h) \<Longrightarrow>
    p_cred (proc_at k (h_pid h)) = p_cred (proc_at (h_k h) (h_pid h)) \<Longrightarrow>
    p_fsuid (proc_at k (h_pid h)) = p_fsuid (proc_at (h_k h) (h_pid h)) \<Longrightarrow>
    p_fsgid (proc_at k (h_pid h)) = p_fsgid (proc_at (h_k h) (h_pid h)) \<Longrightarrow> guest B j h (h\<lparr>h_k := k\<rparr>)"

lemma guest_keeps:
  assumes "(guest B j)\<^sup>*\<^sup>* h h'" "I h" "\<And>h h'. guest B j h h' \<Longrightarrow> I h \<Longrightarrow> I h'"
  shows "I h'"
  using assms(1,2) by (induction rule: rtranclp_induct) (auto intro: assms(3))

lemma str_pure: "keeps (\<lambda>s. s = h) (str_reg w i)"
proof -
  have "keeps (\<lambda>r. r = r0) (str_from n ad)" for r0 n ad
  proof (induction n arbitrary: ad)
    case (Suc n)
    have "snd (mem_chk ad 1 False r) = r" for r using mem_chk_run [of ad 1 False r] by (cases "mem_chk ad 1 False r") simp
    then have "keeps (\<lambda>r. r = r0) (mem_chk ad 1 False)" by (simp add: keeps_def)
    moreover have "snd (on_mem (mem_u8 ad) r) = r" for r
      by (simp add: on_mem_def split: prod.split) (metis loads_pure(2) rv.surjective rv.update_convs(3) snd_conv)
    then have "keeps (\<lambda>r. r = r0) (on_mem (mem_u8 ad))" by (simp add: keeps_def)
    ultimately show ?case using Suc by (auto intro!: keeps_bnd)
  qed simp
  then have "keeps (\<lambda>s. s = h) (str w n)" for n
    unfolding str_def by (intro keeps_bnd keeps_simple) (simp add: keeps_def on_rv_run)
  then show ?thesis unfolding str_reg_def by (intro keeps_bnd arg_keeps)
qed

lemma bnd_pure: "keeps (\<lambda>s. s = h) m \<Longrightarrow> bnd m f h = (case fst (m h) of Inl e \<Rightarrow> (Inl e, h) | Inr v \<Rightarrow> f v h)"
  by (cases "m h") (auto simp: keeps_def bnd_def split: sum.split)

context identity begin

lemma open_fit:
  assumes h: "hfit Q pid h" and t: "fst (bnd (arg 10) (\<lambda>fd. bnd (str_reg w 11) (path_arg w fd)) h) \<noteq> Inr ''/dev/tty''"
  shows "hfit Q pid (snd (call_openat w h))"
proof -
  note pure = bnd_pure [OF str_pure] bnd_pure [OF arg_keeps(2)]
  have "fst (path_arg w (xr 10 (h_rv h)) p h) \<noteq> Inr ''/dev/tty''" if "fst (str_reg w 11 h) = Inr p" for p
    using t that by (simp add: bnd_arg pure)
  then show ?thesis using h openat_keeps [OF h] by (simp add: call_openat_def bnd_arg pure split: sum.split)
qed

lemma sys_fit:
  assumes "hfit Q pid h" "\<not> opens_tty w h"
  shows "hfit Q pid (snd (sys w h))"
proof (rule sys_after)
  let ?n = "ux (xr 17 (h_rv h))"
  show "hfit Q pid (snd (call w ?n h))"
  proof (cases "?n = 56")
    case True
    then have "call w ?n = call_openat w" by (simp add: call_def calls_def)
    then show ?thesis using open_fit assms True by (simp add: opens_tty_def)
  qed (use keepsD [OF call_fit assms(1)] in blast)
qed (simp add: hfit_def)

lemma guest_fit: "guest opens_tty j h h' \<Longrightarrow> hfit Q pid h \<Longrightarrow> hfit Q pid h'"
proof (induction rule: guest.induct)
  case (guest_instr now h h')
  then show ?case using keepsD [OF hfit_rv, of Q pid h "rv_step j now"] by simp
next
  case (guest_call w h h1 h')
  then have "hfit Q pid h1" using keepsD [OF hfit_rv, of Q pid h "rv_step j (w_now w)"] by simp
  then show ?case using sys_fit [of pid h1 w] guest_call(2,3) by simp
next
  case (guest_other h k)
  then have "kern_ok k" using kern_step_ok by (simp add: hfit_def fit_def)
  then show ?case using guest_other frame by (simp add: hfit_def fit_def stays_def)
qed

end

interpretation anyone: identity "\<lambda>_. True"
  by unfold_locales simp_all

lemma uids_cong: "p_cred p' = p_cred p \<Longrightarrow> uids p' = uids p" "p_cred p' = p_cred p \<Longrightarrow> gids p' = gids p"
  by (simp_all add: uids_def gids_def id_defs)

interpretation bounded: identity "\<lambda>p. no_gain p0 p \<and> 0 \<notin> uids p" for p0
proof unfold_locales
  fix p p' :: proc assume "p_cred p' = p_cred p" "p_fsuid p' = p_fsuid p" "p_fsgid p' = p_fsgid p" "no_gain p0 p \<and> 0 \<notin> uids p"
  then show "no_gain p0 p' \<and> 0 \<notin> uids p'" using uids_cong [of p' p] by (simp add: no_gain_def)
next
  fix p p' assume "cred_step p p'" "no_gain p0 p \<and> 0 \<notin> uids p"
  then show "no_gain p0 p' \<and> 0 \<notin> uids p'"
    using steps_no_gain [of p p'] no_gain_trans [of p0 p p'] by blast
qed

end
