(* ===== verification/HostClaims.thy ===== *)
theory HostClaims
  imports HostRun
begin

text \<open>
  What a guest program can and cannot do by its instructions and its calls, whatever it computes and whatever other processes
  do meanwhile. The claims follow a run up to the first call that the model leaves open (\<open>leave\<close>): \<open>clone\<close> and \<open>execve\<close>; a read of an
  empty pipe that is not shut, and \<open>wait4\<close> for a child that has not ended; reading, writing and \<open>ioctl\<close> on a stream that is no pipe, such as a
  terminal; and the rare ones that \<open>RvSys\<close> lists.
\<close>

section \<open>An example\<close>

text \<open>The program is one call of the system, with any registers; it runs as process 2 of a fresh system, with user 1000.\<close>

definition call_page :: "u8 list" where "call_page = 0x73 # replicate (PG - 1) 0"

definition call_rv :: "u64 list \<Rightarrow> rv" where
  "call_rv xs = blank_rv\<lparr>r_m := \<lparr>m_page = [(1, call_page)], m_used = PG, m_top = 1048576, m_cap = 2 * PG\<rparr>, r_x := xs\<rparr>"

definition call_host :: "u64 list \<Rightarrow> host" where
  "call_host xs = \<lparr>h_rv = call_rv xs, h_k = sys1, h_pid = 2, h_done = False, h_code = 0, h_socks = [], h_ins = [], h_left = False, h_rlim = []\<rparr>"

definition call_regs :: "int \<Rightarrow> int \<Rightarrow> u64 list" where
  "call_regs n a = ((replicate 32 0)[17 := of_int n])[10 := of_int a]"

lemma call_regs: "length (call_regs n a) = 32" "call_regs n a ! 0 = 0" "call_regs n a ! 17 = of_int n" "call_regs n a ! 10 = of_int a"
  by (simp_all add: call_regs_def)

lemma call_mem: "mem_ok (r_m (call_rv xs))" "byte (r_m (call_rv xs)) a = (if a = 65536 then 0x73 else 0)" "m_top (r_m (call_rv xs)) = 1048576"
proof -
  have "length call_page = PG" by (simp add: call_page_def PG_def)
  then show "mem_ok (r_m (call_rv xs))" by (auto simp: call_rv_def mem_ok_def ents_ok_def ent_get_def ent_sum_def)
  have "a div PG = 1 \<and> a mod PG = 0 \<longleftrightarrow> a = 65536"
    using div_mult_mod_eq [of a 65536] by (auto simp: PG_def)
  moreover have "call_page ! i = (if i = 0 then 0x73 else 0)" if "i < PG" for i
    using that by (simp add: call_page_def nth_Cons')
  moreover have "a mod PG < PG" by (simp add: PG_def)
  ultimately show "byte (r_m (call_rv xs)) a = (if a = 65536 then 0x73 else 0)"
    by (auto simp: byte_def page_at_def call_rv_def ent_get_def)
  show "m_top (r_m (call_rv xs)) = 1048576" by (simp add: call_rv_def)
qed

lemma call_rv_fields: "r_x (call_rv xs) = xs" "r_pc (call_rv xs) = 65536" "r_maps (call_rv xs) = []" "r_floor (call_rv xs) = 196608"
  "r_brk (call_rv xs) = 200704" "r_stackAt (call_rv xs) = 786432" "r_seg (call_rv xs) = r_seg blank_rv" "r_mapAt (call_rv xs) = 274877906944"
  by (simp_all add: call_rv_def blank_rv_def)

lemma call_shape_ok: "length xs = 32 \<Longrightarrow> xs ! 0 = 0 \<Longrightarrow> shape (call_host xs)"
  using call_mem(1) [of xs]
  by (simp add: shape_def call_host_def rv_ok_def maps_ok_def call_rv_fields call_mem(3) SAFE_def cache_ok_def)
    (simp add: call_rv_def blank_rv_def)

lemma call_tidy_ok: "tidy (h_rv (call_host xs))"
  by (auto simp: tidy_def call_host_def call_mem(2) covered_def call_rv_fields blank_rv_def)

lemma ecall_step: "rv_step j now (call_rv xs) = (Inr True, (call_rv xs)\<lparr>r_eat := 65536, r_eend := 131072, r_pc := 65540\<rparr>)"
proof -
  have at: "at_bytes (byte (r_m (call_rv xs))) 65536 2 = [0x73, 0]" "at_bytes (byte (r_m (call_rv xs))) 65536 4 = [0x73, 0, 0, 0]"
    by (simp_all add: at_bytes_def upt_rec call_mem(2))
  have h: "mem_u16 65536 (r_m (call_rv xs)) = (Inr 0x73, r_m (call_rv xs))" "mem_u32 65536 (r_m (call_rv xs)) = (Inr 0x73, r_m (call_rv xs))"
    using load_spec(2,3) [OF call_mem(1) [of xs], of 65536] at by (simp_all add: in_range_def call_mem(3))
  have "field 0 7 0x73 = 0x73" by code_simp
  then have c: "exec32 j now 0x73 ad r = (Inr True, r)" for ad r
    by (simp add: exec32_def Let_def bnd_simple ret_def asks_def bnd_def)
  have "exec_ok 65536 2 (call_rv xs) = (Inr (), (call_rv xs)\<lparr>r_eat := 65536, r_eend := 131072\<rparr>)"
    by (simp add: exec_ok_def call_rv_def blank_rv_def)
  moreover have "exec_ok 65536 4 ((call_rv xs)\<lparr>r_eat := 65536, r_eend := 131072\<rparr>) = (Inr (), (call_rv xs)\<lparr>r_eat := 65536, r_eend := 131072\<rparr>)"
    by (simp add: exec_ok_def)
  moreover have "ux 65540 = 65540" by (simp add: ux_def)
  ultimately show ?thesis
    using h c call_rv_fields(2) [of xs] by (simp add: rv_step_def bnd_def asks_def on_mem_def setpc_def modify_def ret_def)
qed

lemma call_step:
  assumes "\<not> B w (call_host xs\<lparr>h_rv := (call_rv xs)\<lparr>r_eat := 65536, r_eend := 131072, r_pc := 65540\<rparr>\<rparr>)"
    "sys w (call_host xs\<lparr>h_rv := (call_rv xs)\<lparr>r_eat := 65536, r_eend := 131072, r_pc := 65540\<rparr>\<rparr>) = (Inr (), h')"
  shows "(guest B j)\<^sup>*\<^sup>* (call_host xs) h'"
proof (rule r_into_rtranclp, rule guest_call)
  have "h_rv (call_host xs) = call_rv xs" by (simp add: call_host_def)
  then show "on_rv (rv_step j (w_now w)) (call_host xs) = (Inr True, call_host xs\<lparr>h_rv := (call_rv xs)\<lparr>r_eat := 65536, r_eend := 131072, r_pc := 65540\<rparr>\<rparr>)"
    by (simp add: on_rv_run ecall_step)
qed (rule assms)+

text \<open>The host at the call.\<close>

definition at_call :: "int \<Rightarrow> int \<Rightarrow> host" where
  "at_call n a = call_host (call_regs n a)\<lparr>h_rv := (call_rv (call_regs n a))\<lparr>r_eat := 65536, r_eend := 131072, r_pc := 65540\<rparr>\<rparr>"

lemma at_call_regs: "xr 17 (h_rv (at_call n a)) = sint (of_int n :: u64)" "h_k (at_call n a) = sys1" "h_pid (at_call n a) = 2"
  by (simp_all add: at_call_def xr_def call_rv_def call_regs call_host_def)

text \<open>Calls that the model does not leave open.\<close>

lemma stay_left: "keeps (\<lambda>h. \<not> h_left h) (on_rv f)" "keeps (\<lambda>h. \<not> h_left h) (on_kern g)"
  by (simp_all add: keeps_def on_rv_run on_kern_run)

lemma calls_answered: "keeps (\<lambda>h. \<not> h_left h) (call_fstat w)" "keeps (\<lambda>h. \<not> h_left h) (call_mmap w)" "keeps (\<lambda>h. \<not> h_left h) call_pipe2"
  "keeps (\<lambda>h. \<not> h_left h) call_setuid"
  unfolding call_fstat_def putStat_def fd_of_def sys_stat_def my_fs_def guest_chk_def put_fields_def call_mmap_def mmap_def map_file_def
    call_pipe2_def set_clo_def call_setuid_def my_proc_def ok0_def Let_def
  by (intro keeps_bnd keeps_simple keeps_split keeps_mapk arg_keeps nat_in_keeps opt_keeps stay_left)+

lemma call_result:
  assumes "n \<in> {59, 80, 146, 222}"
  shows "sys w (at_call n a) = (Inr (), snd (sys w (at_call n a)))"
proof -
  have x: "ux (xr 17 (h_rv (at_call n a))) = n" using assms by (elim insertE emptyE) (simp_all add: at_call_regs ux_def)
  have "call w n \<in> {call_pipe2, call_fstat w, call_setuid, call_mmap w}" using assms by (elim insertE emptyE) (simp_all add: call_def calls_def)
  then have "keeps (\<lambda>h. \<not> h_left h) (call w n)" using calls_answered by auto
  moreover have "\<not> h_left (at_call n a)" by (simp add: at_call_def call_host_def)
  ultimately show ?thesis unfolding keeps_def by (intro sys_result) (simp only: x not_False_eq_True)
qed

lemma call_runs: "\<not> B w (at_call n a) \<Longrightarrow> n \<in> {59, 80, 146, 222} \<Longrightarrow>
    (guest B j)\<^sup>*\<^sup>* (call_host (call_regs n a)) (snd (sys w (at_call n a)))"
  using call_result [of n w a] unfolding at_call_def by (intro call_step)

definition world0 :: world where
  "world0 = \<lparr>w_now = 0, w_dec = (\<lambda>_. []), w_load = (\<lambda>_. []), w_up = 0, w_ms = 0, w_rand = (\<lambda>_. 0), w_le = (\<lambda>_ _. True),
    w_mem = 0, w_stack = 0, w_name = [], w_host = [], w_rel = [], w_intr = False, w_age = (\<lambda>_. 0)\<rparr>"

section \<open>Shape\<close>

lemma setx_safe: "rv_ok (h_rv h) \<Longrightarrow> safe (h_rv h) (snd (setx d v (h_rv h)))"
  using keepsD [OF simple_keeps(1) safe_refl] .

lemma instr_safe: "shape h \<Longrightarrow> on_rv (rv_step j now) h = (x, h') \<Longrightarrow> safe (h_rv h) (h_rv h')"
  using keepsD [OF step_keeps safe_refl, of "h_rv h" j now] by (auto simp: on_rv_run shape_def)

lemma sys_shape: "shape h \<Longrightarrow> shape (snd (sys w h))"
proof (rule sys_after)
  show "shape h \<Longrightarrow> shape (snd (call w (ux (xr 17 (h_rv h))) h))" by (rule call_shape)
  show "shape (h\<lparr>h_rv := snd (setx 10 v (h_rv h))\<rparr>)" if "shape h" for h v
    using shape_safe [of h "h\<lparr>h_rv := snd (setx 10 v (h_rv h))\<rparr>"] setx_safe [of h 10 v] that by (simp add: shape_def)
qed

lemma guest_shape: "guest B j h h' \<Longrightarrow> shape h \<Longrightarrow> shape h'"
proof (induction rule: guest.induct)
  case (guest_instr now h h')
  then show ?case using instr_safe shape_safe by blast
next
  case (guest_call w h h1 h')
  then show ?case using instr_safe shape_safe sys_shape by (metis snd_conv)
qed (simp add: shape_def)

text \<open>C10 A guest program is well formed in every state it reaches before a call that the model leaves open (\<open>clone\<close>, \<open>execve\<close>, waiting at an
  empty pipe or for a living child, streams that are no pipes), whatever instructions it executes, whatever else it calls and whatever other processes do: 32
  registers of each kind, register 0 zero, the pages counted exactly within the budget, the program below the heap, the heap
  below the stack, the stack within the memory, and every mapping a range of its own below the stack, with rights of three bits.\<close>

theorem guest_well_formed:
  assumes "(guest B j)\<^sup>*\<^sup>* h h'" "rv_ok (h_rv h)" "maps_ok (h_rv h)"
  shows "rv_ok (h_rv h') \<and> xr 0 (h_rv h') = 0 \<and> maps_ok (h_rv h')"
proof -
  have "shape h'" using guest_keeps [where I = shape, OF assms(1)] guest_shape assms(2,3) by (simp add: shape_def)
  then show ?thesis by (simp add: shape_def rv_ok_def xr_def)
qed

theorem guest_well_formed_witness: "maps_ok (h_rv (snd (sys world0 (at_call 222 0))))"
proof -
  have s: "shape (call_host (call_regs 222 0))" by (intro call_shape_ok call_regs)
  then show ?thesis
    using guest_well_formed [where B = "\<lambda>_ _. False", OF call_runs [of _ world0 222 0]] by (simp add: shape_def)
qed

section \<open>Memory\<close>

lemma sys_tidy:
  assumes "shape h" "tidy (h_rv h)" "\<not> map_fails w h"
  shows "tidy (h_rv (snd (sys w h)))"
proof -
  have "shape (snd (sys w h)) \<and> tidy (h_rv (snd (sys w h)))"
  proof (rule sys_after [where P = "\<lambda>h. shape h \<and> tidy (h_rv h)"])
    show "shape (snd (call w (ux (xr 17 (h_rv h))) h)) \<and> tidy (h_rv (snd (call w (ux (xr 17 (h_rv h))) h)))"
      using call_shape call_tidy assms by blast
    show "shape (h\<lparr>h_rv := snd (setx 10 v (h_rv h))\<rparr>) \<and> tidy (h_rv (h\<lparr>h_rv := snd (setx 10 v (h_rv h))\<rparr>))"
      if "shape h \<and> tidy (h_rv h)" for h v
      using shape_safe [of h "h\<lparr>h_rv := snd (setx 10 v (h_rv h))\<rparr>"] setx_safe [of h 10 v] tidy_safe that by (simp add: shape_def)
  qed
  then show ?thesis by blast
qed

lemma guest_tidy: "guest map_fails j h h' \<Longrightarrow> shape h \<and> tidy (h_rv h) \<Longrightarrow> shape h' \<and> tidy (h_rv h')"
proof (induction rule: guest.induct)
  case (guest_instr now h h')
  then show ?case using instr_safe shape_safe tidy_safe by blast
next
  case (guest_call w h h1 h')
  then have "shape h1 \<and> tidy (h_rv h1)" using instr_safe shape_safe tidy_safe by blast
  then show ?case using sys_shape [of h1 w] sys_tidy [of h1 w] guest_call(2,3) by simp
qed (simp add: shape_def)

text \<open>C11 Memory that a program does not have holds only zeros, in every state it reaches before a call that the model leaves open (\<open>clone\<close>,
  \<open>execve\<close>, waiting at an empty pipe or for a living child, streams that are no pipes), so what it gets later from the heap or a
  mapping is zero and shows nothing of what was there before. Excepted are programs whose mapping of a file fails with \<open>ENOMEM\<close> after it has
  changed the memory, which leaves bytes of that file behind; every other call, failing ones included, is covered.\<close>

theorem fresh_memory_zero:
  assumes "(guest map_fails j)\<^sup>*\<^sup>* h h'" "rv_ok (h_rv h)" "maps_ok (h_rv h)" "tidy (h_rv h)" "\<not> covered (h_rv h') (int a)"
  shows "byte (r_m (h_rv h')) a = 0"
proof -
  have "shape h' \<and> tidy (h_rv h')"
    using guest_keeps [where I = "\<lambda>h. shape h \<and> tidy (h_rv h)", OF assms(1)] guest_tidy assms(2-4) by (simp add: shape_def)
  then show ?thesis using assms(5) by (auto simp: tidy_def)
qed

lemma sys_hsafe:
  assumes "rv_ok (h_rv h)" "nat (ux (xr 17 (h_rv h))) \<notin> map_calls"
  shows "safe (h_rv h) (h_rv (snd (sys w h)))"
proof -
  have "hsafe (h_rv h) (snd (sys w h))"
  proof (rule sys_after)
    show "hsafe (h_rv h) (snd (call w (ux (xr 17 (h_rv h))) h))"
      by (rule keepsD [OF call_safe [OF assms(2)]]) (simp add: hsafe_def safe_refl assms(1))
    show "hsafe (h_rv h) (g\<lparr>h_rv := snd (setx 10 v (h_rv g))\<rparr>)" if "hsafe (h_rv h) g" for g v
      using that keepsD [OF simple_keeps(1) [of "h_rv h" 10 v], of "h_rv g"] by (simp add: hsafe_def)
  qed
  then show ?thesis by (simp add: hsafe_def)
qed

lemma at_call_ok: "rv_ok (h_rv (at_call n a))"
  using call_shape_ok [OF call_regs(1,2), of n a]
  by (auto simp: shape_def at_call_def call_host_def rv_ok_def cache_ok_def call_rv_fields blank_rv_def)

lemma at_call_covered: "\<not> covered (h_rv (at_call n a)) 300000"
  by (simp add: covered_def at_call_def call_rv_fields blank_rv_def)

theorem fresh_memory_zero_witness: "byte (r_m (h_rv (snd (sys world0 (at_call 80 0))))) 300000 = 0"
proof -
  have s: "shape (call_host (call_regs 80 0))" by (intro call_shape_ok call_regs)
  have n: "nat (ux (xr 17 (h_rv (at_call 80 0)))) \<notin> map_calls" by (simp add: at_call_regs ux_def map_calls_def)
  then have "\<not> map_fails world0 (at_call 80 0)" by (simp add: map_fails_def at_call_regs ux_def)
  note run = call_runs [where B = map_fails and n = 80 and a = 0, OF this, simplified]
  have "\<not> covered (h_rv (snd (sys world0 (at_call 80 0)))) 300000"
    using at_call_covered [of 80 0] sys_hsafe [OF at_call_ok n, of world0] by (simp add: safe_def same_map_def covered_def)
  then show ?thesis using fresh_memory_zero [OF run, of 300000] s call_tidy_ok by (auto simp: shape_def)
qed

text \<open>C3 A call other than \<open>brk\<close>, \<open>mmap\<close>, \<open>mremap\<close> and \<open>munmap\<close> that returns a value or the number of an error leaves the map of the memory as it
  is, and every byte it changes is one that the program itself may write: what the kernel delivers (contents of files and pipes, attributes, directory entries,
  times, limits, names of the system, the end of a child) never reaches the program's read-only memory, nor a place it does not have. The calls that the model leaves
  open are not covered: \<open>clone\<close> and \<open>execve\<close>, waiting at an empty pipe or for a living child, and streams that are no pipes, such as terminals.\<close>

theorem calls_store_where_allowed:
  assumes "rv_ok (h_rv h)" "nat (ux (xr 17 (h_rv h))) \<notin> {214, 215, 216, 222}" "sys w h = (Inr (), h')"
  shows "r_maps (h_rv h') = r_maps (h_rv h) \<and> r_brk (h_rv h') = r_brk (h_rv h) \<and>
    (byte (r_m (h_rv h')) a \<noteq> byte (r_m (h_rv h)) a \<longrightarrow> writable (h_rv h) (int a))"
proof -
  have n: "nat (ux (xr 17 (h_rv h))) \<notin> map_calls" using assms(2) by (simp add: map_calls_def)
  show ?thesis using sys_hsafe [OF assms(1) n, of w] assms(3) by (simp add: safe_def same_map_def)
qed

theorem calls_store_where_allowed_witness: "byte (r_m (h_rv (snd (sys world0 (at_call 80 0))))) 65536 = 0x73"
proof -
  note at_call_ok [of 80 0]
  moreover have "nat (ux (xr 17 (h_rv (at_call 80 0)))) \<notin> {214, 215, 216, 222}" by (simp add: at_call_regs ux_def)
  moreover have "\<not> writable (h_rv (at_call 80 0)) 65536" "byte (r_m (h_rv (at_call 80 0))) 65536 = 0x73"
    by (simp_all add: writable_def at_call_def call_rv_fields blank_rv_def call_mem)
  ultimately show ?thesis
    using calls_store_where_allowed [of "at_call 80 0" world0 "snd (sys world0 (at_call 80 0))" 65536] call_result [of 80 world0 0] by auto
qed

section \<open>The kernel\<close>

text \<open>C4 Whatever a guest program does before a call that the model leaves open (\<open>clone\<close>, which copies its descriptors, \<open>execve\<close>, waiting at
  an empty pipe or for a living child, streams that are no pipes), the kernel stays consistent: every pipe counts exactly the descriptors that use it, descriptors refer to pipes
  that exist, the file system keeps its tree and its link counts, and the process stays the live process that it was. Excepted
  is opening \<open>/dev/tty\<close>, whose descriptor shares streams that are not counted.\<close>

theorem guest_keeps_kernel:
  assumes "(guest opens_tty j)\<^sup>*\<^sup>* h h'" "kern_ok (h_k h)" "live (h_k h) (h_pid h)"
  shows "kern_ok (h_k h') \<and> live (h_k h') (h_pid h') \<and> h_pid h' = h_pid h"
proof -
  have "hfit (\<lambda>_. True) (h_pid h) h'"
  proof (rule guest_keeps [where I = "hfit (\<lambda>_. True) (h_pid h)", OF assms(1)])
    show "hfit (\<lambda>_. True) (h_pid h) h" using assms(2,3) by (simp add: hfit_def fit_def stays_def)
  qed (rule anyone.guest_fit)
  then show ?thesis by (simp add: hfit_def fit_def stays_def)
qed

lemma sys1_ok: "kern_ok sys1" "live sys1 2" "0 \<notin> uids (proc_at sys1 2)"
proof -
  show "kern_ok sys1" using sys_reached(2) by (rule reaches_ok)
  show "live sys1 2" by code_simp
  show "0 \<notin> uids (proc_at sys1 2)" by code_simp
qed

theorem guest_keeps_kernel_witness: "kern_ok (h_k (snd (sys world0 (at_call 59 262144))))"
proof -
  have "\<not> opens_tty world0 (at_call 59 262144)" by (simp add: opens_tty_def at_call_regs ux_def)
  from guest_keeps_kernel [OF call_runs [where B = opens_tty and n = 59 and a = 262144, OF this, simplified]] show ?thesis using sys1_ok by (simp add: call_host_def)
qed

text \<open>C9 A guest program that is not the superuser under any of its three user identities gains nothing by its instructions and its calls: in every state it reaches its
  user and group identities are among those it had, its groups are the same, and the identities it is checked with in the file
  system are among those it had. The run is followed up to a call that the model leaves open: \<open>execve\<close>, by which a set-user-id program would change the
  identity, \<open>clone\<close>, waiting at an empty pipe or for a living child, streams that are no pipes. Excepted are programs that open \<open>/dev/tty\<close>.\<close>

theorem guest_gains_nothing:
  assumes "(guest opens_tty j)\<^sup>*\<^sup>* h h'" "kern_ok (h_k h)" "live (h_k h) (h_pid h)" "0 \<notin> uids (proc_at (h_k h) (h_pid h))"
  shows "no_gain (proc_at (h_k h) (h_pid h)) (proc_at (h_k h') (h_pid h'))"
proof -
  let ?p = "proc_at (h_k h) (h_pid h)"
  have "hfit (\<lambda>p. no_gain ?p p \<and> 0 \<notin> uids p) (h_pid h) h'"
  proof (rule guest_keeps [where I = "hfit (\<lambda>p. no_gain ?p p \<and> 0 \<notin> uids p) (h_pid h)", OF assms(1)])
    show "hfit (\<lambda>p. no_gain ?p p \<and> 0 \<notin> uids p) (h_pid h) h"
      using assms(2-4) by (simp add: hfit_def fit_def stays_def no_gain_refl)
  qed (rule bounded.guest_fit)
  then show ?thesis by (simp add: hfit_def fit_def stays_def)
qed

theorem guest_gains_nothing_witness: "no_gain (proc_at sys1 2) (proc_at (h_k (snd (sys world0 (at_call 146 0)))) (h_pid (snd (sys world0 (at_call 146 0)))))"
proof -
  have "\<not> opens_tty world0 (at_call 146 0)" by (simp add: opens_tty_def at_call_regs ux_def)
  from guest_gains_nothing [OF call_runs [where B = opens_tty and n = 146 and a = 0, OF this, simplified]] show ?thesis using sys1_ok by (simp add: call_host_def)
qed

end
