(* ===== verification/CLayout.thy ===== *)
theory CLayout
  imports Mem64
begin

text \<open>
  Structures of C as bytes. A structure of the root image's headers (\<^verbatim>\<open>src/.thistle.base/usr/include\<close>) is a value of \<open>ctype\<close>, and its
  members have the places that the 64-bit RISC-V ABI gives them; \<open>c_member\<close> is what a compiled program reads from a member. The theories that model
  code which writes or reads bytes at literal places compare it with these structures.
\<close>

section \<open>Structures\<close>

text \<open>A scalar is aligned to its size, an array as its elements, a structure as its strictest member; a structure is padded to a
  multiple of its alignment.\<close>

datatype ctype = Scalar nat | Arr nat ctype | Struct members
  and members = End | Member string ctype members

definition up_to :: "nat \<Rightarrow> nat \<Rightarrow> nat" where "up_to a n = (n + a - 1) div a * a"

primrec calign :: "ctype \<Rightarrow> nat" and maligns :: "members \<Rightarrow> nat" where
  "calign (Scalar n) = n"
| "calign (Arr k t) = calign t"
| "calign (Struct ms) = maligns ms"
| "maligns End = 1"
| "maligns (Member x t ms) = max (calign t) (maligns ms)"

primrec csize :: "ctype \<Rightarrow> nat" and mend :: "members \<Rightarrow> nat \<Rightarrow> nat" where
  "csize (Scalar n) = n"
| "csize (Arr k t) = k * csize t"
| "csize (Struct ms) = up_to (maligns ms) (mend ms 0)"
| "mend End = (\<lambda>b. b)"
| "mend (Member x t ms) = (\<lambda>b. mend ms (up_to (calign t) b + csize t))"

text \<open>The place and the size of a member, named by the path to it.\<close>

fun cfind :: "ctype \<Rightarrow> string list \<Rightarrow> (nat \<times> nat) option"
  and mfind :: "members \<Rightarrow> nat \<Rightarrow> string \<Rightarrow> string list \<Rightarrow> (nat \<times> nat) option" where
  "cfind t [] = Some (0, csize t)"
| "cfind (Struct ms) (x # p) = mfind ms 0 x p"
| "cfind t (x # p) = None"
| "mfind End b x p = None"
| "mfind (Member y t ms) b x p =
     (let b1 = up_to (calign t) b in
      if x = y then map_option (apfst ((+) b1)) (cfind t p) else mfind ms (b1 + csize t) x p)"

text \<open>A number in memory, and what a program reads from a member of a structure at an address.\<close>

definition c_num :: "(nat \<Rightarrow> u8) \<Rightarrow> nat \<Rightarrow> nat \<Rightarrow> int" where
  "c_num f a n = uint (of_bytes (at_bytes f a n) :: u64)"

definition c_member :: "ctype \<Rightarrow> string list \<Rightarrow> (nat \<Rightarrow> u8) \<Rightarrow> nat \<Rightarrow> int option" where
  "c_member t p f a = map_option (\<lambda>(b, n). c_num f (a + b) n) (cfind t p)"

section \<open>Scalar types\<close>

text \<open>\<^verbatim>\<open>bits/alltypes.h\<close>\<close>

definition c_int :: ctype where "c_int = Scalar 4"
definition c_short :: ctype where "c_short = Scalar 2"
definition c_char :: ctype where "c_char = Scalar 1"
definition c_long :: ctype where "c_long = Scalar 8"

definition dev_t :: ctype where "dev_t = c_long"
definition ino_t :: ctype where "ino_t = c_long"
definition mode_t :: ctype where "mode_t = c_int"
definition nlink_t :: ctype where "nlink_t = c_int"
definition uid_t :: ctype where "uid_t = c_int"
definition gid_t :: ctype where "gid_t = c_int"
definition off_t :: ctype where "off_t = c_long"
definition blksize_t :: ctype where "blksize_t = c_int"
definition blkcnt_t :: ctype where "blkcnt_t = c_long"
definition fsblkcnt_t :: ctype where "fsblkcnt_t = c_long"
definition fsfilcnt_t :: ctype where "fsfilcnt_t = c_long"
definition time_t :: ctype where "time_t = c_long"

section \<open>Numbers in bytes\<close>

lemma int_bytes_cut: "int_bytes z (take_bit (z * 8) v) = int_bytes z v"
proof -
  have "(of_int (drop_bit (8 * i) (take_bit (z * 8) v) AND 255) :: u8) = of_int (drop_bit (8 * i) v AND 255)" if "i < z" for i
  proof -
    have "drop_bit (8 * i) (take_bit (z * 8) v) AND 255 = drop_bit (8 * i) v AND 255"
    proof (rule bit_eqI)
      fix n
      have "bit (255 :: int) n \<longleftrightarrow> n < 8" using bit_mask_iff [of 8 n, where 'a = int] by (simp add: mask_eq_exp_minus_1)
      then show "bit (drop_bit (8 * i) (take_bit (z * 8) v) AND 255) n = bit (drop_bit (8 * i) v AND 255) n"
        using that by (auto simp: bit_and_iff bit_drop_bit_eq bit_take_bit_iff)
    qed
    then show ?thesis by simp
  qed
  then show ?thesis by (simp add: int_bytes_def)
qed

lemma num_bytes: "at_bytes f a z = int_bytes z v \<Longrightarrow> z \<le> 8 \<Longrightarrow> c_num f a z = take_bit (8 * z) v"
proof -
  assume f: "at_bytes f a z = int_bytes z v" and z: "z \<le> 8"
  have "at_bytes f a z = bytes_le z (of_int v :: u64)"
    using int_bytes_word [of z v, where 'a = 64] z f by (simp add: int_bytes_cut)
  then have "c_num f a z = uint (take_bit (8 * z) (of_int v :: u64))" by (simp add: c_num_def of_bytes_le)
  also have "\<dots> = take_bit (min 64 (8 * z)) v" by (simp add: take_bit_of_int uint_word_of_int_eq)
  finally show ?thesis using z by (simp add: min_def split: if_splits)
qed

lemma flat_same: "at_bytes (flat_write a c f) a (length c) = c"
  by (rule nth_equalityI) (simp_all add: flat_in)

lemma list_bytes: "a + n \<le> length b \<Longrightarrow> at_bytes ((!) b) a n = take n (drop a b)"
  by (intro nth_equalityI) simp_all

end
