(* ===== verification/GuestAbi.thy ===== *)
theory GuestAbi
  imports HostClaims AbiTables CLayout
begin

text \<open>
  The kernel seen by a C program of the root image. The headers under \<^verbatim>\<open>src/.thistle.base/usr/include\<close> (\<^verbatim>\<open>bits/stat.h\<close>,
  \<^verbatim>\<open>bits/dirent.h\<close>, \<^verbatim>\<open>bits/statfs.h\<close>, \<^verbatim>\<open>bits/fcntl.h\<close>, \<^verbatim>\<open>bits/alltypes.h\<close>, \<^verbatim>\<open>dirent.h\<close>, \<^verbatim>\<open>sys/stat.h\<close>) declare the structures and
  numbers with which programs are compiled; \<^verbatim>\<open>src/src/vm/rv64.ts\<close> writes bytes at literal places. Here the structures
  are laid out by the rules of the 64-bit RISC-V ABI, and what a program reads from a member is what the kernel meant by it.
\<close>

section \<open>The headers\<close>

text \<open>The bit-fields of \<open>struct timespec\<close> have no width where \<open>time_t\<close> is as long as \<open>long\<close>.\<close>

definition c_timespec :: ctype where
  "c_timespec = Struct (Member ''tv_sec'' time_t (Member ''tv_nsec'' c_long End))"

definition c_stat :: ctype where
  "c_stat = Struct
     (Member ''st_dev'' dev_t (Member ''st_ino'' ino_t (Member ''st_mode'' mode_t (Member ''st_nlink'' nlink_t
     (Member ''st_uid'' uid_t (Member ''st_gid'' gid_t (Member ''st_rdev'' dev_t (Member ''__pad'' c_long
     (Member ''st_size'' off_t (Member ''st_blksize'' blksize_t (Member ''__pad2'' c_int (Member ''st_blocks'' blkcnt_t
     (Member ''st_atim'' c_timespec (Member ''st_mtim'' c_timespec (Member ''st_ctim'' c_timespec
     (Member ''__unused'' (Arr 2 c_int) End))))))))))))))))"

definition c_dirent :: ctype where
  "c_dirent = Struct
     (Member ''d_ino'' ino_t (Member ''d_off'' off_t (Member ''d_reclen'' c_short (Member ''d_type'' c_char
     (Member ''d_name'' (Arr 256 c_char) End)))))"

definition fsid_t :: ctype where "fsid_t = Struct (Member ''__val'' (Arr 2 c_int) End)"

definition c_statfs :: ctype where
  "c_statfs = Struct
     (Member ''f_type'' c_long (Member ''f_bsize'' c_long (Member ''f_blocks'' fsblkcnt_t (Member ''f_bfree'' fsblkcnt_t
     (Member ''f_bavail'' fsblkcnt_t (Member ''f_files'' fsfilcnt_t (Member ''f_ffree'' fsfilcnt_t (Member ''f_fsid'' fsid_t
     (Member ''f_namelen'' c_long (Member ''f_frsize'' c_long (Member ''f_flags'' c_long
     (Member ''f_spare'' (Arr 4 c_long) End))))))))))))"

definition S_IFMT :: int where "S_IFMT = 0xf000"
definition S_IFDIR :: int where "S_IFDIR = 0x4000"
definition S_IFCHR :: int where "S_IFCHR = 0x2000"
definition S_IFREG :: int where "S_IFREG = 0x8000"
definition S_IFLNK :: int where "S_IFLNK = 0xa000"

definition DT_CHR :: int where "DT_CHR = 2"
definition DT_DIR :: int where "DT_DIR = 4"
definition DT_REG :: int where "DT_REG = 8"
definition DT_LNK :: int where "DT_LNK = 10"

lemmas header_types = dev_t_def ino_t_def mode_t_def nlink_t_def uid_t_def gid_t_def off_t_def blksize_t_def blkcnt_t_def fsblkcnt_t_def
  fsfilcnt_t_def time_t_def c_int_def c_short_def c_char_def c_long_def c_timespec_def fsid_t_def

lemmas layout_simps = header_types up_to_def Let_def

lemma stat_size: "csize c_stat = 128" "csize c_statfs = 120" "csize c_dirent = 280"
  by (simp_all add: c_stat_def c_statfs_def c_dirent_def layout_simps)

section \<open>What is written\<close>

text \<open>Fields that do not overlap are all there afterwards.\<close>

fun apart :: "(int \<times> nat \<times> int) list \<Rightarrow> bool" where
  "apart [] = True"
| "apart ((p, z, v) # fs) = (0 < z \<and> z \<le> 8 \<and> (\<forall>(q, y, _) \<in> set fs. p + int z \<le> q \<or> q + int y \<le> p) \<and> apart fs)"

lemma store_one:
  assumes "mem_ok m" "0 < z" "z \<le> 8" "mem_setN a v z m = (Inr u, m')"
  shows "mem_ok m' \<and> 0 \<le> a \<and> byte m' = flat_write (nat a) (int_bytes z v) (byte m)"
proof -
  have r: "in_range m a z" using assms(4) setN_outside by fastforce
  then show ?thesis using store_spec [OF assms(1) r assms(2,3), of v] assms(4) by (simp add: stored_def int_bytes_cut in_range_def)
qed

lemma fields_run:
  assumes "mapk (\<lambda>(p, z, v). on_rv (on_mem (mem_setN (a + p) v z))) fs h = (Inr us, h')" "mem_ok (r_m (h_rv h))" "apart fs"
  shows "mem_ok (r_m (h_rv h')) \<and>
    (\<forall>(p, z, v) \<in> set fs. 0 \<le> a + p \<and> at_bytes (byte (r_m (h_rv h'))) (nat (a + p)) z = int_bytes z v) \<and>
    (\<forall>x. (\<forall>(p, z, v) \<in> set fs. \<not> (a + p \<le> int x \<and> int x < a + p + int z)) \<longrightarrow> byte (r_m (h_rv h')) x = byte (r_m (h_rv h)) x)"
  using assms
proof (induction fs arbitrary: h us)
  case (Cons t fs)
  obtain p z v where t: "t = (p, z, v)" by (cases t)
  obtain h1 us' where s: "on_rv (on_mem (mem_setN (a + p) v z)) h = (Inr (), h1)"
      and rest: "mapk (\<lambda>(p, z, v). on_rv (on_mem (mem_setN (a + p) v z))) fs h1 = (Inr us', h')"
    using Cons.prems(1) by (auto simp: t bnd_def ret_def split: prod.splits sum.splits)
  define m where "m = r_m (h_rv h1)"
  have st: "mem_setN (a + p) v z (r_m (h_rv h)) = (Inr (), m)"
    using s unfolding m_def by (auto simp: on_rv_run on_mem_def split: prod.splits)
  have z: "0 < z" "z \<le> 8" using Cons.prems(3) by (simp_all add: t)
  note one = store_one [OF Cons.prems(2) z st]
  then have IH: "mem_ok (r_m (h_rv h'))"
      "\<And>q y w. (q, y, w) \<in> set fs \<Longrightarrow> 0 \<le> a + q \<and> at_bytes (byte (r_m (h_rv h'))) (nat (a + q)) y = int_bytes y w"
      "\<And>x. (\<forall>(q, y, w) \<in> set fs. \<not> (a + q \<le> int x \<and> int x < a + q + int y)) \<Longrightarrow> byte (r_m (h_rv h')) x = byte m x"
    using Cons.IH [OF rest] Cons.prems(3) unfolding m_def by (auto simp: t)
  have "at_bytes (byte (r_m (h_rv h'))) (nat (a + p)) z = at_bytes (byte m) (nat (a + p)) z"
    unfolding at_bytes_def
  proof (rule map_cong [OF refl], rule IH(3), rule ballI, clarify)
    fix i q y w
    assume "i \<in> set [0..<z]" "(q, y, w) \<in> set fs" "a + q \<le> int (nat (a + p) + i)" "int (nat (a + p) + i) < a + q + int y"
    moreover have "p + int z \<le> q \<or> q + int y \<le> p" using Cons.prems(3) \<open>(q, y, w) \<in> set fs\<close> by (auto simp: t)
    ultimately show False using one by auto
  qed
  also have "\<dots> = int_bytes z v" using one flat_same [of "nat (a + p)" "int_bytes z v"] by simp
  finally have "at_bytes (byte (r_m (h_rv h'))) (nat (a + p)) z = int_bytes z v" .
  moreover have "byte (r_m (h_rv h')) x = byte (r_m (h_rv h)) x"
    if "\<forall>(q, y, w) \<in> set (t # fs). \<not> (a + q \<le> int x \<and> int x < a + q + int y)" for x
  proof -
    have "byte (r_m (h_rv h')) x = byte m x" using that by (intro IH(3)) simp
    then show ?thesis using one that by (auto simp: t flat_write_def)
  qed
  ultimately show ?case using IH(1,2) one by (auto simp: t)
qed (simp add: ret_def)

lemma put_fields_run:
  assumes "put_fields a fs h = (Inr u, h')" "mem_ok (r_m (h_rv h))" "apart fs"
  shows "mem_ok (r_m (h_rv h'))"
    "\<And>p z v. (p, z, v) \<in> set fs \<Longrightarrow> 0 \<le> a + p \<and> at_bytes (byte (r_m (h_rv h'))) (nat (a + p)) z = int_bytes z v"
    "\<And>x. (\<forall>(p, z, v) \<in> set fs. \<not> (a + p \<le> int x \<and> int x < a + p + int z)) \<Longrightarrow> byte (r_m (h_rv h')) x = byte (r_m (h_rv h)) x"
proof -
  obtain us where r: "mapk (\<lambda>(p, z, v). on_rv (on_mem (mem_setN (a + p) v z))) fs h = (Inr us, h')"
    using assms(1) by (auto simp: put_fields_def bnd_def ret_def split: prod.splits sum.splits)
  note f = fields_run [OF r assms(2,3)]
  show "mem_ok (r_m (h_rv h'))"
    "\<And>p z v. (p, z, v) \<in> set fs \<Longrightarrow> 0 \<le> a + p \<and> at_bytes (byte (r_m (h_rv h'))) (nat (a + p)) z = int_bytes z v"
    "\<And>x. (\<forall>(p, z, v) \<in> set fs. \<not> (a + p \<le> int x \<and> int x < a + p + int z)) \<Longrightarrow> byte (r_m (h_rv h')) x = byte (r_m (h_rv h)) x"
    using f by blast+
qed

lemma apart_small: "apart fs \<Longrightarrow> (p, z, v) \<in> set fs \<Longrightarrow> 0 < z \<and> z \<le> 8"
  by (induction fs) auto

text \<open>A member whose place and size are those of a field holds the value of the field.\<close>

lemma member_read:
  assumes "put_fields a fs h = (Inr u, h')" "mem_ok (r_m (h_rv h))" "apart fs" "0 \<le> a"
    and "cfind t p = Some (b, z)" "(int b, z, v) \<in> set fs"
  shows "c_member t p (byte (r_m (h_rv h'))) (nat a) = Some (take_bit (8 * z) v)"
proof -
  have "nat (a + int b) = nat a + b" using assms(4) by (simp add: nat_add_distrib)
  then have "at_bytes (byte (r_m (h_rv h'))) (nat a + b) z = int_bytes z v"
    using put_fields_run(2) [OF assms(1-3,6)] by simp
  then show ?thesis using num_bytes apart_small [OF assms(3,6)] assms(5) by (simp add: c_member_def)
qed

section \<open>Status of files\<close>

fun kind_bits :: "kind \<Rightarrow> int" where
  "kind_bits File_kind = S_IFREG"
| "kind_bits Dir_kind = S_IFDIR"
| "kind_bits Link_kind = S_IFLNK"
| "kind_bits Char_kind = S_IFCHR"

lemma type_bits_header: "type_bits k = of_int (kind_bits k)"
  by (cases k) (simp_all add: S_IFREG_def S_IFDIR_def S_IFLNK_def S_IFCHR_def)

text \<open>What the members of \<open>struct stat\<close> are to hold.\<close>

definition stat_members :: "st \<Rightarrow> (string list \<times> int) list" where
  "stat_members q =
     [([''st_dev''], 1), ([''st_ino''], int (st_ino q)), ([''st_mode''], uint (of_int (kind_bits (st_kind q)) OR st_mode q)),
      ([''st_nlink''], st_nlink q), ([''st_uid''], st_uid q), ([''st_gid''], st_gid q),
      ([''st_rdev''], if st_kind q = Char_kind then 1 else 0), ([''st_size''], int (st_size q)), ([''st_blksize''], 4096),
      ([''st_blocks''], (int (st_size q) + 511) div 512),
      ([''st_atim'', ''tv_sec''], st_at q div 1000), ([''st_atim'', ''tv_nsec''], js_mod (st_at q) 1000 * 1000000),
      ([''st_mtim'', ''tv_sec''], st_mt q div 1000), ([''st_mtim'', ''tv_nsec''], js_mod (st_mt q) 1000 * 1000000),
      ([''st_ctim'', ''tv_sec''], st_ct q div 1000), ([''st_ctim'', ''tv_nsec''], js_mod (st_ct q) 1000 * 1000000)]"

definition msize :: "ctype \<Rightarrow> string list \<Rightarrow> nat" where
  "msize t p = (case cfind t p of Some (b, n) \<Rightarrow> n | None \<Rightarrow> 0)"

lemma stat_apart: "apart (stat_fields q)"
  by (simp add: stat_fields_def ts_fields_def)

lemma stat_places:
  "cfind c_stat [''st_dev''] = Some (0, 8)" "cfind c_stat [''st_ino''] = Some (8, 8)" "cfind c_stat [''st_mode''] = Some (16, 4)"
  "cfind c_stat [''st_nlink''] = Some (20, 4)" "cfind c_stat [''st_uid''] = Some (24, 4)" "cfind c_stat [''st_gid''] = Some (28, 4)"
  "cfind c_stat [''st_rdev''] = Some (32, 8)" "cfind c_stat [''st_size''] = Some (48, 8)" "cfind c_stat [''st_blksize''] = Some (56, 4)"
  "cfind c_stat [''st_blocks''] = Some (64, 8)" "cfind c_stat [''st_atim'', ''tv_sec''] = Some (72, 8)"
  "cfind c_stat [''st_atim'', ''tv_nsec''] = Some (80, 8)" "cfind c_stat [''st_mtim'', ''tv_sec''] = Some (88, 8)"
  "cfind c_stat [''st_mtim'', ''tv_nsec''] = Some (96, 8)" "cfind c_stat [''st_ctim'', ''tv_sec''] = Some (104, 8)"
  "cfind c_stat [''st_ctim'', ''tv_nsec''] = Some (112, 8)"
  by (simp_all add: c_stat_def layout_simps)

lemma stat_placed:
  "list_all (\<lambda>(p, x). \<exists>b z. cfind c_stat p = Some (b, z) \<and> (int b, z, x) \<in> set (stat_fields q)) (stat_members q)"
  by (simp add: stat_members_def stat_fields_def ts_fields_def stat_places type_bits_header)

lemma bnd_done: "bnd m f s = (Inr y, s') \<longleftrightarrow> (\<exists>x s1. m s = (Inr x, s1) \<and> f x s1 = (Inr y, s'))"
  by (auto simp: bnd_def split: prod.splits sum.splits)

lemma stat_read:
  assumes "putStat q a h = (Inr u, h')" "mem_ok (r_m (h_rv h))" "(p, x) \<in> set (stat_members q)"
  shows "c_member c_stat p (byte (r_m (h_rv h'))) (nat a) = Some (take_bit (8 * msize c_stat p) x)"
proof -
  obtain h1 where g: "guest_chk a 128 True h = (Inr (), h1)" and f: "put_fields a (stat_fields q) h1 = (Inr u, h')"
    using assms(1) by (auto simp: putStat_def bnd_done)
  have h1: "h1 = h" "in_range (r_m (h_rv h)) a 128"
    using g mem_chk_run [of a 128 True "h_rv h"] chk_in_range [of a 128 True "h_rv h"]
    by (cases "mem_chk a 128 True (h_rv h)"; simp add: guest_chk_def on_rv_run; blast)+
  obtain b z where c: "cfind c_stat p = Some (b, z)" "(int b, z, x) \<in> set (stat_fields q)"
    using stat_placed [of q] assms(3) by (auto simp: list_all_iff)
  then show ?thesis
    using member_read [OF f, of c_stat p b z x] h1 assms(2) stat_apart by (simp add: in_range_def msize_def)
qed

text \<open>What \<open>fstat\<close> is to report of descriptor \<open>n\<close>: for 0 to 2 a character device that does not exist, whatever the descriptor refers to; for
  the others what the file that the descriptor's path leads to has after the call.\<close>

definition described :: "world \<Rightarrow> int \<Rightarrow> host \<Rightarrow> kern \<Rightarrow> st \<Rightarrow> bool" where
  "described w n h k q \<longleftrightarrow> (let p = proc_at (h_k h) (h_pid h) in \<exists>f. ent_get (p_fds p) n = Some f \<and>
     (if n < 3 then st_kind q = Char_kind \<and> st_mode q = 0x190 \<and> st_ino q = nat n + 1 \<and> st_nlink q = 1 \<and> st_size q = 0 \<and>
        st_uid q = s_ruid p \<and> st_gid q = s_rgid p \<and> st_at q = w_now w \<and> st_mt q = w_now w \<and> st_ct q = w_now w
      else \<exists>path i r. fd_path f = Some path \<and> walk 33 (k_fs (h_k h)) (procFsCred p) True (norm path (p_cwd p)) = Inr (i, r) \<and>
        (let v = node (k_fs k) i in st_kind q = body_kind (n_body v) \<and> st_mode q = n_mode v \<and> st_ino q = i + 1 \<and> st_nlink q = n_nlink v \<and>
          st_size q = body_size (n_body v) \<and> st_uid q = n_uid v \<and> st_gid q = n_gid v \<and>
          st_at q = n_at v \<and> st_mt q = n_mt v \<and> st_ct q = n_ct v)))"

definition file_status :: "world \<Rightarrow> int \<Rightarrow> (host, st) kop" where
  "file_status w n =
     bnd (fd_of n) (\<lambda>f.
     if n < 3 then me (std_stat w n) else bnd (of_option EBADF (fd_path f)) (\<lambda>p. sys_stat w p True))"

lemma file_status_described:
  assumes "file_status w n h = (Inr q, h1)"
  shows "described w n h (h_k h1) q"
proof -
  obtain f where f: "ent_get (p_fds (proc_at (h_k h) (h_pid h))) n = Some f" and
    q: "(if n < 3 then me (std_stat w n) else bnd (of_option EBADF (fd_path f)) (\<lambda>p. sys_stat w p True)) h = (Inr q, h1)"
    using assms by (auto simp: file_status_def fd_of_def bnd_on_kern get_fd_run split: option.splits)
  show ?thesis
  proof (cases "n < 3")
    case True
    then show ?thesis using f q by (auto simp: described_def me_def asks_def std_stat_def)
  next
    case False
    then obtain path where p: "fd_path f = Some path" "sys_stat w path True h = (Inr q, h1)"
      using q by (cases "fd_path f") (simp_all add: of_option_def bnd_simple)
    then show ?thesis using f False
      by (auto simp: described_def sys_stat_def my_fs_def on_kern_run bnd_simple on_fs_def stat_def bnd_def [of "at n0 p0 c0 c1 b" for n0 p0 c0 c1 b] at_run
          asks_def simp del: walk.simps split: sum.splits prod.splits)
  qed
qed

lemma file_status_rv: "file_status w n h = (x, h1) \<Longrightarrow> h_rv h1 = h_rv h"
proof -
  have "keeps (\<lambda>s. h_rv s = h_rv h) (file_status w n)"
    unfolding file_status_def fd_of_def me_def sys_stat_def my_fs_def
    by (intro keeps_bnd keeps_if keeps_simple opt_keeps) (simp_all add: keeps_def on_kern_run)
  from keepsD [OF this refl] show "file_status w n h = (x, h1) \<Longrightarrow> h_rv h1 = h_rv h" by simp
qed

lemma call_fstat_eq: "call_fstat w h = bnd (fd_reg 10) (\<lambda>n. bnd (addr_reg 11) (\<lambda>a. bnd (file_status w n) (\<lambda>q. bnd (putStat q a) (\<lambda>_. ret 0)))) h"
  by (simp add: call_fstat_def file_status_def bnd_assoc)

lemma fd_reg_run: "fd_reg i h = (if xr i (h_rv h) < 0 \<or> 0x7fffffff < ux (xr i (h_rv h)) then (Inl ERANGE, h) else (Inr (ux (xr i (h_rv h))), h))"
  using ux_pos [of "xr i (h_rv h)"]
  by (simp add: fd_reg_def fd_in_arg_def bnd_arg bnd_nat_in ret_def)

lemma putStat_kern: "putStat q a h = (x, h') \<Longrightarrow> h_k h' = h_k h"
proof -
  have "keeps (\<lambda>s. h_k s = h_k h) (putStat q a)"
    unfolding putStat_def guest_chk_def put_fields_def
    by (intro keeps_bnd keeps_mapk keeps_split keeps_simple) (simp_all add: keeps_def on_rv_run)
  from keepsD [OF this refl] show "putStat q a h = (x, h') \<Longrightarrow> h_k h' = h_k h" by simp
qed

text \<open>C15 What a C program reads from its \<open>struct stat\<close> after a successful \<open>fstat\<close> is, member by member, the status of the file that the path of its
  descriptor leads to, for descriptors from 3 on; descriptors 0 to 2 are always reported as a character device of the process's user, of size 0,
  even when they are files or pipes. The places at which the interpreter puts the numbers are those at which the C library's header has the
  members, with the header's sizes and the header's bits for the kind of the file.\<close>

theorem stat_readable:
  assumes "rv_ok (h_rv h)" "call_fstat w h = (Inr v, h')"
  shows "v = 0 \<and> (\<exists>q. described w (ux (xr 10 (h_rv h))) h (h_k h') q \<and>
    (\<forall>(p, x) \<in> set (stat_members q).
       c_member c_stat p (byte (r_m (h_rv h'))) (nat (ux (xr 11 (h_rv h)))) = Some (take_bit (8 * msize c_stat p) x)))"
proof -
  let ?n = "ux (xr 10 (h_rv h))" and ?a = "ux (xr 11 (h_rv h))"
  obtain q h1 h2 where s: "file_status w ?n h = (Inr q, h1)" and p: "putStat q ?a h1 = (Inr (), h2)" and e: "v = 0" "h' = h2"
    using assms(2) by (auto simp: call_fstat_eq bnd_done fd_reg_run bnd_arg ret_def split: if_splits)
  have "mem_ok (r_m (h_rv h1))" using file_status_rv [OF s] assms(1) by (simp add: rv_ok_def)
  then show ?thesis using stat_read [OF p] e file_status_described [OF s] putStat_kern [OF p] by auto
qed

text \<open>An example: the program of the last theory with a page of its stack; \<open>fstat\<close> of the standard input into that page.\<close>

lemma setN_present:
  assumes "in_range m a z" "ent_get (m_page m) (nat a div PG) = Some q" "nat a mod PG + z \<le> PG"
  shows "mem_setN a v z m = (Inr (), m\<lparr>m_page := ent_set (nat a div PG)
    (set_at q (nat a mod PG) (int_bytes z (take_bit (z * 8) v))) (m_page m)\<rparr>)"
proof -
  have "\<not> nat a mod PG > PG - z" using assms(3) by linarith
  then show ?thesis using assms(1,2) by (simp add: mem_setN_def chk_bnd Let_def bnd_simple modify_def)
qed

lemma fields_fit:
  assumes "\<forall>(p, z, v) \<in> set fs. 0 \<le> a + p \<and> a + p + int z \<le> m_top (r_m (h_rv h)) \<and> nat (a + p) div PG = k \<and> nat (a + p) mod PG + z \<le> PG"
    and "ent_get (m_page (r_m (h_rv h))) k \<noteq> None"
  shows "\<exists>h'. put_fields a fs h = (Inr (), h')"
proof -
  have "\<exists>us h'. mapk (\<lambda>(p, z, v). on_rv (on_mem (mem_setN (a + p) v z))) fs h = (Inr us, h')"
    using assms
  proof (induction fs arbitrary: h)
    case (Cons t fs)
    obtain p z v where t: "t = (p, z, v)" by (cases t)
    obtain q where q: "ent_get (m_page (r_m (h_rv h))) k = Some q" using Cons.prems(2) by blast
    let ?m = "(r_m (h_rv h))\<lparr>m_page := ent_set k (set_at q (nat (a + p) mod PG) (int_bytes z (take_bit (z * 8) v))) (m_page (r_m (h_rv h)))\<rparr>"
    let ?h = "h\<lparr>h_rv := (h_rv h)\<lparr>r_m := ?m\<rparr>\<rparr>"
    have "mem_setN (a + p) v z (r_m (h_rv h)) = (Inr (), ?m)"
      using setN_present [of "r_m (h_rv h)" "a + p" z q v] Cons.prems(1) q by (auto simp: t in_range_def)
    then have s: "on_rv (on_mem (mem_setN (a + p) v z)) h = (Inr (), ?h)" by (simp add: on_rv_run on_mem_run)
    have "ent_get (m_page (r_m (h_rv ?h))) k \<noteq> None" by (simp add: get_set)
    then obtain us h' where "mapk (\<lambda>(p, z, v). on_rv (on_mem (mem_setN (a + p) v z))) fs ?h = (Inr us, h')"
      using Cons.IH [of ?h] Cons.prems(1) by (auto simp: t)
    then show ?case using s by (simp add: t bnd_def ret_def)
  qed (simp add: ret_def)
  then show ?thesis by (auto simp: put_fields_def bnd_def ret_def)
qed

definition abi_host :: "int \<Rightarrow> int \<Rightarrow> host" where
  "abi_host a b = (let xs = ((replicate 32 0)[10 := of_int a])[11 := of_int b, 12 := 4096] in
     call_host xs\<lparr>h_rv := (call_rv xs)\<lparr>r_m := \<lparr>m_page = [(1, call_page), (12, replicate PG 0)], m_used = 2 * PG, m_top = 1048576, m_cap = 3 * PG\<rparr>\<rparr>\<rparr>)"

lemma abi_ok: "rv_ok (h_rv (abi_host a b))" "xr 10 (h_rv (abi_host a b)) = sint (of_int a :: u64)" "xr 11 (h_rv (abi_host a b)) = sint (of_int b :: u64)"
  "h_k (abi_host a b) = sys1" "h_pid (abi_host a b) = 2" "m_top (r_m (h_rv (abi_host a b))) = 1048576"
  "ent_get (m_page (r_m (h_rv (abi_host a b)))) 12 \<noteq> None" "r_floor (h_rv (abi_host a b)) = 196608" "r_maps (h_rv (abi_host a b)) = []"
  "r_stackAt (h_rv (abi_host a b)) = 786432" "xr 12 (h_rv (abi_host a b)) = 4096"
  "m_used (r_m (h_rv (abi_host a b))) = 2 * PG" "m_cap (r_m (h_rv (abi_host a b))) = 3 * PG"
proof -
  let ?xs = "((replicate 32 0)[10 := of_int a])[11 := of_int b, 12 := 4096] :: u64 list"
  have x: "length ?xs = 32" "?xs ! 0 = 0" by simp_all
  have "rv_ok (h_rv (call_host ?xs))" using call_shape_ok [OF x] by (simp add: shape_def)
  moreover have "length call_page = PG" by (simp add: call_page_def PG_def)
  then have "mem_ok \<lparr>m_page = [(1, call_page), (12, replicate PG 0)], m_used = 2 * PG, m_top = 1048576, m_cap = 3 * PG\<rparr>"
    by (auto simp: mem_ok_def ents_ok_def ent_get_def ent_sum_def)
  ultimately show "rv_ok (h_rv (abi_host a b))"
    by (simp add: abi_host_def call_host_def rv_ok_def cache_ok_def call_rv_fields)
qed (simp_all add: abi_host_def call_host_def xr_def call_rv_fields ent_get_def)

lemma abi_chk: "n \<le> 4096 \<Longrightarrow> guest_chk 786432 n True (abi_host a b) = (Inr (), abi_host a b)"
  by (simp add: guest_chk_def on_rv_run mem_chk_def seg_of_def Let_def abi_ok ret_def)

lemma abi_status: "file_status world0 0 (abi_host a b) = (Inr (std_stat world0 0 (proc_at sys1 2)), abi_host a b)"
proof -
  have "ent_get (p_fds (proc_at sys1 2)) 0 \<noteq> None" by code_simp
  then obtain f where "ent_get (p_fds (proc_at sys1 2)) 0 = Some f" by blast
  then have "fd_of 0 (abi_host a b) = (Inr f, abi_host a b)"
    by (simp add: fd_of_def on_kern_run get_fd_def abi_ok bnd_simple of_option_def ret_def)
  then show ?thesis by (simp add: file_status_def bnd_def [of "fd_of 0"] me_def asks_def abi_ok)
qed

lemma abi_fstat: "\<exists>h'. call_fstat world0 (abi_host 0 786432) = (Inr 0, h')"
proof -
  let ?q = "std_stat world0 0 (proc_at sys1 2)"
  have "\<exists>h'. put_fields 786432 (stat_fields ?q) (abi_host 0 786432) = (Inr (), h')"
    by (rule fields_fit [where k = 12]) (simp_all add: abi_ok stat_fields_def ts_fields_def PG_def)
  then have "\<exists>h'. putStat ?q 786432 (abi_host 0 786432) = (Inr (), h')" by (simp add: putStat_def bnd_def abi_chk)
  then show ?thesis 
    by (auto simp: call_fstat_eq bnd_def [of "fd_reg i" for i] fd_reg_run bnd_arg abi_ok ux_def
        bnd_def [of "file_status w n" for w n] abi_status bnd_def [of "putStat q a" for q a] ret_def)
qed

theorem stat_readable_witness:
  "\<exists>h'. call_fstat world0 (abi_host 0 786432) = (Inr 0, h') \<and>
     c_member c_stat [''st_mode''] (byte (r_m (h_rv h'))) 786432 = Some 0x2190 \<and>
     c_member c_stat [''st_ino''] (byte (r_m (h_rv h'))) 786432 = Some 1"
proof -
  obtain h' where r: "call_fstat world0 (abi_host 0 786432) = (Inr 0, h')" using abi_fstat by blast
  obtain q where q: "described world0 0 (abi_host 0 786432) (h_k h') q" and
    m: "\<forall>(p, x) \<in> set (stat_members q). c_member c_stat p (byte (r_m (h_rv h'))) 786432 = Some (take_bit (8 * msize c_stat p) x)"
    using stat_readable [OF abi_ok(1) r] by (auto simp: abi_ok ux_def)
  have k: "st_kind q = Char_kind" "st_mode q = 0x190" "st_ino q = 1" using q by (auto simp: described_def Let_def)
  have "([''st_mode''], 0x2190) \<in> set (stat_members q)" "([''st_ino''], 1) \<in> set (stat_members q)"
    by (simp_all add: stat_members_def k S_IFCHR_def)
  moreover have "msize c_stat [''st_mode''] = 4" "msize c_stat [''st_ino''] = 8" by (simp_all add: msize_def stat_places)
  ultimately show ?thesis using m r by (fastforce simp: take_bit_eq_mod)
qed

section \<open>Directories\<close>

text \<open>How a C program reads a buffer of directory entries: from one \<open>struct dirent\<close> to the next by \<open>d_reclen\<close>, the name up to its
  zero.\<close>

definition c_field :: "string \<Rightarrow> u8 list \<Rightarrow> int" where
  "c_field x b = (case c_member c_dirent [x] ((!) b) 0 of Some v \<Rightarrow> v | None \<Rightarrow> 0)"

definition c_name :: "u8 list \<Rightarrow> u8 list" where
  "c_name b = (case cfind c_dirent [''d_name''] of Some (k, _) \<Rightarrow> takeWhile (\<lambda>x. x \<noteq> 0) (drop k b) | None \<Rightarrow> [])"

fun c_dirents :: "nat \<Rightarrow> u8 list \<Rightarrow> (int \<times> int \<times> int \<times> u8 list) list" where
  "c_dirents 0 b = []"
| "c_dirents (Suc n) b =
     (if b = [] then []
      else (c_field ''d_ino'' b, c_field ''d_off'' b, c_field ''d_type'' b, c_name b) # c_dirents n (drop (nat (c_field ''d_reclen'' b)) b))"

lemma dirent_places:
  "cfind c_dirent [''d_ino''] = Some (0, 8)" "cfind c_dirent [''d_off''] = Some (8, 8)" "cfind c_dirent [''d_reclen''] = Some (16, 2)"
  "cfind c_dirent [''d_type''] = Some (18, 1)" "cfind c_dirent [''d_name''] = Some (19, 256)"
  by (simp_all add: c_dirent_def layout_simps)

fun dt :: "kind \<Rightarrow> int" where
  "dt File_kind = DT_REG"
| "dt Dir_kind = DT_DIR"
| "dt Link_kind = DT_LNK"
| "dt Char_kind = DT_CHR"

lemma field_bytes:
  assumes "cfind c_dirent [x] = Some (k, z)" "z \<le> 8" "k + z \<le> length b" "take z (drop k b) = int_bytes z v"
  shows "c_field x b = take_bit (8 * z) v"
proof -
  have "at_bytes ((!) b) k z = take z (drop k b)" using assms(3) by (rule list_bytes)
  then have "c_num ((!) b) k z = take_bit (8 * z) v" using assms(2,4) by (intro num_bytes) simp_all
  then show ?thesis using assms(1) by (simp add: c_field_def c_member_def)
qed

lemma one_byte: "int_bytes (Suc 0) (uint b) = [b]"
proof -
  have "uint b AND 255 = uint b" using take_bit_int_eq_self_iff [of 8 "uint b"] uint_lt2p [of b] by (simp add: take_bit_eq_mask mask_eq_exp_minus_1)
  then show ?thesis by (simp add: int_bytes_def)
qed

lemma dirent_read:
  fixes i k :: nat and kd :: kind
  assumes "0 \<notin> set (enc name)" "length (enc name) < 256"
  defines "e \<equiv> dirent i k kd name"
  shows "24 \<le> length e" "c_field ''d_ino'' (e @ r) = take_bit 64 (int i)" "c_field ''d_off'' (e @ r) = take_bit 64 (int k + 1)"
    "c_field ''d_type'' (e @ r) = dt kd" "c_name (e @ r) = enc name" "nat (c_field ''d_reclen'' (e @ r)) = length e"
proof -
  define z where "z = (19 + length (enc name @ [0]) + 7) div 8 * 8"
  have z: "20 + length (enc name) \<le> z" "z \<le> 27 + length (enc name)" "24 \<le> z"
  proof -
    have y: "z = (27 + length (enc name)) - (27 + length (enc name)) mod 8" unfolding z_def by (simp add: minus_mod_eq_div_mult)
    then show "20 + length (enc name) \<le> z" "z \<le> 27 + length (enc name)"
      using mod_less_divisor [of 8 "27 + length (enc name)"] by linarith+
    have "27 div 8 \<le> (27 + length (enc name)) div 8" by (rule div_le_mono) simp
    then show "24 \<le> z" unfolding z_def by simp
  qed
  have e: "e = int_bytes 8 (int i) @ int_bytes 8 (int k + 1) @ int_bytes 2 (int z) @ [kind_byte kd] @ (enc name @ [0]) @ replicate (z - 20 - length (enc name)) 0"
    by (simp add: e_def dirent_def z_def Let_def)
  then have l: "length e = z" using z by simp
  then show "24 \<le> length e" using z by simp
  show "c_field ''d_ino'' (e @ r) = take_bit 64 (int i)"
    using field_bytes [OF dirent_places(1), of "e @ r" "int i"] by (simp add: e)
  show "c_field ''d_off'' (e @ r) = take_bit 64 (int k + 1)"
    using field_bytes [OF dirent_places(2), of "e @ r" "int k + 1"] by (simp add: e)
  have "c_field ''d_reclen'' (e @ r) = take_bit 16 (int z)"
    using field_bytes [OF dirent_places(3), of "e @ r" "int z"] by (simp add: e)
  also have "\<dots> = int z" using z assms(2) by (simp add: take_bit_int_eq_self_iff)
  finally show "nat (c_field ''d_reclen'' (e @ r)) = length e" by (simp add: l)
  have "c_field ''d_type'' (e @ r) = take_bit 8 (uint (kind_byte kd))"
    using field_bytes [OF dirent_places(4), of "e @ r" "uint (kind_byte kd)"] by (simp add: e one_byte)
  also have "\<dots> = dt kd" by (cases kd) (simp_all add: DT_REG_def DT_DIR_def DT_LNK_def DT_CHR_def)
  finally show "c_field ''d_type'' (e @ r) = dt kd" .
  have "takeWhile (\<lambda>x. x \<noteq> 0) (enc name @ 0 # y) = enc name" for y using assms(1) by (subst takeWhile_append2) auto
  then show "c_name (e @ r) = enc name" by (simp add: c_name_def dirent_places e)
qed

text \<open>The entries that a program finds are those of the listing, in order, each with the number of its successor.\<close>

definition listed :: "vfs \<Rightarrow> nat \<times> string \<times> ino \<Rightarrow> int \<times> int \<times> int \<times> u8 list" where
  "listed fs = (\<lambda>(k, name, i). (take_bit 64 (int i + 1), take_bit 64 (int k + 1), dt (body_kind (n_body (node fs i))), enc name))"

definition c_names :: "(string \<times> ino) list \<Rightarrow> bool" where
  "c_names es \<longleftrightarrow> (\<forall>(name, _) \<in> set es. 0 \<notin> set (enc name) \<and> length (enc name) < 256)"

lemma dents_read:
  assumes "dents fs room k es = (b, c)"
  shows "length b \<le> room \<and> c \<le> length es \<and>
    (c < length es \<longrightarrow> room < length b + length (dirent (snd (es ! c) + 1) (k + c) (body_kind (n_body (node fs (snd (es ! c))))) (fst (es ! c)))) \<and>
    (c_names es \<longrightarrow> (\<forall>n. length b \<le> n \<longrightarrow> c_dirents n b = map (listed fs) (zip [k..<k + c] (take c es))))"
  using assms
proof (induction es arbitrary: room k b c)
  case Nil
  then have "b = []" "c = 0" by simp_all
  moreover have "c_dirents n [] = []" for n by (cases n) simp_all
  ultimately show ?case by simp
next
  case (Cons x es)
  obtain name i where x: "x = (name, i)" by (cases x)
  let ?e = "dirent (i + 1) k (body_kind (n_body (node fs i))) name"
  show ?case
  proof (cases "room < length ?e")
    case True
    have "c_dirents n [] = []" for n by (cases n) simp_all
    then show ?thesis using Cons.prems True by (simp add: x Let_def)
  next
    case False
    obtain b1 c1 where d: "dents fs (room - length ?e) (Suc k) es = (b1, c1)" by fastforce
    then have bc: "b = ?e @ b1" "c = Suc c1" using Cons.prems False by (auto simp: x Let_def)
    note IH = Cons.IH [OF d]
    have "c_dirents n b = map (listed fs) (zip [k..<k + c] (take c (x # es)))" if nm: "c_names (x # es)" and n: "length b \<le> n" for n
    proof -
      have nm1: "0 \<notin> set (enc name)" "length (enc name) < 256" "c_names es" using nm by (auto simp: c_names_def x)
      note e1 = dirent_read(1) [OF nm1(1,2), where i = "Suc i" and k = k and kd = "body_kind (n_body (node fs i))"]
      note e = dirent_read(2-6) [OF nm1(1,2), where i = "Suc i" and k = k and kd = "body_kind (n_body (node fs i))" and r = b1]
      obtain n1 where n1: "n = Suc n1" using n e1 by (cases n) (auto simp: bc)
      have ne: "dirent (Suc i) k (body_kind (n_body (node fs i))) name \<noteq> []" using e1 by auto
      have "length b1 \<le> n1" using n e1 by (simp add: bc n1)
      then have "c_dirents n1 b1 = map (listed fs) (zip [Suc k..<Suc k + c1] (take c1 es))" using IH nm1(3) by blast
      moreover have "c_dirents n b = listed fs (k, x) # c_dirents n1 b1" using e ne by (simp add: n1 bc(1) x listed_def add.commute)
      moreover have "map (listed fs) (zip [k..<k + c] (take c (x # es))) =
          listed fs (k, x) # map (listed fs) (zip [Suc k..<Suc k + c1] (take c1 es))"
        by (simp add: bc(2) upt_conv_Cons del: upt_Suc)
      ultimately show ?thesis by simp
    qed
    then show ?thesis using IH False by (auto simp: bc)
  qed
qed

lemma dents_empty: "dents fs room k es = (b, c) \<Longrightarrow> b = [] \<longleftrightarrow> c = 0"
proof (cases es)
  case (Cons x es1)
  obtain name i where x: "x = (name, i)" by (cases x)
  have "dirent (i + 1) k (body_kind (n_body (node fs i))) name \<noteq> []" by (simp add: dirent_def Let_def)
  then show "dents fs room k es = (b, c) \<Longrightarrow> b = [] \<longleftrightarrow> c = 0"
    by (auto simp: Cons x Let_def split: if_splits prod.splits)
qed simp

lemma guest_put_run:
  assumes "guest_put a b h = (Inr u, h')" "mem_ok (r_m (h_rv h))"
  shows "0 \<le> a \<and> at_bytes (byte (r_m (h_rv h'))) (nat a) (length b) = b \<and> h_k h' = h_k h \<and> h_pid h' = h_pid h"
proof -
  obtain h1 where g: "on_rv (mem_chk a (length b) True) h = (Inr (), h1)" and m: "on_rv (on_mem (mem_write a b)) h1 = (Inr u, h')"
    using assms(1) by (auto simp: guest_put_def bnd_done)
  have h1: "h1 = h" "in_range (r_m (h_rv h)) a (length b)"
    using g mem_chk_run [of a "length b" True "h_rv h"] chk_in_range [of a "length b" True "h_rv h"]
    by (cases "mem_chk a (length b) True (h_rv h)"; simp add: on_rv_run; blast)+
  obtain x m' where w: "mem_write a b (r_m (h_rv h)) = (x, m')" by fastforce
  then have "x = Inr ()" "h' = h\<lparr>h_rv := (h_rv h)\<lparr>r_m := m'\<rparr>\<rparr>" using m by (simp_all add: h1 on_rv_run on_mem_run)
  then show ?thesis using write_spec [OF assms(2) h1(2)] w h1(2) flat_same [of "nat a" b] by (simp add: in_range_def)
qed

text \<open>C16 What a C program finds in its buffer after \<open>getdents\<close>, walking from \<open>struct dirent\<close> to \<open>struct dirent\<close> as the header
  declares them, is the listing of the directory from the place of its descriptor on: names, numbers of nodes, kinds and order,
  nothing left out and nothing twice, and the descriptor moves behind the entries delivered. The result is 0 exactly at the end of
  the listing, and never more than the buffer. Names of 256 bytes or more, for which the header has no room, are excepted.\<close>

theorem getdents_readable:
  assumes "rv_ok (h_rv h)" "call_getdents w h = (Inr v, h')"
  shows "\<exists>f p es c. let n = ux (xr 10 (h_rv h)); a = nat (ux (xr 11 (h_rv h))); k = nat (fd_pos f) in
    ent_get (p_fds (proc_at (h_k h) (h_pid h))) n = Some f \<and> fd_path f = Some p \<and>
    fst (my_fs (\<lambda>cwd c. listdir (w_le w) (w_now w) p cwd c) h) = Inr es \<and> c \<le> length (drop k es) \<and>
    (v = 0 \<longleftrightarrow> length es \<le> k) \<and> (c = 0 \<longleftrightarrow> v = 0) \<and> v \<le> ux (xr 12 (h_rv h)) \<and>
    ent_get (p_fds (proc_at (h_k h') (h_pid h'))) n = Some (f\<lparr>fd_pos := fd_pos f + int c\<rparr>) \<and>
    (c_names es \<longrightarrow> c_dirents (nat v) (at_bytes (byte (r_m (h_rv h'))) a (nat v)) =
       map (listed (k_fs (h_k h'))) (zip [k..<k + c] (take c (drop k es))))"
proof -
  let ?n = "ux (xr 10 (h_rv h))" and ?a = "ux (xr 11 (h_rv h))" and ?z = "nat (ux (xr 12 (h_rv h)))"
  obtain f p h1 where f: "on_kern (\<lambda>pid. file_fd pid ?n) h = (Inr (f, p), h1)" and rest:
      "bnd (my_fs (\<lambda>cwd c. listdir (w_le w) (w_now w) p cwd c)) (\<lambda>es.
       bnd (asks (\<lambda>h. k_fs (h_k h))) (\<lambda>fs.
       let rest = drop (nat (fd_pos f)) es; (b, c) = dents fs ?z (nat (fd_pos f)) rest in
       bnd (check (rest = [] \<or> c \<noteq> 0) EINVAL) (\<lambda>_.
       bnd (on_kern (\<lambda>pid. set_pos pid ?n f (fd_pos f + int c))) (\<lambda>_.
       bnd (guest_put ?a b) (\<lambda>_. ret (int (length b))))))) h1 = (Inr v, h')"
    using assms(2) by (auto simp: call_getdents_def bnd_def [of "fd_reg i" for i] fd_reg_run bnd_arg bnd_nat_reg
        bnd_def [of "on_kern (\<lambda>pid. file_fd pid x)" for x] split: if_splits sum.splits prod.splits)
  have fd: "ent_get (p_fds (proc_at (h_k h) (h_pid h))) ?n = Some f" "fd_path f = Some p" "h1 = h"
    using f by (auto simp: on_kern_run file_fd_def get_fd_def bnd_def asks_def of_option_def bad_def ret_def split: option.splits)
  obtain es h2 where es: "my_fs (\<lambda>cwd c. listdir (w_le w) (w_now w) p cwd c) h = (Inr es, h2)"
    using rest fd(3) by (auto simp: bnd_done)
  have h2: "h_rv h2 = h_rv h" "h_pid h2 = h_pid h" by (use es in \<open>auto simp: my_fs_def on_kern_run\<close>)
  let ?k = "nat (fd_pos f)" and ?fs = "k_fs (h_k h2)"
  obtain b c where d: "dents ?fs ?z ?k (drop ?k es) = (b, c)" by fastforce
  define h3 where "h3 = h2\<lparr>h_k := set_fd (h_pid h2) ?n (f\<lparr>fd_pos := fd_pos f + int c\<rparr>) (h_k h2)\<rparr>"
  have g: "drop ?k es = [] \<or> c \<noteq> 0" "guest_put ?a b h3 = (Inr (), h')" "v = int (length b)"
    using rest es d fd(3) unfolding h3_def
    by (auto simp: bnd_def [of "my_fs g" for g] bnd_simple check_def on_kern_run set_pos_def
        bnd_def [of "on_kern g" for g] bnd_def [of "guest_put x y" for x y] bad_def modify_def ret_def split: if_splits sum.splits prod.splits)
  have "mem_ok (r_m (h_rv h3))" using assms(1) h2 by (simp add: h3_def rv_ok_def)
  note put = guest_put_run [OF g(2) this]
  have "k_fs (h_k h') = ?fs" using put by (simp add: h3_def set_fd_def upd_proc_def)
  moreover have "ent_get (p_fds (proc_at (h_k h') (h_pid h'))) ?n = Some (f\<lparr>fd_pos := fd_pos f + int c\<rparr>)"
    using put h2 by (simp add: h3_def get_set)
  moreover have "v = 0 \<longleftrightarrow> length es \<le> ?k"
    using g(1,3) dents_empty [OF d] d by auto
  moreover have "c = 0 \<longleftrightarrow> v = 0" using dents_empty [OF d] g(3) by simp
  moreover have "v \<le> ux (xr 12 (h_rv h))" using dents_read [OF d] g(3) ux_pos [of "xr 12 (h_rv h)"] by linarith
  moreover have "c_names es \<Longrightarrow> c_names (drop ?k es)" by (auto simp: c_names_def dest: in_set_dropD)
  ultimately show ?thesis
    using dents_read [OF d] put fd es g(3) unfolding Let_def
    by (intro exI [of _ f] exI [of _ p] exI [of _ es] exI [of _ c]) simp
qed

text \<open>The example again: a descriptor of a directory with one file.\<close>

definition dir_kern :: kern where "dir_kern = snd (sys_openDir 0 2 ''/'' sys1)"

definition dir_host :: host where "dir_host = abi_host 3 786432\<lparr>h_k := dir_kern\<rparr>"

definition dir_fd :: fd where "dir_fd = new_fd None None (Some ''/'') True False False"

lemma dir_open: "ent_get (p_fds (proc_at dir_kern 2)) 3 = Some dir_fd"
  by code_simp

definition dir_list :: "(errno + (string \<times> ino) list) \<times> kern" where
  "dir_list = bnd (asks (\<lambda>k. proc_at k 2)) (\<lambda>p. on_fs (listdir (\<lambda>_ _. True) 0 ''/'' (p_cwd p) (procFsCred p))) dir_kern"

lemma dir_listed: "fst dir_list = Inr [(''x'', 1)]"
  by code_simp

definition dir_bytes :: "u8 list" where
  "dir_bytes = [2, 0, 0, 0, 0, 0, 0, 0, 1, 0, 0, 0, 0, 0, 0, 0, 24, 0, 8, 120, 0, 0, 0, 0]"

lemma dir_dents: "dents (k_fs (snd dir_list)) 4096 0 [(''x'', 1)] = (dir_bytes, 1)"
  by code_simp

lemma abi_put: "h_rv h = h_rv (abi_host a b) \<Longrightarrow> bs \<noteq> [] \<Longrightarrow> length bs \<le> 4096 \<Longrightarrow> \<exists>h'. guest_put 786432 bs h = (Inr (), h')"
proof -
  assume h: "h_rv h = h_rv (abi_host a b)" and bs: "bs \<noteq> []" "length bs \<le> 4096"
  have "mem_chk 786432 (length bs) True (h_rv (abi_host a b)) = (Inr (), h_rv (abi_host a b))"
    using bs by (simp add: mem_chk_def seg_of_def Let_def abi_ok ret_def)
  then have "on_rv (mem_chk 786432 (length bs) True) h = (Inr (), h)" by (simp add: on_rv_run flip: h)
  moreover have "(786432 + length bs - 1) div PG = 12" using bs by (intro div_nat_eqI) (simp_all add: PG_def Suc_le_eq)
  then have "\<exists>m'. mem_write 786432 bs (r_m (h_rv h)) = (Inr (), m')"
    using bs by (intro write_fits) (simp_all add: in_range_def h abi_ok PG_def Suc_le_eq)
  then have "\<exists>h'. on_rv (on_mem (mem_write 786432 bs)) h = (Inr (), h')" by (auto simp: on_rv_run on_mem_run)
  ultimately show "\<exists>h'. guest_put 786432 bs h = (Inr (), h')" by (auto simp: guest_put_def bnd_def)
qed

lemma dir_run: "\<exists>h'. call_getdents world0 dir_host = (Inr 24, h')"
proof -
  have r: "xr 10 (h_rv dir_host) = 3" "xr 11 (h_rv dir_host) = 786432" "xr 12 (h_rv dir_host) = 4096" "h_k dir_host = dir_kern" "h_pid dir_host = 2"
    by (simp_all add: dir_host_def abi_ok)
  have f: "file_fd 2 3 dir_kern = (Inr (dir_fd, ''/''), dir_kern)"
    by (simp add: file_fd_def get_fd_def bnd_def asks_def dir_open of_option_def ret_def dir_fd_def new_fd_def)
  obtain k where k: "dir_list = (Inr [(''x'', 1)], k)" using dir_listed by (metis prod.collapse)
  have l: "my_fs (\<lambda>cwd c. listdir (\<lambda>_ _. True) 0 ''/'' cwd c) dir_host = (Inr [(''x'', 1)], dir_host\<lparr>h_k := k\<rparr>)"
    using k by (simp add: my_fs_def on_kern_run r dir_list_def)
  have h: "dir_host\<lparr>h_k := dir_kern\<rparr> = dir_host" by (simp flip: r(4))
  have p: "nat (fd_pos dir_fd) = 0" "fd_pos dir_fd = 0" by (simp_all add: dir_fd_def new_fd_def)
  obtain h' where w: "guest_put 786432 dir_bytes (dir_host\<lparr>h_k := set_fd 2 3 (dir_fd\<lparr>fd_pos := 1\<rparr>) k\<rparr>) = (Inr (), h')"
    using abi_put [of "dir_host\<lparr>h_k := set_fd 2 3 (dir_fd\<lparr>fd_pos := 1\<rparr>) k\<rparr>" 3 786432 dir_bytes] by (auto simp: dir_host_def dir_bytes_def)
  have "call_getdents world0 dir_host = (Inr 24, h')"
    using dir_dents w
    by (simp add: call_getdents_def bnd_def [of "fd_reg i" for i] fd_reg_run bnd_arg bnd_nat_reg r ux_def MAX_IO_def
        f world0_def bnd_def [of "my_fs g" for g] l k p bnd_simple check_def on_kern_run set_pos_def bnd_def [of "on_kern g" for g]
        bnd_def [of "guest_put x y" for x y] modify_def ret_def Let_def h del: dents.simps)
      (simp add: dir_bytes_def)
  then show ?thesis by blast
qed

theorem getdents_readable_witness:
  "\<exists>h' t. call_getdents world0 dir_host = (Inr 24, h') \<and>
     c_dirents 24 (at_bytes (byte (r_m (h_rv h'))) 786432 24) = [(2, 1, t, enc ''x'')]"
proof -
  obtain h' where run: "call_getdents world0 dir_host = (Inr 24, h')" using dir_run by blast
  have ok: "rv_ok (h_rv dir_host)" "xr 10 (h_rv dir_host) = 3" "xr 11 (h_rv dir_host) = 786432" "h_k dir_host = dir_kern" "h_pid dir_host = 2"
    by (simp_all add: dir_host_def abi_ok)
  have p: "fd_pos dir_fd = 0" "fd_path dir_fd = Some ''/''" by (simp_all add: dir_fd_def new_fd_def)
  have l: "fst (my_fs (\<lambda>cwd c. listdir (w_le world0) (w_now world0) ''/'' cwd c) dir_host) = Inr [(''x'', 1)]"
    using dir_listed by (simp add: my_fs_def on_kern_run dir_list_def world0_def ok)
  have "c_names [(''x'', 1)]" by (simp add: c_names_def enc_def enc_char_def)
  moreover obtain c where "c \<le> length [(''x'', 1)]" "c = 0 \<longleftrightarrow> (24 :: int) = 0"
      "c_names [(''x'', 1)] \<longrightarrow> c_dirents (nat 24) (at_bytes (byte (r_m (h_rv h'))) (nat 786432) (nat 24)) =
         map (listed (k_fs (h_k h'))) (zip [0..<0 + c] (take c [(''x'', 1)]))"
    using getdents_readable [OF ok(1) run] by (auto simp: ok ux_def dir_open p l Let_def)
  moreover from this have "c = 1" by simp
  ultimately have "c_dirents 24 (at_bytes (byte (r_m (h_rv h'))) 786432 24) =
      [(2, 1, dt (body_kind (n_body (node (k_fs (h_k h')) 1))), enc ''x'')]" by (simp add: listed_def)
  then show ?thesis using run by blast
qed

section \<open>Numbers\<close>










text \<open>The flags of \<^verbatim>\<open>fcntl.h\<close> and \<^verbatim>\<open>bits/fcntl.h\<close> and the mode that \<open>openat\<close> makes of them.\<close>

definition O_RDONLY :: u32 where "O_RDONLY = 0"
definition O_WRONLY :: u32 where "O_WRONLY = 1"
definition O_RDWR :: u32 where "O_RDWR = 2"
definition O_TRUNC :: u32 where "O_TRUNC = 0x200"
definition O_APPEND :: u32 where "O_APPEND = 0x400"

lemma open_kinds:
  "open_kind O_RDONLY = ''r''" "open_kind O_WRONLY = ''ow''" "open_kind O_RDWR = ''r+''" "open_kind (O_WRONLY OR O_TRUNC) = ''w''"
  "open_kind (O_RDWR OR O_TRUNC) = ''w+''" "open_kind (O_WRONLY OR O_APPEND) = ''a''" "open_kind (O_RDWR OR O_APPEND) = ''a+''"
  by (simp_all add: open_kind_def has_flag_def O_RDONLY_def O_WRONLY_def O_RDWR_def O_TRUNC_def O_APPEND_def)

text \<open>A file opened for reading with \<open>O_APPEND\<close> can be written and not read.\<close>

lemma readonly_append: "open_kind (O_RDONLY OR O_APPEND) = ''a''"
  by (simp add: open_kind_def has_flag_def O_RDONLY_def O_APPEND_def)

end
