(* ===== verification/Elf.thy ===== *)
theory Elf
  imports CLayout
begin

text \<open>
  The import of executables (class \<open>Elf\<close> of \<^verbatim>\<open>src/src/elf/elf.ts\<close>) and the structures of \<^verbatim>\<open>elf.h\<close> that it reads at literal places. A file is a
  list of bytes; an error is a value. \<open>Exe\<close> has the fields that \<open>run\<close> fills in; its class is not part of the repository, and that it starts
  without sections and without an address of the program headers is what its use relies on.
\<close>

section \<open>The header \<^verbatim>\<open>elf.h\<close>\<close>

definition EI_NIDENT :: nat where "EI_NIDENT = 16"
definition ET_EXEC :: nat where "ET_EXEC = 2"
definition EM_RISCV :: nat where "EM_RISCV = 243"
definition PT_LOAD :: nat where "PT_LOAD = 1"
definition PT_DYNAMIC :: nat where "PT_DYNAMIC = 2"
definition PT_INTERP :: nat where "PT_INTERP = 3"
definition PT_PHDR :: nat where "PT_PHDR = 6"
definition PF_X :: nat where "PF_X = 1"
definition PF_W :: nat where "PF_W = 2"
definition PF_R :: nat where "PF_R = 4"

definition Elf64_Half :: ctype where "Elf64_Half = c_short"
definition Elf64_Word :: ctype where "Elf64_Word = c_int"
definition Elf64_Xword :: ctype where "Elf64_Xword = c_long"
definition Elf64_Addr :: ctype where "Elf64_Addr = c_long"
definition Elf64_Off :: ctype where "Elf64_Off = c_long"

definition Elf64_Ehdr :: ctype where
  "Elf64_Ehdr = Struct
     (Member ''e_ident'' (Arr EI_NIDENT c_char) (Member ''e_type'' Elf64_Half (Member ''e_machine'' Elf64_Half
     (Member ''e_version'' Elf64_Word (Member ''e_entry'' Elf64_Addr (Member ''e_phoff'' Elf64_Off (Member ''e_shoff'' Elf64_Off
     (Member ''e_flags'' Elf64_Word (Member ''e_ehsize'' Elf64_Half (Member ''e_phentsize'' Elf64_Half (Member ''e_phnum'' Elf64_Half
     (Member ''e_shentsize'' Elf64_Half (Member ''e_shnum'' Elf64_Half (Member ''e_shstrndx'' Elf64_Half End))))))))))))))"

definition Elf64_Phdr :: ctype where
  "Elf64_Phdr = Struct
     (Member ''p_type'' Elf64_Word (Member ''p_flags'' Elf64_Word (Member ''p_offset'' Elf64_Off (Member ''p_vaddr'' Elf64_Addr
     (Member ''p_paddr'' Elf64_Addr (Member ''p_filesz'' Elf64_Xword (Member ''p_memsz'' Elf64_Xword
     (Member ''p_align'' Elf64_Xword End))))))))"

section \<open>The importer\<close>

datatype elf_err =
    Not_elf | Truncated | Bad_class | Not_linked | Not_riscv | Bad_version | Out_of_range | Bad_table | Dynamic
  | Bad_segment nat | Bad_alignment nat | Bad_entry | No_room

definition andthen :: "elf_err + 'a \<Rightarrow> ('a \<Rightarrow> elf_err + 'b) \<Rightarrow> elf_err + 'b" where
  "andthen m f = (case m of Inl e \<Rightarrow> Inl e | Inr x \<Rightarrow> f x)"

definition demand :: "bool \<Rightarrow> elf_err \<Rightarrow> elf_err + unit" where
  "demand b e = (if b then Inr () else Inl e)"

record exe_sec =
  x_name :: string
  x_flg :: string
  x_align :: nat
  x_data :: "u8 list"
  x_size :: nat
  x_addr :: nat

record exe =
  exe_entry :: nat
  exe_mem :: nat
  exe_phdr :: nat
  exe_phent :: nat
  exe_phnum :: nat
  exe_sec :: "exe_sec list"

definition MAX_MEM :: nat where "MAX_MEM = 1024 * 1024 * 1024 * 1024"

definition le_at :: "u8 list \<Rightarrow> nat \<Rightarrow> nat \<Rightarrow> nat" where
  "le_at b k n = nat (c_num ((!) b) k n)"

definition elf_nat :: "nat \<Rightarrow> elf_err + nat" where
  "elf_nat n = (if n > 2 ^ 53 - 1 then Inl Out_of_range else Inr n)"

definition pow2 :: "nat \<Rightarrow> bool" where
  "pow2 n \<longleftrightarrow> 0 < n \<and> n \<le> 2 ^ 53 - 1 \<and> n AND (n - 1) = 0"

definition isElf :: "u8 list \<Rightarrow> bool" where
  "isElf b \<longleftrightarrow> EI_NIDENT \<le> length b \<and> take 4 b = [0x7f, 0x45, 0x4c, 0x46]"

text \<open>The largest power of two, up to the alignment asked for, that divides the address.\<close>

function fit_align :: "nat \<Rightarrow> nat \<Rightarrow> nat" where
  "fit_align va al = (if 1 < al \<and> va mod al \<noteq> 0 then fit_align va (al div 2) else al)"
  by pat_completeness auto
termination by (relation "measure snd") auto

fun decimal :: "nat \<Rightarrow> string" where
  "decimal n = (if n < 10 then [char_of (48 + n)] else decimal (n div 10) @ [char_of (48 + n mod 10)])"

definition seg_flags :: "nat \<Rightarrow> string" where
  "seg_flags fl =
     (if fl AND PF_R \<noteq> 0 then ''r'' else []) @ (if fl AND PF_W \<noteq> 0 then ''w'' else []) @ (if fl AND PF_X \<noteq> 0 then ''x'' else [])"

text \<open>One turn of the loop: the address of the program headers, the sections, their end and their number so far.\<close>

definition elf_seg ::
    "u8 list \<Rightarrow> nat \<Rightarrow> nat \<Rightarrow> nat \<Rightarrow> nat \<Rightarrow> nat \<times> exe_sec list \<times> nat \<times> nat \<Rightarrow> elf_err + nat \<times> exe_sec list \<times> nat \<times> nat" where
  "elf_seg b phoff phz phn i = (\<lambda>(phdr, secs, en, loads).
     let k = phoff + i * phz; typ = le_at b k 4; fl = le_at b (k + 4) 4 in
     andthen (elf_nat (le_at b (k + 8) 8)) (\<lambda>off.
     andthen (elf_nat (le_at b (k + 16) 8)) (\<lambda>va.
     andthen (elf_nat (le_at b (k + 32) 8)) (\<lambda>fz.
     andthen (elf_nat (le_at b (k + 40) 8)) (\<lambda>mz.
     andthen (elf_nat (le_at b (k + 48) 8)) (\<lambda>al0.
     andthen (demand (\<not> (typ = PT_INTERP \<or> typ = PT_DYNAMIC)) Dynamic) (\<lambda>_.
     let phdr = (if typ = PT_PHDR then va else phdr) in
     if typ \<noteq> PT_LOAD \<or> mz = 0 then Inr (phdr, secs, en, loads)
     else
       andthen (demand (\<not> (mz < fz \<or> length b < off + fz \<or> va < 0x10000 \<or> MAX_MEM < va + mz)) (Bad_segment i)) (\<lambda>_.
       andthen (demand (\<not> (1 < al0 \<and> \<not> pow2 al0)) (Bad_alignment i)) (\<lambda>_.
       let s = \<lparr>x_name = ''.elf.'' @ decimal loads, x_flg = seg_flags fl, x_align = fit_align va (min (if al0 = 0 then 1 else al0) 65536),
                x_data = take fz (drop off b), x_size = mz, x_addr = va\<rparr>;
           phdr = (if phdr = 0 \<and> off \<le> phoff \<and> phoff + phz * phn \<le> off + fz then va + phoff - off else phdr)
       in Inr (phdr, secs @ [s], max en (va + mz), Suc loads))))))))))"

fun elf_segs ::
    "u8 list \<Rightarrow> nat \<Rightarrow> nat \<Rightarrow> nat \<Rightarrow> nat list \<Rightarrow> nat \<times> exe_sec list \<times> nat \<times> nat \<Rightarrow> elf_err + nat \<times> exe_sec list \<times> nat \<times> nat" where
  "elf_segs b phoff phz phn [] acc = Inr acc"
| "elf_segs b phoff phz phn (i # ns) acc = andthen (elf_seg b phoff phz phn i acc) (elf_segs b phoff phz phn ns)"

definition elf_run :: "u8 list \<Rightarrow> elf_err + exe" where
  "elf_run b =
     andthen (demand (isElf b) Not_elf) (\<lambda>_.
     andthen (demand (64 \<le> length b) Truncated) (\<lambda>_.
     andthen (demand (b ! 4 = 2 \<and> b ! 5 = 1 \<and> b ! 6 = 1) Bad_class) (\<lambda>_.
     andthen (demand (le_at b 16 2 = ET_EXEC) Not_linked) (\<lambda>_.
     andthen (demand (le_at b 18 2 = EM_RISCV) Not_riscv) (\<lambda>_.
     andthen (demand (le_at b 20 4 = 1) Bad_version) (\<lambda>_.
     andthen (elf_nat (le_at b 24 8)) (\<lambda>entry.
     andthen (elf_nat (le_at b 32 8)) (\<lambda>phoff.
     let ehz = le_at b 52 2; phz = le_at b 54 2; phn = le_at b 56 2 in
     andthen (demand (ehz = 64 \<and> phz = 56 \<and> phn \<noteq> 0 \<and> phoff + phz * phn \<le> length b) Bad_table) (\<lambda>_.
     andthen (elf_segs b phoff phz phn [0..<phn] (0, [], 0, 0)) (\<lambda>(phdr, secs, en, loads).
     andthen (demand (loads \<noteq> 0 \<and> list_ex (\<lambda>s. CHR ''x'' \<in> set (x_flg s) \<and> x_addr s \<le> entry \<and> entry < x_addr s + x_size s) secs) Bad_entry) (\<lambda>_.
     if phdr = 0 then
       let ad = (en + 15) div 16 * 16; z = phz * phn in
       andthen (demand (ad + z \<le> MAX_MEM) No_room) (\<lambda>_.
       Inr \<lparr>exe_entry = entry, exe_mem = MAX_MEM, exe_phdr = ad, exe_phent = phz, exe_phnum = phn,
            exe_sec = secs @ [\<lparr>x_name = ''.elf.phdr'', x_flg = ''r'', x_align = 16, x_data = take z (drop phoff b), x_size = z, x_addr = ad\<rparr>]\<rparr>)
     else Inr \<lparr>exe_entry = entry, exe_mem = MAX_MEM, exe_phdr = phdr, exe_phent = phz, exe_phnum = phn, exe_sec = secs\<rparr>)))))))))))"

section \<open>What the file declares\<close>

definition c_get :: "ctype \<Rightarrow> string \<Rightarrow> u8 list \<Rightarrow> nat \<Rightarrow> nat" where
  "c_get t x b a = (case c_member t [x] ((!) b) a of Some v \<Rightarrow> nat v | None \<Rightarrow> 0)"

definition ehdr :: "string \<Rightarrow> u8 list \<Rightarrow> nat" where "ehdr x b = c_get Elf64_Ehdr x b 0"

definition phdr :: "string \<Rightarrow> u8 list \<Rightarrow> nat \<Rightarrow> nat" where
  "phdr x b i = c_get Elf64_Phdr x b (ehdr ''e_phoff'' b + i * csize Elf64_Phdr)"

lemmas elf_types = Elf64_Half_def Elf64_Word_def Elf64_Xword_def Elf64_Addr_def Elf64_Off_def c_short_def c_int_def c_long_def c_char_def
  EI_NIDENT_def up_to_def Let_def

lemma elf_sizes: "csize Elf64_Ehdr = 64" "csize Elf64_Phdr = 56"
  by (simp_all add: Elf64_Ehdr_def Elf64_Phdr_def elf_types)

lemma ehdr_places:
  "ehdr ''e_type'' b = le_at b 16 2" "ehdr ''e_machine'' b = le_at b 18 2" "ehdr ''e_version'' b = le_at b 20 4"
  "ehdr ''e_entry'' b = le_at b 24 8" "ehdr ''e_phoff'' b = le_at b 32 8" "ehdr ''e_ehsize'' b = le_at b 52 2"
  "ehdr ''e_phentsize'' b = le_at b 54 2" "ehdr ''e_phnum'' b = le_at b 56 2"
  by (simp_all add: ehdr_def c_get_def c_member_def le_at_def Elf64_Ehdr_def elf_types)

lemma phdr_places:
  "phdr ''p_type'' b i = le_at b (le_at b 32 8 + i * 56) 4" "phdr ''p_flags'' b i = le_at b (le_at b 32 8 + i * 56 + 4) 4"
  "phdr ''p_offset'' b i = le_at b (le_at b 32 8 + i * 56 + 8) 8" "phdr ''p_vaddr'' b i = le_at b (le_at b 32 8 + i * 56 + 16) 8"
  "phdr ''p_filesz'' b i = le_at b (le_at b 32 8 + i * 56 + 32) 8" "phdr ''p_memsz'' b i = le_at b (le_at b 32 8 + i * 56 + 40) 8"
  "phdr ''p_align'' b i = le_at b (le_at b 32 8 + i * 56 + 48) 8"
  unfolding phdr_def ehdr_places(5) elf_sizes
  by (simp_all add: c_get_def c_member_def le_at_def Elf64_Phdr_def elf_types)

text \<open>The section that a program header declares: a right for each bit of the flags; the alignment asked for, at most 64 KiB and as far as the address has it,
  which is the greatest common divisor of the two.\<close>

definition rights :: "nat \<Rightarrow> string" where
  "rights f = filter (\<lambda>c. f AND (if c = CHR ''r'' then PF_R else if c = CHR ''w'' then PF_W else PF_X) \<noteq> 0) ''rwx''"

definition loadable :: "u8 list \<Rightarrow> nat \<Rightarrow> bool" where
  "loadable b i \<longleftrightarrow> phdr ''p_type'' b i = PT_LOAD \<and> phdr ''p_memsz'' b i \<noteq> 0"

definition declared :: "u8 list \<Rightarrow> nat \<times> nat \<Rightarrow> exe_sec" where
  "declared b = (\<lambda>(n, i).
     \<lparr>x_name = ''.elf.'' @ decimal n, x_flg = rights (phdr ''p_flags'' b i),
      x_align = gcd (phdr ''p_vaddr'' b i) (min (if phdr ''p_align'' b i = 0 then 1 else phdr ''p_align'' b i) 65536),
      x_data = take (phdr ''p_filesz'' b i) (drop (phdr ''p_offset'' b i) b), x_size = phdr ''p_memsz'' b i,
      x_addr = phdr ''p_vaddr'' b i\<rparr>)"

definition sec_ok :: "exe_sec \<Rightarrow> bool" where
  "sec_ok s \<longleftrightarrow> 0x10000 \<le> x_addr s \<and> 0 < x_align s \<and> x_align s \<le> 65536 \<and> x_addr s mod x_align s = 0 \<and>
     x_addr s + x_size s \<le> MAX_MEM \<and> length (x_data s) \<le> x_size s \<and> 0 < x_size s"

lemma andthen_done: "andthen m f = Inr y \<longleftrightarrow> (\<exists>x. m = Inr x \<and> f x = Inr y)"
  by (auto simp: andthen_def split: sum.splits)

lemma demand_done: "demand b e = Inr u \<longleftrightarrow> b"
  by (simp add: demand_def)

lemma elf_nat_done: "elf_nat n = Inr m \<longleftrightarrow> m = n \<and> n \<le> 2 ^ 53 - 1"
  by (auto simp: elf_nat_def)

declare fit_align.simps [simp del] decimal.simps [simp del]

lemma fit_align_ok: "0 < al \<Longrightarrow> 0 < fit_align va al \<and> fit_align va al \<le> al \<and> va mod fit_align va al = 0"
proof (induction va al rule: fit_align.induct)
  case (1 va al)
  show ?case
  proof (cases "1 < al \<and> va mod al \<noteq> 0")
    case True
    then have "0 < fit_align va (al div 2) \<and> fit_align va (al div 2) \<le> al div 2 \<and> va mod fit_align va (al div 2) = 0"
      using 1 by (simp add: div_greater_zero_iff)
    moreover have "fit_align va al = fit_align va (al div 2)" using True by (subst fit_align.simps) simp
    ultimately show ?thesis using div_le_dividend [of al 2] by (auto intro: order_trans)
  next
    case False
    then have "fit_align va al = al" by (subst fit_align.simps) (simp only: False if_False)
    moreover have "al = 1 \<or> va mod al = 0" using False 1(2) by auto
    ultimately show ?thesis using 1(2) by auto
  qed
qed

lemma seg_rights: "seg_flags f = rights f"
  by (simp add: seg_flags_def rights_def)

lemma pow2_power: "n AND (n - 1) = 0 \<Longrightarrow> 0 < n \<Longrightarrow> \<exists>k. n = 2 ^ k" for n :: nat
proof (induction n rule: less_induct)
  case (less n)
  show ?case
  proof (cases "even n")
    case True
    then obtain m where m: "n = 2 * m" by blast
    have "odd (n - 1)" "(n - 1) div 2 = m - 1" using less.prems(2) m by auto
    then have "m AND (m - 1) = 0" using less.prems(1) m and_rec [of n "n - 1"] by simp
    then obtain k where "m = 2 ^ k" using less.IH [of m] less.prems(2) m by auto
    then have "n = 2 ^ Suc k" using m by simp
    then show ?thesis by blast
  next
    case False
    then obtain m where m: "n = 2 * m + 1" by (auto elim: oddE)
    then have "m = 0" using less.prems(1) and_rec [of n "n - 1"] by simp
    then have "n = 2 ^ 0" using m by simp
    then show ?thesis by blast
  qed
qed

lemma gcd_power: "\<not> 2 ^ Suc k dvd n \<Longrightarrow> gcd n (2 ^ Suc k) = gcd n (2 ^ k)" for n :: nat
proof (induction k arbitrary: n)
  case 0
  then have "coprime n 2" by (simp add: coprime_right_2_iff_odd)
  then show ?case by (simp add: coprime_iff_gcd_eq_1)
next
  case (Suc k)
  show ?case
  proof (cases "even n")
    case True
    then obtain m where m: "n = 2 * m" by blast
    then have "\<not> 2 ^ Suc k dvd m" using Suc.prems by simp
    then have "2 * gcd m (2 ^ Suc k) = 2 * gcd m (2 ^ k)" by (intro arg_cong [where f = "(*) 2"] Suc.IH)
    then show ?thesis unfolding gcd_mult_distrib_nat by (simp add: m)
  next
    case False
    then have "coprime n (2 ^ j)" for j by (simp add: coprime_right_2_iff_odd)
    then show ?thesis by (simp add: coprime_iff_gcd_eq_1 del: power_Suc)
  qed
qed

lemma fit_align_gcd: "fit_align va (2 ^ k) = gcd va (2 ^ k)"
proof (induction k)
  case 0
  show ?case by (subst fit_align.simps) simp
next
  case (Suc k)
  show ?case
  proof (cases "2 ^ Suc k dvd va")
    case True
    then have "fit_align va (2 ^ Suc k) = 2 ^ Suc k" by (subst fit_align.simps) (simp add: mod_eq_0_iff_dvd)
    then show ?thesis using True by (simp add: gcd_proj2_if_dvd)
  next
    case False
    have "va mod 2 ^ Suc k \<noteq> 0" using False by (simp add: mod_eq_0_iff_dvd)
    moreover have "(1 :: nat) < 2 ^ Suc k" by (rule one_less_power) simp_all
    ultimately have "fit_align va (2 ^ Suc k) = fit_align va (2 ^ Suc k div 2)" by (subst fit_align.simps) simp
    then have "fit_align va (2 ^ Suc k) = fit_align va (2 ^ k)" by simp
    moreover have "gcd va (2 ^ Suc k) = gcd va (2 ^ k)" using False by (rule gcd_power)
    ultimately show ?thesis using Suc by simp
  qed
qed

lemma asked_align: "\<not> (1 < al \<and> \<not> pow2 al) \<Longrightarrow> \<exists>k. min (if al = 0 then 1 else al) 65536 = (2 :: nat) ^ k"
proof -
  assume a: "\<not> (1 < al \<and> \<not> pow2 al)"
  have "\<exists>k. (if al = 0 then 1 else al) = (2 :: nat) ^ k"
  proof (cases "1 < al")
    case True
    then show ?thesis using a pow2_power [of al] by (simp add: pow2_def)
  next
    case False
    then have "(if al = 0 then 1 else al) = (2 :: nat) ^ 0" by simp
    then show ?thesis by blast
  qed
  then obtain k where k: "(if al = 0 then 1 else al) = (2 :: nat) ^ k" by blast
  have "min ((2 :: nat) ^ k) (2 ^ 16) = 2 ^ min k 16"
  proof (cases "k \<le> 16")
    case True
    then have "(2 :: nat) ^ k \<le> 2 ^ 16" by (rule power_increasing) simp
    then show ?thesis using True by (simp only: min_absorb1)
  next
    case False
    then have "(2 :: nat) ^ 16 \<le> 2 ^ k" by (intro power_increasing) simp_all
    then show ?thesis using False by (simp only: min_absorb2 nat_le_linear [of 16 k, simplified False simp_thms])
  qed
  then show ?thesis unfolding k by simp
qed

text \<open>One header adds the section that it declares, if it declares one.\<close>

lemma elf_seg_run:
  assumes "elf_seg b (le_at b 32 8) 56 phn i (a, secs, en, loads) = Inr (a', secs', en', loads')"
  shows "if loadable b i
    then secs' = secs @ [declared b (loads, i)] \<and> loads' = Suc loads \<and> sec_ok (declared b (loads, i)) \<and>
      en' = max en (phdr ''p_vaddr'' b i + phdr ''p_memsz'' b i) \<and> phdr ''p_offset'' b i + phdr ''p_filesz'' b i \<le> length b \<and>
      a' = (if a = 0 \<and> phdr ''p_offset'' b i \<le> le_at b 32 8 \<and> le_at b 32 8 + 56 * phn \<le> phdr ''p_offset'' b i + phdr ''p_filesz'' b i
            then phdr ''p_vaddr'' b i + le_at b 32 8 - phdr ''p_offset'' b i else a)
    else secs' = secs \<and> loads' = loads \<and> en' = en \<and> (phdr ''p_type'' b i \<noteq> PT_PHDR \<longrightarrow> a' = a)"
proof -
  define k off va fz mz al0 fl
    where "k = le_at b 32 8 + i * 56" and "off = le_at b (k + 8) 8" and "va = le_at b (k + 16) 8"
    and "fz = le_at b (k + 32) 8" and "mz = le_at b (k + 40) 8" and "al0 = le_at b (k + 48) 8" and "fl = le_at b (k + 4) 4"
  note d = this
  define al1 phoff ty where "al1 = fit_align va (min (if al0 = 0 then 1 else al0) 65536)" and "phoff = le_at b 32 8" and "ty = le_at b k 4"
  note d2 = this
  have ph: "phdr ''p_type'' b i = ty" "phdr ''p_flags'' b i = fl" "phdr ''p_offset'' b i = off" "phdr ''p_vaddr'' b i = va"
    "phdr ''p_filesz'' b i = fz" "phdr ''p_memsz'' b i = mz" "phdr ''p_align'' b i = al0"
    by (simp_all add: phdr_places d d2)
  have "0 < min (if al0 = 0 then 1 else al0) (65536 :: nat)" by simp
  from fit_align_ok [OF this, of va] have al: "0 < al1" "al1 \<le> 65536" "va mod al1 = 0" by (simp_all add: d2 split: if_splits)
  have run: "elf_seg b phoff 56 phn i (a, secs, en, loads) = Inr (a', secs', en', loads')" using assms by (simp add: d2)
  note run = run [unfolded elf_seg_def Let_def prod.case d2(2) d(1) [symmetric], folded d2(2) d(2-) d2(1,3)]
  show ?thesis
  proof (cases "ty \<noteq> PT_LOAD \<or> mz = 0")
    case True
    then show ?thesis using run unfolding loadable_def ph if_P [OF True]
      by (auto simp: andthen_done demand_done elf_nat_done)
  next
    case False
    then have t: "ty = PT_LOAD" "mz \<noteq> 0" "PT_LOAD \<noteq> PT_PHDR" by (simp_all add: PT_LOAD_def PT_PHDR_def)
    define sec where "sec = \<lparr>x_name = ''.elf.'' @ decimal loads, x_flg = seg_flags fl, x_align = al1, x_data = take fz (drop off b), x_size = mz, x_addr = va\<rparr>"
    note run = run [unfolded t(1) if_not_P [OF t(3)]]
    have "fz \<le> mz" "off + fz \<le> length b" "0x10000 \<le> va" "va + mz \<le> MAX_MEM" and al0: "\<not> (1 < al0 \<and> \<not> pow2 al0)"
      and out: "a' = (if a = 0 \<and> off \<le> phoff \<and> phoff + 56 * phn \<le> off + fz then va + phoff - off else a)"
        "secs' = secs @ [sec]" "en' = max en (va + mz)" "loads' = Suc loads"
      using run by (simp_all add: t andthen_done demand_done elf_nat_done not_less sec_def d2(1))
    moreover have "al1 = gcd va (min (if al0 = 0 then 1 else al0) 65536)" using asked_align [OF al0] fit_align_gcd by (metis d2(1))
    then have "declared b (loads, i) = sec" by (simp add: declared_def ph sec_def seg_rights)
    moreover have "loadable b i" by (simp add: loadable_def ph t)
    ultimately show ?thesis using al t by (simp add: sec_ok_def sec_def ph flip: d2(2))
  qed
qed

text \<open>The program headers are found in memory where a section holds their bytes.\<close>

definition table :: "u8 list \<Rightarrow> u8 list" where
  "table b = take (56 * ehdr ''e_phnum'' b) (drop (ehdr ''e_phoff'' b) b)"

definition holds :: "nat \<Rightarrow> u8 list \<Rightarrow> exe_sec \<Rightarrow> bool" where
  "holds a t s \<longleftrightarrow> x_addr s \<le> a \<and> a + length t \<le> x_addr s + length (x_data s) \<and> take (length t) (drop (a - x_addr s) (x_data s)) = t"

lemma take_drop_within:
  assumes "off \<le> p" "p + z \<le> off + fz" "off + fz \<le> length b"
  shows "take z (drop (p - off) (take fz (drop off b))) = take z (drop p b)"
  using assms by (simp add: drop_take min_def)

lemma elf_segs_run:
  assumes "elf_segs b (le_at b 32 8) 56 (le_at b 56 2) ns (a, secs, en, loads) = Inr (a', secs', en', loads')"
    and "le_at b 32 8 + 56 * le_at b 56 2 \<le> length b"
  defines "new \<equiv> map (declared b) (zip [loads..<loads + length (filter (loadable b) ns)] (filter (loadable b) ns))"
  shows "secs' = secs @ new \<and> loads' = loads + length (filter (loadable b) ns) \<and> (\<forall>s \<in> set new. sec_ok s \<and> x_addr s + x_size s \<le> en') \<and>
    en \<le> en' \<and> (en \<le> MAX_MEM \<longrightarrow> en' \<le> MAX_MEM) \<and>
    ((\<forall>i \<in> set ns. phdr ''p_type'' b i \<noteq> PT_PHDR) \<longrightarrow> (a \<noteq> 0 \<longrightarrow> (\<exists>s \<in> set secs. holds a (table b) s)) \<longrightarrow>
      a' \<noteq> 0 \<longrightarrow> (\<exists>s \<in> set secs'. holds a' (table b) s))"
  using assms(1) unfolding new_def
proof (induction ns arbitrary: a secs en loads)
  case (Cons i ns)
  obtain a1 secs1 en1 loads1 where one: "elf_seg b (le_at b 32 8) 56 (le_at b 56 2) i (a, secs, en, loads) = Inr (a1, secs1, en1, loads1)"
      and rest: "elf_segs b (le_at b 32 8) 56 (le_at b 56 2) ns (a1, secs1, en1, loads1) = Inr (a', secs', en', loads')"
    using Cons.prems by (auto simp: andthen_done)
  note r = elf_seg_run [OF one] and IH = Cons.IH [OF rest]
  show ?case
  proof (cases "loadable b i")
    case True
    let ?s = "declared b (loads, i)"
    have s: "x_addr ?s = phdr ''p_vaddr'' b i" "x_size ?s = phdr ''p_memsz'' b i"
        "x_data ?s = take (phdr ''p_filesz'' b i) (drop (phdr ''p_offset'' b i) b)"
      by (simp_all add: declared_def)
    have r: "secs1 = secs @ [?s]" "loads1 = Suc loads" "sec_ok ?s" "en1 = max en (x_addr ?s + x_size ?s)"
        "phdr ''p_offset'' b i + phdr ''p_filesz'' b i \<le> length b"
        "a1 = (if a = 0 \<and> phdr ''p_offset'' b i \<le> le_at b 32 8 \<and> le_at b 32 8 + 56 * le_at b 56 2 \<le> phdr ''p_offset'' b i + phdr ''p_filesz'' b i
            then phdr ''p_vaddr'' b i + le_at b 32 8 - phdr ''p_offset'' b i else a)"
      using r True s by simp_all
    have len: "length (table b) = 56 * le_at b 56 2" using assms(2) by (simp add: table_def ehdr_places)
    have h: "holds a1 (table b) ?s" if "a1 \<noteq> a"
      using that r(5,6) take_drop_within [of "phdr ''p_offset'' b i" "le_at b 32 8" "56 * le_at b 56 2" "phdr ''p_filesz'' b i" b]
      by (auto simp: holds_def len s min_def table_def ehdr_places split: if_splits)
    define new1 where "new1 = map (declared b) (zip [loads1..<loads1 + length (filter (loadable b) ns)] (filter (loadable b) ns))"
    have new: "map (declared b) (zip [loads..<loads + length (filter (loadable b) (i # ns))] (filter (loadable b) (i # ns))) = ?s # new1"
      using True r(2) by (simp add: new1_def upt_conv_Cons del: upt_Suc)
    have IH: "secs' = secs1 @ new1" "loads' = loads1 + length (filter (loadable b) ns)" "\<forall>s \<in> set new1. sec_ok s \<and> x_addr s + x_size s \<le> en'"
        "en1 \<le> en'" "en1 \<le> MAX_MEM \<Longrightarrow> en' \<le> MAX_MEM"
        "\<forall>i \<in> set ns. phdr ''p_type'' b i \<noteq> PT_PHDR \<Longrightarrow> a1 \<noteq> 0 \<longrightarrow> (\<exists>s \<in> set secs1. holds a1 (table b) s) \<Longrightarrow>
          a' \<noteq> 0 \<Longrightarrow> \<exists>s \<in> set secs'. holds a' (table b) s"
      using IH unfolding new1_def by blast+
    have "x_addr ?s + x_size ?s \<le> MAX_MEM" using r(3) by (simp add: sec_ok_def)
    then have "en1 \<le> MAX_MEM" if "en \<le> MAX_MEM" using r(4) that by simp
    moreover have "a1 \<noteq> 0 \<longrightarrow> (\<exists>s \<in> set secs1. holds a1 (table b) s)" if "a \<noteq> 0 \<longrightarrow> (\<exists>s \<in> set secs. holds a (table b) s)"
      using h that r(1) by (cases "a1 = a") auto
    ultimately show ?thesis unfolding new using IH r(1-4) True by (intro conjI) (auto simp: r(1))
  next
    case False
    then show ?thesis using IH r by auto
  qed
qed simp

text \<open>C21 The executable that the importer makes of a file has exactly the sections that the loadable program headers declare, in their order, with
  the addresses, sizes and contents that the members of \<open>Elf64_Phdr\<close> name, the rights \<open>r\<close>, \<open>w\<close> and \<open>x\<close> for exactly the bits \<open>PF_R\<close>, \<open>PF_W\<close> and
  \<open>PF_X\<close> of its flags, and the alignment that it asks for as far as 64 KiB and the address allow; the entry of \<open>Elf64_Ehdr\<close>, and besides at most a
  read-only copy of the program headers behind them. Only linked executables for RISC-V are taken.\<close>

theorem elf_as_declared:
  assumes "elf_run b = Inr x"
  shows "let L = filter (loadable b) [0..<ehdr ''e_phnum'' b]; secs = map (declared b) (zip [0..<length L] L) in
    ehdr ''e_type'' b = ET_EXEC \<and> ehdr ''e_machine'' b = EM_RISCV \<and> exe_entry x = ehdr ''e_entry'' b \<and>
    exe_phent x = csize Elf64_Phdr \<and> exe_phnum x = ehdr ''e_phnum'' b \<and>
    (exe_sec x = secs \<or> (\<exists>s. exe_sec x = secs @ [s] \<and> x_flg s = ''r'' \<and> x_addr s = exe_phdr x \<and> x_data s = table b \<and>
       (\<forall>q \<in> set secs. x_addr q + x_size q \<le> x_addr s)))"
proof -
  obtain a secs en loads where r: "elf_segs b (le_at b 32 8) 56 (le_at b 56 2) [0..<le_at b 56 2] (0, [], 0, 0) = Inr (a, secs, en, loads)"
      "le_at b 32 8 + 56 * le_at b 56 2 \<le> length b" "le_at b 16 2 = ET_EXEC" "le_at b 18 2 = EM_RISCV" "le_at b 54 2 = 56"
      "x = (if a = 0 then \<lparr>exe_entry = le_at b 24 8, exe_mem = MAX_MEM, exe_phdr = (en + 15) div 16 * 16, exe_phent = 56, exe_phnum = le_at b 56 2,
              exe_sec = secs @ [\<lparr>x_name = ''.elf.phdr'', x_flg = ''r'', x_align = 16, x_data = take (56 * le_at b 56 2) (drop (le_at b 32 8) b),
                x_size = 56 * le_at b 56 2, x_addr = (en + 15) div 16 * 16\<rparr>]\<rparr>
            else \<lparr>exe_entry = le_at b 24 8, exe_mem = MAX_MEM, exe_phdr = a, exe_phent = 56, exe_phnum = le_at b 56 2, exe_sec = secs\<rparr>)"
    using assms by (auto simp: elf_run_def andthen_done demand_done elf_nat_done Let_def split: if_splits)
  have "en \<le> (en + 15) div 16 * 16" by linarith
  then show ?thesis using elf_segs_run [OF r(1,2)] r(3-6)
    by (auto simp: Let_def ehdr_places elf_sizes table_def intro: order_trans)
qed

text \<open>C22 Every section that the importer makes can be loaded: it lies above the first 64 KiB and inside the memory of the machine, is not longer in the
  file than in memory and not empty, and is aligned as it says. The entry is in an executable section. Unless the file
  has a header of its own for them, the program headers are found at the address that the program is told.\<close>

theorem elf_sections_fit:
  assumes "elf_run b = Inr x"
  shows "(\<forall>s \<in> set (exe_sec x). sec_ok s) \<and>
    (\<exists>s \<in> set (exe_sec x). CHR ''x'' \<in> set (x_flg s) \<and> x_addr s \<le> exe_entry x \<and> exe_entry x < x_addr s + x_size s) \<and>
    ((\<forall>i < ehdr ''e_phnum'' b. phdr ''p_type'' b i \<noteq> PT_PHDR) \<longrightarrow> (\<exists>s \<in> set (exe_sec x). holds (exe_phdr x) (table b) s))"
proof -
  let ?en = "\<lambda>en. (en + 15) div 16 * 16 :: nat"
  obtain a secs en loads where r: "elf_segs b (le_at b 32 8) 56 (le_at b 56 2) [0..<le_at b 56 2] (0, [], 0, 0) = Inr (a, secs, en, loads)"
      "le_at b 32 8 + 56 * le_at b 56 2 \<le> length b" "le_at b 56 2 \<noteq> 0" "loads \<noteq> 0"
      "list_ex (\<lambda>s. CHR ''x'' \<in> set (x_flg s) \<and> x_addr s \<le> le_at b 24 8 \<and> le_at b 24 8 < x_addr s + x_size s) secs"
      "exe_entry x = le_at b 24 8" "exe_phdr x = (if a = 0 then ?en en else a)" "a = 0 \<Longrightarrow> ?en en + 56 * le_at b 56 2 \<le> MAX_MEM"
      "exe_sec x = secs @ (if a = 0 then [\<lparr>x_name = ''.elf.phdr'', x_flg = ''r'', x_align = 16, x_data = take (56 * le_at b 56 2) (drop (le_at b 32 8) b),
                x_size = 56 * le_at b 56 2, x_addr = ?en en\<rparr>] else [])"
    using assms by (auto simp: elf_run_def andthen_done demand_done elf_nat_done Let_def split: if_splits)
  note segs = elf_segs_run [OF r(1,2)]
  have ok: "\<forall>s \<in> set secs. sec_ok s \<and> x_addr s + x_size s \<le> en" using segs by simp
  have "secs \<noteq> []" using r(5) by auto
  then have "0x10000 \<le> en" using ok by (cases secs) (auto simp: sec_ok_def)
  moreover have "en \<le> ?en en" by linarith
  ultimately have "0x10000 \<le> ?en en" by linarith
  then have "\<forall>s \<in> set (exe_sec x). sec_ok s" using ok r(2,3,8,9) by (auto simp: sec_ok_def)
  moreover have "\<exists>s \<in> set (exe_sec x). CHR ''x'' \<in> set (x_flg s) \<and> x_addr s \<le> exe_entry x \<and> exe_entry x < x_addr s + x_size s"
    using r(5,6,9) by (auto simp: list_ex_iff)
  moreover have "\<exists>s \<in> set (exe_sec x). holds (exe_phdr x) (table b) s" if "\<forall>i < ehdr ''e_phnum'' b. phdr ''p_type'' b i \<noteq> PT_PHDR"
  proof (cases "a = 0")
    case True
    then show ?thesis using r(2,7,9) by (auto simp: holds_def table_def ehdr_places)
  next
    case False
    have "\<exists>s \<in> set secs. holds a (table b) s" using segs that False by (auto simp: ehdr_places)
    then show ?thesis using r(7,9) False by auto
  qed
  ultimately show ?thesis by blast
qed

text \<open>An example: a file with one segment, which holds the whole file.\<close>

definition small_elf :: "u8 list" where
  "small_elf =
     [127, 69, 76, 70, 2, 1, 1, 0, 0, 0, 0, 0, 0, 0, 0, 0, 2, 0, 243, 0, 1, 0, 0, 0, 120, 0, 1, 0, 0, 0, 0, 0, 64,
      0, 0, 0, 0, 0, 0, 0, 0, 0, 0, 0, 0, 0, 0, 0, 0, 0, 0, 0, 64, 0, 56, 0, 1, 0, 0, 0, 0, 0, 0, 0, 1, 0, 0, 0, 5,
      0, 0, 0, 0, 0, 0, 0, 0, 0, 0, 0, 0, 0, 1, 0, 0, 0, 0, 0, 0, 0, 1, 0, 0, 0, 0, 0, 124, 0, 0, 0, 0, 0, 0, 0,
      200, 0, 0, 0, 0, 0, 0, 0, 0, 16, 0, 0, 0, 0, 0, 0, 115, 0, 0, 0]"

lemma le_at_is: "k + n \<le> length b \<Longrightarrow> n \<le> 8 \<Longrightarrow> take n (drop k b) = int_bytes n v \<Longrightarrow> le_at b k n = nat (take_bit (8 * n) v)"
  using num_bytes [of "(!) b" k n v] by (simp add: le_at_def list_bytes)

lemma small_bytes:
  "take 2 (drop 16 small_elf) = int_bytes 2 2"
  "take 2 (drop 18 small_elf) = int_bytes 2 243"
  "take 4 (drop 20 small_elf) = int_bytes 4 1"
  "take 8 (drop 24 small_elf) = int_bytes 8 65656"
  "take 8 (drop 32 small_elf) = int_bytes 8 64"
  "take 2 (drop 52 small_elf) = int_bytes 2 64"
  "take 2 (drop 54 small_elf) = int_bytes 2 56"
  "take 2 (drop 56 small_elf) = int_bytes 2 1"
  "take 4 (drop 64 small_elf) = int_bytes 4 1"
  "take 4 (drop 68 small_elf) = int_bytes 4 5"
  "take 8 (drop 72 small_elf) = int_bytes 8 0"
  "take 8 (drop 80 small_elf) = int_bytes 8 65536"
  "take 8 (drop 96 small_elf) = int_bytes 8 124"
  "take 8 (drop 104 small_elf) = int_bytes 8 200"
  "take 8 (drop 112 small_elf) = int_bytes 8 4096"
  by code_simp+

lemma small_length: "length small_elf = 124"
  by (simp add: small_elf_def)

lemma small_places:
  "le_at small_elf 16 2 = 2"
  "le_at small_elf 18 2 = 243"
  "le_at small_elf 20 4 = 1"
  "le_at small_elf 24 8 = 65656"
  "le_at small_elf 32 8 = 64"
  "le_at small_elf 52 2 = 64"
  "le_at small_elf 54 2 = 56"
  "le_at small_elf 56 2 = 1"
  "le_at small_elf 64 4 = 1"
  "le_at small_elf 68 4 = 5"
  "le_at small_elf 72 8 = 0"
  "le_at small_elf 80 8 = 65536"
  "le_at small_elf 96 8 = 124"
  "le_at small_elf 104 8 = 200"
  "le_at small_elf 112 8 = 4096"
  using small_bytes [THEN le_at_is [rotated 2]] by (simp_all add: small_length take_bit_eq_mod)

lemma small_elf_run: "elf_run small_elf =
    Inr \<lparr>exe_entry = 65656, exe_mem = 1099511627776, exe_phdr = 65600, exe_phent = 56, exe_phnum = 1,
      exe_sec = [\<lparr>x_name = ''.elf.0'', x_flg = ''rx'', x_align = 4096, x_data = small_elf, x_size = 200, x_addr = 65536\<rparr>]\<rparr>"
proof -
  have "fit_align 65536 4096 = 4096" by (subst fit_align.simps) simp
  moreover have "char_of (48 :: nat) = CHR ''0''" by code_simp
  then have "decimal 0 = ''0''" by (subst decimal.simps) simp
  moreover have "seg_flags 5 = ''rx''" "pow2 4096" by (simp_all add: seg_flags_def PF_R_def PF_W_def PF_X_def pow2_def)
  moreover have "take 4 small_elf = [0x7f, 0x45, 0x4c, 0x46]" "small_elf ! 4 = 2" "small_elf ! 5 = 1" "small_elf ! 6 = 1"
    by (simp_all add: small_elf_def)
  ultimately show ?thesis
    by (simp add: elf_run_def isElf_def EI_NIDENT_def small_length small_places elf_nat_def demand_def andthen_def elf_seg_def Let_def ET_EXEC_def
        EM_RISCV_def PT_LOAD_def PT_DYNAMIC_def PT_INTERP_def PT_PHDR_def MAX_MEM_def)
qed

theorem elf_as_declared_witness: "65656 = ehdr ''e_entry'' small_elf"
  using elf_as_declared [OF small_elf_run] by (simp add: Let_def)

theorem elf_sections_fit_witness:
  "sec_ok \<lparr>x_name = ''.elf.0'', x_flg = ''rx'', x_align = 4096, x_data = small_elf, x_size = 200, x_addr = 65536\<rparr>"
  using elf_sections_fit [OF small_elf_run] by simp

end
