(* ===== verification/RvLoad.thy ===== *)
theory RvLoad
  imports GuestAbi Elf
begin

text \<open>
  The start of a guest program: \<open>run\<close> up to its loop, with \<open>stack\<close> (\<^verbatim>\<open>src/src/vm/rv64.ts\<close>). The sections of an executable
  go to memory, the strings of the environment and of the arguments, random bytes and the table of the arguments to the top of the
  stack. The auxiliary values are named by \<^verbatim>\<open>elf.h\<close>.
\<close>

section \<open>Sections\<close>

record limits =
  l_mem :: nat
  l_stack :: int

definition fresh_rv :: "mem \<Rightarrow> rv" where
  "fresh_rv m =
     \<lparr>r_x = replicate 32 0, r_f = replicate 32 0, r_m = m, r_pc = 0, r_floor = 0, r_brk = 0, r_stackAt = 0, r_res = - 1, r_fcsr = 0,
      r_mapAt = 0, r_maps = [], r_seg = [], r_eat = 0, r_eend = 0\<rparr>"

definition seg_of_sec :: "exe_sec \<Rightarrow> rv_seg" where
  "seg_of_sec q = \<lparr>s_name = x_name q, s_at = int (x_addr q), s_end = int (x_addr q) + int (x_size q), s_flg = x_flg q\<rparr>"

text \<open>The ranges in \<open>seen\<close> are those of the segments so far. An alignment of 0 is no alignment (the remainder is not a number).\<close>

definition load_sec :: "exe_sec \<Rightarrow> (rv, unit) kop" where
  "load_sec q =
     (let s = seg_of_sec q in
      bnd (asks (\<lambda>r. (m_top (r_m r), r_seg r))) (\<lambda>(mtop, segs).
      bnd (check (\<not> (x_addr q < 0x10000 \<or> x_align q \<noteq> 0 \<and> x_addr q mod x_align q \<noteq> 0 \<or> mtop < s_end s \<or> x_size q < length (x_data q))) ENOEXEC) (\<lambda>_.
      bnd (check (\<not> list_ex (\<lambda>p. s_at s < s_end p \<and> s_at p < s_end s) segs) ENOEXEC) (\<lambda>_.
      bnd (modify (\<lambda>r. r\<lparr>r_seg := r_seg r @ [s]\<rparr>)) (\<lambda>_.
      bnd (on_mem (mem_write (s_at s) (x_data q))) (\<lambda>_.
      modify (\<lambda>r. r\<lparr>r_floor := (if r_floor r < s_end s then s_end s else r_floor r)\<rparr>)))))))"

definition load_image :: "exe \<Rightarrow> (rv, unit) kop" where
  "load_image x =
     bnd (mapk load_sec (exe_sec x)) (\<lambda>_.
     modify (\<lambda>r. r\<lparr>r_brk := al (r_floor r), r_mapAt := 0x4000000000, r_pc := int (exe_entry x)\<rparr>))"

section \<open>The stack\<close>

definition AT_NULL :: int where "AT_NULL = 0"
definition AT_PHDR :: int where "AT_PHDR = 3"
definition AT_PHENT :: int where "AT_PHENT = 4"
definition AT_PHNUM :: int where "AT_PHNUM = 5"
definition AT_PAGESZ :: int where "AT_PAGESZ = 6"
definition AT_BASE :: int where "AT_BASE = 7"
definition AT_FLAGS :: int where "AT_FLAGS = 8"
definition AT_ENTRY :: int where "AT_ENTRY = 9"
definition AT_UID :: int where "AT_UID = 11"
definition AT_EUID :: int where "AT_EUID = 12"
definition AT_GID :: int where "AT_GID = 13"
definition AT_EGID :: int where "AT_EGID = 14"
definition AT_SECURE :: int where "AT_SECURE = 23"
definition AT_RANDOM :: int where "AT_RANDOM = 25"
definition AT_EXECFN :: int where "AT_EXECFN = 31"

definition put_str :: "string \<Rightarrow> int \<Rightarrow> (host, int) kop" where
  "put_str s sp =
     (let b = enc s @ [0]; sp = sp - int (length b) in
      bnd (asks (\<lambda>h. r_stackAt (h_rv h))) (\<lambda>st.
      bnd (check (\<not> sp < st) EFBIG) (\<lambda>_.
      bnd (on_rv (on_mem (mem_write sp b))) (\<lambda>_. ret sp))))"

text \<open>The addresses of strings that are put below each other, and the stack pointer after them.\<close>

fun put_strs :: "string list \<Rightarrow> int \<Rightarrow> (host, int list \<times> int) kop" where
  "put_strs [] sp = ret ([], sp)"
| "put_strs (s # ss) sp = bnd (put_str s sp) (\<lambda>p. bnd (put_strs ss p) (\<lambda>(ps, sp). ret (p # ps, sp)))"

definition aux_words :: "exe \<Rightarrow> int \<Rightarrow> int \<Rightarrow> int \<Rightarrow> int \<Rightarrow> (int \<times> int) list" where
  "aux_words x uid gid rnd exec =
     [(3, int (exe_phdr x)), (4, int (exe_phent x)), (5, int (exe_phnum x)), (6, PAGE), (7, 0), (8, 0), (9, int (exe_entry x)),
      (11, uid), (12, uid), (13, gid), (14, gid), (23, 0), (25, rnd), (31, exec), (0, 0)]"

definition word_fields :: "int list \<Rightarrow> (int \<times> nat \<times> int) list" where
  "word_fields ws = map (\<lambda>(i, v). (8 * int i, 8, v)) (enumerate 0 ws)"

definition stack :: "world \<Rightarrow> int \<Rightarrow> exe \<Rightarrow> string list \<Rightarrow> (host, unit) kop" where
  "stack w lstack x argv =
     bnd (me (\<lambda>p. (map (\<lambda>(k, v). k @ ''='' @ v) (p_env p), s_ruid p, s_rgid p))) (\<lambda>(env, uid, gid).
     bnd (asks (\<lambda>h. m_top (r_m (h_rv h)))) (\<lambda>mtop.
     bnd (on_rv (modify (\<lambda>r. r\<lparr>r_stackAt := mtop - max (1024 * 1024) lstack\<rparr>))) (\<lambda>_.
     bnd (put_strs env (mtop - 16)) (\<lambda>(ep, sp).
     bnd (put_strs argv sp) (\<lambda>(ap, sp).
     bnd (case ap of p # _ \<Rightarrow> ret (p, sp) | [] \<Rightarrow> bnd (put_str (case argv of a # _ \<Rightarrow> a | [] \<Rightarrow> []) sp) (\<lambda>p. ret (p, p))) (\<lambda>(exec, sp).
     let rnd = sp - 16 in
     bnd (guest_chk rnd 16 True) (\<lambda>_.
     bnd (on_rv (on_mem (mem_write rnd (map (w_rand w) [0..<16])))) (\<lambda>_.
     let ws = [int (length ap)] @ ap @ [0] @ ep @ [0] @ concat (map (\<lambda>(k, v). [k, v]) (aux_words x uid gid rnd exec));
         sp = ((rnd AND - 16) - int (8 * length ws)) AND - 16 in
     bnd (asks (\<lambda>h. (r_stackAt (h_rv h), r_brk (h_rv h)))) (\<lambda>(st, brk).
     bnd (check (\<not> (sp < st \<or> sp < brk + MB)) ENOMEM) (\<lambda>_.
     bnd (put_fields sp (word_fields ws)) (\<lambda>_.
     on_rv (modify (\<lambda>r. r\<lparr>r_x := (r_x r)[2 := of_int sp]\<rparr>)))))))))))))"

text \<open>\<open>run\<close> up to the loop: a new machine, the sections, the stack.\<close>

definition run_start :: "world \<Rightarrow> limits \<Rightarrow> exe \<Rightarrow> string list \<Rightarrow> (host, unit) kop" where
  "run_start w lm x argv =
     bnd (of_result (new_mem (int (exe_mem x)) (l_mem lm))) (\<lambda>m.
     bnd (modify (\<lambda>h. h\<lparr>h_rv := fresh_rv m, h_done := False, h_code := 0, h_socks := [], h_ins := []\<rparr>)) (\<lambda>_.
     bnd (on_rv (load_image x)) (\<lambda>_.
     stack w (l_stack lm) x argv)))"

section \<open>Loaded sections\<close>

definition apart_segs :: "rv_seg list \<Rightarrow> bool" where
  "apart_segs ss \<longleftrightarrow> sorted_wrt (\<lambda>p q. s_end p \<le> s_at q \<or> s_end q \<le> s_at p) ss"

definition in_data :: "exe_sec \<Rightarrow> nat \<Rightarrow> bool" where
  "in_data q a \<longleftrightarrow> x_addr q \<le> a \<and> a < x_addr q + length (x_data q)"

lemma check_done: "check b e s = (Inr u, s') \<longleftrightarrow> b \<and> s' = s"
  by (auto simp: check_def ret_def bad_def)

lemma on_mem_done: "on_mem g r = (Inr u, r') \<longleftrightarrow> (\<exists>m'. g (r_m r) = (Inr u, m') \<and> r' = r\<lparr>r_m := m'\<rparr>)"
  by (auto simp: on_mem_def split: prod.splits)

lemma load_sec_run:
  assumes "load_sec q r = (Inr u, r')" "mem_ok (r_m r)"
  shows "mem_ok (r_m r') \<and> m_top (r_m r') = m_top (r_m r) \<and> m_cap (r_m r') = m_cap (r_m r) \<and> 0x10000 \<le> x_addr q \<and>
    int (x_addr q) + int (x_size q) \<le> m_top (r_m r) \<and> length (x_data q) \<le> x_size q \<and>
    (\<forall>p \<in> set (r_seg r). s_end p \<le> int (x_addr q) \<or> int (x_addr q) + int (x_size q) \<le> s_at p) \<and>
    byte (r_m r') = flat_write (x_addr q) (x_data q) (byte (r_m r)) \<and>
    r' = r\<lparr>r_m := r_m r', r_seg := r_seg r @ [seg_of_sec q], r_floor := max (r_floor r) (int (x_addr q) + int (x_size q))\<rparr>"
proof -
  obtain m' where c: "\<not> (x_addr q < 0x10000 \<or> x_align q \<noteq> 0 \<and> x_addr q mod x_align q \<noteq> 0 \<or> m_top (r_m r) < s_end (seg_of_sec q) \<or> x_size q < length (x_data q))"
      "\<not> list_ex (\<lambda>p. s_at (seg_of_sec q) < s_end p \<and> s_at p < s_end (seg_of_sec q)) (r_seg r)"
      and w: "mem_write (s_at (seg_of_sec q)) (x_data q) (r_m r) = (Inr (), m')"
      and r': "r' = r\<lparr>r_m := m', r_seg := r_seg r @ [seg_of_sec q], r_floor := (if r_floor r < s_end (seg_of_sec q) then s_end (seg_of_sec q) else r_floor r)\<rparr>"
    using assms(1) by (auto simp: load_sec_def Let_def bnd_done asks_def check_done modify_def on_mem_done)
  show ?thesis
    using c wr.over [OF assms(2) w] wr.same [OF assms(2), of "s_at (seg_of_sec q)" "x_data q"] w r'
    by (auto simp: seg_of_sec_def list_ex_iff max_def not_less not_le)
qed

definition sec_end :: "exe_sec \<Rightarrow> int" where "sec_end q = int (x_addr q) + int (x_size q)"

definition fits :: "rv \<Rightarrow> exe_sec \<Rightarrow> bool" where
  "fits r q \<longleftrightarrow> 0x10000 \<le> x_addr q \<and> sec_end q \<le> m_top (r_m r) \<and> length (x_data q) \<le> x_size q \<and> sec_end q \<le> r_floor r"

lemma load_secs_run:
  assumes "mapk load_sec qs r = (Inr us, r')" "mem_ok (r_m r)"
  shows "mem_ok (r_m r') \<and> m_top (r_m r') = m_top (r_m r) \<and> m_cap (r_m r') = m_cap (r_m r) \<and> r_floor r \<le> r_floor r' \<and>
    r' = r\<lparr>r_m := r_m r', r_seg := r_seg r @ map seg_of_sec qs, r_floor := r_floor r'\<rparr> \<and>
    (\<forall>q \<in> set qs. fits r' q \<and> (\<forall>p \<in> set (r_seg r). s_end p \<le> int (x_addr q) \<or> sec_end q \<le> s_at p)) \<and>
    (r_floor r \<le> m_top (r_m r) \<longrightarrow> r_floor r' \<le> m_top (r_m r)) \<and>
    (apart_segs (r_seg r) \<longrightarrow> apart_segs (r_seg r')) \<and>
    (\<forall>a. (\<forall>q \<in> set qs. \<not> in_data q a) \<longrightarrow> byte (r_m r') a = byte (r_m r) a) \<and>
    (\<forall>q \<in> set qs. \<forall>i < length (x_data q). byte (r_m r') (x_addr q + i) = x_data q ! i)"
  using assms
proof (induction qs arbitrary: r us)
  case (Cons q qs)
  obtain r1 us1 where one: "load_sec q r = (Inr (), r1)" and rest: "mapk load_sec qs r1 = (Inr us1, r')"
    using Cons.prems(1) by (auto simp: bnd_done ret_def)
  note s = load_sec_run [OF one Cons.prems(2)]
  have seg: "r_seg r1 = r_seg r @ [seg_of_sec q]" "r_floor r1 = max (r_floor r) (sec_end q)"
    by (subst s [THEN conjunct2, THEN conjunct2, THEN conjunct2, THEN conjunct2, THEN conjunct2, THEN conjunct2, THEN conjunct2, THEN conjunct2],
        simp add: sec_end_def)+
  have m1: "mem_ok (r_m r1)" "m_top (r_m r1) = m_top (r_m r)" "m_cap (r_m r1) = m_cap (r_m r)"
    and b1: "byte (r_m r1) = flat_write (x_addr q) (x_data q) (byte (r_m r))"
    and r1: "r1 = r\<lparr>r_m := r_m r1, r_seg := r_seg r @ [seg_of_sec q], r_floor := max (r_floor r) (int (x_addr q) + int (x_size q))\<rparr>"
    and c: "0x10000 \<le> x_addr q" "int (x_addr q) + int (x_size q) \<le> m_top (r_m r)" "length (x_data q) \<le> x_size q"
      "\<And>p. p \<in> set (r_seg r) \<Longrightarrow> s_end p \<le> int (x_addr q) \<or> int (x_addr q) + int (x_size q) \<le> s_at p"
    using s by blast+
  note IH = Cons.IH [OF rest m1(1)]
  have later: "\<And>p. p \<in> set qs \<Longrightarrow> fits r' p" "\<And>p x. p \<in> set qs \<Longrightarrow> x \<in> set (r_seg r1) \<Longrightarrow> s_end x \<le> int (x_addr p) \<or> sec_end p \<le> s_at x"
    using IH by blast+
  have "byte (r_m r') (x_addr q + i) = x_data q ! i" if i: "i < length (x_data q)" for i
  proof -
    have "\<not> in_data p (x_addr q + i)" if p: "p \<in> set qs" for p
      using later(2) [OF p, of "seg_of_sec q"] later(1) [OF p] i c(3) seg(1)
      by (auto simp: in_data_def seg_of_sec_def sec_end_def fits_def)
    then have "byte (r_m r') (x_addr q + i) = byte (r_m r1) (x_addr q + i)" using IH by blast
    then show ?thesis using i by (simp add: b1 flat_write_def)
  qed
  moreover have "fits r' q" using c IH seg(2) m1(2) by (auto simp: fits_def sec_end_def)
  moreover have "apart_segs (r_seg r1)" if "apart_segs (r_seg r)"
    using that c(4) by (auto simp: apart_segs_def seg(1) sorted_wrt_append seg_of_sec_def)
  moreover have "r' = r\<lparr>r_m := r_m r', r_seg := r_seg r @ map seg_of_sec (q # qs), r_floor := r_floor r'\<rparr>"
  proof -
    have "r' = r1\<lparr>r_m := r_m r', r_seg := r_seg r1 @ map seg_of_sec qs, r_floor := r_floor r'\<rparr>" using IH by blast
    also have "\<dots> = r\<lparr>r_m := r_m r', r_seg := r_seg r @ map seg_of_sec (q # qs), r_floor := r_floor r'\<rparr>" by (subst (1) r1) (simp add: seg)
    finally show ?thesis .
  qed
  moreover have "byte (r_m r') a = byte (r_m r) a" if a: "\<forall>p \<in> set (q # qs). \<not> in_data p a" for a
  proof -
    have "byte (r_m r') a = byte (r_m r1) a" using IH a by simp
    then show ?thesis using a by (auto simp: b1 flat_write_def in_data_def)
  qed
  moreover have "r_floor r1 \<le> m_top (r_m r1)" if "r_floor r \<le> m_top (r_m r)" using that c(2) by (simp add: seg m1 sec_end_def)
  ultimately show ?case using IH later seg m1 c(4) by (auto simp: sec_end_def)
qed (simp add: ret_def)

section \<open>Strings\<close>

text \<open>What an operation on the stack leaves: everything but bytes in a range.\<close>

definition wrote :: "int \<Rightarrow> int \<Rightarrow> host \<Rightarrow> host \<Rightarrow> bool" where
  "wrote lo hi h h' \<longleftrightarrow> h' = h\<lparr>h_rv := (h_rv h)\<lparr>r_m := r_m (h_rv h')\<rparr>\<rparr> \<and> mem_ok (r_m (h_rv h')) \<and>
     m_top (r_m (h_rv h')) = m_top (r_m (h_rv h)) \<and> m_cap (r_m (h_rv h')) = m_cap (r_m (h_rv h)) \<and>
     (\<forall>a. \<not> (lo \<le> int a \<and> int a < hi) \<longrightarrow> byte (r_m (h_rv h')) a = byte (r_m (h_rv h)) a)"

lemma wrote_refl: "mem_ok (r_m (h_rv h)) \<Longrightarrow> wrote lo hi h h"
  by (simp add: wrote_def)

lemma wrote_trans: "wrote lo hi h h1 \<Longrightarrow> wrote lo hi h1 h2 \<Longrightarrow> wrote lo hi h h2"
proof -
  assume a: "wrote lo hi h h1" "wrote lo hi h1 h2"
  have "h2 = h1\<lparr>h_rv := (h_rv h1)\<lparr>r_m := r_m (h_rv h2)\<rparr>\<rparr>" using a(2) by (simp add: wrote_def)
  also have "\<dots> = h\<lparr>h_rv := (h_rv h)\<lparr>r_m := r_m (h_rv h2)\<rparr>\<rparr>"
  proof -
    have e: "h1 = h\<lparr>h_rv := (h_rv h)\<lparr>r_m := r_m (h_rv h1)\<rparr>\<rparr>" using a(1) by (simp add: wrote_def)
    show ?thesis by (subst (1 2) e) simp
  qed
  finally show ?thesis using a by (simp add: wrote_def)
qed

lemma wrote_wider: "wrote lo hi h h' \<Longrightarrow> lo' \<le> lo \<Longrightarrow> hi \<le> hi' \<Longrightarrow> wrote lo' hi' h h'"
  unfolding wrote_def by (metis order_trans order_less_le_trans)

lemma wrote_rest: "wrote lo hi h h' \<Longrightarrow> r_stackAt (h_rv h') = r_stackAt (h_rv h) \<and> r_brk (h_rv h') = r_brk (h_rv h)"
proof -
  have "r_stackAt (h_rv h') = r_stackAt (h_rv h) \<and> r_brk (h_rv h') = r_brk (h_rv h)" if "h' = h\<lparr>h_rv := (h_rv h)\<lparr>r_m := m\<rparr>\<rparr>" for m
    using that by simp
  then show "wrote lo hi h h' \<Longrightarrow> ?thesis" unfolding wrote_def by blast
qed

lemma wrote_bytes:
  assumes "wrote lo hi h h'" "0 \<le> p" "p + int n \<le> lo \<or> hi \<le> p"
  shows "at_bytes (byte (r_m (h_rv h'))) (nat p) n = at_bytes (byte (r_m (h_rv h))) (nat p) n"
  unfolding at_bytes_def
proof (rule map_cong [OF refl])
  fix i assume "i \<in> set [0..<n]"
  then have "\<not> (lo \<le> int (nat p + i) \<and> int (nat p + i) < hi)" using assms(2,3) by auto
  then show "byte (r_m (h_rv h')) (nat p + i) = byte (r_m (h_rv h)) (nat p + i)" using assms(1) by (simp add: wrote_def)
qed

lemma write_wrote:
  assumes "on_rv (on_mem (mem_write a b)) h = (Inr u, h')" "mem_ok (r_m (h_rv h))"
  shows "wrote a (a + int (length b)) h h' \<and> 0 \<le> a \<and> at_bytes (byte (r_m (h_rv h'))) (nat a) (length b) = b"
proof -
  obtain x m' where w: "mem_write a b (r_m (h_rv h)) = (x, m')" by fastforce
  then have x: "x = Inr ()" "h' = h\<lparr>h_rv := (h_rv h)\<lparr>r_m := m'\<rparr>\<rparr>" using assms(1) by (simp_all add: on_rv_run on_mem_run)
  note o1 = wr.over [OF assms(2) w [unfolded x]] and s = wr.same [OF assms(2), of a b]
  have "0 \<le> a" using o1 by (simp add: in_range_def)
  then show ?thesis using o1 s w x flat_same [of "nat a" b] by (auto simp: wrote_def flat_write_def)
qed

definition zstr :: "host \<Rightarrow> int \<Rightarrow> string \<Rightarrow> bool" where
  "zstr h p s \<longleftrightarrow> 0 \<le> p \<and> at_bytes (byte (r_m (h_rv h))) (nat p) (length (enc s) + 1) = enc s @ [0]"

lemma zstr_wrote: "zstr h p s \<Longrightarrow> wrote lo hi h h' \<Longrightarrow> p + int (length (enc s) + 1) \<le> lo \<or> hi \<le> p \<Longrightarrow> zstr h' p s"
  unfolding zstr_def using wrote_bytes by metis

lemma put_str_run:
  assumes "put_str s sp h = (Inr p, h')" "mem_ok (r_m (h_rv h))"
  shows "p = sp - int (length (enc s) + 1) \<and> r_stackAt (h_rv h) \<le> p \<and> wrote p sp h h' \<and> zstr h' p s"
proof -
  let ?b = "enc s @ [0]"
  have w: "on_rv (on_mem (mem_write (sp - int (length ?b)) ?b)) h = (Inr (), h')" and p: "p = sp - int (length ?b)" "\<not> p < r_stackAt (h_rv h)"
    using assms(1) by (auto simp: put_str_def Let_def bnd_done asks_def check_done ret_def)
  show ?thesis using write_wrote [OF w assms(2)] p by (auto simp: zstr_def)
qed

lemma put_strs_run:
  assumes "put_strs ss sp h = (Inr (ps, q), h')" "mem_ok (r_m (h_rv h))"
  shows "q \<le> sp \<and> wrote q sp h h' \<and> length ps = length ss \<and>
    (\<forall>i < length ss. zstr h' (ps ! i) (ss ! i) \<and> q \<le> ps ! i \<and> ps ! i + int (length (enc (ss ! i)) + 1) \<le> sp)"
  using assms
proof (induction ss arbitrary: sp h ps)
  case Nil
  then show ?case using wrote_refl by (auto simp: ret_def)
next
  case (Cons s ss)
  obtain p h1 ps1 where one: "put_str s sp h = (Inr p, h1)" and rest: "put_strs ss p h1 = (Inr (ps1, q), h')" and ps: "ps = p # ps1"
    using Cons.prems(1) by (auto simp: bnd_done ret_def)
  note s = put_str_run [OF one Cons.prems(2)]
  have "mem_ok (r_m (h_rv h1))" using s by (simp add: wrote_def)
  note IH = Cons.IH [OF rest this]
  have "q \<le> p" "p \<le> sp" using IH s by auto
  have "wrote q sp h h1" "wrote q sp h1 h'" using s IH \<open>q \<le> p\<close> \<open>p \<le> sp\<close> wrote_wider by (metis order_refl)+
  then have "wrote q sp h h'" by (rule wrote_trans)
  moreover have "zstr h' p s" using s IH zstr_wrote by blast
  ultimately show ?case using IH s \<open>q \<le> p\<close> \<open>p \<le> sp\<close> by (auto simp: ps nth_Cons split: nat.splits intro: order_trans)
qed

section \<open>The table of the arguments\<close>

lemma and_m16: "n AND - 16 = n - n mod (16 :: int)"
proof -
  have "(- 16 :: int) = NOT (mask 4)" by (simp add: mask_eq_exp_minus_1 not_int_def)
  moreover have "n AND NOT (mask 4) = push_bit 4 (drop_bit 4 n)"
    by (rule bit_eqI) (auto simp: bit_and_iff bit_not_iff bit_mask_iff bit_push_bit_iff bit_drop_bit_eq)
  ultimately show ?thesis by (simp add: push_bit_eq_mult drop_bit_eq_div minus_mod_eq_div_mult)
qed

lemma word_fields: "set (word_fields ws) = {(8 * int i, 8, ws ! i) | i. i < length ws}"
  by (auto simp: word_fields_def in_set_enumerate_eq image_iff)

lemma word_fields_apart: "apart (map (\<lambda>(i, v). (8 * int i, 8, v)) (enumerate k ws))"
  by (induction ws arbitrary: k) (auto simp: in_set_enumerate_eq)

lemma put_fields_frame:
  assumes "put_fields a fs h = (Inr u, h')" "mem_ok (r_m (h_rv h))" "apart fs"
  shows "h' = h\<lparr>h_rv := (h_rv h)\<lparr>r_m := r_m (h_rv h')\<rparr>\<rparr> \<and> m_top (r_m (h_rv h')) = m_top (r_m (h_rv h)) \<and>
    m_cap (r_m (h_rv h')) = m_cap (r_m (h_rv h))"
proof -
  define P where "P s \<longleftrightarrow> (\<exists>m. s = h\<lparr>h_rv := (h_rv h)\<lparr>r_m := m\<rparr>\<rparr> \<and> mem_ok m \<and> m_top m = m_top (r_m (h_rv h)) \<and> m_cap m = m_cap (r_m (h_rv h)))" for s
  have "keeps P (on_rv (on_mem (mem_setN b v z)))" if "0 < z" "z \<le> 8" for b v z
  proof -
    have "mem_ok (snd (mem_setN b v z m)) \<and> m_top (snd (mem_setN b v z m)) = m_top m \<and> m_cap (snd (mem_setN b v z m)) = m_cap m" if "mem_ok m" for m
      using store_spec [OF that _ \<open>0 < z\<close> \<open>z \<le> 8\<close>, of b v] setN_outside [of m b z v] that
      by (cases "in_range m b z") (auto simp: stored_def split: prod.splits sum.splits)
    then show ?thesis by (auto simp: keeps_def P_def on_rv_run on_mem_def split: prod.splits) (metis snd_conv)
  qed
  then have "keeps P (put_fields a fs)"
    unfolding put_fields_def using apart_small [OF assms(3)] by (intro keeps_bnd mapk_keeps keeps_simple) (auto split: prod.split)
  moreover have "P h" unfolding P_def using assms(2) by (intro exI [of _ "r_m (h_rv h)"]) simp
  ultimately have "P h'" using keepsD [of P "put_fields a fs" h] assms(1) by simp
  then show ?thesis by (auto simp: P_def)
qed

lemma put_words_run:
  assumes "put_fields sp (word_fields ws) h = (Inr u, h')" "mem_ok (r_m (h_rv h))"
  shows "wrote sp (sp + 8 * int (length ws)) h h' \<and> (ws \<noteq> [] \<longrightarrow> 0 \<le> sp) \<and>
    (\<forall>i < length ws. c_num (byte (r_m (h_rv h'))) (nat sp + 8 * i) 8 = take_bit 64 (ws ! i))"
proof -
  have ap: "apart (word_fields ws)" by (simp add: word_fields_def word_fields_apart)
  note r = put_fields_run [OF assms ap] and f = put_fields_frame [OF assms ap]
  have b: "0 \<le> sp + 8 * int i \<and> at_bytes (byte (r_m (h_rv h'))) (nat (sp + 8 * int i)) 8 = int_bytes 8 (ws ! i)" if "i < length ws" for i
    using r(2) [of "8 * int i" 8 "ws ! i"] that by (auto simp: word_fields)
  have pos: "0 \<le> sp" if "ws \<noteq> []" using b [of 0] that by simp
  have "c_num (byte (r_m (h_rv h'))) (nat sp + 8 * i) 8 = take_bit 64 (ws ! i)" if i: "i < length ws" for i
  proof -
    have "ws \<noteq> []" using i by auto
    then have "nat (sp + 8 * int i) = nat sp + 8 * i" using pos by (simp add: nat_add_distrib nat_mult_distrib)
    then show ?thesis using b [OF i] num_bytes [of "byte (r_m (h_rv h'))" "nat sp + 8 * i" 8 "ws ! i"] by simp
  qed
  moreover have "byte (r_m (h_rv h')) a = byte (r_m (h_rv h)) a" if "\<not> (sp \<le> int a \<and> int a < sp + 8 * int (length ws))" for a
    using that by (intro r(3)) (auto simp: word_fields)
  ultimately show ?thesis using f r(1) pos by (auto simp: wrote_def)
qed

text \<open>The auxiliary values by their names, with what \<^verbatim>\<open>linux/auxvec.h\<close> says that they are: the real and the effective identities,
  and whether the program has rights that its user has not.\<close>

definition set_id :: "proc \<Rightarrow> bool" where
  "set_id p \<longleftrightarrow> s_euid p \<noteq> s_ruid p \<or> s_egid p \<noteq> s_rgid p"

definition elf_aux :: "exe \<Rightarrow> proc \<Rightarrow> int \<Rightarrow> int \<Rightarrow> (int \<times> int) list" where
  "elf_aux x p rnd exec =
     [(AT_PHDR, int (exe_phdr x)), (AT_PHENT, int (exe_phent x)), (AT_PHNUM, int (exe_phnum x)), (AT_PAGESZ, 4096), (AT_BASE, 0), (AT_FLAGS, 0),
      (AT_ENTRY, int (exe_entry x)), (AT_UID, s_ruid p), (AT_EUID, s_euid p), (AT_GID, s_rgid p), (AT_EGID, s_egid p),
      (AT_SECURE, if set_id p then 1 else 0), (AT_RANDOM, rnd), (AT_EXECFN, exec), (AT_NULL, 0)]"

text \<open>What a program is told: all of that, but for a program with the identity of another the three values that should show it do not.\<close>

definition told :: "exe \<Rightarrow> proc \<Rightarrow> int \<Rightarrow> int \<Rightarrow> (int \<times> int) list \<Rightarrow> bool" where
  "told x p rnd exec av \<longleftrightarrow>
     (if set_id p
      then map fst av = map fst (elf_aux x p rnd exec) \<and>
        filter (\<lambda>(k, v). k \<notin> {AT_EUID, AT_EGID, AT_SECURE}) av = filter (\<lambda>(k, v). k \<notin> {AT_EUID, AT_EGID, AT_SECURE}) (elf_aux x p rnd exec) \<and>
        {(AT_EUID, s_ruid p), (AT_EGID, s_rgid p), (AT_SECURE, 0)} \<subseteq> set av
      else av = elf_aux x p rnd exec)"

lemmas at_defs = AT_PHDR_def AT_PHENT_def AT_PHNUM_def AT_PAGESZ_def AT_BASE_def AT_FLAGS_def AT_ENTRY_def AT_UID_def
      AT_EUID_def AT_GID_def AT_EGID_def AT_SECURE_def AT_RANDOM_def AT_EXECFN_def AT_NULL_def

lemma aux_told: "told x p rnd exec (aux_words x (s_ruid p) (s_rgid p) rnd exec)"
  by (simp add: told_def aux_words_def elf_aux_def set_id_def at_defs PAGE_def)

definition environment :: "proc \<Rightarrow> string list" where "environment p = map (\<lambda>(k, v). k @ ''='' @ v) (p_env p)"

definition table_words :: "int list \<Rightarrow> int list \<Rightarrow> (int \<times> int) list \<Rightarrow> int list" where
  "table_words ap ep av = [int (length ap)] @ ap @ [0] @ ep @ [0] @ concat (map (\<lambda>(k, v). [k, v]) av)"

definition table_at :: "host \<Rightarrow> int \<Rightarrow> int list \<Rightarrow> bool" where
  "table_at h sp ws \<longleftrightarrow> 0 \<le> sp \<and> (\<forall>i < length ws. c_num (byte (r_m (h_rv h))) (nat sp + 8 * i) 8 = take_bit 64 (ws ! i))"

definition arguments_at :: "world \<Rightarrow> exe \<Rightarrow> proc \<Rightarrow> string list \<Rightarrow> host \<Rightarrow> int \<Rightarrow> bool" where
  "arguments_at w x p argv h sp \<longleftrightarrow> (\<exists>ap ep av rnd exec.
     table_at h sp (table_words ap ep av) \<and> told x p rnd exec av \<and> list_all2 (zstr h) ap argv \<and> list_all2 (zstr h) ep (environment p) \<and>
     zstr h exec (case argv of [] \<Rightarrow> [] | a # _ \<Rightarrow> a) \<and> 0 \<le> rnd \<and> at_bytes (byte (r_m (h_rv h))) (nat rnd) 16 = map (w_rand w) [0..<16])"

lemma same_mem_at: "r_m (h_rv h') = r_m (h_rv h) \<Longrightarrow> arguments_at w x p argv h' sp = arguments_at w x p argv h sp"
proof -
  assume m: "r_m (h_rv h') = r_m (h_rv h)"
  then have "zstr h' = zstr h" "table_at h' = table_at h" by (auto simp: zstr_def table_at_def fun_eq_iff)
  then show ?thesis by (simp add: arguments_at_def m)
qed

lemma table_run:
  assumes "bnd (guest_chk rnd 16 True) (\<lambda>_.
     bnd (on_rv (on_mem (mem_write rnd bs))) (\<lambda>_.
     bnd (asks (\<lambda>h. (r_stackAt (h_rv h), r_brk (h_rv h)))) (\<lambda>(st, brk).
     bnd (check (\<not> (sp < st \<or> sp < brk + MB)) ENOMEM) (\<lambda>_.
     bnd (put_fields sp fs) (\<lambda>_.
     on_rv (modify (\<lambda>r. r\<lparr>r_x := (r_x r)[2 := z]\<rparr>))))))) h = (Inr u, h')"
  shows "\<exists>h1 h2. on_rv (on_mem (mem_write rnd bs)) h = (Inr (), h1) \<and> r_stackAt (h_rv h1) \<le> sp \<and> r_brk (h_rv h1) + MB \<le> sp \<and>
     put_fields sp fs h1 = (Inr (), h2) \<and> h' = h2\<lparr>h_rv := (h_rv h2)\<lparr>r_x := (r_x (h_rv h2))[2 := z]\<rparr>\<rparr>"
proof -
  obtain h0 where c: "guest_chk rnd 16 True h = (Inr (), h0)"
      and a: "bnd (on_rv (on_mem (mem_write rnd bs))) (\<lambda>_.
     bnd (asks (\<lambda>h. (r_stackAt (h_rv h), r_brk (h_rv h)))) (\<lambda>(st, brk).
     bnd (check (\<not> (sp < st \<or> sp < brk + MB)) ENOMEM) (\<lambda>_.
     bnd (put_fields sp fs) (\<lambda>_.
     on_rv (modify (\<lambda>r. r\<lparr>r_x := (r_x r)[2 := z]\<rparr>)))))) h0 = (Inr u, h')"
    using assms by (subst (asm) bnd_done) auto
  have "h0 = h" using c mem_chk_run [of rnd 16 True "h_rv h"] by (cases "mem_chk rnd 16 True (h_rv h)") (simp add: guest_chk_def on_rv_run)
  obtain h1 where b: "on_rv (on_mem (mem_write rnd bs)) h = (Inr (), h1)"
      and r: "bnd (asks (\<lambda>h. (r_stackAt (h_rv h), r_brk (h_rv h)))) (\<lambda>(st, brk).
     bnd (check (\<not> (sp < st \<or> sp < brk + MB)) ENOMEM) (\<lambda>_.
     bnd (put_fields sp fs) (\<lambda>_.
     on_rv (modify (\<lambda>r. r\<lparr>r_x := (r_x r)[2 := z]\<rparr>))))) h1 = (Inr u, h')"
    using a unfolding \<open>h0 = h\<close> by (subst (asm) bnd_done) auto
  show ?thesis using r unfolding b by (auto simp: bnd_done check_done asks_def modify_def on_rv_run)
qed

lemma stack_run:
  assumes "stack w lst x argv h = (Inr u, h')" "mem_ok (r_m (h_rv h))"
  shows "\<exists>sp h1. arguments_at w x (proc_at (h_k h) (h_pid h)) argv h' sp \<and> sp mod 16 = 0 \<and> sp < m_top (r_m (h_rv h)) \<and>
    m_top (r_m (h_rv h)) - max (1024 * 1024) lst \<le> sp \<and> r_brk (h_rv h) + MB \<le> sp \<and>
    wrote sp (m_top (r_m (h_rv h))) (h\<lparr>h_rv := (h_rv h)\<lparr>r_stackAt := m_top (r_m (h_rv h)) - max (1024 * 1024) lst\<rparr>\<rparr>) h1 \<and>
    h' = h1\<lparr>h_rv := (h_rv h1)\<lparr>r_x := (r_x (h_rv h1))[2 := of_int sp]\<rparr>\<rparr>"
proof -
  define p top0 st where "p = proc_at (h_k h) (h_pid h)" and "top0 = m_top (r_m (h_rv h))" and "st = top0 - max (1024 * 1024) lst"
  note d = this
  define h0 where "h0 = h\<lparr>h_rv := (h_rv h)\<lparr>r_stackAt := st\<rparr>\<rparr>"
  define ws where "ws ap ep rnd exec = [int (length ap)] @ ap @ [0] @ ep @ [0] @ concat (map (\<lambda>(k, v). [k, v]) (aux_words x (s_ruid p) (s_rgid p) rnd exec))"
    for ap ep :: "int list" and rnd exec :: int
  obtain ep sp1 h1 ap sp2 h2 exec sp3 h3 where
      s1: "put_strs (environment p) (top0 - 16) h0 = (Inr (ep, sp1), h1)" and s2: "put_strs argv sp1 h1 = (Inr (ap, sp2), h2)"
      and s3: "(case ap of q # _ \<Rightarrow> ret (q, sp2) | [] \<Rightarrow> bnd (put_str (case argv of a # _ \<Rightarrow> a | [] \<Rightarrow> []) sp2) (\<lambda>q. ret (q, q))) h2 = (Inr (exec, sp3), h3)"
      and rest: "bnd (guest_chk (sp3 - 16) 16 True) (\<lambda>_.
        bnd (on_rv (on_mem (mem_write (sp3 - 16) (map (w_rand w) [0..<16])))) (\<lambda>_.
        let ws = ws ap ep (sp3 - 16) exec; sp = (((sp3 - 16) AND - 16) - int (8 * length ws)) AND - 16 in
        bnd (asks (\<lambda>h. (r_stackAt (h_rv h), r_brk (h_rv h)))) (\<lambda>(st, brk).
        bnd (check (\<not> (sp < st \<or> sp < brk + MB)) ENOMEM) (\<lambda>_.
        bnd (put_fields sp (word_fields ws)) (\<lambda>_.
        on_rv (modify (\<lambda>r. r\<lparr>r_x := (r_x r)[2 := of_int sp]\<rparr>))))))) h3 = (Inr u, h')"
    using assms(1) unfolding stack_def ws_def
    by (auto simp: bnd_done me_def asks_def on_rv_run modify_def environment_def Let_def h0_def d)
  define rnd where "rnd = sp3 - 16"
  define wl where "wl = ws ap ep rnd exec"
  define sp where "sp = ((rnd AND - 16) - int (8 * length wl)) AND - 16"
  obtain h4 h5 where s5: "on_rv (on_mem (mem_write rnd (map (w_rand w) [0..<16]))) h3 = (Inr (), h4)"
      and c: "r_stackAt (h_rv h4) \<le> sp" "r_brk (h_rv h4) + MB \<le> sp" and s6: "put_fields sp (word_fields wl) h4 = (Inr (), h5)"
      and h': "h' = h5\<lparr>h_rv := (h_rv h5)\<lparr>r_x := (r_x (h_rv h5))[2 := of_int sp]\<rparr>\<rparr>"
    using table_run [OF rest [unfolded Let_def, folded rnd_def, folded wl_def, folded sp_def]] by blast
  have m0: "mem_ok (r_m (h_rv h0))" using assms(2) by (simp add: h0_def)
  note r1 = put_strs_run [OF s1 m0]
  have m1: "mem_ok (r_m (h_rv h1))" using r1 by (simp add: wrote_def)
  note r2 = put_strs_run [OF s2 m1]
  have m2: "mem_ok (r_m (h_rv h2))" using r2 by (simp add: wrote_def)
  have r3: "sp3 \<le> sp2 \<and> wrote sp3 sp2 h2 h3 \<and> zstr h3 exec (case argv of [] \<Rightarrow> [] | a # _ \<Rightarrow> a) \<and> sp3 \<le> exec"
  proof (cases ap)
    case Nil
    then have "argv = []" using r2 by simp
    then have q: "put_str [] sp2 h2 = (Inr exec, h3)" "sp3 = exec" using s3 Nil by (auto simp: bnd_done ret_def)
    show ?thesis using put_str_run [OF q(1) m2] q(2) \<open>argv = []\<close> by auto
  next
    case (Cons q qs)
    then have e: "exec = q" "sp3 = sp2" "h3 = h2" using s3 by (auto simp: ret_def)
    obtain a as where "argv = a # as" using r2 Cons by (cases argv) auto
    then show ?thesis using r2 [THEN conjunct2, THEN conjunct2, THEN conjunct2, rule_format, of 0] e Cons wrote_refl [OF m2] by simp
  qed
  have m3: "mem_ok (r_m (h_rv h3))" using r3 by (simp add: wrote_def)
  have r5: "wrote rnd sp3 h3 h4" "0 \<le> rnd" "at_bytes (byte (r_m (h_rv h4))) (nat rnd) 16 = map (w_rand w) [0..<16]"
    using write_wrote [OF s5 m3] by (simp_all add: rnd_def)
  have m4: "mem_ok (r_m (h_rv h4))" using r5(1) by (simp add: wrote_def)
  note r6 = put_words_run [OF s6 m4]
  have wl: "wl \<noteq> []" by (simp add: wl_def ws_def)
  have room: "sp + 8 * int (length wl) \<le> rnd" "sp mod 16 = 0" unfolding sp_def and_m16
    using pos_mod_sign [of 16 "rnd"] pos_mod_sign [of 16 "rnd - rnd mod 16 - int (8 * length wl)"] by (simp_all add: mod_simps minus_mod_eq_mult_div)
  have "sp \<le> rnd" using room(1) by simp
  then have le: "sp \<le> rnd" "rnd \<le> sp3" "sp3 \<le> sp2" "sp2 \<le> sp1" "sp1 \<le> top0 - 16"
    using r1 [THEN conjunct1] r2 [THEN conjunct1] r3 [THEN conjunct1] by (simp_all add: rnd_def)
  have "wrote sp top0 h0 h1" by (rule wrote_wider [OF r1 [THEN conjunct2, THEN conjunct1]]) (use le in auto)
  moreover have "wrote sp top0 h1 h2" by (rule wrote_wider [OF r2 [THEN conjunct2, THEN conjunct1]]) (use le in auto)
  moreover have "wrote sp top0 h2 h3" by (rule wrote_wider [OF r3 [THEN conjunct2, THEN conjunct1]]) (use le in auto)
  moreover have "wrote sp top0 h3 h4" by (rule wrote_wider [OF r5(1)]) (use le in auto)
  moreover have "wrote sp top0 h4 h5" by (rule wrote_wider [OF r6 [THEN conjunct1]]) (use le room in auto)
  ultimately have all: "wrote sp top0 h0 h5" using wrote_trans by blast
  have h04: "wrote sp top0 h0 h4"
    using \<open>wrote sp top0 h0 h1\<close> \<open>wrote sp top0 h1 h2\<close> \<open>wrote sp top0 h2 h3\<close> \<open>wrote sp top0 h3 h4\<close> wrote_trans by blast
  have w5: "wrote sp rnd h4 h5" by (rule wrote_wider [OF r6 [THEN conjunct1]]) (use room in auto)
  have strs: "zstr h5 a s" if "zstr h3 a s" "sp3 \<le> a" for a s
    using zstr_wrote [OF zstr_wrote [OF that(1) r5(1)] w5] that(2) le by auto
  have w3: "wrote sp3 sp2 h2 h3" and w2: "wrote sp2 sp1 h1 h2" using r2 r3 by auto
  have "list_all2 (zstr h5) ap argv"
  proof (rule list_all2I, use r2 in \<open>auto simp: in_set_zip\<close>, goal_cases)
    case (1 n)
    then show ?case using zstr_wrote [OF _ w3, of "ap ! n" "argv ! n"] le by (intro strs) auto
  qed
  moreover have "list_all2 (zstr h5) ep (environment p)"
  proof (rule list_all2I, use r1 in \<open>auto simp: in_set_zip\<close>, goal_cases)
    case (1 n)
    then show ?case using zstr_wrote [OF zstr_wrote [OF _ w2, of "ep ! n" "environment p ! n"] w3] le by (intro strs) auto
  qed
  moreover have "zstr h5 exec (case argv of [] \<Rightarrow> [] | a # _ \<Rightarrow> a)" using r3 by (intro strs) auto
  moreover have "table_at h5 sp (table_words ap ep (aux_words x (s_ruid p) (s_rgid p) rnd exec))"
    using r6 wl by (simp add: table_at_def wl_def ws_def table_words_def)
  moreover note aux_told [of x p rnd exec]
  moreover have "at_bytes (byte (r_m (h_rv h5))) (nat rnd) 16 = map (w_rand w) [0..<16]"
    using wrote_bytes [OF w5 r5(2), of 16] r5(3) by simp
  ultimately have "arguments_at w x p argv h5 sp" using r5(2) unfolding arguments_at_def by blast
  then have "arguments_at w x p argv h' sp" by (subst same_mem_at [where h = h5]) (simp_all add: h')
  moreover have "r_stackAt (h_rv h4) = st" "r_brk (h_rv h4) = r_brk (h_rv h)"
    using wrote_rest [OF h04] by (simp_all add: h0_def)
  moreover have "sp < top0" using le by simp
  ultimately show ?thesis using c room(2) all h' unfolding h0_def d by (intro exI [of _ sp] exI [of _ h5]) simp
qed

section \<open>The start\<close>

lemma segs_apart_index:
  assumes "apart_segs (map seg_of_sec qs)" "q \<in> set qs" "p \<in> set qs" "x_addr q \<le> a" "int a < sec_end q" "x_addr p \<le> a" "int a < sec_end p"
  shows "p = q"
proof -
  obtain i j where i: "i < length qs" "q = qs ! i" and j: "j < length qs" "p = qs ! j" using assms(2,3) by (auto simp: in_set_conv_nth)
  have d: "k < l \<Longrightarrow> l < length qs \<Longrightarrow> sec_end (qs ! k) \<le> int (x_addr (qs ! l)) \<or> sec_end (qs ! l) \<le> int (x_addr (qs ! k))" for k l
    using assms(1) by (simp add: apart_segs_def sorted_wrt_iff_nth_less seg_of_sec_def sec_end_def)
  have "\<not> i < j" using d [of i j] i j assms(4-7) by auto
  moreover have "\<not> j < i" using d [of j i] i j assms(4-7) by auto
  ultimately have "i = j" by simp
  then show ?thesis using i j by simp
qed

lemma image_run:
  assumes "load_image x (fresh_rv m) = (Inr u, r)" "mem_ok m" "m_page m = []" "0 \<le> m_top m"
  shows "\<exists>M f. r = (fresh_rv m)\<lparr>r_m := M, r_seg := map seg_of_sec (exe_sec x), r_floor := f, r_brk := al f, r_mapAt := 0x4000000000,
       r_pc := int (exe_entry x)\<rparr> \<and> mem_ok M \<and> m_top M = m_top m \<and> m_cap M = m_cap m \<and> 0 \<le> f \<and> f \<le> m_top m \<and>
     (\<forall>q \<in> set (exe_sec x). sec_end q \<le> f \<and> length (x_data q) \<le> x_size q \<and>
        (\<forall>i < x_size q. byte M (x_addr q + i) = (if i < length (x_data q) then x_data q ! i else 0))) \<and>
     (\<forall>a. (\<forall>q \<in> set (exe_sec x). \<not> in_data q a) \<longrightarrow> byte M a = 0)"
proof -
  obtain r1 us where l: "mapk load_sec (exe_sec x) (fresh_rv m) = (Inr us, r1)"
      and r: "r = r1\<lparr>r_brk := al (r_floor r1), r_mapAt := 0x4000000000, r_pc := int (exe_entry x)\<rparr>"
    using assms(1) by (auto simp: load_image_def bnd_done modify_def)
  have z: "byte m a = 0" for a using assms(3) by (simp add: byte_def page_at_def ent_get_def PG_def)
  have fr: "r_m (fresh_rv m) = m" "r_seg (fresh_rv m) = []" "r_floor (fresh_rv m) = 0" by (simp_all add: fresh_rv_def)
  note s = load_secs_run [OF l, unfolded fr, OF assms(2)]
  have r1: "r1 = (fresh_rv m)\<lparr>r_m := r_m r1, r_seg := map seg_of_sec (exe_sec x), r_floor := r_floor r1\<rparr>"
    using s [THEN conjunct2, THEN conjunct2, THEN conjunct2, THEN conjunct2, THEN conjunct1] by simp
  have seg: "r_seg r1 = map seg_of_sec (exe_sec x)" by (subst r1) simp
  have ap: "apart_segs (map seg_of_sec (exe_sec x))" using s seg by (simp add: apart_segs_def)
  have out: "byte (r_m r1) a = 0" if "\<forall>q \<in> set (exe_sec x). \<not> in_data q a" for a using s that by (simp add: z)
  have fit: "sec_end q \<le> r_floor r1" "length (x_data q) \<le> x_size q" if "q \<in> set (exe_sec x)" for q using s that by (auto simp: fits_def)
  have "byte (r_m r1) (x_addr q + i) = (if i < length (x_data q) then x_data q ! i else 0)" if q: "q \<in> set (exe_sec x)" and i: "i < x_size q" for q i
  proof (cases "i < length (x_data q)")
    case True
    then show ?thesis using s q by simp
  next
    case False
    have "\<not> in_data p (x_addr q + i)" if p: "p \<in> set (exe_sec x)" for p
    proof
      assume d: "in_data p (x_addr q + i)"
      have "p = q" using segs_apart_index [OF ap q p, of "x_addr q + i"] d i fit(2) [OF p] by (simp add: in_data_def sec_end_def)
      then show False using d False by (simp add: in_data_def)
    qed
    then show ?thesis using out False by simp
  qed
  moreover have "r = (fresh_rv m)\<lparr>r_m := r_m r1, r_seg := map seg_of_sec (exe_sec x), r_floor := r_floor r1, r_brk := al (r_floor r1),
      r_mapAt := 0x4000000000, r_pc := int (exe_entry x)\<rparr>"
    unfolding r by (subst (1) r1) simp
  moreover have "mem_ok (r_m r1)" "m_top (r_m r1) = m_top m" "m_cap (r_m r1) = m_cap m" "0 \<le> r_floor r1" "r_floor r1 \<le> m_top m"
    using s assms(4) by simp_all
  ultimately show ?thesis using fit out by (intro exI [of _ "r_m r1"] exI [of _ "r_floor r1"]) blast
qed

lemma start_run:
  assumes "run_start w lm x argv h = (Inr u, h')"
  shows "\<exists>M f N sp. h' = h\<lparr>h_rv := (fresh_rv N)\<lparr>r_seg := map seg_of_sec (exe_sec x), r_floor := f, r_brk := al f, r_mapAt := 0x4000000000,
       r_pc := int (exe_entry x), r_stackAt := int (exe_mem x) - max (1024 * 1024) (l_stack lm), r_x := (replicate 32 0)[2 := of_int sp]\<rparr>,
       h_done := False, h_code := 0, h_socks := [], h_ins := []\<rparr> \<and>
     mem_ok N \<and> m_top N = int (exe_mem x) \<and> int (exe_mem x) \<le> SAFE \<and> 0 \<le> f \<and>
     (\<forall>q \<in> set (exe_sec x). sec_end q \<le> f \<and> length (x_data q) \<le> x_size q \<and>
        (\<forall>i < x_size q. byte M (x_addr q + i) = (if i < length (x_data q) then x_data q ! i else 0))) \<and>
     (\<forall>a. (\<forall>q \<in> set (exe_sec x). \<not> in_data q a) \<longrightarrow> byte M a = 0) \<and>
     (\<forall>a. int a < sp \<longrightarrow> byte N a = byte M a) \<and>
     arguments_at w x (proc_at (h_k h) (h_pid h)) argv h' sp \<and> sp mod 16 = 0 \<and> sp < int (exe_mem x) \<and>
     int (exe_mem x) - max (1024 * 1024) (l_stack lm) \<le> sp \<and> al f + MB \<le> sp"
proof -
  obtain m where m: "new_mem (int (exe_mem x)) (l_mem lm) = Inr m" and l': "fst (load_image x (fresh_rv m)) = Inr ()"
      and st': "stack w (l_stack lm) x argv (h\<lparr>h_done := False, h_code := 0, h_socks := [], h_ins := [], h_rv := snd (load_image x (fresh_rv m))\<rparr>) = (Inr u, h')"
    using assms by (auto simp: run_start_def bnd_done of_result_def modify_def on_rv_run)
  define r1 where "r1 = snd (load_image x (fresh_rv m))"
  define h1 where "h1 = h\<lparr>h_done := False, h_code := 0, h_socks := [], h_ins := [], h_rv := r1\<rparr>"
  have l: "load_image x (fresh_rv m) = (Inr (), r1)" using l' by (simp add: r1_def prod_eq_iff)
  note st = st' [folded r1_def, folded h1_def] and h1 = h1_def
  have m0: "mem_ok m" "m_top m = int (exe_mem x)" using new_ok [OF m] by auto
  have m1: "m_page m = []" "0 \<le> m_top m" "int (exe_mem x) \<le> SAFE" using m by (auto simp: new_mem_def SAFE_def split: if_splits)
  obtain M f where r1: "r1 = (fresh_rv m)\<lparr>r_m := M, r_seg := map seg_of_sec (exe_sec x), r_floor := f, r_brk := al f, r_mapAt := 0x4000000000,
       r_pc := int (exe_entry x)\<rparr>" and M: "mem_ok M" "m_top M = m_top m" and f: "0 \<le> f"
      and d: "\<forall>q \<in> set (exe_sec x). sec_end q \<le> f \<and> length (x_data q) \<le> x_size q \<and>
        (\<forall>i < x_size q. byte M (x_addr q + i) = (if i < length (x_data q) then x_data q ! i else 0))"
      "\<forall>a. (\<forall>q \<in> set (exe_sec x). \<not> in_data q a) \<longrightarrow> byte M a = 0"
    using image_run [OF l m0(1) m1(1,2)] by blast
  have h1f: "r_m (h_rv h1) = M" "h_k h1 = h_k h" "h_pid h1 = h_pid h" "r_brk (h_rv h1) = al f" by (simp_all add: h1 r1)
  obtain sp h2 where sp: "arguments_at w x (proc_at (h_k h) (h_pid h)) argv h' sp" "sp mod 16 = 0" "sp < int (exe_mem x)"
      "int (exe_mem x) - max (1024 * 1024) (l_stack lm) \<le> sp" "al f + MB \<le> sp"
      and w: "wrote sp (int (exe_mem x)) (h1\<lparr>h_rv := (h_rv h1)\<lparr>r_stackAt := int (exe_mem x) - max (1024 * 1024) (l_stack lm)\<rparr>\<rparr>) h2"
      and h': "h' = h2\<lparr>h_rv := (h_rv h2)\<lparr>r_x := (r_x (h_rv h2))[2 := of_int sp]\<rparr>\<rparr>"
    using stack_run [OF st, unfolded h1f M(2) m0(2), OF M(1)] by (elim exE conjE) (rule that)
  define N where "N = r_m (h_rv h2)"
  have N: "mem_ok N" "m_top N = int (exe_mem x)" "\<forall>a. int a < sp \<longrightarrow> byte N a = byte M a"
    using w M m0 by (simp_all add: wrote_def N_def h1f)
  have h2: "h2 = (h1\<lparr>h_rv := (h_rv h1)\<lparr>r_stackAt := int (exe_mem x) - max (1024 * 1024) (l_stack lm)\<rparr>\<rparr>)\<lparr>h_rv :=
      (h_rv (h1\<lparr>h_rv := (h_rv h1)\<lparr>r_stackAt := int (exe_mem x) - max (1024 * 1024) (l_stack lm)\<rparr>\<rparr>))\<lparr>r_m := N\<rparr>\<rparr>"
    using w unfolding wrote_def N_def by blast
  have "h' = h\<lparr>h_rv := (fresh_rv N)\<lparr>r_seg := map seg_of_sec (exe_sec x), r_floor := f, r_brk := al f, r_mapAt := 0x4000000000,
       r_pc := int (exe_entry x), r_stackAt := int (exe_mem x) - max (1024 * 1024) (l_stack lm), r_x := (replicate 32 0)[2 := of_int sp]\<rparr>,
       h_done := False, h_code := 0, h_socks := [], h_ins := []\<rparr>"
    unfolding h' h2 h1 r1 by (simp add: fresh_rv_def)
  then show ?thesis
    by (intro exI [of _ M] exI [of _ f] exI [of _ N] exI [of _ sp]) (intro conjI N m1(3) f d sp; assumption)
qed

lemma al_up: "n \<le> al n"
  using al_bounds(1) [of n] by simp

section \<open>An example\<close>

text \<open>Writes that leave pages of the budget: \<open>n\<close> further writes are possible, of a page at most each.\<close>

definition spare :: "nat \<Rightarrow> mem \<Rightarrow> bool" where "spare n m \<longleftrightarrow> m_used m + 2 * PG * n \<le> m_cap m"

lemma write_spends:
  assumes "in_range m a (length b)" "b \<noteq> []" "length b \<le> PG" "spare (Suc n) m" "mem_ok m"
  shows "\<exists>m'. mem_write a b m = (Inr (), m') \<and> spare n m' \<and> mem_ok m' \<and> m_top m' = m_top m"
proof -
  have run: "\<exists>ys m'. mapk (write_chunk b) cs m = (Inr ys, m') \<and> m_used m' \<le> m_used m + PG * length cs \<and> m_cap m' = m_cap m"
    if "m_used m + PG * length cs \<le> m_cap m" for cs m
    using that
  proof (induction cs arbitrary: m)
    case (Cons c cs)
    obtain p off len src where c: "c = (p, off, len, src)" by (cases c)
    have "m_used m + PG \<le> m_cap m" using Cons.prems by simp
    then obtain m1 where "write_chunk b c m = (Inr (), m1)" "m_used m1 \<le> m_used m + PG" "m_cap m1 = m_cap m"
      unfolding c write_chunk_put using put_page_room by blast
    moreover from this obtain ys m2 where "mapk (write_chunk b) cs m1 = (Inr ys, m2)" "m_used m2 \<le> m_used m1 + PG * length cs" "m_cap m2 = m_cap m1"
      using Cons.IH [of m1] Cons.prems by auto
    ultimately show ?case by (simp add: bnd_def ret_def)
  qed (simp add: ret_def)
  let ?cs = "chunks (nat a) (length b) 0"
  have "(nat a + length b - 1) div PG \<le> (nat a + PG) div PG" using assms(3) by (intro div_le_mono) linarith
  also have "\<dots> = nat a div PG + 1" by (rule div_add_self2) (use PG_pos in linarith)
  finally have "(nat a + length b - 1) div PG - (nat a + 0) div PG + 1 \<le> 2" by (simp only: add_0_right)
  then have "length ?cs \<le> 2" using chunks_count [of 0 "length b" "nat a"] assms(2) by simp
  then have c: "PG * length ?cs \<le> PG * 2" by (rule mult_le_mono2)
  then have "m_used m + PG * length ?cs \<le> m_cap m" using assms(4) unfolding spare_def mult_Suc_right by linarith
  from run [OF this] obtain ys m' where r: "mapk (write_chunk b) ?cs m = (Inr ys, m')" "m_used m' \<le> m_used m + PG * length ?cs" "m_cap m' = m_cap m"
    by blast
  then have w: "mem_write a b m = (Inr (), m')" using assms(1) by (simp add: mem_write_def chk_bnd) (simp add: bnd_def ret_def)
  have "spare n m'" using r(2,3) c assms(4) unfolding spare_def mult_Suc_right by linarith
  then show ?thesis using w wr.over [OF assms(5) w] wr.same [OF assms(5), of a b] by simp
qed

lemma setN_spends:
  assumes "in_range m a z" "0 < z" "z \<le> 8" "spare (Suc n) m" "mem_ok m"
  shows "\<exists>m'. mem_setN a v z m = (Inr (), m') \<and> spare n m' \<and> mem_ok m' \<and> m_top m' = m_top m"
proof (cases "nat a mod PG > PG - z")
  case True
  then have "mem_setN a v z m = mem_write a (int_bytes z (take_bit (z * 8) v)) m" using assms(1) by (simp add: mem_setN_def chk_bnd Let_def)
  then show ?thesis
    using write_spends [of m a "int_bytes z (take_bit (z * 8) v)" n] assms by (simp add: PG_def flip: length_greater_0_conv)
next
  case False
  then have e: "mem_setN a v z m = put_page (nat a div PG) (nat a mod PG) (int_bytes z (take_bit (z * 8) v)) (take_bit (z * 8) v \<noteq> 0) m"
    using assms(1) by (simp add: mem_setN_def chk_bnd Let_def put_page_def)
  have "m_used m + PG \<le> m_cap m" using assms(4) by (simp add: spare_def)
  then obtain m' where m': "mem_setN a v z m = (Inr (), m')" "m_used m' \<le> m_used m + PG" "m_cap m' = m_cap m"
    unfolding e using put_page_room by blast
  then show ?thesis using store_spec [OF assms(5,1-3), of v] assms(4) by (auto simp: stored_def spare_def split: prod.splits sum.splits)
qed

lemma fields_spend:
  assumes "\<forall>(p, z, v) \<in> set fs. 0 \<le> a + p \<and> a + p + int z \<le> m_top (r_m (h_rv h)) \<and> 0 < z \<and> z \<le> 8" "spare (length fs) (r_m (h_rv h))"
    "mem_ok (r_m (h_rv h))"
  shows "\<exists>h'. put_fields a fs h = (Inr (), h')"
proof -
  have "\<exists>us h'. mapk (\<lambda>(p, z, v). on_rv (on_mem (mem_setN (a + p) v z))) fs h = (Inr us, h')"
    using assms
  proof (induction fs arbitrary: h)
    case (Cons t fs)
    obtain p z v where t: "t = (p, z, v)" by (cases t)
    obtain m' where m': "mem_setN (a + p) v z (r_m (h_rv h)) = (Inr (), m')" "spare (length fs) m'" "mem_ok m'" "m_top m' = m_top (r_m (h_rv h))"
      using setN_spends [of "r_m (h_rv h)" "a + p" z "length fs" v] Cons.prems by (auto simp: t in_range_def)
    let ?h = "h\<lparr>h_rv := (h_rv h)\<lparr>r_m := m'\<rparr>\<rparr>"
    have "on_rv (on_mem (mem_setN (a + p) v z)) h = (Inr (), ?h)" using m'(1) by (simp add: on_rv_run on_mem_run)
    moreover obtain us h' where "mapk (\<lambda>(p, z, v). on_rv (on_mem (mem_setN (a + p) v z))) fs ?h = (Inr us, h')"
      using Cons.IH [of ?h] Cons.prems(1) m' by auto
    ultimately show ?case by (simp add: t bnd_def ret_def)
  qed (simp add: ret_def)
  then show ?thesis by (auto simp: put_fields_def bnd_def ret_def)
qed

text \<open>An executable of one section, with a call of the system and twelve zeros, and one argument.\<close>

definition tiny_sec :: exe_sec where
  "tiny_sec = \<lparr>x_name = ''text'', x_flg = ''rx'', x_align = 4096, x_data = [0x73, 0, 0, 0], x_size = 16, x_addr = 65536\<rparr>"

definition tiny_exe :: exe where
  "tiny_exe = \<lparr>exe_entry = 65536, exe_mem = 4194304, exe_phdr = 0, exe_phent = 56, exe_phnum = 1, exe_sec = [tiny_sec]\<rparr>"

definition tiny_lim :: limits where "tiny_lim = \<lparr>l_mem = 67108864, l_stack = 0\<rparr>"

lemma tiny_loads:
  "\<exists>r. load_image tiny_exe (fresh_rv \<lparr>m_page = [], m_used = 0, m_top = 4194304, m_cap = 67108864\<rparr>) = (Inr (), r) \<and> spare 500 (r_m r) \<and>
     mem_ok (r_m r) \<and> m_top (r_m r) = 4194304 \<and> r_brk r = 69632 \<and> r_floor r = 65552 \<and> r_maps r = []"
proof -
  let ?m = "\<lparr>m_page = [], m_used = 0, m_top = 4194304, m_cap = 67108864\<rparr>"
  have "new_mem 4194304 67108864 = Inr ?m" by (simp add: new_mem_def PG_def)
  then have "mem_ok ?m" using new_ok by blast
  then obtain M where M: "mem_write 65536 [0x73, 0, 0, 0] ?m = (Inr (), M)" "spare 500 M" "mem_ok M" "m_top M = 4194304"
    using write_spends [of ?m 65536 "[0x73, 0, 0, 0]" 500] by (auto simp: in_range_def PG_def spare_def)
  have "al 65552 = 69632" by code_simp
  then show ?thesis using M
    by (simp add: load_image_def tiny_exe_def load_sec_def tiny_sec_def seg_of_sec_def bnd_def asks_def check_def modify_def ret_def fresh_rv_def
        on_mem_def Let_def)
qed

lemma tiny_stack:
  assumes "spare 500 (r_m (h_rv h))" "mem_ok (r_m (h_rv h))" "m_top (r_m (h_rv h)) = 4194304" "r_brk (h_rv h) = 69632" "r_floor (h_rv h) = 65552"
    "r_maps (h_rv h) = []" "p_env (proc_at (h_k h) (h_pid h)) = []"
  shows "\<exists>h'. stack world0 0 tiny_exe [''a''] h = (Inr (), h')"
proof -
  define h0 where "h0 = h\<lparr>h_rv := (h_rv h)\<lparr>r_stackAt := 3145728\<rparr>\<rparr>"
  have f0: "r_m (h_rv h0) = r_m (h_rv h)" "r_stackAt (h_rv h0) = 3145728" "r_brk (h_rv h0) = 69632" "r_floor (h_rv h0) = 65552" "r_maps (h_rv h0) = []"
    using assms by (simp_all add: h0_def)
  have e: "enc ''a'' = [0x61]" by code_simp
  obtain m1 where m1: "mem_write 4194286 [0x61, 0] (r_m (h_rv h)) = (Inr (), m1)" "spare 499 m1" "mem_ok m1" "m_top m1 = 4194304"
    using write_spends [of "r_m (h_rv h)" 4194286 "[0x61, 0]" 499] assms by (auto simp: in_range_def PG_def)
  define h1 where "h1 = h0\<lparr>h_rv := (h_rv h0)\<lparr>r_m := m1\<rparr>\<rparr>"
  have p: "put_str ''a'' 4194288 h0 = (Inr 4194286, h1)"
    using m1 by (simp add: put_str_def e bnd_def asks_def check_def ret_def f0 on_rv_run on_mem_def h1_def)
  have f1: "r_m (h_rv h1) = m1" "r_stackAt (h_rv h1) = 3145728" "r_brk (h_rv h1) = 69632" "r_floor (h_rv h1) = 65552" "r_maps (h_rv h1) = []"
    using f0 by (simp_all add: h1_def)
  have g: "guest_chk 4194270 16 True h1 = (Inr (), h1)"
    by (simp add: guest_chk_def on_rv_run mem_chk_def seg_of_def Let_def f1 m1 ret_def)
  obtain m2 where m2: "mem_write 4194270 (map (w_rand world0) [0..<16]) m1 = (Inr (), m2)" "spare 498 m2" "mem_ok m2" "m_top m2 = 4194304"
    using write_spends [of m1 4194270 "map (w_rand world0) [0..<16]" 498] m1 by (auto simp: in_range_def PG_def)
  define h2 where "h2 = h1\<lparr>h_rv := (h_rv h1)\<lparr>r_m := m2\<rparr>\<rparr>"
  have q: "on_rv (on_mem (mem_write 4194270 (map (w_rand world0) [0..<16]))) h1 = (Inr (), h2)"
    using m2 by (simp add: on_rv_run on_mem_def h2_def f1)
  have f2: "r_m (h_rv h2) = m2" "r_stackAt (h_rv h2) = 3145728" "r_brk (h_rv h2) = 69632" using f1 by (simp_all add: h2_def)
  define ws where "ws = [int (length [4194286 :: int])] @ [4194286] @ [0] @ [] @ [0] @ concat (map (\<lambda>(k, v). [k, v])
     (aux_words tiny_exe (s_ruid (proc_at (h_k h) (h_pid h))) (s_rgid (proc_at (h_k h) (h_pid h))) 4194270 4194286))"
  have l: "length ws = 34" by (simp add: ws_def aux_words_def)
  have "\<forall>(p, z, v) \<in> set (word_fields ws). 0 \<le> 4193984 + p \<and> 4193984 + p + int z \<le> m_top (r_m (h_rv h2)) \<and> 0 < z \<and> z \<le> 8"
    using l by (auto simp: word_fields f2 m2(4))
  moreover have "spare (length (word_fields ws)) (r_m (h_rv h2))" using m2(2) l by (simp add: word_fields_def f2 spare_def)
  ultimately obtain h3 where h3: "put_fields 4193984 (word_fields ws) h2 = (Inr (), h3)"
    using fields_spend [of "word_fields ws" 4193984 h2] m2(3) unfolding f2(1) by blast
  have sp: "((4194270 AND - 16) - int (8 * length ws)) AND - 16 = 4193984" by (simp add: and_m16 l)
  have me: "me (\<lambda>p. (map (\<lambda>(k, v). k @ ''='' @ v) (p_env p), s_ruid p, s_rgid p)) h =
      (Inr ([], s_ruid (proc_at (h_k h) (h_pid h)), s_rgid (proc_at (h_k h) (h_pid h))), h)"
    using assms(7) by (simp add: me_def asks_def)
  have st: "on_rv (modify (\<lambda>r. r\<lparr>r_stackAt := 4194304 - max (1024 * 1024) 0\<rparr>)) h = (Inr (), h0)"
    by (simp add: on_rv_run modify_def h0_def)
  have "bnd (guest_chk 4194270 16 True) (\<lambda>_.
     bnd (on_rv (on_mem (mem_write 4194270 (map (w_rand world0) [0..<16])))) (\<lambda>_.
     bnd (asks (\<lambda>h. (r_stackAt (h_rv h), r_brk (h_rv h)))) (\<lambda>(st, brk).
     bnd (check (\<not> (4193984 < st \<or> 4193984 < brk + MB)) ENOMEM) (\<lambda>_.
     bnd (put_fields 4193984 (word_fields ws)) (\<lambda>_.
     on_rv (modify (\<lambda>r. r\<lparr>r_x := (r_x r)[2 := of_int 4193984]\<rparr>))))))) h1 = (Inr (), h3\<lparr>h_rv := (h_rv h3)\<lparr>r_x := (r_x (h_rv h3))[2 := of_int 4193984]\<rparr>\<rparr>)"
    unfolding bnd_def by (simp only: g q sum.case prod.case) (simp add: asks_def check_def ret_def f2 h3 MB_def on_rv_run modify_def)
  note tail = this
  have t: "asks (\<lambda>h. m_top (r_m (h_rv h))) h = (Inr 4194304, h)" using assms(3) by (simp add: asks_def)
  have ps: "put_strs [] (4194304 - 16) h0 = (Inr ([], 4194304 - 16), h0)" "put_strs [''a''] (4194304 - 16) h0 = (Inr ([4194286], 4194286), h1)"
    using p by (simp_all add: ret_def bnd_def)
  have c: "(case [4194286] of p # _ \<Rightarrow> ret (p, 4194286) | [] \<Rightarrow> z) h1 = (Inr (4194286, 4194286), h1)" for z :: "(host, int \<times> int) kop"
    by (simp add: ret_def)
  have n: "(4194286 - 16 :: int) = 4194270" by simp
  show ?thesis
    unfolding stack_def
    by (simp only: bnd_def [of f g h for f g] me t st bnd_def [of f g h0 for f g] ps prod.case sum.case
        bnd_def [of "case [4194286] of p # _ \<Rightarrow> ret (p, 4194286) | [] \<Rightarrow> z" g h1 for z g] c, simp only: Let_def n flip: ws_def, simp only: sp tail) simp
qed

lemma tiny_starts: "\<exists>h'. run_start world0 tiny_lim tiny_exe [''a''] (call_host (call_regs 0 0)) = (Inr (), h')"
proof -
  let ?m = "\<lparr>m_page = [], m_used = 0, m_top = 4194304, m_cap = 67108864\<rparr>"
  let ?h = "call_host (call_regs 0 0)"
  obtain r where r: "load_image tiny_exe (fresh_rv ?m) = (Inr (), r)" "spare 500 (r_m r)" "mem_ok (r_m r)" "m_top (r_m r) = 4194304"
      "r_brk r = 69632" "r_floor r = 65552" "r_maps r = []"
    using tiny_loads by blast
  let ?h1 = "?h\<lparr>h_done := False, h_code := 0, h_socks := [], h_ins := [], h_rv := r\<rparr>"
  have "p_env (proc_at sys1 2) = []" by code_simp
  then obtain h' where "stack world0 0 tiny_exe [''a''] ?h1 = (Inr (), h')" using tiny_stack [of ?h1] r by (auto simp: call_host_def)
  moreover have "new_mem (int (exe_mem tiny_exe)) (l_mem tiny_lim) = Inr ?m" by (simp add: new_mem_def PG_def tiny_exe_def tiny_lim_def)
  ultimately show ?thesis
    using r(1) by (simp add: run_start_def bnd_def [of "of_result z" for z] of_result_def bnd_def [of "modify f" for f] modify_def
        bnd_def [of "on_rv f" for f] on_rv_run) (simp add: tiny_lim_def)
qed

lemma tiny_heap:
  assumes "run_start world0 tiny_lim tiny_exe [''a''] h = (Inr u, h')"
  shows "r_brk (h_rv h') \<le> r_stackAt (h_rv h')"
  using start_run [OF assms] by (auto simp: tiny_exe_def tiny_lim_def MB_def)

section \<open>Claims\<close>

text \<open>C20 A guest program starts as the claims about guest programs suppose: if \<open>run\<close> gets to its first instruction, and the sections leave
  the stack its area, the machine is well formed (32 registers of each kind, register 0 zero, the pages counted, the program below
  the heap, the heap below the stack, the stack within the memory, nothing mapped) and memory that the program does not have holds zeros.\<close>

theorem loaded_shape:
  assumes "run_start w lm x argv h = (Inr u, h')" "r_brk (h_rv h') \<le> r_stackAt (h_rv h')"
  shows "rv_ok (h_rv h') \<and> maps_ok (h_rv h') \<and> tidy (h_rv h') \<and> r_maps (h_rv h') = [] \<and> \<not> h_done h'"
proof -
  obtain M f N sp where h': "h' = h\<lparr>h_rv := (fresh_rv N)\<lparr>r_seg := map seg_of_sec (exe_sec x), r_floor := f, r_brk := al f, r_mapAt := 0x4000000000,
       r_pc := int (exe_entry x), r_stackAt := int (exe_mem x) - max (1024 * 1024) (l_stack lm), r_x := (replicate 32 0)[2 := of_int sp]\<rparr>,
       h_done := False, h_code := 0, h_socks := [], h_ins := []\<rparr>"
    and N: "mem_ok N" "m_top N = int (exe_mem x)" "int (exe_mem x) \<le> SAFE" "0 \<le> f"
    and d: "\<forall>q \<in> set (exe_sec x). sec_end q \<le> f \<and> length (x_data q) \<le> x_size q \<and>
        (\<forall>i < x_size q. byte M (x_addr q + i) = (if i < length (x_data q) then x_data q ! i else 0))"
    and z: "\<forall>a. (\<forall>q \<in> set (exe_sec x). \<not> in_data q a) \<longrightarrow> byte M a = 0"
    and same: "\<forall>a. int a < sp \<longrightarrow> byte N a = byte M a" and sp: "int (exe_mem x) - max (1024 * 1024) (l_stack lm) \<le> sp"
    using start_run [OF assms(1)] by (elim exE conjE) (rule that)
  have "covered (h_rv h') (int a)" if "byte N a \<noteq> 0" for a
  proof (cases "int a < sp")
    case True
    then have "byte M a \<noteq> 0" using same that by simp
    then obtain q where "q \<in> set (exe_sec x)" "in_data q a" using z by blast
    then have "seg_of_sec q \<in> set (r_seg (h_rv h'))" "s_at (seg_of_sec q) \<le> int a" "int a < s_end (seg_of_sec q)"
      using d by (auto simp: h' in_data_def seg_of_sec_def)
    then show ?thesis unfolding covered_def by blast
  next
    case False
    then show ?thesis using sp by (simp add: h' covered_def)
  qed
  moreover have "r_m (h_rv h') = N" by (simp add: h' fresh_rv_def)
  ultimately have "tidy (h_rv h')" unfolding tidy_def by blast
  moreover have "rv_ok (h_rv h')" using N by (simp add: h' fresh_rv_def rv_ok_def cache_ok_def)
  moreover have "maps_ok (h_rv h')"
    using N assms(2) al_up [of f] by (simp add: h' fresh_rv_def maps_ok_def)
  ultimately show ?thesis by (simp add: h' fresh_rv_def)
qed

theorem loaded_shape_witness:
  "\<exists>h'. run_start world0 tiny_lim tiny_exe [''a''] (call_host (call_regs 0 0)) = (Inr (), h') \<and> maps_ok (h_rv h') \<and> tidy (h_rv h')"
  using tiny_starts loaded_shape [OF _ tiny_heap] by blast

text \<open>C18 The sections of an executable are in memory when the program starts, whatever arguments and environment it gets: every section has its data,
  then zeros up to its size. The segments, by which every access is checked, are exactly the sections: their names, their addresses from first to last
  byte and their rights, no more and no fewer. The program starts at its entry, with its heap behind all sections.\<close>

theorem sections_loaded:
  assumes "run_start w lm x argv h = (Inr u, h')" "q \<in> set (exe_sec x)"
  shows "(\<forall>i < x_size q. byte (r_m (h_rv h')) (x_addr q + i) = (if i < length (x_data q) then x_data q ! i else 0)) \<and>
    map (\<lambda>s. (s_name s, s_at s, s_end s, s_flg s)) (r_seg (h_rv h')) =
      map (\<lambda>q. (x_name q, int (x_addr q), int (x_addr q) + int (x_size q), x_flg q)) (exe_sec x) \<and>
    r_pc (h_rv h') = int (exe_entry x) \<and> int (x_addr q) + int (x_size q) \<le> r_brk (h_rv h')"
proof -
  obtain M f N sp where h': "h' = h\<lparr>h_rv := (fresh_rv N)\<lparr>r_seg := map seg_of_sec (exe_sec x), r_floor := f, r_brk := al f, r_mapAt := 0x4000000000,
       r_pc := int (exe_entry x), r_stackAt := int (exe_mem x) - max (1024 * 1024) (l_stack lm), r_x := (replicate 32 0)[2 := of_int sp]\<rparr>,
       h_done := False, h_code := 0, h_socks := [], h_ins := []\<rparr>"
    and d: "\<forall>q \<in> set (exe_sec x). sec_end q \<le> f \<and> length (x_data q) \<le> x_size q \<and>
        (\<forall>i < x_size q. byte M (x_addr q + i) = (if i < length (x_data q) then x_data q ! i else 0))"
    and same: "\<forall>a. int a < sp \<longrightarrow> byte N a = byte M a" and sp: "al f + MB \<le> sp"
    using start_run [OF assms(1)] by (elim exE conjE) (rule that)
  have e: "sec_end q \<le> al f" using d assms(2) al_up [of f] by fastforce
  have "byte N (x_addr q + i) = (if i < length (x_data q) then x_data q ! i else 0)" if i: "i < x_size q" for i
  proof -
    have "int (x_addr q + i) < sp" using e i sp by (simp add: sec_end_def MB_def)
    then show ?thesis using same d assms(2) i by simp
  qed
  moreover have "map (\<lambda>s. (s_name s, s_at s, s_end s, s_flg s)) (r_seg (h_rv h')) =
      map (\<lambda>q. (x_name q, int (x_addr q), int (x_addr q) + int (x_size q), x_flg q)) (exe_sec x)"
    by (simp add: h' seg_of_sec_def)
  ultimately show ?thesis using e by (intro conjI) (simp_all add: h' sec_end_def fresh_rv_def seg_of_sec_def)
qed

theorem sections_loaded_witness:
  "\<exists>h'. run_start world0 tiny_lim tiny_exe [''a''] (call_host (call_regs 0 0)) = (Inr (), h') \<and>
     byte (r_m (h_rv h')) 65536 = 0x73 \<and> byte (r_m (h_rv h')) 65551 = 0 \<and> r_pc (h_rv h') = 65536"
proof -
  obtain h' where h': "run_start world0 tiny_lim tiny_exe [''a''] (call_host (call_regs 0 0)) = (Inr (), h')" using tiny_starts by blast
  have "tiny_sec \<in> set (exe_sec tiny_exe)" by (simp add: tiny_exe_def)
  note l = sections_loaded [OF h' this]
  have "byte (r_m (h_rv h')) (65536 + 0) = 0x73" "byte (r_m (h_rv h')) (65536 + 15) = 0" "r_pc (h_rv h') = 65536"
    using l [THEN conjunct1, rule_format, of 0] l [THEN conjunct1, rule_format, of 15] l by (simp_all add: tiny_sec_def tiny_exe_def)
  then show ?thesis using h' by simp
qed

text \<open>C19 A program finds its arguments: from its stack pointer on, which is a multiple of 16 within the stack and a megabyte above the heap at least, are the number of the arguments,
  the addresses of the arguments and of the environment, each list closed by 0, and the auxiliary values, by the numbers that
  \<open>elf.h\<close> gives them and with the meaning that \<^verbatim>\<open>linux/auxvec.h\<close> states, closed by \<open>AT_NULL\<close>, except that a program which runs with the identity of another (a
  set-user-id program) is not told so: its effective identities are given as the real ones and \<open>AT_SECURE\<close> as 0; at these addresses are the arguments and the environment of the process, as strings with a zero byte
  at the end, the name of the program, and 16 random bytes, none overwritten by another.\<close>

theorem arguments_found:
  assumes "run_start w lm x argv h = (Inr u, h')"
  shows "arguments_at w x (proc_at (h_k h) (h_pid h)) argv h' (xr 2 (h_rv h')) \<and> xr 2 (h_rv h') mod 16 = 0 \<and>
    r_stackAt (h_rv h') \<le> xr 2 (h_rv h') \<and> xr 2 (h_rv h') < int (exe_mem x) \<and> r_brk (h_rv h') + 1048576 \<le> xr 2 (h_rv h') \<and> h_k h' = h_k h"
proof -
  obtain N f sp where h': "h' = h\<lparr>h_rv := (fresh_rv N)\<lparr>r_seg := map seg_of_sec (exe_sec x), r_floor := f, r_brk := al f, r_mapAt := 0x4000000000,
       r_pc := int (exe_entry x), r_stackAt := int (exe_mem x) - max (1024 * 1024) (l_stack lm), r_x := (replicate 32 0)[2 := of_int sp]\<rparr>,
       h_done := False, h_code := 0, h_socks := [], h_ins := []\<rparr>"
    and args: "arguments_at w x (proc_at (h_k h) (h_pid h)) argv h' sp" and m: "int (exe_mem x) \<le> SAFE"
    and sp: "sp mod 16 = 0" "sp < int (exe_mem x)" "int (exe_mem x) - max (1024 * 1024) (l_stack lm) \<le> sp" "al f + MB \<le> sp"
    using start_run [OF assms] by (elim exE conjE) (rule that)
  have "0 \<le> sp" using args by (auto simp: arguments_at_def table_at_def)
  then have "sint (of_int sp :: u64) = sp" using sp(2) m by (simp add: sint_sbintrunc' signed_take_bit_int_eq_self SAFE_def)
  then have x2: "xr 2 (h_rv h') = sp" by (simp add: h' xr_def)
  show ?thesis unfolding x2 using sp args by (simp add: h' MB_def fresh_rv_def)
qed

theorem arguments_found_witness:
  "\<exists>h'. run_start world0 tiny_lim tiny_exe [''a''] (call_host (call_regs 0 0)) = (Inr (), h') \<and>
     arguments_at world0 tiny_exe (proc_at sys1 2) [''a''] h' (xr 2 (h_rv h')) \<and> xr 2 (h_rv h') mod 16 = 0"
proof -
  obtain h' where h': "run_start world0 tiny_lim tiny_exe [''a''] (call_host (call_regs 0 0)) = (Inr (), h')" using tiny_starts by blast
  show ?thesis using arguments_found [OF h'] h' by (simp add: call_host_def)
qed

end
