(* ===== verification/Spec2Isabelle.thy ===== *)
theory Spec2Isabelle
  imports CecBuild AbiTables VfsLimits KernelProps Tlv Vring RvLoad
begin

text \<open>
  Verification of the core of mikuOS, an operating system in a browser: a kernel in TypeScript (\<^verbatim>\<open>src/src\<close>) that runs RISC-V
  programs, and the root image (\<^verbatim>\<open>src/.thistle.base\<close>) with the C headers that these programs are compiled with.

  \<^bold>\<open>The program and the theories.\<close> \<open>Kernel\<close> keeps processes, pipes and a file system. A guest program is an ELF file; \<open>Elf\<close> makes
  sections of it, \<open>Rv64.run\<close> loads them into a paged memory and interprets instructions; at \<open>ecall\<close> it takes a call number and arguments from
  registers and memory, works on the kernel as its process, and puts a result or the number of an error in register 10.

  \<^item> \<open>Prelude\<close>, \<open>Kerr\<close>, \<open>Entries\<close>, \<open>Align\<close>, \<open>CLayout\<close>: words and bytes; computations with a state and errors, where what was
    assigned before a \<open>bad\<close> stays assigned; JavaScript maps as insertion-ordered lists, with their laws as the locale \<open>js_map\<close>; C alignment; C structures as bytes.
  \<^item> \<open>Path\<close>, \<open>Vfs\<close> (\<^verbatim>\<open>fs/vfs.ts\<close>): \<open>vfs\<close> is the list of nodes and the capacity; \<open>mkfile\<close>, \<open>writeb\<close>, \<open>mkdir\<close>, \<open>rm\<close>,
    \<open>rename\<close> and the others bear the names of the methods. \<open>VfsInv\<close>: the invariant, kept by every operation. \<open>VfsWalk\<close>, \<open>VfsProps\<close>,
    \<open>VfsLimits\<close>: what a walk finds, what each operation does to names and contents, permissions, capacity, and runs in which it fails its purpose.
  \<^item> \<open>Stream\<close> (\<open>Pipe\<close> of \<^verbatim>\<open>io/stream.ts\<close>), \<open>Proc\<close> (\<^verbatim>\<open>core/proc.ts\<close> and the credentials of \<^verbatim>\<open>core/sys.ts\<close>),
    \<open>Kernel\<close> (\<^verbatim>\<open>core/kernel.ts\<close> and the descriptors of \<^verbatim>\<open>core/sys.ts\<close>): \<open>pipe\<close>, \<open>proc\<close> and \<open>kern\<close> are the fields of the
    classes. \<open>KernelInv\<close> proves operation by operation, \<open>KernelRun\<close> over all reachable states (\<open>reaches\<close>), that pipe ends are counted exactly;
    \<open>KernelProps\<close> says what readers, writers, senders of signals and started programs get from it.
  \<^item> \<open>Mem64\<close> (\<^verbatim>\<open>vm/mem64.ts\<close>): pages made at need within a budget, shown to be a flat memory; the locale \<open>mem_store\<close> is what all stores share.
    \<open>Rv64\<close> (\<^verbatim>\<open>vm/rv64.ts\<close>): \<open>rv\<close> is the state of the interpreter, \<open>exec32\<close> and \<open>cstep\<close> its instructions, \<open>rv_step\<close> one turn. \<open>RvAlu\<close> and
    \<open>RvComp\<close> state the manual's meaning of integer and compressed instructions; \<open>RvProps\<close> compares, and shows that stores and fetches respect the rights.
  \<^item> \<open>RvMap\<close>: \<open>brk\<close>, \<open>mmap\<close>, \<open>mremap\<close>, \<open>munmap\<close> and \<open>msync\<close>, on a \<open>host\<close>, which joins interpreter, kernel and process.
    \<open>MapProps\<close> and \<open>MapClaims\<close>: their effect on the function from addresses to rights, places in files and bytes.
  \<^item> \<open>RvSys\<close>: every call of the dispatch, \<open>call\<close> and \<open>sys\<close>. \<open>HostInv\<close> (kernel and identity), \<open>HostMem\<close> (stores), \<open>HostRun\<close> (\<open>guest\<close>, the runs of
    a program with others at work between its steps) and \<open>HostClaims\<close>: what no program can do. The locale \<open>identity\<close> is what a property of a process must satisfy to survive every call.
    \<open>GuestAbi\<close>: what a C program reads from \<open>struct stat\<close> and \<open>struct dirent\<close>, and the numbers of calls and errors.
  \<^item> \<open>Elf\<close> (\<^verbatim>\<open>elf/elf.ts\<close> with \<^verbatim>\<open>elf.h\<close>), \<open>RvLoad\<close>: from the bytes of a file to the first state of the program, its sections, its arguments and
    its auxiliary values.
  \<^item> Headers of the root image with code of their own: \<open>Cec\<close>, \<open>CecProgram\<close>, \<open>CecDevice\<close>, \<open>CecControl\<close>, \<open>CecBuild\<close> (\<^verbatim>\<open>linux/cec.h\<close>,
    \<^verbatim>\<open>linux/cec-funcs.h\<close>: builders and readers of messages), \<open>ByteOrder\<close> (\<^verbatim>\<open>linux/swab.h\<close>, \<^verbatim>\<open>endian.h\<close> and others), \<open>Tlv\<close>
    (\<^verbatim>\<open>linux/tipc_config.h\<close>), \<open>Vring\<close> (\<^verbatim>\<open>linux/virtio_ring.h\<close>), \<open>AbiTables\<close> (the tables of calls and errors, as the preprocessor sees them).

  \<^bold>\<open>Bounds.\<close> A walk of a path has fuel 33, the code's own limit of links; a string argument 65536 characters, a vector 1024 places and a transfer
  \<open>MAX_IO\<close> bytes, all limits of the code that end in an error. New descriptors are the first free ones from 3 to 255. A CEC message has 16 bytes. Runs of guests and of the
  kernel are step relations without a bound, and no theorem about them uses fuel.

  \<^bold>\<open>Parameters.\<close> \<open>js\<close>: the floating point arithmetic of JavaScript. \<open>world\<close>, one for every call: the time and clocks, random bytes, what the source of a lazy file
  delivers, \<open>TextDecoder\<close> on bytes that are not UTF-8 of characters up to 255, the order of names, limits and names of the system, and whether a signal
  interrupts a sleep. The theorems hold for all of them.

  \<^bold>\<open>What the theorems on the kernel leave out.\<close> \<open>kern_step\<close> excludes three uses in which the code's counting of pipe ends fails, which \<open>KernelProps\<close> shows:
  opening \<open>/dev/tty\<close>; starting a program or session without a table of descriptors on streams that are pipes; and the end of a
  process without a table that has a pipe.

  \<^bold>\<open>What the theorems on guests leave out.\<close> A run is followed to the first call that the model leaves open (\<open>leave\<close>): \<open>clone\<close> and \<open>execve\<close>, whose child shares the
  interpreter of its parent; calls that wait for a pipe or for a living child; streams that are not pipes, terminals among them; a lazy file delivered with
  another length; times outside the exact numbers; \<open>pwrite\<close> before the start of a file. Where a theorem excepts more (\<open>/dev/tty\<close>, a file mapping that fails
  half-way), its text says so.

  \<^bold>\<open>Not modelled.\<close> The WebAssembly rebuild of the core (\<^verbatim>\<open>teto\<close>) and the two older machines (\<^verbatim>\<open>vm.ts\<close>, \<^verbatim>\<open>vm64.ts\<close>); the shell, the line discipline of
  terminals and the applications; globbing; the network and mounts; the host programs. The other vendored headers hold declarations without code.
\<close>

end
